(* ===== verification/Kernel_Prelude.thy ===== *)
theory Kernel_Prelude
  imports Main "HOL-Library.Word"
begin

text \<open>
  Shared vocabulary of the development: the machine integers of the 80386, the outcome of a
  kernel routine, and the generic lemmas the component theories use.

  A kernel routine takes the state it reads and returns an outcome. \<open>Ok\<close> is an ordinary
  return; \<open>Panic\<close> is a call of \<open>panic\<close> (src/kernel/panic.c, which prints and loops for
  ever); \<open>Exit\<close> is a call of \<open>do_exit\<close>, which never returns to its caller; \<open>Blocked\<close> is a
  task that is still asleep in \<open>sleep_on\<close>; \<open>Fault\<close> is an access outside the object the C
  code indexes, whose effect C leaves undefined. Every outcome carries the state reached.
\<close>

unbundle bit_operations_syntax

type_synonym u8 = "8 word"
type_synonym u16 = "16 word"
type_synonym u32 = "32 word"

datatype ('a, 's) kres =
    Ok 'a 's
  | Panic string 's
  | Exit u32 's
  | Blocked 's
  | Fault 's

primrec bindk :: "('a, 's) kres \<Rightarrow> ('a \<Rightarrow> 's \<Rightarrow> ('b, 's) kres) \<Rightarrow> ('b, 's) kres" where
  "bindk (Ok a s) f = f a s"
| "bindk (Panic m s) f = Panic m s"
| "bindk (Exit c s) f = Exit c s"
| "bindk (Blocked s) f = Blocked s"
| "bindk (Fault s) f = Fault s"

text \<open>The state an outcome carries, and the predicate transformer used for invariants.\<close>

primrec kstate :: "('a, 's) kres \<Rightarrow> 's" where
  "kstate (Ok a s) = s"
| "kstate (Panic m s) = s"
| "kstate (Exit c s) = s"
| "kstate (Blocked s) = s"
| "kstate (Fault s) = s"

primrec is_Ok :: "('a, 's) kres \<Rightarrow> bool" where
  "is_Ok (Ok a s) = True"
| "is_Ok (Panic m s) = False"
| "is_Ok (Exit c s) = False"
| "is_Ok (Blocked s) = False"
| "is_Ok (Fault s) = False"

named_theorems kdefs \<open>definitions of kernel routines that proofs may unfold\<close>

lemma bindk_eq_Ok_iff [simp]:
  "bindk m f = Ok b t \<longleftrightarrow> (\<exists>a s. m = Ok a s \<and> f a s = Ok b t)"
  by (cases m) auto

lemma bindk_assoc: "bindk (bindk m f) g = bindk m (\<lambda>a s. bindk (f a s) g)"
  by (cases m) auto

lemma bindk_Ok_right: "bindk m Ok = m"
  by (cases m) auto

lemma kstate_bindk_inv:
  assumes "P (kstate m)" and "\<And>a s. m = Ok a s \<Longrightarrow> P (kstate (f a s))"
  shows "P (kstate (bindk m f))"
  using assms by (cases m) auto

end
