(* ===== verification/Mm_Memory.thy ===== *)
theory Mm_Memory
  imports Kernel_Prelude
begin

text \<open>
  Physical memory management, src/mm/memory.c: the page map, the page allocator, the page
  tables of the running tasks, copy-on-write and start-up.

  Physical memory is a function from the address of an aligned 32-bit word to its contents;
  the page directory is at physical address 0, as the code relies on (\<open>_pg_dir = 0\<close>).
  \<open>mem_map\<close> is the array of reference counts, indexed below \<open>PAGING_PAGES\<close>; an index past
  it is a \<open>Fault\<close>. \<open>klog\<close> records the format strings given to \<open>printk\<close> and
  \<open>cr3_loads\<close> counts the reloads of CR3 by \<open>invalidate()\<close>.
\<close>

record mm_state =
  mem_map :: "nat \<Rightarrow> u8"
  phys :: "u32 \<Rightarrow> u32"
  HIGH_MEMORY :: u32
  klog :: "string list"
  cr3_loads :: nat

abbreviation (input) LOW_MEM :: u32 where "LOW_MEM \<equiv> 0x100000"
abbreviation (input) PAGING_PAGES :: nat where "PAGING_PAGES \<equiv> 3840"
abbreviation (input) USED :: u8 where "USED \<equiv> 100"
abbreviation (input) SIGSEGV :: u32 where "SIGSEGV \<equiv> 11"

definition MAP_NR :: "u32 \<Rightarrow> nat" where
  "MAP_NR addr = unat (drop_bit 12 (addr - LOW_MEM))"

definition printk :: "string \<Rightarrow> 'z mm_state_scheme \<Rightarrow> 'z mm_state_scheme" where
  "printk msg s = s\<lparr>klog := klog s @ [msg]\<rparr>"

definition invalidate :: "'z mm_state_scheme \<Rightarrow> 'z mm_state_scheme" where
  "invalidate s = s\<lparr>cr3_loads := Suc (cr3_loads s)\<rparr>"

definition oom :: "'z mm_state_scheme \<Rightarrow> ('a, 'z mm_state_scheme) kres" where
  "oom s = Exit SIGSEGV (printk ''out of memory'' s)"

definition load :: "'z mm_state_scheme \<Rightarrow> u32 \<Rightarrow> u32" where
  "load s a = phys s a"

definition store :: "u32 \<Rightarrow> u32 \<Rightarrow> 'z mm_state_scheme \<Rightarrow> 'z mm_state_scheme" where
  "store a v s = s\<lparr>phys := (phys s)(a := v)\<rparr>"

text \<open>The string instructions the code uses on pages of 1024 aligned words:
  \<open>rep stosl\<close> and \<open>rep movsl\<close>.\<close>

definition in_page :: "u32 \<Rightarrow> u32 \<Rightarrow> bool" where
  "in_page page a \<longleftrightarrow> a AND 0xfffff000 = page"

definition stosl_page :: "u32 \<Rightarrow> u32 \<Rightarrow> (u32 \<Rightarrow> u32) \<Rightarrow> u32 \<Rightarrow> u32" where
  "stosl_page page v m = (\<lambda>a. if in_page page a then v else m a)"

definition copy_page :: "u32 \<Rightarrow> u32 \<Rightarrow> 'z mm_state_scheme \<Rightarrow> 'z mm_state_scheme" where
  "copy_page from to s =
     s\<lparr>phys := (\<lambda>a. if in_page to a then phys s (from + (a - to)) else phys s a)\<rparr>"

definition present :: "u32 \<Rightarrow> bool" where
  "present e \<longleftrightarrow> 1 AND e \<noteq> 0"

definition frame :: "u32 \<Rightarrow> u32" where
  "frame e = 0xfffff000 AND e"

definition write_protect :: "u32 \<Rightarrow> u32" where
  "write_protect e = e AND NOT 2"

subsection \<open>The page map\<close>

text \<open>\<open>std; repne; scasb\<close>: the scan runs downwards over the \<open>n\<close> bytes below the end of the
  map and stops at the first zero.\<close>

fun scan_map :: "(nat \<Rightarrow> u8) \<Rightarrow> nat \<Rightarrow> nat option" where
  "scan_map m 0 = None"
| "scan_map m (Suc n) = (if m n = 0 then Some n else scan_map m n)"

definition get_free_page :: "'z mm_state_scheme \<Rightarrow> u32 \<times> 'z mm_state_scheme" where
  "get_free_page s =
     (case scan_map (mem_map s) PAGING_PAGES of
        None \<Rightarrow> (0, s)
      | Some i \<Rightarrow>
          (let page = push_bit 12 (of_nat i) + LOW_MEM
           in (page, s\<lparr>mem_map := (mem_map s)(i := 1),
                       phys := stosl_page page 0 (phys s)\<rparr>)))"

definition free_page :: "u32 \<Rightarrow> 'z mm_state_scheme \<Rightarrow> (unit, 'z mm_state_scheme) kres" where
  "free_page addr s =
     (if addr < LOW_MEM then Ok () s
      else if addr \<ge> HIGH_MEMORY s then Panic ''trying to free nonexistent page'' s
      else let i = MAP_NR addr in
        if \<not> i < PAGING_PAGES then Fault s
        else if mem_map s i \<noteq> 0
        then Ok () (s\<lparr>mem_map := (mem_map s)(i := mem_map s i - 1)\<rparr>)
        else Panic ''trying to free free page'' (s\<lparr>mem_map := (mem_map s)(i := 0)\<rparr>))"

subsection \<open>Releasing and copying page tables\<close>

text \<open>The inner loop over the \<open>n\<close> remaining entries of a page table.\<close>

fun free_table_loop :: "nat \<Rightarrow> u32 \<Rightarrow> 'z mm_state_scheme \<Rightarrow> (unit, 'z mm_state_scheme) kres" where
  "free_table_loop 0 pg_table s = Ok () s"
| "free_table_loop (Suc n) pg_table s =
     bindk (if present (load s pg_table) then free_page (frame (load s pg_table)) s else Ok () s)
       (\<lambda>_ s. free_table_loop n (pg_table + 4) (store pg_table 0 s))"

fun free_dir_loop :: "nat \<Rightarrow> u32 \<Rightarrow> 'z mm_state_scheme \<Rightarrow> (unit, 'z mm_state_scheme) kres" where
  "free_dir_loop 0 dir s = Ok () s"
| "free_dir_loop (Suc n) dir s =
     (if \<not> present (load s dir) then free_dir_loop n (dir + 4) s
      else bindk (free_table_loop 1024 (frame (load s dir)) s)
        (\<lambda>_ s. bindk (free_page (frame (load s dir)) s)
        (\<lambda>_ s. free_dir_loop n (dir + 4) (store dir 0 s))))"

definition dir_ptr :: "u32 \<Rightarrow> u32" where
  "dir_ptr addr = drop_bit 20 addr AND 0xffc"

definition free_page_tables ::
    "u32 \<Rightarrow> u32 \<Rightarrow> 'z mm_state_scheme \<Rightarrow> (int, 'z mm_state_scheme) kres" where
  "free_page_tables from sz s =
     (if from AND 0x3fffff \<noteq> 0 then Panic ''free_page_tables called with wrong alignment'' s
      else if from = 0 then Panic ''Trying to free up swapper memory space'' s
      else let sz = drop_bit 22 (sz + 0x3fffff) in
        bindk (free_dir_loop (unat sz) (dir_ptr from) s)
          (\<lambda>_ s. Ok 0 (invalidate s)))"

text \<open>The inner loop of \<open>copy_page_tables\<close> over the \<open>n\<close> remaining entries: every present
  entry is copied read-only, and an entry above \<open>LOW_MEM\<close> is made read-only in the source
  too and counted once more.\<close>

fun copy_table_loop ::
    "nat \<Rightarrow> u32 \<Rightarrow> u32 \<Rightarrow> 'z mm_state_scheme \<Rightarrow> (unit, 'z mm_state_scheme) kres" where
  "copy_table_loop 0 from_page_table to_page_table s = Ok () s"
| "copy_table_loop (Suc n) from_page_table to_page_table s =
     (let this_page = load s from_page_table in
      if \<not> present this_page
      then copy_table_loop n (from_page_table + 4) (to_page_table + 4) s
      else let this_page = write_protect this_page;
               s = store to_page_table this_page s in
        if this_page > LOW_MEM
        then let s = store from_page_table this_page s;
                 i = unat (drop_bit 12 (this_page - LOW_MEM)) in
          if \<not> i < PAGING_PAGES then Fault s
          else copy_table_loop n (from_page_table + 4) (to_page_table + 4)
                 (s\<lparr>mem_map := (mem_map s)(i := mem_map s i + 1)\<rparr>)
        else copy_table_loop n (from_page_table + 4) (to_page_table + 4) s)"

text \<open>The result of the loop over the directory: \<open>-1\<close> when no page is left for a table.\<close>

fun copy_dir_loop ::
    "nat \<Rightarrow> u32 \<Rightarrow> u32 \<Rightarrow> u32 \<Rightarrow> 'z mm_state_scheme \<Rightarrow> (int, 'z mm_state_scheme) kres" where
  "copy_dir_loop 0 from from_dir to_dir s = Ok 0 (invalidate s)"
| "copy_dir_loop (Suc n) from from_dir to_dir s =
     (if present (load s to_dir) then Panic ''copy_page_tables: already exist'' s
      else if \<not> present (load s from_dir)
      then copy_dir_loop n from (from_dir + 4) (to_dir + 4) s
      else let from_page_table = frame (load s from_dir);
               (to_page_table, s) = get_free_page s in
        if to_page_table = 0 then Ok (-1) s
        else bindk (copy_table_loop (if from = 0 then 0xA0 else 1024)
                      from_page_table to_page_table (store to_dir (to_page_table OR 7) s))
          (\<lambda>_ s. copy_dir_loop n from (from_dir + 4) (to_dir + 4) s))"

definition copy_page_tables ::
    "u32 \<Rightarrow> u32 \<Rightarrow> u32 \<Rightarrow> 'z mm_state_scheme \<Rightarrow> (int, 'z mm_state_scheme) kres" where
  "copy_page_tables from to sz s =
     (if from AND 0x3fffff \<noteq> 0 \<or> to AND 0x3fffff \<noteq> 0
      then Panic ''copy_page_tables called with wrong alignment'' s
      else copy_dir_loop (unat (drop_bit 22 (sz + 0x3fffff))) from (dir_ptr from) (dir_ptr to) s)"

subsection \<open>Entering a page\<close>

definition put_page ::
    "u32 \<Rightarrow> u32 \<Rightarrow> 'z mm_state_scheme \<Rightarrow> (u32, 'z mm_state_scheme) kres" where
  "put_page page address s =
     (let s = (if page < LOW_MEM \<or> page \<ge> HIGH_MEMORY s
               then printk ''Trying to put page %p at %p'' s else s) in
      if \<not> MAP_NR page < PAGING_PAGES then Fault s
      else
        let s = (if mem_map s (MAP_NR page) \<noteq> 1
                 then printk ''mem_map disagrees with %p at %p'' s else s);
            page_table = dir_ptr address;
            slot = 4 * (drop_bit 12 address AND 0x3ff) in
        if present (load s page_table)
        then Ok page (store (frame (load s page_table) + slot) (page OR 7) s)
        else
          let (tmp, s) = get_free_page s in
          if tmp = 0 then Ok 0 s
          else Ok page (store (tmp + slot) (page OR 7) (store page_table (tmp OR 7) s)))"

definition un_wp_page ::
    "u32 \<Rightarrow> 'z mm_state_scheme \<Rightarrow> (unit, 'z mm_state_scheme) kres" where
  "un_wp_page table_entry s =
     (let old_page = frame (load s table_entry) in
      if old_page \<ge> LOW_MEM \<and> \<not> MAP_NR old_page < PAGING_PAGES then Fault s
      else if old_page \<ge> LOW_MEM \<and> mem_map s (MAP_NR old_page) = 1
      then Ok () (invalidate (store table_entry (load s table_entry OR 2) s))
      else
        let (new_page, s) = get_free_page s in
        if new_page = 0 then oom s
        else
          let s = (if old_page \<ge> LOW_MEM
                   then s\<lparr>mem_map := (mem_map s)
                            (MAP_NR old_page := mem_map s (MAP_NR old_page) - 1)\<rparr>
                   else s) in
          Ok () (copy_page old_page new_page (invalidate (store table_entry (new_page OR 7) s))))"

definition do_wp_page ::
    "u32 \<Rightarrow> u32 \<Rightarrow> 'z mm_state_scheme \<Rightarrow> (unit, 'z mm_state_scheme) kres" where
  "do_wp_page error_code address s =
     un_wp_page ((drop_bit 10 address AND 0xffc) + frame (load s (dir_ptr address))) s"

definition write_verify ::
    "u32 \<Rightarrow> 'z mm_state_scheme \<Rightarrow> (unit, 'z mm_state_scheme) kres" where
  "write_verify address s =
     (let page = load s (dir_ptr address) in
      if \<not> present page then Ok () s
      else
        let page = frame page + (drop_bit 10 address AND 0xffc) in
        if 3 AND load s page = 1 then un_wp_page page s else Ok () s)"

definition get_empty_page ::
    "u32 \<Rightarrow> 'z mm_state_scheme \<Rightarrow> (unit, 'z mm_state_scheme) kres" where
  "get_empty_page address s =
     (let (tmp, s) = get_free_page s in
      if tmp = 0 then bindk (free_page tmp s) (\<lambda>_ s. oom s)
      else bindk (put_page tmp address s)
        (\<lambda>r s. if r = 0 then bindk (free_page tmp s) (\<lambda>_ s. oom s) else Ok () s))"

subsection \<open>Start-up and statistics\<close>

text \<open>\<open>while (end_mem-- > 0) mem_map[i++] = 0\<close> for \<open>n\<close> more rounds; \<open>long\<close> values are
  integers here, as they stay far below \<open>2 ^ 31\<close>.\<close>

fun mem_init_loop :: "nat \<Rightarrow> int \<Rightarrow> 'z mm_state_scheme \<Rightarrow> (unit, 'z mm_state_scheme) kres" where
  "mem_init_loop 0 i s = Ok () s"
| "mem_init_loop (Suc n) i s =
     (if 0 \<le> i \<and> nat i < PAGING_PAGES
      then mem_init_loop n (i + 1) (s\<lparr>mem_map := (mem_map s)(nat i := 0)\<rparr>)
      else Fault s)"

definition mem_init ::
    "int \<Rightarrow> int \<Rightarrow> 'z mm_state_scheme \<Rightarrow> (unit, 'z mm_state_scheme) kres" where
  "mem_init start_mem end_mem s =
     mem_init_loop (nat ((end_mem - start_mem) div 4096)) ((start_mem - 0x100000) div 4096)
       (s\<lparr>HIGH_MEMORY := word_of_int end_mem,
          mem_map := (\<lambda>i. if i < PAGING_PAGES then USED else mem_map s i)\<rparr>)"

text \<open>\<open>calc_mem\<close> prints counts; the model returns them: the free pages, and for every present
  directory entry from 2 on the number of present entries of its table.\<close>

definition calc_mem :: "'z mm_state_scheme \<Rightarrow> nat \<times> (nat \<times> nat) list" where
  "calc_mem s =
     (length (filter (\<lambda>i. mem_map s i = 0) [0..<PAGING_PAGES]),
      map (\<lambda>i. (i, length (filter (\<lambda>j. present (load s (frame (load s (4 * of_nat i)) + 4 * of_nat j)))
                           [0..<1024])))
        (filter (\<lambda>i. present (load s (4 * of_nat i))) [2..<1024]))"

end
