(* ===== verification/Kernel_Words.thy ===== *)
theory Kernel_Words
  imports Kernel_Prelude
begin

text \<open>
  Bit-level facts about 32-bit addresses: a linear address splits into a directory index
  (bits 22 to 31), a table index (bits 12 to 21) and an offset; a table entry splits into a
  frame and twelve flag bits.
\<close>

definition aligned12 :: "u32 \<Rightarrow> bool" where
  "aligned12 p \<longleftrightarrow> p AND 0xfff = 0"

definition slot :: "u32 \<Rightarrow> u32" where
  "slot a = 4 * (drop_bit 12 a AND 0x3ff)"

lemma frame_mask: "(0xfffff000 :: u32) = NOT (mask 12)"
  by (simp add: mask_eq_exp_minus_1)

lemma fff_mask: "(0xfff :: u32) = mask 12"
  by (simp add: mask_eq_exp_minus_1)

lemma ffc_mask: "(0xffc :: u32) = push_bit 2 (mask 10)"
  by (simp add: mask_eq_exp_minus_1 push_bit_eq_mult)

lemma x3ff_mask: "(0x3ff :: u32) = mask 10"
  by (simp add: mask_eq_exp_minus_1)

lemma mult4_push: "4 * (x :: u32) = push_bit 2 x"
  by (simp add: push_bit_eq_mult)

lemma seven_mask: "(7 :: u32) = mask 3"
  by (simp add: mask_eq_exp_minus_1)

lemma slot_push: "slot a = push_bit 2 (drop_bit 12 a AND mask 10)"
  by (simp add: slot_def mult4_push x3ff_mask)

lemma aligned12_bit: "aligned12 p \<longleftrightarrow> (\<forall>n<12. \<not> bit p n)"
proof
  assume a: "aligned12 p"
  have "bit (p AND mask 12) n = bit p n" if "n < 12" for n
    using that by (simp add: bit_simps)
  with a show "\<forall>n<12. \<not> bit p n" by (simp add: aligned12_def fff_mask)
qed (auto simp: aligned12_def fff_mask bit_eq_iff bit_simps)

lemma dir_off_eq: "drop_bit 20 (a :: u32) AND 0xffc = push_bit 2 (drop_bit 22 a)"
  unfolding ffc_mask 
  by (rule bit_word_eqI) (auto simp: bit_simps dest: bit_imp_le_length)

lemma slot_eq: "drop_bit 10 (a :: u32) AND 0xffc = slot a"
  unfolding ffc_mask x3ff_mask mult4_push slot_def
  by (rule bit_word_eqI) (auto simp: bit_simps)

lemma bit_slot: "bit (slot a) n \<longleftrightarrow> 2 \<le> n \<and> n < 12 \<and> bit a (n + 10)"
  by (auto simp: slot_push bit_simps add.commute)

lemma aligned_plus_slot: "aligned12 p \<Longrightarrow> p + slot a = p OR slot a"
  by (rule disjunctive_add_eq_or) (auto simp: bit_eq_iff bit_simps bit_slot aligned12_bit)

lemma frame_plus_slot: "aligned12 p \<Longrightarrow> (p + slot a) AND 0xfffff000 = p"
  unfolding frame_mask aligned_plus_slot
  by (rule bit_word_eqI) (auto simp: bit_simps bit_slot aligned12_bit)

lemma aligned12_frame: "aligned12 (0xfffff000 AND e)"
  by (auto simp: aligned12_bit frame_mask bit_simps)

lemma frame_aligned: "aligned12 p \<Longrightarrow> 0xfffff000 AND p = p"
  unfolding frame_mask
  by (rule bit_word_eqI) (auto simp: bit_simps aligned12_bit)

lemma frame_flags: "aligned12 p \<Longrightarrow> 0xfffff000 AND (p OR 7) = p"
  unfolding frame_mask seven_mask
  by (rule bit_word_eqI) (auto simp: bit_simps aligned12_bit)

lemma present_flags: "1 AND (p OR 7 :: u32) \<noteq> 0"
proof -
  have "bit (1 AND (p OR 7 :: u32)) 0" by (simp add: bit_simps)
  then show ?thesis by auto
qed

lemma slot_inj:
  assumes "aligned12 p" "aligned12 q" "p + slot a = q + slot b"
  shows "p = q \<and> slot a = slot b"
proof -
  have "p = q" using assms frame_plus_slot by metis
  with assms(3) show ?thesis by simp
qed

lemma page_of_dir_slot:
  "drop_bit 22 a = drop_bit 22 b \<Longrightarrow> slot a = slot b \<Longrightarrow> drop_bit 12 a = drop_bit 12 (b :: u32)"
proof -
  assume d: "drop_bit 22 a = drop_bit 22 b" and s: "slot a = slot b"
  have "bit a (n + 12) = bit b (n + 12)" for n
  proof (cases "n < 10")
    case True
    then have "bit (slot a) (n + 2) = bit a (n + 12)" "bit (slot b) (n + 2) = bit b (n + 12)"
      by (simp_all add: bit_slot add.commute)
    with s show ?thesis by simp
  next
    case False
    then have "bit (drop_bit 22 a) (n - 10) = bit a (n + 12)" "bit (drop_bit 22 b) (n - 10) = bit b (n + 12)"
      by (simp_all add: bit_simps add.commute)
    with d show ?thesis by simp
  qed
  then show ?thesis by (intro bit_word_eqI) (simp add: bit_simps add.commute)
qed

lemma page_imp_dir_slot:
  "drop_bit 12 a = drop_bit 12 (b :: u32) \<Longrightarrow> drop_bit 22 a = drop_bit 22 b \<and> slot a = slot b"
proof -
  assume e: "drop_bit 12 a = drop_bit 12 b"
  have "drop_bit 10 (drop_bit 12 a) = drop_bit 10 (drop_bit 12 b)" using e by simp
  then have "drop_bit 22 a = drop_bit 22 b" by (simp only: drop_bit_drop_bit) simp
  then show ?thesis using e by (simp add: slot_def)
qed

lemma dir_off_inj: "push_bit 2 (drop_bit 22 (a :: u32)) = push_bit 2 (drop_bit 22 b) \<longleftrightarrow> drop_bit 22 a = drop_bit 22 b"
proof
  assume "push_bit 2 (drop_bit 22 a) = push_bit 2 (drop_bit 22 b)"
  then have "drop_bit 2 (push_bit 2 (drop_bit 22 a)) = drop_bit 2 (push_bit 2 (drop_bit 22 b))" by simp
  moreover have "drop_bit 2 (push_bit 2 (drop_bit 22 x)) = drop_bit 22 x" for x :: u32
    by (rule bit_word_eqI) (auto simp: bit_simps dest: bit_imp_le_length)
  ultimately show "drop_bit 22 a = drop_bit 22 b" by simp
qed simp

lemma dir_off_page0: "push_bit 2 (drop_bit 22 (a :: u32)) AND 0xfffff000 = 0"
  unfolding frame_mask
  by (rule bit_word_eqI) (auto simp: bit_simps dest: bit_imp_le_length)

end
