(* ===== verification/Mm_Paging.thy ===== *)
theory Mm_Paging
  imports Mm_Memory Kernel_Words
begin

text \<open>
  What src/mm/memory.c guarantees. The specification side: \<open>walk\<close> is the two-level
  translation the 80386 performs from the page directory at address 0, \<open>read_lin\<close> the word a
  task reads through it, \<open>tables_wf\<close> the well-formedness of the directory (page tables are
  allocated pages, no two directory entries share one), \<open>refs_in\<close> the number of counted
  references a table holds to a page. The lemmas lead from the allocator and the entry-level
  stores to the statements on \<open>put_page\<close>, \<open>do_wp_page\<close> and the table loops.
\<close>

definition page_addr :: "nat \<Rightarrow> u32" where
  "page_addr i = push_bit 12 (of_nat i) + LOW_MEM"

definition pte_ptr :: "'z mm_state_scheme \<Rightarrow> u32 \<Rightarrow> u32" where
  "pte_ptr s a = frame (load s (dir_ptr a)) + slot a"

definition walk :: "'z mm_state_scheme \<Rightarrow> u32 \<Rightarrow> u32 option" where
  "walk s a =
     (if present (load s (dir_ptr a)) \<and> present (load s (pte_ptr s a))
      then Some (load s (pte_ptr s a)) else None)"

definition tables_wf :: "'z mm_state_scheme \<Rightarrow> bool" where
  "tables_wf s \<longleftrightarrow>
     (\<forall>a. present (load s (dir_ptr a)) \<longrightarrow>
        frame (load s (dir_ptr a)) \<noteq> 0 \<and>
        (LOW_MEM \<le> frame (load s (dir_ptr a)) \<longrightarrow>
           mem_map s (MAP_NR (frame (load s (dir_ptr a)))) \<noteq> 0) \<and>
        (\<forall>b. present (load s (dir_ptr b)) \<longrightarrow>
           frame (load s (dir_ptr b)) = frame (load s (dir_ptr a)) \<longrightarrow> dir_ptr a = dir_ptr b))"

definition enter_pte :: "u32 \<Rightarrow> u32 \<Rightarrow> 'z mm_state_scheme \<Rightarrow> 'z mm_state_scheme" where
  "enter_pte page address s = store (pte_ptr s address) (page OR 7) s"

definition read_lin :: "'z mm_state_scheme \<Rightarrow> u32 \<Rightarrow> u32 option" where
  "read_lin s a = map_option (\<lambda>e. load s (frame e + (a AND 0xffc))) (walk s a)"

definition user_page :: "'z mm_state_scheme \<Rightarrow> u32 \<Rightarrow> bool" where
  "user_page s p \<longleftrightarrow> p \<noteq> 0 \<and>
     (LOW_MEM \<le> p \<longrightarrow> MAP_NR p < PAGING_PAGES \<and> mem_map s (MAP_NR p) \<noteq> 0) \<and>
     (\<forall>b. present (load s (dir_ptr b)) \<longrightarrow> frame (load s (dir_ptr b)) \<noteq> p)"

definition entry :: "u32 \<Rightarrow> nat \<Rightarrow> u32" where
  "entry p k = p + 4 * of_nat k"

definition counted :: "u32 \<Rightarrow> bool" where
  "counted e \<longleftrightarrow> present e \<and> LOW_MEM \<le> frame e"

definition refs_in :: "'z mm_state_scheme \<Rightarrow> u32 \<Rightarrow> nat \<Rightarrow> nat \<Rightarrow> nat" where
  "refs_in s p n i = card {k. k < n \<and> counted (load s (entry p k)) \<and> MAP_NR (frame (load s (entry p k))) = i}"

lemma scan_map_None: "scan_map m n = None \<longleftrightarrow> (\<forall>i<n. m i \<noteq> 0)"
  by (induction n) (auto simp: less_Suc_eq)

lemma scan_map_Some:
  "scan_map m n = Some i \<longleftrightarrow> i < n \<and> m i = 0 \<and> (\<forall>j<n. i < j \<longrightarrow> m j \<noteq> 0)"
  by (induction n) (auto simp: less_Suc_eq)

lemma unat_page_addr: "i < PAGING_PAGES \<Longrightarrow> unat (page_addr i) = i * 4096 + 0x100000"
  by (simp add: page_addr_def push_bit_eq_mult unat_word_ariths unat_of_nat)

lemma page_addr_ge: "i < PAGING_PAGES \<Longrightarrow> LOW_MEM \<le> page_addr i"
  by (simp add: word_le_nat_alt unat_page_addr)

lemma page_addr_nz: "i < PAGING_PAGES \<Longrightarrow> page_addr i \<noteq> 0"
  using unat_page_addr[of i] by auto

lemma page_addr_lt: "i < PAGING_PAGES \<Longrightarrow> page_addr i < 0x1000000"
  by (simp add: word_less_nat_alt unat_page_addr)

lemma page_addr_aligned: "aligned12 (page_addr i)"
proof -
  have "page_addr i = push_bit 12 (of_nat i + 0x100)"
    by (simp add: page_addr_def push_bit_eq_mult ring_distribs)
  then show ?thesis by (simp add: aligned12_bit bit_simps)
qed

lemma MAP_NR_page_addr [simp]: "i < PAGING_PAGES \<Longrightarrow> MAP_NR (page_addr i) = i"
  by (simp add: MAP_NR_def page_addr_def drop_bit_eq_div push_bit_eq_mult unat_div unat_word_ariths unat_of_nat)

lemma aligned12_unat: "aligned12 p \<longleftrightarrow> unat p mod 4096 = 0"
proof -
  have "aligned12 p \<longleftrightarrow> unat (take_bit 12 p) = 0"
    by (simp add: aligned12_def fff_mask take_bit_eq_mask unat_eq_zero)
  then show ?thesis by (simp add: take_bit_eq_mod unat_mod)
qed

lemma aligned12_push: "aligned12 p \<Longrightarrow> push_bit 12 (drop_bit 12 p) = p"
proof (rule bit_word_eqI)
  fix n assume "aligned12 p" "n < LENGTH(32)"
  then show "bit (push_bit 12 (drop_bit 12 p)) n = bit p n"
    by (cases "n < 12") (auto simp: bit_simps aligned12_bit)
qed

lemma page_addr_MAP_NR:
  assumes "aligned12 p" "LOW_MEM \<le> p"
  shows "page_addr (MAP_NR p) = p"
proof -
  have u: "unat (p - LOW_MEM) = unat p - 0x100000"
    using assms(2) by (simp add: unat_sub)
  have ge: "0x100000 \<le> unat p" using assms(2) by (simp add: word_le_nat_alt)
  have "unat (p - LOW_MEM) mod 4096 = 0"
  proof -
    from assms(1) obtain k where "unat p = 4096 * k" unfolding aligned12_unat by (auto elim: dvdE)
    then have "unat p - 0x100000 = 4096 * (k - 256)" by simp
    then show ?thesis unfolding u by simp
  qed
  then have "aligned12 (p - LOW_MEM)" by (simp add: aligned12_unat)
  then have "push_bit 12 (drop_bit 12 (p - LOW_MEM)) = p - LOW_MEM"
    by (rule aligned12_push)
  then show ?thesis by (simp add: page_addr_def MAP_NR_def)
qed

lemma MAP_NR_eq_iff:
  "aligned12 p \<Longrightarrow> aligned12 q \<Longrightarrow> LOW_MEM \<le> p \<Longrightarrow> LOW_MEM \<le> q \<Longrightarrow> MAP_NR p = MAP_NR q \<longleftrightarrow> p = q"
  using page_addr_MAP_NR by metis

lemma get_free_page_None:
  "\<forall>i<PAGING_PAGES. mem_map s i \<noteq> 0 \<Longrightarrow> get_free_page s = (0, s)"
  by (simp add: get_free_page_def iffD2[OF scan_map_None])

lemma get_free_page_cases:
  obtains (full) "\<forall>i<PAGING_PAGES. mem_map s i \<noteq> 0" "get_free_page s = (0, s)"
  | (page) i where "i < PAGING_PAGES" "mem_map s i = 0" "\<forall>j<PAGING_PAGES. i < j \<longrightarrow> mem_map s j \<noteq> 0"
      "get_free_page s = (page_addr i, s\<lparr>mem_map := (mem_map s)(i := 1),
                            phys := stosl_page (page_addr i) 0 (phys s)\<rparr>)"
proof (cases "scan_map (mem_map s) PAGING_PAGES")
  case None
  then show ?thesis using full scan_map_None[of "mem_map s" PAGING_PAGES] by (simp add: get_free_page_def)
next
  case (Some i)
  then have "i < PAGING_PAGES \<and> mem_map s i = 0 \<and> (\<forall>j<PAGING_PAGES. i < j \<longrightarrow> mem_map s j \<noteq> 0)"
    by (rule iffD1 [OF scan_map_Some])
  with Some show ?thesis using page[of i] by (simp add: get_free_page_def page_addr_def Let_def)
qed


lemma dir_ptr_eq: "dir_ptr a = push_bit 2 (drop_bit 22 a)"
  by (simp add: dir_ptr_def dir_off_eq)

lemma dir_ptr_page0: "dir_ptr a AND 0xfffff000 = 0"
  by (simp add: dir_ptr_eq dir_off_page0)

lemma same_page_iff:
  "drop_bit 12 a = drop_bit 12 b \<longleftrightarrow> dir_ptr a = dir_ptr b \<and> slot a = slot b"
  using page_of_dir_slot page_imp_dir_slot unfolding dir_ptr_eq dir_off_inj by blast

lemma aligned_frame [simp, intro]: "aligned12 (frame e)"
  by (simp add: frame_def aligned12_frame)

lemma frame_slot_page: "aligned12 p \<Longrightarrow> (p + slot a) AND 0xfffff000 = p"
  by (rule frame_plus_slot)

lemma dir_ptr_not_table: "aligned12 p \<Longrightarrow> p \<noteq> 0 \<Longrightarrow> dir_ptr a \<noteq> p + slot b"
  using dir_ptr_page0 frame_plus_slot by metis

lemma present_OR7 [simp]: "present (p OR 7)"
  using present_flags by (simp add: present_def)

lemma frame_OR7 [simp]: "aligned12 p \<Longrightarrow> frame (p OR 7) = p"
  using frame_flags by (simp add: frame_def)

lemma load_store [simp]: "load (store a v s) b = (if a = b then v else load s b)"
  by (simp add: load_def store_def)

lemma mem_map_store [simp]: "mem_map (store a v s) = mem_map s"
  by (simp add: store_def)

lemma printk_simps [simp]:
  "load (printk m s) = load s" "mem_map (printk m s) = mem_map s" "HIGH_MEMORY (printk m s) = HIGH_MEMORY s"
  by (simp_all add: printk_def load_def fun_eq_iff)

lemma put_page_existing:
  assumes wf: "tables_wf s" and p: "aligned12 page" "MAP_NR page < PAGING_PAGES" 
    and d: "present (load s (dir_ptr address))"
  shows "\<exists>s'. put_page page address s = Ok page s' \<and>
    (\<forall>b. load s' b = (if b = pte_ptr s address then page OR 7 else load s b)) \<and> mem_map s' = mem_map s"
  using p d by (auto simp: put_page_def Let_def pte_ptr_def slot_def)

lemma walk_store_pte_frame:
  assumes wf: "tables_wf s" and d: "present (load s (dir_ptr address))"
    and l: "\<And>b. b \<notin> N \<Longrightarrow> load s' b = (if b = pte_ptr s address then v else load s b)"
    and N: "\<And>c. dir_ptr c \<notin> N" "\<And>c. present (load s (dir_ptr c)) \<Longrightarrow> pte_ptr s c \<notin> N"
  shows "walk s' a = (if drop_bit 12 a = drop_bit 12 address then if present v then Some v else None else walk s a)"
    and "load s' (dir_ptr c) = load s (dir_ptr c)"
proof -
  have nd: "dir_ptr b \<noteq> pte_ptr s address" for b
    using wf d unfolding pte_ptr_def tables_wf_def by (intro dir_ptr_not_table) auto
  then show ld: "load s' (dir_ptr c) = load s (dir_ptr c)" for c by (simp add: l N)
  have pp: "pte_ptr s' b = pte_ptr s b" for b
    by (simp add: pte_ptr_def ld)
  have "present (load s (dir_ptr a)) \<Longrightarrow> pte_ptr s a = pte_ptr s address \<longleftrightarrow> drop_bit 12 a = drop_bit 12 address"
    using wf d slot_inj[of "frame (load s (dir_ptr a))" "frame (load s (dir_ptr address))" a address]
    unfolding same_page_iff tables_wf_def by (auto simp: pte_ptr_def)
  with d show "walk s' a = (if drop_bit 12 a = drop_bit 12 address then if present v then Some v else None else walk s a)"
    unfolding walk_def pp ld using l[OF N(2), of a] by (auto simp: same_page_iff)
qed

lemmas walk_store_pte = walk_store_pte_frame(1)[where N = "{}", simplified]

lemma in_page_dir: "p \<noteq> 0 \<Longrightarrow> \<not> in_page p (dir_ptr a)"
  by (simp add: in_page_def dir_ptr_page0)

lemma in_page_slot: "aligned12 q \<Longrightarrow> in_page p (q + slot a) \<longleftrightarrow> q = p"
  by (auto simp: in_page_def frame_plus_slot)

lemma load_alloc [simp]:
  "load (s\<lparr>mem_map := m, phys := stosl_page p v (phys s)\<rparr>) b = (if in_page p b then v else load s b)"
  "load (s\<lparr>phys := stosl_page p v (phys s)\<rparr>) b = (if in_page p b then v else load s b)"
  "load (s\<lparr>phys := stosl_page p v (phys s), mem_map := m\<rparr>) b = (if in_page p b then v else load s b)"
  by (simp_all add: load_def stosl_page_def)

lemma fresh_not_table:
  assumes "tables_wf s" "i < PAGING_PAGES" "mem_map s i = 0" "present (load s (dir_ptr a))"
  shows "frame (load s (dir_ptr a)) \<noteq> page_addr i"
proof
  assume e: "frame (load s (dir_ptr a)) = page_addr i"
  then have "mem_map s (MAP_NR (page_addr i)) \<noteq> 0"
    using assms(1,2,4) page_addr_ge[of i] unfolding tables_wf_def by metis
  with assms(2,3) show False by simp
qed

lemma new_table:
  assumes wf: "tables_wf s" and i: "i < PAGING_PAGES" "mem_map s i = 0"
    and d: "\<not> present (load s (dir_ptr address))"
    and s1: "s1 = store (dir_ptr address) (page_addr i OR 7)
               (s\<lparr>mem_map := (mem_map s)(i := 1), phys := stosl_page (page_addr i) 0 (phys s)\<rparr>)"
  shows "tables_wf s1" and "walk s1 a = walk s a" and "load s1 (dir_ptr address) = page_addr i OR 7"
    and "mem_map s1 = (mem_map s)(i := 1)"
proof -
  note nz = page_addr_nz[OF i(1)] and al = page_addr_aligned[of i]
  have ld: "load s1 (dir_ptr b) = (if dir_ptr b = dir_ptr address then page_addr i OR 7 else load s (dir_ptr b))" for b
    using in_page_dir[OF nz] by (simp add: s1)
  have fr: "frame (page_addr i OR 7) = page_addr i" using al by simp
  show m: "mem_map s1 = (mem_map s)(i := 1)" by (simp add: s1)
  show "load s1 (dir_ptr address) = page_addr i OR 7" by (simp add: ld)
  show "tables_wf s1"
    using wf fresh_not_table[OF wf i] nz i unfolding tables_wf_def ld m
    by (auto simp: fr page_addr_nz) blast
  show "walk s1 a = walk s a"
  proof (cases "dir_ptr a = dir_ptr address")
    case True
    then have "load s1 (pte_ptr s1 a) = 0"
      using in_page_slot[OF al, of "page_addr i" a] dir_ptr_not_table[OF al nz]
      by (simp add: pte_ptr_def ld fr) (simp add: s1)
    then show ?thesis using d True by (simp add: walk_def ld present_def)
  next
    case False
    have "present (load s (dir_ptr a)) \<Longrightarrow> load s1 (pte_ptr s a) = load s (pte_ptr s a)"
      using fresh_not_table[OF wf i] wf dir_ptr_not_table[of "frame (load s (dir_ptr a))"]
      by (auto simp: s1 pte_ptr_def in_page_slot tables_wf_def)
    then show ?thesis using False by (auto simp: walk_def ld pte_ptr_def)
  qed
qed

lemma tables_wf_same_dir:
  assumes "tables_wf s" "\<And>c. load s' (dir_ptr c) = load s (dir_ptr c)"
    and "\<And>c. present (load s (dir_ptr c)) \<Longrightarrow> LOW_MEM \<le> frame (load s (dir_ptr c)) \<Longrightarrow>
           mem_map s' (MAP_NR (frame (load s (dir_ptr c)))) = mem_map s (MAP_NR (frame (load s (dir_ptr c))))"
  shows "tables_wf s'"
  using assms unfolding tables_wf_def by auto

lemma tables_wf_store_pte:
  assumes wf: "tables_wf s" and d: "present (load s (dir_ptr address))"
    and l: "\<And>b. load s' b = (if b = pte_ptr s address then v else load s b)" and m: "mem_map s' = mem_map s"
  shows "tables_wf s'"
  by (rule tables_wf_same_dir[OF wf walk_store_pte_frame(2)[OF wf d, where N = "{}"]]) (simp_all add: l m)

lemma tables_wf_printk [simp]: "tables_wf (printk m s) = tables_wf s"
  by (simp add: tables_wf_def)

lemma walk_printk [simp]: "walk (printk m s) = walk s"
  by (simp add: fun_eq_iff walk_def pte_ptr_def)

lemma enter_pte_ok:
  assumes wf: "tables_wf s" and d: "present (load s (dir_ptr address))"
  shows "tables_wf (enter_pte page address s)"
    and "walk (enter_pte page address s) = (\<lambda>a. if drop_bit 12 a = drop_bit 12 address then Some (page OR 7) else walk s a)"
    and "mem_map (enter_pte page address s) = mem_map s"
proof -
  have l: "load (enter_pte page address s) b = (if b = pte_ptr s address then page OR 7 else load s b)" for b
    by (simp add: enter_pte_def)
  show m: "mem_map (enter_pte page address s) = mem_map s" by (simp add: enter_pte_def)
  show "tables_wf (enter_pte page address s)" by (rule tables_wf_store_pte[OF wf d l m])
  show "walk (enter_pte page address s) = (\<lambda>a. if drop_bit 12 a = drop_bit 12 address then Some (page OR 7) else walk s a)"
    using walk_store_pte[OF wf d l] by (simp add: fun_eq_iff)
qed

lemma put_page_core:
  assumes wf: "tables_wf s"
    and r_def: "r = (if present (load s (dir_ptr address))
        then Ok page (store (frame (load s (dir_ptr address)) + 4 * (drop_bit 12 address AND 0x3ff)) (page OR 7) s)
        else
          let (tmp, s) = get_free_page s in
          if tmp = 0 then Ok 0 s
          else Ok page (store (tmp + 4 * (drop_bit 12 address AND 0x3ff)) (page OR 7) (store (dir_ptr address) (tmp OR 7) s)))"
  shows "(\<exists>s'. r = Ok page s' \<and> tables_wf s' \<and>
            (present (load s (dir_ptr address)) \<or> (\<exists>i<PAGING_PAGES. mem_map s i = 0)) \<and>
            walk s' = (\<lambda>a. if drop_bit 12 a = drop_bit 12 address then Some (page OR 7) else walk s a)) \<or>
         (r = Ok 0 s \<and> \<not> present (load s (dir_ptr address)) \<and> (\<forall>i<PAGING_PAGES. mem_map s i \<noteq> 0))"
proof (cases "present (load s (dir_ptr address))")
  case True
  then have "r = Ok page (enter_pte page address s)"
    by (simp add: r_def enter_pte_def pte_ptr_def slot_def)
  then show ?thesis using enter_pte_ok[OF wf True] True by blast
next
  case False
  show ?thesis
  proof (cases rule: get_free_page_cases[of s])
    case full
    then show ?thesis using False by (simp add: r_def)
  next
    case (page i)
    define s1 where "s1 = store (dir_ptr address) (page_addr i OR 7)
               (s\<lparr>mem_map := (mem_map s)(i := 1), phys := stosl_page (page_addr i) 0 (phys s)\<rparr>)"
    note nt = new_table[OF wf page(1,2) False s1_def]
    have "present (load s1 (dir_ptr address))" by (simp add: nt)
    note ent = enter_pte_ok[OF nt(1) this]
    have "r = Ok page (enter_pte page address s1)"
      using False page_addr_nz[OF page(1)] nt(3) page_addr_aligned[of i]
      by (simp add: r_def page(4) enter_pte_def pte_ptr_def slot_def s1_def[symmetric])
    then show ?thesis using ent nt(2) page(1,2) by (auto simp: fun_eq_iff)
  qed
qed

text \<open>C9. Entering a page. When the directory is well-formed and the page lies in the page map,
  \<open>put_page\<close> returns; if a page table exists or a page is free for one it returns the page,
  the linear page of \<open>address\<close> then translates to it, present, writable and accessible from user mode, every other
  linear page translates as before and the directory is still well-formed; otherwise it returns 0
  and no translation changes.\<close>

theorem put_page_maps:
  assumes "tables_wf s" and "MAP_NR page < PAGING_PAGES"
  shows "\<exists>r s'. put_page page address s = Ok r s' \<and>
    (if present (load s (dir_ptr address)) \<or> (\<exists>i<PAGING_PAGES. mem_map s i = 0)
     then r = page \<and> tables_wf s' \<and>
       (\<forall>a. walk s' a = (if drop_bit 12 a = drop_bit 12 address then Some (page OR 7) else walk s a))
     else r = 0 \<and> walk s' = walk s)"
proof -
  define s0 where "s0 = (if page < LOW_MEM \<or> page \<ge> HIGH_MEMORY s then printk ''Trying to put page %p at %p'' s else s)"
  define s1 where "s1 = (if mem_map s0 (MAP_NR page) \<noteq> 1 then printk ''mem_map disagrees with %p at %p'' s0 else s0)"
  have eq: "load s1 = load s" "mem_map s1 = mem_map s" "walk s1 = walk s" and wf: "tables_wf s1" 
    using assms(1) by (simp_all add: s1_def s0_def)
  consider (mapped) s' where "put_page page address s = Ok page s'" "tables_wf s'"
      "present (load s (dir_ptr address)) \<or> (\<exists>i<PAGING_PAGES. mem_map s i = 0)"
      "walk s' = (\<lambda>a. if drop_bit 12 a = drop_bit 12 address then Some (page OR 7) else walk s a)"
    | (full) "put_page page address s = Ok 0 s1" "\<not> present (load s (dir_ptr address))" "\<forall>i<PAGING_PAGES. mem_map s i \<noteq> 0"
    using put_page_core[OF wf refl, of address page] assms(2)
    unfolding put_page_def s0_def[symmetric] Let_def s1_def[symmetric] eq by auto
  then show ?thesis
    by cases (auto simp: eq(3))
qed

definition demo_mm :: mm_state where
  "demo_mm = \<lparr>mem_map = (\<lambda>_. 0)(0 := 1, 1 := 2, 2 := 1),
     phys = (\<lambda>_. 0)(0 := 0x100007, 0x100004 := 0x101005), HIGH_MEMORY = 0x1000000, klog = [], cr3_loads = 0\<rparr>"

lemma demo_mm_dir: "load demo_mm (dir_ptr a) = (if dir_ptr a = 0 then 0x100007 else 0)"
  using dir_ptr_page0[of a] by (auto simp: load_def demo_mm_def)

lemma demo_mm_wf: "tables_wf demo_mm"
  unfolding tables_wf_def demo_mm_dir by (simp add: present_def frame_def MAP_NR_def) (simp add: demo_mm_def)

theorem put_page_maps_witness:
  "tables_wf demo_mm \<and> MAP_NR 0x102000 < PAGING_PAGES \<and>
   (\<exists>r s'. put_page 0x102000 0x3000 demo_mm = Ok r s' \<and> walk s' 0x3000 = Some 0x102007)"
proof -
  have m: "MAP_NR 0x102000 < PAGING_PAGES" by (simp add: MAP_NR_def)
  have d: "present (load demo_mm (dir_ptr 0x3000))"
    unfolding demo_mm_dir by (simp add: dir_ptr_def present_def)
  show ?thesis using put_page_maps[OF demo_mm_wf m, of "0x3000"] d demo_mm_wf m by auto
qed

lemma aligned_plus_off: "aligned12 p \<Longrightarrow> p + (a AND 0xffc) = p OR (a AND 0xffc)"
  unfolding ffc_mask by (rule disjunctive_add_eq_or) (auto simp: bit_eq_iff bit_simps aligned12_bit)

lemma in_page_off: "aligned12 p \<Longrightarrow> in_page q (p + (a AND 0xffc)) \<longleftrightarrow> p = q"
proof -
  assume al: "aligned12 p"
  have "(p OR (a AND 0xffc)) AND 0xfffff000 = p"
    using al unfolding ffc_mask frame_mask
    by (intro bit_word_eqI) (auto simp: bit_simps aligned12_bit)
  then show ?thesis by (auto simp: in_page_def aligned_plus_off[OF al])
qed

lemma frame_OR2 [simp]: "frame (e OR 2) = frame e"
proof -
  have "(2::u32) = push_bit 1 1" by simp
  show ?thesis unfolding frame_def frame_mask \<open>2 = push_bit 1 1\<close>
    by (rule bit_word_eqI) (auto simp: bit_simps)
qed

lemma present_OR2 [simp]: "present (e OR 2) = present e"
proof -
  have "1 AND (e OR 2) = 1 AND (e :: u32)"
    by (rule bit_word_eqI) (auto simp: bit_simps)
  then show ?thesis by (simp add: present_def)
qed

lemma bit1_OR: "bit (e OR 2 :: u32) (Suc 0)" "bit (p OR 7 :: u32) (Suc 0)"
  by (simp_all add: bit_simps)

lemma invalidate_simps [simp]:
  "load (invalidate s) = load s" "mem_map (invalidate s) = mem_map s" "phys (invalidate s) = phys s"
  by (simp_all add: invalidate_def load_def fun_eq_iff)

lemma load_mem_map [simp]: "load (s\<lparr>mem_map := m\<rparr>) = load s"
  by (simp add: load_def fun_eq_iff)

lemma load_copy_page:
  "load (copy_page from to s) b = (if in_page to b then load s (from + (b - to)) else load s b)"
  by (simp add: copy_page_def load_def)

lemma mem_map_copy_page [simp]: "mem_map (copy_page from to s) = mem_map s"
  by (simp add: copy_page_def)

lemma do_wp_page_entry: "do_wp_page ec a s = un_wp_page (pte_ptr s a) s"
  by (simp add: do_wp_page_def pte_ptr_def slot_eq add.commute)


lemma walk_SomeD:
  "walk s a = Some e \<Longrightarrow> present (load s (dir_ptr a)) \<and> present e \<and> load s (pte_ptr s a) = e"
  by (auto simp: walk_def split: if_splits)

lemma walk_same_page: "drop_bit 12 a = drop_bit 12 b \<Longrightarrow> walk s a = walk s b"
  by (simp add: same_page_iff walk_def pte_ptr_def)

lemma user_page_not_pte:
  assumes "user_page s (frame x)" "present (load s (dir_ptr b))"
  shows "frame x + (a AND 0xffc) \<noteq> pte_ptr s b"
  using assms in_page_off[of "frame x" "frame x" a] in_page_slot[of _ "frame x" b]
  unfolding user_page_def pte_ptr_def by (metis aligned_frame)

lemma un_wp_sole:
  assumes wf: "tables_wf s" and w: "walk s address = Some e" and lo: "LOW_MEM \<le> frame e"
    and m: "MAP_NR (frame e) < PAGING_PAGES" "mem_map s (MAP_NR (frame e)) = 1"
    and up: "user_page s (frame e)"
  shows "\<exists>s'. do_wp_page ec address s = Ok () s' \<and> tables_wf s' \<and> mem_map s' = mem_map s \<and>
     (\<forall>a. walk s' a = (if drop_bit 12 a = drop_bit 12 address then Some (e OR 2) else walk s a)) \<and>
     (\<forall>a. drop_bit 12 a = drop_bit 12 address \<longrightarrow> read_lin s' a = read_lin s a) \<and>
     (\<forall>a x. drop_bit 12 a \<noteq> drop_bit 12 address \<and> walk s a = Some x \<and> user_page s (frame x) \<longrightarrow> read_lin s' a = read_lin s a)"
proof -
  define s' where "s' = invalidate (store (pte_ptr s address) (e OR 2) s)"
  note wd = walk_SomeD[OF w]
  have r: "do_wp_page ec address s = Ok () s'"
    using lo m wd by (simp add: do_wp_page_entry un_wp_page_def s'_def Let_def)
  have l: "load s' b = (if b = pte_ptr s address then e OR 2 else load s b)" for b by (simp add: s'_def)
  have wk: "walk s' a = (if drop_bit 12 a = drop_bit 12 address then Some (e OR 2) else walk s a)" for a
    using walk_store_pte[OF wf _ l] wd by simp
  have "tables_wf s'" using tables_wf_store_pte[OF wf _ l] wd by (simp add: s'_def)
  moreover have "read_lin s' a = read_lin s a" if "drop_bit 12 a = drop_bit 12 address" for a
  proof -
    have "walk s a = Some e" using w walk_same_page[OF that, of s] by simp
    moreover have "frame e + (a AND 0xffc) \<noteq> pte_ptr s address" using user_page_not_pte[OF up] wd by blast
    ultimately show ?thesis using that by (simp add: read_lin_def wk l)
  qed
  moreover have "read_lin s' a = read_lin s a" if "drop_bit 12 a \<noteq> drop_bit 12 address" "walk s a = Some x" "user_page s (frame x)" for a x
    using user_page_not_pte[OF that(3)] wd that(1,2) by (simp add: read_lin_def wk l)
  ultimately show ?thesis using r wk by (auto simp: s'_def)
qed

lemma mm_update_commute: "s\<lparr>phys := x, mem_map := y\<rparr> = s\<lparr>mem_map := y, phys := x\<rparr>"
  by simp

lemma un_wp_copy:
  assumes wf: "tables_wf s" and w: "walk s address = Some e"
    and sh: "LOW_MEM \<le> frame e \<Longrightarrow> mem_map s (MAP_NR (frame e)) \<noteq> 1"
    and up: "user_page s (frame e)"
    and i: "i < PAGING_PAGES" "mem_map s i = 0"
    and g: "get_free_page s = (page_addr i, s\<lparr>mem_map := (mem_map s)(i := 1),
                            phys := stosl_page (page_addr i) 0 (phys s)\<rparr>)"
  shows "\<exists>s'. do_wp_page ec address s = Ok () s' \<and> tables_wf s' \<and>
     mem_map s' = (let m = (mem_map s)(i := 1) in
        if LOW_MEM \<le> frame e then m(MAP_NR (frame e) := mem_map s (MAP_NR (frame e)) - 1) else m) \<and>
     (\<forall>a. walk s' a = (if drop_bit 12 a = drop_bit 12 address then Some (page_addr i OR 7) else walk s a)) \<and>
     (\<forall>a. drop_bit 12 a = drop_bit 12 address \<longrightarrow> read_lin s' a = read_lin s a) \<and>
     (\<forall>a x. drop_bit 12 a \<noteq> drop_bit 12 address \<and> walk s a = Some x \<and> user_page s (frame x) \<longrightarrow> read_lin s' a = read_lin s a)"
proof -
  let ?n = "page_addr i"
  note wd = walk_SomeD[OF w] and nz = page_addr_nz[OF i(1)] and al = page_addr_aligned[of i]
  define m where "m = (let m = (mem_map s)(i := 1) in
        if LOW_MEM \<le> frame e then m(MAP_NR (frame e) := mem_map s (MAP_NR (frame e)) - 1) else m)"
  have ne: "frame e \<noteq> ?n" and ni: "LOW_MEM \<le> frame e \<Longrightarrow> MAP_NR (frame e) \<noteq> i"
    using up i page_addr_ge[OF i(1)] by (auto simp: user_page_def)
  define s' where "s' = copy_page (frame e) ?n (invalidate (store (pte_ptr s address) (?n OR 7)
     (s\<lparr>phys := stosl_page ?n 0 (phys s), mem_map := m\<rparr>)))"
  have r: "do_wp_page ec address s = Ok () s'"
    using sh up wd nz ni by (auto simp: do_wp_page_entry un_wp_page_def s'_def m_def Let_def g user_page_def mm_update_commute)
  have l: "load s' b = (if b = pte_ptr s address then ?n OR 7 else load s b)" if "\<not> in_page ?n b" for b
    using that by (simp add: s'_def load_copy_page)
  have N1: "\<not> in_page ?n (dir_ptr c)" for c using in_page_dir[OF nz] .
  have N2: "present (load s (dir_ptr c)) \<Longrightarrow> \<not> in_page ?n (pte_ptr s c)" for c
    using fresh_not_table[OF wf i] by (simp add: pte_ptr_def in_page_slot)
  note fr = walk_store_pte_frame[OF wf, where N = "Collect (in_page ?n)" and s' = s' and v = "?n OR 7" and address = address]
  have wk: "walk s' a = (if drop_bit 12 a = drop_bit 12 address then Some (?n OR 7) else walk s a)" for a
    using fr(1) wd l N1 N2 by simp
  have ld: "load s' (dir_ptr c) = load s (dir_ptr c)" for c using fr(2) wd l N1 N2 by simp
  have "tables_wf s'"
  proof (rule tables_wf_same_dir[OF wf ld])
    fix c assume c: "present (load s (dir_ptr c))" "LOW_MEM \<le> frame (load s (dir_ptr c))"
    show "mem_map s' (MAP_NR (frame (load s (dir_ptr c)))) = mem_map s (MAP_NR (frame (load s (dir_ptr c))))"
    proof -
      have "MAP_NR (frame (load s (dir_ptr c))) \<noteq> i"
        using fresh_not_table[OF wf i c(1)] MAP_NR_eq_iff[OF _ al c(2)] page_addr_ge[OF i(1)] i(1) by auto
      moreover have "LOW_MEM \<le> frame e \<Longrightarrow> MAP_NR (frame (load s (dir_ptr c))) \<noteq> MAP_NR (frame e)"
        using up c MAP_NR_eq_iff[of "frame (load s (dir_ptr c))" "frame e"] by (auto simp: user_page_def)
      ultimately show ?thesis by (auto simp: s'_def m_def Let_def)
    qed
  qed
  moreover have "read_lin s' a = read_lin s a" if p: "drop_bit 12 a = drop_bit 12 address" for a
  proof -
    have "walk s a = Some e" using w walk_same_page[OF p, of s] by simp
    moreover have "frame e + (a AND 0xffc) \<noteq> pte_ptr s address" using user_page_not_pte[OF up] wd by blast
    moreover have "load s' (?n + (a AND 0xffc)) = load (store (pte_ptr s address) (?n OR 7)
       (s\<lparr>phys := stosl_page ?n 0 (phys s), mem_map := m\<rparr>)) (frame e + (a AND 0xffc))"
      using in_page_off[OF al, of ?n a] by (simp add: s'_def load_copy_page)
    ultimately show ?thesis using p ne al by (simp add: read_lin_def wk in_page_off)
  qed
  moreover have "read_lin s' a = read_lin s a" if p: "drop_bit 12 a \<noteq> drop_bit 12 address" "walk s a = Some x" "user_page s (frame x)" for a x
  proof -
    have "frame x \<noteq> ?n" using p(3) i page_addr_ge[OF i(1)] by (auto simp: user_page_def)
    then have "\<not> in_page ?n (frame x + (a AND 0xffc))" using in_page_off[OF aligned_frame, of ?n x a] by simp
    then show ?thesis using user_page_not_pte[OF p(3)] wd p(1,2) by (simp add: read_lin_def wk l)
  qed
  ultimately show ?thesis using r wk by (auto simp: s'_def m_def)
qed

text \<open>C2. Copy on write. After the write-protection fault of a mapped user page the entry is
  writable, every word of the page reads as before, no other page's translation changes, every other mapped user page reads as before, and
  the directory stays well-formed; the only other outcome is \<open>do_exit(SIGSEGV)\<close>, when no page is free,
  with all translations unchanged.\<close>

theorem do_wp_page_cow:
  assumes wf: "tables_wf s" and w: "walk s address = Some e" and up: "user_page s (frame e)"
  shows "case do_wp_page error_code address s of
      Ok _ s' \<Rightarrow> tables_wf s' \<and>
        (\<exists>e'. walk s' address = Some e' \<and> bit e' 1) \<and>
        (\<forall>a. drop_bit 12 a = drop_bit 12 address \<longrightarrow> read_lin s' a = read_lin s a) \<and>
        (\<forall>a. drop_bit 12 a \<noteq> drop_bit 12 address \<longrightarrow> walk s' a = walk s a) \<and>
        (\<forall>a x. drop_bit 12 a \<noteq> drop_bit 12 address \<and> walk s a = Some x \<and> user_page s (frame x) \<longrightarrow> read_lin s' a = read_lin s a)
    | Exit c s' \<Rightarrow> c = SIGSEGV \<and> (\<forall>i<PAGING_PAGES. mem_map s i \<noteq> 0) \<and> walk s' = walk s
    | _ \<Rightarrow> False"
proof (cases "LOW_MEM \<le> frame e \<and> mem_map s (MAP_NR (frame e)) = 1")
  case True
  then have "MAP_NR (frame e) < PAGING_PAGES" using up by (simp add: user_page_def)
  with True un_wp_sole[OF wf w _ _ _ up, of error_code] show ?thesis
    by (auto simp: bit1_OR split: kres.split)
next
  case sh: False
  show ?thesis
  proof (cases rule: get_free_page_cases[of s])
    case full
    then have "do_wp_page error_code address s = oom s"
      using sh walk_SomeD[OF w] up by (auto simp: do_wp_page_entry un_wp_page_def user_page_def Let_def)
    then show ?thesis using full by (simp add: oom_def)
  next
    case (page i)
    with sh un_wp_copy[OF wf w _ up page(1,2,4), of error_code] show ?thesis
      by (auto simp: bit1_OR split: kres.split)
  qed
qed

theorem do_wp_page_cow_witness:
  "tables_wf demo_mm \<and> walk demo_mm 0x1000 = Some 0x101005 \<and> user_page demo_mm (frame 0x101005) \<and>
   (case do_wp_page 7 0x1000 demo_mm of
      Ok _ s' \<Rightarrow> tables_wf s' \<and>
        (\<exists>e'. walk s' 0x1000 = Some e' \<and> bit e' 1) \<and>
        (\<forall>a. drop_bit 12 a = drop_bit 12 0x1000 \<longrightarrow> read_lin s' a = read_lin demo_mm a) \<and>
        (\<forall>a. drop_bit 12 a \<noteq> drop_bit 12 0x1000 \<longrightarrow> walk s' a = walk demo_mm a) \<and>
        (\<forall>a x. drop_bit 12 a \<noteq> drop_bit 12 0x1000 \<and> walk demo_mm a = Some x \<and> user_page demo_mm (frame x) \<longrightarrow> read_lin s' a = read_lin demo_mm a)
    | Exit c s' \<Rightarrow> c = SIGSEGV \<and> (\<forall>i<PAGING_PAGES. mem_map demo_mm i \<noteq> 0) \<and> walk s' = walk demo_mm
    | _ \<Rightarrow> False)"
proof -
  have w: "walk demo_mm 0x1000 = Some 0x101005"
    by (simp add: walk_def pte_ptr_def demo_mm_dir dir_ptr_def present_def frame_def slot_def load_def) (simp add: demo_mm_def)
  have u: "user_page demo_mm (frame 0x101005)"
    unfolding user_page_def demo_mm_dir by (simp add: frame_def MAP_NR_def present_def) (simp add: demo_mm_def)
  show ?thesis using do_wp_page_cow[OF demo_mm_wf w u, of 7] demo_mm_wf w u by blast
qed

lemma entry_0 [simp]: "entry p 0 = p" by (simp add: entry_def)
lemma entry_Suc: "entry (p + 4) k = entry p (Suc k)" by (simp add: entry_def)

lemma not_present_0: "\<not> present 0"
  by (simp add: present_def)

lemma present_wp [simp]: "present (write_protect e) = present e"
proof -
  have "1 AND (e AND NOT 2) = 1 AND (e :: u32)"
    by (rule bit_word_eqI) (auto simp: bit_simps)
  then show ?thesis by (simp only: present_def write_protect_def)
qed

lemma frame_wp [simp]: "frame (write_protect e) = frame e"
proof -
  have "(2::u32) = push_bit 1 1" by simp
  show ?thesis unfolding frame_def frame_mask write_protect_def \<open>2 = push_bit 1 1\<close>
    by (rule bit_word_eqI) (auto simp: bit_simps)
qed

lemma drop12_frame: "drop_bit 12 (frame e) = drop_bit 12 e"
  unfolding frame_def frame_mask by (rule bit_word_eqI) (auto simp: bit_simps dest: bit_imp_le_length)

lemma frame_unat: "unat (frame e) = 4096 * (unat e div 4096)"
proof -
  have "frame e = push_bit 12 (drop_bit 12 (frame e))" by (simp add: aligned12_push)
  also have "\<dots> = 4096 * drop_bit 12 e" by (simp add: drop12_frame push_bit_eq_mult)
  finally have f: "frame e = 4096 * drop_bit 12 e" .
  have d: "unat (drop_bit 12 e) = unat e div 4096" by (simp add: drop_bit_eq_div unat_div)
  have "4096 * (unat e div 4096) \<le> unat e" by simp
  also have "\<dots> < 2 ^ 32" using unsigned_less[of e, where ?'a = nat] by simp
  finally have "unat (4096 :: u32) * unat (drop_bit 12 e) < 2 ^ LENGTH(32)" by (simp add: d)
  then show ?thesis using unat_mult_lem[of "4096 :: u32" "drop_bit 12 e"] by (simp add: f d)
qed

lemma counted_iff: "present e \<Longrightarrow> LOW_MEM < write_protect e \<longleftrightarrow> LOW_MEM \<le> frame e"
proof -
  assume "present e"
  define x where "x = write_protect e"
  have "present x" using \<open>present e\<close> by (simp add: x_def)
  then have "x \<noteq> LOW_MEM" by (auto simp: present_def)
  then have "unat x \<noteq> unat LOW_MEM" using word_unat_eq_iff by blast
  then have "LOW_MEM < x \<longleftrightarrow> 256 \<le> unat x div 4096"
    by (simp add: word_less_nat_alt less_eq_div_iff_mult_less_eq) linarith
  moreover have "LOW_MEM \<le> frame x \<longleftrightarrow> 256 \<le> unat x div 4096"
    by (simp add: word_le_nat_alt frame_unat)
  ultimately show ?thesis by (simp add: x_def)
qed

lemma MAP_NR_frame: "LOW_MEM \<le> frame x \<Longrightarrow> unat (drop_bit 12 (x - LOW_MEM)) = MAP_NR (frame x)"
proof -
  assume lo: "LOW_MEM \<le> frame x"
  define q r where "q = unat x div 4096" and "r = unat x mod 4096"
  have x: "unat x = 4096 * q + r" "r < 4096" by (simp_all add: q_def r_def)
  have q: "256 \<le> q" using lo by (simp add: word_le_nat_alt frame_unat q_def)
  have "LOW_MEM \<le> x" using q x by (simp add: word_le_nat_alt)
  then have 1: "unat (x - LOW_MEM) = unat x - 0x100000" by (simp add: unat_sub)
  have "unat x - 0x100000 = 4096 * (q - 256) + r" using q x by simp
  then have "(unat x - 0x100000) div 4096 = q - 256" using x(2) by simp
  moreover have "unat (frame x - LOW_MEM) = 4096 * (q - 256)"
    using lo q by (simp add: unat_sub frame_unat q_def[symmetric] diff_mult_distrib2)
  ultimately show ?thesis by (simp add: MAP_NR_def drop_bit_eq_div unat_div 1)
qed

lemma index_frame: "LOW_MEM \<le> frame e \<Longrightarrow> unat (drop_bit 12 (write_protect e - LOW_MEM)) = MAP_NR (frame e)"
  using MAP_NR_frame[of "write_protect e"] by simp

lemma counted_card_Suc:
  "card {k. k < Suc n \<and> P k} = (if P 0 then 1 else 0) + card {k. k < n \<and> P (Suc k)}"
proof -
  have "{k. k < Suc n \<and> P k} = (if P 0 then {0} else {}) \<union> Suc ` {k. k < n \<and> P (Suc k)}"
    by (auto simp: image_iff less_Suc_eq_0_disj)
  moreover have "card (Suc ` {k. k < n \<and> P (Suc k)}) = card {k. k < n \<and> P (Suc k)}"
    by (rule card_image) simp
  ultimately show ?thesis by (auto simp: card_insert_if)
qed


lemma refs_in_Suc:
  "refs_in s p (Suc n) i = (if counted (load s p) \<and> MAP_NR (frame (load s p)) = i then 1 else 0) + refs_in s (p + 4) n i"
  unfolding refs_in_def by (subst counted_card_Suc) (simp add: entry_Suc)

lemma refs_in_cong:
  "(\<And>k. k < n \<Longrightarrow> load s (entry p k) = load t (entry q k)) \<Longrightarrow> refs_in s p n i = refs_in t q n i"
  unfolding refs_in_def by (rule arg_cong[where f = card]) auto

lemma copy_table_loop_spec:
  assumes "copy_table_loop n p q s = Ok () s'"
    and "\<And>j k. j < n \<Longrightarrow> k < n \<Longrightarrow> entry p j \<noteq> entry q k"
    and "\<And>j k. j < n \<Longrightarrow> k < n \<Longrightarrow> entry p j = entry p k \<Longrightarrow> j = k"
    and "\<And>j k. j < n \<Longrightarrow> k < n \<Longrightarrow> entry q j = entry q k \<Longrightarrow> j = k"
  shows "(\<forall>k<n. load s' (entry q k) =
             (let e = load s (entry p k) in if present e then write_protect e else load s (entry q k))) \<and>
         (\<forall>k<n. load s' (entry p k) =
             (let e = load s (entry p k) in if counted e then write_protect e else e)) \<and>
         (\<forall>b. (\<forall>k<n. b \<noteq> entry p k \<and> b \<noteq> entry q k) \<longrightarrow> load s' b = load s b) \<and>
         (\<forall>i. mem_map s' i = mem_map s i + of_nat (refs_in s p n i))"
  using assms
proof (induction n arbitrary: p q s)
  case 0
  then show ?case by (simp add: refs_in_def)
next
  case (Suc n)
  define e where "e = load s p"
  define s1 where "s1 = (if \<not> present e then s else
     let s = store q (write_protect e) s in
     if counted e then (store p (write_protect e) s)\<lparr>mem_map := (mem_map s)(MAP_NR (frame e) := mem_map s (MAP_NR (frame e)) + 1)\<rparr> else s)"
  have step: "copy_table_loop n (p + 4) (q + 4) s1 = Ok () s'"
    using Suc.prems(1)
    by (auto simp: s1_def e_def[symmetric] counted_def counted_iff index_frame Let_def split: if_splits)
  have d: "entry p 0 \<noteq> entry q k" "entry p k \<noteq> entry q 0" "k \<noteq> 0 \<Longrightarrow> entry p k \<noteq> entry p 0" "k \<noteq> 0 \<Longrightarrow> entry q k \<noteq> entry q 0" if "k < Suc n" for k
    using Suc.prems(2-4) that by blast+
  have l1: "load s1 b = (if b = q \<and> present e then write_protect e else if b = p \<and> counted e then write_protect e else load s b)" for b
    by (auto simp: s1_def counted_def e_def Let_def)
  note IH = Suc.IH[OF step]
  have IH': "(\<forall>k<n. load s' (entry q (Suc k)) =
             (let e = load s1 (entry p (Suc k)) in if present e then write_protect e else load s1 (entry q (Suc k)))) \<and>
         (\<forall>k<n. load s' (entry p (Suc k)) =
             (let e = load s1 (entry p (Suc k)) in if counted e then write_protect e else e)) \<and>
         (\<forall>b. (\<forall>k<n. b \<noteq> entry p (Suc k) \<and> b \<noteq> entry q (Suc k)) \<longrightarrow> load s' b = load s1 b) \<and>
         (\<forall>i. mem_map s' i = mem_map s1 i + of_nat (refs_in s1 (p + 4) n i))"
  proof (rule IH [unfolded entry_Suc])
    fix j k assume jk: "j < n" "k < n"
    show "entry p (Suc j) \<noteq> entry q (Suc k)" using jk by (intro Suc.prems(2)) simp_all
    show "entry p (Suc j) = entry p (Suc k) \<Longrightarrow> j = k" using jk Suc.prems(3)[of "Suc j" "Suc k"] by simp
    show "entry q (Suc j) = entry q (Suc k) \<Longrightarrow> j = k" using jk Suc.prems(4)[of "Suc j" "Suc k"] by simp
  qed
  have p': "load s1 (entry p (Suc k)) = load s (entry p (Suc k))"
    and q': "load s1 (entry q (Suc k)) = load s (entry q (Suc k))" if "k < n" for k
    using d[of "Suc k"] that by (auto simp: l1)
  have fr: "load s' b = load s1 b" if "\<And>k. k < n \<Longrightarrow> b \<noteq> entry p (Suc k) \<and> b \<noteq> entry q (Suc k)" for b
    using IH' that by blast
  have p0: "load s' p = load s1 p" and q0: "load s' q = load s1 q"
    by (rule fr; metis d entry_0 Suc_mono nat.distinct(1))+
  have pq: "p \<noteq> q" using d(1)[of 0] by simp
  have c1: "\<forall>k<Suc n. load s' (entry q k) =
             (let e = load s (entry p k) in if present e then write_protect e else load s (entry q k))"
    using IH' p' q' pq by (auto simp: All_less_Suc2 q0 l1 Let_def e_def)
  have c2: "\<forall>k<Suc n. load s' (entry p k) =
             (let e = load s (entry p k) in if counted e then write_protect e else e)"
    using IH' p' pq by (auto simp: All_less_Suc2 p0 l1 Let_def e_def)
  have c3: "load s' b = load s b" if "\<forall>k<Suc n. b \<noteq> entry p k \<and> b \<noteq> entry q k" for b
    using that fr[of b] unfolding All_less_Suc2 by (auto simp: l1)
  have m1: "mem_map s1 i = mem_map s i + (if counted e \<and> MAP_NR (frame e) = i then 1 else 0)" for i
    by (auto simp: s1_def counted_def Let_def)
  have "refs_in s1 (p + 4) n i = refs_in s (p + 4) n i" for i
    by (rule refs_in_cong) (simp add: entry_Suc p')
  then have c4: "\<forall>i. mem_map s' i = mem_map s i + of_nat (refs_in s p (Suc n) i)"
    using IH' m1 by (simp add: refs_in_Suc e_def)
  show ?case using c1 c2 c3 c4 by blast
qed

lemma free_page_Ok:
  "free_page a s = Ok () s' \<Longrightarrow>
     s' = (if a < LOW_MEM then s else s\<lparr>mem_map := (mem_map s)(MAP_NR a := mem_map s (MAP_NR a) - 1)\<rparr>)"
  by (auto simp: free_page_def Let_def split: if_splits)

lemma free_table_loop_spec:
  assumes "free_table_loop n p s = Ok () s'"
    and "\<And>j k. j < n \<Longrightarrow> k < n \<Longrightarrow> entry p j = entry p k \<Longrightarrow> j = k"
  shows "(\<forall>k<n. load s' (entry p k) = 0) \<and>
         (\<forall>b. (\<forall>k<n. b \<noteq> entry p k) \<longrightarrow> load s' b = load s b) \<and>
         (\<forall>i. mem_map s i = mem_map s' i + of_nat (refs_in s p n i))"
  using assms
proof (induction n arbitrary: p s)
  case 0
  then show ?case by (simp add: refs_in_def)
next
  case (Suc n)
  define e where "e = load s p"
  define m where "m = (if counted e then (mem_map s)(MAP_NR (frame e) := mem_map s (MAP_NR (frame e)) - 1) else mem_map s)"
  define s1 where "s1 = store p 0 (s\<lparr>mem_map := m\<rparr>)"
  have step: "free_table_loop n (p + 4) s1 = Ok () s'"
    using Suc.prems(1)
    by (auto simp: s1_def m_def e_def[symmetric] counted_def linorder_not_less[symmetric] dest!: free_page_Ok split: if_splits)
  have IH': "(\<forall>k<n. load s' (entry p (Suc k)) = 0) \<and>
         (\<forall>b. (\<forall>k<n. b \<noteq> entry p (Suc k)) \<longrightarrow> load s' b = load s1 b) \<and>
         (\<forall>i. mem_map s1 i = mem_map s' i + of_nat (refs_in s1 (p + 4) n i))"
  proof (rule Suc.IH [OF step, unfolded entry_Suc])
    fix j k assume jk: "j < n" "k < n"
    show "entry p (Suc j) = entry p (Suc k) \<Longrightarrow> j = k" using jk Suc.prems(2)[of "Suc j" "Suc k"] by simp
  qed
  have ne: "entry p (Suc k) \<noteq> p" if "k < n" for k
    using Suc.prems(2)[of "Suc k" 0] that by auto
  have p0: "load s' p = 0" using IH' ne by (metis load_store s1_def)
  have c1: "\<forall>k<Suc n. load s' (entry p k) = 0" using IH' p0 by (simp add: All_less_Suc2)
  have c2: "load s' b = load s b" if "\<forall>k<Suc n. b \<noteq> entry p k" for b
    using that IH' unfolding All_less_Suc2 by (auto simp: s1_def)
  have "refs_in s1 (p + 4) n i = refs_in s (p + 4) n i" for i
    by (rule refs_in_cong) (simp add: entry_Suc s1_def ne[symmetric])
  moreover have "mem_map s i = mem_map s1 i + (if counted e \<and> MAP_NR (frame e) = i then 1 else 0)" for i
    by (simp add: s1_def m_def)
  ultimately have c3: "\<forall>i. mem_map s i = mem_map s' i + of_nat (refs_in s p (Suc n) i)"
    using IH' by (simp add: refs_in_Suc e_def)
  show ?case using c1 c2 c3 by blast
qed

lemma entry_page:
  assumes "aligned12 p" "k < 1024"
  shows "entry p k = p + slot (push_bit 12 (of_nat k))"
proof -
  have "drop_bit 12 (push_bit 12 (of_nat k :: u32)) = of_nat k"
  proof (rule bit_word_eqI)
    fix n assume "n < LENGTH(32)"
    have "k < 2 ^ 10" using assms(2) by simp
    then have "n \<ge> 10 \<Longrightarrow> \<not> bit k n"
      by (metis bit_take_bit_iff linorder_not_less take_bit_nat_eq_self_iff)
    then show "bit (drop_bit 12 (push_bit 12 (of_nat k :: u32))) n = bit (of_nat k :: u32) n"
      by (cases "n < 10") (auto simp: bit_simps)
  qed
  moreover have "(of_nat k :: u32) AND 0x3ff = of_nat k"
    using assms(2) by (simp add: x3ff_mask flip: take_bit_eq_mask) (simp add: take_bit_of_nat take_bit_nat_eq_self)
  ultimately show ?thesis by (simp add: entry_def slot_def)
qed

lemma entry_frame: "aligned12 p \<Longrightarrow> k < 1024 \<Longrightarrow> entry p k AND 0xfffff000 = p"
  by (simp add: entry_page frame_plus_slot)

lemma entry_inj:
  assumes "aligned12 p" "j < 1024" "k < 1024" "entry p j = entry p k"
  shows "j = k"
proof -
  have "4 * (of_nat j :: u32) = 4 * of_nat k" using assms(4) by (simp add: entry_def)
  then have "unat (4 * (of_nat j :: u32)) = unat (4 * of_nat k :: u32)" by simp
  then show ?thesis using assms(2,3) by (simp add: unat_word_ariths unat_of_nat)
qed

text \<open>C27. Sharing a page table at \<open>fork\<close> and releasing the copy at \<open>exit\<close> gives every
  reference count of \<open>mem_map\<close> back, and leaves the copied table empty. The counts are bytes and wrap.\<close>

theorem fork_then_exit_refcounts:
  assumes "aligned12 p" "aligned12 q" "p \<noteq> q" "n \<le> 1024"
    and "\<forall>k<n. load s (entry q k) = 0"
    and "copy_table_loop n p q s = Ok () s'" and "free_table_loop n q s' = Ok () s''"
  shows "mem_map s'' = mem_map s \<and> (\<forall>k<n. load s'' (entry q k) = 0)"
proof -
  have "entry p j \<noteq> entry q k" if "j < n" "k < n" for j k
    using that assms(1-4) entry_frame by (metis order_less_le_trans)
  then have c: "\<forall>k<n. load s' (entry q k) = (let e = load s (entry p k) in if present e then write_protect e else load s (entry q k))"
    "\<forall>i. mem_map s' i = mem_map s i + of_nat (refs_in s p n i)"
    using copy_table_loop_spec[OF assms(6)] entry_inj[OF assms(1)] entry_inj[OF assms(2)] assms(4)
    by (auto dest: order_less_le_trans)
  have f: "\<forall>k<n. load s'' (entry q k) = 0" "\<forall>i. mem_map s' i = mem_map s'' i + of_nat (refs_in s' q n i)"
    using free_table_loop_spec[OF assms(7)] entry_inj[OF assms(2)] assms(4) by (auto dest: order_less_le_trans)
  have same: "counted (load s' (entry q k)) = counted (load s (entry p k)) \<and>
      (counted (load s (entry p k)) \<longrightarrow> frame (load s' (entry q k)) = frame (load s (entry p k)))"
    if "k < n" for k
    using c(1) assms(5) that by (cases "present (load s (entry p k))") (simp_all add: Let_def counted_def not_present_0)
  have "refs_in s' q n i = refs_in s p n i" for i
    unfolding refs_in_def by (rule arg_cong [where f = card]) (use same in auto)
  with c(2) f(2) have "mem_map s'' i = mem_map s i" for i by simp
  with f(1) show ?thesis by auto
qed

theorem fork_then_exit_refcounts_witness:
  "\<exists>s' s''. copy_table_loop (Suc (Suc 0)) 0x100000 0x102000 demo_mm = Ok () s' \<and> free_table_loop (Suc (Suc 0)) 0x102000 s' = Ok () s'' \<and>
     mem_map s'' = mem_map demo_mm \<and> (\<forall>k<Suc (Suc 0). load s'' (entry 0x102000 k) = 0)"
proof -
  have p: "aligned12 0x100000" "aligned12 0x102000" "(0x100000 :: u32) \<noteq> 0x102000" "Suc (Suc 0) \<le> 1024"
    by (simp_all add: aligned12_def)
  have e: "\<forall>k<Suc (Suc 0). load demo_mm (entry 0x102000 k) = 0"
    by (auto simp: less_Suc_eq entry_def load_def demo_mm_def)
  obtain s' s'' where s: "copy_table_loop (Suc (Suc 0)) 0x100000 0x102000 demo_mm = Ok () s'" "free_table_loop (Suc (Suc 0)) 0x102000 s' = Ok () s''"
    by (simp add: load_def demo_mm_def present_def write_protect_def store_def Let_def free_page_def frame_def MAP_NR_def)
  show ?thesis using fork_then_exit_refcounts[OF p e s] s by blast
qed

end
