(* ===== verification/Kernel_Task.thy ===== *)
theory Kernel_Task
  imports Mm_Paging
begin

text \<open>
  The process table and the state of the scheduler: include/linux/sched.h, include/signal.h,
  include/linux/head.h and the static data of kernel/sched.c and kernel/fork.c.

  A task is named by its slot in \<open>task[NR_TASKS]\<close>; a pointer to a task is such a number, a null
  pointer is \<open>None\<close>. \<open>t_page\<close> is the physical page the structure lives in. Pointers to
  inodes and files are indices into \<open>inode_table\<close> and \<open>file_table\<close>. A \<open>long\<close> that the
  code compares as a signed number is an \<open>int\<close>, and arithmetic on it goes through \<open>s32\<close>,
  which wraps to 32 bits; bitmaps and addresses are words. \<open>waitq\<close> holds the heads of the wait
  queues (the \<open>struct task_struct *\<close> variables given to \<open>sleep_on\<close>), named by \<open>wait_queue\<close>.
  \<open>ports\<close> is the sequence of writes to I/O ports, \<open>inports\<close> what the ports read.
\<close>

definition s32 :: "int \<Rightarrow> int" where
  "s32 x = signed_take_bit 31 x"

lemma s32_id [simp]: "- 2147483648 \<le> x \<Longrightarrow> x < 2147483648 \<Longrightarrow> s32 x = x"
  by (simp add: s32_def signed_take_bit_int_eq_self)

lemma s32_range: "- 2147483648 \<le> s32 x \<and> s32 x < 2147483648"
  using signed_take_bit_int_greater_eq_minus_exp [of 31 x] signed_take_bit_int_less_exp [of 31 x]
  by (simp add: s32_def)

text \<open>C's division truncates towards zero.\<close>

definition tdiv :: "int \<Rightarrow> int \<Rightarrow> int" where
  "tdiv a b = sgn a * sgn b * (\<bar>a\<bar> div \<bar>b\<bar>)"

record sigaction =
  sa_handler :: u32
  sa_mask :: u32
  sa_flags :: u32
  sa_restorer :: u32

record desc_struct =
  desc_a :: u32
  desc_b :: u32

record tss_struct =
  tss_back_link :: u32
  tss_esp0 :: u32
  tss_ss0 :: u32
  tss_esp1 :: u32
  tss_ss1 :: u32
  tss_esp2 :: u32
  tss_ss2 :: u32
  tss_cr3 :: u32
  tss_eip :: u32
  tss_eflags :: u32
  tss_eax :: u32
  tss_ecx :: u32
  tss_edx :: u32
  tss_ebx :: u32
  tss_esp :: u32
  tss_ebp :: u32
  tss_esi :: u32
  tss_edi :: u32
  tss_es :: u32
  tss_cs :: u32
  tss_ss :: u32
  tss_ds :: u32
  tss_fs :: u32
  tss_gs :: u32
  tss_ldt :: u32
  tss_trace_bitmap :: u32
  i387 :: "u32 list"

record task_struct =
  t_page :: u32
  state :: int
  counter :: int
  priority :: int
  signal :: u32
  sigactions :: "nat \<Rightarrow> sigaction"
  blocked :: u32
  exit_code :: int
  start_code :: u32
  end_code :: u32
  end_data :: u32
  brk :: u32
  start_stack :: u32
  pid :: int
  father :: int
  pgrp :: int
  session :: int
  leader :: int
  uid :: u16
  euid :: u16
  suid :: u16
  gid :: u16
  egid :: u16
  sgid :: u16
  alarm :: int
  utime :: int
  stime :: int
  cutime :: int
  cstime :: int
  start_time :: int
  used_math :: u16
  t_tty :: int
  umask :: u16
  pwd :: "nat option"
  root_dir :: "nat option"
  executable :: "nat option"
  close_on_exec :: u32
  filp :: "nat \<Rightarrow> nat option"
  ldt :: "nat \<Rightarrow> desc_struct"
  tss :: tss_struct

datatype wait_queue =
    WMotor nat
  | WBuffer nat
  | WBufferWait
  | WRequest
  | WWaiting nat
  | WInode nat
  | WSuper nat
  | WTty nat nat
  | WFloppySelect

record timer =
  tm_jiffies :: int
  tm_fn :: "nat option"
  tm_next :: "nat option"

record sched_state = mm_state +
  task :: "nat \<Rightarrow> task_struct option"
  current :: nat
  jiffies :: int
  startup_time :: int
  last_task_used_math :: "nat option"
  last_pid :: int
  waitq :: "wait_queue \<Rightarrow> nat option"
  mon_timer :: "nat \<Rightarrow> int"
  moff_timer :: "nat \<Rightarrow> int"
  current_DOR :: u8
  selected :: u8
  timer_list :: "nat \<Rightarrow> timer"
  next_timer :: "nat option"
  beepcount :: int
  ports :: "(u16 \<times> u8) list"
  inports :: "u16 \<Rightarrow> u8"
  gdt :: "nat \<Rightarrow> desc_struct"
  fpu :: "u32 list"
  user :: "u32 \<Rightarrow> u8"

abbreviation (input) NR_TASKS :: nat where "NR_TASKS \<equiv> 64"
abbreviation (input) NR_OPEN :: nat where "NR_OPEN \<equiv> 20"
abbreviation (input) HZ :: int where "HZ \<equiv> 100"

abbreviation (input) TASK_RUNNING :: int where "TASK_RUNNING \<equiv> 0"
abbreviation (input) TASK_INTERRUPTIBLE :: int where "TASK_INTERRUPTIBLE \<equiv> 1"
abbreviation (input) TASK_UNINTERRUPTIBLE :: int where "TASK_UNINTERRUPTIBLE \<equiv> 2"
abbreviation (input) TASK_ZOMBIE :: int where "TASK_ZOMBIE \<equiv> 3"
abbreviation (input) TASK_STOPPED :: int where "TASK_STOPPED \<equiv> 4"

abbreviation (input) SIGHUP :: nat where "SIGHUP \<equiv> 1"
abbreviation (input) SIGKILL :: nat where "SIGKILL \<equiv> 9"
abbreviation (input) SIGPIPE :: nat where "SIGPIPE \<equiv> 13"
abbreviation (input) SIGALRM :: nat where "SIGALRM \<equiv> 14"
abbreviation (input) SIGCHLD :: nat where "SIGCHLD \<equiv> 17"
abbreviation (input) SIGSTOP :: nat where "SIGSTOP \<equiv> 19"

abbreviation (input) EPERM :: int where "EPERM \<equiv> 1"
abbreviation (input) ESRCH :: int where "ESRCH \<equiv> 3"
abbreviation (input) EINTR :: int where "EINTR \<equiv> 4"
abbreviation (input) ECHILD :: int where "ECHILD \<equiv> 10"
abbreviation (input) EAGAIN :: int where "EAGAIN \<equiv> 11"
abbreviation (input) ENOMEM :: int where "ENOMEM \<equiv> 12"
abbreviation (input) EINVAL :: int where "EINVAL \<equiv> 22"
abbreviation (input) ENOSYS :: int where "ENOSYS \<equiv> 38"

text \<open>\<open>_S(nr)\<close> of sched.c, and the bit \<open>1 << (sig-1)\<close> the other files write out.\<close>

definition S_bit :: "nat \<Rightarrow> u32" where
  "S_bit nr = push_bit (nr - 1) 1"

definition BLOCKABLE :: u32 where
  "BLOCKABLE = NOT (S_bit SIGKILL OR S_bit SIGSTOP)"

text \<open>Access to a task through its slot; \<open>upd_task\<close> leaves an empty slot empty.\<close>

definition upd_task ::
    "nat \<Rightarrow> (task_struct \<Rightarrow> task_struct) \<Rightarrow> 'z sched_state_scheme \<Rightarrow> 'z sched_state_scheme" where
  "upd_task i f s = s\<lparr>task := (task s)(i := map_option f (task s i))\<rparr>"

definition cur :: "'z sched_state_scheme \<Rightarrow> task_struct" where
  "cur s = the (task s (current s))"

definition upd_cur ::
    "(task_struct \<Rightarrow> task_struct) \<Rightarrow> 'z sched_state_scheme \<Rightarrow> 'z sched_state_scheme" where
  "upd_cur f s = upd_task (current s) f s"

definition suser :: "'z sched_state_scheme \<Rightarrow> bool" where
  "suser s \<longleftrightarrow> euid (cur s) = 0"

definition CURRENT_TIME :: "'z sched_state_scheme \<Rightarrow> int" where
  "CURRENT_TIME s = s32 (startup_time s + tdiv (jiffies s) HZ)"

text \<open>The segment descriptors: \<open>_set_base\<close>, \<open>_get_base\<close>, \<open>_set_limit\<close> and \<open>get_limit\<close>
  store the base in bits 16-31 of the first word and bits 0-7 and 24-31 of the second, the
  limit in bits 0-15 of the first and bits 16-19 of the second.\<close>

definition set_base :: "u32 \<Rightarrow> desc_struct \<Rightarrow> desc_struct" where
  "set_base base d = d\<lparr>
     desc_a := (desc_a d AND 0xffff) OR push_bit 16 base,
     desc_b := (desc_b d AND 0x00ffff00) OR (drop_bit 16 base AND 0xff) OR (base AND 0xff000000)\<rparr>"

definition get_base :: "desc_struct \<Rightarrow> u32" where
  "get_base d = drop_bit 16 (desc_a d) OR push_bit 16 (desc_b d AND 0xff) OR (desc_b d AND 0xff000000)"

definition set_limit_field :: "u32 \<Rightarrow> desc_struct \<Rightarrow> desc_struct" where
  "set_limit_field limit d = d\<lparr>
     desc_a := (desc_a d AND 0xffff0000) OR (limit AND 0xffff),
     desc_b := (desc_b d AND 0xfff0ffff) OR ((limit AND 0x000f0000))\<rparr>"

definition set_limit :: "u32 \<Rightarrow> desc_struct \<Rightarrow> desc_struct" where
  "set_limit limit d = set_limit_field (drop_bit 12 (limit - 1)) d"

text \<open>\<open>lsll\<close> scales the limit by the granularity bit (bit 23); \<open>get_limit\<close> adds one. The
  selectors 0x0f and 0x17 name entries 1 and 2 of the local descriptor table.\<close>

definition get_limit :: "desc_struct \<Rightarrow> u32" where
  "get_limit d =
     (let l = (desc_a d AND 0xffff) OR (desc_b d AND 0x000f0000)
      in (if bit (desc_b d) 23 then push_bit 12 l OR 0xfff else l) + 1)"

definition LDT_sel :: "nat \<Rightarrow> u32" where
  "LDT_sel n = push_bit 4 (of_nat n) + 40"

definition TSS_sel :: "nat \<Rightarrow> u32" where
  "TSS_sel n = push_bit 4 (of_nat n) + 32"

text \<open>\<open>_set_tssldt_desc\<close> (include/asm/system.h): limit 104, the base and the type byte.\<close>

definition set_tssldt_desc :: "u32 \<Rightarrow> u32 \<Rightarrow> desc_struct" where
  "set_tssldt_desc addr typ = \<lparr>
     desc_a = 104 OR push_bit 16 addr,
     desc_b = (drop_bit 16 addr AND 0xff) OR push_bit 8 typ OR (addr AND 0xff000000)\<rparr>"

text \<open>Access to user memory through the \<open>fs\<close> segment (include/asm/segment.h), little endian.\<close>

definition get_fs_byte :: "u32 \<Rightarrow> 'z sched_state_scheme \<Rightarrow> u8" where
  "get_fs_byte a s = user s a"

definition get_fs_word :: "u32 \<Rightarrow> 'z sched_state_scheme \<Rightarrow> u16" where
  "get_fs_word a s = ucast (user s a) OR push_bit 8 (ucast (user s (a + 1)))"

definition get_fs_long :: "u32 \<Rightarrow> 'z sched_state_scheme \<Rightarrow> u32" where
  "get_fs_long a s = ucast (user s a) OR push_bit 8 (ucast (user s (a + 1)))
     OR push_bit 16 (ucast (user s (a + 2))) OR push_bit 24 (ucast (user s (a + 3)))"

definition put_fs_byte :: "u8 \<Rightarrow> u32 \<Rightarrow> 'z sched_state_scheme \<Rightarrow> 'z sched_state_scheme" where
  "put_fs_byte v a s = s\<lparr>user := (user s)(a := v)\<rparr>"

definition put_fs_word :: "u16 \<Rightarrow> u32 \<Rightarrow> 'z sched_state_scheme \<Rightarrow> 'z sched_state_scheme" where
  "put_fs_word v a s = s\<lparr>user := (user s)(a := ucast v, a + 1 := ucast (drop_bit 8 v))\<rparr>"

definition put_fs_long :: "u32 \<Rightarrow> u32 \<Rightarrow> 'z sched_state_scheme \<Rightarrow> 'z sched_state_scheme" where
  "put_fs_long v a s = s\<lparr>user := (user s)(a := ucast v, a + 1 := ucast (drop_bit 8 v),
     a + 2 := ucast (drop_bit 16 v), a + 3 := ucast (drop_bit 24 v))\<rparr>"

text \<open>The task structure of task 0 (\<open>INIT_TASK\<close>), at address \<open>init_task\<close>, and the static data of
  the scheduler before \<open>sched_init\<close>.\<close>

definition no_action :: sigaction where
  "no_action = \<lparr>sa_handler = 0, sa_mask = 0, sa_flags = 0, sa_restorer = 0\<rparr>"

definition no_desc :: desc_struct where
  "no_desc = \<lparr>desc_a = 0, desc_b = 0\<rparr>"

definition INIT_TASK :: "u32 \<Rightarrow> task_struct" where
  "INIT_TASK init_task = \<lparr>t_page = init_task, state = 0, counter = 15, priority = 15,
     signal = 0, sigactions = (\<lambda>_. no_action), blocked = 0,
     exit_code = 0, start_code = 0, end_code = 0, end_data = 0, brk = 0, start_stack = 0,
     pid = 0, father = -1, pgrp = 0, session = 0, leader = 0,
     uid = 0, euid = 0, suid = 0, gid = 0, egid = 0, sgid = 0,
     alarm = 0, utime = 0, stime = 0, cutime = 0, cstime = 0, start_time = 0,
     used_math = 0, t_tty = -1, umask = 0x12, pwd = None, root_dir = None, executable = None,
     close_on_exec = 0, filp = (\<lambda>_. None),
     ldt = (\<lambda>_. no_desc)(1 := \<lparr>desc_a = 0x9f, desc_b = 0xc0fa00\<rparr>, 2 := \<lparr>desc_a = 0x9f, desc_b = 0xc0f200\<rparr>),
     tss = \<lparr>tss_back_link = 0, tss_esp0 = 4096 + init_task, tss_ss0 = 0x10, tss_esp1 = 0, tss_ss1 = 0,
       tss_esp2 = 0, tss_ss2 = 0, tss_cr3 = 0, tss_eip = 0, tss_eflags = 0, tss_eax = 0, tss_ecx = 0,
       tss_edx = 0, tss_ebx = 0, tss_esp = 0, tss_ebp = 0, tss_esi = 0, tss_edi = 0, tss_es = 0x17,
       tss_cs = 0x17, tss_ss = 0x17, tss_ds = 0x17, tss_fs = 0x17, tss_gs = 0x17,
       tss_ldt = LDT_sel 0, tss_trace_bitmap = 0x80000000, i387 = []\<rparr>\<rparr>"

definition sched_data :: "u32 \<Rightarrow> sched_state" where
  "sched_data init_task = \<lparr>mem_map = (\<lambda>_. 0), phys = (\<lambda>_. 0), HIGH_MEMORY = 0, klog = [], cr3_loads = 0,
     task = [0 \<mapsto> INIT_TASK init_task], current = 0, jiffies = 0, startup_time = 0,
     last_task_used_math = None, last_pid = 0, waitq = (\<lambda>_. None),
     mon_timer = (\<lambda>_. 0), moff_timer = (\<lambda>_. 0), current_DOR = 0x0C, selected = 0,
     timer_list = (\<lambda>_. \<lparr>tm_jiffies = 0, tm_fn = None, tm_next = None\<rparr>), next_timer = None,
     beepcount = 0, ports = [], inports = (\<lambda>_. 0), gdt = (\<lambda>_. no_desc), fpu = [], user = (\<lambda>_. 0)\<rparr>"

end
