(* ===== verification/Kernel_Sched.thy ===== *)
theory Kernel_Sched
  imports Kernel_Task
begin

text \<open>
  The scheduler, src/kernel/sched.c: \<open>schedule\<close>, the sleep and wake-up primitives, the timer
  list, the floppy motor timers, the clock interrupt and the small system calls.

  \<open>schedule\<close> ends with \<open>switch_to\<close>: the state it returns is the one in which the chosen task
  runs. A routine that goes to sleep continues when its task is chosen again, so it takes a
  list of interferences: the \<open>n\<close>-th element is what the other tasks and the interrupts do to
  the state during the \<open>n\<close>-th call of \<open>schedule\<close>, and an exhausted list is a task that
  still sleeps (\<open>Blocked\<close>). A loop of \<open>schedule\<close> that does not end is \<open>Blocked\<close> too. Timer functions are
  numbered, and the argument \<open>call\<close> of \<open>add_timer\<close> and \<open>do_timer\<close> says what a call does.
\<close>

type_synonym 's interference = "('s \<Rightarrow> 's) list"

subsection \<open>The scheduler\<close>

text \<open>First loop of \<open>schedule\<close>: one task, then the slots \<open>n\<close> down to 1.\<close>

definition check_signals :: "int \<Rightarrow> task_struct \<Rightarrow> task_struct" where
  "check_signals now t =
     (let t = (if alarm t \<noteq> 0 \<and> alarm t < now
               then t\<lparr>signal := signal t OR S_bit SIGALRM, alarm := 0\<rparr> else t)
      in if signal t AND NOT (BLOCKABLE AND blocked t) \<noteq> 0 \<and> state t = TASK_INTERRUPTIBLE
         then t\<lparr>state := TASK_RUNNING\<rparr> else t)"

fun wake_signalled :: "nat \<Rightarrow> 'z sched_state_scheme \<Rightarrow> 'z sched_state_scheme" where
  "wake_signalled 0 s = s"
| "wake_signalled (Suc n) s = wake_signalled n (upd_task (Suc n) (check_signals (jiffies s)) s)"

text \<open>\<open>while (--i)\<close>: the slots \<open>n\<close> down to 1 with the best counter \<open>c\<close> and slot \<open>nxt\<close> so far.\<close>

fun pick_next ::
    "nat \<Rightarrow> (nat \<Rightarrow> task_struct option) \<Rightarrow> int \<Rightarrow> nat \<Rightarrow> int \<times> nat" where
  "pick_next 0 tsk c nxt = (c, nxt)"
| "pick_next (Suc n) tsk c nxt =
     (case tsk (Suc n) of
        None \<Rightarrow> pick_next n tsk c nxt
      | Some t \<Rightarrow> if state t = TASK_RUNNING \<and> counter t > c
                  then pick_next n tsk (counter t) (Suc n)
                  else pick_next n tsk c nxt)"

fun recharge :: "nat \<Rightarrow> 'z sched_state_scheme \<Rightarrow> 'z sched_state_scheme" where
  "recharge 0 s = s"
| "recharge (Suc n) s =
     recharge n (upd_task (Suc n) (\<lambda>t. t\<lparr>counter := s32 (counter t div 2 + priority t)\<rparr>) s)"

partial_function (option) schedule_loop ::
    "'z sched_state_scheme \<Rightarrow> (nat \<times> 'z sched_state_scheme) option" where
  "schedule_loop s =
     (let (c, nxt) = pick_next (NR_TASKS - 1) (task s) (-1) 0
      in if c \<noteq> 0 then Some (nxt, s) else schedule_loop (recharge (NR_TASKS - 1) s))"

definition switch_to :: "nat \<Rightarrow> 'z sched_state_scheme \<Rightarrow> 'z sched_state_scheme" where
  "switch_to n s = (if n = current s then s else s\<lparr>current := n\<rparr>)"

definition schedule :: "'z sched_state_scheme \<Rightarrow> (unit, 'z sched_state_scheme) kres" where
  "schedule s =
     (let s = wake_signalled (NR_TASKS - 1) s in
      case schedule_loop s of
        None \<Rightarrow> Blocked s
      | Some (nxt, s) \<Rightarrow> Ok () (switch_to nxt s))"

text \<open>A call of \<open>schedule\<close> as its caller sees it: the first interference is what happens until
  the caller's slot would be current again. \<open>schedule\<close> switches to a task only when it is runnable, and to task 0 also when no other is;
  a caller that the interference has left in another state goes on waiting.\<close>

definition resumable :: "nat \<Rightarrow> 'z sched_state_scheme \<Rightarrow> bool" where
  "resumable me s \<longleftrightarrow> me = 0 \<or> (case task s me of None \<Rightarrow> False | Some t \<Rightarrow> state t = TASK_RUNNING)"

definition resume ::
    "nat \<Rightarrow> ('z sched_state_scheme \<Rightarrow> 'z sched_state_scheme) \<Rightarrow> 'z sched_state_scheme \<Rightarrow> (unit, 'z sched_state_scheme) kres" where
  "resume me e s = (let s = e s in if resumable me s then Ok () (s\<lparr>current := me\<rparr>) else Blocked s)"

fun reschedule ::
    "'z sched_state_scheme interference \<Rightarrow> 'z sched_state_scheme
     \<Rightarrow> ('z sched_state_scheme interference, 'z sched_state_scheme) kres" where
  "reschedule [] s = bindk (schedule s) (\<lambda>_ t. Blocked t)"
| "reschedule (e # env) s =
     bindk (schedule s) (\<lambda>_ t. bindk (resume (current s) e t) (\<lambda>_ t. Ok env t))"

subsection \<open>Sleeping and waking\<close>

definition sys_pause ::
    "'z sched_state_scheme interference \<Rightarrow> 'z sched_state_scheme
     \<Rightarrow> (int, 'z sched_state_scheme) kres" where
  "sys_pause env s =
     bindk (reschedule env (upd_cur (\<lambda>t. t\<lparr>state := TASK_INTERRUPTIBLE\<rparr>) s)) (\<lambda>_ s. Ok 0 s)"

text \<open>The two halves of \<open>sleep_on\<close>: what task \<open>me\<close> does before and after \<open>schedule\<close>;
  \<open>tmp\<close> is the previous head of the queue, kept on the sleeper's stack.\<close>

definition sleep_enter ::
    "wait_queue \<Rightarrow> nat \<Rightarrow> 'z sched_state_scheme \<Rightarrow> 'z sched_state_scheme" where
  "sleep_enter q me s =
     upd_task me (\<lambda>t. t\<lparr>state := TASK_UNINTERRUPTIBLE\<rparr>) (s\<lparr>waitq := (waitq s)(q := Some me)\<rparr>)"

definition sleep_leave :: "nat option \<Rightarrow> 'z sched_state_scheme \<Rightarrow> 'z sched_state_scheme" where
  "sleep_leave tmp s =
     (case tmp of None \<Rightarrow> s | Some t \<Rightarrow> upd_task t (\<lambda>t. t\<lparr>state := 0\<rparr>) s)"

definition sleep_on ::
    "wait_queue option \<Rightarrow> 'z sched_state_scheme interference \<Rightarrow> 'z sched_state_scheme
     \<Rightarrow> ('z sched_state_scheme interference, 'z sched_state_scheme) kres" where
  "sleep_on p env s =
     (case p of
        None \<Rightarrow> Ok env s
      | Some q \<Rightarrow>
          if current s = 0 then Panic ''task[0] trying to sleep'' s
          else
            let tmp = waitq s q in
            bindk (reschedule env (sleep_enter q (current s) s)) (\<lambda>env s.
              Ok env (sleep_leave tmp s)))"

text \<open>The \<open>repeat\<close> loop of \<open>interruptible_sleep_on\<close>; every round takes one interference.\<close>

fun interruptible_wait ::
    "wait_queue \<Rightarrow> 'z sched_state_scheme interference \<Rightarrow> 'z sched_state_scheme
     \<Rightarrow> ('z sched_state_scheme interference, 'z sched_state_scheme) kres" where
  "interruptible_wait q env s =
     (let s = upd_cur (\<lambda>t. t\<lparr>state := TASK_INTERRUPTIBLE\<rparr>) s in
      case env of
        [] \<Rightarrow> bindk (schedule s) (\<lambda>_ t. Blocked t)
      | e # env \<Rightarrow>
          bindk (schedule s) (\<lambda>_ t.
          bindk (resume (current s) e t) (\<lambda>_ t.
            case waitq t q of
              None \<Rightarrow> Ok env t
            | Some h \<Rightarrow>
                if h \<noteq> current t
                then interruptible_wait q env (upd_task h (\<lambda>t. t\<lparr>state := 0\<rparr>) t)
                else Ok env t)))"

definition interruptible_sleep_on ::
    "wait_queue option \<Rightarrow> 'z sched_state_scheme interference \<Rightarrow> 'z sched_state_scheme
     \<Rightarrow> ('z sched_state_scheme interference, 'z sched_state_scheme) kres" where
  "interruptible_sleep_on p env s =
     (case p of
        None \<Rightarrow> Ok env s
      | Some q \<Rightarrow>
          if current s = 0 then Panic ''task[0] trying to sleep'' s
          else
            let tmp = waitq s q;
                s = s\<lparr>waitq := (waitq s)(q := Some (current s))\<rparr> in
            bindk (interruptible_wait q env s) (\<lambda>env s.
              let s = s\<lparr>waitq := (waitq s)(q := None)\<rparr> in
              Ok env (sleep_leave tmp s)))"

definition wake_up :: "wait_queue option \<Rightarrow> 'z sched_state_scheme \<Rightarrow> 'z sched_state_scheme" where
  "wake_up p s =
     (case p of
        None \<Rightarrow> s
      | Some q \<Rightarrow>
          (case waitq s q of
             None \<Rightarrow> s
           | Some t \<Rightarrow> (upd_task t (\<lambda>t. t\<lparr>state := 0\<rparr>) s)\<lparr>waitq := (waitq s)(q := None)\<rparr>))"

definition math_state_restore :: "'z sched_state_scheme \<Rightarrow> 'z sched_state_scheme" where
  "math_state_restore s =
     (if last_task_used_math s = Some (current s) then s
      else
        let s = (case last_task_used_math s of
                   None \<Rightarrow> s
                 | Some l \<Rightarrow> upd_task l (\<lambda>t. t\<lparr>tss := (tss t)\<lparr>i387 := fpu s\<rparr>\<rparr>) s);
            s = s\<lparr>last_task_used_math := Some (current s)\<rparr> in
        if used_math (cur s) \<noteq> 0 then s\<lparr>fpu := i387 (tss (cur s))\<rparr>
        else upd_cur (\<lambda>t. t\<lparr>used_math := 1\<rparr>) (s\<lparr>fpu := []\<rparr>))"

subsection \<open>Floppy motor timers\<close>

definition FD_DOR :: u16 where "FD_DOR = 0x3f2"

definition outb :: "u8 \<Rightarrow> u16 \<Rightarrow> 'z sched_state_scheme \<Rightarrow> 'z sched_state_scheme" where
  "outb v p s = s\<lparr>ports := ports s @ [(p, v)]\<rparr>"

definition inb :: "u16 \<Rightarrow> 'z sched_state_scheme \<Rightarrow> u8" where
  "inb p s = inports s p"

definition ticks_to_floppy_on ::
    "nat \<Rightarrow> 'z sched_state_scheme \<Rightarrow> (int, 'z sched_state_scheme) kres" where
  "ticks_to_floppy_on nr s =
     (let mask = push_bit nr 0x10 :: u8 in
      if nr > 3 then Panic ''floppy_on: nr>3'' s
      else
        let s = s\<lparr>moff_timer := (moff_timer s)(nr := 10000)\<rparr>;
            mask = mask OR current_DOR s;
            mask = (if selected s = 0 then (mask AND 0xFC) OR of_nat nr else mask);
            s = (if mask \<noteq> current_DOR s
                 then let s = outb mask FD_DOR s;
                          s = (if (mask XOR current_DOR s) AND 0xf0 \<noteq> 0
                               then s\<lparr>mon_timer := (mon_timer s)(nr := HZ div 2)\<rparr>
                               else if mon_timer s nr < 2
                               then s\<lparr>mon_timer := (mon_timer s)(nr := 2)\<rparr>
                               else s)
                      in s\<lparr>current_DOR := mask\<rparr>
                 else s)
        in Ok (mon_timer s nr) s)"

fun floppy_on ::
    "nat \<Rightarrow> 'z sched_state_scheme interference \<Rightarrow> 'z sched_state_scheme
     \<Rightarrow> ('z sched_state_scheme interference, 'z sched_state_scheme) kres" where
  "floppy_on nr [] s =
     bindk (ticks_to_floppy_on nr s) (\<lambda>t s.
       if t = 0 then Ok [] s else bindk (sleep_on (Some (WMotor nr)) [] s) Ok)"
| "floppy_on nr (e # env) s =
     bindk (ticks_to_floppy_on nr s) (\<lambda>t s.
       if t = 0 then Ok (e # env) s
       else bindk (sleep_on (Some (WMotor nr)) [e] s) (\<lambda>_ s. floppy_on nr env s))"

definition floppy_off :: "nat \<Rightarrow> 'z sched_state_scheme \<Rightarrow> 'z sched_state_scheme" where
  "floppy_off nr s = s\<lparr>moff_timer := (moff_timer s)(nr := 3 * HZ)\<rparr>"

definition floppy_timer_one :: "nat \<Rightarrow> 'z sched_state_scheme \<Rightarrow> 'z sched_state_scheme" where
  "floppy_timer_one i s =
     (let mask = push_bit i 0x10 :: u8 in
      if mask AND current_DOR s = 0 then s
      else if mon_timer s i \<noteq> 0
      then let s = s\<lparr>mon_timer := (mon_timer s)(i := s32 (mon_timer s i - 1))\<rparr>
           in if mon_timer s i = 0 then wake_up (Some (WMotor i)) s else s
      else if moff_timer s i = 0
      then let s = s\<lparr>current_DOR := current_DOR s AND NOT mask\<rparr>
           in outb (current_DOR s) FD_DOR s
      else s\<lparr>moff_timer := (moff_timer s)(i := s32 (moff_timer s i - 1))\<rparr>)"

definition do_floppy_timer :: "'z sched_state_scheme \<Rightarrow> 'z sched_state_scheme" where
  "do_floppy_timer s = fold floppy_timer_one [0..<4] s"

subsection \<open>The timer list\<close>

abbreviation (input) TIME_REQUESTS :: nat where "TIME_REQUESTS \<equiv> 64"

fun free_timer :: "nat \<Rightarrow> (nat \<Rightarrow> timer) \<Rightarrow> nat \<Rightarrow> nat option" where
  "free_timer 0 tms p = None"
| "free_timer (Suc n) tms p = (if tm_fn (tms p) = None then Some p else free_timer n tms (Suc p))"

text \<open>The sorting loop of \<open>add_timer\<close>: the new request moves down the list, every step takes
  the delay of the request it passes off its own; \<open>n\<close> bounds the length of the list.\<close>

fun sink_timer :: "nat \<Rightarrow> nat \<Rightarrow> (nat \<Rightarrow> timer) \<Rightarrow> (nat \<Rightarrow> timer)" where
  "sink_timer 0 p tms = tms"
| "sink_timer (Suc n) p tms =
     (case tm_next (tms p) of
        None \<Rightarrow> tms
      | Some q \<Rightarrow>
          if tm_jiffies (tms q) < tm_jiffies (tms p)
          then let j = s32 (tm_jiffies (tms p) - tm_jiffies (tms q));
                   tp = (tms p)\<lparr>tm_fn := tm_fn (tms q), tm_jiffies := tm_jiffies (tms q)\<rparr>;
                   tq = (tms q)\<lparr>tm_fn := tm_fn (tms p), tm_jiffies := j\<rparr>
               in sink_timer n q (tms(p := tp, q := tq))
          else tms)"

definition add_timer ::
    "(nat \<Rightarrow> 'z sched_state_scheme \<Rightarrow> 'z sched_state_scheme)
     \<Rightarrow> int \<Rightarrow> nat option \<Rightarrow> 'z sched_state_scheme \<Rightarrow> (unit, 'z sched_state_scheme) kres" where
  "add_timer call j fn s =
     (case fn of
        None \<Rightarrow> Ok () s
      | Some f \<Rightarrow>
          if j \<le> 0 then Ok () (call f s)
          else (case free_timer TIME_REQUESTS (timer_list s) 0 of
                  None \<Rightarrow> Panic ''No more time requests free'' s
                | Some p \<Rightarrow>
                    let tms = (timer_list s)(p := \<lparr>tm_jiffies = j, tm_fn = Some f,
                                                  tm_next = next_timer s\<rparr>)
                    in Ok () (s\<lparr>timer_list := sink_timer TIME_REQUESTS p tms,
                               next_timer := Some p\<rparr>)))"

text \<open>\<open>while (next_timer && next_timer->jiffies <= 0)\<close>: a timer function may add timers, so the
  number of rounds is bounded by \<open>n\<close>, and running out of rounds is \<open>Blocked\<close>.\<close>

fun run_timers ::
    "(nat \<Rightarrow> 'z sched_state_scheme \<Rightarrow> 'z sched_state_scheme)
     \<Rightarrow> nat \<Rightarrow> 'z sched_state_scheme \<Rightarrow> (unit, 'z sched_state_scheme) kres" where
  "run_timers call 0 s = Blocked s"
| "run_timers call (Suc n) s =
     (case next_timer s of
        None \<Rightarrow> Ok () s
      | Some p \<Rightarrow>
          if tm_jiffies (timer_list s p) \<le> 0
          then (case tm_fn (timer_list s p) of
                  None \<Rightarrow> Fault s
                | Some f \<Rightarrow>
                    run_timers call n (call f
                      (s\<lparr>timer_list := (timer_list s)(p := (timer_list s p)\<lparr>tm_fn := None\<rparr>),
                         next_timer := tm_next (timer_list s p)\<rparr>)))
          else Ok () s)"

definition sysbeepstop :: "'z sched_state_scheme \<Rightarrow> 'z sched_state_scheme" where
  "sysbeepstop s = outb (inb 0x61 s AND 0xFC) 0x61 s"

definition do_timer ::
    "(nat \<Rightarrow> 'z sched_state_scheme \<Rightarrow> 'z sched_state_scheme)
     \<Rightarrow> nat \<Rightarrow> int \<Rightarrow> 'z sched_state_scheme \<Rightarrow> (unit, 'z sched_state_scheme) kres" where
  "do_timer call fuel cpl s =
     (let s = (if beepcount s \<noteq> 0
               then let s = s\<lparr>beepcount := s32 (beepcount s - 1)\<rparr>
                    in if beepcount s = 0 then sysbeepstop s else s
               else s);
          s = (if cpl \<noteq> 0 then upd_cur (\<lambda>t. t\<lparr>utime := s32 (utime t + 1)\<rparr>) s
               else upd_cur (\<lambda>t. t\<lparr>stime := s32 (stime t + 1)\<rparr>) s) in
      bindk (case next_timer s of
               None \<Rightarrow> Ok () s
             | Some p \<Rightarrow> run_timers call fuel
                 (s\<lparr>timer_list := (timer_list s)(p := (timer_list s p)
                      \<lparr>tm_jiffies := s32 (tm_jiffies (timer_list s p) - 1)\<rparr>)\<rparr>))
        (\<lambda>_ s.
           let s = (if current_DOR s AND 0xf0 \<noteq> 0 then do_floppy_timer s else s);
               s = upd_cur (\<lambda>t. t\<lparr>counter := s32 (counter t - 1)\<rparr>) s in
           if counter (cur s) > 0 then Ok () s
           else let s = upd_cur (\<lambda>t. t\<lparr>counter := 0\<rparr>) s in
             if cpl = 0 then Ok () s else schedule s))"

subsection \<open>System calls\<close>

definition sys_alarm :: "int \<Rightarrow> 'z sched_state_scheme \<Rightarrow> int \<times> 'z sched_state_scheme" where
  "sys_alarm seconds s =
     (let old = alarm (cur s);
          old = (if old \<noteq> 0 then tdiv (s32 (old - jiffies s)) HZ else old)
      in (old, upd_cur (\<lambda>t. t\<lparr>alarm := (if seconds > 0 then s32 (jiffies s + HZ * seconds) else 0)\<rparr>) s))"

definition sys_getpid :: "'z sched_state_scheme \<Rightarrow> int" where
  "sys_getpid s = pid (cur s)"

definition sys_getppid :: "'z sched_state_scheme \<Rightarrow> int" where
  "sys_getppid s = father (cur s)"

definition sys_getuid :: "'z sched_state_scheme \<Rightarrow> int" where
  "sys_getuid s = uint (uid (cur s))"

definition sys_geteuid :: "'z sched_state_scheme \<Rightarrow> int" where
  "sys_geteuid s = uint (euid (cur s))"

definition sys_getgid :: "'z sched_state_scheme \<Rightarrow> int" where
  "sys_getgid s = uint (gid (cur s))"

definition sys_getegid :: "'z sched_state_scheme \<Rightarrow> int" where
  "sys_getegid s = uint (egid (cur s))"

definition sys_nice :: "int \<Rightarrow> 'z sched_state_scheme \<Rightarrow> int \<times> 'z sched_state_scheme" where
  "sys_nice increment s =
     (if s32 (priority (cur s) - increment) > 0
      then (0, upd_cur (\<lambda>t. t\<lparr>priority := s32 (priority t - increment)\<rparr>) s)
      else (0, s))"

text \<open>\<open>sched_init\<close>: the descriptors of task 0, an empty process table, empty descriptors for
  the other slots, the clock chip and the timer interrupt mask. The structure of task 0 is at \<open>init_task\<close>, its \<open>tss\<close> and \<open>ldt\<close> at offsets 744 and 720.\<close>

definition sched_init :: "u32 \<Rightarrow> 'z sched_state_scheme \<Rightarrow> 'z sched_state_scheme" where
  "sched_init init_task s =
     (let s = s\<lparr>gdt := (\<lambda>i. if i = 4 then set_tssldt_desc (init_task + 744) 0x89
                            else if i = 5 then set_tssldt_desc (init_task + 720) 0x82
                            else if 6 \<le> i \<and> i < 6 + 2 * (NR_TASKS - 1) then \<lparr>desc_a = 0, desc_b = 0\<rparr>
                            else gdt s i),
                task := (\<lambda>i. if 1 \<le> i \<and> i < NR_TASKS then None else task s i)\<rparr>;
          latch = 1193180 div 100 :: nat
      in outb (inb 0x21 s AND NOT 1) 0x21
          (outb (of_nat (latch div 256)) 0x40 (outb (of_nat latch) 0x40 (outb 0x36 0x43 s))))"

end
