(* ===== verification/Sched_Laws.thy ===== *)
theory Sched_Laws
  imports Kernel_Sched
begin

text \<open>
  What src/kernel/sched.c guarantees: the choice \<open>schedule\<close> makes and that its loop ends, the
  wait-queue protocol of \<open>sleep_on\<close> and \<open>wake_up\<close> as a transition system (\<open>wq_step\<close>: a task
  enters the queue, the queue is woken, a woken task leaves and wakes the one before it), the
  timer list as a list of delays, and the clock interrupt in kernel mode.
\<close>


definition runnable :: "'z sched_state_scheme \<Rightarrow> nat \<Rightarrow> bool" where
  "runnable s i \<longleftrightarrow> 1 \<le> i \<and> i < NR_TASKS \<and>
     (case task s i of None \<Rightarrow> False | Some t \<Rightarrow> state t = TASK_RUNNING)"

definition counter_of :: "'z sched_state_scheme \<Rightarrow> nat \<Rightarrow> int" where
  "counter_of s i = (case task s i of None \<Rightarrow> -1 | Some t \<Rightarrow> counter t)"

definition sched_wf :: "'z sched_state_scheme \<Rightarrow> bool" where
  "sched_wf s \<longleftrightarrow> (\<forall>i t. 1 \<le> i \<and> i < NR_TASKS \<and> task s i = Some t \<longrightarrow>
     0 \<le> counter t \<and> counter t < 2 ^ 30 \<and> 0 < priority t \<and> priority t < 2 ^ 30)"

lemma upd_cur_frame [simp]:
  "current (upd_cur f s) = current s"
  "task (upd_cur f s) (current s) = map_option f (task s (current s))"
  by (simp_all add: upd_cur_def upd_task_def)

lemma task_upd_task [simp]:
  "task (upd_task i f s) j = (if i = j then map_option f (task s j) else task s j)"
  by (simp add: upd_task_def)

lemma upd_task_frame [simp]:
  "current (upd_task i f s) = current s" "jiffies (upd_task i f s) = jiffies s"
  "waitq (upd_task i f s) = waitq s" "timer_list (upd_task i f s) = timer_list s"
  by (simp_all add: upd_task_def)

lemma jiffies_wake_signalled [simp]: "jiffies (wake_signalled n s) = jiffies s"
  by (induction n arbitrary: s) auto

lemma task_wake_signalled:
  "task (wake_signalled n s) i =
     (if 1 \<le> i \<and> i \<le> n then map_option (check_signals (jiffies s)) (task s i) else task s i)"
  by (induction n arbitrary: s) auto

lemma task_recharge:
  "task (recharge n s) i =
     (if 1 \<le> i \<and> i \<le> n
      then map_option (\<lambda>t. t\<lparr>counter := s32 (counter t div 2 + priority t)\<rparr>) (task s i)
      else task s i)"
  by (induction n arbitrary: s) auto

lemma check_signals_fields [simp]:
  "counter (check_signals j t) = counter t" "priority (check_signals j t) = priority t"
  by (simp_all add: check_signals_def Let_def)

lemma check_signals_awake:
  "state (check_signals j t) = TASK_INTERRUPTIBLE \<Longrightarrow>
   signal (check_signals j t) AND NOT (BLOCKABLE AND blocked t) = 0"
  by (auto simp: check_signals_def Let_def split: if_splits)

lemma sched_wf_wake: "sched_wf s \<Longrightarrow> sched_wf (wake_signalled n s)"
  unfolding sched_wf_def by (auto simp: task_wake_signalled split: if_splits)

lemma pick_next_spec:
  "pick_next n tsk c nxt = (c', x) \<Longrightarrow>
     c \<le> c' \<and> (\<forall>i t. 1 \<le> i \<and> i \<le> n \<and> tsk i = Some t \<and> state t = TASK_RUNNING \<longrightarrow> counter t \<le> c') \<and>
     (c' = c \<and> x = nxt \<or>
      c < c' \<and> 1 \<le> x \<and> x \<le> n \<and> (\<exists>t. tsk x = Some t \<and> state t = TASK_RUNNING \<and> counter t = c'))"
proof (induction n arbitrary: c nxt)
  case 0
  then show ?case by auto
next
  case (Suc n)
  then show ?case
    by (fastforce simp: le_Suc_eq split: option.splits if_splits)
qed

lemma pick_next_sched:
  assumes "pick_next 63 (task s) (-1) 0 = (c, x)"
    and nn: "\<forall>i t. runnable s i \<and> task s i = Some t \<longrightarrow> 0 \<le> counter t"
  shows "if \<exists>i. runnable s i then 0 \<le> c \<and> runnable s x \<and> counter_of s x = c \<and> (\<forall>i. runnable s i \<longrightarrow> counter_of s i \<le> c)
         else c = -1 \<and> x = 0"
  using pick_next_spec[OF assms(1)] nn unfolding runnable_def counter_of_def
  by (fastforce split: option.splits)

lemma runnable_recharge: "runnable (recharge 63 s) i = runnable s i"
  by (auto simp: runnable_def task_recharge split: option.splits)

lemma recharge_pos:
  assumes "sched_wf s" "runnable s i"
  shows "0 < counter_of (recharge 63 s) i"
proof -
  obtain t where t: "task s i = Some t" "1 \<le> i" "i < NR_TASKS"
    using assms(2) by (auto simp: runnable_def split: option.splits)
  then have "0 \<le> counter t" "counter t < 2 ^ 30" "0 < priority t" "priority t < 2 ^ 30"
    using assms(1) by (auto simp: sched_wf_def)
  then have "s32 (counter t div 2 + priority t) = counter t div 2 + priority t" "0 < counter t div 2 + priority t"
    by (auto intro!: s32_id)
  then show ?thesis using t by (simp add: counter_of_def task_recharge)
qed

lemma schedule_loop_ends:
  assumes wf: "sched_wf s"
  shows "\<exists>x s'. schedule_loop s = Some (x, s') \<and> (s' = s \<or> s' = recharge 63 s) \<and>
    (if \<exists>i. runnable s i
     then runnable s' x \<and> 0 < counter_of s' x \<and> (\<forall>i. runnable s' i \<longrightarrow> counter_of s' i \<le> counter_of s' x)
     else x = 0)"
proof -
  obtain c x where p: "pick_next 63 (task s) (-1) 0 = (c, x)" by fastforce
  have nn: "\<forall>i t. runnable s i \<and> task s i = Some t \<longrightarrow> 0 \<le> counter t"
    using wf by (auto simp: sched_wf_def runnable_def)
  note P = pick_next_sched[OF p nn]
  show ?thesis
  proof (cases "c = 0")
    case False
    then show ?thesis using p P by (subst schedule_loop.simps) (auto split: if_splits)
  next
    case True
    let ?r = "recharge 63 s"
    from True P have ex: "\<exists>i. runnable s i" by (auto split: if_splits)
    obtain c' x' where p': "pick_next 63 (task ?r) (-1) 0 = (c', x')" by fastforce
    have nn': "\<forall>i t. runnable ?r i \<and> task ?r i = Some t \<longrightarrow> 0 \<le> counter t"
      using recharge_pos[OF wf] less_imp_le unfolding runnable_recharge counter_of_def
      by (metis (no_types, lifting) option.simps(5))
    note P' = pick_next_sched[OF p' nn']
    have "runnable s x'" "counter_of ?r x' = c'"
      using P' ex unfolding runnable_recharge by (simp_all only: if_True)
    then have "0 < c'" using recharge_pos[OF wf, of x'] by metis
    then have "schedule_loop s = Some (x', ?r)"
      using p True p' by (subst schedule_loop.simps, simp, subst schedule_loop.simps, simp)
    then show ?thesis using P' ex \<open>0 < c'\<close> by (auto simp: runnable_recharge)
  qed
qed

text \<open>C1. With positive priorities the loop of \<open>schedule\<close> ends, and the task it switches to is
  runnable, has a positive counter, and no runnable task has a larger one; when no task is
  runnable after the signal scan, task 0 runs.\<close>

theorem schedule_picks_best:
  assumes "sched_wf s"
  shows "\<exists>s'. schedule s = Ok () s' \<and>
    (if \<exists>i. runnable (wake_signalled 63 s) i
     then runnable s' (current s') \<and> 0 < counter_of s' (current s') \<and>
          (\<forall>i. runnable s' i \<longrightarrow> counter_of s' i \<le> counter_of s' (current s'))
     else current s' = 0)"
proof -
  let ?w = "wake_signalled 63 s"
  obtain x s' where l: "schedule_loop ?w = Some (x, s')" and s': "s' = ?w \<or> s' = recharge 63 ?w"
    and P: "if \<exists>i. runnable ?w i
     then runnable s' x \<and> 0 < counter_of s' x \<and> (\<forall>i. runnable s' i \<longrightarrow> counter_of s' i \<le> counter_of s' x)
     else x = 0"
    using schedule_loop_ends[OF sched_wf_wake[OF assms]] by blast
  have "schedule s = Ok () (switch_to x s')" using l by (simp add: schedule_def Let_def)
  moreover have "runnable (switch_to x s') i = runnable s' i" "counter_of (switch_to x s') i = counter_of s' i" for i
    by (simp_all add: switch_to_def runnable_def counter_of_def)
  moreover have "current (switch_to x s') = x" by (simp add: switch_to_def)
  ultimately show ?thesis using P by auto
qed

definition demo_sched :: sched_state where
  "demo_sched = (sched_data 0)\<lparr>current := 1, HIGH_MEMORY := 0x1000000,
     task := [0 \<mapsto> INIT_TASK 0, 1 \<mapsto> (INIT_TASK 0)\<lparr>pid := 1, counter := 3\<rparr>,
              2 \<mapsto> (INIT_TASK 0)\<lparr>pid := 2, counter := 5, sigactions := (\<lambda>_. no_action\<lparr>sa_handler := 0x400\<rparr>)\<rparr>]\<rparr>"

lemma demo_task:
  "task demo_sched i = (if i = 2 then Some ((INIT_TASK 0)\<lparr>pid := 2, counter := 5, sigactions := (\<lambda>_. no_action\<lparr>sa_handler := 0x400\<rparr>)\<rparr>)
    else if i = 1 then Some ((INIT_TASK 0)\<lparr>pid := 1, counter := 3\<rparr>)
    else if i = 0 then Some (INIT_TASK 0) else None)"
  by (simp add: demo_sched_def)

lemma demo_sched_wf: "sched_wf demo_sched"
  by (auto simp: sched_wf_def demo_task INIT_TASK_def split: if_splits)

theorem schedule_picks_best_witness:
  "sched_wf demo_sched \<and> (\<exists>s'. schedule demo_sched = Ok () s' \<and>
    (if \<exists>i. runnable (wake_signalled 63 demo_sched) i
     then runnable s' (current s') \<and> 0 < counter_of s' (current s') \<and>
          (\<forall>i. runnable s' i \<longrightarrow> counter_of s' i \<le> counter_of s' (current s'))
     else current s' = 0))"
  using schedule_picks_best[OF demo_sched_wf] demo_sched_wf by blast

subsection \<open>Sleeping\<close>

type_synonym saved_tmp = "nat \<Rightarrow> nat option option"

definition task_awake :: "nat \<Rightarrow> 'z sched_state_scheme \<Rightarrow> bool" where
  "task_awake t s \<longleftrightarrow> (\<exists>x. task s t = Some x \<and> state x = TASK_RUNNING)"

inductive wq_step :: "wait_queue \<Rightarrow> 'z sched_state_scheme \<times> saved_tmp \<Rightarrow> 'z sched_state_scheme \<times> saved_tmp \<Rightarrow> bool"
  for q where
  enter: "saved t = None \<Longrightarrow> task s t \<noteq> None \<Longrightarrow>
     wq_step q (s, saved) (sleep_enter q t s, saved(t := Some (waitq s q)))"
| wake: "wq_step q (s, saved) (wake_up (Some q) s, saved)"
| leave: "saved t = Some tmp \<Longrightarrow> task_awake t s \<Longrightarrow>
     wq_step q (s, saved) (sleep_leave tmp s, saved(t := None))"

inductive wq_reachable :: "wait_queue \<Rightarrow> 'z sched_state_scheme \<times> saved_tmp \<Rightarrow> bool" for q where
  start: "waitq s q = None \<Longrightarrow> wq_reachable q (s, \<lambda>_. None)"
| step: "wq_reachable q c \<Longrightarrow> wq_step q c d \<Longrightarrow> wq_reachable q d"

inductive covered :: "wait_queue \<Rightarrow> 'z sched_state_scheme \<Rightarrow> saved_tmp \<Rightarrow> nat \<Rightarrow> bool" for q s saved where
  head: "waitq s q = Some t \<Longrightarrow> covered q s saved t"
| woken: "saved t = Some (Some u) \<Longrightarrow> task_awake t s \<Longrightarrow> covered q s saved u"
| prev: "covered q s saved t \<Longrightarrow> saved t = Some (Some u) \<Longrightarrow> covered q s saved u"

definition wq_inv :: "wait_queue \<Rightarrow> 'z sched_state_scheme \<Rightarrow> saved_tmp \<Rightarrow> bool" where
  "wq_inv q s saved \<longleftrightarrow>
     (\<forall>t. saved t \<noteq> None \<longrightarrow> task s t \<noteq> None \<and> (task_awake t s \<or> covered q s saved t))"

lemma task_awake_upd:
  "task_awake t (upd_task u f s) = (if t = u then (\<exists>x. task s t = Some x \<and> state (f x) = TASK_RUNNING) else task_awake t s)"
  by (auto simp: task_awake_def)

lemma task_awake_waitq [simp]: "task_awake t (s\<lparr>waitq := w\<rparr>) = task_awake t s"
  by (simp add: task_awake_def)

lemma sleep_enter_facts:
  "waitq (sleep_enter q t s) q = Some t"
  "task (sleep_enter q t s) u = None \<longleftrightarrow> task s u = None"
  "u \<noteq> t \<Longrightarrow> task_awake u (sleep_enter q t s) = task_awake u s"
  by (simp_all add: sleep_enter_def task_awake_upd)

lemma sleep_leave_facts:
  "waitq (sleep_leave tmp s) = waitq s"
  "task (sleep_leave tmp s) u = None \<longleftrightarrow> task s u = None"
  "task_awake u s \<Longrightarrow> task_awake u (sleep_leave tmp s)"
  "tmp = Some u \<Longrightarrow> task s u \<noteq> None \<Longrightarrow> task_awake u (sleep_leave tmp s)"
  by (auto simp: sleep_leave_def task_awake_upd task_awake_def split: option.splits)

lemma wake_up_facts:
  "task (wake_up (Some q) s) u = None \<longleftrightarrow> task s u = None"
  "task_awake u s \<Longrightarrow> task_awake u (wake_up (Some q) s)"
  "waitq s q = Some u \<Longrightarrow> task s u \<noteq> None \<Longrightarrow> task_awake u (wake_up (Some q) s)"
  by (auto simp: wake_up_def task_awake_upd task_awake_def split: option.splits)

lemma covered_enter:
  assumes c: "covered q s saved u" and t: "saved t = None"
  shows "covered q (sleep_enter q t s) (saved(t := Some (waitq s q))) u"
  using c
proof (induction rule: covered.induct)
  case (head u)
  have "covered q (sleep_enter q t s) (saved(t := Some (waitq s q))) t"
    by (rule covered.head) (simp add: sleep_enter_facts)
  then show ?case by (rule covered.prev) (simp add: head)
next
  case (woken v u)
  then have "v \<noteq> t" using t by auto
  with woken show ?case by (intro covered.woken[where t = v]) (simp_all add: sleep_enter_facts)
next
  case (prev v u)
  then have "v \<noteq> t" using t by auto
  with prev show ?case by (intro covered.prev[where t = v and u = u]) simp_all
qed

lemma covered_wake:
  assumes "covered q s saved u" and inv: "wq_inv q s saved" and "saved u \<noteq> None"
  shows "task_awake u (wake_up (Some q) s) \<or> covered q (wake_up (Some q) s) saved u"
  using assms(1,3)
proof (induction rule: covered.induct)
  case (head u)
  then show ?case using inv by (simp add: wake_up_facts wq_inv_def)
next
  case (woken t u)
  then show ?case using covered.woken wake_up_facts(2) by blast
next
  case (prev t u)
  then have "task_awake t (wake_up (Some q) s) \<or> covered q (wake_up (Some q) s) saved t" by simp
  then show ?case using covered.woken covered.prev prev.hyps(2) by blast
qed

lemma covered_leave:
  assumes "covered q s saved u" and t: "saved t = Some tmp" "task_awake t s"
    and inv: "wq_inv q s saved" and "saved u \<noteq> None"
  shows "task_awake u (sleep_leave tmp s) \<or> covered q (sleep_leave tmp s) (saved(t := None)) u"
  using assms(1,5)
proof (induction rule: covered.induct)
  case (head u)
  then show ?case by (simp add: covered.head sleep_leave_facts)
next
  case (woken v u)
  then have "v = t \<Longrightarrow> task_awake u (sleep_leave tmp s)"
    using t inv by (simp add: sleep_leave_facts wq_inv_def)
  moreover have "v \<noteq> t \<Longrightarrow> covered q (sleep_leave tmp s) (saved(t := None)) u"
    using woken by (intro covered.woken[where t = v]) (simp_all add: sleep_leave_facts)
  ultimately show ?case by blast
next
  case (prev v u)
  then have "v = t \<Longrightarrow> task_awake u (sleep_leave tmp s)"
    using t inv by (simp add: sleep_leave_facts wq_inv_def)
  moreover have "covered q (sleep_leave tmp s) (saved(t := None)) u" if v: "v \<noteq> t"
  proof -
    define sv where "sv = saved(t := None)"
    have "sv v = Some (Some u)" using prev v by (simp add: sv_def)
    moreover have "task_awake v (sleep_leave tmp s) \<or> covered q (sleep_leave tmp s) sv v"
      using prev unfolding sv_def by blast
    ultimately show ?thesis unfolding sv_def [symmetric]
      using covered.woken covered.prev by blast
  qed
  ultimately show ?case by blast
qed

lemma wq_inv_enter:
  assumes inv: "wq_inv q s saved" and t: "saved t = None" "task s t \<noteq> None"
  shows "wq_inv q (sleep_enter q t s) (saved(t := Some (waitq s q)))"
  unfolding wq_inv_def
proof (intro allI impI conjI)
  fix u assume u: "(saved(t := Some (waitq s q))) u \<noteq> None"
  show "task (sleep_enter q t s) u \<noteq> None"
    using inv t u unfolding wq_inv_def sleep_enter_facts(2) by (metis fun_upd_other)
  have "covered q (sleep_enter q t s) (saved(t := Some (waitq s q))) t"
    by (rule covered.head) (simp add: sleep_enter_facts)
  then show "task_awake u (sleep_enter q t s) \<or> covered q (sleep_enter q t s) (saved(t := Some (waitq s q))) u"
    using inv t u covered_enter[of q s saved u t] unfolding wq_inv_def
    by (cases "u = t") (auto simp: sleep_enter_facts)
qed

lemma wq_inv_leave:
  assumes inv: "wq_inv q s saved" and t: "saved t = Some tmp" "task_awake t s"
  shows "wq_inv q (sleep_leave tmp s) (saved(t := None))"
  unfolding wq_inv_def
proof (intro allI impI)
  fix u assume "(saved(t := None)) u \<noteq> None"
  then have "saved u \<noteq> None" by (simp split: if_splits)
  then show "task (sleep_leave tmp s) u \<noteq> None \<and>
      (task_awake u (sleep_leave tmp s) \<or> covered q (sleep_leave tmp s) (saved(t := None)) u)"
    using inv covered_leave[OF _ t inv] sleep_leave_facts
    unfolding wq_inv_def by blast
qed

lemma wq_inv_wake: "wq_inv q s saved \<Longrightarrow> wq_inv q (wake_up (Some q) s) saved"
  using covered_wake[of q s saved] wake_up_facts unfolding wq_inv_def by blast

lemma wq_reachable_inv: "wq_reachable q c \<Longrightarrow> wq_inv q (fst c) (snd c)"
proof (induction rule: wq_reachable.induct)
  case (start s)
  show ?case by (simp add: wq_inv_def)
next
  case (step c d)
  from step(2,3) show ?case
    by (induction rule: wq_step.induct) (auto intro: wq_inv_enter wq_inv_wake wq_inv_leave)
qed

text \<open>C3. No wake-up is lost: in every state reachable by tasks entering the queue,
  calls of \<open>wake_up\<close> and woken tasks leaving, when the queue head is empty and some task is
  still inside \<open>sleep_on\<close>, then a task inside \<open>sleep_on\<close> is runnable (and wakes its predecessor when
  it leaves).\<close>

theorem no_lost_wakeup:
  assumes "wq_reachable q (s, saved)" and "waitq s q = None"
    and "saved t \<noteq> None"
  shows "\<exists>u. saved u \<noteq> None \<and> task_awake u s"
proof -
  have inv: "wq_inv q s saved" using wq_reachable_inv[OF assms(1)] by simp
  have "covered q s saved t \<Longrightarrow> \<exists>u. saved u \<noteq> None \<and> task_awake u s" for t
    by (induction rule: covered.induct) (use assms(2) in auto)
  then show ?thesis using assms(3) inv unfolding wq_inv_def by blast
qed

theorem no_lost_wakeup_witness:
  "\<exists>s saved. wq_reachable WBufferWait (s :: sched_state, saved) \<and> waitq s WBufferWait = None \<and> saved 1 \<noteq> None \<and>
     (\<exists>u. saved u \<noteq> None \<and> task_awake u s)"
proof -
  have q: "waitq demo_sched WBufferWait = None" by (simp add: demo_sched_def sched_data_def)
  let ?s = "sleep_enter WBufferWait 1 demo_sched"
  have "wq_reachable WBufferWait (demo_sched, \<lambda>_. None)" using q by (rule wq_reachable.start)
  then have "wq_reachable WBufferWait (?s, (\<lambda>_. None)(1 := Some (waitq demo_sched WBufferWait)))"
    by (rule wq_reachable.step) (rule wq_step.enter, simp_all add: demo_task)
  then have r: "wq_reachable WBufferWait (wake_up (Some WBufferWait) ?s, (\<lambda>_. None)(1 := Some (waitq demo_sched WBufferWait)))"
    by (rule wq_reachable.step) (rule wq_step.wake)
  have n: "waitq (wake_up (Some WBufferWait) ?s) WBufferWait = None" by (simp add: wake_up_def sleep_enter_def)
  have "\<exists>u. ((\<lambda>_. None)(1 := Some (waitq demo_sched WBufferWait))) u \<noteq> None \<and> task_awake u (wake_up (Some WBufferWait) ?s)"
    by (rule no_lost_wakeup[OF r n, of 1]) simp
  then show ?thesis using r n
    by (intro exI[of _ "wake_up (Some WBufferWait) ?s"] exI[of _ "(\<lambda>_. None)(1 := Some (waitq demo_sched WBufferWait))"] conjI)
      simp_all
qed

subsection \<open>The timer list\<close>

primrec tchain :: "(nat \<Rightarrow> timer) \<Rightarrow> nat option \<Rightarrow> nat list \<Rightarrow> bool" where
  "tchain t p [] \<longleftrightarrow> p = None"
| "tchain t p (n # ns) \<longleftrightarrow> p = Some n \<and> tchain t (tm_next (t n)) ns"

definition requests :: "(nat \<Rightarrow> timer) \<Rightarrow> nat list \<Rightarrow> (int \<times> nat option) list" where
  "requests t ns = map (\<lambda>n. (tm_jiffies (t n), tm_fn (t n))) ns"

fun insert_delta :: "int \<times> nat option \<Rightarrow> (int \<times> nat option) list \<Rightarrow> (int \<times> nat option) list" where
  "insert_delta (j, f) [] = [(j, f)]"
| "insert_delta (j, f) ((d, g) # ds) =
     (if d < j then (d, g) # insert_delta (s32 (j - d), f) ds else (j, f) # (d, g) # ds)"

lemma requests_Cons [simp]: "requests t (n # ns) = (tm_jiffies (t n), tm_fn (t n)) # requests t ns"
  by (simp add: requests_def)

lemma tchain_upd [simp]: "tm_next v = tm_next (t n) \<Longrightarrow> tchain (t(n := v)) p ns = tchain t p ns"
  by (induction ns arbitrary: p) auto

lemma sink_timer_spec:
  assumes "tchain t (Some p) (p # ns)" "distinct (p # ns)" "length ns \<le> fuel"
  shows "tchain (sink_timer fuel p t) (Some p) (p # ns) \<and>
    requests (sink_timer fuel p t) (p # ns) = insert_delta (tm_jiffies (t p), tm_fn (t p)) (requests t ns) \<and>
    (\<forall>m. m \<notin> set (p # ns) \<longrightarrow> sink_timer fuel p t m = t m)"
  using assms
proof (induction fuel arbitrary: p t ns)
  case 0
  then show ?case by (simp add: requests_def)
next
  case (Suc fuel)
  note H = Suc.prems
  show ?case
  proof (cases ns)
    case Nil
    then show ?thesis using H by (simp add: requests_def)
  next
    case (Cons q ms)
    then have nx: "tm_next (t p) = Some q" using H by simp
    show ?thesis
    proof (cases "tm_jiffies (t q) < tm_jiffies (t p)")
      case False
      then show ?thesis using H nx Cons by (simp add: requests_def)
    next
      case True
      define u where "u = t(p := (t p)\<lparr>tm_fn := tm_fn (t q), tm_jiffies := tm_jiffies (t q)\<rparr>,
         q := (t q)\<lparr>tm_fn := tm_fn (t p), tm_jiffies := s32 (tm_jiffies (t p) - tm_jiffies (t q))\<rparr>)"
      have eq: "sink_timer (Suc fuel) p t = sink_timer fuel q u"
        using nx True by (simp add: u_def Let_def)
      have ch: "tchain u r l = tchain t r l" for r l
        unfolding u_def using H Cons by (subst tchain_upd; simp)
      have c2: "tchain u (Some q) (q # ms)" "distinct (q # ms)" "length ms \<le> fuel"
        using H Cons unfolding ch by auto
      note IH = Suc.IH[OF c2]
      have ms: "requests u ms = requests t ms"
        using H Cons by (auto simp: requests_def u_def)
      have pq: "p \<noteq> q" "p \<notin> set ms" using H Cons by auto
      have up: "tm_next (u p) = Some q" "tm_jiffies (u p) = tm_jiffies (t q)" "tm_fn (u p) = tm_fn (t q)"
        and uq: "tm_jiffies (u q) = s32 (tm_jiffies (t p) - tm_jiffies (t q))" "tm_fn (u q) = tm_fn (t p)"
        and uo: "m \<noteq> p \<Longrightarrow> m \<noteq> q \<Longrightarrow> u m = t m" for m
        using pq nx by (simp_all add: u_def)
      have sp: "sink_timer fuel q u p = u p" using IH pq by simp
      have "tchain (sink_timer fuel q u) (Some p) (p # ns)"
        using IH sp up Cons by simp
      moreover have "requests (sink_timer fuel q u) (p # ns) =
          (tm_jiffies (t q), tm_fn (t q)) # requests (sink_timer fuel q u) (q # ms)"
        using Cons sp up by (simp add: requests_def)
      moreover have "\<forall>m. m \<notin> set (p # ns) \<longrightarrow> sink_timer fuel q u m = t m"
        using IH uo Cons by simp
      ultimately show ?thesis
        unfolding eq using IH uq ms True Cons by simp
    qed
  qed
qed


lemma free_timer_Some: "free_timer n tms p = Some m \<Longrightarrow> tm_fn (tms m) = None \<and> p \<le> m \<and> m < p + n"
proof (induction n arbitrary: p)
  case (Suc n)
  show ?case
  proof (cases "tm_fn (tms p) = None")
    case False
    then have "free_timer n tms (Suc p) = Some m" using Suc.prems by (auto split: if_splits)
    from Suc.IH[OF this] show ?thesis by auto
  qed (use Suc.prems in simp)
qed simp

lemma free_timer_None: "free_timer n tms p = None \<Longrightarrow> p \<le> m \<Longrightarrow> m < p + n \<Longrightarrow> tm_fn (tms m) \<noteq> None"
proof (induction n arbitrary: p)
  case (Suc n)
  then show ?case by (cases "m = p") (auto split: if_splits)
qed simp

fun expiries :: "int \<Rightarrow> (int \<times> nat option) list \<Rightarrow> int list" where
  "expiries now [] = []"
| "expiries now ((d, f) # ds) = (now + d) # expiries (now + d) ds"

lemma insert_delta_split:
  assumes "0 \<le> j" "j < 2 ^ 31" "\<forall>(d, g) \<in> set ds. 0 \<le> d"
  shows "\<exists>pre post r. ds = pre @ post \<and> insert_delta (j, f) ds = pre @ (r, f) # post \<and>
    0 \<le> r \<and> sum_list (map fst pre) + r = j"
  using assms
proof (induction ds arbitrary: j)
  case Nil
  then show ?case by auto
next
  case (Cons x ds)
  obtain d g where x: "x = (d, g)" by (cases x)
  show ?case
  proof (cases "d < j")
    case False
    have "x # ds = [] @ x # ds \<and> insert_delta (j, f) (x # ds) = [] @ (j, f) # x # ds \<and> 0 \<le> j \<and> sum_list (map fst []) + j = j"
      using False Cons.prems by (simp add: x)
    then show ?thesis by blast
  next
    case True
    have e: "s32 (j - d) = j - d" using Cons.prems True x by (intro s32_id) auto
    obtain pre post r where IH: "ds = pre @ post" "insert_delta (j - d, f) ds = pre @ (r, f) # post"
      "0 \<le> r" "sum_list (map fst pre) + r = j - d"
      using Cons.IH[of "j - d"] Cons.prems True x by auto
    have "x # ds = (x # pre) @ post \<and> insert_delta (j, f) (x # ds) = (x # pre) @ (r, f) # post \<and> 0 \<le> r \<and> sum_list (map fst (x # pre)) + r = j"
      using IH True e by (simp add: x)
    then show ?thesis by blast
  qed
qed

lemma expiries_append:
  "expiries now (xs @ ys) = expiries now xs @ expiries (now + sum_list (map fst xs)) ys"
  by (induction now xs rule: expiries.induct) (auto simp: add.assoc)

lemma expiries_shift: "expiries (now + r) ds = map (\<lambda>e. e + r) (expiries now ds)"
proof (induction ds arbitrary: now)
  case (Cons x ds)
  have "expiries (now + fst x + r) ds = map (\<lambda>e. e + r) (expiries (now + fst x) ds)" by (rule Cons)
  then show ?case by (cases x) (simp add: algebra_simps)
qed simp

text \<open>\<open>add_timer\<close> keeps the list a chain of the old entries and one new one, and the new
  request expires after exactly \<open>j\<close> ticks; the requests behind it, however, are all delayed by the
  remainder \<open>r\<close> stored in the new entry, because the code does not take it off its successor.\<close>

theorem add_timer_effect:
  assumes ch: "tchain (timer_list s) (next_timer s) ns" "distinct ns" "length ns < TIME_REQUESTS"
    and act: "\<forall>n\<in>set ns. tm_fn (timer_list s n) \<noteq> None \<and> 0 \<le> tm_jiffies (timer_list s n)"
    and j: "0 < j" "j < 2 ^ 31"
    and ok: "add_timer call j (Some f) s = Ok () s'"
  shows "\<exists>p pre post r. tchain (timer_list s') (next_timer s') (p # ns) \<and> p \<notin> set ns \<and>
     requests (timer_list s) ns = pre @ post \<and>
     requests (timer_list s') (p # ns) = pre @ (r, Some f) # post \<and>
     expiries now (requests (timer_list s') (p # ns)) =
       expiries now pre @ (now + j) # map (\<lambda>e. e + r) (expiries (now + j - r) post)"
proof -
  from ok j obtain p where p: "free_timer TIME_REQUESTS (timer_list s) 0 = Some p"
    and s': "s' = s\<lparr>timer_list := sink_timer TIME_REQUESTS p ((timer_list s)(p := \<lparr>tm_jiffies = j, tm_fn = Some f, tm_next = next_timer s\<rparr>)),
                    next_timer := Some p\<rparr>"
    by (auto simp: add_timer_def Let_def split: option.splits)
  have pn: "p \<notin> set ns" using free_timer_Some[OF p] act by auto
  define t where "t = (timer_list s)(p := \<lparr>tm_jiffies = j, tm_fn = Some f, tm_next = next_timer s\<rparr>)"
  have rq: "requests t ns = requests (timer_list s) ns" using pn by (auto simp: requests_def t_def)
  have "tchain t q ns = tchain (timer_list s) q ns" for q
    unfolding t_def using pn by (induction ns arbitrary: q) auto
  then have "tchain t (Some p) (p # ns)" using ch(1) by (simp add: t_def)
  from sink_timer_spec[OF this, of TIME_REQUESTS] have sp:
    "tchain (timer_list s') (next_timer s') (p # ns)"
    "requests (timer_list s') (p # ns) = insert_delta (j, Some f) (requests (timer_list s) ns)"
    using pn ch rq by (simp_all add: s' t_def[symmetric]) (simp_all add: t_def)
  have "\<forall>(d, g) \<in> set (requests (timer_list s) ns). 0 \<le> d" using act by (auto simp: requests_def)
  from insert_delta_split[OF less_imp_le[OF j(1)] j(2) this, of "Some f"] obtain pre post r where d: "requests (timer_list s) ns = pre @ post"
    "insert_delta (j, Some f) (requests (timer_list s) ns) = pre @ (r, Some f) # post" "sum_list (map fst pre) + r = j"
    by blast
  have "expiries now (pre @ (r, Some f) # post) = expiries now pre @ (now + j) # map (\<lambda>e. e + r) (expiries (now + j - r) post)"
    using d(3) expiries_shift[of "now + j - r" r post] by (simp add: expiries_append add.assoc)
  then have "expiries now (requests (timer_list s') (p # ns)) = expiries now pre @ (now + j) # map (\<lambda>e. e + r) (expiries (now + j - r) post)"
    using sp(2) d(2) by simp
  then show ?thesis using sp(1) sp(2)[unfolded d(2)] d(1) pn
    by (intro exI[of _ p] exI[of _ pre] exI[of _ post] exI[of _ r] conjI)
qed

theorem add_timer_effect_witness:
  "\<exists>s' p. add_timer (\<lambda>_ s. s) 5 (Some 3) demo_sched = Ok () s' \<and> tchain (timer_list s') (next_timer s') [p] \<and>
     expiries 100 (requests (timer_list s') [p]) = [105]"
proof -
  have c: "tchain (timer_list demo_sched) (next_timer demo_sched) []" by (simp add: demo_sched_def sched_data_def)
  have ok: "add_timer (\<lambda>_ s. s) 5 (Some 3) demo_sched = Ok () (kstate (add_timer (\<lambda>_ s. s) 5 (Some 3) demo_sched))"
    by (simp add: add_timer_def demo_sched_def sched_data_def numeral_eq_Suc)
  show ?thesis using add_timer_effect[OF c _ _ _ _ _ ok, of 100] ok by (auto simp: requests_def)
qed

lemma current_floppy_one: "current (floppy_timer_one i s) = current s"
  by (simp add: floppy_timer_one_def Let_def wake_up_def outb_def split: option.split)

lemma current_floppy: "current (do_floppy_timer s) = current s"
proof -
  have "current (fold floppy_timer_one xs s) = current s" for xs
    by (induction xs arbitrary: s) (simp_all add: current_floppy_one)
  then show ?thesis by (simp add: do_floppy_timer_def)
qed

lemma current_run_timers:
  assumes "\<And>f s. current (call f s) = current s"
  shows "run_timers call n s = Ok () s' \<Longrightarrow> current s' = current s"
proof (induction n arbitrary: s)
  case (Suc n)
  then show ?case by (auto simp: assms split: option.splits if_splits dest!: Suc.IH)
qed simp

text \<open>The clock interrupt never switches tasks when it interrupts kernel mode, provided the
  timer functions do not.\<close>

theorem kernel_not_preempted:
  assumes "\<And>f s. current (call f s) = current s"
    and "do_timer call fuel 0 s = Ok () s'"
  shows "current s' = current s"
  using assms(2)
  by (auto simp: do_timer_def Let_def current_floppy sysbeepstop_def outb_def
      split: option.splits if_splits dest!: current_run_timers[OF assms(1)])

theorem kernel_not_preempted_witness:
  "\<exists>s'. do_timer (\<lambda>_ s. s) 10 0 demo_sched = Ok () s' \<and> current s' = current demo_sched"
proof -
  have ok: "do_timer (\<lambda>_ s. s) 10 0 demo_sched = Ok () (kstate (do_timer (\<lambda>_ s. s) 10 0 demo_sched))"
    by (simp add: do_timer_def demo_sched_def sched_data_def cur_def upd_cur_def upd_task_def INIT_TASK_def Let_def)
  show ?thesis using kernel_not_preempted[OF _ ok] ok by blast
qed

end
