(* ===== verification/Kernel_Signal.thy ===== *)
theory Kernel_Signal
  imports Sched_Laws
begin

text \<open>
  Signals and the checked access to user memory: src/kernel/signal.c and \<open>verify_area\<close> of
  src/kernel/fork.c. Handlers and user pointers are addresses, 0 being the null pointer.
\<close>

abbreviation (input) SA_NOMASK :: u32 where "SA_NOMASK \<equiv> 0x40000000"
abbreviation (input) SA_ONESHOT :: u32 where "SA_ONESHOT \<equiv> 0x80000000"

text \<open>\<open>while (size>0)\<close> of \<open>verify_area\<close>.\<close>

function verify_loop ::
    "int \<Rightarrow> u32 \<Rightarrow> 'z sched_state_scheme \<Rightarrow> (unit, 'z sched_state_scheme) kres" where
  "verify_loop sz start s =
     (if sz > 0
      then bindk (write_verify start s) (\<lambda>_ s. verify_loop (sz - 4096) (start + 4096) s)
      else Ok () s)"
  by pat_completeness auto
termination
  by (relation "measure (\<lambda>(sz, start, s). nat sz)") auto

definition verify_area ::
    "u32 \<Rightarrow> int \<Rightarrow> 'z sched_state_scheme \<Rightarrow> (unit, 'z sched_state_scheme) kres" where
  "verify_area addr sz s =
     verify_loop (s32 (sz + uint (addr AND 0xfff)))
       ((addr AND 0xfffff000) + get_base (ldt (cur s) 2)) s"

definition sys_sgetmask :: "'z sched_state_scheme \<Rightarrow> u32" where
  "sys_sgetmask s = blocked (cur s)"

definition sys_ssetmask :: "u32 \<Rightarrow> 'z sched_state_scheme \<Rightarrow> u32 \<times> 'z sched_state_scheme" where
  "sys_ssetmask newmask s =
     (blocked (cur s), upd_cur (\<lambda>t. t\<lparr>blocked := newmask AND NOT (S_bit SIGKILL)\<rparr>) s)"

text \<open>The sixteen bytes of a \<open>struct sigaction\<close> are its four long words.\<close>

definition save_old ::
    "sigaction \<Rightarrow> u32 \<Rightarrow> 'z sched_state_scheme \<Rightarrow> (unit, 'z sched_state_scheme) kres" where
  "save_old from to s =
     bindk (verify_area to 16 s) (\<lambda>_ s.
       Ok () (put_fs_long (sa_restorer from) (to + 12) (put_fs_long (sa_flags from) (to + 8)
         (put_fs_long (sa_mask from) (to + 4) (put_fs_long (sa_handler from) to s)))))"

definition get_new :: "u32 \<Rightarrow> 'z sched_state_scheme \<Rightarrow> sigaction" where
  "get_new from s = \<lparr>sa_handler = get_fs_long from s, sa_mask = get_fs_long (from + 4) s,
     sa_flags = get_fs_long (from + 8) s, sa_restorer = get_fs_long (from + 12) s\<rparr>"

definition sys_signal ::
    "int \<Rightarrow> u32 \<Rightarrow> u32 \<Rightarrow> 'z sched_state_scheme \<Rightarrow> u32 \<times> 'z sched_state_scheme" where
  "sys_signal signum handler restorer s =
     (if signum < 1 \<or> signum > 32 \<or> signum = int SIGKILL then (- 1, s)
      else
        let i = nat (signum - 1);
            tmp = \<lparr>sa_handler = handler, sa_mask = 0, sa_flags = SA_ONESHOT OR SA_NOMASK,
                   sa_restorer = restorer\<rparr>
        in (sa_handler (sigactions (cur s) i),
            upd_cur (\<lambda>t. t\<lparr>sigactions := (sigactions t)(i := tmp)\<rparr>) s))"

definition sys_sigaction ::
    "int \<Rightarrow> u32 \<Rightarrow> u32 \<Rightarrow> 'z sched_state_scheme \<Rightarrow> (int, 'z sched_state_scheme) kres" where
  "sys_sigaction signum action oldaction s =
     (if signum < 1 \<or> signum > 32 \<or> signum = int SIGKILL then Ok (- 1) s
      else
        let i = nat (signum - 1);
            tmp = sigactions (cur s) i;
            s = upd_cur (\<lambda>t. t\<lparr>sigactions := (sigactions t)(i := get_new action s)\<rparr>) s in
        bindk (if oldaction \<noteq> 0 then save_old tmp oldaction s else Ok () s) (\<lambda>_ s.
          Ok 0 (upd_cur (\<lambda>t.
            let a = sigactions t i;
                a = (if sa_flags a AND SA_NOMASK \<noteq> 0 then a\<lparr>sa_mask := 0\<rparr>
                     else a\<lparr>sa_mask := sa_mask a OR S_bit (nat signum)\<rparr>)
            in t\<lparr>sigactions := (sigactions t)(i := a)\<rparr>) s)))"

text \<open>The part of the interrupt frame \<open>do_signal\<close> reads and rewrites.\<close>

record frame_regs =
  fr_eax :: u32
  fr_ecx :: u32
  fr_edx :: u32
  fr_eip :: u32
  fr_eflags :: u32
  fr_esp :: u32

text \<open>The values \<open>do_signal\<close> pushes on the user stack, lowest address first.\<close>

definition signal_words :: "nat \<Rightarrow> sigaction \<Rightarrow> u32 \<Rightarrow> frame_regs \<Rightarrow> u32 list" where
  "signal_words signr sa blk r =
     [sa_restorer sa, of_nat signr] @ (if sa_flags sa AND SA_NOMASK \<noteq> 0 then [] else [blk])
     @ [fr_eax r, fr_ecx r, fr_edx r, fr_eflags r, fr_eip r]"

fun put_words :: "u32 list \<Rightarrow> u32 \<Rightarrow> 'z sched_state_scheme \<Rightarrow> 'z sched_state_scheme" where
  "put_words [] a s = s"
| "put_words (w # ws) a s = put_words ws (a + 4) (put_fs_long w a s)"

definition do_signal ::
    "nat \<Rightarrow> frame_regs \<Rightarrow> 'z sched_state_scheme \<Rightarrow> (frame_regs, 'z sched_state_scheme) kres" where
  "do_signal signr r s =
     (let sa = sigactions (cur s) (signr - 1) in
      if sa_handler sa = 1 then Ok r s
      else if sa_handler sa = 0
      then (if signr = SIGCHLD then Ok r s else Exit (S_bit signr) s)
      else
        let s = (if sa_flags sa AND SA_ONESHOT \<noteq> 0
                 then upd_cur (\<lambda>t. t\<lparr>sigactions := (sigactions t)(signr - 1 := sa\<lparr>sa_handler := 0\<rparr>)\<rparr>) s
                 else s);
            longs = (if sa_flags sa AND SA_NOMASK \<noteq> 0 then 7 else 8);
            esp = fr_esp r - 4 * of_nat longs in
        bindk (verify_area esp (int longs * 4) s) (\<lambda>_ s.
          let s = put_words (signal_words signr sa (blocked (cur s)) r) esp s
          in Ok (r\<lparr>fr_eip := sa_handler sa, fr_esp := esp\<rparr>)
               (upd_cur (\<lambda>t. t\<lparr>blocked := blocked t OR sa_mask sa\<rparr>) s)))"

subsection \<open>What the stack of a handler holds, and \<open>SIGKILL\<close>\<close>

lemma get_put_fs_long: "get_fs_long a (put_fs_long v a s) = v"
proof -
  have ne: "a + 1 \<noteq> a" "a + 2 \<noteq> a" "a + 3 \<noteq> a" "a + 1 \<noteq> a + 2" "a + 1 \<noteq> a + 3" "a + 2 \<noteq> a + 3"
    for a :: u32 by simp_all
  have "get_fs_long a (put_fs_long v a s) =
      (ucast (ucast v :: u8) :: u32) OR push_bit 8 (ucast (ucast (drop_bit 8 v) :: u8)) OR
      push_bit 16 (ucast (ucast (drop_bit 16 v) :: u8)) OR push_bit 24 (ucast (ucast (drop_bit 24 v) :: u8))"
    by (simp add: get_fs_long_def put_fs_long_def)
  also have "\<dots> = v"
  proof (rule bit_word_eqI)
    fix n assume "n < LENGTH(32)"
    then have "n < 8 \<or> (8 \<le> n \<and> n < 16) \<or> (16 \<le> n \<and> n < 24) \<or> (24 \<le> n \<and> n < 32)" by auto
    then show "bit ((ucast (ucast v :: u8) :: u32) OR push_bit 8 (ucast (ucast (drop_bit 8 v) :: u8)) OR
      push_bit 16 (ucast (ucast (drop_bit 16 v) :: u8)) OR push_bit 24 (ucast (ucast (drop_bit 24 v) :: u8))) n = bit v n"
      by (auto simp: bit_simps)
  qed
  finally show ?thesis .
qed

lemma get_put_fs_long_other:
  assumes "\<And>i j. i < 4 \<Longrightarrow> j < 4 \<Longrightarrow> b + of_nat i \<noteq> a + of_nat j"
  shows "get_fs_long b (put_fs_long v a s) = get_fs_long b s"
  using assms[of 0 0] assms[of 0 1] assms[of 0 2] assms[of 0 3] assms[of 1 0] assms[of 1 1] assms[of 1 2] assms[of 1 3]
    assms[of 2 0] assms[of 2 1] assms[of 2 2] assms[of 2 3] assms[of 3 0] assms[of 3 1] assms[of 3 2] assms[of 3 3]
  by (simp add: get_fs_long_def put_fs_long_def)

lemma stack_word_other:
  assumes "k < 100" "a = b + 4 * of_nat (Suc k) \<or> b = a + 4 * of_nat (Suc k)"
  shows "get_fs_long b (put_fs_long v a s) = get_fs_long b (s :: 'z sched_state_scheme)"
proof (rule get_put_fs_long_other)
  fix i j :: nat assume ij: "i < 4" "j < 4"
  show "b + of_nat i \<noteq> a + of_nat j"
  proof
    assume e: "b + of_nat i = a + (of_nat j :: u32)"
    have "(of_nat (4 * Suc k + j) :: u32) = of_nat i \<or> (of_nat (4 * Suc k + i) :: u32) = of_nat j"
      using assms(2) e by (auto simp: algebra_simps)
    moreover have "unat (of_nat n :: u32) = n" if "n < 1000" for n
      using that by (simp add: unat_of_nat take_bit_nat_eq_self)
    moreover have "4 * Suc k + j < 1000" "4 * Suc k + i < 1000" "i < 1000" "j < 1000" using assms(1) ij by auto
    ultimately have "4 * Suc k + j = i \<or> 4 * Suc k + i = j" by metis
    then show False using ij by auto
  qed
qed

lemma more_free_page: "mm_state.more (kstate (free_page a s)) = mm_state.more s"
  by (simp add: free_page_def Let_def)

lemma more_get_free_page: "mm_state.more (snd (get_free_page s)) = mm_state.more s"
  by (simp add: get_free_page_def Let_def split: option.splits)

lemma more_un_wp_page: "mm_state.more (kstate (un_wp_page e s)) = mm_state.more s"
  using more_get_free_page[of s]
  by (auto simp: un_wp_page_def Let_def store_def invalidate_def oom_def printk_def copy_page_def split: prod.splits)

lemma more_write_verify: "mm_state.more (kstate (write_verify a s)) = mm_state.more s"
  by (simp add: write_verify_def Let_def more_un_wp_page)

lemma more_verify_loop:
  "verify_loop sz a s = Ok u s' \<Longrightarrow> mm_state.more s' = mm_state.more s"
proof (induction sz a s rule: verify_loop.induct)
  case (1 sz start s)
  show ?case
  proof (cases "sz > 0")
    case True
    then obtain v s1 where w: "write_verify start s = Ok v s1"
      and r: "verify_loop (sz - 4096) (start + 4096) s1 = Ok u s'"
      using "1.prems" by (subst (asm) verify_loop.simps) (auto simp del: verify_loop.simps)
    have "mm_state.more s1 = mm_state.more s" using more_write_verify[of start s] by (simp add: w)
    then show ?thesis using "1.IH"[OF True r] by simp
  next
    case False
    then show ?thesis using "1.prems" by (subst (asm) verify_loop.simps) simp
  qed
qed

lemma sched_more:
  assumes "mm_state.more s' = mm_state.more (s :: 'z sched_state_scheme)"
  shows "task s' = task s" "current s' = current s" "user s' = user s"
  using assms by (cases s, cases s', simp)+

lemma put_words_other:
  assumes "k + length ws < 100" "b = a - 4 * of_nat (Suc k)"
  shows "get_fs_long b (put_words ws a s) = get_fs_long b s"
  using assms
proof (induction ws arbitrary: k a s)
  case (Cons w ws)
  have "get_fs_long b (put_fs_long w a s) = get_fs_long b s"
    using Cons.prems by (intro stack_word_other[of k]) (auto simp: algebra_simps)
  moreover have "get_fs_long b (put_words ws (a + 4) (put_fs_long w a s)) = get_fs_long b (put_fs_long w a s)"
    using Cons.prems by (intro Cons.IH[of "Suc k"]) (auto simp: algebra_simps)
  ultimately show ?case by simp
qed simp

lemma put_words_nth:
  assumes "length ws < 100" "i < length ws"
  shows "get_fs_long (a + 4 * of_nat i) (put_words ws a s) = ws ! i"
  using assms
proof (induction ws arbitrary: i a s)
  case (Cons w ws)
  show ?case
  proof (cases i)
    case 0
    then show ?thesis using Cons.prems put_words_other[of 0 ws a "a + 4" "put_fs_long w a s"]
      by (simp add: get_put_fs_long)
  next
    case (Suc j)
    then show ?thesis using Cons.prems Cons.IH[of j "a + 4" "put_fs_long w a s"]
      by (simp add: algebra_simps)
  qed
qed simp

lemma put_words_frame [simp]:
  "task (put_words ws a s) = task s" "current (put_words ws a s) = current s"
  by (induction ws a s rule: put_words.induct) (simp_all add: put_fs_long_def)

lemma get_fs_long_upd_cur [simp]: "get_fs_long a (upd_cur f s) = get_fs_long a s"
  by (simp add: get_fs_long_def upd_cur_def upd_task_def)

lemma cur_upd_cur:
  "task s (current s) \<noteq> None \<Longrightarrow> cur (upd_cur f s) = f (cur s)"
  by (auto simp: cur_def upd_cur_def upd_task_def)

lemma verify_area_frame:
  assumes "verify_area a n s = Ok u s'"
  shows "task s' = task s" "current s' = current s" "cur s' = cur s"
  using more_verify_loop sched_more assms unfolding verify_area_def cur_def by metis+

lemma do_signal_words:
  assumes "task s (current s) = Some t" "sa = sigactions t (signr - 1)" "sa_handler sa \<noteq> 0"
    "sa_handler sa \<noteq> 1" "do_signal signr r s = Ok r' s'"
  shows "r' = r\<lparr>fr_eip := sa_handler sa, fr_esp := fr_esp r - (if sa_flags sa AND SA_NOMASK \<noteq> 0 then 28 else 32)\<rparr> \<and>
    (\<forall>i<length (signal_words signr sa (blocked t) r). get_fs_long (fr_esp r' + 4 * of_nat i) s' = signal_words signr sa (blocked t) r ! i) \<and>
    blocked (cur s') = blocked t OR sa_mask sa \<and>
    sigactions (cur s') = (if sa_flags sa AND SA_ONESHOT \<noteq> 0 then (sigactions t)(signr - 1 := sa\<lparr>sa_handler := 0\<rparr>) else sigactions t)"
proof -
  have c: "cur s = t" using assms(1) by (simp add: cur_def)
  define s1 where "s1 = (if sa_flags sa AND SA_ONESHOT \<noteq> 0
     then upd_cur (\<lambda>t. t\<lparr>sigactions := (sigactions t)(signr - 1 := sa\<lparr>sa_handler := 0\<rparr>)\<rparr>) s else s)"
  define longs :: nat where "longs = (if sa_flags sa AND SA_NOMASK \<noteq> 0 then 7 else 8)"
  have s1: "task s1 (current s1) \<noteq> None" "blocked (cur s1) = blocked t"
    "sigactions (cur s1) = (if sa_flags sa AND SA_ONESHOT \<noteq> 0 then (sigactions t)(signr - 1 := sa\<lparr>sa_handler := 0\<rparr>) else sigactions t)"
    using assms(1) c by (auto simp: s1_def cur_upd_cur)
  obtain u s2 where v: "verify_area (fr_esp r - 4 * of_nat longs) (int longs * 4) s1 = Ok u s2"
    and r': "r' = r\<lparr>fr_eip := sa_handler sa, fr_esp := fr_esp r - 4 * of_nat longs\<rparr>"
    and s': "s' = upd_cur (\<lambda>t. t\<lparr>blocked := blocked t OR sa_mask sa\<rparr>)
        (put_words (signal_words signr sa (blocked (cur s2)) r) (fr_esp r - 4 * of_nat longs) s2)"
    using assms(3-5) unfolding do_signal_def c assms(2)[symmetric] Let_def s1_def[symmetric] longs_def[symmetric]
    by auto
  have s2: "task s2 (current s2) \<noteq> None" "blocked (cur s2) = blocked t" "sigactions (cur s2) = sigactions (cur s1)"
    using verify_area_frame[OF v] s1 by auto
  have len: "length (signal_words signr sa (blocked t) r) = longs"
    by (simp add: signal_words_def longs_def)
  then have "longs < 100" by (simp add: longs_def)
  then have "get_fs_long (fr_esp r' + 4 * of_nat i) s' = signal_words signr sa (blocked t) r ! i" if "i < length (signal_words signr sa (blocked t) r)" for i
    using put_words_nth[of "signal_words signr sa (blocked t) r" i] that
    by (simp add: s' s2 r' len)
  moreover have "blocked (cur s') = blocked t OR sa_mask sa" "sigactions (cur s') = sigactions (cur s2)"
    using s2 by (simp_all add: s' cur_upd_cur) (simp_all add: cur_def)
  ultimately show ?thesis using s1 s2 by (simp add: r' longs_def)
qed

text \<open>C14. Delivering a signal with a handler: the task continues in the handler with a stack lowered by 32 bytes, or by 28 with \<open>SA_NOMASK\<close>. Read back from the
  user stack, the words from its new top are the restorer, the signal number, the old mask (not with \<open>SA_NOMASK\<close>), \<open>eax\<close>, \<open>ecx\<close>, \<open>edx\<close>, the flags and
  the old instruction pointer. \<open>sa_mask\<close> is added to the blocked signals, and the handler is removed exactly when \<open>SA_ONESHOT\<close> is set.\<close>

theorem do_signal_frame:
  assumes "task s (current s) = Some t" "sa = sigactions t (signr - 1)" "sa_handler sa \<noteq> 0"
    "sa_handler sa \<noteq> 1" "do_signal signr r s = Ok r' s'"
  shows "fr_eip r' = sa_handler sa \<and>
    (if sa_flags sa AND SA_NOMASK = 0
     then fr_esp r' = fr_esp r - 32 \<and> get_fs_long (fr_esp r - 32) s' = sa_restorer sa \<and> get_fs_long (fr_esp r - 28) s' = of_nat signr \<and>
       get_fs_long (fr_esp r - 24) s' = blocked t \<and> get_fs_long (fr_esp r - 20) s' = fr_eax r \<and> get_fs_long (fr_esp r - 16) s' = fr_ecx r \<and>
       get_fs_long (fr_esp r - 12) s' = fr_edx r \<and> get_fs_long (fr_esp r - 8) s' = fr_eflags r \<and> get_fs_long (fr_esp r - 4) s' = fr_eip r
     else fr_esp r' = fr_esp r - 28 \<and> get_fs_long (fr_esp r - 28) s' = sa_restorer sa \<and> get_fs_long (fr_esp r - 24) s' = of_nat signr \<and>
       get_fs_long (fr_esp r - 20) s' = fr_eax r \<and> get_fs_long (fr_esp r - 16) s' = fr_ecx r \<and>
       get_fs_long (fr_esp r - 12) s' = fr_edx r \<and> get_fs_long (fr_esp r - 8) s' = fr_eflags r \<and> get_fs_long (fr_esp r - 4) s' = fr_eip r) \<and>
    blocked (cur s') = blocked t OR sa_mask sa \<and>
    sigactions (cur s') = (if sa_flags sa AND SA_ONESHOT \<noteq> 0 then (sigactions t)(signr - 1 := sa\<lparr>sa_handler := 0\<rparr>) else sigactions t)"
proof -
  note w = do_signal_words[OF assms]
  let ?ws = "signal_words signr sa (blocked t) r"
  have g: "get_fs_long (fr_esp r' + 4 * of_nat i) s' = ?ws ! i" if "i < length ?ws" for i using w that by blast
  have r': "r' = r\<lparr>fr_eip := sa_handler sa, fr_esp := fr_esp r - (if sa_flags sa AND SA_NOMASK \<noteq> 0 then 28 else 32)\<rparr>" using w by blast
  show ?thesis
  proof (cases "sa_flags sa AND SA_NOMASK = 0")
    case True
    then show ?thesis using w r' g[of 0] g[of 1] g[of 2] g[of 3] g[of 4] g[of 5] g[of 6] g[of 7]
      by (simp add: signal_words_def nth_Cons_numeral)
  next
    case False
    then show ?thesis using w r' g[of 0] g[of 1] g[of 2] g[of 3] g[of 4] g[of 5] g[of 6]
      by (simp add: signal_words_def nth_Cons_numeral)
  qed
qed

theorem do_signal_frame_witness:
  "\<exists>r' s'. do_signal 2 \<lparr>fr_eax = 11, fr_ecx = 12, fr_edx = 13, fr_eip = 14, fr_eflags = 15, fr_esp = 0x1000\<rparr>
      (demo_sched\<lparr>current := 2\<rparr>) = Ok r' s' \<and> fr_eip r' = 0x400 \<and> get_fs_long 0xfe4 s' = 2 \<and> get_fs_long 0xfec s' = 11 \<and> get_fs_long 0xffc s' = 14"
proof -
  let ?r = "\<lparr>fr_eax = 11, fr_ecx = 12, fr_edx = 13, fr_eip = 14, fr_eflags = 15, fr_esp = 0x1000\<rparr>"
  let ?s = "demo_sched\<lparr>current := 2\<rparr>" and ?t = "(INIT_TASK 0)\<lparr>pid := 2, counter := 5, sigactions := (\<lambda>_. no_action\<lparr>sa_handler := 0x400\<rparr>)\<rparr>"
  let ?r' = "?r\<lparr>fr_eip := 0x400, fr_esp := 0xfe0\<rparr>" and ?s' = "kstate (do_signal 2 ?r ?s)"
  have t: "task ?s (current ?s) = Some ?t" by (simp add: demo_sched_def)
  have c: "cur ?s = ?t" by (simp add: cur_def demo_sched_def)
  have v: "verify_area 0xfe0 32 ?s = Ok () ?s"
    by (simp add: verify_area_def c INIT_TASK_def get_base_def write_verify_def load_def dir_ptr_def present_def demo_sched_def sched_data_def)
  have ok: "do_signal 2 ?r ?s = Ok ?r' ?s'"
    by (simp add: do_signal_def c no_action_def v)
  have sa: "sigactions ?t (2 - 1) = no_action\<lparr>sa_handler := 0x400\<rparr>" by simp
  have "get_fs_long 0xfe4 ?s' = 2 \<and> get_fs_long 0xfec ?s' = 11 \<and> get_fs_long 0xffc ?s' = 14"
    using do_signal_frame[OF t sa[symmetric] _ _ ok] by (simp add: no_action_def)
  then show ?thesis using ok by (intro exI[of _ ?r'] exI[of _ ?s']) simp
qed

text \<open>Sequences of the signal system calls and deliveries of one task.\<close>

definition kill_default :: "'z sched_state_scheme \<Rightarrow> bool" where
  "kill_default s \<longleftrightarrow> (\<exists>t. task s (current s) = Some t \<and> sa_handler (sigactions t (SIGKILL - 1)) = 0)"

inductive sig_step :: "'z sched_state_scheme \<Rightarrow> 'z sched_state_scheme \<Rightarrow> bool" where
  step_ssetmask: "sig_step s (snd (sys_ssetmask m s))"
| step_signal: "sig_step s (snd (sys_signal n h r s))"
| step_sigaction: "sys_sigaction n a old s = Ok v s' \<Longrightarrow> sig_step s s'"
| step_deliver: "do_signal n r s = Ok r' s' \<Longrightarrow> sig_step s s'"

lemma kill_default_upd:
  "(\<And>t. sa_handler (sigactions t 8) = 0 \<Longrightarrow> sa_handler (sigactions (f t) 8) = 0) \<Longrightarrow>
   kill_default s \<Longrightarrow> kill_default (upd_cur f s)"
  by (auto simp: kill_default_def)

lemma kill_default_put [simp]:
  "kill_default (put_words ws a s) = kill_default s" "kill_default (put_fs_long w a s) = kill_default s"
  by (auto simp: kill_default_def) (auto simp: put_fs_long_def)

lemma kill_default_verify: "verify_area a n s = Ok u s' \<Longrightarrow> kill_default s' = kill_default s"
  using verify_area_frame[of a n s u s'] by (simp add: kill_default_def)

lemma kill_default_save_old: "save_old f a s = Ok u s' \<Longrightarrow> kill_default s \<Longrightarrow> kill_default s'"
  using kill_default_verify by (fastforce simp: save_old_def)

lemma kill_default_step: "sig_step s s' \<Longrightarrow> kill_default s \<Longrightarrow> kill_default s'"
proof (induction rule: sig_step.induct)
  case (step_ssetmask s m)
  then show ?case by (auto simp: sys_ssetmask_def intro: kill_default_upd)
next
  case (step_signal s n h r)
  then show ?case by (auto simp: sys_signal_def Let_def intro!: kill_default_upd)
next
  case (step_sigaction n a old s v s')
  show ?case
  proof (cases "n < 1 \<or> n > 32 \<or> n = int SIGKILL")
    case True
    then show ?thesis using step_sigaction by (auto simp: sys_sigaction_def)
  next
    case False
    define s1 where "s1 = upd_cur (\<lambda>t. t\<lparr>sigactions := (sigactions t)(nat (n - 1) := get_new a s)\<rparr>) s"
    have k: "kill_default s1" unfolding s1_def using False step_sigaction(2) by (intro kill_default_upd) auto
    obtain u s2 where m: "(if old \<noteq> 0 then save_old (sigactions (cur s) (nat (n - 1))) old s1 else Ok () s1) = Ok u s2"
      and s': "s' = upd_cur (\<lambda>t.
            let a = sigactions t (nat (n - 1));
                a = (if sa_flags a AND SA_NOMASK \<noteq> 0 then a\<lparr>sa_mask := 0\<rparr>
                     else a\<lparr>sa_mask := sa_mask a OR S_bit (nat n)\<rparr>)
            in t\<lparr>sigactions := (sigactions t)(nat (n - 1) := a)\<rparr>) s2"
      using step_sigaction(1) False unfolding sys_sigaction_def Let_def s1_def by auto
    have "kill_default s2" using m k kill_default_save_old by (auto split: if_splits)
    then show ?thesis unfolding s' using False by (intro kill_default_upd) (auto simp: Let_def)
  qed
next
  case (step_deliver n r s r' s')
  then show ?case
    by (auto simp: do_signal_def Let_def kill_default_verify split: if_splits intro!: kill_default_upd)
qed

text \<open>C15. Whatever sequence of \<open>ssetmask\<close>, \<open>signal\<close>, \<open>sigaction\<close> and signal deliveries a task goes
  through, delivering \<open>SIGKILL\<close> ends it: no handler for it can be installed.\<close>

theorem sigkill_always_kills:
  assumes "sig_step\<^sup>*\<^sup>* s s'" "kill_default s"
  shows "do_signal SIGKILL r s' = Exit (S_bit SIGKILL) s'"
proof -
  have "kill_default s'" using assms by (induction rule: rtranclp_induct) (auto intro: kill_default_step)
  then show ?thesis by (auto simp: kill_default_def do_signal_def cur_def Let_def)
qed

theorem sigkill_always_kills_witness:
  "sig_step\<^sup>*\<^sup>* demo_sched (snd (sys_ssetmask 0xffffffff demo_sched)) \<and> kill_default demo_sched \<and>
   do_signal SIGKILL \<lparr>fr_eax = 0, fr_ecx = 0, fr_edx = 0, fr_eip = 0, fr_eflags = 0, fr_esp = 0x1000\<rparr>
     (snd (sys_ssetmask 0xffffffff demo_sched)) = Exit (S_bit SIGKILL) (snd (sys_ssetmask 0xffffffff demo_sched))"
proof -
  have s: "sig_step\<^sup>*\<^sup>* demo_sched (snd (sys_ssetmask 0xffffffff demo_sched))"
    by (rule r_into_rtranclp) (rule sig_step.step_ssetmask)
  have k: "kill_default demo_sched"
    by (simp add: kill_default_def demo_sched_def INIT_TASK_def no_action_def)
  show ?thesis using sigkill_always_kills[OF s k] s k by blast
qed

end
