(* ===== verification/Kernel_Sys.thy ===== *)
theory Kernel_Sys
  imports Kernel_Signal
begin

text \<open>
  The miscellaneous system calls, src/kernel/sys.c: user and group ids, process groups and
  sessions, the clock, the break and the system name. An \<open>int\<close> argument stored into an
  \<open>unsigned short\<close> field keeps its low 16 bits. The second half shows what the credential
  calls allow an unprivileged process.
\<close>

definition sys_ftime :: int where "sys_ftime = - ENOSYS"
definition sys_break :: int where "sys_break = - ENOSYS"
definition sys_ptrace :: int where "sys_ptrace = - ENOSYS"
definition sys_stty :: int where "sys_stty = - ENOSYS"
definition sys_gtty :: int where "sys_gtty = - ENOSYS"
definition sys_rename :: int where "sys_rename = - ENOSYS"
definition sys_prof :: int where "sys_prof = - ENOSYS"

definition sys_setregid ::
    "int \<Rightarrow> int \<Rightarrow> 'z sched_state_scheme \<Rightarrow> int \<times> 'z sched_state_scheme" where
  "sys_setregid rgid eg s =
     (if rgid > 0 \<and> \<not> (uint (gid (cur s)) = rgid \<or> suser s) then (- EPERM, s)
      else
        let s = (if rgid > 0 then upd_cur (\<lambda>t. t\<lparr>gid := word_of_int rgid\<rparr>) s else s) in
        if eg > 0 then
          (if uint (gid (cur s)) = eg \<or> uint (egid (cur s)) = eg \<or> uint (sgid (cur s)) = eg \<or> suser s
           then (0, upd_cur (\<lambda>t. t\<lparr>egid := word_of_int eg\<rparr>) s)
           else (- EPERM, s))
        else (0, s))"

definition sys_setgid :: "int \<Rightarrow> 'z sched_state_scheme \<Rightarrow> int \<times> 'z sched_state_scheme" where
  "sys_setgid g s = sys_setregid g g s"

definition sys_acct :: int where "sys_acct = - ENOSYS"
definition sys_phys :: int where "sys_phys = - ENOSYS"
definition sys_lock :: int where "sys_lock = - ENOSYS"
definition sys_mpx :: int where "sys_mpx = - ENOSYS"
definition sys_ulimit :: int where "sys_ulimit = - ENOSYS"

definition sys_time :: "u32 \<Rightarrow> 'z sched_state_scheme \<Rightarrow> (int, 'z sched_state_scheme) kres" where
  "sys_time tloc s =
     (let i = CURRENT_TIME s in
      if tloc \<noteq> 0 then bindk (verify_area tloc 4 s) (\<lambda>_ s. Ok i (put_fs_long (word_of_int i) tloc s))
      else Ok i s)"

definition sys_setreuid ::
    "int \<Rightarrow> int \<Rightarrow> 'z sched_state_scheme \<Rightarrow> int \<times> 'z sched_state_scheme" where
  "sys_setreuid ruid eu s =
     (let old_ruid = uid (cur s) in
      if ruid > 0 \<and> \<not> (uint (euid (cur s)) = ruid \<or> uint old_ruid = ruid \<or> suser s) then (- EPERM, s)
      else
        let s = (if ruid > 0 then upd_cur (\<lambda>t. t\<lparr>uid := word_of_int ruid\<rparr>) s else s) in
        if eu > 0 then
          (if uint old_ruid = eu \<or> uint (euid (cur s)) = eu \<or> suser s
           then (0, upd_cur (\<lambda>t. t\<lparr>euid := word_of_int eu\<rparr>) s)
           else (- EPERM, upd_cur (\<lambda>t. t\<lparr>uid := old_ruid\<rparr>) s))
        else (0, s))"

definition sys_setuid :: "int \<Rightarrow> 'z sched_state_scheme \<Rightarrow> int \<times> 'z sched_state_scheme" where
  "sys_setuid u s = sys_setreuid u u s"

definition sys_stime :: "u32 \<Rightarrow> 'z sched_state_scheme \<Rightarrow> int \<times> 'z sched_state_scheme" where
  "sys_stime tptr s =
     (if \<not> suser s then (- EPERM, s)
      else (0, s\<lparr>startup_time := s32 (uint (get_fs_long tptr s) - tdiv (jiffies s) HZ)\<rparr>))"

definition sys_times :: "u32 \<Rightarrow> 'z sched_state_scheme \<Rightarrow> (int, 'z sched_state_scheme) kres" where
  "sys_times tbuf s =
     bindk (if tbuf \<noteq> 0
            then bindk (verify_area tbuf 16 s) (\<lambda>_ s.
              let t = cur s in
              Ok () (put_fs_long (word_of_int (cstime t)) (tbuf + 12)
                (put_fs_long (word_of_int (cutime t)) (tbuf + 8)
                (put_fs_long (word_of_int (stime t)) (tbuf + 4)
                (put_fs_long (word_of_int (utime t)) tbuf s)))))
            else Ok () s)
       (\<lambda>_ s. Ok (jiffies s) s)"

definition sys_brk :: "u32 \<Rightarrow> 'z sched_state_scheme \<Rightarrow> u32 \<times> 'z sched_state_scheme" where
  "sys_brk end_data_seg s =
     (let s = (if end_data_seg \<ge> end_code (cur s) \<and> end_data_seg < start_stack (cur s) - 16384
               then upd_cur (\<lambda>t. t\<lparr>brk := end_data_seg\<rparr>) s else s)
      in (brk (cur s), s))"

text \<open>The search of \<open>sys_setpgid\<close> from slot \<open>i\<close> on, \<open>n\<close> slots left.\<close>

fun setpgid_loop ::
    "nat \<Rightarrow> nat \<Rightarrow> int \<Rightarrow> int \<Rightarrow> 'z sched_state_scheme \<Rightarrow> int \<times> 'z sched_state_scheme" where
  "setpgid_loop 0 i p pg s = (- ESRCH, s)"
| "setpgid_loop (Suc n) i p pg s =
     (case task s i of
        Some t \<Rightarrow>
          if pid t = p then
            (if leader t \<noteq> 0 then (- EPERM, s)
             else if session t \<noteq> session (cur s) then (- EPERM, s)
             else (0, upd_task i (\<lambda>t. t\<lparr>pgrp := pg\<rparr>) s))
          else setpgid_loop n (Suc i) p pg s
      | None \<Rightarrow> setpgid_loop n (Suc i) p pg s)"

definition sys_setpgid ::
    "int \<Rightarrow> int \<Rightarrow> 'z sched_state_scheme \<Rightarrow> int \<times> 'z sched_state_scheme" where
  "sys_setpgid p pg s =
     (let p = (if p = 0 then pid (cur s) else p);
          pg = (if pg = 0 then pid (cur s) else pg)
      in setpgid_loop NR_TASKS 0 p pg s)"

definition sys_getpgrp :: "'z sched_state_scheme \<Rightarrow> int" where
  "sys_getpgrp s = pgrp (cur s)"

definition sys_setsid :: "'z sched_state_scheme \<Rightarrow> int \<times> 'z sched_state_scheme" where
  "sys_setsid s =
     (if leader (cur s) \<noteq> 0 \<and> \<not> suser s then (- EPERM, s)
      else let s = upd_cur (\<lambda>t. t\<lparr>leader := 1, session := pid t, pgrp := pid t, t_tty := - 1\<rparr>) s
           in (pgrp (cur s), s))"

text \<open>\<open>struct utsname\<close>: five fields of nine bytes.\<close>

definition thisname :: "u8 list" where
  "thisname = concat (map (\<lambda>n. map of_char n @ [0])
     [''linux .0'', ''nodename'', ''release '', ''version '', ''machine ''])"

fun put_bytes :: "u8 list \<Rightarrow> u32 \<Rightarrow> 'z sched_state_scheme \<Rightarrow> 'z sched_state_scheme" where
  "put_bytes [] a s = s"
| "put_bytes (b # bs) a s = put_bytes bs (a + 1) (put_fs_byte b a s)"

definition sys_uname :: "u32 \<Rightarrow> 'z sched_state_scheme \<Rightarrow> (int, 'z sched_state_scheme) kres" where
  "sys_uname name s =
     (if name = 0 then Ok (- 99) s
      else bindk (verify_area name 45 s) (\<lambda>_ s. Ok 0 (put_bytes thisname name s)))"

definition sys_umask :: "int \<Rightarrow> 'z sched_state_scheme \<Rightarrow> int \<times> 'z sched_state_scheme" where
  "sys_umask m s =
     (uint (umask (cur s)), upd_cur (\<lambda>t. t\<lparr>umask := word_of_int m AND 0x1ff\<rparr>) s)"

subsection \<open>Unprivileged processes\<close>

text \<open>One call of the four credential system calls.\<close>

inductive cred_step :: "'z sched_state_scheme \<Rightarrow> 'z sched_state_scheme \<Rightarrow> bool" where
  step_setreuid: "cred_step s (snd (sys_setreuid r e s))"
| step_setuid: "cred_step s (snd (sys_setuid u s))"
| step_setregid: "cred_step s (snd (sys_setregid r e s))"
| step_setgid: "cred_step s (snd (sys_setgid g s))"

text \<open>The ids a process may reach from \<open>t\<close>: its user ids stay within the real and the effective
  one, and its effective user id is not 0.\<close>

definition cred_ok :: "task_struct \<Rightarrow> task_struct \<Rightarrow> bool" where
  "cred_ok t u \<longleftrightarrow> euid u \<noteq> 0 \<and> uid u \<in> {uid t, euid t} \<and> euid u \<in> {uid t, euid t} \<and>
     gid u \<in> {gid t, egid t, sgid t} \<and> egid u \<in> {gid t, egid t, sgid t} \<and> sgid u = sgid t"

definition cred_inv :: "task_struct \<Rightarrow> 'z sched_state_scheme \<Rightarrow> bool" where
  "cred_inv t s \<longleftrightarrow> (\<exists>u. task s (current s) = Some u \<and> cred_ok t u)"

lemma cur_Some: "task s (current s) = Some t \<Longrightarrow> cur s = t"
  by (simp add: cur_def)

lemma cred_inv_cur: "cred_inv t s \<Longrightarrow> cred_ok t (cur s) \<and> \<not> suser s"
  by (auto simp: cred_inv_def cur_def cred_ok_def suser_def)

lemma cred_inv_upd: "cred_inv t s \<Longrightarrow> cred_ok t (f (cur s)) \<Longrightarrow> cred_inv t (upd_cur f s)"
  by (auto simp: cred_inv_def cur_def)

text \<open>Storing a user id that is one of the two the process has.\<close>

lemma cred_inv_uid:
  "cred_inv t s \<Longrightarrow> w \<in> {uid t, euid t} \<Longrightarrow> cred_inv t (upd_cur (\<lambda>u. u\<lparr>uid := w\<rparr>) s)"
  using cred_inv_cur[of t s] by (intro cred_inv_upd) (simp_all add: cred_ok_def)

lemma cred_inv_euid:
  "cred_inv t s \<Longrightarrow> w \<in> {uid t, euid t} \<Longrightarrow> w \<noteq> 0 \<Longrightarrow> cred_inv t (upd_cur (\<lambda>u. u\<lparr>euid := w\<rparr>) s)"
  using cred_inv_cur[of t s] by (intro cred_inv_upd) (simp_all add: cred_ok_def)

lemma cred_inv_gid:
  "cred_inv t s \<Longrightarrow> w \<in> {gid t, egid t, sgid t} \<Longrightarrow> cred_inv t (upd_cur (\<lambda>u. u\<lparr>gid := w\<rparr>) s)"
  "cred_inv t s \<Longrightarrow> w \<in> {gid t, egid t, sgid t} \<Longrightarrow> cred_inv t (upd_cur (\<lambda>u. u\<lparr>egid := w\<rparr>) s)"
  using cred_inv_cur[of t s] by (auto intro!: cred_inv_upd simp: cred_ok_def)

lemma cred_inv_setreuid:
  assumes "cred_inv t s" shows "cred_inv t (snd (sys_setreuid r e s))"
proof (cases "r > 0 \<and> \<not> (uint (euid (cur s)) = r \<or> uint (uid (cur s)) = r \<or> suser s)")
  case True
  then show ?thesis using assms by (simp add: sys_setreuid_def Let_def)
next
  case False
  define s1 where "s1 = (if r > 0 then upd_cur (\<lambda>t. t\<lparr>uid := word_of_int r\<rparr>) s else s)"
  have s1: "cred_inv t s1"
    using assms False cred_inv_cur[OF assms] by (auto simp: s1_def cred_ok_def intro!: cred_inv_uid)
  have o: "uid (cur s) \<in> {uid t, euid t}" using cred_inv_cur[OF assms] by (simp add: cred_ok_def)
  have "cred_inv t (upd_cur (\<lambda>t. t\<lparr>euid := word_of_int e\<rparr>) s1)"
    if "e > 0" "uint (uid (cur s)) = e \<or> uint (euid (cur s1)) = e \<or> suser s1"
  proof -
    have "\<not> suser s1" "euid (cur s1) \<in> {uid t, euid t}" using cred_inv_cur[OF s1] by (simp_all add: cred_ok_def)
    then show ?thesis using that o by (intro cred_inv_euid[OF s1]) auto
  qed
  moreover have "sys_setreuid r e s =
     (if e > 0 then
        (if uint (uid (cur s)) = e \<or> uint (euid (cur s1)) = e \<or> suser s1
         then (0, upd_cur (\<lambda>t. t\<lparr>euid := word_of_int e\<rparr>) s1)
         else (- EPERM, upd_cur (\<lambda>t. t\<lparr>uid := uid (cur s)\<rparr>) s1)) else (0, s1))"
    using False unfolding sys_setreuid_def Let_def s1_def by (simp only: if_False)
  ultimately show ?thesis using s1 o by (simp add: cred_inv_uid)
qed

lemma cred_inv_setregid:
  assumes "cred_inv t s" shows "cred_inv t (snd (sys_setregid r e s))"
proof (cases "r > 0 \<and> \<not> (uint (gid (cur s)) = r \<or> suser s)")
  case True
  then show ?thesis using assms by (simp add: sys_setregid_def)
next
  case False
  define s1 where "s1 = (if r > 0 then upd_cur (\<lambda>t. t\<lparr>gid := word_of_int r\<rparr>) s else s)"
  have s1: "cred_inv t s1"
    using assms False cred_inv_cur[OF assms] by (auto simp: s1_def cred_ok_def intro!: cred_inv_gid)
  have "cred_inv t (upd_cur (\<lambda>t. t\<lparr>egid := word_of_int e\<rparr>) s1)"
    if "uint (gid (cur s1)) = e \<or> uint (egid (cur s1)) = e \<or> uint (sgid (cur s1)) = e \<or> suser s1"
    using that cred_inv_cur[OF s1] by (intro cred_inv_gid(2)[OF s1]) (auto simp: cred_ok_def)
  moreover have "sys_setregid r e s =
     (if e > 0 then
        (if uint (gid (cur s1)) = e \<or> uint (egid (cur s1)) = e \<or> uint (sgid (cur s1)) = e \<or> suser s1
         then (0, upd_cur (\<lambda>t. t\<lparr>egid := word_of_int e\<rparr>) s1) else (- EPERM, s1)) else (0, s1))"
    using False unfolding sys_setregid_def Let_def s1_def by (simp only: if_False)
  ultimately show ?thesis using s1 by simp
qed

lemma cred_inv_step: "cred_step s s' \<Longrightarrow> cred_inv t s \<Longrightarrow> cred_inv t s'"
  by (induction rule: cred_step.induct)
    (auto simp: sys_setuid_def sys_setgid_def intro: cred_inv_setreuid cred_inv_setregid)

text \<open>C32. An unprivileged process stays unprivileged: after any sequence of \<open>setreuid\<close>, \<open>setuid\<close>,
  \<open>setregid\<close> and \<open>setgid\<close> its user ids are among its first real and effective user id, its group ids among
  its first three group ids, and it is not the super user.\<close>

theorem unprivileged_stays:
  assumes "cred_step\<^sup>*\<^sup>* s s'" "task s (current s) = Some t" "euid t \<noteq> 0"
  shows "uid (cur s') \<in> {uid t, euid t} \<and> euid (cur s') \<in> {uid t, euid t} \<and>
    gid (cur s') \<in> {gid t, egid t, sgid t} \<and> egid (cur s') \<in> {gid t, egid t, sgid t} \<and> \<not> suser s'"
proof -
  have "cred_inv t s" using assms(2,3) by (simp add: cred_inv_def cred_ok_def)
  with assms(1) have "cred_inv t s'" by (induction rule: rtranclp_induct) (auto intro: cred_inv_step)
  then show ?thesis using cred_inv_cur[of t s'] by (simp add: cred_ok_def)
qed

theorem unprivileged_stays_witness:
  "\<exists>s s'. cred_step\<^sup>*\<^sup>* (s :: sched_state) s' \<and> euid (cur s) = 7 \<and> euid (cur s') = 9 \<and> \<not> suser s'"
proof -
  let ?t = "(INIT_TASK 0)\<lparr>uid := 9, euid := 7\<rparr>"
  let ?s = "demo_sched\<lparr>task := [1 \<mapsto> ?t]\<rparr>"
  have t: "task ?s (current ?s) = Some ?t" by (simp add: demo_sched_def)
  have r: "cred_step\<^sup>*\<^sup>* ?s (snd (sys_setreuid 7 9 ?s))"
    by (rule r_into_rtranclp) (rule cred_step.step_setreuid)
  have e: "euid (cur (snd (sys_setreuid 7 9 ?s))) = 9"
    by (simp add: sys_setreuid_def Let_def cur_def upd_cur_def upd_task_def demo_sched_def suser_def)
  have "\<not> suser (snd (sys_setreuid 7 9 ?s))" using unprivileged_stays[OF r t] by simp
  then show ?thesis using r e cur_Some[OF t] by (intro exI[of _ ?s] exI[of _ "snd (sys_setreuid 7 9 ?s)"]) simp
qed

text \<open>A failing \<open>setreuid\<close> changes no id.\<close>

lemma setreuid_atomic:
  assumes "task s (current s) = Some t" "sys_setreuid r e s = (- EPERM, s')"
  shows "task s' (current s') = Some t"
proof -
  have c: "cur s = t" using assms(1) by (simp add: cur_def)
  show ?thesis using assms
    by (simp add: sys_setreuid_def Let_def c split: if_splits) (auto simp: upd_cur_def)
qed

end
