(* ===== verification/Kernel_Mktime.thy ===== *)
theory Kernel_Mktime
  imports Kernel_Task
begin

text \<open>
  The start-up clock: \<open>kernel_mktime\<close> of src/kernel/mktime.c turns the date read from the CMOS
  clock into seconds since 1970. The specification counts the days of the Gregorian calendar year by
  year and month by month. The arithmetic of the code is on 32-bit \<open>long\<close>s: \<open>s32\<close> wraps the sum.
\<close>

record tm =
  tm_sec :: int
  tm_min :: int
  tm_hour :: int
  tm_mday :: int
  tm_mon :: nat
  tm_year :: int

abbreviation (input) MINUTE :: int where "MINUTE \<equiv> 60"
abbreviation (input) HOUR :: int where "HOUR \<equiv> 3600"
abbreviation (input) DAY :: int where "DAY \<equiv> 86400"
abbreviation (input) YEAR :: int where "YEAR \<equiv> 31536000"

definition month :: "int list" where
  "month = [0, DAY * 31, DAY * (31 + 29), DAY * (31 + 29 + 31), DAY * (31 + 29 + 31 + 30),
     DAY * (31 + 29 + 31 + 30 + 31), DAY * (31 + 29 + 31 + 30 + 31 + 30),
     DAY * (31 + 29 + 31 + 30 + 31 + 30 + 31), DAY * (31 + 29 + 31 + 30 + 31 + 30 + 31 + 31),
     DAY * (31 + 29 + 31 + 30 + 31 + 30 + 31 + 31 + 30),
     DAY * (31 + 29 + 31 + 30 + 31 + 30 + 31 + 31 + 30 + 31),
     DAY * (31 + 29 + 31 + 30 + 31 + 30 + 31 + 31 + 30 + 31 + 30)]"

definition kernel_mktime :: "tm \<Rightarrow> int" where
  "kernel_mktime t =
     (let year = tm_year t - 70;
          res = YEAR * year + DAY * tdiv (year + 1) 4;
          res = res + month ! tm_mon t;
          res = (if tm_mon t > 1 \<and> (year + 2) mod 4 \<noteq> 0 then res - DAY else res);
          res = res + DAY * (tm_mday t - 1);
          res = res + HOUR * tm_hour t;
          res = res + MINUTE * tm_min t
      in s32 (res + tm_sec t))"

subsection \<open>The calendar\<close>

definition leap :: "int \<Rightarrow> bool" where
  "leap y \<longleftrightarrow> y mod 4 = 0 \<and> (y mod 100 \<noteq> 0 \<or> y mod 400 = 0)"

fun days_of_years :: "nat \<Rightarrow> int" where
  "days_of_years 0 = 0"
| "days_of_years (Suc k) = days_of_years k + (if leap (1970 + int k) then 366 else 365)"

definition month_days :: "int \<Rightarrow> int list" where
  "month_days y = [31, if leap y then 29 else 28, 31, 30, 31, 30, 31, 31, 30, 31, 30, 31]"

definition epoch_seconds :: "nat \<Rightarrow> nat \<Rightarrow> int \<Rightarrow> int \<Rightarrow> int \<Rightarrow> int \<Rightarrow> int" where
  "epoch_seconds k m d h mi sec =
     DAY * (days_of_years k + sum_list (take m (month_days (1970 + int k))) + (d - 1))
     + HOUR * h + MINUTE * mi + sec"

lemma leap_century: "k < 130 \<Longrightarrow> leap (1970 + int k) \<longleftrightarrow> (k + 2) mod 4 = 0"
proof -
  assume k: "k < 130"
  have "(1970 + int k) mod 4 = int ((k + 2) mod 4)" by presburger
  moreover have "(1970 + int k) mod 100 \<noteq> 0 \<or> (1970 + int k) mod 400 = 0"
    using k by presburger
  ultimately show ?thesis by (auto simp: leap_def)
qed

lemma days_of_years_closed: "k \<le> 130 \<Longrightarrow> days_of_years k = 365 * int k + int ((k + 1) div 4)"
proof (induction k)
  case (Suc k)
  then have "days_of_years k = 365 * int k + int ((k + 1) div 4)" "k < 130" by simp_all
  moreover have "(Suc k + 1) div 4 = (k + 1) div 4 + (if (k + 2) mod 4 = 0 then 1 else 0)" by presburger
  ultimately show ?case using leap_century[of k] by (simp split: if_splits)
qed simp

lemma month_sum:
  assumes "m < 12"
  shows "month ! m - (if m > 1 \<and> \<not> leap y then DAY else 0) = DAY * sum_list (take m (month_days y))"
proof -
  have "m \<in> {0, 1, 2, 3, 4, 5, 6, 7, 8, 9, 10, 11}" using assms by simp presburger
  then show ?thesis by (auto simp: month_def month_days_def)
qed

text \<open>C36. For every date from 1970 to 2099 the result of \<open>kernel_mktime\<close> is the number of seconds
  since the start of 1970 in the Gregorian calendar, reduced to 32 bits (and so exact until 2038).\<close>

theorem kernel_mktime_calendar:
  assumes "tm_year t = 70 + int k" "k < 130" "tm_mon t < 12"
  shows "kernel_mktime t =
    s32 (epoch_seconds k (tm_mon t) (tm_mday t) (tm_hour t) (tm_min t) (tm_sec t))"
proof -
  have y: "days_of_years k = 365 * int k + tdiv (int k + 1) 4"
    using days_of_years_closed[of k] assms(2) by (simp add: tdiv_def zdiv_int)
  have l: "(int k + 2) mod 4 \<noteq> 0 \<longleftrightarrow> \<not> leap (1970 + int k)"
    using leap_century[OF assms(2)] by presburger
  have m: "month ! tm_mon t - (if tm_mon t > 1 \<and> \<not> leap (1970 + int k) then DAY else 0)
      = DAY * sum_list (take (tm_mon t) (month_days (1970 + int k)))"
    by (rule month_sum[OF assms(3)])
  show ?thesis
    using m by (simp add: kernel_mktime_def Let_def epoch_seconds_def assms(1) y l algebra_simps split: if_splits)
qed

theorem kernel_mktime_calendar_witness:
  "kernel_mktime \<lparr>tm_sec = 9, tm_min = 8, tm_hour = 7, tm_mday = 17, tm_mon = 8, tm_year = 91\<rparr> = 685091289"
  using kernel_mktime_calendar[of "\<lparr>tm_sec = 9, tm_min = 8, tm_hour = 7, tm_mday = 17, tm_mon = 8, tm_year = 91\<rparr>" 21]
  by (simp add: days_of_years_closed epoch_seconds_def month_days_def leap_def)

end
