(* ===== verification/Kernel_Vsprintf.thy ===== *)
theory Kernel_Vsprintf
  imports Kernel_Task
begin

text \<open>
  Formatted output, src/kernel/vsprintf.c. A C string is the list of its characters without the
  final 0, so the end of the format list is the character \<open>'\0'\<close> the code tests. The variable
  arguments are a list of words and strings; the value \<open>None\<close> is a call that reads an argument
  that is not there or has another type. The result is the text written to \<open>buf\<close> (its length is
  the value returned) with the stores made by \<open>%n\<close>. \<open>number\<close> returns the characters it writes
  at \<open>str\<close>; \<open>None\<close> is its null result for a base outside 2 to 36. Field width and precision are integers without a bound:
  C leaves an overflow of them undefined.
\<close>

datatype va = VInt u32 | VStr string

definition is_digit :: "char \<Rightarrow> bool" where
  "is_digit c \<longleftrightarrow> (of_char CHR ''0'' :: nat) \<le> of_char c \<and> of_char c \<le> (of_char CHR ''9'' :: nat)"

fun skip_atoi :: "int \<Rightarrow> string \<Rightarrow> int \<times> string" where
  "skip_atoi i [] = (i, [])"
| "skip_atoi i (c # s) =
     (if is_digit c then skip_atoi (s32 (i * 10 + of_char c - of_char CHR ''0'')) s else (i, c # s))"

abbreviation (input) ZEROPAD :: u32 where "ZEROPAD \<equiv> 1"
abbreviation (input) SIGN :: u32 where "SIGN \<equiv> 2"
abbreviation (input) PLUS :: u32 where "PLUS \<equiv> 4"
abbreviation (input) SPACE :: u32 where "SPACE \<equiv> 8"
abbreviation (input) LEFT :: u32 where "LEFT \<equiv> 16"
abbreviation (input) SPECIAL :: u32 where "SPECIAL \<equiv> 32"
abbreviation (input) SMALL :: u32 where "SMALL \<equiv> 64"

definition upper_digits :: string where
  "upper_digits = ''0123456789ABCDEFGHIJKLMNOPQRSTUVWXYZ''"

definition lower_digits :: string where
  "lower_digits = ''0123456789abcdefghijklmnopqrstuvwxyz''"

text \<open>\<open>while (num!=0) tmp[i++]=digits[do_div(num,base)]\<close>: the digits, lowest first; \<open>do_div\<close> is
  the unsigned division instruction.\<close>

function tmp_digits :: "string \<Rightarrow> nat \<Rightarrow> nat \<Rightarrow> string" where
  "tmp_digits digits base n =
     (if n = 0 \<or> base < 2 then [] else digits ! (n mod base) # tmp_digits digits base (n div base))"
  by pat_completeness auto
termination
  by (relation "measure (\<lambda>(d, b, n). n)") auto

text \<open>The loop \<open>while(size-->0)\<close>: the number of rounds and the value it leaves.\<close>

definition pad :: "int \<Rightarrow> char \<Rightarrow> string" where
  "pad sz c = replicate (nat sz) c"

definition pad_left :: "int \<Rightarrow> int" where
  "pad_left sz = min sz 0 - 1"

text \<open>The first half of \<open>number\<close>: the digit characters, the sign and its test.\<close>

definition digits_for :: "u32 \<Rightarrow> string" where
  "digits_for type = (if type AND SMALL \<noteq> 0 then lower_digits else upper_digits)"

definition negative :: "u32 \<Rightarrow> u32 \<Rightarrow> bool" where
  "negative num type \<longleftrightarrow> type AND SIGN \<noteq> 0 \<and> sint num < 0"

definition sign_text :: "u32 \<Rightarrow> u32 \<Rightarrow> string" where
  "sign_text num type =
     (if negative num type then ''-'' else if type AND PLUS \<noteq> 0 then ''+''
      else if type AND SPACE \<noteq> 0 then '' '' else [])"

text \<open>The second half: what is written for the width \<open>sz\<close> left over, the precision and the digits.\<close>

definition prefix_text :: "nat \<Rightarrow> u32 \<Rightarrow> string" where
  "prefix_text base type =
     (if type AND SPECIAL \<noteq> 0
      then (if base = 8 then ''0'' else if base = 16 then [CHR ''0'', digits_for type ! 33] else [])
      else [])"

definition put_number :: "u32 \<Rightarrow> int \<Rightarrow> string \<Rightarrow> string \<Rightarrow> int \<Rightarrow> string \<Rightarrow> string" where
  "put_number type sz sign special precision tmp =
     (let c = (if type AND ZEROPAD \<noteq> 0 then CHR ''0'' else CHR '' '');
          blank = (type AND (ZEROPAD + LEFT) = 0);
          pad1 = (if blank then pad sz CHR '' '' else []);
          sz = (if blank then pad_left sz else sz);
          right = (type AND LEFT = 0);
          pad2 = (if right then pad sz c else []);
          sz = (if right then pad_left sz else sz)
      in pad1 @ sign @ special @ pad2 @ pad (precision - int (length tmp)) CHR ''0'' @ rev tmp
         @ pad sz CHR '' '')"

definition number :: "u32 \<Rightarrow> nat \<Rightarrow> int \<Rightarrow> int \<Rightarrow> u32 \<Rightarrow> string option" where
  "number num base sz precision type =
     (let digits = digits_for type;
          type = (if type AND LEFT \<noteq> 0 then type AND NOT ZEROPAD else type) in
      if base < 2 \<or> base > 36 then None
      else
        let sign = sign_text num type;
            num = (if negative num type then - num else num);
            sz = (if sign \<noteq> [] then sz - 1 else sz);
            sz = (if type AND SPECIAL \<noteq> 0
                  then (if base = 16 then sz - 2 else if base = 8 then sz - 1 else sz) else sz);
            tmp = (if num = 0 then ''0'' else tmp_digits digits base (unat num));
            precision = (if int (length tmp) > precision then int (length tmp) else precision)
        in Some (put_number type (sz - precision) sign (prefix_text base type) precision tmp))"

text \<open>The flags after \<open>%\<close>: the character \<open>fmt\<close> points to when the loop ends is the head of the rest.\<close>

fun parse_flags :: "u32 \<Rightarrow> string \<Rightarrow> u32 \<times> string" where
  "parse_flags flags [] = (flags, [])"
| "parse_flags flags (c # fmt) =
     (if c = CHR ''-'' then parse_flags (flags OR LEFT) fmt
      else if c = CHR ''+'' then parse_flags (flags OR PLUS) fmt
      else if c = CHR '' '' then parse_flags (flags OR SPACE) fmt
      else if c = CHR ''#'' then parse_flags (flags OR SPECIAL) fmt
      else if c = CHR ''0'' then parse_flags (flags OR ZEROPAD) fmt
      else (flags, c # fmt))"

text \<open>The field width: \<open>(width, flags, rest, arguments)\<close>. For \<open>*\<close> the code takes the argument
  but leaves \<open>fmt\<close> on the star.\<close>

definition field_width_of ::
    "u32 \<Rightarrow> string \<Rightarrow> va list \<Rightarrow> (int \<times> u32 \<times> string \<times> va list) option" where
  "field_width_of flags fmt args =
     (case fmt of
        [] \<Rightarrow> Some (- 1, flags, fmt, args)
      | c # _ \<Rightarrow>
          if is_digit c then (let (w, rest) = skip_atoi 0 fmt in Some (w, flags, rest, args))
          else if c = CHR ''*'' then
            (case args of
               VInt v # args \<Rightarrow>
                 if sint v < 0 then Some (s32 (- sint v), flags OR LEFT, fmt, args)
                 else Some (sint v, flags, fmt, args)
             | _ \<Rightarrow> None)
          else Some (- 1, flags, fmt, args))"

definition precision_of :: "string \<Rightarrow> va list \<Rightarrow> (int \<times> string \<times> va list) option" where
  "precision_of fmt args =
     (case fmt of
        c # fmt' \<Rightarrow>
          if c = CHR ''.'' then
            (case fmt' of
               d # _ \<Rightarrow>
                 if is_digit d then (let (p, rest) = skip_atoi 0 fmt' in Some (max p 0, rest, args))
                 else if d = CHR ''*'' then
                   (case args of VInt v # args \<Rightarrow> Some (max (sint v) 0, fmt', args) | _ \<Rightarrow> None)
                 else Some (0, fmt', args)
             | [] \<Rightarrow> Some (0, [], args))
          else Some (- 1, fmt, args)
      | [] \<Rightarrow> Some (- 1, [], args))"

definition skip_qualifier :: "string \<Rightarrow> string" where
  "skip_qualifier fmt =
     (case fmt of
        c # rest \<Rightarrow> if c = CHR ''h'' \<or> c = CHR ''l'' \<or> c = CHR ''L'' then rest else fmt
      | [] \<Rightarrow> [])"

text \<open>The cases \<open>c\<close> and \<open>s\<close>; \<open>while (--field_width > 0)\<close> runs once less than the width.\<close>

definition put_char :: "u32 \<Rightarrow> int \<Rightarrow> u32 \<Rightarrow> string" where
  "put_char flags width v =
     (let right = (flags AND LEFT = 0) in
      (if right then pad (width - 1) CHR '' '' else []) @ [char_of (unat v)]
      @ (if right then [] else pad (width - 1) CHR '' ''))"

definition put_str :: "u32 \<Rightarrow> int \<Rightarrow> int \<Rightarrow> string \<Rightarrow> string" where
  "put_str flags width precision s =
     (let len = (if precision < 0 then int (length s) else min (int (length s)) precision);
          right = (flags AND LEFT = 0) in
      (if right then pad (width - len) CHR '' '' else []) @ take (nat len) s
      @ (if right then [] else pad (width - len) CHR '' ''))"

text \<open>The final \<open>switch\<close> on the conversion character, with the text written so far, for \<open>%n\<close>:
  the characters it adds, its stores, and the arguments left.\<close>

definition convert ::
    "char \<Rightarrow> u32 \<Rightarrow> int \<Rightarrow> int \<Rightarrow> nat \<Rightarrow> va list \<Rightarrow> (string \<times> (u32 \<times> nat) list \<times> va list) option" where
  "convert c flags width precision sofar args =
     (let num = (\<lambda>base width flags. case args of
                   VInt v # args \<Rightarrow> map_option (\<lambda>t. (t, [], args)) (number v base width precision flags)
                 | _ \<Rightarrow> None) in
      if c = CHR ''c'' then (case args of VInt v # args \<Rightarrow> Some (put_char flags width v, [], args) | _ \<Rightarrow> None)
      else if c = CHR ''s'' then
        (case args of VStr t # args \<Rightarrow> Some (put_str flags width precision t, [], args) | _ \<Rightarrow> None)
      else if c = CHR ''o'' then num 8 width flags
      else if c = CHR ''p'' then
        (if width = - 1 then num 16 8 (flags OR ZEROPAD) else num 16 width flags)
      else if c = CHR ''x'' then num 16 width (flags OR SMALL)
      else if c = CHR ''X'' then num 16 width flags
      else if c = CHR ''d'' \<or> c = CHR ''i'' then num 10 width (flags OR SIGN)
      else if c = CHR ''u'' then num 10 width flags
      else if c = CHR ''n'' then (case args of VInt ip # args \<Rightarrow> Some ([], [(ip, sofar)], args) | _ \<Rightarrow> None)
      else Some ((if c \<noteq> CHR ''%'' then [CHR ''%''] else []) @ [c], [], args))"

lemma skip_atoi_length: "length (snd (skip_atoi i s)) \<le> length s"
  by (induction i s rule: skip_atoi.induct) (auto intro: le_SucI)

lemma parse_flags_length: "length (snd (parse_flags f s)) \<le> length s"
  by (induction f s rule: parse_flags.induct) (auto intro: le_SucI)

lemma field_width_length:
  "field_width_of f fmt args = Some (w, f', fmt', args') \<Longrightarrow> length fmt' \<le> length fmt"
  using skip_atoi_length[of 0 fmt]
  by (auto simp: field_width_of_def Let_def split: list.splits if_splits va.splits prod.splits)

lemma precision_length: "precision_of fmt args = Some (p, fmt', args') \<Longrightarrow> length fmt' \<le> length fmt"
  using skip_atoi_length[of 0 "List.tl fmt"]
  by (auto simp: precision_of_def Let_def split: list.splits if_splits va.splits prod.splits)

lemma skip_qualifier_length: "length (skip_qualifier fmt) \<le> length fmt"
  by (simp add: skip_qualifier_def split: list.split)

text \<open>One conversion, from the character after \<open>%\<close>: the characters and stores it makes, the rest of the
  format and the arguments left.\<close>

definition conversion ::
    "string \<Rightarrow> va list \<Rightarrow> nat \<Rightarrow> (string \<times> (u32 \<times> nat) list \<times> string \<times> va list) option" where
  "conversion fmt args sofar =
     (let (flags, fmt) = parse_flags 0 fmt in
      case field_width_of flags fmt args of
        None \<Rightarrow> None
      | Some (width, flags, fmt, args) \<Rightarrow>
          (case precision_of fmt args of
             None \<Rightarrow> None
           | Some (precision, fmt, args) \<Rightarrow>
               (case skip_qualifier fmt of
                  [] \<Rightarrow> Some ([CHR ''%''], [], [], args)
                | c # fmt \<Rightarrow>
                    map_option (\<lambda>(t, st, args). (t, st, fmt, args))
                      (convert c flags width precision sofar args))))"

lemma conversion_length:
  assumes "conversion fmt args n = Some (t, st, fmt', args')"
  shows "length fmt' \<le> length fmt"
proof -
  obtain flags f1 where p: "parse_flags 0 fmt = (flags, f1)" by fastforce
  have "length f1 \<le> length fmt" using parse_flags_length[of 0 fmt] by (simp add: p)
  moreover have "length fmt' \<le> length f1"
    using assms field_width_length precision_length skip_qualifier_length
    by (fastforce simp: conversion_def p split: option.splits list.splits dest: order_trans)
  ultimately show ?thesis by simp
qed

function vsprintf_loop ::
    "string \<Rightarrow> va list \<Rightarrow> nat \<Rightarrow> (string \<times> (u32 \<times> nat) list) option" where
  "vsprintf_loop [] args sofar = Some ([], [])"
| "vsprintf_loop (c # fmt) args sofar =
     (if c \<noteq> CHR ''%''
      then map_option (\<lambda>(t, st). (c # t, st)) (vsprintf_loop fmt args (Suc sofar))
      else
        case conversion fmt args sofar of
          None \<Rightarrow> None
        | Some (t, st, fmt, args) \<Rightarrow>
            map_option (\<lambda>(t', st'). (t @ t', st @ st')) (vsprintf_loop fmt args (sofar + length t)))"
  by pat_completeness auto
termination
  by (relation "measure (\<lambda>(fmt, args, n). length fmt)") (auto dest: conversion_length)

definition vsprintf :: "string \<Rightarrow> va list \<Rightarrow> (nat \<times> string \<times> (u32 \<times> nat) list) option" where
  "vsprintf fmt args =
     map_option (\<lambda>(t, st). (length t, t, st)) (vsprintf_loop fmt args 0)"

subsection \<open>The text of a number\<close>

text \<open>The value a digit string denotes, most significant digit first, for the digit characters \<open>digits\<close>.\<close>

definition digit_value :: "string \<Rightarrow> char \<Rightarrow> nat" where
  "digit_value digits c = length (takeWhile (\<lambda>d. d \<noteq> c) digits)"

definition text_value :: "string \<Rightarrow> nat \<Rightarrow> string \<Rightarrow> nat" where
  "text_value digits base t = foldl (\<lambda>v c. v * base + digit_value digits c) 0 t"

definition magnitude :: "u32 \<Rightarrow> u32 \<Rightarrow> nat" where
  "magnitude num type = (if negative num type then nat (- sint num) else unat num)"

definition number_digits :: "u32 \<Rightarrow> nat \<Rightarrow> u32 \<Rightarrow> string" where
  "number_digits num base type =
     rev (if magnitude num type = 0 then ''0'' else tmp_digits (digits_for type) base (magnitude num type))"

lemma digit_value_nth: "distinct ds \<Longrightarrow> i < length ds \<Longrightarrow> digit_value ds (ds ! i) = i"
proof (induction ds arbitrary: i)
  case (Cons d ds)
  then show ?case by (cases i) (auto simp: digit_value_def)
qed simp

lemma digits_for_ok: "distinct (digits_for type)" "length (digits_for type) = 36"
  by (simp_all add: digits_for_def upper_digits_def lower_digits_def)

lemma text_value_snoc: "text_value ds base (t @ [c]) = text_value ds base t * base + digit_value ds c"
  by (simp add: text_value_def)

lemma tmp_digits_value:
  assumes "distinct ds" "length ds = 36" "2 \<le> base" "base \<le> 36"
  shows "text_value ds base (rev (tmp_digits ds base n)) = n"
proof (induction n rule: less_induct)
  case (less n)
  show ?case
  proof (cases "n = 0")
    case True
    then show ?thesis by (simp add: text_value_def)
  next
    case False
    then have "n div base < n" using assms(3) by simp
    moreover have "n mod base < length ds"
      using assms mod_less_divisor[of base n] by linarith
    ultimately show ?thesis
      using less[of "n div base"] False assms
      by (subst tmp_digits.simps) (simp del: tmp_digits.simps add: text_value_snoc digit_value_nth)
  qed
qed

lemma tmp_digits_length: "2 \<le> base \<Longrightarrow> n < 2 ^ k \<Longrightarrow> length (tmp_digits ds base n) \<le> k"
proof (induction k arbitrary: n)
  case 0
  then show ?case by (subst tmp_digits.simps) simp
next
  case (Suc k)
  have "n div base \<le> n div 2" using Suc.prems(1) by (simp add: div_le_mono2)
  also have "\<dots> < 2 ^ k" using Suc.prems(2) by auto
  finally have "length (tmp_digits ds base (n div base)) \<le> k" using Suc.IH Suc.prems(1) by blast
  then show ?case by (subst tmp_digits.simps) (simp del: tmp_digits.simps)
qed

lemma tmp_digits_nonempty: "2 \<le> base \<Longrightarrow> n \<noteq> 0 \<Longrightarrow> tmp_digits ds base n \<noteq> []"
  by (subst tmp_digits.simps) simp

lemma unat_minus_neg:
  assumes "sint (num :: u32) < 0" shows "unat (- num) = nat (- sint num)"
proof -
  have e: "sint num = (uint num + 2 ^ 31) mod 2 ^ 32 - 2 ^ 31"
    by (simp add: sint_uint signed_take_bit_eq_take_bit_shift take_bit_eq_mod)
  have b: "0 \<le> uint num" "uint num < 2 ^ 32" using unsigned_less[of num, where ?'a = int] by simp_all
  have s: "sint num = uint num - 2 ^ 32"
  proof (cases "uint num + 2 ^ 31 < 2 ^ 32")
    case True
    then show ?thesis using e assms b by simp
  next
    case False
    have "(uint num + 2 ^ 31) mod 2 ^ 32 = (uint num + 2 ^ 31 - 2 ^ 32) mod 2 ^ 32"
      by (rule minus_mod_self2[symmetric])
    also have "\<dots> = uint num + 2 ^ 31 - 2 ^ 32"
      using False b by (intro mod_pos_pos_trivial) simp_all
    finally have "(uint num + 2 ^ 31) mod 2 ^ 32 = uint num + 2 ^ 31 - 2 ^ 32" .
    then show ?thesis using e by simp
  qed
  have "0 \<le> (uint num + 2 ^ 31) mod 2 ^ 32" by simp
  then have u: "0 < uint num" using s e by simp
  have "uint (- num) = (- uint num) mod 2 ^ 32" by (simp add: uint_word_ariths)
  also have "\<dots> = (2 ^ 32 - uint num) mod 2 ^ 32" by (simp add: mod_diff_left_eq)
  also have "\<dots> = 2 ^ 32 - uint num"
    using u b by (intro mod_pos_pos_trivial) simp_all
  finally show ?thesis using s by (simp add: unat_eq_nat_uint)
qed

lemma magnitude_eq: "unat (if negative num type then - num else num) = magnitude num type"
  using unat_minus_neg by (simp add: magnitude_def negative_def)

lemma magnitude_less: "magnitude num type < 2 ^ 32"
  using unsigned_less[of "if negative num type then - num else num", where ?'a = nat]
  unfolding magnitude_eq by simp

lemma number_digits_ok:
  assumes "2 \<le> base" "base \<le> 36"
  shows "text_value (digits_for type) base (number_digits num base type) = magnitude num type"
    "length (number_digits num base type) \<le> 32" "number_digits num base type \<noteq> []"
  using assms digits_for_ok tmp_digits_value[OF digits_for_ok assms, of type "magnitude num type"]
    tmp_digits_length[OF assms(1) magnitude_less] tmp_digits_nonempty[OF assms(1)]
  by (auto simp: number_digits_def text_value_def digit_value_def digits_for_def upper_digits_def lower_digits_def
      simp del: tmp_digits.simps)

lemma left_or_zero: "(x :: u32) AND (ZEROPAD + LEFT) = 0 \<longleftrightarrow> x AND ZEROPAD = 0 \<and> x AND LEFT = 0"
proof -
  have "x AND (1 + 16) = (x AND 1) OR (x AND 16)" by (simp add: bit.conj_disj_distrib[symmetric])
  then show ?thesis by (simp add: or_eq_0_iff)
qed

text \<open>The number as it is printed in a field of width \<open>sz\<close>: spaces before it, zeros after the sign and
  the prefix, or spaces after it, according to the flags.\<close>

definition in_field :: "u32 \<Rightarrow> int \<Rightarrow> string \<Rightarrow> string \<Rightarrow> string" where
  "in_field type sz pre body =
     (let fill = nat sz - (length pre + length body) in
      if type AND LEFT \<noteq> 0 then pre @ body @ replicate fill CHR '' ''
      else if type AND ZEROPAD \<noteq> 0 then pre @ replicate fill CHR ''0'' @ body
      else replicate fill CHR '' '' @ pre @ body)"

lemma number_zero_iff: "((if negative num type then - num else num) = 0) \<longleftrightarrow> magnitude num type = 0"
  using magnitude_eq[of num type] by (metis unat_eq_zero)

lemma put_number_field:
  assumes "int (length tmp) \<le> p" "w = sz - int (length sign + length special) - p"
    "type' = (if type AND LEFT \<noteq> 0 then type AND NOT ZEROPAD else type)"
  shows "put_number type' w sign special p tmp =
    in_field type sz (sign @ special) (replicate (nat p - length tmp) CHR ''0'' @ rev tmp)"
proof -
  have t: "type' AND LEFT = type AND LEFT" "type' AND ZEROPAD = (if type AND LEFT \<noteq> 0 then 0 else type AND ZEROPAD)"
    using assms(3) by (simp_all add: and.assoc)
  have f: "nat w = nat sz - (length (sign @ special) + length (replicate (nat p - length tmp) CHR ''0'' @ rev tmp))"
    "nat (p - int (length tmp)) = nat p - length tmp"
    using assms(1,2) by auto
  have n: "pad_left x \<le> 0" "nat (pad_left x) = 0" for x by (simp_all add: pad_left_def)
  show ?thesis unfolding put_number_def in_field_def Let_def left_or_zero t f(1)[symmetric] pad_def f(2)
    by (simp add: n)
qed

lemma number_layout:
  assumes "2 \<le> base" "base \<le> 36"
  shows "number num base sz precision type = Some (in_field type sz (sign_text num type @ prefix_text base type)
      (replicate (nat precision - length (number_digits num base type)) CHR ''0'' @ number_digits num base type))"
proof -
  define type' where "type' = (if type AND LEFT \<noteq> 0 then type AND NOT ZEROPAD else type)"
  define tmp where "tmp = (if magnitude num type = 0 then ''0'' else tmp_digits (digits_for type) base (magnitude num type))"
  define p where "p = (if int (length tmp) > precision then int (length tmp) else precision)"
  have t: "type' AND SIGN = type AND SIGN" "type' AND PLUS = type AND PLUS" "type' AND SPACE = type AND SPACE"
    "type' AND SPECIAL = type AND SPECIAL" "type' AND SMALL = type AND SMALL"
    by (simp_all add: type'_def and.assoc)
  have e: "negative num type' = negative num type" "sign_text num type' = sign_text num type"
    "prefix_text base type' = prefix_text base type" "magnitude num type' = magnitude num type"
    by (simp_all add: magnitude_def negative_def sign_text_def prefix_text_def digits_for_def t)
  have ls: "(if sign_text num type \<noteq> [] then sz - 1 else sz) = sz - int (length (sign_text num type))"
    by (simp add: sign_text_def)
  have lp: "(if type AND SPECIAL \<noteq> 0 then (if base = 16 then z - 2 else if base = 8 then z - 1 else z) else z)
      = z - int (length (prefix_text base type))" for z
    by (simp add: prefix_text_def)
  have g: "(base < 2 \<or> base > 36) = False" using assms by simp
  have "number num base sz precision type =
     Some (put_number type' (sz - int (length (sign_text num type)) - int (length (prefix_text base type)) - p)
       (sign_text num type) (prefix_text base type) p tmp)"
    unfolding number_def Let_def type'_def[symmetric] e t ls lp number_zero_iff magnitude_eq
      tmp_def[symmetric] p_def[symmetric] g if_False by (rule refl)
  also have "\<dots> = Some (in_field type sz (sign_text num type @ prefix_text base type) (replicate (nat p - length tmp) CHR ''0'' @ rev tmp))"
    by (subst put_number_field[OF _ _ type'_def]) (simp_all add: p_def)
  finally show ?thesis by (simp add: number_digits_def tmp_def[symmetric] p_def)
qed

text \<open>C37. The text of a number. For every base from 2 to 36 \<open>number\<close> writes the sign, the prefix, zeros up to the
  precision and digits that denote the magnitude of the argument (also for the most negative
  one), padded to the field width as the flags say; there are at most 32 digits, so
  \<open>tmp[36]\<close> is never overrun.\<close>

theorem number_correct:
  assumes "2 \<le> base" "base \<le> 36"
  shows "\<exists>ds. number num base sz precision type =
      Some (in_field type sz (sign_text num type @ prefix_text base type)
        (replicate (nat precision - length ds) CHR ''0'' @ ds)) \<and>
    text_value (digits_for type) base ds = magnitude num type \<and> 1 \<le> length ds \<and> length ds \<le> 32"
  using number_layout[OF assms] number_digits_ok[OF assms, where num = num and type = type]
  by (intro exI[of _ "number_digits num base type"]) (simp add: Suc_le_eq)

theorem number_correct_witness:
  "\<exists>ds. number (- 255) 16 8 3 SIGN = Some (in_field SIGN 8 ''-'' (replicate (nat 3 - length ds) CHR ''0'' @ ds)) \<and>
    text_value upper_digits 16 ds = 255"
  using number_correct[of 16 "- 255" 8 3 SIGN]
  by (auto simp: sign_text_def prefix_text_def negative_def digits_for_def magnitude_def)

text \<open>A star is not skipped: \<open>%*d\<close> takes its width argument and then prints the characters
  \<open>%*d\<close> themselves instead of the number.\<close>

theorem star_not_skipped:
  "vsprintf ''%*d'' [VInt w, VInt n] = Some (3, ''%*d'', [])"
  by (simp add: vsprintf_def conversion_def field_width_of_def precision_of_def skip_qualifier_def convert_def is_digit_def)

end
