(* ===== verification/Kernel_Proc.thy ===== *)
theory Kernel_Proc
  imports Kernel_Signal
begin

text \<open>
  Kernel routines that may sleep. Such a routine runs in a \<open>world\<close>: the request functions of the
  block devices (\<open>blk_dev[].request_fn\<close>), what the other tasks and the interrupts do to the
  state while the caller sleeps (one state change for every call of \<open>schedule\<close>, in order), and the bound
  \<open>fuel\<close> on the number of rounds of a loop that C does not bound. An exhausted bound and an
  exhausted list of events are a task that has not returned yet (\<open>Blocked\<close>), so every statement about a
  returned value holds for all bounds.

  \<open>keeps I m\<close> says that \<open>m\<close> preserves \<open>I\<close> in every outcome (panics and faults too), provided
  the events do; the lemmas compose it along the combinators. The locale \<open>sched_blind\<close> is the
  interface a subsystem has to the scheduler: its invariant does not depend on the process table,
  on the current task or on the wait queues, and then sleeping preserves it.
\<close>

record 's world =
  request_fn :: "nat \<Rightarrow> ('s \<Rightarrow> (unit, 's) kres) option"
  events :: "'s interference"
  fuel :: nat

type_synonym ('a, 's) proc = "'s world \<Rightarrow> 's \<Rightarrow> ('a \<times> 's world, 's) kres"

definition retp :: "'a \<Rightarrow> ('a, 's) proc" where
  "retp a = (\<lambda>w s. Ok (a, w) s)"

definition bindp :: "('a, 's) proc \<Rightarrow> ('a \<Rightarrow> ('b, 's) proc) \<Rightarrow> ('b, 's) proc" where
  "bindp m f = (\<lambda>w s. bindk (m w s) (\<lambda>(a, w) s. f a w s))"

definition seqp :: "(unit, 's) proc \<Rightarrow> ('b, 's) proc \<Rightarrow> ('b, 's) proc" where
  "seqp m n = bindp m (\<lambda>_. n)"

definition getp :: "('s \<Rightarrow> 'a) \<Rightarrow> ('a, 's) proc" where
  "getp f = (\<lambda>w s. Ok (f s, w) s)"

definition modp :: "('s \<Rightarrow> 's) \<Rightarrow> (unit, 's) proc" where
  "modp f = (\<lambda>w s. Ok ((), w) (f s))"

text \<open>A routine that does not sleep, and one that returns a value with the state.\<close>

definition liftp :: "('s \<Rightarrow> ('a, 's) kres) \<Rightarrow> ('a, 's) proc" where
  "liftp k = (\<lambda>w s. bindk (k s) (\<lambda>a s. Ok (a, w) s))"

definition callp :: "('s \<Rightarrow> 'a \<times> 's) \<Rightarrow> ('a, 's) proc" where
  "callp f = (\<lambda>w s. case f s of (a, s) \<Rightarrow> Ok (a, w) s)"

definition panicp :: "string \<Rightarrow> ('a, 's) proc" where
  "panicp msg = (\<lambda>w s. Panic msg s)"

definition faultp :: "('a, 's) proc" where
  "faultp = (\<lambda>w s. Fault s)"

definition stuckp :: "('a, 's) proc" where
  "stuckp = (\<lambda>w s. Blocked s)"

definition ifp :: "('s \<Rightarrow> bool) \<Rightarrow> ('a, 's) proc \<Rightarrow> ('a, 's) proc \<Rightarrow> ('a, 's) proc" where
  "ifp c m n = (\<lambda>w s. if c s then m w s else n w s)"

definition fuelp :: "(nat \<Rightarrow> ('a, 's) proc) \<Rightarrow> ('a, 's) proc" where
  "fuelp f = (\<lambda>w s. f (fuel w) w s)"

fun forp :: "'i list \<Rightarrow> ('i \<Rightarrow> (unit, 's) proc) \<Rightarrow> (unit, 's) proc" where
  "forp [] f = retp ()"
| "forp (i # is) f = seqp (f i) (forp is f)"

definition sleepp :: "wait_queue \<Rightarrow> (unit, 'z sched_state_scheme) proc" where
  "sleepp q = (\<lambda>w s. bindk (sleep_on (Some q) (events w) s) (\<lambda>ev s. Ok ((), w\<lparr>events := ev\<rparr>) s))"

definition isleepp :: "wait_queue \<Rightarrow> (unit, 'z sched_state_scheme) proc" where
  "isleepp q = (\<lambda>w s. bindk (interruptible_sleep_on (Some q) (events w) s)
     (\<lambda>ev s. Ok ((), w\<lparr>events := ev\<rparr>) s))"

text \<open>\<open>while (c) sleep_on(&q)\<close>.\<close>

fun wait_loop :: "nat \<Rightarrow> ('z sched_state_scheme \<Rightarrow> bool) \<Rightarrow> wait_queue \<Rightarrow> (unit, 'z sched_state_scheme) proc" where
  "wait_loop 0 c q = stuckp"
| "wait_loop (Suc n) c q = ifp c (seqp (sleepp q) (wait_loop n c q)) (retp ())"

definition wait_while :: "('z sched_state_scheme \<Rightarrow> bool) \<Rightarrow> wait_queue \<Rightarrow> (unit, 'z sched_state_scheme) proc" where
  "wait_while c q = fuelp (\<lambda>n. wait_loop n c q)"

subsection \<open>Preserving an invariant\<close>

definition world_keeps :: "('s \<Rightarrow> bool) \<Rightarrow> 's world \<Rightarrow> bool" where
  "world_keeps I w \<longleftrightarrow>
     (\<forall>e\<in>set (events w). \<forall>s. I s \<longrightarrow> I (e s)) \<and>
     (\<forall>m f. request_fn w m = Some f \<longrightarrow> (\<forall>s. I s \<longrightarrow> I (kstate (f s))))"

definition keeps :: "('s \<Rightarrow> bool) \<Rightarrow> ('a, 's) proc \<Rightarrow> bool" where
  "keeps I m \<longleftrightarrow> (\<forall>w s. world_keeps I w \<longrightarrow> I s \<longrightarrow>
     I (kstate (m w s)) \<and> (\<forall>a w' s'. m w s = Ok (a, w') s' \<longrightarrow> world_keeps I w'))"

named_theorems keeps_intros \<open>introduction rules for \<open>keeps\<close>\<close>

lemma keeps_ret [keeps_intros]: "keeps I (retp a)"
  by (simp add: keeps_def retp_def)

lemma keeps_get [keeps_intros]: "keeps I (getp f)"
  by (simp add: keeps_def getp_def)

lemma keeps_mod: "(\<And>s. I s \<Longrightarrow> I (f s)) \<Longrightarrow> keeps I (modp f)"
  by (simp add: keeps_def modp_def)

lemma keeps_lift: "(\<And>s. I s \<Longrightarrow> I (kstate (k s))) \<Longrightarrow> keeps I (liftp k)"
proof (unfold keeps_def liftp_def, intro allI impI)
  fix w and s :: 'a
  assume k: "\<And>s. I s \<Longrightarrow> I (kstate (k s))" and w: "world_keeps I w" and s: "I s"
  show "I (kstate (bindk (k s) (\<lambda>a s. Ok (a, w) s))) \<and>
    (\<forall>a w' s'. bindk (k s) (\<lambda>a s. Ok (a, w) s) = Ok (a, w') s' \<longrightarrow> world_keeps I w')"
    using k[OF s] w by (cases "k s") auto
qed

lemma keeps_call:
  assumes "\<And>s. I s \<Longrightarrow> I (snd (f s))" shows "keeps I (callp f)"
proof (unfold keeps_def callp_def case_prod_beta, intro allI impI conjI)
  fix w s assume "I s"
  then show "I (kstate (Ok (fst (f s), w) (snd (f s))))" using assms by simp
next
  fix w s a w' s' assume "world_keeps I w" "Ok (fst (f s), w) (snd (f s)) = Ok (a, w') s'"
  then show "world_keeps I w'" by blast
qed

lemma keeps_stop [keeps_intros]: "keeps I (panicp msg)" "keeps I faultp" "keeps I stuckp"
  by (simp_all add: keeps_def panicp_def faultp_def stuckp_def)

lemma keeps_if [keeps_intros]: "keeps I m \<Longrightarrow> keeps I n \<Longrightarrow> keeps I (ifp c m n)"
proof (unfold keeps_def, intro allI impI)
  fix w s
  assume m: "\<forall>w s. world_keeps I w \<longrightarrow> I s \<longrightarrow> I (kstate (m w s)) \<and> (\<forall>a w' s'. m w s = Ok (a, w') s' \<longrightarrow> world_keeps I w')"
    and n: "\<forall>w s. world_keeps I w \<longrightarrow> I s \<longrightarrow> I (kstate (n w s)) \<and> (\<forall>a w' s'. n w s = Ok (a, w') s' \<longrightarrow> world_keeps I w')"
    and w: "world_keeps I w" "I s"
  show "I (kstate (ifp c m n w s)) \<and> (\<forall>a w' s'. ifp c m n w s = Ok (a, w') s' \<longrightarrow> world_keeps I w')"
  proof (cases "c s")
    case True
    then have "ifp c m n w s = m w s" by (simp add: ifp_def)
    then show ?thesis using m w by (simp only:) blast
  next
    case False
    then have "ifp c m n w s = n w s" by (simp add: ifp_def)
    then show ?thesis using n w by (simp only:) blast
  qed
qed

lemma keeps_if_split [keeps_intros]: "(b \<Longrightarrow> keeps I m) \<Longrightarrow> (\<not> b \<Longrightarrow> keeps I n) \<Longrightarrow> keeps I (if b then m else n)"
  by simp

lemma keeps_fuel [keeps_intros]: "(\<And>n. keeps I (f n)) \<Longrightarrow> keeps I (fuelp f)"
  unfolding keeps_def fuelp_def by blast

lemma keeps_bind [keeps_intros]:
  assumes "keeps I m" "\<And>a. keeps I (f a)"
  shows "keeps I (bindp m f)"
proof (unfold keeps_def, intro allI impI)
  fix w s assume w: "world_keeps I w" and s: "I s"
  have m: "I (kstate (m w s))" "\<And>a w' s'. m w s = Ok (a, w') s' \<Longrightarrow> world_keeps I w'"
    using assms(1) w s unfolding keeps_def by blast+
  show "I (kstate (bindp m f w s)) \<and> (\<forall>a w' s'. bindp m f w s = Ok (a, w') s' \<longrightarrow> world_keeps I w')"
  proof (cases "m w s")
    case (Ok r s')
    obtain a w' where r: "r = (a, w')" by fastforce
    have "world_keeps I w'" "I s'" using m Ok r by simp_all
    then have "I (kstate (f a w' s')) \<and> (\<forall>b w'' s''. f a w' s' = Ok (b, w'') s'' \<longrightarrow> world_keeps I w'')"
      using assms(2)[of a] unfolding keeps_def by blast
    then show ?thesis by (simp add: bindp_def Ok r)
  qed (use m in \<open>auto simp: bindp_def\<close>)
qed

lemma keeps_seq [keeps_intros]: "keeps I m \<Longrightarrow> keeps I n \<Longrightarrow> keeps I (seqp m n)"
  unfolding seqp_def by (rule keeps_bind)

lemma keeps_for [keeps_intros]: "(\<And>i. keeps I (f i)) \<Longrightarrow> keeps I (forp is f)"
  by (induction "is") (auto intro: keeps_intros)

lemma keeps_option [keeps_intros]:
  "(x = None \<Longrightarrow> keeps I m) \<Longrightarrow> (\<And>y. x = Some y \<Longrightarrow> keeps I (n y)) \<Longrightarrow> keeps I (case x of None \<Rightarrow> m | Some y \<Rightarrow> n y)"
  by (cases x) auto

text \<open>\<open>yields I m Q\<close>: moreover a returned value satisfies \<open>Q\<close> in the final state.\<close>

definition yields :: "('s \<Rightarrow> bool) \<Rightarrow> ('a, 's) proc \<Rightarrow> ('a \<Rightarrow> 's \<Rightarrow> bool) \<Rightarrow> bool" where
  "yields I m Q \<longleftrightarrow> keeps I m \<and>
     (\<forall>w s a w' s'. world_keeps I w \<longrightarrow> I s \<longrightarrow> m w s = Ok (a, w') s' \<longrightarrow> Q a s')"

named_theorems yields_intros \<open>introduction rules for \<open>yields\<close>\<close>

lemma yields_keeps: "yields I m Q \<Longrightarrow> keeps I m"
  by (simp add: yields_def)

lemma keeps_OkD: "keeps I m \<Longrightarrow> world_keeps I w \<Longrightarrow> I s \<Longrightarrow> m w s = Ok (a, w') s' \<Longrightarrow> world_keeps I w' \<and> I s'"
  unfolding keeps_def by (metis kstate.simps(1))

lemma yields_bind [yields_intros]:
  assumes "keeps I m" "\<And>a. yields I (f a) Q"
  shows "yields I (bindp m f) Q"
  unfolding yields_def
proof (intro conjI allI impI)
  show "keeps I (bindp m f)" using assms by (intro keeps_bind) (auto intro: yields_keeps)
  fix w s b w' s' assume w: "world_keeps I w" "I s" and "bindp m f w s = Ok (b, w') s'"
  then obtain a w1 s1 where m: "m w s = Ok (a, w1) s1" "f a w1 s1 = Ok (b, w') s'" by (auto simp: bindp_def)
  have "world_keeps I w1 \<and> I s1" by (rule keeps_OkD[OF assms(1) w m(1)])
  then show "Q b s'" using assms(2)[of a] m(2) unfolding yields_def by blast
qed

lemma yields_seq [yields_intros]: "keeps I m \<Longrightarrow> yields I n Q \<Longrightarrow> yields I (seqp m n) Q"
  unfolding seqp_def by (rule yields_bind)

lemma yields_bind_value:
  assumes "yields I m P" "\<And>a. (\<exists>s. I s \<and> P a s) \<Longrightarrow> yields I (f a) Q"
  shows "yields I (bindp m f) Q"
  unfolding yields_def
proof (intro conjI allI impI)
  have k: "keeps I m" by (rule yields_keeps[OF assms(1)])
  have r: "world_keeps I w1 \<and> I s1 \<and> yields I (f a) Q" if "world_keeps I w" "I s" "m w s = Ok (a, w1) s1" for w s a w1 s1
    using that keeps_OkD[OF k that] assms(1) assms(2)[of a] unfolding yields_def by blast
  show "keeps I (bindp m f)"
    unfolding keeps_def
  proof (intro allI impI)
    fix w s assume w: "world_keeps I w" "I s"
    then have ks: "I (kstate (m w s))" using k unfolding keeps_def by blast
    show "I (kstate (bindp m f w s)) \<and> (\<forall>a w' s'. bindp m f w s = Ok (a, w') s' \<longrightarrow> world_keeps I w')"
    proof (cases "m w s")
      case (Ok x s1)
      obtain a w1 where x: "x = (a, w1)" by fastforce
      have "world_keeps I w1" "I s1" "keeps I (f a)" using r[OF w, of a w1 s1] Ok x yields_keeps by auto
      then show ?thesis unfolding keeps_def by (simp add: bindp_def Ok x)
    qed (use ks in \<open>simp_all add: bindp_def\<close>)
  qed
  fix w s b w' s' assume w: "world_keeps I w" "I s" and "bindp m f w s = Ok (b, w') s'"
  then obtain a w1 s1 where m: "m w s = Ok (a, w1) s1" "f a w1 s1 = Ok (b, w') s'" by (auto simp: bindp_def)
  then show "Q b s'" using r[OF w m(1)] unfolding yields_def by blast
qed

lemma yields_bind_found:
  assumes "yields I m (\<lambda>r s. \<forall>x. r = Some x \<longrightarrow> Q x s)" "yields I n Q"
  shows "yields I (bindp m (\<lambda>r. case r of Some x \<Rightarrow> retp x | None \<Rightarrow> n)) Q"
  unfolding yields_def
proof (intro conjI allI impI)
  show "keeps I (bindp m (\<lambda>r. case r of Some x \<Rightarrow> retp x | None \<Rightarrow> n))"
    using assms by (intro keeps_bind keeps_option keeps_ret) (auto intro: yields_keeps)
  fix w s b w' s' assume w: "world_keeps I w" "I s" and "bindp m (\<lambda>r. case r of Some x \<Rightarrow> retp x | None \<Rightarrow> n) w s = Ok (b, w') s'"
  then obtain r w1 s1 where m: "m w s = Ok (r, w1) s1" "(case r of Some x \<Rightarrow> retp x | None \<Rightarrow> n) w1 s1 = Ok (b, w') s'"
    by (auto simp: bindp_def)
  have "world_keeps I w1 \<and> I s1" by (rule keeps_OkD[OF yields_keeps[OF assms(1)] w m(1)])
  moreover have "\<forall>x. r = Some x \<longrightarrow> Q x s1" using assms(1) w m(1) unfolding yields_def by blast
  ultimately show "Q b s'" using m(2) assms(2) unfolding yields_def by (cases r) (auto simp: retp_def)
qed

lemma yields_get: "yields I (getp f) (\<lambda>a s. a = f s)"
  by (simp add: yields_def keeps_get) (simp add: getp_def)

lemma yields_if [yields_intros]: "yields I m Q \<Longrightarrow> yields I n Q \<Longrightarrow> yields I (ifp c m n) Q"
  unfolding yields_def by (metis (mono_tags) ifp_def keeps_if)

lemma yields_if_split [yields_intros]: "(b \<Longrightarrow> yields I m Q) \<Longrightarrow> (\<not> b \<Longrightarrow> yields I n Q) \<Longrightarrow> yields I (if b then m else n) Q"
  by simp

lemma yields_if_ret: "(\<And>s. I s \<Longrightarrow> c s \<Longrightarrow> Q x s) \<Longrightarrow> yields I n Q \<Longrightarrow> yields I (ifp c (retp x) n) Q"
  unfolding yields_def by (auto simp: ifp_def retp_def intro: keeps_intros[unfolded retp_def ifp_def] split: if_splits)

lemma yields_fuel [yields_intros]: "(\<And>n. yields I (f n) Q) \<Longrightarrow> yields I (fuelp f) Q"
proof -
  assume y: "\<And>n. yields I (f n) Q"
  have "keeps I (fuelp f)" using y by (intro keeps_fuel yields_keeps)
  then show ?thesis using y unfolding yields_def fuelp_def by blast
qed

lemma yields_stop [yields_intros]: "yields I (panicp msg) Q" "yields I faultp Q" "yields I stuckp Q"
  by (simp_all add: yields_def keeps_stop) (simp_all add: panicp_def faultp_def stuckp_def)

lemma yields_guard:
  assumes "\<And>s. I s \<Longrightarrow> \<not> c s \<Longrightarrow> \<exists>s'. k s = Ok () s' \<and> I s' \<and> Q x s'" "yields I m Q"
  shows "yields I (ifp c m (seqp (liftp k) (retp x))) Q"
proof -
  have e: "\<exists>s'. seqp (liftp k) (retp x) w s = Ok (x, w) s' \<and> I s' \<and> Q x s'" if "I s" "\<not> c s" for w s
    using assms(1)[OF that] by (auto simp: seqp_def bindp_def liftp_def retp_def)
  show ?thesis unfolding yields_def keeps_def
  proof (intro conjI allI impI)
    fix w s assume w: "world_keeps I w" "I s"
    have m: "I (kstate (m w s)) \<and> (\<forall>a w' s'. m w s = Ok (a, w') s' \<longrightarrow> world_keeps I w' \<and> Q a s')"
      using assms(2) w unfolding yields_def keeps_def by blast
    show "I (kstate (ifp c m (seqp (liftp k) (retp x)) w s))"
      using m e[of s w] w(2) by (cases "c s") (auto simp: ifp_def)
    show "world_keeps I w'" if "ifp c m (seqp (liftp k) (retp x)) w s = Ok (a, w') s'" for a w' s'
      using that m e[of s w] w by (cases "c s") (auto simp: ifp_def)
    show "Q a s'" if "ifp c m (seqp (liftp k) (retp x)) w s = Ok (a, w') s'" for a w' s'
      using that m e[of s w] w by (cases "c s") (auto simp: ifp_def)
  qed
qed

text \<open>The invariant of a subsystem that does not look at the scheduler's data.\<close>

locale sched_blind =
  fixes I :: "'z sched_state_scheme \<Rightarrow> bool"
  assumes blind_task: "I (s\<lparr>task := t\<rparr>) = I s"
    and blind_current: "I (s\<lparr>current := c\<rparr>) = I s"
    and blind_waitq: "I (s\<lparr>waitq := q\<rparr>) = I s"
begin

lemma upd_task_inv [simp]: "I (upd_task i f s) = I s"
  by (simp add: upd_task_def blind_task)

lemma wake_signalled_inv [simp]: "I (wake_signalled n s) = I s"
  by (induction n arbitrary: s) simp_all

lemma recharge_inv [simp]: "I (recharge n s) = I s"
  by (induction n arbitrary: s) simp_all

lemma schedule_loop_inv:
  assumes "schedule_loop s = Some r" shows "I (snd r) = I s"
  by (rule schedule_loop.raw_induct[OF _ assms, of "\<lambda>s r. I (snd r) = I s"])
    (force split: prod.splits if_splits)

lemma schedule_inv: "I (kstate (schedule s)) = I s"
proof (cases "schedule_loop (wake_signalled (NR_TASKS - 1) s)")
  case (Some r)
  then have "I (snd r) = I s" using schedule_loop_inv[OF Some] by simp
  then show ?thesis using Some
    by (auto simp: schedule_def Let_def switch_to_def blind_current split: prod.splits)
qed (simp add: schedule_def Let_def)

lemma schedule_OkD: "schedule s = Ok u s' \<Longrightarrow> I s' = I s"
  using schedule_inv[of s] by simp

lemma resume_inv: "(\<And>s. I s \<Longrightarrow> I (e s)) \<Longrightarrow> I s \<Longrightarrow> I (kstate (resume me e s))"
  by (simp add: resume_def Let_def blind_current)

lemma reschedule_inv:
  assumes "\<forall>e\<in>set env. \<forall>s. I s \<longrightarrow> I (e s)" "I s"
  shows "I (kstate (reschedule env s)) \<and>
    (\<forall>env' s'. reschedule env s = Ok env' s' \<longrightarrow> set env' \<subseteq> set env)"
proof (cases env)
  case (Cons e ev)
  show ?thesis
  proof (cases "schedule s")
    case (Ok u t)
    have "I (kstate (resume (current s) e t))" using assms Cons schedule_inv[of s] Ok by (intro resume_inv) auto
    then show ?thesis using Cons Ok by (cases "resume (current s) e t") auto
  qed (use assms schedule_inv[of s] Cons in auto)
qed (use assms schedule_inv[of s] in \<open>cases "schedule s"; auto\<close>)

lemma sleep_enter_inv [simp]: "I (sleep_enter q t s) = I s"
  by (simp add: sleep_enter_def blind_waitq)

lemma sleep_leave_inv [simp]: "I (sleep_leave t s) = I s"
  by (simp add: sleep_leave_def split: option.split)

lemma wake_up_inv [simp]: "I (wake_up q s) = I s"
  by (simp add: wake_up_def blind_waitq split: option.split)

lemma sleep_on_inv:
  assumes "\<forall>e\<in>set env. \<forall>s. I s \<longrightarrow> I (e s)" "I s"
  shows "I (kstate (sleep_on (Some q) env s)) \<and>
    (\<forall>env' s'. sleep_on (Some q) env s = Ok env' s' \<longrightarrow> set env' \<subseteq> set env)"
  using reschedule_inv[OF assms(1), of "sleep_enter q (current s) s"] assms(2)
  by (cases "reschedule env (sleep_enter q (current s) s)") (auto simp: sleep_on_def Let_def)

lemma world_keeps_subset:
  "world_keeps I w \<Longrightarrow> set ev \<subseteq> set (events w) \<Longrightarrow> world_keeps I (w\<lparr>events := ev\<rparr>)"
  by (auto simp: world_keeps_def)

lemma keeps_sleep [keeps_intros]: "keeps I (sleepp q)"
proof (unfold keeps_def sleepp_def, intro allI impI)
  fix w s assume w: "world_keeps I w" and s: "I s"
  have e: "\<forall>e\<in>set (events w). \<forall>s. I s \<longrightarrow> I (e s)" using w by (simp add: world_keeps_def)
  show "I (kstate (bindk (sleep_on (Some q) (events w) s) (\<lambda>ev s. Ok ((), w\<lparr>events := ev\<rparr>) s))) \<and>
    (\<forall>a w' s'. bindk (sleep_on (Some q) (events w) s) (\<lambda>ev s. Ok ((), w\<lparr>events := ev\<rparr>) s) = Ok (a, w') s' \<longrightarrow> world_keeps I w')"
    using sleep_on_inv[OF e s, of q] world_keeps_subset[OF w]
    by (cases "sleep_on (Some q) (events w) s") auto
qed

lemma keeps_wait_loop: "keeps I (wait_loop n c q)"
  by (induction n) (auto intro: keeps_intros keeps_sleep)

lemma keeps_wait [keeps_intros]: "keeps I (wait_while c q)"
  unfolding wait_while_def by (intro keeps_intros keeps_wait_loop)

end

end
