(* ===== verification/Fs_Types.thy ===== *)
theory Fs_Types
  imports Kernel_Proc
begin

text \<open>
  The data of the file system and of the block devices: include/linux/fs.h, kernel/blk_drv/blk.h and the
  static data of fs/buffer.c, fs/inode.c, fs/super.c, fs/file_table.c and kernel/blk_drv/*.c.

  Buffer heads, inodes, files, super blocks and requests are named by their index; a null pointer
  is \<open>None\<close>. The block \<open>b_data\<close> points to belongs to its buffer head for good, so it is a
  field of it. The wait queues \<open>b_wait\<close>, \<open>i_wait\<close>, \<open>s_wait\<close>, \<open>buffer_wait\<close> and
  \<open>wait_for_request\<close> are \<open>WBuffer\<close>, \<open>WInode\<close>, \<open>WSuper\<close>, \<open>WBufferWait\<close> and \<open>WRequest\<close> of \<open>waitq\<close>.
  The request functions of \<open>blk_dev\<close> are in the \<open>world\<close>, its queues in \<open>current_request\<close>.
\<close>

abbreviation (input) READ :: int where "READ \<equiv> 0"
abbreviation (input) WRITE :: int where "WRITE \<equiv> 1"
abbreviation (input) READA :: int where "READA \<equiv> 2"
abbreviation (input) WRITEA :: int where "WRITEA \<equiv> 3"
abbreviation (input) ROOT_INO :: int where "ROOT_INO \<equiv> 1"
abbreviation (input) I_MAP_SLOTS :: nat where "I_MAP_SLOTS \<equiv> 8"
abbreviation (input) Z_MAP_SLOTS :: nat where "Z_MAP_SLOTS \<equiv> 8"
abbreviation (input) SUPER_MAGIC :: u16 where "SUPER_MAGIC \<equiv> 0x137F"
abbreviation (input) NR_INODE :: nat where "NR_INODE \<equiv> 32"
abbreviation (input) NR_FILE :: nat where "NR_FILE \<equiv> 64"
abbreviation (input) NR_SUPER :: nat where "NR_SUPER \<equiv> 8"
abbreviation (input) NR_HASH :: nat where "NR_HASH \<equiv> 307"
abbreviation (input) BLOCK_SIZE :: nat where "BLOCK_SIZE \<equiv> 1024"
abbreviation (input) INODES_PER_BLOCK :: nat where "INODES_PER_BLOCK \<equiv> 32"
abbreviation (input) NR_REQUEST :: nat where "NR_REQUEST \<equiv> 32"
abbreviation (input) NR_BLK_DEV :: nat where "NR_BLK_DEV \<equiv> 7"

type_synonym block = "nat \<Rightarrow> u8"

definition MAJOR :: "u32 \<Rightarrow> nat" where
  "MAJOR a = unat (drop_bit 8 a)"

definition MINOR :: "u32 \<Rightarrow> nat" where
  "MINOR a = unat (a AND 0xff)"

record buffer_head =
  b_data :: block
  b_blocknr :: u32
  b_dev :: u16
  b_uptodate :: u8
  b_dirt :: u8
  b_count :: u8
  b_lock :: u8
  b_prev :: "nat option"
  b_next :: "nat option"
  b_prev_free :: "nat option"
  b_next_free :: "nat option"

record m_inode =
  i_mode :: u16
  i_uid :: u16
  i_size :: u32
  i_mtime :: u32
  i_gid :: u8
  i_nlinks :: u8
  i_zone :: "nat \<Rightarrow> u16"
  i_atime :: u32
  i_ctime :: u32
  i_dev :: u16
  i_num :: u16
  i_count :: u16
  i_lock :: u8
  i_dirt :: u8
  i_pipe :: u8
  i_mount :: u8
  i_seek :: u8
  i_update :: u8

record file_struct =
  f_mode :: u16
  f_flags :: u16
  f_count :: u16
  f_inode :: "nat option"
  f_pos :: int

record super_block =
  s_ninodes :: u16
  s_nzones :: u16
  s_imap_blocks :: u16
  s_zmap_blocks :: u16
  s_firstdatazone :: u16
  s_log_zone_size :: u16
  s_max_size :: u32
  s_magic :: u16
  s_imap :: "nat \<Rightarrow> nat option"
  s_zmap :: "nat \<Rightarrow> nat option"
  s_dev :: u16
  s_isup :: "nat option"
  s_imount :: "nat option"
  s_time :: u32
  s_lock :: u8
  s_rd_only :: u8
  s_dirt :: u8

text \<open>The pointer \<open>buffer\<close> of a request is the buffer \<open>rq_buffer\<close> and the offset \<open>rq_offset\<close> into its data.\<close>

record request =
  rq_dev :: int
  rq_cmd :: int
  rq_errors :: int
  rq_sector :: u32
  rq_nr_sectors :: u32
  rq_buffer :: nat
  rq_offset :: nat
  rq_bh :: "nat option"
  rq_next :: "nat option"

record fs_state = sched_state +
  start_buffer :: u32
  bufs :: "nat \<Rightarrow> buffer_head"
  hash_table :: "nat \<Rightarrow> nat option"
  free_list :: "nat option"
  NR_BUFFERS :: nat
  requests_tab :: "nat \<Rightarrow> request"
  current_request :: "nat \<Rightarrow> nat option"
  rd_start :: u32
  rd_mem :: "nat \<Rightarrow> u8"
  rd_length :: int
  inode_table :: "nat \<Rightarrow> m_inode"
  last_inode :: nat
  file_table :: "nat \<Rightarrow> file_struct"
  super_blocks :: "nat \<Rightarrow> super_block"
  ROOT_DEV :: u16

definition upd_buf ::
    "nat \<Rightarrow> (buffer_head \<Rightarrow> buffer_head) \<Rightarrow> 'z fs_state_scheme \<Rightarrow> 'z fs_state_scheme" where
  "upd_buf b f s = s\<lparr>bufs := (bufs s)(b := f (bufs s b))\<rparr>"

definition upd_inode ::
    "nat \<Rightarrow> (m_inode \<Rightarrow> m_inode) \<Rightarrow> 'z fs_state_scheme \<Rightarrow> 'z fs_state_scheme" where
  "upd_inode i f s = s\<lparr>inode_table := (inode_table s)(i := f (inode_table s i))\<rparr>"

definition upd_file ::
    "nat \<Rightarrow> (file_struct \<Rightarrow> file_struct) \<Rightarrow> 'z fs_state_scheme \<Rightarrow> 'z fs_state_scheme" where
  "upd_file i f s = s\<lparr>file_table := (file_table s)(i := f (file_table s i))\<rparr>"

definition upd_super ::
    "nat \<Rightarrow> (super_block \<Rightarrow> super_block) \<Rightarrow> 'z fs_state_scheme \<Rightarrow> 'z fs_state_scheme" where
  "upd_super i f s = s\<lparr>super_blocks := (super_blocks s)(i := f (super_blocks s i))\<rparr>"

definition upd_req ::
    "nat \<Rightarrow> (request \<Rightarrow> request) \<Rightarrow> 'z fs_state_scheme \<Rightarrow> 'z fs_state_scheme" where
  "upd_req i f s = s\<lparr>requests_tab := (requests_tab s)(i := f (requests_tab s i))\<rparr>"

text \<open>The static data before the initialisation routines run.\<close>

definition no_buffer :: buffer_head where
  "no_buffer = \<lparr>b_data = (\<lambda>_. 0), b_blocknr = 0, b_dev = 0, b_uptodate = 0, b_dirt = 0, b_count = 0,
     b_lock = 0, b_prev = None, b_next = None, b_prev_free = None, b_next_free = None\<rparr>"

definition no_inode :: m_inode where
  "no_inode = \<lparr>i_mode = 0, i_uid = 0, i_size = 0, i_mtime = 0, i_gid = 0, i_nlinks = 0,
     i_zone = (\<lambda>_. 0), i_atime = 0, i_ctime = 0, i_dev = 0, i_num = 0, i_count = 0, i_lock = 0,
     i_dirt = 0, i_pipe = 0, i_mount = 0, i_seek = 0, i_update = 0\<rparr>"

definition no_super :: super_block where
  "no_super = \<lparr>s_ninodes = 0, s_nzones = 0, s_imap_blocks = 0, s_zmap_blocks = 0,
     s_firstdatazone = 0, s_log_zone_size = 0, s_max_size = 0, s_magic = 0,
     s_imap = (\<lambda>_. None), s_zmap = (\<lambda>_. None), s_dev = 0, s_isup = None, s_imount = None, s_time = 0,
     s_lock = 0, s_rd_only = 0, s_dirt = 0\<rparr>"

definition fs_data :: "sched_state \<Rightarrow> fs_state" where
  "fs_data s = sched_state.extend s (fs_state.fields 0x20000 (\<lambda>_. no_buffer) (\<lambda>_. None) None 0
     (\<lambda>_. \<lparr>rq_dev = 0, rq_cmd = 0, rq_errors = 0, rq_sector = 0, rq_nr_sectors = 0, rq_buffer = 0,
           rq_offset = 0, rq_bh = None, rq_next = None\<rparr>)
     (\<lambda>_. None) 0 (\<lambda>_. 0) 0 (\<lambda>_. no_inode) 0
     (\<lambda>_. \<lparr>f_mode = 0, f_flags = 0, f_count = 0, f_inode = None, f_pos = 0\<rparr>) (\<lambda>_. no_super) 0)"

text \<open>Little-endian access to the bytes of a block.\<close>

definition get_u16 :: "block \<Rightarrow> nat \<Rightarrow> u16" where
  "get_u16 d a = ucast (d a) OR push_bit 8 (ucast (d (a + 1)))"

definition get_u32 :: "block \<Rightarrow> nat \<Rightarrow> u32" where
  "get_u32 d a = ucast (get_u16 d a) OR push_bit 16 (ucast (get_u16 d (a + 2)))"

definition put_u16 :: "nat \<Rightarrow> u16 \<Rightarrow> block \<Rightarrow> block" where
  "put_u16 a v d = d(a := ucast v, a + 1 := ucast (drop_bit 8 v))"

definition put_u32 :: "nat \<Rightarrow> u32 \<Rightarrow> block \<Rightarrow> block" where
  "put_u32 a v d = put_u16 (a + 2) (ucast (drop_bit 16 v)) (put_u16 a (ucast v) d)"

text \<open>File types, include/sys/stat.h.\<close>

definition S_ISREG :: "u16 \<Rightarrow> bool" where "S_ISREG m \<longleftrightarrow> m AND 0xf000 = 0x8000"
definition S_ISDIR :: "u16 \<Rightarrow> bool" where "S_ISDIR m \<longleftrightarrow> m AND 0xf000 = 0x4000"
definition S_ISCHR :: "u16 \<Rightarrow> bool" where "S_ISCHR m \<longleftrightarrow> m AND 0xf000 = 0x2000"
definition S_ISBLK :: "u16 \<Rightarrow> bool" where "S_ISBLK m \<longleftrightarrow> m AND 0xf000 = 0x6000"
definition S_ISFIFO :: "u16 \<Rightarrow> bool" where "S_ISFIFO m \<longleftrightarrow> m AND 0xf000 = 0x1000"

lemma get_put_u16: "get_u16 (put_u16 a v d) a = v"
proof -
  have "get_u16 (put_u16 a v d) a = (ucast (ucast v :: u8) :: u16) OR push_bit 8 (ucast (ucast (drop_bit 8 v) :: u8))"
    by (simp add: get_u16_def put_u16_def)
  also have "\<dots> = v"
    by (rule bit_word_eqI) (auto simp: bit_simps)
  finally show ?thesis .
qed

lemma get_put_u16_other: "b + 1 < a \<or> a + 1 < b \<Longrightarrow> get_u16 (put_u16 a v d) b = get_u16 d b"
  by (auto simp: get_u16_def put_u16_def)

lemma get_put_u32: "get_u32 (put_u32 a v d) a = v"
proof -
  have "get_u32 (put_u32 a v d) a = (ucast (ucast v :: u16) :: u32) OR push_bit 16 (ucast (ucast (drop_bit 16 v) :: u16))"
    by (simp add: get_u32_def put_u32_def get_put_u16 get_put_u16_other)
  also have "\<dots> = v"
    by (rule bit_word_eqI) (auto simp: bit_simps)
  finally show ?thesis .
qed

end
