(* ===== verification/Blk_Request.thy ===== *)
theory Blk_Request
  imports Fs_Types
begin

text \<open>
  Requests to block devices: src/kernel/blk_drv/ll_rw_blk.c, the shared code of blk.h and the RAM disk
  of ramdisk.c. The queue of a device is a list of entries of \<open>request[NR_REQUEST]\<close> linked by
  \<open>next\<close>; a loop along it is bounded by \<open>NR_REQUEST\<close> rounds, which is the number of entries.
\<close>

definition lock_buffer :: "nat \<Rightarrow> (unit, 'z fs_state_scheme) proc" where
  "lock_buffer bh =
     seqp (wait_while (\<lambda>s. b_lock (bufs s bh) \<noteq> 0) (WBuffer bh))
       (modp (upd_buf bh (\<lambda>b. b\<lparr>b_lock := 1\<rparr>)))"

definition unlock_buffer :: "string \<Rightarrow> nat \<Rightarrow> 'z fs_state_scheme \<Rightarrow> 'z fs_state_scheme" where
  "unlock_buffer msg bh s =
     (let s = (if b_lock (bufs s bh) = 0 then printk msg s else s)
      in wake_up (Some (WBuffer bh)) (upd_buf bh (\<lambda>b. b\<lparr>b_lock := 0\<rparr>) s))"

definition IN_ORDER :: "request \<Rightarrow> request \<Rightarrow> bool" where
  "IN_ORDER r1 r2 \<longleftrightarrow>
     rq_cmd r1 < rq_cmd r2 \<or> rq_cmd r1 = rq_cmd r2 \<and>
     (rq_dev r1 < rq_dev r2 \<or> rq_dev r1 = rq_dev r2 \<and> rq_sector r1 < rq_sector r2)"

text \<open>The entry after which \<open>add_request\<close> links the request \<open>req\<close>.\<close>

fun queue_pos :: "nat \<Rightarrow> (nat \<Rightarrow> request) \<Rightarrow> request \<Rightarrow> nat \<Rightarrow> nat option" where
  "queue_pos 0 rt req tmp = None"
| "queue_pos (Suc n) rt req tmp =
     (case rq_next (rt tmp) of
        None \<Rightarrow> Some tmp
      | Some nx \<Rightarrow>
          if (IN_ORDER (rt tmp) req \<or> \<not> IN_ORDER (rt tmp) (rt nx)) \<and> IN_ORDER req (rt nx)
          then Some tmp else queue_pos n rt req nx)"

definition add_request :: "nat \<Rightarrow> nat \<Rightarrow> (unit, 'z fs_state_scheme) proc" where
  "add_request major req = (\<lambda>w s.
     let s = upd_req req (\<lambda>r. r\<lparr>rq_next := None\<rparr>) s;
         s = (case rq_bh (requests_tab s req) of
                None \<Rightarrow> s | Some bh \<Rightarrow> upd_buf bh (\<lambda>b. b\<lparr>b_dirt := 0\<rparr>) s) in
     case current_request s major of
       None \<Rightarrow>
         let s = s\<lparr>current_request := (current_request s)(major := Some req)\<rparr> in
         (case request_fn w major of
            None \<Rightarrow> Fault s
          | Some f \<Rightarrow> liftp f w s)
     | Some tmp \<Rightarrow>
         (case queue_pos NR_REQUEST (requests_tab s) (requests_tab s req) tmp of
            None \<Rightarrow> Blocked s
          | Some tmp \<Rightarrow>
              Ok ((), w) (upd_req tmp (\<lambda>r. r\<lparr>rq_next := Some req\<rparr>)
                (upd_req req (\<lambda>r. r\<lparr>rq_next := rq_next (requests_tab s tmp)\<rparr>) s))))"

text \<open>\<open>while (--req >= request)\<close> from the entry below \<open>n\<close>.\<close>

fun free_request :: "nat \<Rightarrow> (nat \<Rightarrow> request) \<Rightarrow> nat option" where
  "free_request 0 rt = None"
| "free_request (Suc n) rt = (if rq_dev (rt n) < 0 then Some n else free_request n rt)"

definition fill_request :: "nat \<Rightarrow> int \<Rightarrow> nat \<Rightarrow> 'z fs_state_scheme \<Rightarrow> 'z fs_state_scheme" where
  "fill_request req rw bh s =
     upd_req req (\<lambda>_. \<lparr>rq_dev = uint (b_dev (bufs s bh)), rq_cmd = rw, rq_errors = 0,
       rq_sector = push_bit 1 (b_blocknr (bufs s bh)), rq_nr_sectors = 2, rq_buffer = bh, rq_offset = 0,
       rq_bh = Some bh, rq_next = None\<rparr>)
       (s\<lparr>waitq := (waitq s)(WWaiting req := None)\<rparr>)"

fun request_loop :: "nat \<Rightarrow> nat \<Rightarrow> int \<Rightarrow> bool \<Rightarrow> nat \<Rightarrow> (unit, 'z fs_state_scheme) proc" where
  "request_loop 0 major rw rw_ahead bh = stuckp"
| "request_loop (Suc n) major rw rw_ahead bh =
     bindp (getp (\<lambda>s. free_request (if rw = READ then NR_REQUEST else NR_REQUEST * 2 div 3) (requests_tab s)))
       (\<lambda>r. case r of
          None \<Rightarrow>
            if rw_ahead then modp (unlock_buffer ''ll_rw_block.c: buffer not locked'' bh)
            else seqp (sleepp WRequest) (request_loop n major rw rw_ahead bh)
        | Some req \<Rightarrow> seqp (modp (fill_request req rw bh)) (add_request major req))"

definition make_request :: "nat \<Rightarrow> int \<Rightarrow> nat \<Rightarrow> (unit, 'z fs_state_scheme) proc" where
  "make_request major rw bh =
     (let rw_ahead = (rw = READA \<or> rw = WRITEA);
          rw' = (if rw_ahead then (if rw = READA then READ else WRITE) else rw) in
      ifp (\<lambda>s. rw_ahead \<and> b_lock (bufs s bh) \<noteq> 0) (retp ())
        (if rw' \<noteq> READ \<and> rw' \<noteq> WRITE then panicp ''Bad block dev command, must be R/W/RA/WA''
         else
           seqp (lock_buffer bh)
             (ifp (\<lambda>s. rw' = WRITE \<and> b_dirt (bufs s bh) = 0 \<or> rw' = READ \<and> b_uptodate (bufs s bh) \<noteq> 0)
                (modp (unlock_buffer ''ll_rw_block.c: buffer not locked'' bh))
                (fuelp (\<lambda>n. request_loop n major rw' rw_ahead bh)))))"

definition ll_rw_block :: "int \<Rightarrow> nat \<Rightarrow> (unit, 'z fs_state_scheme) proc" where
  "ll_rw_block rw bh = (\<lambda>w s.
     let major = MAJOR (ucast (b_dev (bufs s bh))) in
     if major \<ge> NR_BLK_DEV \<or> request_fn w major = None
     then Ok ((), w) (printk ''Trying to read nonexistent block-device'' s)
     else make_request major rw bh w s)"

definition blk_dev_init :: "'z fs_state_scheme \<Rightarrow> 'z fs_state_scheme" where
  "blk_dev_init s = s\<lparr>requests_tab := (\<lambda>i. if i < NR_REQUEST
     then (requests_tab s i)\<lparr>rq_dev := - 1, rq_next := None\<rparr> else requests_tab s i)\<rparr>"

text \<open>The interface of the block layer to a subsystem: an invariant that looks neither at the scheduler nor at
  the requests nor at the lock and dirty flags of buffers is preserved by \<open>ll_rw_block\<close>.\<close>

locale blk_blind = sched_blind I for I :: "'z fs_state_scheme \<Rightarrow> bool" +
  assumes blind_lock: "I (upd_buf b (\<lambda>h. h\<lparr>b_lock := v\<rparr>) s) = I s"
    and blind_dirt: "I (upd_buf b (\<lambda>h. h\<lparr>b_dirt := v\<rparr>) s) = I s"
    and blind_req: "I (upd_req r f s) = I s"
    and blind_queue: "I (s\<lparr>current_request := c\<rparr>) = I s"
    and blind_printk: "I (printk msg s) = I s"
begin

lemma unlock_buffer_inv [simp]: "I (unlock_buffer msg b s) = I s"
  by (simp add: unlock_buffer_def Let_def blind_lock blind_printk)

lemma fill_request_inv [simp]: "I (fill_request r rw b s) = I s"
  by (simp add: fill_request_def blind_req blind_waitq)

lemma keeps_add_request: "keeps I (add_request major req)"
proof (unfold keeps_def, intro allI impI)
  fix w s assume w: "world_keeps I w" "I s"
  define s1 where "s1 = (let s = upd_req req (\<lambda>r. r\<lparr>rq_next := None\<rparr>) s in
     case rq_bh (requests_tab s req) of None \<Rightarrow> s | Some bh \<Rightarrow> upd_buf bh (\<lambda>b. b\<lparr>b_dirt := 0\<rparr>) s)"
  have s1: "I s1" using w(2) by (simp add: s1_def blind_req blind_dirt Let_def split: option.split)
  have f: "I (kstate (f t))" if "request_fn w major = Some f" "I t" for f t
    using w(1) that unfolding world_keeps_def by blast
  have e: "add_request major req w s = (case current_request s1 major of
       None \<Rightarrow> (let s = s1\<lparr>current_request := (current_request s1)(major := Some req)\<rparr> in
         case request_fn w major of None \<Rightarrow> Fault s | Some f \<Rightarrow> liftp f w s)
     | Some tmp \<Rightarrow> (case queue_pos NR_REQUEST (requests_tab s1) (requests_tab s1 req) tmp of
            None \<Rightarrow> Blocked s1
          | Some tmp \<Rightarrow> Ok ((), w) (upd_req tmp (\<lambda>r. r\<lparr>rq_next := Some req\<rparr>)
                (upd_req req (\<lambda>r. r\<lparr>rq_next := rq_next (requests_tab s1 tmp)\<rparr>) s1))))"
    unfolding add_request_def s1_def Let_def by (rule refl)
  have l: "I (kstate (liftp g w t)) \<and> (\<forall>a w' s'. liftp g w t = Ok (a, w') s' \<longrightarrow> world_keeps I w')"
    if "request_fn w major = Some g" "I t" for g t
    using f[OF that] w(1) by (cases "g t") (auto simp: liftp_def)
  show "I (kstate (add_request major req w s)) \<and> (\<forall>a w' s'. add_request major req w s = Ok (a, w') s' \<longrightarrow> world_keeps I w')"
  proof (cases "current_request s1 major")
    case None
    define t where "t = s1\<lparr>current_request := (current_request s1)(major := Some req)\<rparr>"
    have t: "I t" using s1 by (simp add: t_def blind_queue)
    show ?thesis
    proof (cases "request_fn w major")
      case n: None
      then show ?thesis using None t by (simp add: e t_def[symmetric])
    next
      case (Some g)
      then have "add_request major req w s = liftp g w t" using None by (simp add: e t_def)
      then show ?thesis using l[OF Some t] by metis
    qed
  next
    case (Some tmp)
    then show ?thesis using s1 w by (auto simp: e blind_req split: option.splits)
  qed
qed

lemma keeps_lock_buffer: "keeps I (lock_buffer b)"
  unfolding lock_buffer_def by (intro keeps_seq keeps_wait keeps_mod) (simp add: blind_lock)

lemma keeps_request_loop: "keeps I (request_loop n major rw ahead b)"
  by (induction n) (auto intro!: keeps_bind keeps_get keeps_option keeps_if_split keeps_mod keeps_seq keeps_sleep keeps_stop keeps_add_request)

lemma keeps_ll_rw_block [keeps_intros]: "keeps I (ll_rw_block rw b)"
proof -
  have m: "keeps I (make_request major rw b)" for major
    unfolding make_request_def Let_def
    by (intro keeps_if keeps_ret keeps_if_split keeps_stop keeps_seq keeps_lock_buffer keeps_mod keeps_fuel keeps_request_loop) simp
  show ?thesis
    unfolding keeps_def ll_rw_block_def Let_def
  proof (intro allI impI)
    fix w s assume w: "world_keeps I w" "I s"
    let ?mj = "MAJOR (ucast (b_dev (bufs s b)))"
    have r: "I (kstate (make_request ?mj rw b w s)) \<and> (\<forall>a w' s'. make_request ?mj rw b w s = Ok (a, w') s' \<longrightarrow> world_keeps I w')"
      using m[of ?mj] w unfolding keeps_def by blast
    then show "I (kstate (if NR_BLK_DEV \<le> ?mj \<or> request_fn w ?mj = None
             then Ok ((), w) (printk ''Trying to read nonexistent block-device'' s) else make_request ?mj rw b w s)) \<and>
      (\<forall>a w' s'. (if NR_BLK_DEV \<le> ?mj \<or> request_fn w ?mj = None
             then Ok ((), w) (printk ''Trying to read nonexistent block-device'' s) else make_request ?mj rw b w s) = Ok (a, w') s' \<longrightarrow> world_keeps I w')"
      using w blind_printk by (cases "NR_BLK_DEV \<le> ?mj \<or> request_fn w ?mj = None") (simp_all only: if_True if_False, auto)
  qed
qed

end

subsection \<open>Completion\<close>

text \<open>\<open>end_request\<close> of the driver with number \<open>major\<close>, name \<open>name\<close> and \<open>DEVICE_OFF\<close> routine \<open>off\<close>.\<close>

definition end_request ::
    "string \<Rightarrow> (int \<Rightarrow> 'z fs_state_scheme \<Rightarrow> 'z fs_state_scheme) \<Rightarrow> nat \<Rightarrow> u8 \<Rightarrow> 'z fs_state_scheme
     \<Rightarrow> (unit, 'z fs_state_scheme) kres" where
  "end_request name off major uptodate s =
     (case current_request s major of
        None \<Rightarrow> Fault s
      | Some r \<Rightarrow>
          let s = off (rq_dev (requests_tab s r)) s;
              s = (case rq_bh (requests_tab s r) of
                     None \<Rightarrow> s
                   | Some bh \<Rightarrow> unlock_buffer (name @ '': free buffer being unlocked'') bh
                                 (upd_buf bh (\<lambda>b. b\<lparr>b_uptodate := uptodate\<rparr>) s));
              s = (if uptodate = 0 then printk ''dev %04x, block %d'' (printk (name @ '' I/O error'') s) else s);
              s = wake_up (Some WRequest) (wake_up (Some (WWaiting r)) s);
              s = upd_req r (\<lambda>q. q\<lparr>rq_dev := - 1\<rparr>) s
          in Ok () (s\<lparr>current_request := (current_request s)(major := rq_next (requests_tab s r))\<rparr>))"

text \<open>\<open>INIT_REQUEST\<close>: the request to work on, or none.\<close>

definition init_request ::
    "string \<Rightarrow> nat \<Rightarrow> 'z fs_state_scheme \<Rightarrow> (request option, 'z fs_state_scheme) kres" where
  "init_request name major s =
     (case current_request s major of
        None \<Rightarrow> Ok None s
      | Some r \<Rightarrow>
          let q = requests_tab s r in
          if MAJOR (word_of_int (rq_dev q)) \<noteq> major then Panic (name @ '': request list destroyed'') s
          else (case rq_bh q of
                  None \<Rightarrow> Ok (Some q) s
                | Some bh \<Rightarrow> if b_lock (bufs s bh) = 0 then Panic (name @ '': block not locked'') s
                             else Ok (Some q) s))"

subsection \<open>The RAM disk\<close>

text \<open>\<open>rd_mem\<close> is the memory from \<open>rd_start\<close> on; the loop handles the queue, at most
  \<open>NR_REQUEST\<close> entries and the final test. The end of a transfer is compared as an address, which wraps: a request behind the disk can pass,
  and its copy then uses memory outside the disk.\<close>

fun rd_loop :: "nat \<Rightarrow> 'z fs_state_scheme \<Rightarrow> (unit, 'z fs_state_scheme) kres" where
  "rd_loop 0 s = Blocked s"
| "rd_loop (Suc n) s =
     bindk (init_request ''ramdisk'' 1 s) (\<lambda>c s.
       case c of
         None \<Rightarrow> Ok () s
       | Some q \<Rightarrow>
           let a = unat (push_bit 9 (rq_sector q));
               len = unat (push_bit 9 (rq_nr_sectors q));
               done = end_request ''ramdisk'' (\<lambda>_ s. s) 1 in
           if MINOR (word_of_int (rq_dev q)) \<noteq> 1 \<or>
              rd_start s + push_bit 9 (rq_sector q) + push_bit 9 (rq_nr_sectors q) > rd_start s + word_of_int (rd_length s)
           then bindk (done 0 s) (\<lambda>_ s. rd_loop n s)
           else if rq_cmd q \<in> {READ, WRITE} \<and> int (a + len) > rd_length s then Fault s
           else if rq_cmd q = WRITE
           then bindk (done 1 (s\<lparr>rd_mem := (\<lambda>i. if a \<le> i \<and> i < a + len
                    then b_data (bufs s (rq_buffer q)) (rq_offset q + (i - a)) else rd_mem s i)\<rparr>)) (\<lambda>_ s. rd_loop n s)
           else if rq_cmd q = READ
           then bindk (done 1 (upd_buf (rq_buffer q) (\<lambda>b. b\<lparr>b_data := (\<lambda>i. if rq_offset q \<le> i \<and> i < rq_offset q + len
                    then rd_mem s (a + (i - rq_offset q)) else b_data b i)\<rparr>) s)) (\<lambda>_ s. rd_loop n s)
           else Panic ''unknown ramdisk-command'' s)"

definition do_rd_request :: "'z fs_state_scheme \<Rightarrow> (unit, 'z fs_state_scheme) kres" where
  "do_rd_request s = rd_loop (NR_REQUEST + 1) s"

definition rd_init :: "int \<Rightarrow> int \<Rightarrow> 'z fs_state_scheme \<Rightarrow> int \<times> 'z fs_state_scheme" where
  "rd_init mem_start len s = (len, s\<lparr>rd_start := word_of_int mem_start, rd_length := len, rd_mem := (\<lambda>i. if int i < len then 0 else rd_mem s i)\<rparr>)"

subsection \<open>The elevator\<close>

text \<open>A queue as a list of entries, the place \<open>add_request\<close> puts a new one, and the number of times the
  order of a queue drops back: one drop is one turn of the elevator.\<close>

primrec rchain :: "(nat \<Rightarrow> request) \<Rightarrow> nat option \<Rightarrow> nat list \<Rightarrow> bool" where
  "rchain rt p [] \<longleftrightarrow> p = None"
| "rchain rt p (n # ns) \<longleftrightarrow> p = Some n \<and> rchain rt (rq_next (rt n)) ns"

fun place :: "(nat \<Rightarrow> request) \<Rightarrow> nat \<Rightarrow> nat list \<Rightarrow> nat list" where
  "place rt x [] = [x]"
| "place rt x [t] = [t, x]"
| "place rt x (t # u # ns) =
     (if (IN_ORDER (rt t) (rt x) \<or> \<not> IN_ORDER (rt t) (rt u)) \<and> IN_ORDER (rt x) (rt u)
      then t # x # u # ns else t # place rt x (u # ns))"

fun drops :: "(nat \<Rightarrow> request) \<Rightarrow> nat list \<Rightarrow> nat" where
  "drops rt (t # u # ns) = (if IN_ORDER (rt u) (rt t) then 1 else 0) + drops rt (u # ns)"
| "drops rt _ = 0"

definition ordered :: "(nat \<Rightarrow> request) \<Rightarrow> nat set \<Rightarrow> bool" where
  "ordered rt A \<longleftrightarrow> (\<forall>x\<in>A. \<forall>y\<in>A. x \<noteq> y \<longrightarrow> IN_ORDER (rt x) (rt y) \<or> IN_ORDER (rt y) (rt x))"

lemma IN_ORDER_trans: "IN_ORDER a b \<Longrightarrow> IN_ORDER b c \<Longrightarrow> IN_ORDER a c"
  by (auto simp: IN_ORDER_def)

lemma IN_ORDER_asym: "IN_ORDER a b \<Longrightarrow> \<not> IN_ORDER b a"
  by (auto simp: IN_ORDER_def)

lemma set_place [simp]: "set (place rt x ns) = insert x (set ns)"
  by (induction rt x ns rule: place.induct) auto

lemma place_Cons: "\<exists>ms. place rt x (t # ns) = t # ms"
  by (cases ns) auto

lemma ordered_Cons: "ordered rt (insert x (set (t # ns))) \<Longrightarrow> ordered rt (insert x (set ns))"
  by (auto simp: ordered_def)

lemma drops_after:
  assumes "drops rt (t # ns) = 0" "IN_ORDER (rt t) (rt x)" "ordered rt (insert x (set (t # ns)))" "x \<notin> set ns"
  shows "drops rt (place rt x (t # ns)) = 0"
  using assms
proof (induction ns arbitrary: t)
  case (Cons u ns)
  have d: "drops rt (u # ns) = 0" "\<not> IN_ORDER (rt u) (rt t)" using Cons.prems(1) by (auto split: if_splits)
  show ?case
  proof (cases "IN_ORDER (rt x) (rt u)")
    case True
    then show ?thesis using d Cons.prems(2) by (auto dest: IN_ORDER_asym)
  next
    case False
    have "IN_ORDER (rt u) (rt x)" using False Cons.prems(3,4) by (auto simp: ordered_def)
    then have "drops rt (place rt x (u # ns)) = 0"
      using Cons.IH[OF d(1)] ordered_Cons[OF Cons.prems(3)] Cons.prems(4) by simp
    then show ?thesis using False d(2) place_Cons[of rt x u ns] by auto
  qed
qed (auto dest: IN_ORDER_asym)

lemma drops_place:
  assumes "drops rt (t # ns) \<le> 1" "ordered rt (insert x (set (t # ns)))" "distinct (x # t # ns)"
  shows "drops rt (place rt x (t # ns)) \<le> 1"
  using assms
proof (induction ns arbitrary: t)
  case (Cons u ns)
  obtain ms where ms: "place rt x (u # ns) = u # ms" using place_Cons by blast
  show ?case
  proof (cases "(IN_ORDER (rt t) (rt x) \<or> \<not> IN_ORDER (rt t) (rt u)) \<and> IN_ORDER (rt x) (rt u)")
    case True
    moreover have "IN_ORDER (rt t) (rt x) \<Longrightarrow> \<not> IN_ORDER (rt u) (rt t)"
      using True IN_ORDER_trans IN_ORDER_asym by blast
    moreover have "\<not> IN_ORDER (rt t) (rt u) \<Longrightarrow> IN_ORDER (rt u) (rt t)"
      using Cons.prems(2,3) by (auto simp: ordered_def)
    ultimately show ?thesis using Cons.prems(1) by (auto dest: IN_ORDER_asym split: if_splits)
  next
    case False
    have pl: "place rt x (t # u # ns) = t # u # ms" by (simp only: place.simps(3) False if_False ms)
    show ?thesis
    proof (cases "IN_ORDER (rt u) (rt t)")
      case True
      then have d: "drops rt (u # ns) = 0" using Cons.prems(1) by simp
      have "\<not> IN_ORDER (rt x) (rt u)" using False True IN_ORDER_asym by blast
      then have "IN_ORDER (rt u) (rt x)" using Cons.prems(2,3) by (auto simp: ordered_def)
      then have "drops rt (place rt x (u # ns)) = 0"
        using drops_after[OF d] ordered_Cons[OF Cons.prems(2)] Cons.prems(3) by simp
      then show ?thesis using True by (simp add: pl ms del: place.simps)
    next
      case nd: False
      then have "drops rt (place rt x (u # ns)) \<le> 1"
        using Cons.IH[of u] Cons.prems(1,3) ordered_Cons[OF Cons.prems(2)] by simp
      then show ?thesis using nd by (simp add: pl ms del: place.simps)
    qed
  qed
qed auto

text \<open>The linked list: what \<open>queue_pos\<close> and the two stores of \<open>add_request\<close> do.\<close>

definition link_after :: "nat \<Rightarrow> nat \<Rightarrow> (nat \<Rightarrow> request) \<Rightarrow> (nat \<Rightarrow> request)" where
  "link_after t x rt =
     (let rt' = rt(x := (rt x)\<lparr>rq_next := rq_next (rt t)\<rparr>) in rt'(t := (rt' t)\<lparr>rq_next := Some x\<rparr>))"

lemma rchain_other: "x \<notin> set ns \<Longrightarrow> rchain (rt(x := r)) p ns = rchain rt p ns"
  by (induction ns arbitrary: p) auto

lemma rchain_link:
  "t \<notin> set ns \<Longrightarrow> x \<notin> set ns \<Longrightarrow> rchain (link_after t x rt) p ns = rchain rt p ns"
  by (simp add: link_after_def Let_def rchain_other)

lemma link_after_next:
  "t \<noteq> x \<Longrightarrow> rq_next (link_after t x rt t) = Some x" "t \<noteq> x \<Longrightarrow> rq_next (link_after t x rt x) = rq_next (rt t)"
  "v \<noteq> t \<Longrightarrow> v \<noteq> x \<Longrightarrow> link_after t x rt v = rt v"
  by (simp_all add: link_after_def Let_def)

lemma queue_pos_in: "queue_pos n rt r t = Some v \<Longrightarrow> rchain rt (Some t) ns \<Longrightarrow> v \<in> set ns"
proof (induction n arbitrary: t ns)
  case (Suc n)
  obtain ms where ns: "ns = t # ms" "rchain rt (rq_next (rt t)) ms" using Suc.prems(2) by (cases ns) auto
  show ?case using Suc.prems(1) Suc.IH ns by (auto split: option.splits if_splits)
qed simp

lemma queue_pos_place:
  assumes "rchain rt (Some t) (t # ns)" "distinct (x # t # ns)" "length ns < n"
  shows "\<exists>u. queue_pos n rt (rt x) t = Some u \<and> rchain (link_after u x rt) (Some t) (place rt x (t # ns))"
  using assms
proof (induction ns arbitrary: t n)
  case Nil
  then show ?case by (cases n) (auto simp: link_after_def Let_def)
next
  case (Cons u ns)
  obtain m where m: "n = Suc m" using Cons.prems(3) by (cases n) auto
  show ?case
  proof (cases "(IN_ORDER (rt t) (rt x) \<or> \<not> IN_ORDER (rt t) (rt u)) \<and> IN_ORDER (rt x) (rt u)")
    case True
    have "rchain (link_after t x rt) (Some u) (u # ns) = rchain rt (Some u) (u # ns)"
      using Cons.prems(2) by (intro rchain_link) auto
    then show ?thesis using Cons.prems(1,2) True m by (auto simp: link_after_next)
  next
    case False
    obtain v where v: "queue_pos m rt (rt x) u = Some v" "rchain (link_after v x rt) (Some u) (place rt x (u # ns))"
      using Cons.IH[of u m] Cons.prems m by auto
    have "v \<in> set (u # ns)" using queue_pos_in[OF v(1), of "u # ns"] Cons.prems(1) by simp
    then have "rq_next (link_after v x rt t) = rq_next (rt t)"
      using Cons.prems(2) by (subst link_after_next(3)) auto
    moreover have "place rt x (t # u # ns) = t # place rt x (u # ns)"
      by (simp only: place.simps(3) False if_False)
    ultimately show ?thesis using v False Cons.prems(1) m by auto
  qed
qed

definition same_pos :: "(nat \<Rightarrow> request) \<Rightarrow> (nat \<Rightarrow> request) \<Rightarrow> bool" where
  "same_pos rt rt' \<longleftrightarrow> (\<forall>i. rq_cmd (rt' i) = rq_cmd (rt i) \<and> rq_dev (rt' i) = rq_dev (rt i) \<and> rq_sector (rt' i) = rq_sector (rt i))"

lemma same_pos_order: "same_pos rt rt' \<Longrightarrow> IN_ORDER (rt' i) (rt' j) = IN_ORDER (rt i) (rt j)"
  by (simp add: same_pos_def IN_ORDER_def)

lemma same_pos_drops: "same_pos rt rt' \<Longrightarrow> drops rt' ns = drops rt ns"
  by (induction rt ns rule: drops.induct) (simp_all add: same_pos_order)

lemma same_pos_ordered: "same_pos rt rt' \<Longrightarrow> ordered rt' A = ordered rt A"
  by (simp add: ordered_def same_pos_order)

lemma same_pos_link: "same_pos rt (link_after t x rt)"
  by (simp add: same_pos_def link_after_def Let_def)

text \<open>C10. The elevator. When a request with a position of its own joins a busy queue whose
  positions drop back at most once, it is linked in behind the request being served, no entry is lost, and the
  positions still drop back at most once: the disk arm sweeps at most twice.\<close>

theorem elevator_sweep:
  assumes "current_request s major = Some t" "rchain (requests_tab s) (Some t) (t # ns)"
    "distinct (req # t # ns)" "length ns < NR_REQUEST"
    "ordered (requests_tab s) (insert req (set (t # ns)))" "drops (requests_tab s) (t # ns) \<le> 1"
  shows "\<exists>s' ms. add_request major req w s = Ok ((), w) s' \<and>
    rchain (requests_tab s') (current_request s' major) (t # ms) \<and>
    set (t # ms) = insert req (set (t # ns)) \<and> drops (requests_tab s') (t # ms) \<le> 1"
proof -
  define rt where "rt = (requests_tab s)(req := (requests_tab s req)\<lparr>rq_next := None\<rparr>)"
  define s1 where "s1 = (case rq_bh (requests_tab (upd_req req (\<lambda>r. r\<lparr>rq_next := None\<rparr>) s) req) of
      None \<Rightarrow> upd_req req (\<lambda>r. r\<lparr>rq_next := None\<rparr>) s
    | Some bh \<Rightarrow> upd_buf bh (\<lambda>b. b\<lparr>b_dirt := 0\<rparr>) (upd_req req (\<lambda>r. r\<lparr>rq_next := None\<rparr>) s))"
  have s1: "requests_tab s1 = rt" "current_request s1 = current_request s"
    by (simp_all add: s1_def rt_def upd_req_def upd_buf_def split: option.split)
  have sp: "same_pos (requests_tab s) rt" by (simp add: same_pos_def rt_def)
  have ch: "rchain rt (Some t) (t # ns)" using assms(2,3) unfolding rt_def by (subst rchain_other) auto
  obtain u where u: "queue_pos NR_REQUEST rt (rt req) t = Some u" "rchain (link_after u req rt) (Some t) (place rt req (t # ns))"
    using queue_pos_place[OF ch assms(3,4)] by blast
  define s' where "s' = upd_req u (\<lambda>r. r\<lparr>rq_next := Some req\<rparr>) (upd_req req (\<lambda>r. r\<lparr>rq_next := rq_next (requests_tab s1 u)\<rparr>) s1)"
  have s': "requests_tab s' = link_after u req rt" "current_request s' = current_request s"
    by (simp_all add: s'_def upd_req_def s1 link_after_def Let_def)
  have "add_request major req w s = Ok ((), w) s'"
    unfolding add_request_def Let_def s1_def[symmetric] s1 assms(1) using u(1) by (simp add: s'_def s1)
  moreover obtain ms where ms: "place rt req (t # ns) = t # ms" using place_Cons by blast
  moreover have "drops rt (place rt req (t # ns)) \<le> 1"
    using assms(3,5,6) by (intro drops_place) (simp_all only: same_pos_drops[OF sp] same_pos_ordered[OF sp])
  moreover have "set (t # ms) = insert req (set (t # ns))" using set_place[of rt req "t # ns"] ms by simp
  ultimately show ?thesis using u(2) s' assms(1)
    by (intro exI[of _ s'] exI[of _ ms]) (simp add: same_pos_drops[OF same_pos_link])
qed

subsection \<open>The RAM disk holds what is written to it\<close>

text \<open>An idle RAM disk, a buffer that names one of its blocks, and its first byte.\<close>

definition rd_addr :: "buffer_head \<Rightarrow> nat" where
  "rd_addr h = 1024 * unat (b_blocknr h)"

definition rd_ready :: "nat \<Rightarrow> 'z fs_state_scheme world \<Rightarrow> 'z fs_state_scheme \<Rightarrow> bool" where
  "rd_ready b w s \<longleftrightarrow> request_fn w 1 = Some do_rd_request \<and> fuel w \<noteq> 0 \<and> current_request s 1 = None \<and>
     rq_dev (requests_tab s 0) < 0 \<and> b_dev (bufs s b) = 0x101 \<and> b_lock (bufs s b) = 0 \<and>
     unat (b_blocknr (bufs s b)) < 2 ^ 20 \<and> int (rd_addr (bufs s b) + 1024) \<le> rd_length s \<and>
     int (unat (rd_start s)) + rd_length s < 2 ^ 32"

lemma free_request_ex: "rq_dev (rt 0) < 0 \<Longrightarrow> 0 < n \<Longrightarrow> \<exists>r. free_request n rt = Some r \<and> r < n"
  by (induction n) (auto simp: less_Suc_eq split: if_splits)

lemma sector_addr:
  assumes "unat (v :: u32) < 2 ^ 20"
  shows "unat (push_bit 9 (push_bit 1 v)) = 1024 * unat v"
proof -
  have "push_bit 9 (push_bit 1 v) = v * 1024" by (simp add: push_bit_eq_mult)
  moreover have "unat v * unat (1024 :: u32) < 2 ^ LENGTH(32)" using assms by simp
  ultimately show ?thesis using unat_mult_lem[of v 1024] by simp
qed

text \<open>The state after one transfer, and after the completion of request \<open>r\<close> for buffer \<open>b\<close>.\<close>

definition rd_transfer :: "int \<Rightarrow> nat \<Rightarrow> 'z fs_state_scheme \<Rightarrow> 'z fs_state_scheme" where
  "rd_transfer rw b s =
     (let a = rd_addr (bufs s b) in
      if rw = WRITE then s\<lparr>rd_mem := (\<lambda>i. if a \<le> i \<and> i < a + 1024 then b_data (bufs s b) (i - a) else rd_mem s i)\<rparr>
      else upd_buf b (\<lambda>h. h\<lparr>b_data := (\<lambda>i. if i < 1024 then rd_mem s (a + i) else b_data h i)\<rparr>) s)"

definition rd_complete :: "nat \<Rightarrow> nat \<Rightarrow> 'z fs_state_scheme \<Rightarrow> 'z fs_state_scheme" where
  "rd_complete r b s =
     (let s = wake_up (Some WRequest) (wake_up (Some (WWaiting r)) (wake_up (Some (WBuffer b))
                (upd_buf b (\<lambda>h. h\<lparr>b_uptodate := 1, b_lock := 0\<rparr>) s)))
      in (upd_req r (\<lambda>q. q\<lparr>rq_dev := - 1\<rparr>) s)\<lparr>current_request := (current_request s)(1 := None)\<rparr>)"

lemma wake_up_fs [simp]:
  "bufs (wake_up q s) = bufs s" "requests_tab (wake_up q s) = requests_tab s"
  "current_request (wake_up q s) = current_request s" "rd_mem (wake_up q s) = rd_mem s" "rd_length (wake_up q s) = rd_length s"
  "rd_start (wake_up q s) = rd_start s"
  by (simp_all add: wake_up_def upd_task_def split: option.split)

text \<open>In an address space the disk fits into, the test of a request inside the disk succeeds.\<close>

lemma rd_in_range:
  assumes "int (unat (rs :: u32)) + len < 2 ^ 32" "int (unat a + unat b) \<le> len"
  shows "rs + a + b \<le> rs + word_of_int len"
proof -
  have len: "0 \<le> len" "len < 2 ^ 32" using assms by linarith+
  have l: "unat (word_of_int len :: u32) = nat len" unfolding unat_eq_nat_uint using len by (subst word_of_int_inverse[OF refl]) simp_all
  have "int (unat rs + nat len) < int (2 ^ 32)" using assms(1) len by simp
  then have rl: "unat rs + nat len < 2 ^ 32" by (rule of_nat_less_iff[THEN iffD1])
  moreover have le: "unat a + unat b \<le> nat len" using assms(2) by linarith
  ultimately have small: "unat a + unat b < 2 ^ 32" "unat rs + (unat a + unat b) < 2 ^ 32" by linarith+
  have ab: "unat (a + b) = unat a + unat b" by (rule unat_add_lem[THEN iffD1]) (use small in simp)
  have "unat (rs + (a + b)) = unat rs + unat (a + b)" by (rule unat_add_lem[THEN iffD1]) (use small ab in simp)
  moreover have "unat (rs + word_of_int len) = unat rs + nat len" unfolding l[symmetric] by (rule unat_add_lem[THEN iffD1]) (use rl l in simp)
  ultimately show ?thesis using le ab by (simp only: word_le_nat_alt add.assoc)
qed

lemma rd_loop_one:
  assumes "current_request t 1 = Some r" "rq_dev (requests_tab t r) = 0x101" "rq_bh (requests_tab t r) = Some b"
    "rq_buffer (requests_tab t r) = b \<and> rq_offset (requests_tab t r) = 0" "rq_next (requests_tab t r) = None" "rq_cmd (requests_tab t r) = rw"
    "rw = READ \<or> rw = WRITE" "b_lock (bufs t b) \<noteq> 0" "rq_nr_sectors (requests_tab t r) = 2"
    "rq_sector (requests_tab t r) = push_bit 1 (b_blocknr (bufs t b))" "unat (b_blocknr (bufs t b)) < 2 ^ 20"
    "int (rd_addr (bufs t b) + 1024) \<le> rd_length t" "int (unat (rd_start t)) + rd_length t < 2 ^ 32"
  shows "rd_loop (Suc (Suc n)) t = Ok () (rd_complete r b (rd_transfer rw b t))"
proof -
  let ?q = "requests_tab t r" and ?t = "rd_transfer rw b t"
  have i: "init_request ''ramdisk'' 1 t = Ok (Some ?q) t"
    using assms(1-3,8) by (simp add: init_request_def MAJOR_def)
  have ad: "unat (push_bit 9 (rq_sector ?q)) = rd_addr (bufs t b)" "unat (push_bit 9 (rq_nr_sectors ?q)) = 1024"
    using sector_addr[OF assms(11)] by (simp_all add: assms(9,10) rd_addr_def)
  have mn: "MINOR (word_of_int (rq_dev ?q)) = 1" by (simp add: assms(2) MINOR_def)
  have pass: "\<not> rd_start t + push_bit 9 (rq_sector ?q) + push_bit 9 (rq_nr_sectors ?q) > rd_start t + word_of_int (rd_length t)"
  proof -
    have "int (unat (push_bit 9 (rq_sector ?q)) + unat (push_bit 9 (rq_nr_sectors ?q))) \<le> rd_length t" unfolding ad by (rule assms(12))
    then show ?thesis unfolding not_less by (rule rd_in_range[OF assms(13)])
  qed
  have tr: "current_request ?t = current_request t" "requests_tab ?t = requests_tab t" "b_lock (bufs ?t b) \<noteq> 0"
    using assms(8) by (simp_all add: rd_transfer_def upd_buf_def Let_def)
  have e: "end_request ''ramdisk'' (\<lambda>_ s. s) 1 1 ?t = Ok () (rd_complete r b ?t)"
    using tr assms(1,3,5) by (simp add: end_request_def Let_def unlock_buffer_def rd_complete_def upd_buf_def upd_req_def)
  have l: "rd_loop (Suc n) (rd_complete r b ?t) = Ok () (rd_complete r b ?t)"
    by (simp add: init_request_def rd_complete_def Let_def)
  show ?thesis
    using assms(6,7,12) e l
    by (subst rd_loop.simps) (auto simp: i ad mn pass rd_transfer_def Let_def assms(4) simp del: rd_loop.simps One_nat_def cong: if_cong)
qed

text \<open>A transfer for an idle RAM disk is complete when \<open>ll_rw_block\<close> returns.\<close>

definition rd_queued :: "int \<Rightarrow> nat \<Rightarrow> nat \<Rightarrow> 'z fs_state_scheme \<Rightarrow> 'z fs_state_scheme" where
  "rd_queued rw r b s =
     (let s = upd_buf b (\<lambda>h. h\<lparr>b_dirt := 0\<rparr>) (upd_req r (\<lambda>q. q\<lparr>rq_next := None\<rparr>)
                (fill_request r rw b (upd_buf b (\<lambda>h. h\<lparr>b_lock := 1\<rparr>) s)))
      in s\<lparr>current_request := (current_request s)(1 := Some r)\<rparr>)"

lemma rd_served:
  assumes "rd_ready b w s" "rw = READ \<or> rw = WRITE"
    "if rw = WRITE then b_dirt (bufs s b) \<noteq> 0 else b_uptodate (bufs s b) = 0"
  shows "\<exists>r<32. ll_rw_block rw b w s = Ok ((), w) (rd_complete r b (rd_transfer rw b (rd_queued rw r b s)))"
proof -
  obtain n where n: "fuel w = Suc n" using assms(1) by (cases "fuel w") (auto simp: rd_ready_def)
  define lim :: nat where "lim = (if rw = READ then NR_REQUEST else NR_REQUEST * 2 div 3)"
  note a = assms(1)[unfolded rd_ready_def]
  have lim: "0 < lim" "lim \<le> 32" by (simp_all add: lim_def)
  have "rq_dev (requests_tab s 0) < 0" using a by simp
  from free_request_ex[of "requests_tab s" lim, OF this lim(1)] lim(2) obtain r where r: "free_request lim (requests_tab s) = Some r" "r < 32" by auto
  define s1 where "s1 = upd_buf b (\<lambda>h. h\<lparr>b_lock := 1\<rparr>) s"
  have s1: "requests_tab s1 = requests_tab s" "b_dirt (bufs s1 b) = b_dirt (bufs s b)" "b_uptodate (bufs s1 b) = b_uptodate (bufs s b)"
    by (simp_all add: s1_def upd_buf_def)
  have lock: "lock_buffer b w s = Ok ((), w) s1"
    using a n by (simp add: lock_buffer_def wait_while_def fuelp_def seqp_def bindp_def ifp_def retp_def modp_def s1_def)
  let ?t = "rd_queued rw r b s"
  have q: "current_request ?t 1 = Some r" "rq_dev (requests_tab ?t r) = 0x101" "rq_bh (requests_tab ?t r) = Some b"
    "rq_buffer (requests_tab ?t r) = b \<and> rq_offset (requests_tab ?t r) = 0" "rq_next (requests_tab ?t r) = None" "rq_cmd (requests_tab ?t r) = rw"
    "b_lock (bufs ?t b) \<noteq> 0" "rq_nr_sectors (requests_tab ?t r) = 2" "rd_length ?t = rd_length s \<and> rd_start ?t = rd_start s"
    "rq_sector (requests_tab ?t r) = push_bit 1 (b_blocknr (bufs ?t b))" "b_blocknr (bufs ?t b) = b_blocknr (bufs s b)"
    using a by (simp_all add: rd_queued_def Let_def fill_request_def upd_buf_def upd_req_def)
  have dr: "do_rd_request ?t = Ok () (rd_complete r b (rd_transfer rw b ?t))"
  proof -
    have "NR_REQUEST + 1 = Suc (Suc 31)" by simp
    then show ?thesis unfolding do_rd_request_def
      using rd_loop_one[OF q(1-6) assms(2) q(7,8,10), of 31] a q(9,11) by (simp add: rd_addr_def del: rd_loop.simps)
  qed
  have add: "add_request 1 r w (fill_request r rw b s1) = Ok ((), w) (rd_complete r b (rd_transfer rw b ?t))"
    using a dr by (simp add: add_request_def Let_def fill_request_def upd_req_def upd_buf_def s1_def rd_queued_def liftp_def
      del: One_nat_def)
  have "request_loop (Suc n) 1 rw False b w s1 = Ok ((), w) (rd_complete r b (rd_transfer rw b ?t))"
    using r(1) add by (simp add: bindp_def seqp_def getp_def modp_def s1 lim_def del: One_nat_def)
  then have "make_request 1 rw b w s = Ok ((), w) (rd_complete r b (rd_transfer rw b ?t))"
    using assms(2,3) lock s1 n
    by (auto simp: make_request_def Let_def ifp_def seqp_def bindp_def fuelp_def simp del: One_nat_def request_loop.simps)
  moreover have "MAJOR (ucast (b_dev (bufs s b))) = 1" using a by (simp add: MAJOR_def)
  ultimately have "ll_rw_block rw b w s = Ok ((), w) (rd_complete r b (rd_transfer rw b ?t))"
    using a by (simp add: ll_rw_block_def Let_def)
  then show ?thesis using r(2) by blast
qed

lemmas rd_state_defs = rd_complete_def rd_transfer_def rd_queued_def fill_request_def upd_buf_def upd_req_def Let_def

lemma rd_written:
  assumes "t = rd_complete r b (rd_transfer WRITE b (rd_queued WRITE r b s))"
  shows "bufs t = (bufs s)(b := (bufs s b)\<lparr>b_uptodate := 1, b_dirt := 0, b_lock := 0\<rparr>)"
    "rd_mem t = (\<lambda>i. if rd_addr (bufs s b) \<le> i \<and> i < rd_addr (bufs s b) + 1024
        then b_data (bufs s b) (i - rd_addr (bufs s b)) else rd_mem s i)"
    "rd_length t = rd_length s \<and> rd_start t = rd_start s" "current_request t 1 = None"
    "rq_dev (requests_tab s 0) < 0 \<Longrightarrow> rq_dev (requests_tab t 0) < 0"
  using assms by (simp_all add: rd_state_defs rd_addr_def fun_eq_iff)

lemma rd_read:
  assumes "t = rd_complete r b (rd_transfer READ b (rd_queued READ r b s))"
  shows "bufs t = (bufs s)(b := (bufs s b)\<lparr>b_uptodate := 1, b_dirt := 0, b_lock := 0,
      b_data := (\<lambda>i. if i < 1024 then rd_mem s (rd_addr (bufs s b) + i) else b_data (bufs s b) i)\<rparr>)"
  using assms by (simp add: rd_state_defs rd_addr_def fun_eq_iff)

text \<open>C31. A block written to the RAM disk is read back: with the disk idle, \<open>ll_rw_block(WRITE)\<close> on a dirty buffer and
  then \<open>ll_rw_block(READ)\<close> on another buffer of the same block both return with the buffer unlocked and up
  to date, and the second buffer holds the bytes of the first.\<close>

theorem ramdisk_roundtrip:
  assumes "rd_ready b w s" "rd_ready c w s" "b \<noteq> c" "b_blocknr (bufs s c) = b_blocknr (bufs s b)"
    "b_dirt (bufs s b) \<noteq> 0" "b_uptodate (bufs s c) = 0"
  shows "\<exists>s1 s2. ll_rw_block WRITE b w s = Ok ((), w) s1 \<and> ll_rw_block READ c w s1 = Ok ((), w) s2 \<and>
    b_dirt (bufs s1 b) = 0 \<and> b_lock (bufs s1 b) = 0 \<and> b_uptodate (bufs s2 c) = 1 \<and> b_lock (bufs s2 c) = 0 \<and>
    (\<forall>i<1024. b_data (bufs s2 c) i = b_data (bufs s b) i)"
proof -
  obtain r where w: "ll_rw_block WRITE b w s = Ok ((), w) (rd_complete r b (rd_transfer WRITE b (rd_queued WRITE r b s)))"
    using rd_served[OF assms(1), of WRITE] assms(5) by auto
  define s1 where "s1 = rd_complete r b (rd_transfer WRITE b (rd_queued WRITE r b s))"
  note s1 = rd_written[OF s1_def]
  have c: "rd_ready c w s1" "b_uptodate (bufs s1 c) = 0"
    using assms s1 unfolding rd_ready_def by auto
  obtain q where q: "ll_rw_block READ c w s1 = Ok ((), w) (rd_complete q c (rd_transfer READ c (rd_queued READ q c s1)))"
    using rd_served[OF c(1), of READ] c(2) by auto
  have ad: "rd_addr (bufs s1 c) = rd_addr (bufs s b)" using assms(3,4) s1(1) by (simp add: rd_addr_def)
  have "bufs (rd_complete q c (rd_transfer READ c (rd_queued READ q c s1))) c = (bufs s1 c)\<lparr>b_uptodate := 1, b_dirt := 0,
      b_lock := 0, b_data := (\<lambda>i. if i < 1024 then rd_mem s1 (rd_addr (bufs s b) + i) else b_data (bufs s1 c) i)\<rparr>"
    by (simp add: rd_read[OF refl] ad cong: if_cong)
  then show ?thesis
    using w q s1(1,2) by (intro exI[of _ s1] exI[of _ "rd_complete q c (rd_transfer READ c (rd_queued READ q c s1))"])
      (simp add: s1_def[symmetric])
qed

definition demo_fs :: fs_state where
  "demo_fs = fs_data demo_sched"

definition demo_world :: "fs_state world" where
  "demo_world = \<lparr>request_fn = (\<lambda>_. None)(1 := Some do_rd_request), events = [], fuel = 3\<rparr>"

theorem ramdisk_roundtrip_witness:
  "\<exists>s :: fs_state. \<exists>s1 s2. ll_rw_block WRITE 0 demo_world s = Ok ((), demo_world) s1 \<and>
     ll_rw_block READ 1 demo_world s1 = Ok ((), demo_world) s2 \<and> b_data (bufs s2 1) 5 = 77"
proof -
  let ?h = "no_buffer\<lparr>b_dev := 0x101, b_blocknr := 9\<rparr>"
  let ?s = "blk_dev_init demo_fs\<lparr>rd_length := 65536, bufs := (\<lambda>_. ?h)(0 := ?h\<lparr>b_dirt := 1, b_data := (\<lambda>_. 77)\<rparr>)\<rparr>"
  have r: "rd_ready 0 demo_world ?s" "rd_ready 1 demo_world ?s"
    by (simp_all add: rd_ready_def demo_world_def demo_fs_def fs_data_def sched_state.extend_def blk_dev_init_def no_buffer_def rd_addr_def fs_state.fields_def)
  obtain s1 s2 where "ll_rw_block WRITE 0 demo_world ?s = Ok ((), demo_world) s1"
    "ll_rw_block READ 1 demo_world s1 = Ok ((), demo_world) s2" "\<forall>i<1024. b_data (bufs s2 1) i = b_data (bufs ?s 0) i"
    using ramdisk_roundtrip[OF r] by (auto simp: no_buffer_def)
  then show ?thesis by (intro exI[of _ ?s] exI[of _ s1] exI[of _ s2]) simp
qed

theorem elevator_sweep_witness:
  "\<exists>s :: fs_state. \<exists>s' ms. add_request 3 1 demo_world s = Ok ((), demo_world) s' \<and>
     rchain (requests_tab s') (current_request s' 3) (0 # ms) \<and> set (0 # ms) = {0, 1} \<and> drops (requests_tab s') (0 # ms) \<le> 1"
proof -
  let ?q = "\<lparr>rq_dev = 0x301, rq_cmd = READ, rq_errors = 0, rq_sector = 8, rq_nr_sectors = 2, rq_buffer = 0, rq_offset = 0, rq_bh = None, rq_next = None\<rparr>"
  let ?s = "demo_fs\<lparr>current_request := [3 \<mapsto> 0], requests_tab := (\<lambda>_. ?q)(1 := ?q\<lparr>rq_sector := 4\<rparr>)\<rparr>"
  have "\<exists>s' ms. add_request 3 1 demo_world ?s = Ok ((), demo_world) s' \<and>
    rchain (requests_tab s') (current_request s' 3) (0 # ms) \<and>
    set (0 # ms) = insert 1 (set (0 # [])) \<and> drops (requests_tab s') (0 # ms) \<le> 1"
    by (rule elevator_sweep) (simp_all add: ordered_def IN_ORDER_def)
  then show ?thesis by auto
qed

end
