(* ===== verification/Fs_Buffer.thy ===== *)
theory Fs_Buffer
  imports Blk_Request
begin

text \<open>
  The buffer cache, src/fs/buffer.c. A buffer head is on the circular free list, and when it has a device
  also on the hash chain of its device and block.

  \<open>getblk\<close> writes dirty buffers back with \<open>sync_dev\<close>, which writes inodes with
  \<open>write_inode\<close>, which reads blocks with \<open>bread\<close> and so calls \<open>getblk\<close> again. The routines of that cycle
  take the next one as an argument here (suffix \<open>_with\<close>); src/fs/inode.c's part is in the theory
  Fs_Inode, which closes the cycle. \<open>getblk\<close> never returns a null pointer,
  so the tests of its callers for one have no counterpart. The insertion into an empty hash
  chain stores through the null pointer \<open>b_next\<close>: \<open>b_prev\<close> is at offset 20, so the word written is entry 5 of the page
  directory at address 0.
\<close>

definition wait_on_buffer :: "nat \<Rightarrow> (unit, 'z fs_state_scheme) proc" where
  "wait_on_buffer bh = wait_while (\<lambda>s. b_lock (bufs s bh) \<noteq> 0) (WBuffer bh)"

text \<open>\<open>if (bh->b_dirt) ll_rw_block(WRITE,bh)\<close> over all buffers, the loop of \<open>sys_sync\<close>, and over the
  buffers of a device, the loop \<open>sync_dev\<close> runs twice.\<close>

definition sync_buffers :: "(unit, 'z fs_state_scheme) proc" where
  "sync_buffers = bindp (getp NR_BUFFERS) (\<lambda>n. forp [0..<n] (\<lambda>bh.
     seqp (wait_on_buffer bh)
       (ifp (\<lambda>s. b_dirt (bufs s bh) \<noteq> 0) (ll_rw_block WRITE bh) (retp ()))))"

definition sync_dev_buffers :: "u16 \<Rightarrow> (unit, 'z fs_state_scheme) proc" where
  "sync_dev_buffers dev = bindp (getp NR_BUFFERS) (\<lambda>n. forp [0..<n] (\<lambda>bh.
     ifp (\<lambda>s. b_dev (bufs s bh) \<noteq> dev) (retp ())
       (seqp (wait_on_buffer bh)
         (ifp (\<lambda>s. b_dev (bufs s bh) = dev \<and> b_dirt (bufs s bh) \<noteq> 0) (ll_rw_block WRITE bh) (retp ())))))"

definition sync_dev_with :: "(unit, 'z fs_state_scheme) proc \<Rightarrow> u16 \<Rightarrow> (unit, 'z fs_state_scheme) proc" where
  "sync_dev_with sync_inodes dev =
     seqp (sync_dev_buffers dev) (seqp sync_inodes (sync_dev_buffers dev))"

definition invalidate_buffers :: "u16 \<Rightarrow> (unit, 'z fs_state_scheme) proc" where
  "invalidate_buffers dev = bindp (getp NR_BUFFERS) (\<lambda>n. forp [0..<n] (\<lambda>bh.
     ifp (\<lambda>s. b_dev (bufs s bh) \<noteq> dev) (retp ())
       (seqp (wait_on_buffer bh)
         (ifp (\<lambda>s. b_dev (bufs s bh) = dev)
            (modp (upd_buf bh (\<lambda>b. b\<lparr>b_uptodate := 0, b_dirt := 0\<rparr>))) (retp ())))))"

definition hashfn :: "u16 \<Rightarrow> u32 \<Rightarrow> nat" where
  "hashfn dev block = unat (ucast dev XOR block) mod NR_HASH"

definition hash_of :: "buffer_head \<Rightarrow> nat" where
  "hash_of h = hashfn (b_dev h) (b_blocknr h)"

text \<open>A store through a pointer to a buffer head that may be null is skipped when the code tests it.\<close>

definition upd_ptr ::
    "nat option \<Rightarrow> (buffer_head \<Rightarrow> buffer_head) \<Rightarrow> 'z fs_state_scheme \<Rightarrow> 'z fs_state_scheme" where
  "upd_ptr p f s = (case p of None \<Rightarrow> s | Some b \<Rightarrow> upd_buf b f s)"

definition remove_from_queues :: "nat \<Rightarrow> 'z fs_state_scheme \<Rightarrow> (unit, 'z fs_state_scheme) kres" where
  "remove_from_queues bh s =
     (let s = upd_ptr (b_next (bufs s bh)) (\<lambda>b. b\<lparr>b_prev := b_prev (bufs s bh)\<rparr>) s;
          s = upd_ptr (b_prev (bufs s bh)) (\<lambda>b. b\<lparr>b_next := b_next (bufs s bh)\<rparr>) s;
          h = hash_of (bufs s bh);
          s = (if hash_table s h = Some bh
               then s\<lparr>hash_table := (hash_table s)(h := b_next (bufs s bh))\<rparr> else s) in
      case (b_prev_free (bufs s bh), b_next_free (bufs s bh)) of
        (Some p, Some n) \<Rightarrow>
          let s = upd_buf p (\<lambda>b. b\<lparr>b_next_free := Some n\<rparr>) s;
              s = upd_buf n (\<lambda>b. b\<lparr>b_prev_free := Some p\<rparr>) s
          in Ok () (if free_list s = Some bh then s\<lparr>free_list := Some n\<rparr> else s)
      | _ \<Rightarrow> Panic ''Free block list corrupted'' s)"

definition buf_addr :: "nat \<Rightarrow> 'z fs_state_scheme \<Rightarrow> u32" where
  "buf_addr bh s = start_buffer s + 36 * of_nat bh"

definition insert_into_queues :: "nat \<Rightarrow> 'z fs_state_scheme \<Rightarrow> (unit, 'z fs_state_scheme) kres" where
  "insert_into_queues bh s =
     (case free_list s of
        None \<Rightarrow> Fault s
      | Some fl \<Rightarrow>
          let s = upd_buf bh (\<lambda>b. b\<lparr>b_next_free := Some fl\<rparr>) s;
              s = upd_buf bh (\<lambda>b. b\<lparr>b_prev_free := b_prev_free (bufs s fl)\<rparr>) s in
          case b_prev_free (bufs s fl) of
            None \<Rightarrow> Fault s
          | Some lst \<Rightarrow>
              let s = upd_buf lst (\<lambda>b. b\<lparr>b_next_free := Some bh\<rparr>) s;
                  s = upd_buf fl (\<lambda>b. b\<lparr>b_prev_free := Some bh\<rparr>) s;
                  s = upd_buf bh (\<lambda>b. b\<lparr>b_prev := None, b_next := None\<rparr>) s in
              if b_dev (bufs s bh) = 0 then Ok () s
              else
                let h = hash_of (bufs s bh);
                    s = upd_buf bh (\<lambda>b. b\<lparr>b_next := hash_table s h\<rparr>) s;
                    s = s\<lparr>hash_table := (hash_table s)(h := Some bh)\<rparr> in
                (case b_next (bufs s bh) of
                   None \<Rightarrow> Ok () (store 20 (buf_addr bh s) s)
                 | Some nx \<Rightarrow> Ok () (upd_buf nx (\<lambda>b. b\<lparr>b_prev := Some bh\<rparr>) s)))"

text \<open>The hash chain from \<open>p\<close> on; a chain has at most \<open>NR_BUFFERS\<close> entries.\<close>

fun find_chain :: "nat \<Rightarrow> (nat \<Rightarrow> buffer_head) \<Rightarrow> u16 \<Rightarrow> u32 \<Rightarrow> nat option \<Rightarrow> nat option" where
  "find_chain 0 bs dev block p = None"
| "find_chain (Suc n) bs dev block p =
     (case p of
        None \<Rightarrow> None
      | Some tmp \<Rightarrow>
          if b_dev (bs tmp) = dev \<and> b_blocknr (bs tmp) = block then Some tmp
          else find_chain n bs dev block (b_next (bs tmp)))"

definition find_buffer :: "u16 \<Rightarrow> u32 \<Rightarrow> 'z fs_state_scheme \<Rightarrow> nat option" where
  "find_buffer dev block s = find_chain (NR_BUFFERS s) (bufs s) dev block (hash_table s (hashfn dev block))"

fun get_hash_loop :: "nat \<Rightarrow> u16 \<Rightarrow> u32 \<Rightarrow> (nat option, 'z fs_state_scheme) proc" where
  "get_hash_loop 0 dev block = stuckp"
| "get_hash_loop (Suc n) dev block =
     bindp (getp (find_buffer dev block)) (\<lambda>r.
       case r of
         None \<Rightarrow> retp None
       | Some bh \<Rightarrow>
           seqp (modp (upd_buf bh (\<lambda>b. b\<lparr>b_count := b_count b + 1\<rparr>)))
           (seqp (wait_on_buffer bh)
           (ifp (\<lambda>s. b_dev (bufs s bh) = dev \<and> b_blocknr (bufs s bh) = block)
              (retp (Some bh))
              (seqp (modp (upd_buf bh (\<lambda>b. b\<lparr>b_count := b_count b - 1\<rparr>))) (get_hash_loop n dev block)))))"

definition get_hash_table :: "u16 \<Rightarrow> u32 \<Rightarrow> (nat option, 'z fs_state_scheme) proc" where
  "get_hash_table dev block = fuelp (\<lambda>n. get_hash_loop n dev block)"

definition BADNESS :: "buffer_head \<Rightarrow> nat" where
  "BADNESS h = 2 * unat (b_dirt h) + unat (b_lock h)"

text \<open>The \<open>do ... while\<close> over the free list: \<open>tmp\<close> is the buffer looked at, \<open>best\<close> the candidate so far;
  the outer option is \<open>None\<close> when the list is broken or longer than \<open>n\<close>.\<close>

fun pick_free :: "nat \<Rightarrow> (nat \<Rightarrow> buffer_head) \<Rightarrow> nat \<Rightarrow> nat \<Rightarrow> nat option \<Rightarrow> nat option option" where
  "pick_free 0 bs fl tmp best = None"
| "pick_free (Suc n) bs fl tmp best =
     (let better = (b_count (bs tmp) = 0 \<and>
                      (case best of None \<Rightarrow> True | Some b \<Rightarrow> BADNESS (bs tmp) < BADNESS (bs b)));
          best = (if better then Some tmp else best) in
      if better \<and> BADNESS (bs tmp) = 0 then Some best
      else (case b_next_free (bs tmp) of
              None \<Rightarrow> None
            | Some nx \<Rightarrow> if nx \<noteq> fl then pick_free n bs fl nx best else Some best))"

text \<open>\<open>while (bh->b_dirt)\<close>: the value is false for \<open>goto repeat\<close>.\<close>

fun clean_loop ::
    "nat \<Rightarrow> (u16 \<Rightarrow> (unit, 'z fs_state_scheme) proc) \<Rightarrow> nat \<Rightarrow> (bool, 'z fs_state_scheme) proc" where
  "clean_loop 0 sync_dev bh = stuckp"
| "clean_loop (Suc n) sync_dev bh =
     ifp (\<lambda>s. b_dirt (bufs s bh) \<noteq> 0)
       (bindp (getp (\<lambda>s. b_dev (bufs s bh))) (\<lambda>d.
          seqp (sync_dev d)
          (seqp (wait_on_buffer bh)
          (ifp (\<lambda>s. b_count (bufs s bh) \<noteq> 0) (retp False) (clean_loop n sync_dev bh)))))
       (retp True)"

definition claim_buffer :: "u16 \<Rightarrow> u32 \<Rightarrow> nat \<Rightarrow> 'z fs_state_scheme \<Rightarrow> (unit, 'z fs_state_scheme) kres" where
  "claim_buffer dev block bh s =
     bindk (remove_from_queues bh (upd_buf bh (\<lambda>b. b\<lparr>b_count := 1, b_dirt := 0, b_uptodate := 0\<rparr>) s))
       (\<lambda>_ s. insert_into_queues bh (upd_buf bh (\<lambda>b. b\<lparr>b_dev := dev, b_blocknr := block\<rparr>) s))"

fun getblk_loop ::
    "nat \<Rightarrow> (u16 \<Rightarrow> (unit, 'z fs_state_scheme) proc) \<Rightarrow> u16 \<Rightarrow> u32 \<Rightarrow> (nat, 'z fs_state_scheme) proc" where
  "getblk_loop 0 sync_dev dev block = stuckp"
| "getblk_loop (Suc n) sync_dev dev block =
     bindp (get_hash_table dev block) (\<lambda>r.
       case r of
         Some bh \<Rightarrow> retp bh
       | None \<Rightarrow>
           bindp (getp (\<lambda>s. case free_list s of
                              None \<Rightarrow> None
                            | Some fl \<Rightarrow> pick_free (NR_BUFFERS s) (bufs s) fl fl None)) (\<lambda>c.
             case c of
               None \<Rightarrow> faultp
             | Some None \<Rightarrow> seqp (sleepp WBufferWait) (getblk_loop n sync_dev dev block)
             | Some (Some bh) \<Rightarrow>
                 seqp (wait_on_buffer bh)
                 (ifp (\<lambda>s. b_count (bufs s bh) \<noteq> 0) (getblk_loop n sync_dev dev block)
                   (bindp (fuelp (\<lambda>m. clean_loop m sync_dev bh)) (\<lambda>clean.
                      if \<not> clean then getblk_loop n sync_dev dev block
                      else ifp (\<lambda>s. find_buffer dev block s \<noteq> None) (getblk_loop n sync_dev dev block)
                             (seqp (liftp (claim_buffer dev block bh)) (retp bh)))))))"

definition getblk_with ::
    "(u16 \<Rightarrow> (unit, 'z fs_state_scheme) proc) \<Rightarrow> u16 \<Rightarrow> u32 \<Rightarrow> (nat, 'z fs_state_scheme) proc" where
  "getblk_with sync_dev dev block = fuelp (\<lambda>n. getblk_loop n sync_dev dev block)"

definition brelse :: "nat option \<Rightarrow> (unit, 'z fs_state_scheme) proc" where
  "brelse buf =
     (case buf of
        None \<Rightarrow> retp ()
      | Some bh \<Rightarrow>
          seqp (wait_on_buffer bh)
          (bindp (getp (\<lambda>s. b_count (bufs s bh))) (\<lambda>c.
             seqp (modp (upd_buf bh (\<lambda>b. b\<lparr>b_count := b_count b - 1\<rparr>)))
               (if c = 0 then panicp ''Trying to free free buffer''
                else modp (wake_up (Some WBufferWait))))))"

definition bread_with ::
    "(u16 \<Rightarrow> u32 \<Rightarrow> (nat, 'z fs_state_scheme) proc) \<Rightarrow> u16 \<Rightarrow> u32 \<Rightarrow> (nat option, 'z fs_state_scheme) proc" where
  "bread_with getblk dev block =
     bindp (getblk dev block) (\<lambda>bh.
       ifp (\<lambda>s. b_uptodate (bufs s bh) \<noteq> 0) (retp (Some bh))
         (seqp (ll_rw_block READ bh)
         (seqp (wait_on_buffer bh)
         (ifp (\<lambda>s. b_uptodate (bufs s bh) \<noteq> 0) (retp (Some bh))
           (seqp (brelse (Some bh)) (retp None))))))"

text \<open>\<open>COPYBLK\<close>: 256 words from the block to the physical address \<open>address\<close>.\<close>

definition COPYBLK :: "nat \<Rightarrow> u32 \<Rightarrow> 'z fs_state_scheme \<Rightarrow> 'z fs_state_scheme" where
  "COPYBLK bh address s =
     s\<lparr>phys := (\<lambda>a. if a - address < 1024 then get_u32 (b_data (bufs s bh)) (unat (a - address)) else phys s a)\<rparr>"

fun bread_page_start ::
    "(u16 \<Rightarrow> u32 \<Rightarrow> (nat, 'z fs_state_scheme) proc) \<Rightarrow> u16 \<Rightarrow> u32 list \<Rightarrow> (nat option list, 'z fs_state_scheme) proc" where
  "bread_page_start getblk dev [] = retp []"
| "bread_page_start getblk dev (b # bs) =
     bindp (if b \<noteq> 0
            then bindp (getblk dev b) (\<lambda>bh.
              seqp (ifp (\<lambda>s. b_uptodate (bufs s bh) = 0) (ll_rw_block READ bh) (retp ())) (retp (Some bh)))
            else retp None)
       (\<lambda>h. bindp (bread_page_start getblk dev bs) (\<lambda>hs. retp (h # hs)))"

fun bread_page_finish :: "u32 \<Rightarrow> nat option list \<Rightarrow> (unit, 'z fs_state_scheme) proc" where
  "bread_page_finish address [] = retp ()"
| "bread_page_finish address (h # hs) =
     seqp (case h of
             None \<Rightarrow> retp ()
           | Some bh \<Rightarrow>
               seqp (wait_on_buffer bh)
               (seqp (ifp (\<lambda>s. b_uptodate (bufs s bh) \<noteq> 0) (modp (COPYBLK bh address)) (retp ()))
                 (brelse (Some bh))))
       (bread_page_finish (address + 1024) hs)"

definition bread_page_with ::
    "(u16 \<Rightarrow> u32 \<Rightarrow> (nat, 'z fs_state_scheme) proc) \<Rightarrow> u32 \<Rightarrow> u16 \<Rightarrow> u32 list \<Rightarrow> (unit, 'z fs_state_scheme) proc" where
  "bread_page_with getblk address dev b =
     bindp (bread_page_start getblk dev (take 4 b)) (bread_page_finish address)"

text \<open>The read-ahead blocks of \<open>breada\<close>, up to the first negative one; the request is made for \<open>bh\<close>, the
  first buffer.\<close>

fun breada_ahead ::
    "(u16 \<Rightarrow> u32 \<Rightarrow> (nat, 'z fs_state_scheme) proc) \<Rightarrow> u16 \<Rightarrow> nat \<Rightarrow> int list \<Rightarrow> (unit, 'z fs_state_scheme) proc" where
  "breada_ahead getblk dev bh [] = retp ()"
| "breada_ahead getblk dev bh (first # rest) =
     (if first < 0 then retp ()
      else bindp (getblk dev (word_of_int first)) (\<lambda>tmp.
        seqp (ifp (\<lambda>s. b_uptodate (bufs s tmp) = 0) (ll_rw_block READA bh) (retp ()))
        (seqp (modp (upd_buf tmp (\<lambda>b. b\<lparr>b_count := b_count b - 1\<rparr>)))
          (breada_ahead getblk dev bh rest))))"

definition breada_with ::
    "(u16 \<Rightarrow> u32 \<Rightarrow> (nat, 'z fs_state_scheme) proc) \<Rightarrow> u16 \<Rightarrow> u32 \<Rightarrow> int list
     \<Rightarrow> (nat option, 'z fs_state_scheme) proc" where
  "breada_with getblk dev first rest =
     bindp (getblk dev first) (\<lambda>bh.
       seqp (ifp (\<lambda>s. b_uptodate (bufs s bh) = 0) (ll_rw_block READ bh) (retp ()))
       (seqp (breada_ahead getblk dev bh rest)
       (seqp (wait_on_buffer bh)
       (ifp (\<lambda>s. b_uptodate (bufs s bh) \<noteq> 0) (retp (Some bh))
         (seqp (brelse (Some bh)) (retp None))))))"

text \<open>\<open>buffer_init\<close>: buffer heads grow upwards from \<open>start_buffer\<close> (36 bytes each), blocks downwards
  from the end of the buffer memory, skipping the video memory and the BIOS between 0xA0000 and 0x100000.\<close>

function buffer_count :: "int \<Rightarrow> int \<Rightarrow> nat \<Rightarrow> nat" where
  "buffer_count start b h =
     (let b = b - 1024 in
      if b \<ge> start + 36 * (int h + 1)
      then buffer_count start (if b = 0x100000 then 0xA0000 else b) (Suc h)
      else h)"
  by pat_completeness auto
termination
  by (relation "measure (\<lambda>(start, b, h). nat (b - start - 36 * int h))") auto

text \<open>What the loop of \<open>buffer_init\<close> leaves in entry \<open>h\<close> of \<open>n\<close>, the ends of the list closed to a circle.\<close>

definition init_buffer :: "nat \<Rightarrow> nat \<Rightarrow> buffer_head \<Rightarrow> buffer_head" where
  "init_buffer n h b = b\<lparr>b_dev := 0, b_dirt := 0, b_count := 0, b_lock := 0, b_uptodate := 0,
     b_next := None, b_prev := None,
     b_prev_free := Some (if h = 0 then n - 1 else h - 1),
     b_next_free := Some (if h = n - 1 then 0 else h + 1)\<rparr>"

definition buffer_init :: "int \<Rightarrow> 'z fs_state_scheme \<Rightarrow> (unit, 'z fs_state_scheme) kres" where
  "buffer_init buffer_end s =
     (let b = (if buffer_end = 0x100000 then 640 * 1024 else buffer_end);
          n = buffer_count (uint (start_buffer s)) b 0 in
      if n = 0 then Fault s
      else Ok () (s\<lparr>bufs := (\<lambda>h. if h < n then init_buffer n h (bufs s h) else bufs s h),
                    waitq := (\<lambda>q. case q of WBuffer h \<Rightarrow> if h < n then None else waitq s q | _ \<Rightarrow> waitq s q),
                    NR_BUFFERS := NR_BUFFERS s + n, free_list := Some 0,
                    hash_table := (\<lambda>i. if i < NR_HASH then None else hash_table s i)\<rparr>))"

end
