(* ===== verification/Fs_Inode.thy ===== *)
theory Fs_Inode
  imports Fs_Buffer
begin

text \<open>
  Inodes on disk and in memory: src/fs/inode.c, src/fs/bitmap.c, src/fs/truncate.c and \<open>get_super\<close> of
  src/fs/super.c. \<open>sync_inodes\<close> closes the cycle of the buffer cache: \<open>getblk_at n\<close> is \<open>getblk\<close> with at
  most \<open>n\<close> calls of itself nested in one another.

  Device and inode numbers are 16 bits wide, block numbers 32. A pointer to a bitmap block that is null where the code
  does not test it is a \<open>Fault\<close>.
\<close>

subsection \<open>Locks\<close>

definition wait_on_inode :: "nat \<Rightarrow> (unit, 'z fs_state_scheme) proc" where
  "wait_on_inode i = wait_while (\<lambda>s. i_lock (inode_table s i) \<noteq> 0) (WInode i)"

definition lock_inode :: "nat \<Rightarrow> (unit, 'z fs_state_scheme) proc" where
  "lock_inode i =
     seqp (wait_while (\<lambda>s. i_lock (inode_table s i) \<noteq> 0) (WInode i))
       (modp (upd_inode i (\<lambda>n. n\<lparr>i_lock := 1\<rparr>)))"

definition unlock_inode :: "nat \<Rightarrow> 'z fs_state_scheme \<Rightarrow> 'z fs_state_scheme" where
  "unlock_inode i s = wake_up (Some (WInode i)) (upd_inode i (\<lambda>n. n\<lparr>i_lock := 0\<rparr>) s)"

definition lock_super :: "nat \<Rightarrow> (unit, 'z fs_state_scheme) proc" where
  "lock_super sb =
     seqp (wait_while (\<lambda>s. s_lock (super_blocks s sb) \<noteq> 0) (WSuper sb))
       (modp (upd_super sb (\<lambda>b. b\<lparr>s_lock := 1\<rparr>)))"

definition free_super :: "nat \<Rightarrow> 'z fs_state_scheme \<Rightarrow> 'z fs_state_scheme" where
  "free_super sb s = wake_up (Some (WSuper sb)) (upd_super sb (\<lambda>b. b\<lparr>s_lock := 0\<rparr>) s)"

definition wait_on_super :: "nat \<Rightarrow> (unit, 'z fs_state_scheme) proc" where
  "wait_on_super sb = wait_while (\<lambda>s. s_lock (super_blocks s sb) \<noteq> 0) (WSuper sb)"

text \<open>The scan of \<open>get_super\<close> does not sleep until it finds the device; then it may start again.\<close>

definition find_super :: "u16 \<Rightarrow> 'z fs_state_scheme \<Rightarrow> nat option" where
  "find_super dev s = List.find (\<lambda>i. s_dev (super_blocks s i) = dev) [0..<NR_SUPER]"

fun get_super_loop :: "nat \<Rightarrow> u16 \<Rightarrow> (nat option, 'z fs_state_scheme) proc" where
  "get_super_loop 0 dev = stuckp"
| "get_super_loop (Suc n) dev =
     bindp (getp (find_super dev)) (\<lambda>r.
       case r of
         None \<Rightarrow> retp None
       | Some i \<Rightarrow>
           seqp (wait_on_super i)
             (ifp (\<lambda>s. s_dev (super_blocks s i) = dev) (retp (Some i)) (get_super_loop n dev)))"

definition get_super :: "u16 \<Rightarrow> (nat option, 'z fs_state_scheme) proc" where
  "get_super dev = (if dev = 0 then retp None else fuelp (\<lambda>n. get_super_loop n dev))"

subsection \<open>Inodes on disk\<close>

text \<open>\<open>struct d_inode\<close>: 32 bytes.\<close>

definition decode_inode :: "block \<Rightarrow> nat \<Rightarrow> m_inode \<Rightarrow> m_inode" where
  "decode_inode d a n = n\<lparr>
     i_mode := get_u16 d a, i_uid := get_u16 d (a + 2), i_size := get_u32 d (a + 4),
     i_mtime := get_u32 d (a + 8), i_gid := d (a + 12), i_nlinks := d (a + 13),
     i_zone := (\<lambda>k. if k < 9 then get_u16 d (a + 14 + 2 * k) else i_zone n k)\<rparr>"

fun put_zones :: "nat \<Rightarrow> (nat \<Rightarrow> u16) \<Rightarrow> nat \<Rightarrow> block \<Rightarrow> block" where
  "put_zones 0 z a d = d"
| "put_zones (Suc k) z a d = put_u16 (a + 2 * k) (z k) (put_zones k z a d)"

definition encode_inode :: "m_inode \<Rightarrow> nat \<Rightarrow> block \<Rightarrow> block" where
  "encode_inode n a d =
     put_zones 9 (i_zone n) (a + 14)
       ((put_u32 (a + 8) (i_mtime n) (put_u32 (a + 4) (i_size n)
          (put_u16 (a + 2) (i_uid n) (put_u16 a (i_mode n) d))))
        (a + 12 := i_gid n, a + 13 := i_nlinks n))"

definition inode_block :: "super_block \<Rightarrow> m_inode \<Rightarrow> u32" where
  "inode_block sb n =
     2 + ucast (s_imap_blocks sb) + ucast (s_zmap_blocks sb) + (ucast (i_num n) - 1) div 32"

definition inode_offset :: "m_inode \<Rightarrow> nat" where
  "inode_offset n = 32 * unat ((ucast (i_num n) - 1 :: u32) mod 32)"

definition write_inode_with ::
    "(u16 \<Rightarrow> u32 \<Rightarrow> (nat option, 'z fs_state_scheme) proc) \<Rightarrow> nat \<Rightarrow> (unit, 'z fs_state_scheme) proc" where
  "write_inode_with bread i =
     seqp (lock_inode i)
     (ifp (\<lambda>s. i_dirt (inode_table s i) = 0 \<or> i_dev (inode_table s i) = 0)
       (modp (unlock_inode i))
       (bindp (getp (\<lambda>s. i_dev (inode_table s i))) (\<lambda>dev.
        bindp (get_super dev) (\<lambda>r.
          case r of
            None \<Rightarrow> panicp ''trying to write inode without device''
          | Some sb \<Rightarrow>
              bindp (getp (\<lambda>s. inode_block (super_blocks s sb) (inode_table s i))) (\<lambda>block.
              bindp (bread dev block) (\<lambda>r.
                case r of
                  None \<Rightarrow> panicp ''unable to read i-node block''
                | Some bh \<Rightarrow>
                    seqp (modp (\<lambda>s. upd_buf bh (\<lambda>b. b\<lparr>b_data := encode_inode (inode_table s i)
                            (inode_offset (inode_table s i)) (b_data b)\<rparr>) s))
                    (seqp (modp (upd_buf bh (\<lambda>b. b\<lparr>b_dirt := 1\<rparr>)))
                    (seqp (modp (upd_inode i (\<lambda>n. n\<lparr>i_dirt := 0\<rparr>)))
                    (seqp (brelse (Some bh))
                      (modp (unlock_inode i)))))))))))"

definition sync_inodes_with ::
    "(u16 \<Rightarrow> u32 \<Rightarrow> (nat option, 'z fs_state_scheme) proc) \<Rightarrow> (unit, 'z fs_state_scheme) proc" where
  "sync_inodes_with bread = forp [0..<NR_INODE] (\<lambda>i.
     seqp (wait_on_inode i)
       (ifp (\<lambda>s. i_dirt (inode_table s i) \<noteq> 0 \<and> i_pipe (inode_table s i) = 0)
          (write_inode_with bread i) (retp ())))"

subsection \<open>The buffer cache, closed\<close>

fun getblk_at :: "nat \<Rightarrow> u16 \<Rightarrow> u32 \<Rightarrow> (nat, 'z fs_state_scheme) proc" where
  "getblk_at 0 dev block = stuckp"
| "getblk_at (Suc n) dev block =
     getblk_with (sync_dev_with (sync_inodes_with (bread_with (getblk_at n)))) dev block"

definition getblk :: "u16 \<Rightarrow> u32 \<Rightarrow> (nat, 'z fs_state_scheme) proc" where
  "getblk dev block = fuelp (\<lambda>n. getblk_at n dev block)"

definition bread :: "u16 \<Rightarrow> u32 \<Rightarrow> (nat option, 'z fs_state_scheme) proc" where
  "bread = bread_with getblk"

definition bread_page :: "u32 \<Rightarrow> u16 \<Rightarrow> u32 list \<Rightarrow> (unit, 'z fs_state_scheme) proc" where
  "bread_page = bread_page_with getblk"

definition breada :: "u16 \<Rightarrow> u32 \<Rightarrow> int list \<Rightarrow> (nat option, 'z fs_state_scheme) proc" where
  "breada = breada_with getblk"

definition write_inode :: "nat \<Rightarrow> (unit, 'z fs_state_scheme) proc" where
  "write_inode = write_inode_with bread"

definition sync_inodes :: "(unit, 'z fs_state_scheme) proc" where
  "sync_inodes = sync_inodes_with bread"

definition sync_dev :: "u16 \<Rightarrow> (unit, 'z fs_state_scheme) proc" where
  "sync_dev = sync_dev_with sync_inodes"

definition sys_sync :: "(int, 'z fs_state_scheme) proc" where
  "sys_sync = seqp sync_inodes (seqp sync_buffers (retp 0))"

definition read_inode :: "nat \<Rightarrow> (unit, 'z fs_state_scheme) proc" where
  "read_inode i =
     seqp (lock_inode i)
     (bindp (getp (\<lambda>s. i_dev (inode_table s i))) (\<lambda>dev.
      bindp (get_super dev) (\<lambda>r.
        case r of
          None \<Rightarrow> panicp ''trying to read inode without dev''
        | Some sb \<Rightarrow>
            bindp (getp (\<lambda>s. inode_block (super_blocks s sb) (inode_table s i))) (\<lambda>block.
            bindp (bread dev block) (\<lambda>r.
              case r of
                None \<Rightarrow> panicp ''unable to read i-node block''
              | Some bh \<Rightarrow>
                  seqp (modp (\<lambda>s. upd_inode i (\<lambda>n. decode_inode (b_data (bufs s bh)) (inode_offset n) n) s))
                  (seqp (brelse (Some bh))
                    (modp (unlock_inode i))))))))"

definition invalidate_inodes :: "u16 \<Rightarrow> (unit, 'z fs_state_scheme) proc" where
  "invalidate_inodes dev = forp [0..<NR_INODE] (\<lambda>i.
     seqp (wait_on_inode i)
       (ifp (\<lambda>s. i_dev (inode_table s i) = dev)
          (seqp (ifp (\<lambda>s. i_count (inode_table s i) \<noteq> 0)
                   (modp (printk ''inode in use on removed disk'')) (retp ()))
             (modp (upd_inode i (\<lambda>n. n\<lparr>i_dev := 0, i_dirt := 0\<rparr>))))
          (retp ())))"

subsection \<open>Bitmaps\<close>

text \<open>\<open>btsl\<close> and \<open>btrl\<close> on the bits of a block, and the scan for a zero bit; \<open>set_bit\<close> returns the old
  bit, \<open>clear_bit\<close> whether it was clear already.\<close>

definition get_bit :: "nat \<Rightarrow> block \<Rightarrow> bool" where
  "get_bit nr d = bit (d (nr div 8)) (nr mod 8)"

definition set_bit :: "nat \<Rightarrow> block \<Rightarrow> bool \<times> block" where
  "set_bit nr d = (get_bit nr d, d(nr div 8 := d (nr div 8) OR push_bit (nr mod 8) 1))"

definition clear_bit :: "nat \<Rightarrow> block \<Rightarrow> bool \<times> block" where
  "clear_bit nr d = (\<not> get_bit nr d, d(nr div 8 := d (nr div 8) AND NOT (push_bit (nr mod 8) 1)))"

fun first_zero_from :: "nat \<Rightarrow> nat \<Rightarrow> block \<Rightarrow> nat" where
  "first_zero_from 0 nr d = nr"
| "first_zero_from (Suc n) nr d = (if get_bit nr d then first_zero_from n (Suc nr) d else nr)"

definition find_first_zero :: "block \<Rightarrow> nat" where
  "find_first_zero d = first_zero_from 8192 0 d"

text \<open>The loop over the eight bitmap blocks: the slot, its buffer and the free bit.\<close>

fun scan_bitmaps :: "nat list \<Rightarrow> (nat \<Rightarrow> nat option) \<Rightarrow> (nat \<Rightarrow> buffer_head) \<Rightarrow> (nat \<times> nat \<times> nat) option" where
  "scan_bitmaps [] m bs = None"
| "scan_bitmaps (i # is) m bs =
     (case m i of
        None \<Rightarrow> scan_bitmaps is m bs
      | Some bh \<Rightarrow>
          let j = find_first_zero (b_data (bs bh))
          in if j < 8192 then Some (i, bh, j) else scan_bitmaps is m bs)"

definition free_block :: "u16 \<Rightarrow> int \<Rightarrow> (unit, 'z fs_state_scheme) proc" where
  "free_block dev block =
     bindp (get_super dev) (\<lambda>r.
       case r of
         None \<Rightarrow> panicp ''trying to free block on nonexistent device''
       | Some sb \<Rightarrow>
           ifp (\<lambda>s. block < uint (s_firstdatazone (super_blocks s sb)) \<or> block \<ge> uint (s_nzones (super_blocks s sb)))
             (panicp ''trying to free block not in datazone'')
             (bindp (get_hash_table dev (word_of_int block)) (\<lambda>h.
              bindp (case h of
                       None \<Rightarrow> retp True
                     | Some bh \<Rightarrow>
                         ifp (\<lambda>s. b_count (bufs s bh) \<noteq> 1)
                           (seqp (modp (printk ''trying to free block (%04x:%d), count=%d'')) (retp False))
                           (seqp (modp (upd_buf bh (\<lambda>b. b\<lparr>b_dirt := 0, b_uptodate := 0\<rparr>)))
                             (seqp (brelse (Some bh)) (retp True))))
                (\<lambda>go.
                   if \<not> go then retp ()
                   else bindp (getp (\<lambda>s. nat (block - (uint (s_firstdatazone (super_blocks s sb)) - 1)))) (\<lambda>nr.
                     bindp (getp (\<lambda>s. s_zmap (super_blocks s sb) (nr div 8192))) (\<lambda>z.
                       case z of
                         None \<Rightarrow> faultp
                       | Some zb \<Rightarrow>
                           bindp (getp (\<lambda>s. fst (clear_bit (nr mod 8192) (b_data (bufs s zb))))) (\<lambda>was_clear.
                           seqp (modp (upd_buf zb (\<lambda>b. b\<lparr>b_data := snd (clear_bit (nr mod 8192) (b_data b))\<rparr>)))
                             (if was_clear
                              then seqp (modp (printk ''block (%04x:%d) '')) (panicp ''free_block: bit already cleared'')
                              else modp (upd_buf zb (\<lambda>b. b\<lparr>b_dirt := 1\<rparr>))))))))))"

definition clear_block :: "nat \<Rightarrow> 'z fs_state_scheme \<Rightarrow> 'z fs_state_scheme" where
  "clear_block bh s = upd_buf bh (\<lambda>b. b\<lparr>b_data := (\<lambda>i. if i < BLOCK_SIZE then 0 else b_data b i)\<rparr>) s"

definition new_block :: "u16 \<Rightarrow> (u16, 'z fs_state_scheme) proc" where
  "new_block dev =
     bindp (get_super dev) (\<lambda>r.
       case r of
         None \<Rightarrow> panicp ''trying to get new block from nonexistant device''
       | Some sb \<Rightarrow>
           bindp (getp (\<lambda>s. scan_bitmaps [0..<8] (s_zmap (super_blocks s sb)) (bufs s))) (\<lambda>f.
             case f of
               None \<Rightarrow> retp 0
             | Some (i, zb, j) \<Rightarrow>
                 bindp (getp (\<lambda>s. fst (set_bit j (b_data (bufs s zb))))) (\<lambda>was_set.
                 seqp (modp (upd_buf zb (\<lambda>b. b\<lparr>b_data := snd (set_bit j (b_data b))\<rparr>)))
                 (if was_set then panicp ''new_block: bit already set''
                  else
                    seqp (modp (upd_buf zb (\<lambda>b. b\<lparr>b_dirt := 1\<rparr>)))
                    (bindp (getp (\<lambda>s. int j + int i * 8192 + uint (s_firstdatazone (super_blocks s sb)) - 1)) (\<lambda>j.
                     ifp (\<lambda>s. j \<ge> uint (s_nzones (super_blocks s sb))) (retp 0)
                       (bindp (getblk dev (word_of_int j)) (\<lambda>bh.
                        ifp (\<lambda>s. b_count (bufs s bh) \<noteq> 1) (panicp ''new block: count is != 1'')
                          (seqp (modp (clear_block bh))
                          (seqp (modp (upd_buf bh (\<lambda>b. b\<lparr>b_uptodate := 1, b_dirt := 1\<rparr>)))
                          (seqp (brelse (Some bh))
                            (retp (word_of_int j)))))))))))))"

text \<open>\<open>memset(inode,0,sizeof(*inode))\<close> clears the wait queue pointer as well.\<close>

definition clear_inode :: "nat \<Rightarrow> 'z fs_state_scheme \<Rightarrow> 'z fs_state_scheme" where
  "clear_inode i s = upd_inode i (\<lambda>_. no_inode) (s\<lparr>waitq := (waitq s)(WInode i := None)\<rparr>)"

definition free_inode :: "nat \<Rightarrow> (unit, 'z fs_state_scheme) proc" where
  "free_inode i =
     ifp (\<lambda>s. i_dev (inode_table s i) = 0) (modp (clear_inode i))
     (ifp (\<lambda>s. i_count (inode_table s i) > 1)
        (seqp (modp (printk ''trying to free inode with count=%d'')) (panicp ''free_inode''))
     (ifp (\<lambda>s. i_nlinks (inode_table s i) \<noteq> 0) (panicp ''trying to free inode with links'')
     (bindp (getp (\<lambda>s. i_dev (inode_table s i))) (\<lambda>dev.
      bindp (get_super dev) (\<lambda>r.
        case r of
          None \<Rightarrow> panicp ''trying to free inode on nonexistent device''
        | Some sb \<Rightarrow>
            ifp (\<lambda>s. i_num (inode_table s i) < 1 \<or> i_num (inode_table s i) > s_ninodes (super_blocks s sb))
              (panicp ''trying to free inode 0 or nonexistant inode'')
              (bindp (getp (\<lambda>s. unat (i_num (inode_table s i)))) (\<lambda>num.
               bindp (getp (\<lambda>s. s_imap (super_blocks s sb) (num div 8192))) (\<lambda>m.
                 case m of
                   None \<Rightarrow> panicp ''nonexistent imap in superblock''
                 | Some bh \<Rightarrow>
                     seqp (ifp (\<lambda>s. fst (clear_bit (num mod 8192) (b_data (bufs s bh))))
                             (modp (printk ''free_inode: bit already cleared.'')) (retp ()))
                     (seqp (modp (upd_buf bh (\<lambda>b. b\<lparr>b_data := snd (clear_bit (num mod 8192) (b_data b)), b_dirt := 1\<rparr>)))
                       (modp (clear_inode i)))))))))))"

subsection \<open>Truncation\<close>

definition free_ind :: "u16 \<Rightarrow> u16 \<Rightarrow> (unit, 'z fs_state_scheme) proc" where
  "free_ind dev block =
     (if block = 0 then retp ()
      else
        seqp (bindp (bread dev (ucast block)) (\<lambda>r.
                case r of
                  None \<Rightarrow> retp ()
                | Some bh \<Rightarrow>
                    seqp (forp [0..<512] (\<lambda>k.
                            bindp (getp (\<lambda>s. get_u16 (b_data (bufs s bh)) (2 * k))) (\<lambda>z.
                              if z \<noteq> 0 then free_block dev (uint z) else retp ())))
                      (brelse (Some bh))))
          (free_block dev (uint block)))"

definition free_dind :: "u16 \<Rightarrow> u16 \<Rightarrow> (unit, 'z fs_state_scheme) proc" where
  "free_dind dev block =
     (if block = 0 then retp ()
      else
        seqp (bindp (bread dev (ucast block)) (\<lambda>r.
                case r of
                  None \<Rightarrow> retp ()
                | Some bh \<Rightarrow>
                    seqp (forp [0..<512] (\<lambda>k.
                            bindp (getp (\<lambda>s. get_u16 (b_data (bufs s bh)) (2 * k))) (\<lambda>z.
                              if z \<noteq> 0 then free_ind dev z else retp ())))
                      (brelse (Some bh))))
          (free_block dev (uint block)))"

definition now :: "'z fs_state_scheme \<Rightarrow> u32" where
  "now s = word_of_int (CURRENT_TIME s)"

definition truncate :: "nat \<Rightarrow> (unit, 'z fs_state_scheme) proc" where
  "truncate i =
     ifp (\<lambda>s. \<not> (S_ISREG (i_mode (inode_table s i)) \<or> S_ISDIR (i_mode (inode_table s i)))) (retp ())
     (seqp (forp [0..<7] (\<lambda>k.
        bindp (getp (\<lambda>s. i_zone (inode_table s i) k)) (\<lambda>z.
          if z \<noteq> 0
          then bindp (getp (\<lambda>s. i_dev (inode_table s i))) (\<lambda>dev.
            seqp (free_block dev (uint z))
              (modp (upd_inode i (\<lambda>n. n\<lparr>i_zone := (i_zone n)(k := 0)\<rparr>))))
          else retp ())))
     (bindp (getp (\<lambda>s. (i_dev (inode_table s i), i_zone (inode_table s i) 7))) (\<lambda>(dev, z).
        seqp (free_ind dev z)
     (bindp (getp (\<lambda>s. (i_dev (inode_table s i), i_zone (inode_table s i) 8))) (\<lambda>(dev, z).
        seqp (free_dind dev z)
        (modp (\<lambda>s. upd_inode i (\<lambda>n. n\<lparr>i_zone := (i_zone n)(7 := 0, 8 := 0), i_size := 0, i_dirt := 1,
            i_mtime := now s, i_ctime := now s\<rparr>) s)))))))"

subsection \<open>Inodes in memory\<close>

fun iput_loop :: "nat \<Rightarrow> nat \<Rightarrow> (unit, 'z fs_state_scheme) proc" where
  "iput_loop 0 i = stuckp"
| "iput_loop (Suc n) i =
     ifp (\<lambda>s. i_count (inode_table s i) > 1) (modp (upd_inode i (\<lambda>m. m\<lparr>i_count := i_count m - 1\<rparr>)))
     (ifp (\<lambda>s. i_nlinks (inode_table s i) = 0) (seqp (truncate i) (free_inode i))
     (ifp (\<lambda>s. i_dirt (inode_table s i) \<noteq> 0)
        (seqp (write_inode i) (seqp (wait_on_inode i) (iput_loop n i)))
        (modp (upd_inode i (\<lambda>m. m\<lparr>i_count := i_count m - 1\<rparr>)))))"

definition iput :: "nat option \<Rightarrow> (unit, 'z fs_state_scheme) proc" where
  "iput inode =
     (case inode of
        None \<Rightarrow> retp ()
      | Some i \<Rightarrow>
          seqp (wait_on_inode i)
          (ifp (\<lambda>s. i_count (inode_table s i) = 0) (panicp ''iput: trying to free free inode'')
          (ifp (\<lambda>s. i_pipe (inode_table s i) \<noteq> 0)
             (seqp (modp (wake_up (Some (WInode i))))
             (seqp (modp (upd_inode i (\<lambda>m. m\<lparr>i_count := i_count m - 1\<rparr>)))
             (ifp (\<lambda>s. i_count (inode_table s i) \<noteq> 0) (retp ())
                (seqp (liftp (\<lambda>s. free_page (i_size (inode_table s i)) s))
                   (modp (upd_inode i (\<lambda>m. m\<lparr>i_count := 0, i_dirt := 0, i_pipe := 0\<rparr>)))))))
          (ifp (\<lambda>s. i_dev (inode_table s i) = 0)
             (modp (upd_inode i (\<lambda>m. m\<lparr>i_count := i_count m - 1\<rparr>)))
             (seqp (ifp (\<lambda>s. S_ISBLK (i_mode (inode_table s i)))
                      (bindp (getp (\<lambda>s. i_zone (inode_table s i) 0)) (\<lambda>dev.
                         seqp (sync_dev dev) (wait_on_inode i)))
                      (retp ()))
                (fuelp (\<lambda>n. iput_loop n i)))))))"

text \<open>The scan for an unused inode: \<open>n\<close> steps of \<open>last_inode\<close> with the candidate so far.\<close>

fun scan_inodes :: "nat \<Rightarrow> (nat \<Rightarrow> m_inode) \<Rightarrow> nat \<Rightarrow> nat option \<Rightarrow> nat \<times> nat option" where
  "scan_inodes 0 it lst best = (lst, best)"
| "scan_inodes (Suc n) it lst best =
     (let lst = (if Suc lst \<ge> NR_INODE then 0 else Suc lst) in
      if i_count (it lst) = 0
      then (if i_dirt (it lst) = 0 \<and> i_lock (it lst) = 0 then (lst, Some lst)
            else scan_inodes n it lst (Some lst))
      else scan_inodes n it lst best)"

fun flush_inode :: "nat \<Rightarrow> nat \<Rightarrow> (unit, 'z fs_state_scheme) proc" where
  "flush_inode 0 i = stuckp"
| "flush_inode (Suc n) i =
     ifp (\<lambda>s. i_dirt (inode_table s i) \<noteq> 0)
       (seqp (write_inode i) (seqp (wait_on_inode i) (flush_inode n i))) (retp ())"

fun empty_inode_loop :: "nat \<Rightarrow> (nat, 'z fs_state_scheme) proc" where
  "empty_inode_loop 0 = stuckp"
| "empty_inode_loop (Suc n) =
     bindp (getp (\<lambda>s. scan_inodes NR_INODE (inode_table s) (last_inode s) None)) (\<lambda>(lst, found).
       seqp (modp (\<lambda>s. s\<lparr>last_inode := lst\<rparr>))
       (case found of
          None \<Rightarrow>
            seqp (forp [0..<NR_INODE] (\<lambda>_. modp (printk ''%04x: %6d''))) (panicp ''No free inodes in mem'')
        | Some i \<Rightarrow>
            seqp (wait_on_inode i)
            (seqp (fuelp (\<lambda>m. flush_inode m i))
            (ifp (\<lambda>s. i_count (inode_table s i) \<noteq> 0) (empty_inode_loop n)
              (seqp (modp (clear_inode i))
              (seqp (modp (upd_inode i (\<lambda>m. m\<lparr>i_count := 1\<rparr>)))
                (retp i)))))))"

definition get_empty_inode :: "(nat, 'z fs_state_scheme) proc" where
  "get_empty_inode = fuelp empty_inode_loop"

definition get_pipe_inode :: "(nat option, 'z fs_state_scheme) proc" where
  "get_pipe_inode =
     bindp get_empty_inode (\<lambda>i.
     bindp (callp get_free_page) (\<lambda>page.
       seqp (modp (upd_inode i (\<lambda>m. m\<lparr>i_size := page\<rparr>)))
       (if page = 0 then seqp (modp (upd_inode i (\<lambda>m. m\<lparr>i_count := 0\<rparr>))) (retp None)
        else
          seqp (modp (upd_inode i (\<lambda>m. m\<lparr>i_count := 2, i_zone := (i_zone m)(0 := 0, 1 := 0), i_pipe := 1\<rparr>)))
            (retp (Some i)))))"

definition find_inode :: "u16 \<Rightarrow> u16 \<Rightarrow> 'z fs_state_scheme \<Rightarrow> nat option" where
  "find_inode dev nr s =
     List.find (\<lambda>i. i_dev (inode_table s i) = dev \<and> i_num (inode_table s i) = nr) [0..<NR_INODE]"

definition find_mounted :: "nat \<Rightarrow> 'z fs_state_scheme \<Rightarrow> nat option" where
  "find_mounted i s = List.find (\<lambda>k. s_imount (super_blocks s k) = Some i) [0..<NR_SUPER]"

fun iget_loop :: "nat \<Rightarrow> u16 \<Rightarrow> u16 \<Rightarrow> nat \<Rightarrow> (nat, 'z fs_state_scheme) proc" where
  "iget_loop 0 dev nr emp = stuckp"
| "iget_loop (Suc n) dev nr emp =
     bindp (getp (find_inode dev nr)) (\<lambda>r.
       case r of
         None \<Rightarrow>
           seqp (modp (upd_inode emp (\<lambda>m. m\<lparr>i_dev := dev, i_num := nr\<rparr>)))
           (seqp (read_inode emp) (retp emp))
       | Some i \<Rightarrow>
           seqp (wait_on_inode i)
           (ifp (\<lambda>s. i_dev (inode_table s i) \<noteq> dev \<or> i_num (inode_table s i) \<noteq> nr) (iget_loop n dev nr emp)
           (seqp (modp (upd_inode i (\<lambda>m. m\<lparr>i_count := i_count m + 1\<rparr>)))
           (ifp (\<lambda>s. i_mount (inode_table s i) \<noteq> 0)
              (bindp (getp (find_mounted i)) (\<lambda>k.
                 case k of
                   None \<Rightarrow>
                     seqp (modp (printk ''Mounted inode hasn't got sb''))
                     (seqp (iput (Some emp)) (retp i))
                 | Some sb \<Rightarrow>
                     seqp (iput (Some i))
                     (bindp (getp (\<lambda>s. s_dev (super_blocks s sb))) (\<lambda>dev'.
                       iget_loop n dev' (word_of_int ROOT_INO) emp))))
              (seqp (iput (Some emp)) (retp i))))))"

definition iget :: "u16 \<Rightarrow> u16 \<Rightarrow> (nat, 'z fs_state_scheme) proc" where
  "iget dev nr =
     (if dev = 0 then panicp ''iget with dev==0''
      else bindp get_empty_inode (\<lambda>emp. fuelp (\<lambda>n. iget_loop n dev nr emp)))"

definition new_inode :: "u16 \<Rightarrow> (nat option, 'z fs_state_scheme) proc" where
  "new_inode dev =
     bindp get_empty_inode (\<lambda>i.
     bindp (get_super dev) (\<lambda>r.
       case r of
         None \<Rightarrow> panicp ''new_inode with unknown device''
       | Some sb \<Rightarrow>
           bindp (getp (\<lambda>s. scan_bitmaps [0..<8] (s_imap (super_blocks s sb)) (bufs s))) (\<lambda>f.
           bindp (getp (\<lambda>s. s_ninodes (super_blocks s sb))) (\<lambda>ninodes.
             case f of
               None \<Rightarrow> seqp (iput (Some i)) (retp None)
             | Some (k, bh, j) \<Rightarrow>
                 if j + k * 8192 > unat ninodes then seqp (iput (Some i)) (retp None)
                 else
                   bindp (getp (\<lambda>s. fst (set_bit j (b_data (bufs s bh))))) (\<lambda>was_set.
                   seqp (modp (upd_buf bh (\<lambda>b. b\<lparr>b_data := snd (set_bit j (b_data b))\<rparr>)))
                   (if was_set then panicp ''new_inode: bit already set''
                    else
                      seqp (modp (upd_buf bh (\<lambda>b. b\<lparr>b_dirt := 1\<rparr>)))
                      (seqp (modp (\<lambda>s. upd_inode i (\<lambda>m. m\<lparr>i_count := 1, i_nlinks := 1, i_dev := dev,
                          i_uid := euid (cur s), i_gid := ucast (egid (cur s)), i_dirt := 1,
                          i_num := of_nat (j + k * 8192),
                          i_mtime := now s, i_atime := now s, i_ctime := now s\<rparr>) s))
                        (retp (Some i)))))))))"

subsection \<open>From file blocks to disk blocks\<close>

text \<open>\<open>if (create && !inode->i_zone[k]) if (inode->i_zone[k]=new_block(...))\<close>.\<close>

definition alloc_zone :: "nat \<Rightarrow> nat \<Rightarrow> bool \<Rightarrow> (unit, 'z fs_state_scheme) proc" where
  "alloc_zone i k create =
     ifp (\<lambda>s. create \<and> i_zone (inode_table s i) k = 0)
       (bindp (getp (\<lambda>s. i_dev (inode_table s i))) (\<lambda>dev.
        bindp (new_block dev) (\<lambda>z.
          seqp (modp (upd_inode i (\<lambda>n. n\<lparr>i_zone := (i_zone n)(k := z)\<rparr>)))
            (if z \<noteq> 0 then modp (\<lambda>s. upd_inode i (\<lambda>n. n\<lparr>i_ctime := now s, i_dirt := 1\<rparr>) s) else retp ()))))
       (retp ())"

text \<open>Entry \<open>k\<close> of the indirect block in buffer \<open>bh\<close>, created when asked for; the buffer is released.\<close>

definition ind_entry :: "nat \<Rightarrow> nat \<Rightarrow> nat \<Rightarrow> bool \<Rightarrow> (u16, 'z fs_state_scheme) proc" where
  "ind_entry i bh k create =
     bindp (getp (\<lambda>s. get_u16 (b_data (bufs s bh)) (2 * k))) (\<lambda>z.
     bindp (if create \<and> z = 0
            then bindp (getp (\<lambda>s. i_dev (inode_table s i))) (\<lambda>dev.
              bindp (new_block dev) (\<lambda>z.
                if z \<noteq> 0
                then seqp (modp (upd_buf bh (\<lambda>b. b\<lparr>b_data := put_u16 (2 * k) z (b_data b), b_dirt := 1\<rparr>))) (retp z)
                else retp 0))
            else retp z)
       (\<lambda>z. seqp (brelse (Some bh)) (retp z)))"

definition bread_zone :: "nat \<Rightarrow> u16 \<Rightarrow> (nat option, 'z fs_state_scheme) proc" where
  "bread_zone i z = bindp (getp (\<lambda>s. i_dev (inode_table s i))) (\<lambda>dev. bread dev (ucast z))"

definition bmap_create :: "nat \<Rightarrow> int \<Rightarrow> bool \<Rightarrow> (u16, 'z fs_state_scheme) proc" where
  "bmap_create i block create =
     (if block < 0 then panicp ''_bmap: block<0''
      else if block \<ge> 7 + 512 + 512 * 512 then panicp ''_bmap: block>big''
      else if block < 7
      then seqp (alloc_zone i (nat block) create) (getp (\<lambda>s. i_zone (inode_table s i) (nat block)))
      else
        let block = nat (block - 7) in
        if block < 512
        then
          seqp (alloc_zone i 7 create)
          (bindp (getp (\<lambda>s. i_zone (inode_table s i) 7)) (\<lambda>z.
             if z = 0 then retp 0
             else bindp (bread_zone i z) (\<lambda>r.
               case r of None \<Rightarrow> retp 0 | Some bh \<Rightarrow> ind_entry i bh block create)))
        else
          let block = block - 512 in
          seqp (alloc_zone i 8 create)
          (bindp (getp (\<lambda>s. i_zone (inode_table s i) 8)) (\<lambda>z.
             if z = 0 then retp 0
             else bindp (bread_zone i z) (\<lambda>r.
               case r of
                 None \<Rightarrow> retp 0
               | Some bh \<Rightarrow>
                   bindp (ind_entry i bh (block div 512) create) (\<lambda>z.
                     if z = 0 then retp 0
                     else bindp (bread_zone i z) (\<lambda>r.
                       case r of None \<Rightarrow> retp 0 | Some bh \<Rightarrow> ind_entry i bh (block mod 512) create))))))"

definition bmap :: "nat \<Rightarrow> int \<Rightarrow> (u16, 'z fs_state_scheme) proc" where
  "bmap i block = bmap_create i block False"

definition create_block :: "nat \<Rightarrow> int \<Rightarrow> (u16, 'z fs_state_scheme) proc" where
  "create_block i block = bmap_create i block True"

end
