(* ===== verification/Kernel_Dlist.thy ===== *)
theory Kernel_Dlist
  imports Main
begin

text \<open>
  Doubly linked lists. \<open>nx\<close> and \<open>pv\<close> are the successor and predecessor fields of the nodes.
  \<open>dlinks\<close> says that neighbours in a list of nodes point to each other; a list that ends in null
  pointers is a \<open>dchain\<close>, a circular one a \<open>dring\<close>. The lemmas give the effect of the stores
  that link and unlink a node.
\<close>

fun dlinks :: "('n \<Rightarrow> 'n option) \<Rightarrow> ('n \<Rightarrow> 'n option) \<Rightarrow> 'n list \<Rightarrow> bool" where
  "dlinks nx pv (x # y # zs) \<longleftrightarrow> nx x = Some y \<and> pv y = Some x \<and> dlinks nx pv (y # zs)"
| "dlinks nx pv _ \<longleftrightarrow> True"

definition head_ptr :: "'n list \<Rightarrow> 'n option" where
  "head_ptr xs = (case xs of [] \<Rightarrow> None | x # _ \<Rightarrow> Some x)"

definition dchain :: "('n \<Rightarrow> 'n option) \<Rightarrow> ('n \<Rightarrow> 'n option) \<Rightarrow> 'n option \<Rightarrow> 'n list \<Rightarrow> bool" where
  "dchain nx pv p xs \<longleftrightarrow> p = head_ptr xs \<and> dlinks nx pv xs \<and>
     (xs \<noteq> [] \<longrightarrow> pv (hd xs) = None \<and> nx (last xs) = None)"

definition dring :: "('n \<Rightarrow> 'n option) \<Rightarrow> ('n \<Rightarrow> 'n option) \<Rightarrow> 'n list \<Rightarrow> bool" where
  "dring nx pv xs \<longleftrightarrow> xs \<noteq> [] \<and> dlinks nx pv (xs @ [hd xs])"

lemma head_ptr_simps [simp]: "head_ptr [] = None" "head_ptr (x # xs) = Some x"
  by (simp_all add: head_ptr_def)

lemma dlinks_Cons:
  "dlinks nx pv (x # xs) \<longleftrightarrow> (xs \<noteq> [] \<longrightarrow> nx x = Some (hd xs) \<and> pv (hd xs) = Some x) \<and> dlinks nx pv xs"
  by (cases xs) auto

lemma dlinks_append:
  "dlinks nx pv (xs @ ys) \<longleftrightarrow> dlinks nx pv xs \<and> dlinks nx pv ys \<and>
     (xs \<noteq> [] \<longrightarrow> ys \<noteq> [] \<longrightarrow> nx (last xs) = Some (hd ys) \<and> pv (hd ys) = Some (last xs))"
proof (induction xs)
  case (Cons x xs)
  show ?case by (cases xs; cases ys) (use Cons in \<open>auto simp: dlinks_Cons\<close>)
qed simp

lemma dlinks_cong:
  assumes "\<And>x. x \<in> set (butlast xs) \<Longrightarrow> nx' x = nx x" "\<And>x. x \<in> set (tl xs) \<Longrightarrow> pv' x = pv x"
  shows "dlinks nx' pv' xs = dlinks nx pv xs"
  using assms by (induction nx pv xs rule: dlinks.induct) auto

lemma in_tl: "x \<in> set (tl xs) \<Longrightarrow> x \<in> set xs"
  by (cases xs) auto

lemma distinct_ends:
  "distinct xs \<Longrightarrow> xs \<noteq> [] \<Longrightarrow> last xs \<notin> set (butlast xs)" "distinct xs \<Longrightarrow> xs \<noteq> [] \<Longrightarrow> hd xs \<notin> set (tl xs)"
  by (cases xs rule: rev_cases; simp) (cases xs; simp)

definition prev_in :: "'n list \<Rightarrow> 'n option" where
  "prev_in xs = (if xs = [] then None else Some (last xs))"

lemma head_ptr_eq: "head_ptr xs = (if xs = [] then None else Some (hd xs))"
  by (cases xs) auto

text \<open>The neighbours of a node.\<close>

lemma dchain_split:
  assumes "dchain nx pv p (xs @ b # ys)"
  shows "pv b = prev_in xs" "nx b = head_ptr ys" "p = Some (hd (xs @ [b]))"
  using assms by (auto simp: dchain_def prev_in_def head_ptr_eq dlinks_append dlinks_Cons hd_append)

text \<open>Unlinking a node: the stores to its neighbours.\<close>

lemma dlinks_unlink:
  assumes "dlinks nx pv (xs @ b # ys)" "distinct (xs @ b # ys)" "pv b = prev_in xs" "nx b = head_ptr ys"
    and nx': "\<And>x. x \<noteq> b \<Longrightarrow> nx' x = (if pv b = Some x then nx b else nx x)"
    and pv': "\<And>x. x \<noteq> b \<Longrightarrow> pv' x = (if nx b = Some x then pv b else pv x)"
  shows "dlinks nx' pv' (xs @ ys)"
proof -
  have d: "b \<notin> set xs" "b \<notin> set ys" "set xs \<inter> set ys = {}" "distinct xs" "distinct ys" using assms(2) by auto
  have "dlinks nx' pv' xs = dlinks nx pv xs"
  proof (rule dlinks_cong)
    fix x assume "x \<in> set (butlast xs)"
    then have "x \<in> set xs" "pv b \<noteq> Some x" using d distinct_ends(1)[of xs] assms(3)
      by (auto simp: prev_in_def dest: in_set_butlastD split: if_splits)
    then show "nx' x = nx x" using d nx'[of x] by auto
  next
    fix x assume "x \<in> set (tl xs)"
    then have "x \<in> set xs" by (cases xs) auto
    moreover have "ys \<noteq> [] \<Longrightarrow> hd ys \<noteq> x" using calculation d(3) hd_in_set by (metis disjoint_iff)
    ultimately show "pv' x = pv x" using d(1) pv'[of x] assms(4) by (auto simp: head_ptr_eq split: if_splits)
  qed
  moreover have "dlinks nx' pv' ys = dlinks nx pv ys"
  proof (rule dlinks_cong)
    fix x assume "x \<in> set (butlast ys)"
    then have "x \<in> set ys" by (rule in_set_butlastD)
    moreover have "xs \<noteq> [] \<Longrightarrow> last xs \<noteq> x" using calculation d(3) last_in_set by (metis disjoint_iff)
    ultimately show "nx' x = nx x" using d(2) nx'[of x] assms(3) by (auto simp: prev_in_def split: if_splits)
  next
    fix x assume "x \<in> set (tl ys)"
    then have "x \<in> set ys" "nx b \<noteq> Some x" using d distinct_ends(2)[of ys] assms(4)
      by (auto simp: head_ptr_eq split: if_splits dest: list.set_sel(2)[rotated])
    then show "pv' x = pv x" using d pv'[of x] by auto
  qed
  moreover have "nx' (last xs) = Some (hd ys) \<and> pv' (hd ys) = Some (last xs)" if e: "xs \<noteq> []" "ys \<noteq> []"
  proof -
    have "last xs \<noteq> b" "hd ys \<noteq> b" using e d(1,2) hd_in_set last_in_set by metis+
    then show ?thesis using e nx'[of "last xs"] pv'[of "hd ys"] assms(3,4) by (simp add: prev_in_def head_ptr_eq)
  qed
  ultimately show ?thesis using assms(1) by (simp add: dlinks_append dlinks_Cons)
qed

lemma dchain_unlink:
  assumes "dchain nx pv p (xs @ b # ys)" "distinct (xs @ b # ys)"
    and nx': "\<And>x. x \<noteq> b \<Longrightarrow> nx' x = (if pv b = Some x then nx b else nx x)"
    and pv': "\<And>x. x \<noteq> b \<Longrightarrow> pv' x = (if nx b = Some x then pv b else pv x)"
  shows "dchain nx' pv' (if p = Some b then nx b else p) (xs @ ys)"
proof -
  note n = dchain_split[OF assms(1)]
  have d: "b \<notin> set xs" "b \<notin> set ys" using assms(2) by auto
  have hb: "ys \<noteq> [] \<Longrightarrow> hd ys \<noteq> b" "xs \<noteq> [] \<Longrightarrow> last xs \<noteq> b" using d hd_in_set last_in_set by metis+
  have e: "pv (hd (xs @ [b])) = None" "nx (last (b # ys)) = None"
    using assms(1) by (auto simp: dchain_def hd_append split: if_splits)
  have l: "dlinks nx' pv' (xs @ ys)"
    using dlinks_unlink[OF _ assms(2) n(1,2) nx' pv'] assms(1) by (simp add: dchain_def)
  have h: "(if p = Some b then nx b else p) = head_ptr (xs @ ys)"
    using n d by (cases xs) (auto simp: head_ptr_eq)
  have "pv' (hd (xs @ ys)) = None \<and> nx' (last (xs @ ys)) = None" if "xs @ ys \<noteq> []"
  proof
    show "pv' (hd (xs @ ys)) = None"
    proof (cases xs)
      case Nil
      then show ?thesis using that hb pv'[of "hd ys"] n by (auto simp: prev_in_def head_ptr_eq)
    next
      case (Cons x zs)
      then have "nx b \<noteq> Some x" using assms(2) n(2) by (auto simp: head_ptr_eq)
      then show ?thesis using Cons d e pv'[of x] by auto
    qed
    show "nx' (last (xs @ ys)) = None"
    proof (cases "ys = []")
      case True
      then show ?thesis using that hb nx'[of "last xs"] n by (auto simp: prev_in_def)
    next
      case False
      then have "xs \<noteq> [] \<Longrightarrow> last xs \<noteq> last ys"
        using assms(2) last_in_set by (metis disjoint_iff distinct_append list.set_intros(2))
      then have "pv b \<noteq> Some (last ys)" using n(1) by (simp add: prev_in_def)
      moreover have "last ys \<noteq> b" using False d(2) last_in_set by metis
      ultimately show ?thesis using False e nx'[of "last ys"] by auto
    qed
  qed
  then show ?thesis using l h by (simp add: dchain_def)
qed

text \<open>A new first node.\<close>

lemma dchain_push:
  assumes "dchain nx pv p xs" "b \<notin> set xs" "distinct xs" "nx' b = p" "pv' b = None"
    and "\<And>x. x \<noteq> b \<Longrightarrow> nx' x = nx x" "\<And>x. x \<noteq> b \<Longrightarrow> pv' x = (if p = Some x then Some b else pv x)"
  shows "dchain nx' pv' (Some b) (b # xs)"
proof -
  have "dlinks nx' pv' xs = dlinks nx pv xs"
  proof (rule dlinks_cong)
    fix x assume "x \<in> set (butlast xs)" then show "nx' x = nx x" using assms(2,6) in_set_butlastD[of x xs] by metis
  next
    fix x assume x: "x \<in> set (tl xs)"
    then have "x \<in> set xs" "xs \<noteq> []" by (cases xs; auto)+
    then have "x \<noteq> b" "p \<noteq> Some x"
      using x distinct_ends(2)[OF assms(3)] assms(1,2) by (auto simp: dchain_def head_ptr_eq)
    then show "pv' x = pv x" using assms(7) by simp
  qed
  moreover have "xs \<noteq> [] \<Longrightarrow> nx' (last xs) = nx (last xs)" using assms(2,6) last_in_set by metis
  ultimately show ?thesis using assms by (cases xs) (auto simp: dchain_def dlinks_Cons split: if_splits)
qed

text \<open>A chain whose nodes are not touched.\<close>

lemma dchain_cong:
  assumes "\<And>x. x \<in> set xs \<Longrightarrow> nx' x = nx x" "\<And>x. x \<in> set xs \<Longrightarrow> pv' x = pv x"
  shows "dchain nx' pv' p xs = dchain nx pv p xs"
proof -
  have "dlinks nx' pv' xs = dlinks nx pv xs"
    by (rule dlinks_cong) (use assms in \<open>auto dest: in_set_butlastD in_tl\<close>)
  then show ?thesis using assms by (auto simp: dchain_def)
qed

subsection \<open>Rings\<close>

lemma dring_alt:
  "dring nx pv xs \<longleftrightarrow> xs \<noteq> [] \<and> dlinks nx pv xs \<and> nx (last xs) = Some (hd xs) \<and> pv (hd xs) = Some (last xs)"
  by (auto simp: dring_def dlinks_append)

lemma dring_rotate: "dring nx pv (xs @ ys) = dring nx pv (ys @ xs)"
  by (cases "xs = []"; cases "ys = []") (auto simp: dring_alt dlinks_append)

text \<open>The neighbours of the first node of a ring with at least two nodes, and the ring without it.\<close>

lemma dring_unlink_first:
  assumes "dring nx pv (b # ys)" "distinct (b # ys)" "ys \<noteq> []"
    and nx': "\<And>x. x \<noteq> b \<Longrightarrow> nx' x = (if pv b = Some x then nx b else nx x)"
    and pv': "\<And>x. x \<noteq> b \<Longrightarrow> pv' x = (if nx b = Some x then pv b else pv x)"
  shows "dring nx' pv' ys"
proof -
  have r: "nx b = Some (hd ys)" "pv b = Some (last ys)" "dlinks nx pv ys"
    using assms(1,3) by (auto simp: dring_alt dlinks_Cons)
  have n: "hd ys \<noteq> b" "last ys \<noteq> b" using assms(2,3) hd_in_set last_in_set by (metis distinct.simps(2))+
  have "dlinks nx' pv' ys = dlinks nx pv ys"
  proof (rule dlinks_cong)
    fix x assume "x \<in> set (butlast ys)"
    then have "x \<noteq> b" "last ys \<noteq> x" using assms(2,3) distinct_ends(1)[of ys] by (auto dest: in_set_butlastD)
    then show "nx' x = nx x" using nx' r(2) by simp
  next
    fix x assume "x \<in> set (tl ys)"
    then have "x \<noteq> b" "hd ys \<noteq> x" using assms(2,3) distinct_ends(2)[of ys] by (auto dest: in_tl)
    then show "pv' x = pv x" using pv' r(1) by simp
  qed
  then show ?thesis using r n assms(3) by (simp add: dring_alt nx' pv')
qed

text \<open>A node put in before the first one, at the end of the ring.\<close>

lemma dring_append:
  assumes "dring nx pv ys" "distinct ys" "b \<notin> set ys" "nx' b = Some (hd ys)" "pv' b = Some (last ys)"
    and nx': "\<And>x. x \<noteq> b \<Longrightarrow> nx' x = (if x = last ys then Some b else nx x)"
    and pv': "\<And>x. x \<noteq> b \<Longrightarrow> pv' x = (if x = hd ys then Some b else pv x)"
  shows "dring nx' pv' (ys @ [b])"
proof -
  have y: "ys \<noteq> []" using assms(1) by (simp add: dring_alt)
  then have n: "hd ys \<noteq> b" "last ys \<noteq> b" using assms(3) hd_in_set last_in_set by metis+
  have "dlinks nx' pv' ys = dlinks nx pv ys"
  proof (rule dlinks_cong)
    fix x assume "x \<in> set (butlast ys)"
    then have "x \<noteq> b" "last ys \<noteq> x" using assms(2,3) y distinct_ends(1)[of ys] by (auto dest: in_set_butlastD)
    then show "nx' x = nx x" using nx' by simp
  next
    fix x assume "x \<in> set (tl ys)"
    then have "x \<noteq> b" "hd ys \<noteq> x" using assms(2,3) y distinct_ends(2)[of ys] by (auto dest: in_tl)
    then show "pv' x = pv x" using pv' by simp
  qed
  then show ?thesis using assms y n by (simp add: dring_alt dlinks_append)
qed

lemma dring_cong:
  assumes "\<And>x. x \<in> set xs \<Longrightarrow> nx' x = nx x" "\<And>x. x \<in> set xs \<Longrightarrow> pv' x = pv x"
  shows "dring nx' pv' xs = dring nx pv xs"
proof -
  have "dlinks nx' pv' xs = dlinks nx pv xs"
    by (rule dlinks_cong) (use assms in \<open>auto dest: in_set_butlastD in_tl\<close>)
  then show ?thesis using assms by (auto simp: dring_alt)
qed

end
