(* ===== verification/Fs_Cache.thy ===== *)
theory Fs_Cache
  imports Fs_Inode Kernel_Dlist
begin

text \<open>
  What the buffer cache guarantees. \<open>cache_inv N\<close>: the \<open>N\<close> buffer heads form one circular free
  list; the buffers that have a device are exactly the members of the hash chains, each on the chain of
  its device and block; no two buffers hold the same block. \<open>queues_ok ({..<N} - {b})\<close> says so of the buffers other
  than \<open>b\<close>, which holds between \<open>remove_from_queues\<close> and \<open>insert_into_queues\<close>.
\<close>

definition free_ring :: "nat set \<Rightarrow> 'z fs_state_scheme \<Rightarrow> bool" where
  "free_ring A s \<longleftrightarrow> (\<exists>fl. distinct fl \<and> set fl = A \<and> free_list s = Some (hd fl) \<and>
     dring (\<lambda>b. b_next_free (bufs s b)) (\<lambda>b. b_prev_free (bufs s b)) fl)"

definition hash_chains :: "nat set \<Rightarrow> 'z fs_state_scheme \<Rightarrow> bool" where
  "hash_chains A s \<longleftrightarrow> (\<forall>h<NR_HASH. \<exists>xs. distinct xs \<and>
     set xs = {b\<in>A. b_dev (bufs s b) \<noteq> 0 \<and> hash_of (bufs s b) = h} \<and>
     dchain (\<lambda>b. b_next (bufs s b)) (\<lambda>b. b_prev (bufs s b)) (hash_table s h) xs)"

definition no_twins :: "nat set \<Rightarrow> 'z fs_state_scheme \<Rightarrow> bool" where
  "no_twins A s \<longleftrightarrow> (\<forall>b\<in>A. \<forall>c\<in>A. b_dev (bufs s b) \<noteq> 0 \<and> b_dev (bufs s c) = b_dev (bufs s b) \<and>
     b_blocknr (bufs s c) = b_blocknr (bufs s b) \<longrightarrow> c = b)"

definition queues_ok :: "nat set \<Rightarrow> 'z fs_state_scheme \<Rightarrow> bool" where
  "queues_ok A s \<longleftrightarrow> free_ring A s \<and> hash_chains A s \<and> no_twins A s \<and>
     (\<forall>b\<in>A. b_dev (bufs s b) = 0 \<longrightarrow> b_next (bufs s b) = None \<and> b_prev (bufs s b) = None)"

definition cache_inv :: "nat \<Rightarrow> 'z fs_state_scheme \<Rightarrow> bool" where
  "cache_inv N s \<longleftrightarrow> 2 \<le> N \<and> NR_BUFFERS s = N \<and> queues_ok {..<N} s"

subsection \<open>Removing and inserting\<close>

definition unlinked :: "nat \<Rightarrow> (nat \<Rightarrow> buffer_head) \<Rightarrow> nat \<Rightarrow> buffer_head" where
  "unlinked b bs x =
     (bs x)\<lparr>b_prev := if b_next (bs b) = Some x then b_prev (bs b) else b_prev (bs x),
            b_next := if b_prev (bs b) = Some x then b_next (bs b) else b_next (bs x),
            b_prev_free := if b_next_free (bs b) = Some x then b_prev_free (bs b) else b_prev_free (bs x),
            b_next_free := if b_prev_free (bs b) = Some x then b_next_free (bs b) else b_next_free (bs x)\<rparr>"

lemma remove_state:
  assumes "b_next (bufs s b) \<noteq> Some b" "b_prev (bufs s b) \<noteq> Some b"
    "b_next_free (bufs s b) = Some n" "b_prev_free (bufs s b) = Some p" "n \<noteq> b" "p \<noteq> b"
  shows "\<exists>s'. remove_from_queues b s = Ok () s' \<and> bufs s' = unlinked b (bufs s) \<and>
    hash_table s' = (let h = hash_of (bufs s b) in
      if hash_table s h = Some b then (hash_table s)(h := b_next (bufs s b)) else hash_table s) \<and>
    free_list s' = (if free_list s = Some b then Some n else free_list s) \<and> NR_BUFFERS s' = NR_BUFFERS s"
proof -
  define s1 where "s1 = upd_ptr (b_next (bufs s b)) (\<lambda>x. x\<lparr>b_prev := b_prev (bufs s b)\<rparr>) s"
  define s2 where "s2 = upd_ptr (b_prev (bufs s1 b)) (\<lambda>x. x\<lparr>b_next := b_next (bufs s1 b)\<rparr>) s1"
  have b1: "bufs s1 b = bufs s b" "hash_table s1 = hash_table s" "free_list s1 = free_list s" "NR_BUFFERS s1 = NR_BUFFERS s"
    using assms(1) by (auto simp: s1_def upd_ptr_def upd_buf_def split: option.split)
  have b2: "bufs s2 b = bufs s b" "hash_table s2 = hash_table s" "free_list s2 = free_list s" "NR_BUFFERS s2 = NR_BUFFERS s"
    using assms(2) by (auto simp: s2_def b1 upd_ptr_def upd_buf_def split: option.split)
  have x2: "bufs s2 x = (bufs s x)\<lparr>b_prev := if b_next (bufs s b) = Some x then b_prev (bufs s b) else b_prev (bufs s x),
            b_next := if b_prev (bufs s b) = Some x then b_next (bufs s b) else b_next (bufs s x)\<rparr>" for x
    unfolding s2_def b1 by (auto simp: s1_def upd_ptr_def upd_buf_def split: option.split)
  define s3 where "s3 = (if hash_table s (hash_of (bufs s b)) = Some b
     then s2\<lparr>hash_table := (hash_table s)(hash_of (bufs s b) := b_next (bufs s b))\<rparr> else s2)"
  have b3: "bufs s3 = bufs s2" "free_list s3 = free_list s" "NR_BUFFERS s3 = NR_BUFFERS s"
    "hash_table s3 = (let h = hash_of (bufs s b) in
      if hash_table s h = Some b then (hash_table s)(h := b_next (bufs s b)) else hash_table s)"
    by (simp_all add: s3_def b2 Let_def)
  define s4 where "s4 = upd_buf n (\<lambda>x. x\<lparr>b_prev_free := Some p\<rparr>) (upd_buf p (\<lambda>x. x\<lparr>b_next_free := Some n\<rparr>) s3)"
  have "remove_from_queues b s = Ok () (if free_list s4 = Some b then s4\<lparr>free_list := Some n\<rparr> else s4)"
    unfolding remove_from_queues_def Let_def s1_def[symmetric] s2_def[symmetric] b2 s3_def[symmetric]
    by (simp add: b3 b2 assms s4_def)
  moreover have "bufs s4 x = unlinked b (bufs s) x" for x
    by (auto simp: s4_def upd_buf_def b3 x2 unlinked_def assms)
  moreover have "free_list s4 = free_list s" "hash_table s4 = hash_table s3" "NR_BUFFERS s4 = NR_BUFFERS s"
    by (simp_all add: s4_def upd_buf_def b3)
  ultimately show ?thesis using b3(4) by (auto simp: fun_eq_iff)
qed

lemma unlinked_simps [simp]:
  "b_dev (unlinked b bs x) = b_dev (bs x)" "b_blocknr (unlinked b bs x) = b_blocknr (bs x)"
  "hash_of (unlinked b bs x) = hash_of (bs x)"
  by (simp_all add: unlinked_def hash_of_def)

text \<open>Where a buffer stands in its queues.\<close>

lemma free_ring_split:
  assumes "free_ring A s" "b \<in> A" "A \<noteq> {b}"
  obtains xs zs where "distinct (xs @ b # zs)" "set (xs @ b # zs) = A" "zs @ xs \<noteq> []"
    "free_list s = Some (hd (xs @ b # zs))"
    "dring (\<lambda>x. b_next_free (bufs s x)) (\<lambda>x. b_prev_free (bufs s x)) (b # zs @ xs)"
proof -
  obtain fl where fl: "distinct fl" "set fl = A" "free_list s = Some (hd fl)"
    "dring (\<lambda>x. b_next_free (bufs s x)) (\<lambda>x. b_prev_free (bufs s x)) fl"
    using assms(1) by (auto simp: free_ring_def)
  then obtain xs zs where sp: "fl = xs @ b # zs" using assms(2) by (metis split_list)
  show ?thesis
    using that[of xs zs] fl assms(3) sp dring_rotate[of _ _ xs "b # zs"] by auto
qed

lemma ring_neighbours:
  assumes "dring nx pv (b # ys)" "distinct (b # ys)" "ys \<noteq> []"
  shows "nx b = Some (hd ys)" "pv b = Some (last ys)" "hd ys \<noteq> b" "last ys \<noteq> b"
  using assms hd_in_set[of ys] last_in_set[of ys] by (auto simp: dring_alt dlinks_Cons)

text \<open>\<open>remove_from_queues\<close> takes the buffer out of both queues.\<close>

lemma free_ring_unlink:
  assumes "free_ring A s" "b \<in> A" "A \<noteq> {b}" "bufs s' = unlinked b (bufs s)"
    "free_list s' = (if free_list s = Some b then b_next_free (bufs s b) else free_list s)"
  shows "free_ring (A - {b}) s'"
proof -
  obtain xs zs where f: "distinct (xs @ b # zs)" "set (xs @ b # zs) = A" "zs @ xs \<noteq> []"
    "free_list s = Some (hd (xs @ b # zs))"
    "dring (\<lambda>x. b_next_free (bufs s x)) (\<lambda>x. b_prev_free (bufs s x)) (b # zs @ xs)"
    using free_ring_split[OF assms(1-3)] by blast
  have d: "distinct (b # zs @ xs)" using f(1) by auto
  have "dring (\<lambda>x. b_next_free (bufs s' x)) (\<lambda>x. b_prev_free (bufs s' x)) (zs @ xs)"
    using dring_unlink_first[OF f(5) d f(3)] by (simp add: assms(4) unlinked_def)
  then have r: "dring (\<lambda>x. b_next_free (bufs s' x)) (\<lambda>x. b_prev_free (bufs s' x)) (xs @ zs)"
    by (simp add: dring_rotate[of _ _ xs zs])
  have "free_list s' = Some (hd (xs @ zs))"
    using assms(5) f(4) ring_neighbours(1)[OF f(5) d f(3)] d by (cases xs) auto
  then show ?thesis unfolding free_ring_def using r f(1,2) by (intro exI[of _ "xs @ zs"]) auto
qed

lemma hash_of_less [simp]: "hash_of h < NR_HASH"
  by (simp add: hash_of_def hashfn_def)

lemma hash_neighbours:
  assumes "hash_chains A s" "b \<in> A" "b_dev (bufs s b) \<noteq> 0" "b_next (bufs s b) = Some c \<or> b_prev (bufs s b) = Some c"
  shows "c \<in> A" "c \<noteq> b" "b_dev (bufs s c) \<noteq> 0" "hash_of (bufs s c) = hash_of (bufs s b)"
proof -
  obtain xs where xs: "distinct xs" "set xs = {c\<in>A. b_dev (bufs s c) \<noteq> 0 \<and> hash_of (bufs s c) = hash_of (bufs s b)}"
    "dchain (\<lambda>c. b_next (bufs s c)) (\<lambda>c. b_prev (bufs s c)) (hash_table s (hash_of (bufs s b))) xs"
    using assms(1) hash_of_less unfolding hash_chains_def by blast
  then have "b \<in> set xs" using assms(2,3) by simp
  then obtain us vs where sp: "xs = us @ b # vs" by (meson split_list)
  note n = dchain_split[OF xs(3)[unfolded sp]]
  have "c \<in> set us \<union> set vs" using assms(4) n(1,2) by (auto simp: prev_in_def head_ptr_eq split: if_splits)
  then have "c \<in> set xs" "c \<noteq> b" using xs(1) sp by auto
  then show "c \<in> A" "c \<noteq> b" "b_dev (bufs s c) \<noteq> 0" "hash_of (bufs s c) = hash_of (bufs s b)" using xs(2) by auto
qed

lemma hash_chains_unlink:
  assumes "hash_chains A s" "b \<in> A" "bufs s' = unlinked b (bufs s)"
    "\<forall>b\<in>A. b_dev (bufs s b) = 0 \<longrightarrow> b_next (bufs s b) = None \<and> b_prev (bufs s b) = None"
    "hash_table s' = (let h = hash_of (bufs s b) in
      if hash_table s h = Some b then (hash_table s)(h := b_next (bufs s b)) else hash_table s)"
  shows "hash_chains (A - {b}) s'"
  unfolding hash_chains_def
proof (intro allI impI)
  fix h :: nat assume h: "h < NR_HASH"
  obtain xs where xs: "distinct xs" "set xs = {c\<in>A. b_dev (bufs s c) \<noteq> 0 \<and> hash_of (bufs s c) = h}"
    "dchain (\<lambda>c. b_next (bufs s c)) (\<lambda>c. b_prev (bufs s c)) (hash_table s h) xs"
    using assms(1) h unfolding hash_chains_def by blast
  show "\<exists>xs. distinct xs \<and> set xs = {c \<in> A - {b}. b_dev (bufs s' c) \<noteq> 0 \<and> hash_of (bufs s' c) = h} \<and>
     dchain (\<lambda>c. b_next (bufs s' c)) (\<lambda>c. b_prev (bufs s' c)) (hash_table s' h) xs"
  proof (cases "b \<in> set xs")
    case True
    then obtain us vs where sp: "xs = us @ b # vs" by (meson split_list)
    have hb: "hash_of (bufs s b) = h" using True xs(2) by simp
    have "dchain (\<lambda>c. b_next (bufs s' c)) (\<lambda>c. b_prev (bufs s' c))
        (if hash_table s h = Some b then b_next (bufs s b) else hash_table s h) (us @ vs)"
      using dchain_unlink[OF xs(3)[unfolded sp] xs(1)[unfolded sp]] by (simp add: assms(3) unlinked_def)
    then have "dchain (\<lambda>c. b_next (bufs s' c)) (\<lambda>c. b_prev (bufs s' c)) (hash_table s' h) (us @ vs)"
      using assms(5) hb by (simp add: Let_def split: if_splits)
    moreover have "set (us @ vs) = {c \<in> A - {b}. b_dev (bufs s' c) \<noteq> 0 \<and> hash_of (bufs s' c) = h}"
      using xs(1,2) sp assms(3) by auto
    ultimately show ?thesis using xs(1) sp by (intro exI[of _ "us @ vs"]) simp
  next
    case False
    have nb: "b_next (bufs s b) \<noteq> Some c \<and> b_prev (bufs s b) \<noteq> Some c" if "c \<in> set xs" for c
      using hash_neighbours[OF assms(1,2), of c] assms(2,4) False xs(2) that by (cases "b_dev (bufs s b) = 0") auto
    have "hash_table s h = head_ptr xs" using xs(3) by (simp add: dchain_def)
    then have "hash_table s h \<noteq> Some b" using False by (auto simp: head_ptr_eq)
    then have "hash_table s' h = hash_table s h" using assms(5) by (auto simp: Let_def)
    moreover have "dchain (\<lambda>c. b_next (bufs s' c)) (\<lambda>c. b_prev (bufs s' c)) (hash_table s h) xs"
      using xs(3) nb by (subst dchain_cong) (auto simp: assms(3) unlinked_def)
    moreover have "set xs = {c \<in> A - {b}. b_dev (bufs s' c) \<noteq> 0 \<and> hash_of (bufs s' c) = h}"
      using xs(2) False assms(3) by auto
    ultimately show ?thesis using xs(1) by (intro exI[of _ xs]) simp
  qed
qed

lemma remove_detaches:
  assumes "queues_ok A s" "b \<in> A" "A \<noteq> {b}"
  shows "\<exists>s'. remove_from_queues b s = Ok () s' \<and> queues_ok (A - {b}) s' \<and> NR_BUFFERS s' = NR_BUFFERS s \<and>
    (\<forall>x. b_dev (bufs s' x) = b_dev (bufs s x) \<and> b_blocknr (bufs s' x) = b_blocknr (bufs s x))"
proof -
  have q: "free_ring A s" "hash_chains A s" "no_twins A s"
    "\<forall>b\<in>A. b_dev (bufs s b) = 0 \<longrightarrow> b_next (bufs s b) = None \<and> b_prev (bufs s b) = None"
    using assms(1) by (simp_all add: queues_ok_def)
  obtain xs zs where f: "distinct (xs @ b # zs)" "zs @ xs \<noteq> []"
    "dring (\<lambda>x. b_next_free (bufs s x)) (\<lambda>x. b_prev_free (bufs s x)) (b # zs @ xs)"
    using free_ring_split[OF q(1) assms(2,3)] by blast
  have d: "distinct (b # zs @ xs)" using f(1) by auto
  note n = ring_neighbours[OF f(3) d f(2)]
  have "b_next (bufs s b) \<noteq> Some b" "b_prev (bufs s b) \<noteq> Some b"
    using hash_neighbours(2)[OF q(2) assms(2), of b] q(4) assms(2) by (cases "b_dev (bufs s b) = 0"; auto)+
  from remove_state[OF this n] obtain s' where s': "remove_from_queues b s = Ok () s'" "bufs s' = unlinked b (bufs s)"
    "hash_table s' = (let h = hash_of (bufs s b) in
      if hash_table s h = Some b then (hash_table s)(h := b_next (bufs s b)) else hash_table s)"
    "free_list s' = (if free_list s = Some b then b_next_free (bufs s b) else free_list s)" "NR_BUFFERS s' = NR_BUFFERS s"
    using n(1) by auto
  have "free_ring (A - {b}) s'" by (rule free_ring_unlink[OF q(1) assms(2,3) s'(2,4)])
  moreover have "hash_chains (A - {b}) s'" by (rule hash_chains_unlink[OF q(2) assms(2) s'(2) q(4) s'(3)])
  moreover have "no_twins (A - {b}) s'" using q(3) by (simp add: no_twins_def s'(2))
  moreover have "b_next (bufs s' c) = None \<and> b_prev (bufs s' c) = None" if "c \<in> A - {b}" "b_dev (bufs s' c) = 0" for c
  proof -
    have "b_next (bufs s b) \<noteq> Some c \<and> b_prev (bufs s b) \<noteq> Some c"
      using hash_neighbours(3)[OF q(2) assms(2), of c] q(4) assms(2) that s'(2) by (cases "b_dev (bufs s b) = 0") auto
    then show ?thesis using that q(4) s'(2) by (simp add: unlinked_def)
  qed
  ultimately show ?thesis using s' by (intro exI[of _ s']) (simp add: queues_ok_def)
qed

definition linked :: "nat \<Rightarrow> nat \<Rightarrow> nat \<Rightarrow> nat option \<Rightarrow> (nat \<Rightarrow> buffer_head) \<Rightarrow> nat \<Rightarrow> buffer_head" where
  "linked b fl lst p bs x =
     (if x = b then (bs x)\<lparr>b_next_free := Some fl, b_prev_free := Some lst, b_prev := None, b_next := p\<rparr>
      else (bs x)\<lparr>b_next_free := if x = lst then Some b else b_next_free (bs x),
                  b_prev_free := if x = fl then Some b else b_prev_free (bs x),
                  b_prev := if p = Some x then Some b else b_prev (bs x)\<rparr>)"

lemma linked_simps [simp]:
  "b_dev (linked b fl lst p bs x) = b_dev (bs x)" "b_blocknr (linked b fl lst p bs x) = b_blocknr (bs x)"
  "hash_of (linked b fl lst p bs x) = hash_of (bs x)"
  by (simp_all add: linked_def hash_of_def)

lemma insert_state:
  assumes "free_list s = Some fl" "b_prev_free (bufs s fl) = Some lst" "fl \<noteq> b" "lst \<noteq> b"
    "p = (if b_dev (bufs s b) = 0 then None else hash_table s (hash_of (bufs s b)))" "p \<noteq> Some b"
  shows "\<exists>s'. insert_into_queues b s = Ok () s' \<and> bufs s' = linked b fl lst p (bufs s) \<and>
    hash_table s' = (if b_dev (bufs s b) = 0 then hash_table s else (hash_table s)(hash_of (bufs s b) := Some b)) \<and>
    free_list s' = free_list s \<and> NR_BUFFERS s' = NR_BUFFERS s"
proof -
  define s1 where "s1 = upd_buf b (\<lambda>x. x\<lparr>b_next_free := Some fl\<rparr>) s"
  define s2 where "s2 = upd_buf b (\<lambda>x. x\<lparr>b_prev_free := b_prev_free (bufs s1 fl)\<rparr>) s1"
  define s3 where "s3 = upd_buf b (\<lambda>x. x\<lparr>b_prev := None, b_next := None\<rparr>) (upd_buf fl (\<lambda>x. x\<lparr>b_prev_free := Some b\<rparr>)
      (upd_buf lst (\<lambda>x. x\<lparr>b_next_free := Some b\<rparr>) s2))"
  have s2: "b_prev_free (bufs s2 fl) = Some lst" using assms by (simp add: s2_def s1_def upd_buf_def)
  have s3: "bufs s3 = linked b fl lst None (bufs s)" "hash_table s3 = hash_table s" "free_list s3 = free_list s" "NR_BUFFERS s3 = NR_BUFFERS s"
    using assms by (auto simp: s3_def s2_def s1_def upd_buf_def linked_def fun_eq_iff)
  have e: "insert_into_queues b s = (if b_dev (bufs s3 b) = 0 then Ok () s3 else
      (let h = hash_of (bufs s3 b); s = upd_buf b (\<lambda>x. x\<lparr>b_next := hash_table s3 h\<rparr>) s3;
           s = s\<lparr>hash_table := (hash_table s)(h := Some b)\<rparr> in
        case b_next (bufs s b) of None \<Rightarrow> Ok () (store 20 (buf_addr b s) s)
        | Some nx \<Rightarrow> Ok () (upd_buf nx (\<lambda>x. x\<lparr>b_prev := Some b\<rparr>) s)))"
    unfolding insert_into_queues_def assms(1) option.case Let_def s1_def[symmetric] s2_def[symmetric] s2 s3_def[symmetric] by simp
  show ?thesis
  proof (cases "b_dev (bufs s b) = 0")
    case True
    then show ?thesis using e s3 assms(5) by (intro exI[of _ s3]) simp
  next
    case False
    show ?thesis
    proof (cases "hash_table s (hash_of (bufs s b))")
      case None
      then show ?thesis using e s3 False assms(5)
        by (simp add: Let_def upd_buf_def store_def) (auto simp: linked_def fun_eq_iff)
    next
      case (Some nx)
      then show ?thesis using e s3 False assms(5,6)
        by (simp add: Let_def upd_buf_def) (auto simp: linked_def fun_eq_iff)
    qed
  qed
qed

lemma insert_attaches:
  assumes "queues_ok (A - {b}) s" "b \<in> A"
    "\<forall>c\<in>A - {b}. b_dev (bufs s b) \<noteq> 0 \<longrightarrow> \<not> (b_dev (bufs s c) = b_dev (bufs s b) \<and> b_blocknr (bufs s c) = b_blocknr (bufs s b))"
  shows "\<exists>s'. insert_into_queues b s = Ok () s' \<and> queues_ok A s' \<and> NR_BUFFERS s' = NR_BUFFERS s \<and>
    (\<forall>x. b_dev (bufs s' x) = b_dev (bufs s x) \<and> b_blocknr (bufs s' x) = b_blocknr (bufs s x))"
proof -
  let ?h = "hash_of (bufs s b)"
  have q: "free_ring (A - {b}) s" "hash_chains (A - {b}) s" "no_twins (A - {b}) s"
    "\<forall>c\<in>A - {b}. b_dev (bufs s c) = 0 \<longrightarrow> b_next (bufs s c) = None \<and> b_prev (bufs s c) = None"
    using assms(1) by (simp_all add: queues_ok_def)
  obtain fl where fl: "distinct fl" "set fl = A - {b}" "free_list s = Some (hd fl)"
    "dring (\<lambda>x. b_next_free (bufs s x)) (\<lambda>x. b_prev_free (bufs s x)) fl"
    using q(1) by (auto simp: free_ring_def)
  have ne: "fl \<noteq> []" "b \<notin> set fl" using fl(2,4) by (auto simp: dring_alt)
  have hl: "hd fl \<noteq> b" "last fl \<noteq> b" "b_prev_free (bufs s (hd fl)) = Some (last fl)"
    using ne fl(4) hd_in_set last_in_set by (metis, metis, simp add: dring_alt)
  define p where "p = (if b_dev (bufs s b) = 0 then None else hash_table s ?h)"
  obtain ys where ys: "distinct ys" "set ys = {c\<in>A - {b}. b_dev (bufs s c) \<noteq> 0 \<and> hash_of (bufs s c) = ?h}"
    "dchain (\<lambda>c. b_next (bufs s c)) (\<lambda>c. b_prev (bufs s c)) (hash_table s ?h) ys"
    using q(2) hash_of_less unfolding hash_chains_def by blast
  have pin: "p = Some c \<Longrightarrow> c \<in> set ys" for c
    using ys(3) by (auto simp: p_def dchain_def head_ptr_eq split: if_splits)
  then have pb: "p \<noteq> Some b" using ys(2) by auto
  obtain s' where s': "insert_into_queues b s = Ok () s'" "bufs s' = linked b (hd fl) (last fl) p (bufs s)"
    "hash_table s' = (if b_dev (bufs s b) = 0 then hash_table s else (hash_table s)(?h := Some b))"
    "free_list s' = free_list s" "NR_BUFFERS s' = NR_BUFFERS s"
    using insert_state[OF fl(3) hl(3,1,2) p_def pb] by blast
  have "dring (\<lambda>x. b_next_free (bufs s' x)) (\<lambda>x. b_prev_free (bufs s' x)) (fl @ [b])"
    using hl by (intro dring_append[OF fl(4,1) ne(2)]) (simp_all add: s'(2) linked_def)
  then have "free_ring A s'"
    unfolding free_ring_def using fl(1-3) ne assms(2) s'(4) by (intro exI[of _ "fl @ [b]"]) auto
  moreover have "hash_chains A s'"
    unfolding hash_chains_def
  proof (intro allI impI)
    fix h :: nat assume "h < NR_HASH"
    then obtain xs where xs: "distinct xs" "set xs = {c\<in>A - {b}. b_dev (bufs s c) \<noteq> 0 \<and> hash_of (bufs s c) = h}"
      "dchain (\<lambda>c. b_next (bufs s c)) (\<lambda>c. b_prev (bufs s c)) (hash_table s h) xs"
      using q(2) unfolding hash_chains_def by blast
    show "\<exists>xs. distinct xs \<and> set xs = {c \<in> A. b_dev (bufs s' c) \<noteq> 0 \<and> hash_of (bufs s' c) = h} \<and>
     dchain (\<lambda>c. b_next (bufs s' c)) (\<lambda>c. b_prev (bufs s' c)) (hash_table s' h) xs"
    proof (cases "b_dev (bufs s b) \<noteq> 0 \<and> h = ?h")
      case True
      then have "dchain (\<lambda>c. b_next (bufs s' c)) (\<lambda>c. b_prev (bufs s' c)) (Some b) (b # xs)"
        using xs by (intro dchain_push[OF xs(3)]) (auto simp: s'(2) linked_def p_def)
      then show ?thesis using True xs assms(2) s'(2,3) by (intro exI[of _ "b # xs"]) auto
    next
      case False
      have np: "p \<noteq> Some c" if "c \<in> set xs" for c
      proof
        assume pc: "p = Some c"
        then have "b_dev (bufs s b) \<noteq> 0" by (simp add: p_def split: if_splits)
        moreover have "hash_of (bufs s c) = ?h" using pin[OF pc] unfolding ys(2) by simp
        moreover have "hash_of (bufs s c) = h" using that unfolding xs(2) by simp
        ultimately show False using False by simp
      qed
      have "dchain (\<lambda>c. b_next (bufs s' c)) (\<lambda>c. b_prev (bufs s' c)) (hash_table s h) xs"
        using xs(2,3) np by (subst dchain_cong) (auto simp: s'(2) linked_def)
      moreover have "hash_table s' h = hash_table s h" using False s'(3) by auto
      moreover have "set xs = {c \<in> A. b_dev (bufs s' c) \<noteq> 0 \<and> hash_of (bufs s' c) = h}"
        unfolding xs(2) s'(2) using False by auto
      ultimately show ?thesis using xs(1) by (intro exI[of _ xs]) simp
    qed
  qed
  moreover have "no_twins A s'"
    unfolding no_twins_def
  proof (intro ballI impI)
    fix x y assume xy: "x \<in> A" "y \<in> A" "b_dev (bufs s' x) \<noteq> 0 \<and> b_dev (bufs s' y) = b_dev (bufs s' x) \<and>
      b_blocknr (bufs s' y) = b_blocknr (bufs s' x)"
    then have t: "b_dev (bufs s x) \<noteq> 0" "b_dev (bufs s y) = b_dev (bufs s x)" "b_blocknr (bufs s y) = b_blocknr (bufs s x)"
      by (simp_all add: s'(2))
    show "y = x"
    proof (rule ccontr)
      assume "y \<noteq> x"
      then consider "x = b" "y \<in> A - {b}" | "y = b" "x \<in> A - {b}" | "x \<in> A - {b}" "y \<in> A - {b}" using xy by blast
      then show False
      proof cases
        case 1 then show ?thesis using assms(3) t by auto
      next
        case 2 then show ?thesis using assms(3) t by auto
      next
        case 3 then show ?thesis using q(3) t \<open>y \<noteq> x\<close> unfolding no_twins_def by blast
      qed
    qed
  qed
  moreover have "b_next (bufs s' c) = None \<and> b_prev (bufs s' c) = None" if "c \<in> A" "b_dev (bufs s' c) = 0" for c
  proof -
    have "p \<noteq> Some c" using pin[of c] ys(2) that s'(2) by auto
    then show ?thesis using that q(4) s'(2) by (auto simp: linked_def p_def)
  qed
  ultimately show ?thesis using s' by (intro exI[of _ s']) (simp add: queues_ok_def)
qed

subsection \<open>What leaves the queues alone\<close>

definition qfields :: "buffer_head \<Rightarrow> u16 \<times> u32 \<times> nat option \<times> nat option \<times> nat option \<times> nat option" where
  "qfields h = (b_dev h, b_blocknr h, b_prev h, b_next h, b_prev_free h, b_next_free h)"

lemma queues_ok_transfer:
  assumes "\<And>b. b \<in> A \<Longrightarrow> qfields (bufs s' b) = qfields (bufs s b)" "hash_table s' = hash_table s"
    "free_list s' = free_list s" "queues_ok A s"
  shows "queues_ok A s'"
proof -
  have e: "b_dev (bufs s' b) = b_dev (bufs s b)" "b_blocknr (bufs s' b) = b_blocknr (bufs s b)"
    "b_prev (bufs s' b) = b_prev (bufs s b)" "b_next (bufs s' b) = b_next (bufs s b)"
    "b_prev_free (bufs s' b) = b_prev_free (bufs s b)" "b_next_free (bufs s' b) = b_next_free (bufs s b)"
    "hash_of (bufs s' b) = hash_of (bufs s b)" if "b \<in> A" for b
    using assms(1)[OF that] by (simp_all add: qfields_def hash_of_def)
  have q: "free_ring A s" "hash_chains A s" "no_twins A s"
    "\<forall>b\<in>A. b_dev (bufs s b) = 0 \<longrightarrow> b_next (bufs s b) = None \<and> b_prev (bufs s b) = None"
    using assms(4) by (simp_all add: queues_ok_def)
  obtain fl where fl: "distinct fl" "set fl = A" "free_list s = Some (hd fl)"
    "dring (\<lambda>x. b_next_free (bufs s x)) (\<lambda>x. b_prev_free (bufs s x)) fl"
    using q(1) by (auto simp: free_ring_def)
  have "dring (\<lambda>x. b_next_free (bufs s' x)) (\<lambda>x. b_prev_free (bufs s' x)) fl"
    using fl(4) by (subst dring_cong[of fl _ "\<lambda>x. b_next_free (bufs s x)" _ "\<lambda>x. b_prev_free (bufs s x)"]) (simp_all add: fl(2) e)
  then have "free_ring A s'" using fl assms(3) by (auto simp: free_ring_def)
  moreover have "hash_chains A s'"
    unfolding hash_chains_def
  proof (intro allI impI)
    fix h :: nat assume "h < NR_HASH"
    then obtain xs where xs: "distinct xs" "set xs = {b\<in>A. b_dev (bufs s b) \<noteq> 0 \<and> hash_of (bufs s b) = h}"
      "dchain (\<lambda>b. b_next (bufs s b)) (\<lambda>b. b_prev (bufs s b)) (hash_table s h) xs"
      using q(2) unfolding hash_chains_def by blast
    have "dchain (\<lambda>b. b_next (bufs s' b)) (\<lambda>b. b_prev (bufs s' b)) (hash_table s' h) xs"
      using xs(3) unfolding assms(2)
      by (subst dchain_cong[of xs _ "\<lambda>x. b_next (bufs s x)" _ "\<lambda>x. b_prev (bufs s x)"]) (simp_all add: xs(2) e)
    moreover have "{b\<in>A. b_dev (bufs s' b) \<noteq> 0 \<and> hash_of (bufs s' b) = h} = {b\<in>A. b_dev (bufs s b) \<noteq> 0 \<and> hash_of (bufs s b) = h}"
      by (rule Collect_cong) (simp add: e cong: conj_cong)
    ultimately show "\<exists>xs. distinct xs \<and> set xs = {b\<in>A. b_dev (bufs s' b) \<noteq> 0 \<and> hash_of (bufs s' b) = h} \<and>
      dchain (\<lambda>b. b_next (bufs s' b)) (\<lambda>b. b_prev (bufs s' b)) (hash_table s' h) xs"
      using xs(1,2) by (intro exI[of _ xs]) simp
  qed
  moreover have "no_twins A s'" using q(3) by (simp add: no_twins_def e)
  ultimately show ?thesis using q(4) by (simp add: queues_ok_def e)
qed

lemma queues_ok_other: "b \<notin> A \<Longrightarrow> queues_ok A s \<Longrightarrow> queues_ok A (upd_buf b f s)"
  by (rule queues_ok_transfer[of A _ s]) (auto simp: upd_buf_def)

lemma cache_inv_cong:
  assumes "\<And>b. qfields (bufs s' b) = qfields (bufs s b)" "hash_table s' = hash_table s" "free_list s' = free_list s"
    "NR_BUFFERS s' = NR_BUFFERS s"
  shows "cache_inv N s' = cache_inv N s"
proof -
  have "queues_ok {..<N} s' = queues_ok {..<N} s"
    using queues_ok_transfer[of "{..<N}" s' s] queues_ok_transfer[of "{..<N}" s s'] assms by auto
  then show ?thesis by (simp add: cache_inv_def assms(4))
qed

lemma cache_inv_upd_buf [simp]:
  "(\<And>h. qfields (f h) = qfields h) \<Longrightarrow> cache_inv N (upd_buf b f s) = cache_inv N s"
  by (intro cache_inv_cong) (simp_all add: upd_buf_def)

lemma cache_inv_other [simp]:
  "cache_inv N (upd_req r g s) = cache_inv N s" "cache_inv N (printk m s) = cache_inv N s"
  "cache_inv N (s\<lparr>current_request := c\<rparr>) = cache_inv N s" "cache_inv N (s\<lparr>waitq := q\<rparr>) = cache_inv N s"
  "cache_inv N (s\<lparr>rd_mem := m'\<rparr>) = cache_inv N s" "cache_inv N (upd_inode i f s) = cache_inv N s"
  "cache_inv N (upd_super i f' s) = cache_inv N s" "cache_inv N (s\<lparr>phys := ph\<rparr>) = cache_inv N s"
  "cache_inv N (s\<lparr>last_inode := li\<rparr>) = cache_inv N s" "cache_inv N (s\<lparr>mem_map := mm\<rparr>) = cache_inv N s"
  unfolding upd_req_def printk_def upd_inode_def upd_super_def by (rule cache_inv_cong; simp)+

interpretation cache: blk_blind "cache_inv N"
  by unfold_locales (rule cache_inv_cong; simp add: qfields_def upd_buf_def upd_req_def printk_def)+

subsection \<open>Looking up a block\<close>

lemma find_chain_find:
  assumes "dchain (\<lambda>c. b_next (bs c)) (\<lambda>c. b_prev (bs c)) p xs" "length xs \<le> n"
  shows "find_chain n bs dev block p = List.find (\<lambda>c. b_dev (bs c) = dev \<and> b_blocknr (bs c) = block) xs"
proof -
  have "find_chain n bs dev block p = List.find (\<lambda>c. b_dev (bs c) = dev \<and> b_blocknr (bs c) = block) xs"
    if "p = head_ptr xs" "dlinks (\<lambda>c. b_next (bs c)) (\<lambda>c. b_prev (bs c)) xs" "xs \<noteq> [] \<longrightarrow> b_next (bs (last xs)) = None" "length xs \<le> n"
    using that
  proof (induction xs arbitrary: n p)
    case Nil
    then show ?case by (cases n) auto
  next
    case (Cons x xs)
    then obtain m where m: "n = Suc m" by (cases n) auto
    have "b_next (bs x) = head_ptr xs" using Cons.prems by (cases xs) (auto simp: dlinks_Cons)
    moreover have "xs \<noteq> [] \<longrightarrow> b_next (bs (last xs)) = None" using Cons.prems(3) by (simp split: if_splits)
    ultimately show ?case using Cons.IH[of "b_next (bs x)" m] Cons.prems(1,2,4) m by (auto simp: dlinks_Cons)
  qed
  then show ?thesis using assms by (simp add: dchain_def)
qed

lemma find_buffer_iff:
  assumes "cache_inv N s"
  shows "find_buffer dev block s = Some b \<longleftrightarrow>
    dev \<noteq> 0 \<and> b < N \<and> b_dev (bufs s b) = dev \<and> b_blocknr (bufs s b) = block"
proof -
  define P where "P c \<longleftrightarrow> b_dev (bufs s c) = dev \<and> b_blocknr (bufs s c) = block" for c
  have q: "queues_ok {..<N} s" "NR_BUFFERS s = N" using assms by (simp_all add: cache_inv_def)
  have "hashfn dev block < NR_HASH" by (simp add: hashfn_def)
  then obtain xs where xs: "distinct xs" "set xs = {b\<in>{..<N}. b_dev (bufs s b) \<noteq> 0 \<and> hash_of (bufs s b) = hashfn dev block}"
    "dchain (\<lambda>b. b_next (bufs s b)) (\<lambda>b. b_prev (bufs s b)) (hash_table s (hashfn dev block)) xs"
    using q(1) unfolding queues_ok_def hash_chains_def by blast
  have "length xs = card (set xs)" using xs(1) by (simp add: distinct_card)
  also have "\<dots> \<le> card {..<N}" using xs(2) by (intro card_mono) auto
  finally have "length xs \<le> N" by simp
  then have f: "find_buffer dev block s = List.find P xs"
    unfolding find_buffer_def q(2) P_def by (rule find_chain_find[OF xs(3)])
  have m: "c \<in> set xs \<longleftrightarrow> c < N \<and> dev \<noteq> 0" if "P c" for c
    using that xs(2) by (auto simp: P_def hash_of_def)
  have u: "c = d" if "P c" "P d" "c \<in> set xs" "d \<in> set xs" for c d
    using that q(1) xs(2) unfolding queues_ok_def no_twins_def P_def by auto
  show ?thesis
  proof
    assume "find_buffer dev block s = Some b"
    then have "P b" "b \<in> set xs" using f by (auto simp: find_Some_iff)
    then show "dev \<noteq> 0 \<and> b < N \<and> b_dev (bufs s b) = dev \<and> b_blocknr (bufs s b) = block" using m by (simp add: P_def)
  next
    assume a: "dev \<noteq> 0 \<and> b < N \<and> b_dev (bufs s b) = dev \<and> b_blocknr (bufs s b) = block"
    then have b: "P b" "b \<in> set xs" using m[of b] by (auto simp: P_def)
    then obtain c where c: "List.find P xs = Some c" by (cases "List.find P xs") (auto simp: find_None_iff)
    then have "P c" "c \<in> set xs" by (auto simp: find_Some_iff)
    then show "find_buffer dev block s = Some b" using c f u b by metis
  qed
qed

text \<open>Giving an unused buffer to a block that is not in the cache.\<close>

lemma claim_buffer_ok:
  assumes "cache_inv N s" "b < N" "find_buffer dev block s = None"
  shows "\<exists>s'. claim_buffer dev block b s = Ok () s' \<and> cache_inv N s' \<and> b_dev (bufs s' b) = dev \<and> b_blocknr (bufs s' b) = block"
proof -
  define s0 where "s0 = upd_buf b (\<lambda>h. h\<lparr>b_count := 1, b_dirt := 0, b_uptodate := 0\<rparr>) s"
  have c0: "cache_inv N s0" using assms(1) by (simp add: s0_def qfields_def)
  have f0: "find_buffer dev block s0 = None"
  proof (rule ccontr)
    assume "find_buffer dev block s0 \<noteq> None"
    then obtain c where "find_buffer dev block s0 = Some c" by auto
    then have "find_buffer dev block s = Some c"
      unfolding find_buffer_iff[OF c0] find_buffer_iff[OF assms(1)] by (auto simp: s0_def upd_buf_def split: if_splits)
    then show False using assms(3) by simp
  qed
  have q: "queues_ok {..<N} s0" "2 \<le> N" "NR_BUFFERS s0 = N" using c0 by (simp_all add: cache_inv_def)
  have "{..<N} \<noteq> {b}"
  proof
    assume "{..<N} = {b}"
    then have "card {..<N} = card {b}" by (rule arg_cong)
    then show False using q(2) by simp
  qed
  then obtain s1 where s1: "remove_from_queues b s0 = Ok () s1" "queues_ok ({..<N} - {b}) s1" "NR_BUFFERS s1 = N"
    "\<forall>x. b_dev (bufs s1 x) = b_dev (bufs s0 x) \<and> b_blocknr (bufs s1 x) = b_blocknr (bufs s0 x)"
    using remove_detaches[OF q(1), of b] assms(2) q(3) by auto
  define s2 where "s2 = upd_buf b (\<lambda>h. h\<lparr>b_dev := dev, b_blocknr := block\<rparr>) s1"
  have s2: "queues_ok ({..<N} - {b}) s2" "NR_BUFFERS s2 = N"
    "\<forall>c\<in>{..<N} - {b}. b_dev (bufs s2 b) \<noteq> 0 \<longrightarrow> \<not> (b_dev (bufs s2 c) = b_dev (bufs s2 b) \<and> b_blocknr (bufs s2 c) = b_blocknr (bufs s2 b))"
  proof -
    show "queues_ok ({..<N} - {b}) s2" using s1(2) by (simp add: s2_def queues_ok_other)
    show "NR_BUFFERS s2 = N" using s1(3) by (simp add: s2_def upd_buf_def)
    show "\<forall>c\<in>{..<N} - {b}. b_dev (bufs s2 b) \<noteq> 0 \<longrightarrow> \<not> (b_dev (bufs s2 c) = b_dev (bufs s2 b) \<and> b_blocknr (bufs s2 c) = b_blocknr (bufs s2 b))"
      using f0 find_buffer_iff[OF c0, of dev block] s1(4) by (auto simp: s2_def upd_buf_def)
  qed
  obtain s' where "insert_into_queues b s2 = Ok () s'" "queues_ok {..<N} s'" "NR_BUFFERS s' = N"
    "\<forall>x. b_dev (bufs s' x) = b_dev (bufs s2 x) \<and> b_blocknr (bufs s' x) = b_blocknr (bufs s2 x)"
    using insert_attaches[OF s2(1) _ s2(3)] assms(2) s2(2) by auto
  then show ?thesis using s1(1) q(2)
    by (intro exI[of _ s']) (simp add: claim_buffer_def s0_def[symmetric] s2_def[symmetric] cache_inv_def, simp add: s2_def upd_buf_def)
qed

subsection \<open>The operations of the cache\<close>

abbreviation "is_block dev block N \<equiv> (\<lambda>bh s. bh < N \<and> b_dev (bufs s bh) = dev \<and> b_blocknr (bufs s bh) = block)"

lemma keeps_wait_on_buffer [keeps_intros]: "keeps (cache_inv N) (wait_on_buffer b)"
  unfolding wait_on_buffer_def by (rule cache.keeps_wait)

lemma cache_inv_count [simp]: "cache_inv N (upd_buf b (\<lambda>h. h\<lparr>b_count := f h\<rparr>) s) = cache_inv N s"
  "cache_inv N (upd_buf b (\<lambda>h. h\<lparr>b_uptodate := u, b_dirt := d\<rparr>) s) = cache_inv N s"
  "cache_inv N (upd_buf b (\<lambda>h. h\<lparr>b_data := g h\<rparr>) s) = cache_inv N s"
  "cache_inv N (upd_buf b (\<lambda>h. h\<lparr>b_dirt := d\<rparr>) s) = cache_inv N s"
  by (simp_all add: qfields_def)

lemma keeps_brelse [keeps_intros]: "keeps (cache_inv N) (brelse b)"
  unfolding brelse_def by (intro keeps_intros keeps_mod) simp_all

lemma keeps_sync_dev_with:
  "keeps (cache_inv N) sync \<Longrightarrow> keeps (cache_inv N) (sync_dev_with sync dev)"
  unfolding sync_dev_with_def sync_dev_buffers_def by (intro keeps_intros cache.keeps_ll_rw_block) 

lemma yields_get_hash_loop:
  "yields (cache_inv N) (get_hash_loop n dev block :: (nat option, 'z fs_state_scheme) proc)
     (\<lambda>r s. \<forall>bh. r = Some bh \<longrightarrow> is_block dev block N bh s)"
proof (induction n)
  case (Suc n)
  have "yields (cache_inv N) (case r of None \<Rightarrow> retp None | Some bh \<Rightarrow>
           seqp (modp (upd_buf bh (\<lambda>b. b\<lparr>b_count := b_count b + 1\<rparr>)))
           (seqp (wait_on_buffer bh)
           (ifp (\<lambda>s. b_dev (bufs s bh) = dev \<and> b_blocknr (bufs s bh) = block) (retp (Some bh))
              (seqp (modp (upd_buf bh (\<lambda>b. b\<lparr>b_count := b_count b - 1\<rparr>)))
                (get_hash_loop n dev block :: (nat option, 'z fs_state_scheme) proc)))))
          (\<lambda>r s. \<forall>bh. r = Some bh \<longrightarrow> is_block dev block N bh s)"
    if "\<exists>s. cache_inv N s \<and> r = find_buffer dev block (s :: 'z fs_state_scheme)" for r
  proof (cases r)
    case None
    then show ?thesis by (simp add: yields_def keeps_ret) (simp add: retp_def)
  next
    case (Some bh)
    then have "bh < N" using that find_buffer_iff by metis
    then show ?thesis unfolding Some option.case
      by (intro yields_seq keeps_mod keeps_wait_on_buffer yields_if_ret Suc.IH) auto
  qed
  then show ?case unfolding get_hash_loop.simps by (rule yields_bind_value[OF yields_get])
qed (auto intro: yields_intros)

lemma yields_get_hash_table:
  "yields (cache_inv N) (get_hash_table dev block) (\<lambda>r s. \<forall>bh. r = Some bh \<longrightarrow> is_block dev block N bh s)"
  unfolding get_hash_table_def by (rule yields_fuel[OF yields_get_hash_loop])

lemma pick_free_member:
  assumes "\<And>x. x \<in> A \<Longrightarrow> b_next_free (bs x) \<noteq> None \<and> the (b_next_free (bs x)) \<in> A" "tmp \<in> A" "\<forall>b. best = Some b \<longrightarrow> b \<in> A"
    "pick_free n bs fl tmp best = Some (Some b)"
  shows "b \<in> A"
  using assms(2-4)
proof (induction n arbitrary: tmp best)
  case (Suc n)
  then show ?case using assms(1)[of tmp]
    by (auto simp: Let_def split: if_splits option.splits)
qed simp

lemma ring_closed: "dring nx pv xs \<Longrightarrow> x \<in> set xs \<Longrightarrow> nx x \<noteq> None \<and> the (nx x) \<in> set xs"
proof -
  assume r: "dring nx pv xs" and "x \<in> set xs"
  then obtain us vs where sp: "xs = us @ x # vs" by (meson split_list)
  then have "dring nx pv (x # vs @ us)" using r dring_rotate[of nx pv us "x # vs"] by simp
  then have n: "nx x = Some (hd ((vs @ us) @ [x]))" by (cases "vs @ us") (auto simp: dring_alt dlinks_Cons simp del: append_assoc)
  have "hd ((vs @ us) @ [x]) \<in> set ((vs @ us) @ [x])" by (rule hd_in_set) simp
  then show ?thesis using n sp by auto
qed

lemma pick_free_less:
  assumes "cache_inv N s" "free_list s = Some fl" "pick_free (NR_BUFFERS s) (bufs s) fl fl None = Some (Some b)"
  shows "b < N"
proof -
  obtain xs where xs: "set xs = {..<N}" "free_list s = Some (hd xs)" 
    "dring (\<lambda>b. b_next_free (bufs s b)) (\<lambda>b. b_prev_free (bufs s b)) xs"
    using assms(1) unfolding cache_inv_def queues_ok_def free_ring_def by auto
  have "fl \<in> {..<N}" using xs assms(2) hd_in_set[of xs] by (auto simp: dring_alt)
  then have "b \<in> {..<N}"
    using pick_free_member[OF _ _ _ assms(3), of "{..<N}"] ring_closed[OF xs(3)] unfolding xs(1) by auto
  then show ?thesis by simp
qed

lemma keeps_clean_loop:
  "(\<And>d. keeps (cache_inv N) (sync d)) \<Longrightarrow> keeps (cache_inv N) (clean_loop n sync b)"
  by (induction n) (auto intro!: keeps_intros)

lemma yields_getblk_loop:
  assumes "\<And>d. keeps (cache_inv N) (sync d :: (unit, 'z fs_state_scheme) proc)"
  shows "yields (cache_inv N) (getblk_loop n sync dev block) (is_block dev block N)"
proof (induction n)
  case (Suc n)
  have claim: "yields (cache_inv N) (ifp (\<lambda>s. find_buffer dev block s \<noteq> None) (getblk_loop n sync dev block)
        (seqp (liftp (claim_buffer dev block bh)) (retp bh))) (is_block dev block N)" if "bh < N" for bh
    using claim_buffer_ok[OF _ that] that by (intro yields_guard Suc.IH) auto
  have "yields (cache_inv N) (case c of None \<Rightarrow> faultp
             | Some None \<Rightarrow> seqp (sleepp WBufferWait) (getblk_loop n sync dev block)
             | Some (Some bh) \<Rightarrow>
                 seqp (wait_on_buffer bh)
                 (ifp (\<lambda>s. b_count (bufs s bh) \<noteq> 0) (getblk_loop n sync dev block)
                   (bindp (fuelp (\<lambda>m. clean_loop m sync bh)) (\<lambda>clean.
                      if \<not> clean then getblk_loop n sync dev block
                      else ifp (\<lambda>s. find_buffer dev block s \<noteq> None) (getblk_loop n sync dev block)
                             (seqp (liftp (claim_buffer dev block bh)) (retp bh)))))) (is_block dev block N)"
    if ex: "\<exists>s. cache_inv N s \<and> c = (case free_list (s :: 'z fs_state_scheme) of None \<Rightarrow> None
          | Some fl \<Rightarrow> pick_free (NR_BUFFERS s) (bufs s) fl fl None)" for c
  proof -
    consider "c = None" | "c = Some None" | bh where "c = Some (Some bh)" by (cases c) auto
    then show ?thesis
    proof cases
      case 1 then show ?thesis by (simp add: yields_stop)
    next
      case 2 then show ?thesis by (simp add: yields_seq cache.keeps_sleep Suc.IH)
    next
      case (3 bh)
      then obtain s :: "'z fs_state_scheme" and fl where "cache_inv N s" "free_list s = Some fl"
        "pick_free (NR_BUFFERS s) (bufs s) fl fl None = Some (Some bh)"
        using ex by (auto split: option.splits)
      then have "bh < N" by (rule pick_free_less)
      then show ?thesis unfolding 3 option.case
        by (intro yields_seq keeps_wait_on_buffer yields_if Suc.IH yields_bind keeps_fuel keeps_clean_loop[OF assms] yields_if_split claim)
    qed
  qed
  then have rest: "yields (cache_inv N) (bindp (getp (\<lambda>s. case free_list s of None \<Rightarrow> None
                            | Some fl \<Rightarrow> pick_free (NR_BUFFERS s) (bufs s) fl fl None)) (\<lambda>c. case c of None \<Rightarrow> faultp
             | Some None \<Rightarrow> seqp (sleepp WBufferWait) (getblk_loop n sync dev block)
             | Some (Some bh) \<Rightarrow>
                 seqp (wait_on_buffer bh)
                 (ifp (\<lambda>s. b_count (bufs s bh) \<noteq> 0) (getblk_loop n sync dev block)
                   (bindp (fuelp (\<lambda>m. clean_loop m sync bh)) (\<lambda>clean.
                      if \<not> clean then getblk_loop n sync dev block
                      else ifp (\<lambda>s. find_buffer dev block s \<noteq> None) (getblk_loop n sync dev block)
                             (seqp (liftp (claim_buffer dev block bh)) (retp bh))))))) (is_block dev block N)"
    by (rule yields_bind_value[OF yields_get])
  show ?case unfolding getblk_loop.simps
    by (rule yields_bind_found[OF yields_get_hash_table rest])
qed (auto intro: yields_intros)

lemma yields_getblk_with:
  "(\<And>d. keeps (cache_inv N) (sync d)) \<Longrightarrow> yields (cache_inv N) (getblk_with sync dev block) (is_block dev block N)"
  unfolding getblk_with_def by (intro yields_fuel yields_getblk_loop)

lemma yields_bread_with:
  assumes "\<And>dev block. yields (cache_inv N) (g dev block) (is_block dev block N)"
  shows "keeps (cache_inv N) (bread_with g dev block)"
  unfolding bread_with_def
  by (intro keeps_bind keeps_if keeps_ret keeps_seq keeps_wait_on_buffer keeps_brelse cache.keeps_ll_rw_block yields_keeps[OF assms])

end
