(* ===== verification/Fs_Cache_Laws.thy ===== *)
theory Fs_Cache_Laws
  imports Fs_Cache
begin

text \<open>
  The closed buffer cache: \<open>getblk\<close> with the write-back of inodes it triggers keeps the invariant of the
  cache and returns the one buffer of the block asked for; \<open>buffer_init\<close> establishes the invariant; when a clean
  unused buffer exists, \<open>getblk\<close> returns without sleeping.
\<close>

subsection \<open>The write-back cycle\<close>

lemma keeps_get_super [keeps_intros]: "keeps (cache_inv N) (get_super dev)"
proof -
  have "keeps (cache_inv N) (get_super_loop n dev)" for n
    by (induction n) (auto intro!: keeps_intros cache.keeps_wait simp: wait_on_super_def)
  then show ?thesis unfolding get_super_def by (intro keeps_intros)
qed

lemma cache_inv_unlock [simp]:
  "cache_inv N (unlock_inode i s) = cache_inv N s" "cache_inv N (free_super sb s) = cache_inv N s"
  by (simp_all add: unlock_inode_def free_super_def)

lemma keeps_inode_locks [keeps_intros]:
  "keeps (cache_inv N) (wait_on_inode i)" "keeps (cache_inv N) (lock_inode i)"
  "keeps (cache_inv N) (wait_on_super sb)" "keeps (cache_inv N) (lock_super sb)"
  unfolding wait_on_inode_def lock_inode_def wait_on_super_def lock_super_def
  by (auto intro!: keeps_intros cache.keeps_wait keeps_mod)

lemma keeps_write_inode_with:
  assumes "\<And>dev block. keeps (cache_inv N) (b dev block)"
  shows "keeps (cache_inv N) (write_inode_with b i)"
  unfolding write_inode_with_def using assms by (auto intro!: keeps_intros keeps_mod)

lemma keeps_sync_inodes_with:
  assumes "\<And>dev block. keeps (cache_inv N) (b dev block)"
  shows "keeps (cache_inv N) (sync_inodes_with b)"
  unfolding sync_inodes_with_def by (intro keeps_intros keeps_write_inode_with assms)

lemma yields_getblk_at: "yields (cache_inv N) (getblk_at n dev block) (is_block dev block N)"
proof (induction n arbitrary: dev block)
  case (Suc n)
  show ?case unfolding getblk_at.simps
    by (intro yields_getblk_with keeps_sync_dev_with keeps_sync_inodes_with yields_bread_with Suc.IH)
qed (auto intro: yields_intros)

lemma yields_getblk: "yields (cache_inv N) (getblk dev block) (is_block dev block N)"
  unfolding getblk_def by (intro yields_fuel yields_getblk_at)

lemma keeps_bread [keeps_intros]: "keeps (cache_inv N) (bread dev block)"
  unfolding bread_def by (rule yields_bread_with[OF yields_getblk])

lemma keeps_write_inode [keeps_intros]:
  "keeps (cache_inv N) (write_inode i)" "keeps (cache_inv N) sync_inodes" "keeps (cache_inv N) (sync_dev dev)"
  unfolding write_inode_def sync_inodes_def sync_dev_def
  by (intro keeps_write_inode_with keeps_sync_inodes_with keeps_sync_dev_with keeps_bread)+

text \<open>C4. The buffer cache. From a state in which the free list, the hash chains and the buffer heads agree and no
  block is cached twice, \<open>getblk\<close> keeps that invariant in every outcome, whatever the other tasks do while it
  sleeps (as long as they keep it too), its nested write-back of buffers and inodes included. When it returns, the
  buffer belongs to the device and block asked for, and it is the only buffer that does.\<close>

theorem getblk_correct:
  assumes "world_keeps (cache_inv N) w" "cache_inv N s"
  shows "cache_inv N (kstate (getblk dev block w s)) \<and>
    (\<forall>bh w' s'. getblk dev block w s = Ok (bh, w') s' \<longrightarrow>
       bh < N \<and> b_dev (bufs s' bh) = dev \<and> b_blocknr (bufs s' bh) = block \<and>
       (dev \<noteq> 0 \<longrightarrow> (\<forall>c<N. b_dev (bufs s' c) = dev \<and> b_blocknr (bufs s' c) = block \<longrightarrow> c = bh)))"
proof (intro conjI allI impI)
  note y = yields_getblk[of N dev block]
  show inv: "cache_inv N (kstate (getblk dev block w s))"
    using y assms unfolding yields_def keeps_def by blast
  fix bh w' s' assume r: "getblk dev block w s = Ok (bh, w') s'"
  have b: "is_block dev block N bh s'" using y assms r unfolding yields_def by blast
  then show "bh < N" "b_dev (bufs s' bh) = dev" "b_blocknr (bufs s' bh) = block" by auto
  have q: "queues_ok {..<N} s'" using inv r by (simp add: cache_inv_def)
  show "c = bh" if "dev \<noteq> 0" "c < N" "b_dev (bufs s' c) = dev \<and> b_blocknr (bufs s' c) = block" for c
    using q b that unfolding queues_ok_def no_twins_def by auto
qed

subsection \<open>Initialisation\<close>

lemma dlinks_upt:
  assumes "\<And>i. a \<le> i \<Longrightarrow> Suc i < n \<Longrightarrow> nx i = Some (Suc i)" "\<And>i. a < i \<Longrightarrow> i < n \<Longrightarrow> pv i = Some (i - 1)"
  shows "dlinks nx pv [a..<n]"
  using assms
proof (induction "n - a" arbitrary: a)
  case (Suc k)
  then have "[a..<n] = a # [Suc a..<n]" by (simp add: upt_conv_Cons)
  moreover have "dlinks nx pv [Suc a..<n]" using Suc by (intro Suc.hyps(1)) auto
  moreover have "nx a = Some (Suc a) \<and> pv (Suc a) = Some a" if "Suc a < n" using Suc.prems that by auto
  ultimately show ?case by (cases "Suc a < n") (auto simp: dlinks_Cons)
qed simp

lemma buffer_init_inv:
  assumes "buffer_init buffer_end s = Ok () s'" "NR_BUFFERS s = 0" "2 \<le> NR_BUFFERS s'"
  shows "cache_inv (NR_BUFFERS s') s'"
proof -
  define n where "n = buffer_count (uint (start_buffer s)) (if buffer_end = 0x100000 then 640 * 1024 else buffer_end) 0"
  have s': "bufs s' = (\<lambda>h. if h < n then init_buffer n h (bufs s h) else bufs s h)" "free_list s' = Some 0" "NR_BUFFERS s' = n"
    "\<And>i. i < NR_HASH \<Longrightarrow> hash_table s' i = None"
    using assms(1,2) unfolding buffer_init_def Let_def n_def[symmetric] by (auto split: if_splits)
  have n: "2 \<le> n" using assms(3) s'(3) by simp
  have "dring (\<lambda>b. b_next_free (bufs s' b)) (\<lambda>b. b_prev_free (bufs s' b)) [0..<n]"
    unfolding dring_alt using n by (auto simp: s'(1) init_buffer_def intro!: dlinks_upt)
  then have "free_ring {..<n} s'" unfolding free_ring_def using n s'(2) by (intro exI[of _ "[0..<n]"]) auto
  moreover have "hash_chains {..<n} s'" unfolding hash_chains_def
    using s'(4) by (intro allI impI exI[of _ "[]"]) (auto simp: dchain_def s'(1) init_buffer_def)
  ultimately show ?thesis
    by (auto simp: cache_inv_def queues_ok_def s'(3) n no_twins_def s'(1) init_buffer_def)
qed

text \<open>C26. \<open>buffer_init\<close> establishes the invariant of the cache: with room for at least two buffers it links all the
  buffer heads it has laid out into one circular free list and leaves every hash chain empty.\<close>

theorem buffer_init_establishes:
  assumes "buffer_init buffer_end s = Ok () s'" "NR_BUFFERS s = 0" "2 \<le> NR_BUFFERS s'"
  shows "cache_inv (NR_BUFFERS s') s'"
  using assms by (rule buffer_init_inv)

subsection \<open>Choosing a buffer\<close>

lemma pick_free_least:
  assumes "dlinks (\<lambda>b. b_next_free (bs b)) pv (zs @ [fl])" "zs \<noteq> []" "fl \<notin> set (tl zs)" "length zs \<le> n"
  shows "\<exists>r. pick_free n bs fl (hd zs) best = Some r \<and>
    (r = None \<longrightarrow> best = None \<and> (\<forall>z\<in>set zs. b_count (bs z) \<noteq> 0)) \<and>
    (\<forall>b. r = Some b \<longrightarrow> (best = Some b \<or> b \<in> set zs \<and> b_count (bs b) = 0) \<and>
       (\<forall>z\<in>set zs. b_count (bs z) = 0 \<longrightarrow> BADNESS (bs b) \<le> BADNESS (bs z)) \<and>
       (\<forall>b0. best = Some b0 \<longrightarrow> BADNESS (bs b) \<le> BADNESS (bs b0)))"
  using assms
proof (induction zs arbitrary: n best)
  case (Cons z zs)
  then obtain m where m: "n = Suc m" by (cases n) auto
  define better where "better \<longleftrightarrow> b_count (bs z) = 0 \<and> (case best of None \<Rightarrow> True | Some b \<Rightarrow> BADNESS (bs z) < BADNESS (bs b))"
  define best' where "best' = (if better then Some z else best)"
  have nx: "b_next_free (bs z) = Some (hd (zs @ [fl]))" using Cons.prems(1) by (auto simp: dlinks_Cons)
  have e: "pick_free n bs fl (hd (z # zs)) best = (if better \<and> BADNESS (bs z) = 0 then Some best'
      else if hd (zs @ [fl]) \<noteq> fl then pick_free m bs fl (hd (zs @ [fl])) best' else Some best')"
    by (simp add: m Let_def better_def best'_def nx)
  show ?case
  proof (cases "better \<and> BADNESS (bs z) = 0 \<or> zs = []")
    case True
    then have "pick_free n bs fl (hd (z # zs)) best = Some best'" using e by auto
    then show ?thesis using True by (auto simp: best'_def better_def split: option.splits)
  next
    case False
    then have "hd zs \<noteq> fl" using Cons.prems(3) by (cases zs) auto
    then have e': "pick_free n bs fl (hd (z # zs)) best = pick_free m bs fl (hd zs) best'" using e False by auto
    have "fl \<notin> set (tl zs)" using Cons.prems(3) by (auto dest: in_tl)
    then obtain r where r: "pick_free m bs fl (hd zs) best' = Some r"
      "r = None \<longrightarrow> best' = None \<and> (\<forall>z\<in>set zs. b_count (bs z) \<noteq> 0)"
      "\<forall>b. r = Some b \<longrightarrow> (best' = Some b \<or> b \<in> set zs \<and> b_count (bs b) = 0) \<and>
       (\<forall>z\<in>set zs. b_count (bs z) = 0 \<longrightarrow> BADNESS (bs b) \<le> BADNESS (bs z)) \<and>
       (\<forall>b0. best' = Some b0 \<longrightarrow> BADNESS (bs b) \<le> BADNESS (bs b0))"
      using Cons.IH[of m best'] Cons.prems False m by (auto simp: dlinks_Cons)
    then show ?thesis unfolding e'
      by (intro exI[of _ r]) (force simp: best'_def better_def split: option.splits if_splits)
  qed
qed simp

lemma pick_free_choice:
  assumes "cache_inv N s"
  shows "\<exists>fl r. free_list s = Some fl \<and> pick_free (NR_BUFFERS s) (bufs s) fl fl None = Some r \<and>
    (r = None \<longrightarrow> (\<forall>z<N. b_count (bufs s z) \<noteq> 0)) \<and>
    (\<forall>b. r = Some b \<longrightarrow> b < N \<and> b_count (bufs s b) = 0 \<and>
       (\<forall>z<N. b_count (bufs s z) = 0 \<longrightarrow> BADNESS (bufs s b) \<le> BADNESS (bufs s z)))"
proof -
  obtain xs where xs: "distinct xs" "set xs = {..<N}" "free_list s = Some (hd xs)"
    "dring (\<lambda>b. b_next_free (bufs s b)) (\<lambda>b. b_prev_free (bufs s b)) xs"
    using assms unfolding cache_inv_def queues_ok_def free_ring_def by auto
  have l: "length xs = N" using xs(1,2) distinct_card[of xs] by simp
  have "hd xs \<notin> set (tl xs)" using xs(1,4) distinct_ends(2) by (auto simp: dring_def)
  then show ?thesis
    using pick_free_least[of "bufs s" "\<lambda>b. b_prev_free (bufs s b)" xs "hd xs" N None] xs(2-4) l assms
    by (simp add: dring_def cache_inv_def Ball_def)
qed

subsection \<open>Progress\<close>

text \<open>What a buffer holds, apart from its links.\<close>

definition contents :: "buffer_head \<Rightarrow> block \<times> u32 \<times> u16 \<times> u8 \<times> u8 \<times> u8 \<times> u8" where
  "contents h = (b_data h, b_blocknr h, b_dev h, b_uptodate h, b_dirt h, b_count h, b_lock h)"

lemma contents_upd_buf [simp]:
  "(\<And>h. contents (f h) = contents h) \<Longrightarrow> contents (bufs (upd_buf b f s) c) = contents (bufs s c)"
  "(\<And>h. contents (f h) = contents h) \<Longrightarrow> contents (bufs (upd_ptr p f s) c) = contents (bufs s c)"
  by (auto simp: upd_buf_def upd_ptr_def split: option.split)

lemma contents_links [simp]:
  "contents (h\<lparr>b_prev := v\<rparr>) = contents h" "contents (h\<lparr>b_next := v\<rparr>) = contents h"
  "contents (h\<lparr>b_prev_free := v\<rparr>) = contents h" "contents (h\<lparr>b_next_free := v\<rparr>) = contents h"
  by (simp_all add: contents_def)

lemma remove_contents:
  "remove_from_queues b s = Ok () s' \<Longrightarrow> contents (bufs s' c) = contents (bufs s c)"
  by (auto simp: remove_from_queues_def Let_def split: option.splits if_splits)

lemma insert_contents:
  "insert_into_queues b s = Ok () s' \<Longrightarrow> contents (bufs s' c) = contents (bufs s c)"
  by (auto simp: insert_into_queues_def Let_def store_def split: option.splits if_splits)

lemma claim_contents:
  assumes "claim_buffer dev block b s = Ok () s'"
  shows "c \<noteq> b \<Longrightarrow> contents (bufs s' c) = contents (bufs s c)"
    and "contents (bufs s' b) = (b_data (bufs s b), block, dev, 0, 0, 1, b_lock (bufs s b))"
proof -
  obtain s1 where s1: "remove_from_queues b (upd_buf b (\<lambda>h. h\<lparr>b_count := 1, b_dirt := 0, b_uptodate := 0\<rparr>) s) = Ok () s1"
    "insert_into_queues b (upd_buf b (\<lambda>h. h\<lparr>b_dev := dev, b_blocknr := block\<rparr>) s1) = Ok () s'"
    using assms by (auto simp: claim_buffer_def)
  note r = remove_contents[OF s1(1)] insert_contents[OF s1(2)]
  show "contents (bufs s' c) = contents (bufs s c)" if "c \<noteq> b"
    using r(1)[of c] r(2)[of c] that by (simp add: upd_buf_def)
  show "contents (bufs s' b) = (b_data (bufs s b), block, dev, 0, 0, 1, b_lock (bufs s b))"
    using r(1)[of b] r(2)[of b] by (simp add: upd_buf_def contents_def)
qed

lemma wait_not_needed: "fuel w > 0 \<Longrightarrow> \<not> c s \<Longrightarrow> wait_while c q w s = Ok ((), w) s"
  by (cases "fuel w") (auto simp: wait_while_def fuelp_def ifp_def retp_def)

lemma get_hash_table_quiet:
  assumes "cache_inv N s" "fuel w > 0" "\<And>b. find_buffer dev block s = Some b \<Longrightarrow> b_lock (bufs s b) = 0"
  shows "get_hash_table dev block w s = (case find_buffer dev block s of
     None \<Rightarrow> Ok (None, w) s | Some b \<Rightarrow> Ok (Some b, w) (upd_buf b (\<lambda>h. h\<lparr>b_count := b_count h + 1\<rparr>) s))"
proof (cases "find_buffer dev block s")
  case None
  then show ?thesis using assms(2)
    by (cases "fuel w") (auto simp: get_hash_table_def fuelp_def bindp_def getp_def retp_def)
next
  case (Some b)
  define s1 where "s1 = upd_buf b (\<lambda>h. h\<lparr>b_count := b_count h + 1\<rparr>) s"
  have b: "b_dev (bufs s1 b) = dev" "b_blocknr (bufs s1 b) = block" "b_lock (bufs s1 b) = 0"
    using Some assms(1,3) by (auto simp: find_buffer_iff s1_def upd_buf_def)
  have "wait_on_buffer b w s1 = Ok ((), w) s1" unfolding wait_on_buffer_def
    by (rule wait_not_needed) (use assms(2) b in auto)
  then show ?thesis using Some assms(2) b
    by (cases "fuel w") (auto simp: get_hash_table_def fuelp_def bindp_def seqp_def getp_def retp_def modp_def ifp_def s1_def[symmetric])
qed

lemma getblk_hit:
  assumes "cache_inv N s" "fuel w > 0" "find_buffer dev block s = Some b" "b_lock (bufs s b) = 0"
  shows "getblk dev block w s = Ok (b, w) (upd_buf b (\<lambda>h. h\<lparr>b_count := b_count h + 1\<rparr>) s)"
proof -
  obtain n where n: "fuel w = Suc n" using assms(2) by (cases "fuel w") auto
  have h: "get_hash_table dev block w s = Ok (Some b, w) (upd_buf b (\<lambda>h. h\<lparr>b_count := b_count h + 1\<rparr>) s)"
    using get_hash_table_quiet[OF assms(1,2), of dev block] assms(3,4) by simp
  show ?thesis by (simp add: getblk_def fuelp_def n getblk_with_def bindp_def h retp_def)
qed

lemma getblk_miss:
  assumes "cache_inv N s" "fuel w > 0" "find_buffer dev block s = None"
    "\<exists>b<N. b_count (bufs s b) = 0 \<and> b_dirt (bufs s b) = 0 \<and> b_lock (bufs s b) = 0"
  shows "\<exists>b s'. b < N \<and> getblk dev block w s = Ok (b, w) s' \<and> claim_buffer dev block b s = Ok () s' \<and>
    b_count (bufs s b) = 0 \<and> b_dirt (bufs s b) = 0 \<and> b_lock (bufs s b) = 0"
proof -
  obtain n where n: "fuel w = Suc n" using assms(2) by (cases "fuel w") auto
  define sync where "sync = sync_dev_with (sync_inodes_with (bread_with (getblk_at n :: _ \<Rightarrow> _ \<Rightarrow> (nat, 'a fs_state_scheme) proc)))"
  have g: "getblk dev block w s = getblk_loop (Suc n) sync dev block w s"
    by (simp only: getblk_def fuelp_def n getblk_at.simps getblk_with_def sync_def)
  have h: "get_hash_table dev block w s = Ok (None, w) s"
    using get_hash_table_quiet[OF assms(1,2), of dev block] assms(3) by simp
  obtain fl r where r: "free_list s = Some fl" "pick_free (NR_BUFFERS s) (bufs s) fl fl None = Some r"
    "r = None \<longrightarrow> (\<forall>z<N. b_count (bufs s z) \<noteq> 0)"
    "\<forall>b. r = Some b \<longrightarrow> b < N \<and> b_count (bufs s b) = 0 \<and>
       (\<forall>z<N. b_count (bufs s z) = 0 \<longrightarrow> BADNESS (bufs s b) \<le> BADNESS (bufs s z))"
    using pick_free_choice[OF assms(1)] by blast
  obtain z where z: "z < N" "b_count (bufs s z) = 0" "b_dirt (bufs s z) = 0" "b_lock (bufs s z) = 0"
    using assms(4) by auto
  then obtain b where b: "r = Some b" "b < N" "b_count (bufs s b) = 0" "BADNESS (bufs s b) \<le> BADNESS (bufs s z)"
    using r(3,4) by (cases r) auto
  then have q: "b_dirt (bufs s b) = 0" "b_lock (bufs s b) = 0" using z by (auto simp: BADNESS_def unat_eq_zero)
  obtain s' where s': "claim_buffer dev block b s = Ok () s'" using claim_buffer_ok[OF assms(1) b(2) assms(3)] by blast
  have w: "wait_on_buffer b w s = Ok ((), w) s" unfolding wait_on_buffer_def
    by (rule wait_not_needed) (use assms(2) q in auto)
  have c: "fuelp (\<lambda>m. clean_loop m sync b) w s = Ok (True, w) s" using q by (simp add: fuelp_def n ifp_def retp_def)
  have "getblk dev block w s = Ok (b, w) s'" unfolding g
    by (simp add: bindp_def h assms(3) getp_def r(1,2) b(1) seqp_def w ifp_def b(3) c liftp_def s' retp_def)
  then show ?thesis using s' q b(2,3) by auto
qed

lemma getblk_quiet:
  assumes "cache_inv N s" "fuel w > 0"
    "case find_buffer dev block s of Some b \<Rightarrow> b_lock (bufs s b) = 0
     | None \<Rightarrow> (\<exists>b<N. b_count (bufs s b) = 0 \<and> b_dirt (bufs s b) = 0 \<and> b_lock (bufs s b) = 0)"
  shows "\<exists>bh s'. getblk dev block w s = Ok (bh, w) s' \<and>
    (case find_buffer dev block s of
       Some b \<Rightarrow> bh = b \<and> s' = upd_buf b (\<lambda>h. h\<lparr>b_count := b_count h + 1\<rparr>) s
     | None \<Rightarrow> b_count (bufs s bh) = 0 \<and> b_dirt (bufs s bh) = 0 \<and>
         contents (bufs s' bh) = (b_data (bufs s bh), block, dev, 0, 0, 1, 0) \<and>
         (\<forall>c. c \<noteq> bh \<longrightarrow> contents (bufs s' c) = contents (bufs s c)))"
proof (cases "find_buffer dev block s")
  case None
  then obtain b s' where g: "getblk dev block w s = Ok (b, w) s'" "claim_buffer dev block b s = Ok () s'"
    "b_count (bufs s b) = 0" "b_dirt (bufs s b) = 0" "b_lock (bufs s b) = 0"
    using getblk_miss[OF assms(1,2) None] assms(3) by auto
  then show ?thesis using None claim_contents[OF g(2)] by auto
next
  case (Some b)
  then show ?thesis using getblk_hit[OF assms(1,2) Some] assms(3) by simp
qed

text \<open>C25. \<open>getblk\<close> returns, without sleeping and within one round, when the block is cached and unlocked, or when it is not
  cached and some buffer is unused, clean and unlocked. A cached block only gains a reference; otherwise an unused
  buffer is taken for the block, marked not up to date with one reference, and no other buffer changes.\<close>

theorem getblk_returns:
  assumes "cache_inv N s" "fuel w > 0"
    "case find_buffer dev block s of Some b \<Rightarrow> b_lock (bufs s b) = 0
     | None \<Rightarrow> (\<exists>b<N. b_count (bufs s b) = 0 \<and> b_dirt (bufs s b) = 0 \<and> b_lock (bufs s b) = 0)"
  shows "\<exists>bh s'. getblk dev block w s = Ok (bh, w) s' \<and>
    (case find_buffer dev block s of
       Some b \<Rightarrow> bh = b \<and> s' = upd_buf b (\<lambda>h. h\<lparr>b_count := b_count h + 1\<rparr>) s
     | None \<Rightarrow> b_count (bufs s bh) = 0 \<and> b_dirt (bufs s bh) = 0 \<and>
         contents (bufs s' bh) = (b_data (bufs s bh), block, dev, 0, 0, 1, 0) \<and>
         (\<forall>c. c \<noteq> bh \<longrightarrow> contents (bufs s' c) = contents (bufs s c)))"
  using assms by (rule getblk_quiet)

subsection \<open>Concrete instances\<close>

text \<open>A machine with room for two buffers.\<close>

definition demo_cache :: fs_state where
  "demo_cache = kstate (buffer_init 0x20C00 demo_fs)"

lemma demo_cache_init:
  "buffer_init 0x20C00 demo_fs = Ok () demo_cache" "NR_BUFFERS demo_fs = 0" "NR_BUFFERS demo_cache = 2"
proof -
  have f: "start_buffer demo_fs = 0x20000" "NR_BUFFERS demo_fs = 0"
    by (simp_all add: demo_fs_def fs_data_def sched_state.extend_def fs_state.fields_def)
  have n: "buffer_count 0x20000 0x20C00 0 = 2" by code_simp
  show "buffer_init 0x20C00 demo_fs = Ok () demo_cache" "NR_BUFFERS demo_fs = 0" "NR_BUFFERS demo_cache = 2"
    by (simp_all add: demo_cache_def buffer_init_def f n del: buffer_count.simps)
qed

lemma find_chain_None [simp]: "find_chain n bs dev block None = None"
  by (cases n) auto

lemma demo_cache_empty: "find_buffer dev block demo_cache = None"
  "b_count (bufs demo_cache 0) = 0" "b_dirt (bufs demo_cache 0) = 0" "b_lock (bufs demo_cache 0) = 0"
proof -
  have n: "buffer_count 0x20000 0x20C00 0 = 2" by code_simp
  have f: "start_buffer demo_fs = 0x20000"
    by (simp add: demo_fs_def fs_data_def sched_state.extend_def fs_state.fields_def)
  have h: "hashfn dev block < NR_HASH" by (simp add: hashfn_def)
  then have "hash_table demo_cache (hashfn dev block) = None"
    by (simp add: demo_cache_def buffer_init_def f n del: buffer_count.simps)
  then show "find_buffer dev block demo_cache = None" by (simp add: find_buffer_def)
  show "b_count (bufs demo_cache 0) = 0" "b_dirt (bufs demo_cache 0) = 0" "b_lock (bufs demo_cache 0) = 0"
    by (simp_all add: demo_cache_def buffer_init_def f n init_buffer_def del: buffer_count.simps)
qed

lemma demo_cache_inv: "cache_inv 2 demo_cache"
  using buffer_init_inv[OF demo_cache_init(1,2)] demo_cache_init(3) by simp

theorem buffer_init_establishes_witness:
  "buffer_init 0x20C00 demo_fs = Ok () demo_cache \<and> cache_inv 2 demo_cache"
  using buffer_init_establishes[OF demo_cache_init(1,2)] demo_cache_init by simp

lemma demo_getblk:
  assumes "fuel w > 0"
  shows "\<exists>bh s'. getblk dev block w demo_cache = Ok (bh, w) s'"
proof -
  have "case find_buffer dev block demo_cache of Some b \<Rightarrow> b_lock (bufs demo_cache b) = 0
     | None \<Rightarrow> (\<exists>b<2. b_count (bufs demo_cache b) = 0 \<and> b_dirt (bufs demo_cache b) = 0 \<and> b_lock (bufs demo_cache b) = 0)"
    using demo_cache_empty by force
  from getblk_quiet[OF demo_cache_inv assms this] show ?thesis by auto
qed

theorem getblk_returns_witness:
  "\<exists>bh s'. getblk 0x301 7 demo_world demo_cache = Ok (bh, demo_world) s' \<and>
     contents (bufs s' bh) = (b_data (bufs demo_cache bh), 7, 0x301, 0, 0, 1, 0)"
proof -
  have q: "case find_buffer 0x301 7 demo_cache of Some b \<Rightarrow> b_lock (bufs demo_cache b) = 0
     | None \<Rightarrow> (\<exists>b<2. b_count (bufs demo_cache b) = 0 \<and> b_dirt (bufs demo_cache b) = 0 \<and> b_lock (bufs demo_cache b) = 0)"
    using demo_cache_empty by force
  have "fuel demo_world > 0" by (simp add: demo_world_def)
  from getblk_returns[OF demo_cache_inv this q] show ?thesis by (auto simp: demo_cache_empty)
qed

theorem getblk_correct_witness:
  "\<exists>bh w' s'. getblk 0x301 7 (demo_world\<lparr>request_fn := (\<lambda>_. None)\<rparr>) demo_cache = Ok (bh, w') s' \<and> bh < 2 \<and>
     b_dev (bufs s' bh) = 0x301 \<and> b_blocknr (bufs s' bh) = 7"
proof -
  let ?w = "demo_world\<lparr>request_fn := (\<lambda>_. None)\<rparr>"
  have w: "world_keeps (cache_inv 2) ?w" "fuel ?w > 0" by (simp_all add: world_keeps_def demo_world_def)
  obtain bh s' where "getblk 0x301 7 ?w demo_cache = Ok (bh, ?w) s'" using demo_getblk[OF w(2)] by blast
  then show ?thesis using getblk_correct[OF w(1) demo_cache_inv] by auto
qed

end
