(* ===== verification/Fs_Namei.thy ===== *)
theory Fs_Namei
  imports Fs_Inode
begin

text \<open>
  Path names and directories: src/fs/namei.c. A directory entry is 16 bytes, the inode number and
  fourteen name bytes; it is named by its buffer and its index in the block. Names are in user memory and given by their
  address; \<open>char\<close> comparisons are on bytes.

  After a failed read the code compares its entry pointer with \<open>1024+bh->b_data\<close> for a null \<open>bh\<close>: it reads the
  first word of the page directory, which is below every buffer, so the pointer still counts as past the block. Here the
  entry index stays at 64. The scans for the end of a component and of a path are bounded by \<open>fuel\<close>.
\<close>

abbreviation (input) MAY_EXEC :: u32 where "MAY_EXEC \<equiv> 1"
abbreviation (input) MAY_WRITE :: u32 where "MAY_WRITE \<equiv> 2"
abbreviation (input) MAY_READ :: u32 where "MAY_READ \<equiv> 4"
abbreviation (input) O_ACCMODE :: u32 where "O_ACCMODE \<equiv> 3"
abbreviation (input) O_WRONLY :: u32 where "O_WRONLY \<equiv> 1"
abbreviation (input) O_CREAT :: u32 where "O_CREAT \<equiv> 0x40"
abbreviation (input) O_EXCL :: u32 where "O_EXCL \<equiv> 0x80"
abbreviation (input) O_TRUNC :: u32 where "O_TRUNC \<equiv> 0x200"
abbreviation (input) O_APPEND :: u32 where "O_APPEND \<equiv> 0x400"
abbreviation (input) NAME_LEN :: nat where "NAME_LEN \<equiv> 14"
abbreviation (input) DIR_ENTRIES_PER_BLOCK :: nat where "DIR_ENTRIES_PER_BLOCK \<equiv> 64"
abbreviation (input) S_ISVTX :: u16 where "S_ISVTX \<equiv> 0x200"
abbreviation (input) I_REGULAR :: u16 where "I_REGULAR \<equiv> 0x8000"
abbreviation (input) I_DIRECTORY :: u16 where "I_DIRECTORY \<equiv> 0x4000"
abbreviation (input) ENOENT :: int where "ENOENT \<equiv> 2"
abbreviation (input) EIO :: int where "EIO \<equiv> 5"
abbreviation (input) EBADF :: int where "EBADF \<equiv> 9"
abbreviation (input) EACCES :: int where "EACCES \<equiv> 13"
abbreviation (input) EBUSY :: int where "EBUSY \<equiv> 16"
abbreviation (input) EEXIST :: int where "EEXIST \<equiv> 17"
abbreviation (input) EXDEV :: int where "EXDEV \<equiv> 18"
abbreviation (input) ENODEV :: int where "ENODEV \<equiv> 19"
abbreviation (input) ENOTDIR :: int where "ENOTDIR \<equiv> 20"
abbreviation (input) EISDIR :: int where "EISDIR \<equiv> 21"
abbreviation (input) EMFILE :: int where "EMFILE \<equiv> 24"
abbreviation (input) ENOTTY :: int where "ENOTTY \<equiv> 25"
abbreviation (input) ENOSPC :: int where "ENOSPC \<equiv> 28"
abbreviation (input) ESPIPE :: int where "ESPIPE \<equiv> 29"
abbreviation (input) ENOTEMPTY :: int where "ENOTEMPTY \<equiv> 39"
abbreviation (input) ERROR :: int where "ERROR \<equiv> 99"

text \<open>The clean-up of an error path followed by its \<open>return\<close>.\<close>

fun donep :: "(unit, 's) proc list \<Rightarrow> 'a \<Rightarrow> ('a, 's) proc" where
  "donep [] r = retp r"
| "donep (p # ps) r = seqp p (donep ps r)"

subsection \<open>Permissions and names\<close>

definition ACC_MODE :: "u32 \<Rightarrow> u32" where
  "ACC_MODE x = [4, 2, 6, 0xffffffff] ! unat (x AND O_ACCMODE)"

definition permission :: "nat \<Rightarrow> u32 \<Rightarrow> 'z fs_state_scheme \<Rightarrow> bool" where
  "permission i m s =
     (let n = inode_table s i; mode = ucast (i_mode n) :: u32 in
      if i_dev n \<noteq> 0 \<and> i_nlinks n = 0 then False
      else
        let mode = (if euid (cur s) = i_uid n then drop_bit 6 mode
                    else if egid (cur s) = ucast (i_gid n) then drop_bit 3 mode else mode)
        in mode AND m AND 7 = m \<or> suser s)"

text \<open>\<open>match\<close>: \<open>len\<close> bytes at \<open>name\<close> in user memory against the entry at offset \<open>a\<close> of block \<open>d\<close>.\<close>

definition match :: "nat \<Rightarrow> u32 \<Rightarrow> block \<Rightarrow> nat \<Rightarrow> 'z fs_state_scheme \<Rightarrow> bool" where
  "match len name d a s \<longleftrightarrow>
     get_u16 d a \<noteq> 0 \<and> len \<le> NAME_LEN \<and> (len < NAME_LEN \<longrightarrow> d (a + 2 + len) = 0) \<and>
     list_all (\<lambda>k. get_fs_byte (name + of_nat k) s = d (a + 2 + k)) [0..<len]"

definition set_entry_inode :: "nat \<times> nat \<Rightarrow> u16 \<Rightarrow> 'z fs_state_scheme \<Rightarrow> 'z fs_state_scheme" where
  "set_entry_inode de v s = upd_buf (fst de) (\<lambda>b. b\<lparr>b_data := put_u16 (16 * snd de) v (b_data b)\<rparr>) s"

definition entry_inode :: "nat \<times> nat \<Rightarrow> 'z fs_state_scheme \<Rightarrow> u16" where
  "entry_inode de s = get_u16 (b_data (bufs s (fst de))) (16 * snd de)"

definition set_dirty :: "nat \<Rightarrow> 'z fs_state_scheme \<Rightarrow> 'z fs_state_scheme" where
  "set_dirty bh s = upd_buf bh (\<lambda>b. b\<lparr>b_dirt := 1\<rparr>) s"

text \<open>The scan of a directory with \<open>n\<close> entries left: entry number \<open>i\<close>, its index \<open>k\<close> in the block of \<open>bh\<close>.\<close>

fun find_entry_loop ::
    "nat \<Rightarrow> nat \<Rightarrow> nat \<Rightarrow> nat option \<Rightarrow> nat \<Rightarrow> u32 \<Rightarrow> nat \<Rightarrow> ((nat \<times> nat) option, 'z fs_state_scheme) proc" where
  "find_entry_loop 0 i k bh dir name namelen = seqp (brelse bh) (retp None)"
| "find_entry_loop (Suc n) i k bh dir name namelen =
     (if k \<ge> DIR_ENTRIES_PER_BLOCK
      then
        seqp (brelse bh)
        (bindp (bmap dir (int (i div DIR_ENTRIES_PER_BLOCK))) (\<lambda>block.
           bindp (if block = 0 then retp None else bread_zone dir block) (\<lambda>r.
             case r of
               None \<Rightarrow> find_entry_loop (n - 63) (i + DIR_ENTRIES_PER_BLOCK) k None dir name namelen
             | Some b \<Rightarrow>
                 ifp (\<lambda>s. match namelen name (b_data (bufs s b)) 0 s) (retp (Some (b, 0)))
                   (find_entry_loop n (i + 1) 1 (Some b) dir name namelen))))
      else
        case bh of
          None \<Rightarrow> faultp
        | Some b \<Rightarrow>
            ifp (\<lambda>s. match namelen name (b_data (bufs s b)) (16 * k) s) (retp (Some (b, k)))
              (find_entry_loop n (i + 1) (k + 1) (Some b) dir name namelen))"

text \<open>The value is the directory, which \<open>..\<close> may exchange for the one it is mounted on, and the entry.\<close>

definition find_entry ::
    "nat \<Rightarrow> u32 \<Rightarrow> nat \<Rightarrow> (nat \<times> (nat \<times> nat) option, 'z fs_state_scheme) proc" where
  "find_entry dir name namelen =
     (let namelen = (if namelen > NAME_LEN then NAME_LEN else namelen) in
      bindp (getp (\<lambda>s. unat (i_size (inode_table s dir)) div 16)) (\<lambda>entries.
        if namelen = 0 then retp (dir, None)
        else
          bindp (ifp (\<lambda>s. namelen = 2 \<and> get_fs_byte name s = 0x2e \<and> get_fs_byte (name + 1) s = 0x2e)
                   (ifp (\<lambda>s. root_dir (cur s) = Some dir) (retp (dir, 1))
                     (ifp (\<lambda>s. i_num (inode_table s dir) = word_of_int ROOT_INO)
                        (bindp (getp (\<lambda>s. i_dev (inode_table s dir))) (\<lambda>dev.
                         bindp (get_super dev) (\<lambda>r.
                           case r of
                             None \<Rightarrow> faultp
                           | Some sb \<Rightarrow>
                               ifp (\<lambda>s. s_imount (super_blocks s sb) \<noteq> None)
                                 (seqp (iput (Some dir))
                                 (bindp (getp (\<lambda>s. s_imount (super_blocks s sb))) (\<lambda>m.
                                    case m of
                                      None \<Rightarrow> faultp
                                    | Some d \<Rightarrow>
                                        seqp (modp (upd_inode d (\<lambda>n. n\<lparr>i_count := i_count n + 1\<rparr>))) (retp (d, 2)))))
                                 (retp (dir, 2)))))
                        (retp (dir, 2))))
                   (retp (dir, namelen)))
            (\<lambda>(dir, namelen).
               bindp (getp (\<lambda>s. i_zone (inode_table s dir) 0)) (\<lambda>block.
                 if block = 0 then retp (dir, None)
                 else bindp (bread_zone dir block) (\<lambda>r.
                   case r of
                     None \<Rightarrow> retp (dir, None)
                   | Some b \<Rightarrow>
                       bindp (find_entry_loop entries 0 0 (Some b) dir name namelen) (\<lambda>de. retp (dir, de)))))))"

text \<open>The fourteen name bytes of a new entry.\<close>

definition put_name :: "u32 \<Rightarrow> nat \<Rightarrow> nat \<Rightarrow> 'z fs_state_scheme \<Rightarrow> block \<Rightarrow> block" where
  "put_name name namelen a s d =
     (\<lambda>x. if a + 2 \<le> x \<and> x < a + 16
          then (if x - (a + 2) < namelen then get_fs_byte (name + of_nat (x - (a + 2))) s else 0)
          else d x)"

fun add_entry_loop ::
    "nat \<Rightarrow> nat \<Rightarrow> nat \<Rightarrow> nat option \<Rightarrow> nat \<Rightarrow> u32 \<Rightarrow> nat \<Rightarrow> ((nat \<times> nat) option, 'z fs_state_scheme) proc" where
  "add_entry_loop 0 i k bh dir name namelen = stuckp"
| "add_entry_loop (Suc n) i k bh dir name namelen =
     bindp (if k \<ge> DIR_ENTRIES_PER_BLOCK
            then
              seqp (brelse bh)
              (bindp (create_block dir (int (i div DIR_ENTRIES_PER_BLOCK))) (\<lambda>block.
                 if block = 0 then retp None
                 else bindp (bread_zone dir block) (\<lambda>r. retp (Some (r, 0)))))
            else retp (Some (bh, k)))
       (\<lambda>pos.
          case pos of
            None \<Rightarrow> retp None
          | Some (None, _) \<Rightarrow> add_entry_loop n (i + DIR_ENTRIES_PER_BLOCK) k None dir name namelen
          | Some (Some b, k) \<Rightarrow>
              seqp (ifp (\<lambda>s. of_nat (16 * i) \<ge> i_size (inode_table s dir))
                      (seqp (modp (set_entry_inode (b, k) 0))
                        (modp (\<lambda>s. upd_inode dir (\<lambda>m. m\<lparr>i_size := of_nat (16 * (i + 1)), i_dirt := 1, i_ctime := now s\<rparr>) s)))
                      (retp ()))
              (ifp (\<lambda>s. entry_inode (b, k) s = 0)
                 (seqp (modp (\<lambda>s. upd_inode dir (\<lambda>m. m\<lparr>i_mtime := now s\<rparr>) s))
                 (seqp (modp (\<lambda>s. upd_buf b (\<lambda>h. h\<lparr>b_data := put_name name namelen (16 * k) s (b_data h)\<rparr>) s))
                 (seqp (modp (set_dirty b))
                   (retp (Some (b, k))))))
                 (add_entry_loop n (i + 1) (k + 1) (Some b) dir name namelen)))"

definition add_entry :: "nat \<Rightarrow> u32 \<Rightarrow> nat \<Rightarrow> ((nat \<times> nat) option, 'z fs_state_scheme) proc" where
  "add_entry dir name namelen =
     (let namelen = (if namelen > NAME_LEN then NAME_LEN else namelen) in
      if namelen = 0 then retp None
      else
        bindp (getp (\<lambda>s. i_zone (inode_table s dir) 0)) (\<lambda>block.
          if block = 0 then retp None
          else bindp (bread_zone dir block) (\<lambda>r.
            case r of
              None \<Rightarrow> retp None
            | Some b \<Rightarrow> fuelp (\<lambda>n. add_entry_loop n 0 0 (Some b) dir name namelen))))"

subsection \<open>Walking a path\<close>

text \<open>The length of the component at \<open>p\<close> and the byte that ends it.\<close>

fun component :: "nat \<Rightarrow> u32 \<Rightarrow> 'z fs_state_scheme \<Rightarrow> (nat \<times> u8) option" where
  "component 0 p s = None"
| "component (Suc n) p s =
     (let c = get_fs_byte p s in
      if c = 0 \<or> c = 0x2f then Some (0, c)
      else map_option (\<lambda>(l, e). (Suc l, e)) (component n (p + 1) s))"

fun get_dir_loop :: "nat \<Rightarrow> nat \<Rightarrow> u32 \<Rightarrow> (nat option, 'z fs_state_scheme) proc" where
  "get_dir_loop 0 inode thisname = stuckp"
| "get_dir_loop (Suc n) inode thisname =
     ifp (\<lambda>s. \<not> S_ISDIR (i_mode (inode_table s inode)) \<or> \<not> permission inode MAY_EXEC s)
       (donep [iput (Some inode)] None)
       (bindp (fuelp (\<lambda>m. getp (component m thisname))) (\<lambda>c.
          case c of
            None \<Rightarrow> stuckp
          | Some (namelen, e) \<Rightarrow>
              if e = 0 then retp (Some inode)
              else bindp (find_entry inode thisname namelen) (\<lambda>(inode, r).
                case r of
                  None \<Rightarrow> donep [iput (Some inode)] None
                | Some de \<Rightarrow>
                    bindp (getp (\<lambda>s. (entry_inode de s, i_dev (inode_table s inode)))) (\<lambda>(inr, idev).
                    seqp (brelse (Some (fst de)))
                    (seqp (iput (Some inode))
                    (bindp (iget idev inr) (\<lambda>inode.
                       get_dir_loop n inode (thisname + of_nat namelen + 1))))))))"

definition get_dir :: "u32 \<Rightarrow> (nat option, 'z fs_state_scheme) proc" where
  "get_dir pathname =
     ifp (\<lambda>s. case root_dir (cur s) of None \<Rightarrow> True | Some r \<Rightarrow> i_count (inode_table s r) = 0) (panicp ''No root inode'')
     (ifp (\<lambda>s. case pwd (cur s) of None \<Rightarrow> True | Some r \<Rightarrow> i_count (inode_table s r) = 0) (panicp ''No cwd inode'')
     (bindp (getp (\<lambda>s. (get_fs_byte pathname s, the (root_dir (cur s)), the (pwd (cur s))))) (\<lambda>(c, r, d).
        if c = 0 then retp None
        else
          let (inode, p) = (if c = 0x2f then (r, pathname + 1) else (d, pathname)) in
          seqp (modp (upd_inode inode (\<lambda>n. n\<lparr>i_count := i_count n + 1\<rparr>)))
            (fuelp (\<lambda>n. get_dir_loop n inode p)))))"

text \<open>The last component of the path: its address and its length.\<close>

fun last_component :: "nat \<Rightarrow> u32 \<Rightarrow> u32 \<Rightarrow> 'z fs_state_scheme \<Rightarrow> (u32 \<times> nat) option" where
  "last_component 0 p base s = None"
| "last_component (Suc n) p base s =
     (let c = get_fs_byte p s in
      if c = 0 then Some (base, unat (p - base))
      else last_component n (p + 1) (if c = 0x2f then p + 1 else base) s)"

definition dir_namei :: "u32 \<Rightarrow> ((nat \<times> u32 \<times> nat) option, 'z fs_state_scheme) proc" where
  "dir_namei pathname =
     bindp (get_dir pathname) (\<lambda>r.
       case r of
         None \<Rightarrow> retp None
       | Some dir \<Rightarrow>
           bindp (fuelp (\<lambda>n. getp (last_component n pathname pathname))) (\<lambda>c.
             case c of
               None \<Rightarrow> stuckp
             | Some (basename, namelen) \<Rightarrow> retp (Some (dir, basename, namelen))))"

definition namei :: "u32 \<Rightarrow> (nat option, 'z fs_state_scheme) proc" where
  "namei pathname =
     bindp (dir_namei pathname) (\<lambda>r.
       case r of
         None \<Rightarrow> retp None
       | Some (dir, basename, namelen) \<Rightarrow>
           if namelen = 0 then retp (Some dir)
           else bindp (find_entry dir basename namelen) (\<lambda>(dir, r).
             case r of
               None \<Rightarrow> donep [iput (Some dir)] None
             | Some de \<Rightarrow>
                 bindp (getp (\<lambda>s. (entry_inode de s, i_dev (inode_table s dir)))) (\<lambda>(inr, dev).
                 seqp (brelse (Some (fst de)))
                 (seqp (iput (Some dir))
                 (bindp (iget dev inr) (\<lambda>i.
                    seqp (modp (\<lambda>s. upd_inode i (\<lambda>n. n\<lparr>i_atime := now s, i_dirt := 1\<rparr>) s))
                      (retp (Some i))))))))"

subsection \<open>Opening and creating\<close>

text \<open>The value is the error code or 0, and \<open>*res_inode\<close>.\<close>

definition open_namei :: "u32 \<Rightarrow> u32 \<Rightarrow> u32 \<Rightarrow> (int \<times> nat option, 'z fs_state_scheme) proc" where
  "open_namei pathname flag mode =
     (let flag = (if flag AND O_TRUNC \<noteq> 0 \<and> flag AND O_ACCMODE = 0 then flag OR O_WRONLY else flag) in
      bindp (getp (\<lambda>s. (ucast mode AND (0x1ff AND NOT (umask (cur s)))) OR I_REGULAR)) (\<lambda>mode.
      bindp (dir_namei pathname) (\<lambda>r.
        case r of
          None \<Rightarrow> retp (- ENOENT, None)
        | Some (dir, basename, namelen) \<Rightarrow>
            if namelen = 0
            then (if flag AND (O_ACCMODE OR O_CREAT OR O_TRUNC) = 0 then retp (0, Some dir)
                  else donep [iput (Some dir)] (- EISDIR, None))
            else bindp (find_entry dir basename namelen) (\<lambda>(dir, r).
              case r of
                None \<Rightarrow>
                  if flag AND O_CREAT = 0 then donep [iput (Some dir)] (- ENOENT, None)
                  else ifp (\<lambda>s. \<not> permission dir MAY_WRITE s) (donep [iput (Some dir)] (- EACCES, None))
                  (bindp (getp (\<lambda>s. i_dev (inode_table s dir))) (\<lambda>dev.
                   bindp (new_inode dev) (\<lambda>r.
                     case r of
                       None \<Rightarrow> donep [iput (Some dir)] (- ENOSPC, None)
                     | Some inode \<Rightarrow>
                         seqp (modp (\<lambda>s. upd_inode inode (\<lambda>n. n\<lparr>i_uid := euid (cur s), i_mode := mode, i_dirt := 1\<rparr>) s))
                         (bindp (add_entry dir basename namelen) (\<lambda>r.
                            case r of
                              None \<Rightarrow>
                                donep [modp (upd_inode inode (\<lambda>n. n\<lparr>i_nlinks := i_nlinks n - 1\<rparr>)),
                                       iput (Some inode), iput (Some dir)] (- ENOSPC, None)
                            | Some de \<Rightarrow>
                                donep [modp (\<lambda>s. set_entry_inode de (i_num (inode_table s inode)) s),
                                       modp (set_dirty (fst de)), brelse (Some (fst de)), iput (Some dir)]
                                  (0, Some inode))))))
              | Some de \<Rightarrow>
                  bindp (getp (\<lambda>s. (entry_inode de s, i_dev (inode_table s dir)))) (\<lambda>(inr, dev).
                  seqp (brelse (Some (fst de)))
                  (seqp (iput (Some dir))
                  (if flag AND O_EXCL \<noteq> 0 then retp (- EEXIST, None)
                   else bindp (iget dev inr) (\<lambda>inode.
                     ifp (\<lambda>s. S_ISDIR (i_mode (inode_table s inode)) \<and> flag AND O_ACCMODE \<noteq> 0 \<or>
                              \<not> permission inode (ACC_MODE flag) s)
                       (donep [iput (Some inode)] (- EPERM, None))
                       (donep [modp (\<lambda>s. upd_inode inode (\<lambda>n. n\<lparr>i_atime := now s\<rparr>) s),
                               if flag AND O_TRUNC \<noteq> 0 then truncate inode else retp ()]
                          (0, Some inode))))))))))"

text \<open>The prologue \<open>mknod\<close>, \<open>mkdir\<close>, \<open>rmdir\<close> and \<open>unlink\<close> have in common: the parent directory of the name, which has to be
  writable.\<close>

definition with_parent ::
    "u32 \<Rightarrow> (nat \<Rightarrow> u32 \<Rightarrow> nat \<Rightarrow> (int, 'z fs_state_scheme) proc) \<Rightarrow> (int, 'z fs_state_scheme) proc" where
  "with_parent pathname k =
     bindp (dir_namei pathname) (\<lambda>r.
       case r of
         None \<Rightarrow> retp (- ENOENT)
       | Some (dir, basename, namelen) \<Rightarrow>
           if namelen = 0 then donep [iput (Some dir)] (- ENOENT)
           else ifp (\<lambda>s. \<not> permission dir MAY_WRITE s) (donep [iput (Some dir)] (- EPERM))
             (k dir basename namelen))"

text \<open>The steps of \<open>mknod\<close> and \<open>mkdir\<close> up to the new inode.\<close>

definition with_new_inode ::
    "u32 \<Rightarrow> (nat \<Rightarrow> u32 \<Rightarrow> nat \<Rightarrow> nat \<Rightarrow> (int, 'z fs_state_scheme) proc) \<Rightarrow> (int, 'z fs_state_scheme) proc" where
  "with_new_inode pathname k =
     ifp (\<lambda>s. \<not> suser s) (retp (- EPERM))
     (with_parent pathname (\<lambda>dir basename namelen.
        bindp (find_entry dir basename namelen) (\<lambda>(dir, r).
          case r of
            Some de \<Rightarrow> donep [brelse (Some (fst de)), iput (Some dir)] (- EEXIST)
          | None \<Rightarrow>
              bindp (getp (\<lambda>s. i_dev (inode_table s dir))) (\<lambda>dev.
              bindp (new_inode dev) (\<lambda>r.
                case r of
                  None \<Rightarrow> donep [iput (Some dir)] (- ENOSPC)
                | Some inode \<Rightarrow> k dir basename namelen inode)))))"

definition sys_mknod :: "u32 \<Rightarrow> u16 \<Rightarrow> u16 \<Rightarrow> (int, 'z fs_state_scheme) proc" where
  "sys_mknod filename mode dev =
     with_new_inode filename (\<lambda>dir basename namelen inode.
       seqp (modp (\<lambda>s. upd_inode inode (\<lambda>n.
          n\<lparr>i_mode := mode,
            i_zone := (if S_ISBLK mode \<or> S_ISCHR mode then (i_zone n)(0 := dev) else i_zone n),
            i_mtime := now s, i_atime := now s, i_dirt := 1\<rparr>) s))
       (bindp (add_entry dir basename namelen) (\<lambda>r.
          case r of
            None \<Rightarrow>
              donep [iput (Some dir), modp (upd_inode inode (\<lambda>n. n\<lparr>i_nlinks := 0\<rparr>)), iput (Some inode)] (- ENOSPC)
          | Some de \<Rightarrow>
              donep [modp (\<lambda>s. set_entry_inode de (i_num (inode_table s inode)) s), modp (set_dirty (fst de)),
                     iput (Some dir), iput (Some inode), brelse (Some (fst de))] 0)))"

text \<open>The entries \<open>.\<close> and \<open>..\<close> of a new directory; \<open>strcpy\<close> writes the terminating zero byte too.\<close>

definition put_dots :: "u16 \<Rightarrow> u16 \<Rightarrow> block \<Rightarrow> block" where
  "put_dots self par d =
     (put_u16 16 par ((put_u16 0 self d)(2 := 0x2e, 3 := 0)))(18 := 0x2e, 19 := 0x2e, 20 := 0)"

definition sys_mkdir :: "u32 \<Rightarrow> u16 \<Rightarrow> (int, 'z fs_state_scheme) proc" where
  "sys_mkdir pathname mode =
     with_new_inode pathname (\<lambda>dir basename namelen inode.
       seqp (modp (\<lambda>s. upd_inode inode (\<lambda>n. n\<lparr>i_size := 32, i_dirt := 1, i_mtime := now s, i_atime := now s\<rparr>) s))
       (bindp (getp (\<lambda>s. i_dev (inode_table s inode))) (\<lambda>dev.
        bindp (new_block dev) (\<lambda>z.
        seqp (modp (upd_inode inode (\<lambda>n. n\<lparr>i_zone := (i_zone n)(0 := z)\<rparr>)))
        (if z = 0
         then donep [iput (Some dir), modp (upd_inode inode (\<lambda>n. n\<lparr>i_nlinks := i_nlinks n - 1\<rparr>)), iput (Some inode)] (- ENOSPC)
         else
           seqp (modp (upd_inode inode (\<lambda>n. n\<lparr>i_dirt := 1\<rparr>)))
           (bindp (getp (\<lambda>s. i_zone (inode_table s inode) 0)) (\<lambda>z.
            bindp (bread_zone inode z) (\<lambda>r.
              case r of
                None \<Rightarrow>
                  seqp (iput (Some dir))
                  (bindp (getp (\<lambda>s. (i_dev (inode_table s inode), i_zone (inode_table s inode) 0))) (\<lambda>(dev, z).
                     donep [free_block dev (uint z), modp (upd_inode inode (\<lambda>n. n\<lparr>i_nlinks := i_nlinks n - 1\<rparr>)),
                            iput (Some inode)] (- ERROR)))
              | Some dir_block \<Rightarrow>
                  seqp (modp (\<lambda>s. upd_buf dir_block (\<lambda>b. b\<lparr>b_data :=
                          put_dots (i_num (inode_table s inode)) (i_num (inode_table s dir)) (b_data b)\<rparr>) s))
                  (seqp (modp (upd_inode inode (\<lambda>n. n\<lparr>i_nlinks := 2\<rparr>)))
                  (seqp (modp (set_dirty dir_block))
                  (seqp (brelse (Some dir_block))
                  (seqp (modp (\<lambda>s. upd_inode inode (\<lambda>n.
                           n\<lparr>i_mode := I_DIRECTORY OR (mode AND 0x1ff AND NOT (umask (cur s))), i_dirt := 1\<rparr>) s))
                  (bindp (add_entry dir basename namelen) (\<lambda>r.
                     case r of
                       None \<Rightarrow>
                         seqp (iput (Some dir))
                         (bindp (getp (\<lambda>s. (i_dev (inode_table s inode), i_zone (inode_table s inode) 0))) (\<lambda>(dev, z).
                            donep [free_block dev (uint z), modp (upd_inode inode (\<lambda>n. n\<lparr>i_nlinks := 0\<rparr>)),
                                   iput (Some inode)] (- ENOSPC)))
                     | Some de \<Rightarrow>
                         donep [modp (\<lambda>s. set_entry_inode de (i_num (inode_table s inode)) s), modp (set_dirty (fst de)),
                                modp (upd_inode dir (\<lambda>n. n\<lparr>i_nlinks := i_nlinks n + 1, i_dirt := 1\<rparr>)),
                                iput (Some dir), iput (Some inode), brelse (Some (fst de))] 0))))))))))))))"

subsection \<open>Removing and linking\<close>

text \<open>The loop of \<open>empty_dir\<close>. On a hole the released buffer pointer is kept, and released again.\<close>

fun empty_dir_loop :: "nat \<Rightarrow> nat \<Rightarrow> nat \<Rightarrow> nat \<Rightarrow> nat \<Rightarrow> (bool, 'z fs_state_scheme) proc" where
  "empty_dir_loop 0 nr k bh inode = donep [brelse (Some bh)] True"
| "empty_dir_loop (Suc n) nr k bh inode =
     (if k \<ge> DIR_ENTRIES_PER_BLOCK
      then
        seqp (brelse (Some bh))
        (bindp (bmap inode (int (nr div DIR_ENTRIES_PER_BLOCK))) (\<lambda>block.
           if block = 0 then empty_dir_loop (n - 63) (nr + DIR_ENTRIES_PER_BLOCK) k bh inode
           else bindp (bread_zone inode block) (\<lambda>r.
             case r of
               None \<Rightarrow> retp False
             | Some bh \<Rightarrow>
                 ifp (\<lambda>s. entry_inode (bh, 0) s \<noteq> 0) (donep [brelse (Some bh)] False)
                   (empty_dir_loop n (nr + 1) 1 bh inode))))
      else
        ifp (\<lambda>s. entry_inode (bh, k) s \<noteq> 0) (donep [brelse (Some bh)] False)
          (empty_dir_loop n (nr + 1) (k + 1) bh inode))"

text \<open>The first two entries are \<open>.\<close>, of the directory itself, and \<open>..\<close>.\<close>

definition has_dots :: "nat \<Rightarrow> nat \<Rightarrow> 'z fs_state_scheme \<Rightarrow> bool" where
  "has_dots bh inode s =
     (let d = b_data (bufs s bh) in
      get_u16 d 0 = i_num (inode_table s inode) \<and> get_u16 d 16 \<noteq> 0 \<and>
      d 2 = 0x2e \<and> d 3 = 0 \<and> d 18 = 0x2e \<and> d 19 = 0x2e \<and> d 20 = 0)"

definition empty_dir :: "nat \<Rightarrow> (bool, 'z fs_state_scheme) proc" where
  "empty_dir inode =
     bindp (getp (\<lambda>s. (unat (i_size (inode_table s inode)) div 16, i_zone (inode_table s inode) 0))) (\<lambda>(len, z).
     bindp (if len < 2 \<or> z = 0 then retp None else bread_zone inode z) (\<lambda>r.
       case r of
         None \<Rightarrow> donep [modp (printk ''warning - bad directory on dev %04x'')] False
       | Some bh \<Rightarrow>
           ifp (\<lambda>s. \<not> has_dots bh inode s) (donep [modp (printk ''warning - bad directory on dev %04x'')] False)
             (empty_dir_loop (len - 2) 2 2 bh inode)))"

definition sys_rmdir :: "u32 \<Rightarrow> (int, 'z fs_state_scheme) proc" where
  "sys_rmdir name =
     ifp (\<lambda>s. \<not> suser s) (retp (- EPERM))
     (with_parent name (\<lambda>dir basename namelen.
        bindp (find_entry dir basename namelen) (\<lambda>(dir, r).
          case r of
            None \<Rightarrow> donep [iput (Some dir)] (- ENOENT)
          | Some de \<Rightarrow>
              bindp (getp (\<lambda>s. (i_dev (inode_table s dir), entry_inode de s))) (\<lambda>(dev, nr).
              bindp (iget dev nr) (\<lambda>inode.
                let bh = brelse (Some (fst de)) in
                ifp (\<lambda>s. i_mode (inode_table s dir) AND S_ISVTX \<noteq> 0 \<and> euid (cur s) \<noteq> 0 \<and>
                         i_uid (inode_table s inode) \<noteq> euid (cur s))
                  (donep [iput (Some dir), iput (Some inode), bh] (- EPERM))
                (ifp (\<lambda>s. i_dev (inode_table s inode) \<noteq> i_dev (inode_table s dir) \<or> i_count (inode_table s inode) > 1)
                  (donep [iput (Some dir), iput (Some inode), bh] (- EPERM))
                (if inode = dir then donep [iput (Some inode), iput (Some dir), bh] (- EPERM)
                 else ifp (\<lambda>s. \<not> S_ISDIR (i_mode (inode_table s inode)))
                  (donep [iput (Some inode), iput (Some dir), bh] (- ENOTDIR))
                (bindp (empty_dir inode) (\<lambda>e.
                  if \<not> e then donep [iput (Some inode), iput (Some dir), bh] (- ENOTEMPTY)
                  else
                    donep [ifp (\<lambda>s. i_nlinks (inode_table s inode) \<noteq> 2)
                             (modp (printk ''empty directory has nlink!=2 (%d)'')) (retp ()),
                           modp (set_entry_inode de 0), modp (set_dirty (fst de)), bh,
                           modp (upd_inode inode (\<lambda>n. n\<lparr>i_nlinks := 0, i_dirt := 1\<rparr>)),
                           modp (\<lambda>s. upd_inode dir (\<lambda>n. n\<lparr>i_nlinks := i_nlinks n - 1, i_ctime := now s,
                             i_mtime := now s, i_dirt := 1\<rparr>) s),
                           iput (Some dir), iput (Some inode)] 0)))))))))"

definition sys_unlink :: "u32 \<Rightarrow> (int, 'z fs_state_scheme) proc" where
  "sys_unlink name =
     with_parent name (\<lambda>dir basename namelen.
       bindp (find_entry dir basename namelen) (\<lambda>(dir, r).
         case r of
           None \<Rightarrow> donep [iput (Some dir)] (- ENOENT)
         | Some de \<Rightarrow>
             bindp (getp (\<lambda>s. (i_dev (inode_table s dir), entry_inode de s))) (\<lambda>(dev, nr).
             bindp (iget dev nr) (\<lambda>inode.
               let bh = brelse (Some (fst de)) in
               ifp (\<lambda>s. i_mode (inode_table s dir) AND S_ISVTX \<noteq> 0 \<and> \<not> suser s \<and>
                        euid (cur s) \<noteq> i_uid (inode_table s inode) \<and> euid (cur s) \<noteq> i_uid (inode_table s dir))
                 (donep [iput (Some dir), iput (Some inode), bh] (- EPERM))
               (ifp (\<lambda>s. S_ISDIR (i_mode (inode_table s inode)))
                 (donep [iput (Some inode), iput (Some dir), bh] (- EPERM))
                 (donep [ifp (\<lambda>s. i_nlinks (inode_table s inode) = 0)
                           (seqp (modp (printk ''Deleting nonexistent file (%04x:%d), %d''))
                             (modp (upd_inode inode (\<lambda>n. n\<lparr>i_nlinks := 1\<rparr>)))) (retp ()),
                         modp (set_entry_inode de 0), modp (set_dirty (fst de)), bh,
                         modp (\<lambda>s. upd_inode inode (\<lambda>n. n\<lparr>i_nlinks := i_nlinks n - 1, i_dirt := 1, i_ctime := now s\<rparr>) s),
                         iput (Some inode), iput (Some dir)] 0))))))"

definition sys_link :: "u32 \<Rightarrow> u32 \<Rightarrow> (int, 'z fs_state_scheme) proc" where
  "sys_link oldname newname =
     bindp (namei oldname) (\<lambda>r.
       case r of
         None \<Rightarrow> retp (- ENOENT)
       | Some old \<Rightarrow>
           ifp (\<lambda>s. S_ISDIR (i_mode (inode_table s old))) (donep [iput (Some old)] (- EPERM))
           (bindp (dir_namei newname) (\<lambda>r.
              case r of
                None \<Rightarrow> donep [iput (Some old)] (- EACCES)
              | Some (dir, basename, namelen) \<Rightarrow>
                  if namelen = 0 then donep [iput (Some old), iput (Some dir)] (- EPERM)
                  else ifp (\<lambda>s. i_dev (inode_table s dir) \<noteq> i_dev (inode_table s old))
                    (donep [iput (Some dir), iput (Some old)] (- EXDEV))
                  (ifp (\<lambda>s. \<not> permission dir MAY_WRITE s) (donep [iput (Some dir), iput (Some old)] (- EACCES))
                  (bindp (find_entry dir basename namelen) (\<lambda>(dir, r).
                     case r of
                       Some de \<Rightarrow> donep [brelse (Some (fst de)), iput (Some dir), iput (Some old)] (- EEXIST)
                     | None \<Rightarrow>
                         bindp (add_entry dir basename namelen) (\<lambda>r.
                           case r of
                             None \<Rightarrow> donep [iput (Some dir), iput (Some old)] (- ENOSPC)
                           | Some de \<Rightarrow>
                               donep [modp (\<lambda>s. set_entry_inode de (i_num (inode_table s old)) s), modp (set_dirty (fst de)),
                                      brelse (Some (fst de)), iput (Some dir),
                                      modp (\<lambda>s. upd_inode old (\<lambda>n. n\<lparr>i_nlinks := i_nlinks n + 1, i_ctime := now s, i_dirt := 1\<rparr>) s),
                                      iput (Some old)] 0)))))))"

end
