(* ===== verification/Chr_Tty.thy ===== *)
theory Chr_Tty
  imports Fs_Types
begin

text \<open>
  Terminals: the queues of include/linux/tty.h, the data of kernel/chr_drv/tty_io.c and the line
  discipline \<open>copy_to_cooked\<close>. A \<open>tty_struct\<close> is named by its channel (0 the console, 1 and 2 the serial
  lines), the wait queues of its three queues are \<open>WTty channel 0\<close> (read), \<open>WTty channel 1\<close> (write) and
  \<open>WTty channel 2\<close> (secondary). \<open>tty->write\<close> is an argument here; the theory Chr_Console supplies it.

  A \<open>char\<close> is signed: a byte from 128 on is negative, so it is below 32 and differs from every control
  character of \<open>c_cc\<close>, which are unsigned. \<open>tolower\<close> and \<open>toupper\<close> index the table \<open>_ctype\<close> with it; \<open>below_ctype\<close>
  is the memory in front of the table.
\<close>

abbreviation (input) TTY_BUF_SIZE :: nat where "TTY_BUF_SIZE \<equiv> 1024"

record tty_queue =
  tq_data :: u32
  tq_head :: u32
  tq_tail :: u32
  tq_buf :: "nat \<Rightarrow> u8"

record termios =
  c_iflag :: u32
  c_oflag :: u32
  c_cflag :: u32
  c_lflag :: u32
  c_line :: u8
  c_cc :: "nat \<Rightarrow> u8"

record tty_struct =
  tty_termios :: termios
  tty_pgrp :: int
  stopped :: int
  read_q :: tty_queue
  write_q :: tty_queue
  secondary :: tty_queue

text \<open>The static data of kernel/chr_drv/console.c. The video memory holds cells of 16 bits at even addresses.\<close>

record console =
  video_type :: u8
  video_num_columns :: u32
  video_size_row :: u32
  video_num_lines :: u32
  video_page :: u8
  video_mem_start :: u32
  video_mem_end :: u32
  video_port_reg :: u16
  video_port_val :: u16
  video_erase_char :: u16
  origin :: u32
  scr_end :: u32
  con_pos :: u32
  con_x :: u32
  con_y :: u32
  con_top :: u32
  con_bottom :: u32
  con_state :: nat
  npar :: nat
  par :: "nat \<Rightarrow> u32"
  ques :: bool
  attr :: u8
  saved_x :: u32
  saved_y :: u32
  vram :: "u32 \<Rightarrow> u16"

record tty_state = fs_state +
  tty_table :: "nat \<Rightarrow> tty_struct"
  cr_flag :: bool
  below_ctype :: "nat \<Rightarrow> u8"
  con :: console

definition upd_tty :: "nat \<Rightarrow> (tty_struct \<Rightarrow> tty_struct) \<Rightarrow> 'z tty_state_scheme \<Rightarrow> 'z tty_state_scheme" where
  "upd_tty t f s = s\<lparr>tty_table := (tty_table s)(t := f (tty_table s t))\<rparr>"

definition upd_con :: "(console \<Rightarrow> console) \<Rightarrow> 'z tty_state_scheme \<Rightarrow> 'z tty_state_scheme" where
  "upd_con f s = s\<lparr>con := f (con s)\<rparr>"

text \<open>The initial contents of \<open>tty_table\<close> and of the static data of the console.\<close>

definition INIT_C_CC :: "nat \<Rightarrow> u8" where
  "INIT_C_CC k = (if k < 17 then [3, 28, 127, 21, 4, 0, 1, 0, 17, 19, 26, 0, 18, 15, 23, 22, 0] ! k else 0)"

definition init_queue :: "u32 \<Rightarrow> tty_queue" where
  "init_queue d = \<lparr>tq_data = d, tq_head = 0, tq_tail = 0, tq_buf = (\<lambda>_. 0)\<rparr>"

definition init_tty :: "nat \<Rightarrow> tty_struct" where
  "init_tty i =
     (let port = (if i = 0 then 0 else if i = 1 then 0x3f8 else 0x2f8) in
      \<lparr>tty_termios = (if i = 0
         then \<lparr>c_iflag = 0x100, c_oflag = 5, c_cflag = 0, c_lflag = 0xa0b, c_line = 0, c_cc = INIT_C_CC\<rparr>
         else \<lparr>c_iflag = 0, c_oflag = 0, c_cflag = 0x3b, c_lflag = 0, c_line = 0, c_cc = INIT_C_CC\<rparr>),
       tty_pgrp = 0, stopped = 0, read_q = init_queue port, write_q = init_queue port, secondary = init_queue 0\<rparr>)"

definition init_con :: console where
  "init_con = \<lparr>video_type = 0, video_num_columns = 0, video_size_row = 0, video_num_lines = 0, video_page = 0,
     video_mem_start = 0, video_mem_end = 0, video_port_reg = 0, video_port_val = 0, video_erase_char = 0,
     origin = 0, scr_end = 0, con_pos = 0, con_x = 0, con_y = 0, con_top = 0, con_bottom = 0, con_state = 0,
     npar = 0, par = (\<lambda>_. 0), ques = False, attr = 7, saved_x = 0, saved_y = 0, vram = (\<lambda>_. 0)\<rparr>"

definition tty_data :: "fs_state \<Rightarrow> tty_state" where
  "tty_data s = fs_state.extend s (tty_state.fields init_tty False (\<lambda>_. 0) init_con)"

subsection \<open>Queues\<close>

definition INC :: "u32 \<Rightarrow> u32" where "INC a = (a + 1) AND 0x3ff"
definition DEC :: "u32 \<Rightarrow> u32" where "DEC a = (a - 1) AND 0x3ff"

definition EMPTY :: "tty_queue \<Rightarrow> bool" where
  "EMPTY q \<longleftrightarrow> tq_head q = tq_tail q"

definition LEFT :: "tty_queue \<Rightarrow> u32" where
  "LEFT q = (tq_tail q - tq_head q - 1) AND 0x3ff"

definition LAST :: "tty_queue \<Rightarrow> u8" where
  "LAST q = tq_buf q (unat ((tq_head q - 1) AND 0x3ff))"

definition FULL :: "tty_queue \<Rightarrow> bool" where
  "FULL q \<longleftrightarrow> LEFT q = 0"

definition CHARS :: "tty_queue \<Rightarrow> u32" where
  "CHARS q = (tq_head q - tq_tail q) AND 0x3ff"

definition GETCH :: "tty_queue \<Rightarrow> u8 \<times> tty_queue" where
  "GETCH q = (tq_buf q (unat (tq_tail q)), q\<lparr>tq_tail := INC (tq_tail q)\<rparr>)"

definition PUTCH :: "u8 \<Rightarrow> tty_queue \<Rightarrow> tty_queue" where
  "PUTCH c q = q\<lparr>tq_buf := (tq_buf q)(unat (tq_head q) := c), tq_head := INC (tq_head q)\<rparr>"

subsection \<open>Flags and characters\<close>

abbreviation (input) VINTR :: nat where "VINTR \<equiv> 0"
abbreviation (input) VQUIT :: nat where "VQUIT \<equiv> 1"
abbreviation (input) VERASE :: nat where "VERASE \<equiv> 2"
abbreviation (input) VKILL :: nat where "VKILL \<equiv> 3"
abbreviation (input) VEOF :: nat where "VEOF \<equiv> 4"
abbreviation (input) VTIME :: nat where "VTIME \<equiv> 5"
abbreviation (input) VMIN :: nat where "VMIN \<equiv> 6"
abbreviation (input) VSTART :: nat where "VSTART \<equiv> 8"
abbreviation (input) VSTOP :: nat where "VSTOP \<equiv> 9"

definition L_FLAG :: "u32 \<Rightarrow> tty_struct \<Rightarrow> bool" where "L_FLAG f t \<longleftrightarrow> c_lflag (tty_termios t) AND f \<noteq> 0"
definition I_FLAG :: "u32 \<Rightarrow> tty_struct \<Rightarrow> bool" where "I_FLAG f t \<longleftrightarrow> c_iflag (tty_termios t) AND f \<noteq> 0"
definition O_FLAG :: "u32 \<Rightarrow> tty_struct \<Rightarrow> bool" where "O_FLAG f t \<longleftrightarrow> c_oflag (tty_termios t) AND f \<noteq> 0"

abbreviation L_ISIG :: "tty_struct \<Rightarrow> bool" where "L_ISIG \<equiv> L_FLAG 1"
abbreviation L_CANON :: "tty_struct \<Rightarrow> bool" where "L_CANON \<equiv> L_FLAG 2"
abbreviation L_ECHO :: "tty_struct \<Rightarrow> bool" where "L_ECHO \<equiv> L_FLAG 8"
abbreviation L_ECHOCTL :: "tty_struct \<Rightarrow> bool" where "L_ECHOCTL \<equiv> L_FLAG 0x200"
abbreviation I_NLCR :: "tty_struct \<Rightarrow> bool" where "I_NLCR \<equiv> I_FLAG 0x40"
abbreviation I_NOCR :: "tty_struct \<Rightarrow> bool" where "I_NOCR \<equiv> I_FLAG 0x80"
abbreviation I_CRNL :: "tty_struct \<Rightarrow> bool" where "I_CRNL \<equiv> I_FLAG 0x100"
abbreviation I_UCLC :: "tty_struct \<Rightarrow> bool" where "I_UCLC \<equiv> I_FLAG 0x200"
abbreviation O_POST :: "tty_struct \<Rightarrow> bool" where "O_POST \<equiv> O_FLAG 1"
abbreviation O_LCUC :: "tty_struct \<Rightarrow> bool" where "O_LCUC \<equiv> O_FLAG 2"
abbreviation O_NLCR :: "tty_struct \<Rightarrow> bool" where "O_NLCR \<equiv> O_FLAG 4"
abbreviation O_CRNL :: "tty_struct \<Rightarrow> bool" where "O_CRNL \<equiv> O_FLAG 8"
abbreviation O_NLRET :: "tty_struct \<Rightarrow> bool" where "O_NLRET \<equiv> O_FLAG 0x20"

text \<open>\<open>c == (tty)->termios.c_cc[k]\<close> for a signed \<open>c\<close>.\<close>

definition is_cc :: "u8 \<Rightarrow> nat \<Rightarrow> tty_struct \<Rightarrow> bool" where
  "is_cc c k t \<longleftrightarrow> sint c = uint (c_cc (tty_termios t) k)"

text \<open>lib/ctype.c, from entry 0 (of \<open>EOF\<close>) on.\<close>

definition ctype_table :: "u8 list" where
  "ctype_table = [0] @ replicate 9 8 @ replicate 5 0x28 @ replicate 18 8 @ [0xa0] @ replicate 15 0x10
     @ replicate 10 4 @ replicate 7 0x10 @ replicate 6 0x41 @ replicate 20 1 @ replicate 6 0x10
     @ replicate 6 0x42 @ replicate 20 2 @ replicate 4 0x10 @ [8] @ replicate 128 0"

definition ctype :: "u8 \<Rightarrow> 'z tty_state_scheme \<Rightarrow> u8" where
  "ctype c s = (if sint c \<ge> - 1 then ctype_table ! nat (sint c + 1) else below_ctype s (nat (- sint c - 2)))"

definition tolower :: "u8 \<Rightarrow> 'z tty_state_scheme \<Rightarrow> u8" where
  "tolower c s = (if ctype c s AND 1 \<noteq> 0 then c + 32 else c)"

definition toupper :: "u8 \<Rightarrow> 'z tty_state_scheme \<Rightarrow> u8" where
  "toupper c s = (if ctype c s AND 2 \<noteq> 0 then c - 32 else c)"

subsection \<open>The line discipline\<close>

definition tty_intr :: "nat \<Rightarrow> u32 \<Rightarrow> 'z tty_state_scheme \<Rightarrow> 'z tty_state_scheme" where
  "tty_intr tty m s =
     (if tty_pgrp (tty_table s tty) \<le> 0 then s
      else s\<lparr>task := (\<lambda>i. if i < NR_TASKS
              then map_option (\<lambda>t. if pgrp t = tty_pgrp (tty_table s tty) then t\<lparr>signal := signal t OR m\<rparr> else t) (task s i)
              else task s i)\<rparr>)"

definition put_write :: "nat \<Rightarrow> u8 \<Rightarrow> 'z tty_state_scheme \<Rightarrow> 'z tty_state_scheme" where
  "put_write tty c s = upd_tty tty (\<lambda>t. t\<lparr>write_q := PUTCH c (write_q t)\<rparr>) s"

definition drop_last :: "nat \<Rightarrow> 'z tty_state_scheme \<Rightarrow> 'z tty_state_scheme" where
  "drop_last tty s = upd_tty tty (\<lambda>t. t\<lparr>secondary := (secondary t)\<lparr>tq_head := DEC (tq_head (secondary t))\<rparr>\<rparr>) s"

text \<open>\<open>EMPTY(tty->secondary) || (c=LAST(tty->secondary))==10 || c==EOF_CHAR(tty)\<close>.\<close>

definition at_line_start :: "tty_struct \<Rightarrow> bool" where
  "at_line_start t \<longleftrightarrow> EMPTY (secondary t) \<or> LAST (secondary t) = 10 \<or> is_cc (LAST (secondary t)) VEOF t"

text \<open>The echo of an erased character.\<close>

definition echo_erase ::
    "(nat \<Rightarrow> 'z tty_state_scheme \<Rightarrow> (unit, 'z tty_state_scheme) kres) \<Rightarrow> nat \<Rightarrow> u8
     \<Rightarrow> 'z tty_state_scheme \<Rightarrow> (unit, 'z tty_state_scheme) kres" where
  "echo_erase write tty c s =
     (if L_ECHO (tty_table s tty)
      then write tty (put_write tty 127 (if sint c < 32 then put_write tty 127 s else s))
      else Ok () s)"

primrec kill_line ::
    "nat \<Rightarrow> (nat \<Rightarrow> 'z tty_state_scheme \<Rightarrow> (unit, 'z tty_state_scheme) kres) \<Rightarrow> nat
     \<Rightarrow> 'z tty_state_scheme \<Rightarrow> (unit, 'z tty_state_scheme) kres" where
  "kill_line 0 write tty s = Blocked s"
| "kill_line (Suc n) write tty s =
     (if at_line_start (tty_table s tty) then Ok () s
      else bindk (echo_erase write tty (LAST (secondary (tty_table s tty))) s) (\<lambda>_ s.
        kill_line n write tty (drop_last tty s)))"

text \<open>The translation of carriage return, newline and upper case; \<open>None\<close> is a dropped character.\<close>

definition map_input :: "nat \<Rightarrow> u8 \<Rightarrow> 'z tty_state_scheme \<Rightarrow> u8 option" where
  "map_input tty c s =
     (let t = tty_table s tty in
      map_option (\<lambda>c. if I_UCLC t then tolower c s else c)
        (if c = 13 then (if I_CRNL t then Some 10 else if I_NOCR t then None else Some c)
         else if c = 10 \<and> I_NLCR t then Some 13 else Some c))"

definition echo_char ::
    "(nat \<Rightarrow> 'z tty_state_scheme \<Rightarrow> (unit, 'z tty_state_scheme) kres) \<Rightarrow> nat \<Rightarrow> u8
     \<Rightarrow> 'z tty_state_scheme \<Rightarrow> (unit, 'z tty_state_scheme) kres" where
  "echo_char write tty c s =
     (let t = tty_table s tty in
      if L_ECHO t
      then write tty
        (if c = 10 then put_write tty 13 (put_write tty 10 s)
         else if sint c < 32
         then (if L_ECHOCTL t then put_write tty (c + 64) (put_write tty 0x5e s) else s)
         else put_write tty c s)
      else Ok () s)"

text \<open>One round of the loop of \<open>copy_to_cooked\<close>, after \<open>GETCH\<close>.\<close>

definition cook_char ::
    "nat \<Rightarrow> (nat \<Rightarrow> 'z tty_state_scheme \<Rightarrow> (unit, 'z tty_state_scheme) kres) \<Rightarrow> nat \<Rightarrow> u8
     \<Rightarrow> 'z tty_state_scheme \<Rightarrow> (unit, 'z tty_state_scheme) kres" where
  "cook_char n write tty c s =
     (let t = tty_table s tty in
      if L_CANON t \<and> is_cc c VKILL t then kill_line n write tty s
      else if L_CANON t \<and> is_cc c VERASE t
      then (if at_line_start t then Ok () s
            else bindk (echo_erase write tty (LAST (secondary t)) s) (\<lambda>_ s. Ok () (drop_last tty s)))
      else if L_CANON t \<and> is_cc c VSTOP t then Ok () (upd_tty tty (\<lambda>t. t\<lparr>stopped := 1\<rparr>) s)
      else if L_CANON t \<and> is_cc c VSTART t then Ok () (upd_tty tty (\<lambda>t. t\<lparr>stopped := 0\<rparr>) s)
      else if L_ISIG t \<and> is_cc c VINTR t then Ok () (tty_intr tty (S_bit 2) s)
      else if L_ISIG t \<and> is_cc c VQUIT t then Ok () (tty_intr tty (S_bit 3) s)
      else
        let s = (if c = 10 \<or> is_cc c VEOF t
                 then upd_tty tty (\<lambda>t. t\<lparr>secondary := (secondary t)\<lparr>tq_data := tq_data (secondary t) + 1\<rparr>\<rparr>) s
                 else s)
        in bindk (echo_char write tty c s) (\<lambda>_ s.
             Ok () (upd_tty tty (\<lambda>t. t\<lparr>secondary := PUTCH c (secondary t)\<rparr>) s)))"

primrec cook_loop ::
    "nat \<Rightarrow> (nat \<Rightarrow> 'z tty_state_scheme \<Rightarrow> (unit, 'z tty_state_scheme) kres) \<Rightarrow> nat
     \<Rightarrow> 'z tty_state_scheme \<Rightarrow> (unit, 'z tty_state_scheme) kres" where
  "cook_loop 0 write tty s = Blocked s"
| "cook_loop (Suc n) write tty s =
     (let t = tty_table s tty in
      if EMPTY (read_q t) \<or> FULL (secondary t) then Ok () s
      else
        let (c, q) = GETCH (read_q t); s = upd_tty tty (\<lambda>t. t\<lparr>read_q := q\<rparr>) s in
        bindk (case map_input tty c s of None \<Rightarrow> Ok () s | Some c \<Rightarrow> cook_char n write tty c s) (\<lambda>_ s.
          cook_loop n write tty s))"

definition copy_to_cooked_with ::
    "nat \<Rightarrow> (nat \<Rightarrow> 'z tty_state_scheme \<Rightarrow> (unit, 'z tty_state_scheme) kres) \<Rightarrow> nat
     \<Rightarrow> 'z tty_state_scheme \<Rightarrow> (unit, 'z tty_state_scheme) kres" where
  "copy_to_cooked_with n write tty s =
     bindk (cook_loop n write tty s) (\<lambda>_ s. Ok () (wake_up (Some (WTty tty 2)) s))"

end
