(* ===== verification/Chr_Console.thy ===== *)
theory Chr_Console
  imports Chr_Tty
begin

text \<open>
  The console driver: kernel/chr_drv/console.c, a VT102 state machine on the video memory, and
  \<open>rs_write\<close> of kernel/chr_drv/serial.c. All positions are unsigned 32-bit words and wrap. The string instructions
  of the assembly parts are \<open>movsl_up\<close>, \<open>movsl_down\<close> (\<open>rep movsl\<close> upwards and downwards, four bytes at
  a time), \<open>stosw_up\<close> and \<open>stosw_down\<close>.

  \<open>con_write\<close> can call itself: \<open>respond\<close> puts the answer to a query into the read queue and
  calls \<open>copy_to_cooked\<close>, which echoes through \<open>tty->write\<close>. \<open>tty_write_fn n\<close> is \<open>tty->write\<close> with at most \<open>n\<close>
  such calls nested.
\<close>

subsection \<open>String instructions\<close>

fun movsl_up :: "nat \<Rightarrow> u32 \<Rightarrow> u32 \<Rightarrow> (u32 \<Rightarrow> u16) \<Rightarrow> (u32 \<Rightarrow> u16)" where
  "movsl_up 0 di si m = m"
| "movsl_up (Suc n) di si m = movsl_up n (di + 4) (si + 4) (m(di := m si, di + 2 := m (si + 2)))"

fun movsl_down :: "nat \<Rightarrow> u32 \<Rightarrow> u32 \<Rightarrow> (u32 \<Rightarrow> u16) \<Rightarrow> (u32 \<Rightarrow> u16)" where
  "movsl_down 0 di si m = m"
| "movsl_down (Suc n) di si m = movsl_down n (di - 4) (si - 4) (m(di := m si, di + 2 := m (si + 2)))"

fun stosw_up :: "nat \<Rightarrow> u32 \<Rightarrow> u16 \<Rightarrow> (u32 \<Rightarrow> u16) \<Rightarrow> (u32 \<Rightarrow> u16)" where
  "stosw_up 0 di v m = m"
| "stosw_up (Suc n) di v m = stosw_up n (di + 2) v (m(di := v))"

fun stosw_down :: "nat \<Rightarrow> u32 \<Rightarrow> u16 \<Rightarrow> (u32 \<Rightarrow> u16) \<Rightarrow> (u32 \<Rightarrow> u16)" where
  "stosw_down 0 di v m = m"
| "stosw_down (Suc n) di v m = stosw_down n (di - 2) v (m(di := v))"

subsection \<open>Cursor and scrolling\<close>

definition gotoxy :: "u32 \<Rightarrow> u32 \<Rightarrow> console \<Rightarrow> console" where
  "gotoxy new_x new_y c =
     (if new_x > video_num_columns c \<or> new_y \<ge> video_num_lines c then c
      else c\<lparr>con_x := new_x, con_y := new_y,
             con_pos := origin c + new_y * video_size_row c + push_bit 1 new_x\<rparr>)"

definition crt_out :: "u8 \<Rightarrow> u32 \<Rightarrow> 'z tty_state_scheme \<Rightarrow> 'z tty_state_scheme" where
  "crt_out reg a s =
     (let c = con s; off = a - video_mem_start c in
      outb (ucast (drop_bit 1 off)) (video_port_val c) (outb (reg + 1) (video_port_reg c)
        (outb (ucast (drop_bit 9 off)) (video_port_val c) (outb reg (video_port_reg c) s))))"

definition set_origin :: "'z tty_state_scheme \<Rightarrow> 'z tty_state_scheme" where
  "set_origin s = crt_out 12 (origin (con s)) s"

definition set_cursor :: "'z tty_state_scheme \<Rightarrow> 'z tty_state_scheme" where
  "set_cursor s = crt_out 14 (con_pos (con s)) s"

abbreviation (input) VIDEO_TYPE_MDA :: u8 where "VIDEO_TYPE_MDA \<equiv> 0x10"
abbreviation (input) VIDEO_TYPE_CGA :: u8 where "VIDEO_TYPE_CGA \<equiv> 0x11"
abbreviation (input) VIDEO_TYPE_EGAM :: u8 where "VIDEO_TYPE_EGAM \<equiv> 0x20"
abbreviation (input) VIDEO_TYPE_EGAC :: u8 where "VIDEO_TYPE_EGAC \<equiv> 0x21"

text \<open>\<open>rep movsl\<close> from \<open>si\<close> to \<open>di\<close>, then \<open>video_num_columns\<close> blank cells behind.\<close>

definition shift_up :: "u32 \<Rightarrow> u32 \<Rightarrow> u32 \<Rightarrow> console \<Rightarrow> console" where
  "shift_up cnt di si c =
     c\<lparr>vram := stosw_up (unat (video_num_columns c)) (di + 4 * cnt) (video_erase_char c)
        (movsl_up (unat cnt) di si (vram c))\<rparr>"

text \<open>The scroll of the lines from \<open>top\<close> to \<open>bottom\<close>.\<close>

definition scroll_region :: "console \<Rightarrow> console" where
  "scroll_region c =
     shift_up (drop_bit 1 ((con_bottom c - con_top c - 1) * video_num_columns c))
       (origin c + video_size_row c * con_top c) (origin c + video_size_row c * (con_top c + 1)) c"

text \<open>The hardware scroll: the window moves down one line, back to the start when it leaves the memory.\<close>

definition scroll_window :: "console \<Rightarrow> console" where
  "scroll_window c =
     (let c = c\<lparr>origin := origin c + video_size_row c, con_pos := con_pos c + video_size_row c,
                scr_end := scr_end c + video_size_row c\<rparr> in
      if scr_end c > video_mem_end c
      then
        let c = shift_up (drop_bit 1 ((video_num_lines c - 1) * video_num_columns c)) (video_mem_start c) (origin c) c
        in c\<lparr>scr_end := scr_end c - (origin c - video_mem_start c),
             con_pos := con_pos c - (origin c - video_mem_start c), origin := video_mem_start c\<rparr>
      else c\<lparr>vram := stosw_up (unat (video_num_columns c)) (scr_end c - video_size_row c) (video_erase_char c) (vram c)\<rparr>)"

definition scrup :: "'z tty_state_scheme \<Rightarrow> 'z tty_state_scheme" where
  "scrup s =
     (let c = con s in
      if (video_type c = VIDEO_TYPE_EGAC \<or> video_type c = VIDEO_TYPE_EGAM) \<and> con_top c = 0 \<and>
         con_bottom c = video_num_lines c
      then set_origin (upd_con scroll_window s)
      else upd_con scroll_region s)"

text \<open>Both branches of \<open>scrdown\<close> run the same instructions.\<close>

definition scrdown :: "console \<Rightarrow> console" where
  "scrdown c =
     (let cnt = drop_bit 1 ((con_bottom c - con_top c - 1) * video_num_columns c);
          di = origin c + video_size_row c * con_bottom c - 4;
          si = origin c + video_size_row c * (con_bottom c - 1) - 4 in
      c\<lparr>vram := stosw_down (unat (video_num_columns c)) (di - 4 * cnt + 2) (video_erase_char c)
          (movsl_down (unat cnt) di si (vram c))\<rparr>)"

definition lf :: "'z tty_state_scheme \<Rightarrow> 'z tty_state_scheme" where
  "lf s =
     (if con_y (con s) + 1 < con_bottom (con s)
      then upd_con (\<lambda>c. c\<lparr>con_y := con_y c + 1, con_pos := con_pos c + video_size_row c\<rparr>) s
      else scrup s)"

definition ri :: "console \<Rightarrow> console" where
  "ri c = (if con_y c > con_top c then c\<lparr>con_y := con_y c - 1, con_pos := con_pos c - video_size_row c\<rparr> else scrdown c)"

definition cr :: "console \<Rightarrow> console" where
  "cr c = c\<lparr>con_pos := con_pos c - push_bit 1 (con_x c), con_x := 0\<rparr>"

definition del :: "console \<Rightarrow> console" where
  "del c =
     (if con_x c \<noteq> 0
      then let p = con_pos c - 2
           in c\<lparr>con_pos := p, con_x := con_x c - 1, vram := (vram c)(p := video_erase_char c)\<rparr>
      else c)"

subsection \<open>Control sequences\<close>

definition erase :: "u32 \<Rightarrow> u32 \<Rightarrow> console \<Rightarrow> console" where
  "erase cnt start c = c\<lparr>vram := stosw_up (unat cnt) start (video_erase_char c) (vram c)\<rparr>"

definition csi_J :: "u32 \<Rightarrow> console \<Rightarrow> console" where
  "csi_J p c =
     (if p = 0 then erase (drop_bit 1 (scr_end c - con_pos c)) (con_pos c) c
      else if p = 1 then erase (drop_bit 1 (con_pos c - origin c)) (origin c) c
      else if p = 2 then erase (video_num_columns c * video_num_lines c) (origin c) c
      else c)"

definition csi_K :: "u32 \<Rightarrow> console \<Rightarrow> console" where
  "csi_K p c =
     (if p = 0
      then (if con_x c \<ge> video_num_columns c then c else erase (video_num_columns c - con_x c) (con_pos c) c)
      else if p = 1
      then erase (if con_x c < video_num_columns c then con_x c else video_num_columns c) (con_pos c - push_bit 1 (con_x c)) c
      else if p = 2 then erase (video_num_columns c) (con_pos c - push_bit 1 (con_x c)) c
      else c)"

definition set_attr :: "u32 \<Rightarrow> u8 \<Rightarrow> u8" where
  "set_attr p a =
     (if p = 0 then 0x07 else if p = 1 then 0x0f else if p = 4 then 0x0f else if p = 7 then 0x70
      else if p = 27 then 0x07 else a)"

definition csi_m :: "console \<Rightarrow> console" where
  "csi_m c = c\<lparr>attr := fold (\<lambda>i. set_attr (par c i)) [0..<npar c + 1] (attr c)\<rparr>"

fun insert_loop :: "nat \<Rightarrow> u32 \<Rightarrow> u16 \<Rightarrow> (u32 \<Rightarrow> u16) \<Rightarrow> (u32 \<Rightarrow> u16)" where
  "insert_loop 0 p old m = m"
| "insert_loop (Suc n) p old m = insert_loop n (p + 2) (m p) (m(p := old))"

definition insert_char :: "console \<Rightarrow> console" where
  "insert_char c =
     c\<lparr>vram := insert_loop (unat (video_num_columns c) - unat (con_x c)) (con_pos c) (video_erase_char c) (vram c)\<rparr>"

fun delete_loop :: "nat \<Rightarrow> u32 \<Rightarrow> u16 \<Rightarrow> (u32 \<Rightarrow> u16) \<Rightarrow> (u32 \<Rightarrow> u16)" where
  "delete_loop 0 p v m = m(p := v)"
| "delete_loop (Suc n) p v m = delete_loop n (p + 2) v (m(p := m (p + 2)))"

definition delete_char :: "console \<Rightarrow> console" where
  "delete_char c =
     (if con_x c \<ge> video_num_columns c then c
      else c\<lparr>vram := delete_loop (unat (video_num_columns c) - unat (con_x c) - 1) (con_pos c) (video_erase_char c) (vram c)\<rparr>)"

definition insert_line :: "console \<Rightarrow> console" where
  "insert_line c =
     (let oldtop = con_top c; oldbottom = con_bottom c;
          c = scrdown (c\<lparr>con_top := con_y c, con_bottom := video_num_lines c\<rparr>)
      in c\<lparr>con_top := oldtop, con_bottom := oldbottom\<rparr>)"

definition delete_line :: "'z tty_state_scheme \<Rightarrow> 'z tty_state_scheme" where
  "delete_line s =
     (let oldtop = con_top (con s); oldbottom = con_bottom (con s);
          s = scrup (upd_con (\<lambda>c. c\<lparr>con_top := con_y c, con_bottom := video_num_lines c\<rparr>) s)
      in upd_con (\<lambda>c. c\<lparr>con_top := oldtop, con_bottom := oldbottom\<rparr>) s)"

definition clip_nr :: "u32 \<Rightarrow> u32 \<Rightarrow> nat" where
  "clip_nr nr m = unat (if nr > m then m else if nr = 0 then 1 else nr)"

definition csi_at :: "u32 \<Rightarrow> console \<Rightarrow> console" where
  "csi_at nr c = (insert_char ^^ clip_nr nr (video_num_columns c)) c"

definition csi_L :: "u32 \<Rightarrow> console \<Rightarrow> console" where
  "csi_L nr c = (insert_line ^^ clip_nr nr (video_num_lines c)) c"

definition csi_P :: "u32 \<Rightarrow> console \<Rightarrow> console" where
  "csi_P nr c = (delete_char ^^ clip_nr nr (video_num_columns c)) c"

definition csi_M :: "u32 \<Rightarrow> 'z tty_state_scheme \<Rightarrow> 'z tty_state_scheme" where
  "csi_M nr s = (delete_line ^^ clip_nr nr (video_num_lines (con s))) s"

definition save_cur :: "console \<Rightarrow> console" where
  "save_cur c = c\<lparr>saved_x := con_x c, saved_y := con_y c\<rparr>"

definition restore_cur :: "console \<Rightarrow> console" where
  "restore_cur c = gotoxy (saved_x c) (saved_y c) c"

definition sysbeep :: "'z tty_state_scheme \<Rightarrow> 'z tty_state_scheme" where
  "sysbeep s =
     (outb 0x06 0x42 (outb 0x37 0x42 (outb 0xB6 0x43 (outb (inb 0x61 s OR 3) 0x61 s))))\<lparr>beepcount := tdiv HZ 8\<rparr>"

subsection \<open>The state machine of \<open>con_write\<close>\<close>

text \<open>A printable character, a tab and the other characters of state 0; \<open>wrap\<close> is the step to the next line.\<close>

definition wrap :: "'z tty_state_scheme \<Rightarrow> 'z tty_state_scheme" where
  "wrap s = lf (upd_con (\<lambda>c. c\<lparr>con_x := con_x c - video_num_columns c, con_pos := con_pos c - video_size_row c\<rparr>) s)"

definition put_glyph :: "u8 \<Rightarrow> console \<Rightarrow> console" where
  "put_glyph ch c =
     c\<lparr>vram := (vram c)(con_pos c := push_bit 8 (ucast (attr c)) OR ucast ch),
       con_pos := con_pos c + 2, con_x := con_x c + 1\<rparr>"

definition con_tab :: "'z tty_state_scheme \<Rightarrow> 'z tty_state_scheme" where
  "con_tab s =
     (let w = 8 - (con_x (con s) AND 7);
          s = upd_con (\<lambda>c. c\<lparr>con_x := con_x c + w, con_pos := con_pos c + push_bit 1 w\<rparr>) s
      in if con_x (con s) > video_num_columns (con s) then wrap s else s)"

definition con_plain :: "nat \<Rightarrow> u8 \<Rightarrow> 'z tty_state_scheme \<Rightarrow> 'z tty_state_scheme" where
  "con_plain tty ch s =
     (if sint ch > 31 \<and> sint ch < 127
      then upd_con (put_glyph ch) (if con_x (con s) \<ge> video_num_columns (con s) then wrap s else s)
      else if ch = 27 then upd_con (\<lambda>c. c\<lparr>con_state := 1\<rparr>) s
      else if ch = 10 \<or> ch = 11 \<or> ch = 12 then lf s
      else if ch = 13 then upd_con cr s
      else if is_cc ch VERASE (tty_table s tty) then upd_con del s
      else if ch = 8
      then (if con_x (con s) \<noteq> 0 then upd_con (\<lambda>c. c\<lparr>con_x := con_x c - 1, con_pos := con_pos c - 2\<rparr>) s else s)
      else if ch = 9
      then con_tab s
      else if ch = 7 then sysbeep s
      else s)"

text \<open>\<open>if (par[k]) par[k]--\<close> and \<open>if (!par[0]) par[0]++\<close>.\<close>

definition par_dec :: "nat \<Rightarrow> console \<Rightarrow> console" where
  "par_dec k c = (if par c k \<noteq> 0 then c\<lparr>par := (par c)(k := par c k - 1)\<rparr> else c)"

definition par_one :: "console \<Rightarrow> console" where
  "par_one c = (if par c 0 = 0 then c\<lparr>par := (par c)(0 := 1)\<rparr> else c)"

definition csi_r :: "console \<Rightarrow> console" where
  "csi_r c =
     (let c = par_dec 0 c;
          c = (if par c 1 = 0 then c\<lparr>par := (par c)(1 := video_num_lines c)\<rparr> else c)
      in if par c 0 < par c 1 \<and> par c 1 \<le> video_num_lines c
         then c\<lparr>con_top := par c 0, con_bottom := par c 1\<rparr> else c)"

text \<open>The cursor movements among the final characters of a sequence.\<close>

definition csi_move :: "u8 \<Rightarrow> console \<Rightarrow> console option" where
  "csi_move ch c =
     (if ch \<in> {0x47, 0x60} then (let c = par_dec 0 c in Some (gotoxy (par c 0) (con_y c) c))
      else if ch = 0x41 then (let c = par_one c in Some (gotoxy (con_x c) (con_y c - par c 0) c))
      else if ch \<in> {0x42, 0x65} then (let c = par_one c in Some (gotoxy (con_x c) (con_y c + par c 0) c))
      else if ch \<in> {0x43, 0x61} then (let c = par_one c in Some (gotoxy (con_x c + par c 0) (con_y c) c))
      else if ch = 0x44 then (let c = par_one c in Some (gotoxy (con_x c - par c 0) (con_y c) c))
      else if ch = 0x45 then (let c = par_one c in Some (gotoxy 0 (con_y c + par c 0) c))
      else if ch = 0x46 then (let c = par_one c in Some (gotoxy 0 (con_y c - par c 0) c))
      else if ch = 0x64 then (let c = par_dec 0 c in Some (gotoxy (con_x c) (par c 0) c))
      else if ch \<in> {0x48, 0x66}
      then (let c = par_dec 1 (par_dec 0 c) in Some (gotoxy (par c 1) (par c 0) c))
      else None)"

definition con_csi :: "u8 \<Rightarrow> 'z tty_state_scheme \<Rightarrow> 'z tty_state_scheme" where
  "con_csi ch s =
     (let p = par (con s) 0 in
      case csi_move ch (con s) of
        Some c \<Rightarrow> upd_con (\<lambda>_. c) s
      | None \<Rightarrow>
          if ch = 0x4a then upd_con (csi_J p) s
          else if ch = 0x4b then upd_con (csi_K p) s
          else if ch = 0x4c then upd_con (csi_L p) s
          else if ch = 0x4d then csi_M p s
          else if ch = 0x50 then upd_con (csi_P p) s
          else if ch = 0x40 then upd_con (csi_at p) s
          else if ch = 0x6d then upd_con csi_m s
          else if ch = 0x72 then upd_con csi_r s
          else if ch = 0x73 then upd_con save_cur s
          else if ch = 0x75 then upd_con restore_cur s
          else s)"

text \<open>Case 3 of the switch, which falls through to case 4.\<close>

definition con_param :: "u8 \<Rightarrow> 'z tty_state_scheme \<Rightarrow> 'z tty_state_scheme" where
  "con_param ch s =
     (if ch = 0x3b \<and> npar (con s) < 15 then upd_con (\<lambda>c. c\<lparr>npar := npar c + 1\<rparr>) s
      else if sint ch \<ge> 0x30 \<and> sint ch \<le> 0x39
      then upd_con (\<lambda>c. c\<lparr>par := (par c)(npar c := 10 * par c (npar c) + ucast ch - 0x30)\<rparr>) s
      else con_csi ch (upd_con (\<lambda>c. c\<lparr>con_state := 0\<rparr>) s))"

definition RESPONSE :: "u8 list" where
  "RESPONSE = [27, 0x5b, 0x3f, 0x31, 0x3b, 0x32, 0x63]"

definition respond ::
    "(nat \<Rightarrow> 'z tty_state_scheme \<Rightarrow> (unit, 'z tty_state_scheme) kres) \<Rightarrow> nat
     \<Rightarrow> 'z tty_state_scheme \<Rightarrow> (unit, 'z tty_state_scheme) kres" where
  "respond cooked tty s = cooked tty (upd_tty tty (\<lambda>t. t\<lparr>read_q := fold PUTCH RESPONSE (read_q t)\<rparr>) s)"

definition con_char ::
    "(nat \<Rightarrow> 'z tty_state_scheme \<Rightarrow> (unit, 'z tty_state_scheme) kres) \<Rightarrow> nat \<Rightarrow> u8
     \<Rightarrow> 'z tty_state_scheme \<Rightarrow> (unit, 'z tty_state_scheme) kres" where
  "con_char cooked tty ch s =
     (if con_state (con s) = 0 then Ok () (con_plain tty ch s)
      else if con_state (con s) = 1
      then
        let s = upd_con (\<lambda>c. c\<lparr>con_state := 0\<rparr>) s in
        if ch = 0x5b then Ok () (upd_con (\<lambda>c. c\<lparr>con_state := 2\<rparr>) s)
        else if ch = 0x45 then Ok () (upd_con (\<lambda>c. gotoxy 0 (con_y c + 1) c) s)
        else if ch = 0x4d then Ok () (upd_con ri s)
        else if ch = 0x44 then Ok () (lf s)
        else if ch = 0x5a then respond cooked tty s
        else if con_x (con s) = 0x37 then Ok () (upd_con save_cur s)
        else if con_x (con s) = 0x38 then Ok () (upd_con restore_cur s)
        else Ok () s
      else if con_state (con s) = 2
      then
        let s = upd_con (\<lambda>c. c\<lparr>par := (\<lambda>k. if k < 16 then 0 else par c k), npar := 0, con_state := 3, ques := (ch = 0x3f)\<rparr>) s
        in Ok () (if ch = 0x3f then s else con_param ch s)
      else if con_state (con s) = 3 then Ok () (con_param ch s)
      else if con_state (con s) = 4 then Ok () (con_csi ch (upd_con (\<lambda>c. c\<lparr>con_state := 0\<rparr>) s))
      else Ok () s)"

primrec con_loop ::
    "nat \<Rightarrow> (nat \<Rightarrow> 'z tty_state_scheme \<Rightarrow> (unit, 'z tty_state_scheme) kres) \<Rightarrow> nat
     \<Rightarrow> 'z tty_state_scheme \<Rightarrow> (unit, 'z tty_state_scheme) kres" where
  "con_loop 0 cooked tty s = Ok () s"
| "con_loop (Suc nr) cooked tty s =
     (let (ch, q) = GETCH (write_q (tty_table s tty)) in
      bindk (con_char cooked tty ch (upd_tty tty (\<lambda>t. t\<lparr>write_q := q\<rparr>) s)) (\<lambda>_ s.
        con_loop nr cooked tty s))"

definition con_write_with ::
    "(nat \<Rightarrow> 'z tty_state_scheme \<Rightarrow> (unit, 'z tty_state_scheme) kres) \<Rightarrow> nat
     \<Rightarrow> 'z tty_state_scheme \<Rightarrow> (unit, 'z tty_state_scheme) kres" where
  "con_write_with cooked tty s =
     bindk (con_loop (unat (CHARS (write_q (tty_table s tty)))) cooked tty s) (\<lambda>_ s. Ok () (set_cursor s))"

definition rs_write :: "nat \<Rightarrow> 'z tty_state_scheme \<Rightarrow> 'z tty_state_scheme" where
  "rs_write tty s =
     (let q = write_q (tty_table s tty); port = ucast (tq_data q) + 1 in
      if EMPTY q then s else outb (inb port s OR 2) port s)"

primrec tty_write_fn :: "nat \<Rightarrow> nat \<Rightarrow> 'z tty_state_scheme \<Rightarrow> (unit, 'z tty_state_scheme) kres" where
  "tty_write_fn 0 tty s = Blocked s"
| "tty_write_fn (Suc n) tty s =
     (if tty = 0 then con_write_with (\<lambda>t. copy_to_cooked_with n (tty_write_fn n) t) tty s
      else Ok () (rs_write tty s))"

definition copy_to_cooked :: "nat \<Rightarrow> nat \<Rightarrow> 'z tty_state_scheme \<Rightarrow> (unit, 'z tty_state_scheme) kres" where
  "copy_to_cooked n tty s = copy_to_cooked_with n (tty_write_fn n) tty s"

definition con_write :: "nat \<Rightarrow> nat \<Rightarrow> 'z tty_state_scheme \<Rightarrow> (unit, 'z tty_state_scheme) kres" where
  "con_write n tty s = con_write_with (copy_to_cooked n) tty s"

subsection \<open>Initialisation\<close>

text \<open>The parameters the setup code leaves at 0x90000 are read from physical memory.\<close>

definition setup_byte :: "u32 \<Rightarrow> 'z tty_state_scheme \<Rightarrow> u32" where
  "setup_byte a s = drop_bit (8 * unat (a AND 3)) (load s (a AND NOT 3)) AND 0xff"

definition put_desc :: "u32 \<Rightarrow> u8 list \<Rightarrow> (u32 \<Rightarrow> u16) \<Rightarrow> (u32 \<Rightarrow> u16)" where
  "put_desc p bs m = snd (fold (\<lambda>b (p, m). (p + 2, m(p := (m p AND 0xff00) OR ucast b))) bs (p, m))"

definition con_init :: "'z tty_state_scheme \<Rightarrow> 'z tty_state_scheme" where
  "con_init s =
     (let cols = setup_byte 0x90007 s; row = cols * 2;
          mono = (setup_byte 0x90006 s = 7);
          ega = (setup_byte 0x9000a s \<noteq> 0x10);
          (start, reg, val) = (if mono then (0xb0000, 0x3b4, 0x3b5) else (0xb8000, 0x3d4, 0x3d5));
          (ty, mend, desc) =
            (if mono then (if ega then (VIDEO_TYPE_EGAM, 0xb8000, [0x45, 0x47, 0x41, 0x6d])
                           else (VIDEO_TYPE_MDA, 0xb2000, [0x2a, 0x4d, 0x44, 0x41]))
             else (if ega then (VIDEO_TYPE_EGAC, 0xbc000, [0x45, 0x47, 0x41, 0x63])
                   else (VIDEO_TYPE_CGA, 0xba000, [0x2a, 0x43, 0x47, 0x41])));
          s = upd_con (\<lambda>c. c\<lparr>video_num_columns := cols, video_size_row := row, video_num_lines := 25,
                video_page := ucast (setup_byte 0x90004 s), video_erase_char := 0x0720,
                video_mem_start := start, video_port_reg := reg, video_port_val := val, video_type := ty, video_mem_end := mend,
                vram := put_desc (start + row - 8) desc (vram c),
                origin := start, scr_end := start + 25 * row, con_top := 0, con_bottom := 25\<rparr>) s;
          s = upd_con (gotoxy (setup_byte 0x90000 s) (setup_byte 0x90001 s)) s;
          s = outb (inb 0x21 s AND 0xfd) 0x21 s;
          a = inb 0x61 s
      in outb a 0x61 (outb (a OR 0x80) 0x61 s))"

end
