(* ===== verification/Chr_Tty_Io.thy ===== *)
theory Chr_Tty_Io
  imports Chr_Console
begin

text \<open>
  The terminal calls: the rest of kernel/chr_drv/tty_io.c, kernel/chr_drv/tty_ioctl.c and the
  initialisation of kernel/chr_drv/serial.c. The bytes 17 and 18 of \<open>c_cc\<close> are the padding of \<open>struct termios\<close>;
  the padding byte of the uninitialised \<open>struct termio\<close> that \<open>get_termio\<close> copies to user space is an argument. A
  minor number above 2 makes \<open>tty_ioctl\<close> work on memory behind \<open>tty_table\<close>, a \<open>Fault\<close> here.
\<close>

abbreviation (input) ALRMMASK :: u32 where "ALRMMASK \<equiv> S_bit SIGALRM"

definition queue_of :: "nat \<Rightarrow> nat \<Rightarrow> 'z tty_state_scheme \<Rightarrow> tty_queue" where
  "queue_of tty k s =
     (let t = tty_table s tty in if k = 0 then read_q t else if k = 1 then write_q t else secondary t)"

text \<open>\<open>while (c) interruptible_sleep_on(&q)\<close>.\<close>

primrec isleep_loop :: "nat \<Rightarrow> ('z sched_state_scheme \<Rightarrow> bool) \<Rightarrow> wait_queue \<Rightarrow> (unit, 'z sched_state_scheme) proc" where
  "isleep_loop 0 c q = stuckp"
| "isleep_loop (Suc n) c q = ifp c (seqp (isleepp q) (isleep_loop n c q)) (retp ())"

definition isleep_while :: "('z sched_state_scheme \<Rightarrow> bool) \<Rightarrow> wait_queue \<Rightarrow> (unit, 'z sched_state_scheme) proc" where
  "isleep_while c q = fuelp (\<lambda>n. isleep_loop n c q)"

definition sleep_if_empty :: "nat \<Rightarrow> nat \<Rightarrow> (unit, 'z tty_state_scheme) proc" where
  "sleep_if_empty tty k =
     isleep_while (\<lambda>s. signal (cur s) = 0 \<and> EMPTY (queue_of tty k s)) (WTty tty k)"

definition sleep_if_full :: "nat \<Rightarrow> nat \<Rightarrow> (unit, 'z tty_state_scheme) proc" where
  "sleep_if_full tty k =
     ifp (\<lambda>s. \<not> FULL (queue_of tty k s)) (retp ())
       (isleep_while (\<lambda>s. signal (cur s) = 0 \<and> LEFT (queue_of tty k s) < 128) (WTty tty k))"

definition wait_for_keypress :: "(unit, 'z tty_state_scheme) proc" where
  "wait_for_keypress = sleep_if_empty 0 2"

definition do_tty_interrupt :: "nat \<Rightarrow> nat \<Rightarrow> 'z tty_state_scheme \<Rightarrow> (unit, 'z tty_state_scheme) kres" where
  "do_tty_interrupt n tty s = copy_to_cooked n tty s"

definition schedulep :: "(unit, 'z sched_state_scheme) proc" where
  "schedulep = (\<lambda>w s. bindk (reschedule (events w) s) (\<lambda>ev s. Ok ((), w\<lparr>events := ev\<rparr>) s))"

subsection \<open>Reading\<close>

text \<open>The \<open>do ... while\<close> of \<open>tty_read\<close> with \<open>nr\<close> bytes wanted: whether it met an end of file, the bytes still wanted
  and the next address.\<close>

primrec read_chars :: "nat \<Rightarrow> u32 \<Rightarrow> nat \<Rightarrow> 'z tty_state_scheme \<Rightarrow> (bool \<times> nat \<times> u32) \<times> 'z tty_state_scheme" where
  "read_chars 0 b tty s = ((False, 0, b), s)"
| "read_chars (Suc nr) b tty s =
     (let (c, q) = GETCH (secondary (tty_table s tty));
          t = tty_table s tty;
          q = (if is_cc c VEOF t \<or> c = 10 then q\<lparr>tq_data := tq_data q - 1\<rparr> else q);
          s = upd_tty tty (\<lambda>t. t\<lparr>secondary := q\<rparr>) s in
      if is_cc c VEOF t \<and> L_CANON t then ((True, Suc nr, b), s)
      else
        let s = put_fs_byte c b s in
        if nr = 0 \<or> EMPTY q then ((False, nr, b + 1), s) else read_chars nr (b + 1) tty s)"

definition set_alarm :: "int \<Rightarrow> 'z sched_state_scheme \<Rightarrow> 'z sched_state_scheme" where
  "set_alarm a s = upd_cur (\<lambda>t. t\<lparr>alarm := a\<rparr>) s"

definition earlier :: "int \<Rightarrow> int \<Rightarrow> 'z sched_state_scheme \<Rightarrow> bool" where
  "earlier time oldalarm s \<longleftrightarrow> oldalarm = 0 \<or> s32 (time + jiffies s) < oldalarm"

text \<open>The outer loop; \<open>got\<close> is \<open>b-buf\<close>. The value is whether \<open>tty_read\<close> returns at once, and the count.\<close>

primrec read_loop ::
    "nat \<Rightarrow> nat \<Rightarrow> nat \<Rightarrow> u32 \<Rightarrow> bool \<Rightarrow> nat \<Rightarrow> int \<Rightarrow> int \<Rightarrow> nat \<Rightarrow> (bool \<times> nat, 'z tty_state_scheme) proc" where
  "read_loop 0 tty nr b flag got time oldalarm minimum = stuckp"
| "read_loop (Suc n) tty nr b flag got time oldalarm minimum =
     (if nr = 0 then retp (False, got)
      else
        ifp (\<lambda>s. flag \<and> signal (cur s) AND ALRMMASK \<noteq> 0)
          (seqp (modp (upd_cur (\<lambda>t. t\<lparr>signal := signal t AND NOT ALRMMASK\<rparr>))) (retp (False, got)))
        (ifp (\<lambda>s. signal (cur s) \<noteq> 0) (retp (False, got))
        (ifp (\<lambda>s. let t = tty_table s tty in
                  EMPTY (secondary t) \<or> L_CANON t \<and> tq_data (secondary t) = 0 \<and> LEFT (secondary t) > 20)
          (seqp (sleep_if_empty tty 2) (read_loop n tty nr b flag got time oldalarm minimum))
        (bindp (callp (read_chars nr b tty)) (\<lambda>(eof, left, b').
           let got = got + (nr - left) in
           if eof then retp (True, got)
           else
             bindp (getp (\<lambda>s. L_CANON (tty_table s tty))) (\<lambda>canon.
             bindp (getp (earlier time oldalarm)) (\<lambda>e.
             let flag = (if time \<noteq> 0 \<and> \<not> canon then e else flag) in
             seqp (if time \<noteq> 0 \<and> \<not> canon
                   then modp (\<lambda>s. set_alarm (if e then s32 (time + jiffies s) else oldalarm) s) else retp ())
               (if (if canon then got \<noteq> 0 else got \<ge> minimum) then retp (False, got)
                else read_loop n tty left b' flag got time oldalarm minimum))))))))"

definition tty_read :: "nat \<Rightarrow> u32 \<Rightarrow> int \<Rightarrow> (int, 'z tty_state_scheme) proc" where
  "tty_read channel buf nr =
     (if channel > 2 \<or> nr < 0 then retp (- 1)
      else
        bindp (getp (\<lambda>s. (alarm (cur s), 10 * uint (c_cc (tty_termios (tty_table s channel)) VTIME),
                          unat (c_cc (tty_termios (tty_table s channel)) VMIN)))) (\<lambda>(oldalarm, time, minimum).
        bindp (getp (earlier time oldalarm)) (\<lambda>e.
        let timed = (time \<noteq> 0 \<and> minimum = 0);
            flag = (timed \<and> e);
            minimum = min (if timed then 1 else minimum) (nat nr) in
        seqp (if flag then modp (\<lambda>s. set_alarm (s32 (time + jiffies s)) s) else retp ())
        (bindp (fuelp (\<lambda>n. read_loop n channel (nat nr) buf flag 0 time oldalarm minimum)) (\<lambda>(eof, got).
           if eof then retp (int got)
           else
             seqp (modp (set_alarm oldalarm))
               (ifp (\<lambda>s. signal (cur s) \<noteq> 0 \<and> got = 0) (retp (- EINTR)) (retp (int got))))))))"

subsection \<open>Writing\<close>

text \<open>The inner loop of \<open>tty_write\<close>: every round puts one byte, so the room in the queue bounds it.\<close>

primrec write_chars :: "nat \<Rightarrow> nat \<Rightarrow> u32 \<Rightarrow> nat \<Rightarrow> 'z tty_state_scheme \<Rightarrow> (nat \<times> u32) \<times> 'z tty_state_scheme" where
  "write_chars 0 nr b tty s = ((nr, b), s)"
| "write_chars (Suc n) nr b tty s =
     (let t = tty_table s tty; c = get_fs_byte b s in
      if nr = 0 \<or> FULL (write_q t) then ((nr, b), s)
      else
        let c = (if O_POST t then (if c = 13 \<and> O_CRNL t then 10 else if c = 10 \<and> O_NLRET t then 13 else c) else c) in
        if O_POST t \<and> c = 10 \<and> \<not> cr_flag s \<and> O_NLCR t
        then write_chars n nr b tty (put_write tty 13 (s\<lparr>cr_flag := True\<rparr>))
        else
          let c = (if O_POST t \<and> O_LCUC t then toupper c s else c)
          in write_chars n (nr - 1) (b + 1) tty (put_write tty c (s\<lparr>cr_flag := False\<rparr>)))"

primrec write_loop :: "nat \<Rightarrow> nat \<Rightarrow> nat \<Rightarrow> u32 \<Rightarrow> (nat, 'z tty_state_scheme) proc" where
  "write_loop 0 tty nr b = stuckp"
| "write_loop (Suc n) tty nr b =
     (if nr = 0 then retp nr
      else
        seqp (sleep_if_full tty 1)
        (ifp (\<lambda>s. signal (cur s) \<noteq> 0) (retp nr)
        (bindp (callp (\<lambda>s. write_chars (unat (LEFT (write_q (tty_table s tty)))) nr b tty s)) (\<lambda>(nr, b).
           seqp (fuelp (\<lambda>m. liftp (tty_write_fn m tty)))
             (if nr > 0 then seqp schedulep (write_loop n tty nr b) else retp nr)))))"

definition tty_write :: "nat \<Rightarrow> u32 \<Rightarrow> int \<Rightarrow> (int, 'z tty_state_scheme) proc" where
  "tty_write channel buf nr =
     (if channel > 2 \<or> nr < 0 then retp (- 1)
      else bindp (fuelp (\<lambda>n. write_loop n channel (nat nr) buf)) (\<lambda>left. retp (nr - int left)))"

subsection \<open>Control\<close>

definition quotient :: "u16 list" where
  "quotient = [0, 2304, 1536, 1047, 857, 768, 576, 384, 192, 96, 64, 48, 24, 12, 6, 3]"

definition change_speed :: "nat \<Rightarrow> 'z tty_state_scheme \<Rightarrow> 'z tty_state_scheme" where
  "change_speed tty s =
     (let port = ucast (tq_data (read_q (tty_table s tty))) :: u16;
          quot = quotient ! unat (c_cflag (tty_termios (tty_table s tty)) AND 0xf) in
      if port = 0 then s
      else outb 0x03 (port + 3) (outb (ucast (drop_bit 8 quot)) (port + 1) (outb (ucast quot) port (outb 0x80 (port + 3) s))))"

definition flush :: "tty_queue \<Rightarrow> tty_queue" where
  "flush q = q\<lparr>tq_head := tq_tail q\<rparr>"

definition u32_bytes :: "u32 \<Rightarrow> u8 list" where
  "u32_bytes v = [ucast v, ucast (drop_bit 8 v), ucast (drop_bit 16 v), ucast (drop_bit 24 v)]"

definition termios_bytes :: "termios \<Rightarrow> u8 list" where
  "termios_bytes t = u32_bytes (c_iflag t) @ u32_bytes (c_oflag t) @ u32_bytes (c_cflag t) @ u32_bytes (c_lflag t)
     @ [c_line t] @ map (c_cc t) [0..<19]"

primrec put_user :: "u8 list \<Rightarrow> u32 \<Rightarrow> 'z sched_state_scheme \<Rightarrow> 'z sched_state_scheme" where
  "put_user [] a s = s"
| "put_user (b # bs) a s = put_user bs (a + 1) (put_fs_byte b a s)"

definition get_termios :: "nat \<Rightarrow> u32 \<Rightarrow> 'z tty_state_scheme \<Rightarrow> (int, 'z tty_state_scheme) kres" where
  "get_termios tty a s =
     bindk (verify_area a 36 s) (\<lambda>_ s. Ok 0 (put_user (termios_bytes (tty_termios (tty_table s tty))) a s))"

definition set_termios :: "nat \<Rightarrow> u32 \<Rightarrow> 'z tty_state_scheme \<Rightarrow> (int, 'z tty_state_scheme) kres" where
  "set_termios tty a s =
     Ok 0 (change_speed tty (upd_tty tty (\<lambda>t. t\<lparr>tty_termios := (tty_termios t)\<lparr>c_iflag := get_fs_long a s,
       c_oflag := get_fs_long (a + 4) s, c_cflag := get_fs_long (a + 8) s, c_lflag := get_fs_long (a + 12) s,
       c_line := get_fs_byte (a + 16) s,
       c_cc := (\<lambda>k. if k < 19 then get_fs_byte (a + 17 + of_nat k) s else c_cc (tty_termios t) k)\<rparr>\<rparr>) s))"

definition u16_bytes :: "u32 \<Rightarrow> u8 list" where
  "u16_bytes v = [ucast v, ucast (drop_bit 8 v)]"

definition get_termio :: "u8 \<Rightarrow> nat \<Rightarrow> u32 \<Rightarrow> 'z tty_state_scheme \<Rightarrow> (int, 'z tty_state_scheme) kres" where
  "get_termio junk tty a s =
     bindk (verify_area a 18 s) (\<lambda>_ s.
       let t = tty_termios (tty_table s tty) in
       Ok 0 (put_user (u16_bytes (c_iflag t) @ u16_bytes (c_oflag t) @ u16_bytes (c_cflag t) @ u16_bytes (c_lflag t)
         @ [c_line t] @ map (c_cc t) [0..<8] @ [junk]) a s))"

text \<open>The stores through \<open>unsigned short *\<close> replace the low halves of the flags.\<close>

definition low_half :: "u32 \<Rightarrow> u16 \<Rightarrow> u32" where
  "low_half old v = (old AND 0xffff0000) OR ucast v"

definition set_termio :: "nat \<Rightarrow> u32 \<Rightarrow> 'z tty_state_scheme \<Rightarrow> (int, 'z tty_state_scheme) kres" where
  "set_termio tty a s =
     Ok 0 (change_speed tty (upd_tty tty (\<lambda>t. let old = tty_termios t in
       t\<lparr>tty_termios := old\<lparr>c_iflag := low_half (c_iflag old) (get_fs_word a s),
         c_oflag := low_half (c_oflag old) (get_fs_word (a + 2) s), c_cflag := low_half (c_cflag old) (get_fs_word (a + 4) s),
         c_lflag := low_half (c_lflag old) (get_fs_word (a + 6) s), c_line := get_fs_byte (a + 8) s,
         c_cc := (\<lambda>k. if k < 8 then get_fs_byte (a + 9 + of_nat k) s else c_cc old k)\<rparr>\<rparr>) s))"

definition put_user_long :: "u32 \<Rightarrow> u32 \<Rightarrow> 'z tty_state_scheme \<Rightarrow> (int, 'z tty_state_scheme) kres" where
  "put_user_long v a s = bindk (verify_area a 4 s) (\<lambda>_ s. Ok 0 (put_fs_long v a s))"

definition flush_read :: "nat \<Rightarrow> 'z tty_state_scheme \<Rightarrow> 'z tty_state_scheme" where
  "flush_read tty s = upd_tty tty (\<lambda>t. t\<lparr>read_q := flush (read_q t)\<rparr>) s"

definition flush_write :: "nat \<Rightarrow> 'z tty_state_scheme \<Rightarrow> 'z tty_state_scheme" where
  "flush_write tty s = upd_tty tty (\<lambda>t. t\<lparr>write_q := flush (write_q t)\<rparr>) s"

definition tty_ioctl :: "u8 \<Rightarrow> u32 \<Rightarrow> u32 \<Rightarrow> u32 \<Rightarrow> 'z tty_state_scheme \<Rightarrow> (int, 'z tty_state_scheme) kres" where
  "tty_ioctl junk dev cmd arg s =
     (if MAJOR dev = 5 \<and> t_tty (cur s) < 0 then Panic ''tty_ioctl: dev<0'' s
      else
        let tty = (if MAJOR dev = 5 then nat (t_tty (cur s)) else MINOR dev) in
        if tty > 2 then Fault s
        else if cmd = 0x5401 then get_termios tty arg s
        else if cmd = 0x5404 then set_termios tty arg (flush_read tty s)
        else if cmd = 0x5403 \<or> cmd = 0x5402 then set_termios tty arg s
        else if cmd = 0x5405 then get_termio junk tty arg s
        else if cmd = 0x5408 then set_termio tty arg (flush_read tty s)
        else if cmd = 0x5407 \<or> cmd = 0x5406 then set_termio tty arg s
        else if cmd = 0x5409 then Ok 0 s
        else if cmd = 0x540B
        then (if arg = 0 then Ok 0 (flush_read tty s)
              else if arg = 1 then Ok 0 (flush_write tty s)
              else if arg = 2 then Ok 0 (flush_write tty (flush_read tty s))
              else Ok (- EINVAL) s)
        else if cmd = 0x540F then put_user_long (word_of_int (tty_pgrp (tty_table s tty))) arg s
        else if cmd = 0x5410 then Ok 0 (upd_tty tty (\<lambda>t. t\<lparr>tty_pgrp := sint (get_fs_long arg s)\<rparr>) s)
        else if cmd = 0x5411 then put_user_long (CHARS (write_q (tty_table s tty))) arg s
        else if cmd = 0x541B then put_user_long (CHARS (secondary (tty_table s tty))) arg s
        else Ok (- EINVAL) s)"

subsection \<open>Initialisation\<close>

definition serial_init :: "u16 \<Rightarrow> 'z tty_state_scheme \<Rightarrow> 'z tty_state_scheme" where
  "serial_init port s =
     outb 0x0d (port + 1) (outb 0x0b (port + 4) (outb 0x03 (port + 3) (outb 0x00 (port + 1)
       (outb 0x30 port (outb 0x80 (port + 3) s)))))"

definition rs_init :: "'z tty_state_scheme \<Rightarrow> 'z tty_state_scheme" where
  "rs_init s =
     (let s = serial_init (ucast (tq_data (read_q (tty_table s 1)))) s;
          s = serial_init (ucast (tq_data (read_q (tty_table s 2)))) s
      in outb (inb 0x21 s AND 0xE7) 0x21 s)"

definition tty_init :: "'z tty_state_scheme \<Rightarrow> 'z tty_state_scheme" where
  "tty_init s = con_init (rs_init s)"

end
