(* ===== verification/Chr_Tty_Laws.thy ===== *)
theory Chr_Tty_Laws
  imports Chr_Tty Blk_Request
begin

text \<open>
  The terminal queues as lists of bytes. The locale \<open>byte_queue\<close> is the interface the line
  discipline and the drivers use: what \<open>PUTCH\<close>, \<open>GETCH\<close>, \<open>LAST\<close>, \<open>DEC\<close> and the counting macros do to the list of the
  bytes in the queue. It is interpreted on the ring buffers of \<open>tty_queue\<close>, whose content is \<open>q_list\<close>.
\<close>

locale byte_queue =
  fixes ok :: "'q \<Rightarrow> bool" and items :: "'q \<Rightarrow> 'b list" and put :: "'b \<Rightarrow> 'q \<Rightarrow> 'q" and get :: "'q \<Rightarrow> 'b \<times> 'q"
    and unput :: "'q \<Rightarrow> 'q" and lst :: "'q \<Rightarrow> 'b" and cap :: nat
  assumes room: "ok q \<Longrightarrow> length (items q) \<le> cap"
    and put_items: "ok q \<Longrightarrow> length (items q) < cap \<Longrightarrow> ok (put b q) \<and> items (put b q) = items q @ [b]"
    and get_items: "ok q \<Longrightarrow> items q \<noteq> [] \<Longrightarrow> ok (snd (get q)) \<and> fst (get q) = hd (items q) \<and> items (snd (get q)) = List.tl (items q)"
    and unput_items: "ok q \<Longrightarrow> items q \<noteq> [] \<Longrightarrow> ok (unput q) \<and> items (unput q) = butlast (items q) \<and> lst q = List.last (items q)"
begin

fun get_all :: "nat \<Rightarrow> 'q \<Rightarrow> 'b list \<times> 'q" where
  "get_all 0 q = ([], q)"
| "get_all (Suc n) q = (let (b, q) = get q; (bs, q) = get_all n q in (b # bs, q))"

lemma put_all_items:
  "ok q \<Longrightarrow> length (items q) + length bs \<le> cap \<Longrightarrow> ok (fold put bs q) \<and> items (fold put bs q) = items q @ bs"
proof (induction bs arbitrary: q)
  case (Cons b bs)
  have "ok (put b q) \<and> items (put b q) = items q @ [b]" using Cons.prems by (intro put_items) auto
  then show ?case using Cons.IH[of "put b q"] Cons.prems by simp
qed simp

lemma get_all_items:
  "ok q \<Longrightarrow> n \<le> length (items q) \<Longrightarrow> fst (get_all n q) = take n (items q) \<and> ok (snd (get_all n q)) \<and> items (snd (get_all n q)) = drop n (items q)"
proof (induction n arbitrary: q)
  case (Suc n)
  then have ne: "items q \<noteq> []" by auto
  note g = get_items[OF Suc.prems(1) ne]
  obtain b q' where bq: "get q = (b, q')" by fastforce
  obtain x xs where xs: "items q = x # xs" using ne by (cases "items q") auto
  have "n \<le> length (items q')" using g bq Suc.prems(2) by simp
  then have "fst (get_all n q') = take n (items q') \<and> ok (snd (get_all n q')) \<and> items (snd (get_all n q')) = drop n (items q')"
    using Suc.IH g bq by simp
  then show ?case using g bq xs by (auto split: prod.splits)
qed simp

text \<open>First in, first out: what is put into an empty queue comes out in order.\<close>

lemma fifo: "ok q \<Longrightarrow> items q = [] \<Longrightarrow> length bs \<le> cap \<Longrightarrow> fst (get_all (length bs) (fold put bs q)) = bs"
  using put_all_items[of q bs] get_all_items[of "fold put bs q" "length bs"] by simp

end

subsection \<open>The ring buffer\<close>

definition q_ok :: "tty_queue \<Rightarrow> bool" where
  "q_ok q \<longleftrightarrow> unat (tq_head q) < 1024 \<and> unat (tq_tail q) < 1024"

definition q_len :: "tty_queue \<Rightarrow> nat" where
  "q_len q = (unat (tq_head q) + 1024 - unat (tq_tail q)) mod 1024"

definition q_list :: "tty_queue \<Rightarrow> u8 list" where
  "q_list q = map (\<lambda>i. tq_buf q ((unat (tq_tail q) + i) mod 1024)) [0..<q_len q]"

lemma unat_and_1023: "unat (x AND 0x3ff :: u32) = unat x mod 1024"
proof -
  have "(0x3ff :: u32) = mask 10" by (simp add: mask_eq_exp_minus_1)
  then have "x AND 0x3ff = take_bit 10 x" by (simp add: take_bit_eq_mask)
  then show ?thesis by (simp add: take_bit_eq_mod unat_mod_distrib)
qed

lemma unat_INC: "unat a < 1024 \<Longrightarrow> unat (INC a) = (unat a + 1) mod 1024"
  unfolding INC_def unat_and_1023 by (simp add: unat_word_ariths)

lemma unat_diff_mod:
  assumes "unat (b :: u32) < 1024" "unat a < 1024"
  shows "unat (a - b) mod 1024 = (unat a + 1024 - unat b) mod 1024"
proof (cases "unat b \<le> unat a")
  case True
  then have "unat (a - b) = unat a - unat b" by (simp add: unat_sub word_le_nat_alt)
  then show ?thesis using True by (simp add: mod_if)
next
  case False
  then have "unat (a - b) = unat a + 2 ^ 32 - unat b" using assms by (simp add: unat_sub_if_size word_size word_le_nat_alt)
  moreover have "(unat a + 2 ^ 32 - unat b) mod 1024 = (unat a + 1024 - unat b) mod 1024"
  proof -
    have "unat a + 2 ^ 32 - unat b = (unat a + 1024 - unat b) + 1024 * 4194303" using assms by simp
    then show ?thesis by (simp only: mod_mult_self2)
  qed
  ultimately show ?thesis by simp
qed

lemma unat_CHARS: "q_ok q \<Longrightarrow> unat (CHARS q) = q_len q"
  unfolding CHARS_def unat_and_1023 q_len_def q_ok_def by (intro unat_diff_mod) auto

lemma q_len_less: "q_len q < 1024" "q_len q \<le> 1023"
proof -
  show "q_len q < 1024" by (simp add: q_len_def)
  then show "q_len q \<le> 1023" by simp
qed

lemma length_q_list [simp]: "length (q_list q) = q_len q"
  by (simp add: q_list_def)

lemma q_len_cases:
  assumes "q_ok q"
  shows "q_len q = (if unat (tq_tail q) \<le> unat (tq_head q) then unat (tq_head q) - unat (tq_tail q)
     else unat (tq_head q) + 1024 - unat (tq_tail q))"
  using assms by (auto simp: q_len_def q_ok_def mod_if)

lemma EMPTY_iff: "q_ok q \<Longrightarrow> EMPTY q \<longleftrightarrow> q_list q = []"
proof -
  assume "q_ok q"
  then have "q_len q = 0 \<longleftrightarrow> unat (tq_head q) = unat (tq_tail q)" by (auto simp: q_len_def q_ok_def mod_if split: if_splits)
  also have "\<dots> \<longleftrightarrow> EMPTY q" by (simp add: EMPTY_def word_unat_eq_iff)
  finally show ?thesis by (metis length_0_conv length_q_list)
qed

lemma unat_LEFT:
  assumes "q_ok q" shows "unat (LEFT q) = 1023 - q_len q"
proof -
  have t: "unat (tq_tail q) < 1024" "unat (tq_head q) < 1024" using assms by (auto simp: q_ok_def)
  have "unat (tq_tail q - tq_head q - 1) mod 1024 = unat (tq_tail q - (tq_head q + 1)) mod 1024" by (simp add: algebra_simps)
  also have "\<dots> = (unat (tq_tail q) + 1023 - unat (tq_head q)) mod 1024"
  proof (cases "unat (tq_head q) = 1023")
    case True
    then have "tq_head q = 1023" by (simp add: word_unat_eq_iff)
    then have e: "tq_tail q - (tq_head q + 1) = tq_tail q - 1024" by simp
    have "unat (tq_tail q - 1024) = unat (tq_tail q) + 4194303 * 1024" using t(1) by (simp add: unat_sub_if_size word_size word_le_nat_alt)
    then have "unat (tq_tail q - 1024) mod 1024 = unat (tq_tail q) mod 1024" by (simp only: mod_mult_self1)
    then show ?thesis using True e by simp
  next
    case False
    then have "unat (tq_head q + 1) = unat (tq_head q) + 1" using t by (simp add: unat_word_ariths)
    then show ?thesis using unat_diff_mod[of "tq_head q + 1" "tq_tail q"] t False by (simp add: add.commute)
  qed
  also have "\<dots> = 1023 - q_len q" unfolding q_len_def using t by (auto simp: mod_if)
  finally show ?thesis by (simp add: LEFT_def unat_and_1023)
qed

lemma FULL_iff: "q_ok q \<Longrightarrow> FULL q \<longleftrightarrow> q_len q = 1023"
  using unat_LEFT[of q] q_len_less[of q] by (auto simp: FULL_def simp flip: unat_eq_0)

lemma PUTCH_list:
  assumes "q_ok q" "q_len q < 1023"
  shows "q_ok (PUTCH c q) \<and> q_list (PUTCH c q) = q_list q @ [c]"
proof -
  have t: "unat (tq_tail q) < 1024" "unat (tq_head q) < 1024" using assms(1) by (auto simp: q_ok_def)
  define n where "n = q_len q"
  have h: "(unat (tq_tail q) + n) mod 1024 = unat (tq_head q)" unfolding n_def q_len_def using t by (auto simp: mod_if)
  have h': "unat (tq_head (PUTCH c q)) = (unat (tq_head q) + 1) mod 1024" using unat_INC[OF t(2)] by (simp add: PUTCH_def)
  have ok: "q_ok (PUTCH c q)" using t h' by (simp add: q_ok_def PUTCH_def)
  have l: "q_len (PUTCH c q) = Suc n"
    unfolding q_len_def h' n_def using t assms(2) by (auto simp: PUTCH_def q_len_def mod_if split: if_splits)
  have o: "(unat (tq_tail q) + i) mod 1024 \<noteq> unat (tq_head q)" if "i < n" for i
  proof -
    have "n < 1024" using assms(2) by (simp add: n_def)
    then show ?thesis using h that t by (auto simp: mod_if split: if_splits)
  qed
  have "q_list (PUTCH c q) = map (\<lambda>i. tq_buf (PUTCH c q) ((unat (tq_tail q) + i) mod 1024)) [0..<Suc n]"
    by (simp add: q_list_def l) (simp add: PUTCH_def)
  also have "\<dots> = q_list q @ [c]" using o h by (simp add: q_list_def n_def[symmetric]) (simp add: PUTCH_def)
  finally show ?thesis using ok by simp
qed

lemma GETCH_list:
  assumes "q_ok q" "q_list q \<noteq> []"
  shows "q_ok (snd (GETCH q)) \<and> fst (GETCH q) = hd (q_list q) \<and> q_list (snd (GETCH q)) = tl (q_list q)"
proof -
  have t: "unat (tq_tail q) < 1024" "unat (tq_head q) < 1024" using assms(1) by (auto simp: q_ok_def)
  have "q_len q \<noteq> 0" using assms(2) by (metis length_0_conv length_q_list)
  then obtain n where n: "q_len q = Suc n" by (cases "q_len q") auto
  have t': "unat (tq_tail (snd (GETCH q))) = (unat (tq_tail q) + 1) mod 1024" using unat_INC[OF t(1)] by (simp add: GETCH_def)
  have ok: "q_ok (snd (GETCH q))" using t t' by (simp add: q_ok_def) (simp add: GETCH_def)
  have l: "q_len (snd (GETCH q)) = n"
    using n t unfolding q_len_def t' by (auto simp: GETCH_def mod_if split: if_splits)
  have e: "q_list q = tq_buf q (unat (tq_tail q)) # map (\<lambda>i. tq_buf q ((unat (tq_tail q) + Suc i) mod 1024)) [0..<n]"
    unfolding q_list_def n using t by (simp add: upt_conv_Cons map_Suc_upt[symmetric] comp_def del: upt_Suc)
  have "q_list (snd (GETCH q)) = map (\<lambda>i. tq_buf q (((unat (tq_tail q) + 1) mod 1024 + i) mod 1024)) [0..<n]"
    by (simp add: q_list_def l t') (simp add: GETCH_def)
  also have "\<dots> = tl (q_list q)" unfolding e by (simp add: mod_add_left_eq)
  finally show ?thesis using ok e by (simp add: GETCH_def)
qed

definition unput :: "tty_queue \<Rightarrow> tty_queue" where
  "unput q = q\<lparr>tq_head := DEC (tq_head q)\<rparr>"

lemma unput_list:
  assumes "q_ok q" "q_list q \<noteq> []"
  shows "q_ok (unput q) \<and> q_list (unput q) = butlast (q_list q) \<and> LAST q = last (q_list q)"
proof -
  have t: "unat (tq_tail q) < 1024" "unat (tq_head q) < 1024" using assms(1) by (auto simp: q_ok_def)
  have "q_len q \<noteq> 0" using assms(2) by (metis length_0_conv length_q_list)
  then obtain n where n: "q_len q = Suc n" by (cases "q_len q") auto
  have d: "unat ((tq_head q - 1) AND 0x3ff) = (unat (tq_head q) + 1023) mod 1024"
    unfolding unat_and_1023 using unat_diff_mod[of 1 "tq_head q"] t by (simp add: add.commute)
  have ok: "q_ok (unput q)" using t d by (simp add: q_ok_def unput_def DEC_def)
  have l: "q_len (unput q) = n"
    using q_len_cases[OF ok] q_len_cases[OF assms(1)] n t
    by (auto simp: unput_def DEC_def d mod_if split: if_splits)
  have h: "(unat (tq_tail q) + n) mod 1024 = (unat (tq_head q) + 1023) mod 1024"
  proof (cases "unat (tq_tail q) \<le> unat (tq_head q)")
    case True
    then have "unat (tq_tail q) + n + 1 = unat (tq_head q)" using n q_len_cases[OF assms(1)] by simp
    then have "unat (tq_head q) + 1023 = unat (tq_tail q) + n + 1 * 1024" by simp
    then show ?thesis by (metis mod_mult_self1)
  next
    case False
    then have "unat (tq_tail q) + n = unat (tq_head q) + 1023" using n t q_len_cases[OF assms(1)] by simp
    then show ?thesis by simp
  qed
  have e: "q_list q = map (\<lambda>i. tq_buf q ((unat (tq_tail q) + i) mod 1024)) [0..<n] @ [LAST q]"
    unfolding q_list_def n using h by (simp add: LAST_def d)
  have "q_list (unput q) = map (\<lambda>i. tq_buf q ((unat (tq_tail q) + i) mod 1024)) [0..<n]"
    by (simp add: q_list_def l) (simp add: unput_def)
  then show ?thesis using ok e by simp
qed

interpretation tq: byte_queue q_ok q_list PUTCH GETCH unput LAST 1023
  using PUTCH_list GETCH_list unput_list q_len_less by unfold_locales simp_all


subsection \<open>Line editing\<close>

text \<open>The specification of the line discipline without echo: what an input byte does to the list of the bytes that are ready
  to be read. \<open>None\<close> of \<open>map_input\<close> is a dropped byte, \<open>VKILL\<close> removes the unfinished line, \<open>VERASE\<close> its last
  byte.\<close>

definition ends_line :: "tty_struct \<Rightarrow> u8 \<Rightarrow> bool" where
  "ends_line t x \<longleftrightarrow> x = 10 \<or> is_cc x VEOF t"

definition finished_lines :: "tty_struct \<Rightarrow> u8 list \<Rightarrow> u8 list" where
  "finished_lines t xs = rev (dropWhile (\<lambda>x. \<not> ends_line t x) (rev xs))"

definition edit :: "tty_struct \<Rightarrow> u8 list \<Rightarrow> u8 \<Rightarrow> u8 list" where
  "edit t xs c =
     (if L_CANON t \<and> is_cc c VKILL t then finished_lines t xs
      else if L_CANON t \<and> is_cc c VERASE t then (if xs = [] \<or> ends_line t (last xs) then xs else butlast xs)
      else if L_CANON t \<and> (is_cc c VSTOP t \<or> is_cc c VSTART t) \<or> L_ISIG t \<and> (is_cc c VINTR t \<or> is_cc c VQUIT t) then xs
      else xs @ [c])"

definition edit_input :: "nat \<Rightarrow> 'z tty_state_scheme \<Rightarrow> u8 list \<Rightarrow> u8 \<Rightarrow> u8 list" where
  "edit_input tty s xs c = (case map_input tty c s of None \<Rightarrow> xs | Some c \<Rightarrow> edit (tty_table s tty) xs c)"

abbreviation "sec_q tty s \<equiv> secondary (tty_table s tty)"
abbreviation "in_q tty s \<equiv> read_q (tty_table s tty)"

text \<open>What the line discipline depends on and does not change.\<close>

definition same_line :: "nat \<Rightarrow> 'z tty_state_scheme \<Rightarrow> 'z tty_state_scheme \<Rightarrow> bool" where
  "same_line tty s s' \<longleftrightarrow> tty_termios (tty_table s' tty) = tty_termios (tty_table s tty) \<and> below_ctype s' = below_ctype s"

lemma tty_table_upd [simp]: "tty_table (upd_tty tty f s) tty = f (tty_table s tty)" "below_ctype (upd_tty tty f s) = below_ctype s"
  by (simp_all add: upd_tty_def)

lemma flags_cong: "tty_termios t' = tty_termios t \<Longrightarrow> L_FLAG f t' = L_FLAG f t \<and> I_FLAG f t' = I_FLAG f t \<and> is_cc c k t' = is_cc c k t"
  by (simp add: L_FLAG_def I_FLAG_def is_cc_def)

lemma edit_cong:
  assumes "same_line tty s s'" shows "edit_input tty s' xs c = edit_input tty s xs c"
proof -
  have t: "tty_termios (tty_table s' tty) = tty_termios (tty_table s tty)" using assms by (simp add: same_line_def)
  note f = flags_cong[OF t, THEN conjunct1] flags_cong[OF t, THEN conjunct2, THEN conjunct1] flags_cong[OF t, THEN conjunct2, THEN conjunct2]
  have "tolower x s' = tolower x s" for x using assms by (simp add: tolower_def ctype_def same_line_def)
  then have "map_input tty c s' = map_input tty c s" by (simp add: map_input_def Let_def f)
  moreover have "edit (tty_table s' tty) = edit (tty_table s tty)"
    by (simp add: edit_def finished_lines_def ends_line_def f fun_eq_iff)
  ultimately show ?thesis by (simp add: edit_input_def split: option.split)
qed

lemma at_line_start_iff:
  "q_ok (secondary t) \<Longrightarrow> at_line_start t \<longleftrightarrow> q_list (secondary t) = [] \<or> ends_line t (last (q_list (secondary t)))"
  using unput_list[of "secondary t"] by (auto simp: at_line_start_def EMPTY_iff ends_line_def)

lemma drop_last_upd: "drop_last tty s = upd_tty tty (\<lambda>t. t\<lparr>secondary := unput (secondary t)\<rparr>) s"
  by (simp add: drop_last_def unput_def)

lemma kill_line_lines:
  assumes "\<not> L_ECHO (tty_table s tty)" "q_ok (sec_q tty s)" "q_len (sec_q tty s) < n"
  shows "\<exists>s'. kill_line n wr tty s = Ok () s' \<and> same_line tty s s' \<and> in_q tty s' = in_q tty s \<and> q_ok (sec_q tty s') \<and>
    q_list (sec_q tty s') = finished_lines (tty_table s tty) (q_list (sec_q tty s))"
  using assms
proof (induction n arbitrary: s)
  case (Suc n)
  let ?t = "tty_table s tty"
  show ?case
  proof (cases "at_line_start ?t")
    case True
    then have "finished_lines ?t (q_list (secondary ?t)) = q_list (secondary ?t)"
      using at_line_start_iff[OF Suc.prems(2)] by (cases "q_list (secondary ?t)" rule: rev_cases) (auto simp: finished_lines_def)
    then show ?thesis using True Suc.prems by (simp add: same_line_def)
  next
    case False
    then have ne: "q_list (secondary ?t) \<noteq> []" "\<not> ends_line ?t (last (q_list (secondary ?t)))" using at_line_start_iff[OF Suc.prems(2)] by auto
    define s1 where "s1 = drop_last tty s"
    have u: "q_ok (unput (secondary ?t))" "q_list (unput (secondary ?t)) = butlast (q_list (secondary ?t))"
      using unput_list[OF Suc.prems(2) ne(1)] by auto
    have t1: "tty_table s1 tty = ?t\<lparr>secondary := unput (secondary ?t)\<rparr>" by (simp add: s1_def drop_last_upd)
    have f1: "finished_lines (tty_table s1 tty) xs = finished_lines ?t xs" for xs
      by (simp add: finished_lines_def ends_line_def is_cc_def t1)
    have q1: "q_list (sec_q tty s1) = butlast (q_list (secondary ?t))" using u by (simp add: t1)
    then have l1: "q_len (sec_q tty s1) = q_len (secondary ?t) - 1" by (metis length_butlast length_q_list)
    have "0 < q_len (secondary ?t)" using ne(1) by (metis length_greater_0_conv length_q_list)
    then have "q_len (sec_q tty s1) < n" using l1 Suc.prems(3) by linarith
    moreover have "\<not> L_ECHO (tty_table s1 tty)" "q_ok (sec_q tty s1)" using Suc.prems(1) u(1) by (simp_all add: t1 L_FLAG_def)
    ultimately obtain s' where s': "kill_line n wr tty s1 = Ok () s'" "same_line tty s1 s'" "in_q tty s' = in_q tty s1" "q_ok (sec_q tty s')"
      "q_list (sec_q tty s') = finished_lines (tty_table s1 tty) (q_list (sec_q tty s1))"
      using Suc.IH[of s1] by blast
    have "finished_lines ?t (butlast (q_list (secondary ?t))) = finished_lines ?t (q_list (secondary ?t))"
      using ne by (cases "q_list (secondary ?t)" rule: rev_cases) (auto simp: finished_lines_def)
    moreover have "kill_line (Suc n) wr tty s = Ok () s'" using False Suc.prems(1) s'(1) by (simp add: echo_erase_def s1_def[symmetric])
    moreover have "same_line tty s s'" "in_q tty s' = in_q tty s" using s'(2,3) by (simp_all add: same_line_def t1) (simp add: s1_def drop_last_upd)
    ultimately show ?thesis using s'(4,5) q1 f1 by auto
  qed
qed simp

lemma cook_char_edits:
  assumes "\<not> L_ECHO (tty_table s tty)" "q_ok (sec_q tty s)" "q_len (sec_q tty s) < 1023" "1024 \<le> n"
  shows "\<exists>s'. cook_char n wr tty c s = Ok () s' \<and> same_line tty s s' \<and> in_q tty s' = in_q tty s \<and> q_ok (sec_q tty s') \<and>
    q_list (sec_q tty s') = edit (tty_table s tty) (q_list (sec_q tty s)) c"
proof -
  let ?t = "tty_table s tty"
  define s1 where "s1 = (if c = 10 \<or> is_cc c VEOF ?t
                 then upd_tty tty (\<lambda>t. t\<lparr>secondary := (secondary t)\<lparr>tq_data := tq_data (secondary t) + 1\<rparr>\<rparr>) s else s)"
  have q1: "q_ok (sec_q tty s1)" "q_list (sec_q tty s1) = q_list (secondary ?t)" "q_len (sec_q tty s1) = q_len (secondary ?t)" "same_line tty s s1"
    "in_q tty s1 = in_q tty s" "\<not> L_ECHO (tty_table s1 tty)"
    using assms(1,2) by (simp_all add: s1_def q_ok_def q_list_def q_len_def same_line_def L_FLAG_def)
  note un = unput_list[OF assms(2)]
  consider (kill) "L_CANON ?t \<and> is_cc c VKILL ?t" | (rub) "\<not> (L_CANON ?t \<and> is_cc c VKILL ?t)" "L_CANON ?t \<and> is_cc c VERASE ?t"
    | (none) "\<not> (L_CANON ?t \<and> is_cc c VKILL ?t)" "\<not> (L_CANON ?t \<and> is_cc c VERASE ?t)"
        "L_CANON ?t \<and> (is_cc c VSTOP ?t \<or> is_cc c VSTART ?t) \<or> L_ISIG ?t \<and> (is_cc c VINTR ?t \<or> is_cc c VQUIT ?t)"
    | (put) "\<not> (L_CANON ?t \<and> is_cc c VKILL ?t)" "\<not> (L_CANON ?t \<and> is_cc c VERASE ?t)"
        "\<not> (L_CANON ?t \<and> (is_cc c VSTOP ?t \<or> is_cc c VSTART ?t) \<or> L_ISIG ?t \<and> (is_cc c VINTR ?t \<or> is_cc c VQUIT ?t))"
    by blast
  then show ?thesis
  proof cases
    case kill
    then show ?thesis using kill_line_lines[OF assms(1,2), of n wr] assms(3,4) by (simp add: cook_char_def edit_def Let_def)
  next
    case rub
    then show ?thesis using un assms(1,2) at_line_start_iff[OF assms(2)]
      by (cases "at_line_start ?t") (auto simp: cook_char_def Let_def edit_def echo_erase_def drop_last_upd same_line_def)
  next
    case none
    have "tty_table (tty_intr tty m s) = tty_table s" "below_ctype (tty_intr tty m s) = below_ctype s" for m
      by (simp_all add: tty_intr_def)
    then show ?thesis using none assms(2)
      by (auto simp: cook_char_def Let_def edit_def same_line_def)
  next
    case put
    then have "cook_char n wr tty c s = Ok () (upd_tty tty (\<lambda>t. t\<lparr>secondary := PUTCH c (secondary t)\<rparr>) s1)"
      using q1(6) unfolding cook_char_def Let_def s1_def[symmetric] by (auto simp: echo_char_def)
    moreover have "edit ?t (q_list (secondary ?t)) c = q_list (secondary ?t) @ [c]" using put by (auto simp: edit_def)
    ultimately show ?thesis using q1 PUTCH_list[OF q1(1), of c] assms(3) by (auto simp: same_line_def)
  qed
qed

text \<open>The loop takes bytes from the read queue until it is empty or the secondary queue is full.\<close>

lemma cook_loop_edits:
  assumes "\<not> L_ECHO (tty_table s tty)" "q_ok (sec_q tty s)" "q_ok (in_q tty s)" "q_len (in_q tty s) + 1024 < n"
  shows "\<exists>s' k. cook_loop n wr tty s = Ok () s' \<and> same_line tty s s' \<and> k \<le> q_len (in_q tty s) \<and>
    q_list (in_q tty s') = drop k (q_list (in_q tty s)) \<and> q_ok (in_q tty s') \<and> q_ok (sec_q tty s') \<and>
    q_list (sec_q tty s') = foldl (edit_input tty s) (q_list (sec_q tty s)) (take k (q_list (in_q tty s))) \<and>
    (k = q_len (in_q tty s) \<or> q_len (sec_q tty s') = 1023)"
  using assms
proof (induction n arbitrary: s)
  case (Suc n)
  let ?t = "tty_table s tty"
  show ?case
  proof (cases "EMPTY (read_q ?t) \<or> FULL (secondary ?t)")
    case True
    then have "q_len (read_q ?t) = 0 \<or> q_len (secondary ?t) = 1023"
      using EMPTY_iff[OF Suc.prems(3)] FULL_iff[OF Suc.prems(2)] by (metis length_0_conv length_q_list)
    then show ?thesis using True Suc.prems by (intro exI[of _ s] exI[of _ 0]) (auto simp: same_line_def)
  next
    case False
    obtain c q where g: "GETCH (read_q ?t) = (c, q)" by fastforce
    have ne: "q_list (read_q ?t) \<noteq> []" "q_len (secondary ?t) \<noteq> 1023" using False EMPTY_iff[OF Suc.prems(3)] FULL_iff[OF Suc.prems(2)] by auto
    have gq: "q_ok q" "q_list (read_q ?t) = c # q_list q" using GETCH_list[OF Suc.prems(3) ne(1)] g ne(1) by (simp_all add: list.expand)
    then have lq: "q_len (read_q ?t) = Suc (q_len q)" by (metis length_Cons length_q_list)
    define s1 where "s1 = upd_tty tty (\<lambda>t. t\<lparr>read_q := q\<rparr>) s"
    have s1: "same_line tty s s1" "in_q tty s1 = q" "sec_q tty s1 = secondary ?t" "\<not> L_ECHO (tty_table s1 tty)"
      using Suc.prems(1) by (simp_all add: s1_def same_line_def L_FLAG_def)
    have e1: "edit_input tty s1 xs x = edit_input tty s xs x" for xs x by (rule edit_cong[OF s1(1)])
    have "q_len (secondary ?t) < 1023" using ne(2) q_len_less(2)[of "secondary ?t"] by simp
    then have "\<exists>s2. (case map_input tty c s1 of None \<Rightarrow> Ok () s1 | Some c \<Rightarrow> cook_char n wr tty c s1) = Ok () s2 \<and>
        same_line tty s1 s2 \<and> in_q tty s2 = in_q tty s1 \<and> q_ok (sec_q tty s2) \<and> q_list (sec_q tty s2) = edit_input tty s1 (q_list (sec_q tty s1)) c"
      using cook_char_edits[of s1 tty n wr] s1 Suc.prems(2,4) by (cases "map_input tty c s1") (auto simp: edit_input_def same_line_def)
    then obtain s2 where s2: "(case map_input tty c s1 of None \<Rightarrow> Ok () s1 | Some c \<Rightarrow> cook_char n wr tty c s1) = Ok () s2"
        "same_line tty s1 s2" "in_q tty s2 = q" "q_ok (sec_q tty s2)" "q_list (sec_q tty s2) = edit_input tty s (q_list (secondary ?t)) c"
      using s1 e1 by auto
    have sl: "same_line tty s s2" "\<not> L_ECHO (tty_table s2 tty)" using s1 s2(2) Suc.prems(1) by (auto simp: same_line_def L_FLAG_def)
    have e2: "edit_input tty s2 = edit_input tty s" by (intro ext edit_cong[OF sl(1)])
    obtain s' k where k: "cook_loop n wr tty s2 = Ok () s'" "same_line tty s2 s'" "k \<le> q_len q" "q_list (in_q tty s') = drop k (q_list q)"
      "q_ok (in_q tty s')" "q_ok (sec_q tty s')"
      "q_list (sec_q tty s') = foldl (edit_input tty s) (edit_input tty s (q_list (secondary ?t)) c) (take k (q_list q))" "k = q_len q \<or> q_len (sec_q tty s') = 1023"
      using Suc.IH[OF sl(2) s2(4)] Suc.prems(4) gq(1) lq s2(3,5) e2 by auto
    have "cook_loop (Suc n) wr tty s = Ok () s'"
      unfolding cook_loop.simps Let_def g prod.case s1_def[symmetric] using False s2(1) k(1) by simp
    then show ?thesis using k sl(1) gq(2) lq
      by (intro exI[of _ s'] exI[of _ "Suc k"]) (auto simp: same_line_def)
  qed
qed simp

text \<open>The terminal queues are first-in, first-out: up to 1023 bytes put into an empty ring buffer come out again in the same
  order, wherever in the buffer its head and tail are.\<close>

theorem tty_queue_fifo:
  assumes "q_ok q" "EMPTY q" "length bs \<le> 1023"
  shows "fst (tq.get_all (length bs) (fold PUTCH bs q)) = bs"
  using tq.fifo[OF assms(1) _ assms(3)] EMPTY_iff[OF assms(1)] assms(2) by simp

theorem tty_queue_fifo_witness: "fst (tq.get_all 3 (fold PUTCH [7, 8, 9] ((init_queue 0)\<lparr>tq_head := 1022, tq_tail := 1022\<rparr>))) = [7, 8, 9]"
  using tty_queue_fifo[of "(init_queue 0)\<lparr>tq_head := 1022, tq_tail := 1022\<rparr>" "[7, 8, 9]"]
  by (simp add: q_ok_def EMPTY_def numeral_3_eq_3 del: tq.get_all.simps)

text \<open>C6. Cooked mode. Without echo, \<open>copy_to_cooked\<close> refines the list specification \<open>edit\<close>: it returns, it has taken the first \<open>k\<close>
  bytes from the read queue, and the secondary queue holds its old bytes edited by them in order (carriage return and newline
  translation, erase, kill, stop and start, interrupt and quit). It stops only when the read queue is empty or the
  secondary queue is full. A bound of 2048 rounds is enough.\<close>

theorem copy_to_cooked_refines:
  assumes "\<not> L_ECHO (tty_table s tty)" "q_ok (secondary (tty_table s tty))" "q_ok (read_q (tty_table s tty))" "2048 \<le> n"
  shows "\<exists>s' k. copy_to_cooked_with n wr tty s = Ok () s' \<and> k \<le> length (q_list (read_q (tty_table s tty))) \<and>
    q_list (read_q (tty_table s' tty)) = drop k (q_list (read_q (tty_table s tty))) \<and>
    q_list (secondary (tty_table s' tty)) =
      foldl (edit_input tty s) (q_list (secondary (tty_table s tty))) (take k (q_list (read_q (tty_table s tty)))) \<and>
    (k = length (q_list (read_q (tty_table s tty))) \<or> FULL (secondary (tty_table s' tty)))"
proof -
  have l: "q_len (in_q tty s) + 1024 < n" using q_len_less(2)[of "in_q tty s"] assms(4) by simp
  obtain s' k where k: "cook_loop n wr tty s = Ok () s'" "k \<le> q_len (in_q tty s)" "q_list (in_q tty s') = drop k (q_list (in_q tty s))"
    "q_ok (sec_q tty s')" "q_list (sec_q tty s') = foldl (edit_input tty s) (q_list (sec_q tty s)) (take k (q_list (in_q tty s)))"
    "k = q_len (in_q tty s) \<or> q_len (sec_q tty s') = 1023"
    using cook_loop_edits[OF assms(1-3) l, of wr] by blast
  have w: "tty_table (wake_up q u) = tty_table u" for q and u :: "'a tty_state_scheme"
    by (simp add: wake_up_def upd_task_def split: option.split)
  show ?thesis using k FULL_iff[OF k(4)]
    by (intro exI[of _ "wake_up (Some (WTty tty 2)) s'"] exI[of _ k]) (simp add: copy_to_cooked_with_def w)
qed

definition demo_line :: tty_struct where
  "demo_line = (let t = init_tty 0 in t\<lparr>tty_termios := (tty_termios t)\<lparr>c_lflag := 2\<rparr>,
     read_q := fold PUTCH [0x61, 0x62, 0x7f, 0x63, 13] (read_q t)\<rparr>)"

lemma demo_line_facts:
  "q_ok (secondary demo_line)" "q_ok (read_q demo_line)" "\<not> L_ECHO demo_line" "q_list (secondary demo_line) = []"
  "q_list (read_q demo_line) = [0x61, 0x62, 0x7f, 0x63, 13]"
proof -
  have i: "q_ok (init_queue 0)" "q_list (init_queue 0) = []" by (simp_all add: q_ok_def init_queue_def q_list_def q_len_def)
  have r: "read_q demo_line = fold PUTCH [0x61, 0x62, 0x7f, 0x63, 13] (init_queue 0)" "secondary demo_line = init_queue 0"
    by (simp_all add: demo_line_def Let_def init_tty_def)
  show "q_ok (secondary demo_line)" "q_list (secondary demo_line) = []" using i r by simp_all
  show "\<not> L_ECHO demo_line" by (simp add: demo_line_def L_FLAG_def Let_def)
  show "q_ok (read_q demo_line)" "q_list (read_q demo_line) = [0x61, 0x62, 0x7f, 0x63, 13]"
    using tq.put_all_items[OF i(1), of "[0x61, 0x62, 0x7f, 0x63, 13]"] i(2) r by simp_all
qed

theorem copy_to_cooked_refines_witness:
  "\<exists>s' k. copy_to_cooked_with 2048 (\<lambda>_ s. Ok () s) 0 ((tty_data demo_fs)\<lparr>tty_table := (\<lambda>_. demo_line)\<rparr>) = Ok () s' \<and>
     q_list (secondary (tty_table s' 0)) =
       foldl (edit_input 0 ((tty_data demo_fs)\<lparr>tty_table := (\<lambda>_. demo_line)\<rparr>)) [] (take k [0x61, 0x62, 0x7f, 0x63, 13])"
  using copy_to_cooked_refines[of "(tty_data demo_fs)\<lparr>tty_table := (\<lambda>_. demo_line)\<rparr>" 0 2048 "\<lambda>_ s. Ok () s"] demo_line_facts
  by auto

end
