(* ===== verification/Chr_Console_Laws.thy ===== *)
theory Chr_Console_Laws
  imports Chr_Console Blk_Request
begin

text \<open>
  The console stays inside the video memory. \<open>con_ok\<close> relates the cursor, the scroll region and the visible
  window to the video memory; \<open>good c c'\<close> says that a step keeps it, leaves the geometry alone and changes no cell
  outside the video memory.
\<close>

definition con_ok :: "console \<Rightarrow> bool" where
  "con_ok c \<longleftrightarrow>
     (let C = unat (video_num_columns c); L = unat (video_num_lines c); Or = unat (origin c) in
      8 \<le> C \<and> even C \<and> unat (video_size_row c) = 2 * C \<and> 0 < L \<and>
      unat (video_mem_start c) \<le> Or \<and> Or + 2 * C * L \<le> unat (video_mem_end c) \<and> unat (video_mem_end c) < 0x80000000 \<and>
      unat (scr_end c) = Or + 2 * C * L \<and>
      unat (con_x c) \<le> C \<and> unat (con_y c) < L \<and> unat (con_top c) < unat (con_bottom c) \<and> unat (con_bottom c) \<le> L \<and>
      unat (con_pos c) = Or + 2 * C * unat (con_y c) + 2 * unat (con_x c))"

definition in_video :: "console \<Rightarrow> u32 \<Rightarrow> bool" where
  "in_video c a \<longleftrightarrow> unat (video_mem_start c) \<le> unat a \<and> unat a < unat (video_mem_end c)"

definition good :: "console \<Rightarrow> console \<Rightarrow> bool" where
  "good c c' \<longleftrightarrow> con_ok c' \<and> video_mem_start c' = video_mem_start c \<and> video_mem_end c' = video_mem_end c \<and>
     (\<forall>a. \<not> in_video c a \<longrightarrow> vram c' a = vram c a)"

lemma good_refl [simp]: "con_ok c \<Longrightarrow> good c c"
  by (simp add: good_def)

lemma good_trans: "good c d \<Longrightarrow> good d e \<Longrightarrow> good c e"
  by (simp add: good_def in_video_def)

lemma good_ok: "good c d \<Longrightarrow> con_ok d"
  by (simp add: good_def)

subsection \<open>Word arithmetic without overflow\<close>

lemma unat_plus: "unat (a :: u32) + unat b < 0x100000000 \<Longrightarrow> unat (a + b) = unat a + unat b"
  by (simp add: unat_word_ariths)

lemma unat_times: "unat (a :: u32) * unat b < 0x100000000 \<Longrightarrow> unat (a * b) = unat a * unat b"
  by (simp add: unat_word_ariths)

lemma unat_minus: "unat (b :: u32) \<le> unat a \<Longrightarrow> unat (a - b) = unat a - unat b"
  by (simp add: unat_sub word_le_nat_alt)

lemma unat_double: "unat (x :: u32) < 0x80000000 \<Longrightarrow> unat (x * 2) = 2 * unat x"
  by (simp add: unat_word_ariths)

lemma unat_half: "unat (drop_bit 1 (x :: u32)) = unat x div 2"
  unfolding unat_drop_bit_eq by (simp add: drop_bit_eq_div)

subsection \<open>String instructions write where they should\<close>

lemma stosw_up_outside:
  "lo \<le> unat di \<Longrightarrow> unat di + 2 * n \<le> hi \<Longrightarrow> hi < 0x100000000 \<Longrightarrow> \<not> (lo \<le> unat a \<and> unat a < hi) \<Longrightarrow>
   stosw_up n di v m a = m a"
proof (induction n arbitrary: di m)
  case (Suc n)
  have "unat (di + 2) = unat di + 2" using Suc.prems by (simp add: unat_plus)
  moreover have "a \<noteq> di" using Suc.prems by auto
  ultimately show ?case using Suc.IH[of "di + 2"] Suc.prems by simp
qed simp

lemma movsl_up_outside:
  "lo \<le> unat di \<Longrightarrow> unat di + 4 * n \<le> hi \<Longrightarrow> hi < 0x100000000 \<Longrightarrow> \<not> (lo \<le> unat a \<and> unat a < hi) \<Longrightarrow>
   movsl_up n di si m a = m a"
proof (induction n arbitrary: di si m)
  case (Suc n)
  have "unat (di + 4) = unat di + 4" "unat (di + 2) = unat di + 2" using Suc.prems by (simp_all add: unat_plus)
  moreover from this have "a \<noteq> di" "a \<noteq> di + 2" using Suc.prems by auto
  ultimately show ?case using Suc.IH[of "di + 4"] Suc.prems by simp
qed simp

lemma stosw_down_outside:
  "lo + 2 * n \<le> unat di + 2 \<Longrightarrow> unat di + 2 \<le> hi \<Longrightarrow> hi < 0x100000000 \<Longrightarrow> \<not> (lo \<le> unat a \<and> unat a < hi) \<Longrightarrow>
   stosw_down n di v m a = m a"
proof (induction n arbitrary: di m)
  case (Suc n)
  have ne: "a \<noteq> di" using Suc.prems by auto
  show ?case
  proof (cases "n = 0")
    case False
    then have e: "unat (di - 2) = unat di - 2" using Suc.prems by (intro unat_minus[of 2 di, simplified]) simp
    have "stosw_down n (di - 2) v (m(di := v)) a = (m(di := v)) a"
      by (rule Suc.IH) (use Suc.prems e False in auto)
    then show ?thesis using ne by simp
  qed (use ne in simp)
qed simp

lemma movsl_down_outside:
  "lo + 4 * n \<le> unat di + 4 \<Longrightarrow> unat di + 4 \<le> hi \<Longrightarrow> hi < 0x100000000 \<Longrightarrow> \<not> (lo \<le> unat a \<and> unat a < hi) \<Longrightarrow>
   movsl_down n di si m a = m a"
proof (induction n arbitrary: di si m)
  case (Suc n)
  have "unat (di + 2) = unat di + 2" using Suc.prems by (simp add: unat_plus)
  then have ne: "a \<noteq> di" "a \<noteq> di + 2" using Suc.prems by auto
  show ?case
  proof (cases "n = 0")
    case False
    then have e: "unat (di - 4) = unat di - 4" using Suc.prems by (intro unat_minus[of 4 di, simplified]) simp
    have "movsl_down n (di - 4) (si - 4) (m(di := m si, di + 2 := m (si + 2))) a = (m(di := m si, di + 2 := m (si + 2))) a"
      by (rule Suc.IH) (use Suc.prems e False in auto)
    then show ?thesis using ne by simp
  qed (use ne in simp)
qed simp

lemma insert_loop_outside:
  "lo \<le> unat p \<Longrightarrow> unat p + 2 * n \<le> hi \<Longrightarrow> hi < 0x100000000 \<Longrightarrow> \<not> (lo \<le> unat a \<and> unat a < hi) \<Longrightarrow>
   insert_loop n p v m a = m a"
proof (induction n arbitrary: p v m)
  case (Suc n)
  have "unat (p + 2) = unat p + 2" using Suc.prems by (simp add: unat_plus)
  moreover have "a \<noteq> p" using Suc.prems by auto
  ultimately show ?case using Suc.IH[of "p + 2"] Suc.prems by simp
qed simp

lemma delete_loop_outside:
  "lo \<le> unat p \<Longrightarrow> unat p + 2 * n + 2 \<le> hi \<Longrightarrow> hi < 0x100000000 \<Longrightarrow> \<not> (lo \<le> unat a \<and> unat a < hi) \<Longrightarrow>
   delete_loop n p v m a = m a"
proof (induction n arbitrary: p m)
  case (Suc n)
  have "unat (p + 2) = unat p + 2" using Suc.prems by (simp add: unat_plus)
  moreover have "a \<noteq> p" using Suc.prems by auto
  ultimately show ?case using Suc.IH[of "p + 2"] Suc.prems by simp
next
  case 0
  then show ?case by auto
qed

subsection \<open>The geometry of the screen\<close>

lemma row_below: "Y < L \<Longrightarrow> 2 * C * Y + 2 * C \<le> 2 * C * (L :: nat)"
  using mult_le_mono2[of "Suc Y" L "2 * C"] by simp

lemma con_okD:
  assumes "con_ok c"
  shows "8 \<le> unat (video_num_columns c)" "even (unat (video_num_columns c))"
    "unat (video_size_row c) = 2 * unat (video_num_columns c)" "0 < unat (video_num_lines c)"
    "unat (video_mem_start c) \<le> unat (origin c)"
    "unat (origin c) + 2 * unat (video_num_columns c) * unat (video_num_lines c) \<le> unat (video_mem_end c)"
    "unat (video_mem_end c) < 0x80000000"
    "unat (scr_end c) = unat (origin c) + 2 * unat (video_num_columns c) * unat (video_num_lines c)"
    "unat (con_x c) \<le> unat (video_num_columns c)" "unat (con_y c) < unat (video_num_lines c)"
    "unat (con_top c) < unat (con_bottom c)" "unat (con_bottom c) \<le> unat (video_num_lines c)"
    "unat (con_pos c) = unat (origin c) + 2 * unat (video_num_columns c) * unat (con_y c) + 2 * unat (con_x c)"
  using assms by (simp_all add: con_ok_def Let_def)

lemma screen_small:
  assumes "con_ok c"
  shows "unat (video_num_lines c) < 0x80000000" "2 * unat (video_num_columns c) \<le> unat (scr_end c)"
proof -
  note d = con_okD[OF assms]
  have "1 * unat (video_num_lines c) \<le> (2 * unat (video_num_columns c)) * unat (video_num_lines c)"
    using d(1) by (intro mult_le_mono1) simp
  then show "unat (video_num_lines c) < 0x80000000" using d(6,7) by linarith
  have "2 * unat (video_num_columns c) * 1 \<le> 2 * unat (video_num_columns c) * unat (video_num_lines c)"
    using d(4) by (intro mult_le_mono2) simp
  then show "2 * unat (video_num_columns c) \<le> unat (scr_end c)" using d(8) by linarith
qed

text \<open>The address of row \<open>r\<close>, and of a cell of it.\<close>

lemma row_addr:
  assumes "con_ok c" "unat r \<le> unat (video_num_lines c)"
  shows "unat (r * video_size_row c) = 2 * unat (video_num_columns c) * unat r"
    "unat (video_size_row c * r) = 2 * unat (video_num_columns c) * unat r"
    "unat (origin c + video_size_row c * r) = unat (origin c) + 2 * unat (video_num_columns c) * unat r"
    "unat (origin c) + 2 * unat (video_num_columns c) * unat r \<le> unat (scr_end c)"
proof -
  note d = con_okD[OF assms(1)]
  have le: "2 * unat (video_num_columns c) * unat r \<le> 2 * unat (video_num_columns c) * unat (video_num_lines c)"
    using assms(2) by (rule mult_le_mono2)
  have "unat r * unat (video_size_row c) = 2 * unat (video_num_columns c) * unat r" by (simp add: d(3))
  then have "unat r * unat (video_size_row c) < 0x100000000" using le d(6,7) by linarith
  then show 1: "unat (r * video_size_row c) = 2 * unat (video_num_columns c) * unat r"
    by (simp add: unat_times d(3))
  then show 2: "unat (video_size_row c * r) = 2 * unat (video_num_columns c) * unat r" by (simp add: mult.commute)
  show "unat (origin c + video_size_row c * r) = unat (origin c) + 2 * unat (video_num_columns c) * unat r"
  proof -
    have "unat (origin c) + unat (video_size_row c * r) < 0x100000000" using 2 le d(6,7) by linarith
    then show ?thesis by (simp add: unat_plus 2)
  qed
  show "unat (origin c) + 2 * unat (video_num_columns c) * unat r \<le> unat (scr_end c)" using le d(8) by simp
qed

lemma pos_bounds:
  assumes "con_ok c"
  shows "unat (origin c) \<le> unat (con_pos c)" "unat (con_pos c) \<le> unat (scr_end c)"
    "unat (con_pos c) + 2 * (unat (video_num_columns c) - unat (con_x c)) \<le> unat (scr_end c)"
    "2 * unat (con_x c) \<le> unat (con_pos c) - unat (origin c)"
  using con_okD[OF assms] row_below[of "unat (con_y c)" "unat (video_num_lines c)" "unat (video_num_columns c)"] by auto

lemma good_vram:
  assumes "con_ok c" "\<And>a. \<not> (unat (origin c) \<le> unat a \<and> unat a < unat (scr_end c)) \<Longrightarrow> m a = vram c a"
  shows "good c (c\<lparr>vram := m\<rparr>)"
proof -
  have "con_ok (c\<lparr>vram := m\<rparr>)" using assms(1) by (simp add: con_ok_def Let_def)
  moreover have "m a = vram c a" if "\<not> in_video c a" for a
    using that con_okD[OF assms(1)] by (intro assms(2)) (auto simp: in_video_def)
  ultimately show ?thesis by (simp add: good_def)
qed

lemma good_erase:
  assumes "con_ok c" "unat (origin c) \<le> unat start" "unat start + 2 * unat cnt \<le> unat (scr_end c)"
  shows "good c (erase cnt start c)"
  unfolding erase_def using assms con_okD(6-8)[OF assms(1)]
  by (intro good_vram assms(1) stosw_up_outside[of "unat (origin c)" start "unat cnt" "unat (scr_end c)"]) auto

lemma good_gotoxy:
  assumes "con_ok c" shows "good c (gotoxy nx ny c)"
proof (cases "nx > video_num_columns c \<or> ny \<ge> video_num_lines c")
  case True then show ?thesis using assms by (simp add: gotoxy_def)
next
  case False
  note d = con_okD[OF assms]
  have n: "unat nx \<le> unat (video_num_columns c)" "unat ny < unat (video_num_lines c)"
    using False by (simp_all add: word_less_nat_alt word_le_nat_alt)
  note r = row_addr[OF assms, of ny]
  have b: "2 * unat (video_num_columns c) * unat ny + 2 * unat (video_num_columns c) \<le> 2 * unat (video_num_columns c) * unat (video_num_lines c)"
    using n(2) by (rule row_below)
  have "unat (origin c + ny * video_size_row c) = unat (origin c) + 2 * unat (video_num_columns c) * unat ny"
    using r(3) n by (simp add: mult.commute)
  then have "unat (origin c + ny * video_size_row c + push_bit 1 nx) = unat (origin c) + 2 * unat (video_num_columns c) * unat ny + 2 * unat nx"
    using n b d(6,7) by (subst unat_plus) (simp_all add: unat_double)
  then have "con_ok (gotoxy nx ny c)" using assms False n
    by (simp add: gotoxy_def con_ok_def Let_def)
  then show ?thesis using False by (simp add: good_def gotoxy_def)
qed

subsection \<open>Scrolling\<close>

text \<open>The number of double words of the rows strictly between \<open>top\<close> and \<open>bottom\<close>: the geometry gives its exact value.\<close>

lemma row_dwords:
  assumes "con_ok c" "unat t < unat b" "unat b \<le> unat (video_num_lines c)"
  shows "4 * unat (drop_bit 1 ((b - t - 1) * video_num_columns c)) = 2 * unat (video_num_columns c) * (unat b - unat t - 1)"
    "unat (4 * drop_bit 1 ((b - t - 1) * video_num_columns c)) = 2 * unat (video_num_columns c) * (unat b - unat t - 1)"
proof -
  note d = con_okD[OF assms(1)]
  define k where "k = unat b - unat t - 1"
  have bt: "unat (b - t) = unat b - unat t" using assms(2) by (simp add: unat_minus)
  have "unat (b - t - 1) = unat (b - t) - 1" using unat_minus[of 1 "b - t"] assms(2) bt by simp
  then have k: "unat (b - t - 1) = k" using bt by (simp add: k_def)
  have "k \<le> unat (video_num_lines c)" using assms(3) by (simp add: k_def)
  then have "2 * unat (video_num_columns c) * k \<le> 2 * unat (video_num_columns c) * unat (video_num_lines c)" by (rule mult_le_mono2)
  then have le: "2 * (unat (video_num_columns c) * k) < 0x80000000" using d(6,7) by (simp only: mult.assoc)
  have "unat (b - t - 1) * unat (video_num_columns c) < 0x100000000" unfolding k using le by (simp add: mult.commute)
  then have m: "unat ((b - t - 1) * video_num_columns c) = unat (video_num_columns c) * k"
    unfolding unat_times[OF \<open>unat (b - t - 1) * unat (video_num_columns c) < 0x100000000\<close>] k by (simp add: mult.commute)
  have ev: "even (unat (video_num_columns c) * k)" using d(2) by simp
  define dw where "dw = drop_bit 1 ((b - t - 1) * video_num_columns c)"
  have 1: "4 * unat dw = 2 * unat (video_num_columns c) * k"
    unfolding dw_def unat_half m using ev by auto
  have "unat (4 :: u32) * unat dw < 0x100000000" using 1 le by simp
  then have "unat (4 * dw) = 2 * unat (video_num_columns c) * k" using 1 by (simp add: unat_times)
  then show "4 * unat (drop_bit 1 ((b - t - 1) * video_num_columns c)) = 2 * unat (video_num_columns c) * (unat b - unat t - 1)"
    "unat (4 * drop_bit 1 ((b - t - 1) * video_num_columns c)) = 2 * unat (video_num_columns c) * (unat b - unat t - 1)"
    using 1 unfolding dw_def k_def by blast+
qed

lemma good_scroll_region:
  assumes "con_ok c" shows "good c (scroll_region c)"
proof -
  note d = con_okD[OF assms]
  note w = row_dwords[OF assms d(11,12)]
  have tb: "unat (con_top c) \<le> unat (video_num_lines c)" using d(11,12) by simp
  note r = row_addr[OF assms tb]
  define k where "k = unat (con_bottom c) - unat (con_top c) - 1"
  have kt: "unat (con_top c) + k < unat (video_num_lines c)" using d(11,12) by (simp add: k_def)
  have b: "2 * unat (video_num_columns c) * (unat (con_top c) + k) + 2 * unat (video_num_columns c)
      \<le> 2 * unat (video_num_columns c) * unat (video_num_lines c)" by (rule row_below[OF kt])
  have s: "2 * unat (video_num_columns c) * (unat (con_top c) + k) =
      2 * unat (video_num_columns c) * unat (con_top c) + 2 * unat (video_num_columns c) * k" by (simp add: distrib_left)
  let ?di = "origin c + video_size_row c * con_top c" and ?n = "drop_bit 1 ((con_bottom c - con_top c - 1) * video_num_columns c)"
  have e: "unat (?di + 4 * ?n) = unat ?di + unat (4 * ?n)"
    using r(3) w(2) b s d(6,7) by (intro unat_plus) (simp only: k_def[symmetric])
  show ?thesis unfolding scroll_region_def shift_up_def
  proof (intro good_vram assms)
    fix a :: u32 assume a: "\<not> (unat (origin c) \<le> unat a \<and> unat a < unat (scr_end c))"
    have "stosw_up (unat (video_num_columns c)) (?di + 4 * ?n) v m a = m a" for v m
      using a r(3) w(2) b s d(6-8) e by (intro stosw_up_outside[of "unat (origin c)" _ _ "unat (scr_end c)"]) (simp_all only: k_def[symmetric], auto)
    moreover have "movsl_up (unat ?n) ?di si m a = m a" for si m
      using a r(3) w(1) b s d(6-8) by (intro movsl_up_outside[of "unat (origin c)" _ _ "unat (scr_end c)"]) (simp_all only: k_def[symmetric], auto)
    ultimately show "stosw_up (unat (video_num_columns c)) (?di + 4 * ?n) (video_erase_char c)
        (movsl_up (unat ?n) ?di (origin c + video_size_row c * (con_top c + 1)) (vram c)) a = vram c a" by simp
  qed
qed

lemma good_scrdown:
  assumes "con_ok c" shows "good c (scrdown c)"
proof -
  note d = con_okD[OF assms]
  define k where "k = unat (con_bottom c) - unat (con_top c) - 1"
  define n where "n = drop_bit 1 ((con_bottom c - con_top c - 1) * video_num_columns c)"
  define di where "di = origin c + video_size_row c * con_bottom c - 4"
  have w: "4 * unat n = 2 * unat (video_num_columns c) * k" "unat (4 * n) = 2 * unat (video_num_columns c) * k"
    unfolding n_def k_def by (rule row_dwords[OF assms d(11,12)])+
  note r = row_addr[OF assms d(12)]
  have B: "unat (con_bottom c) = unat (con_top c) + k + 1" using d(11) by (simp add: k_def)
  have s: "2 * unat (video_num_columns c) * unat (con_bottom c) =
      2 * unat (video_num_columns c) * unat (con_top c) + 2 * unat (video_num_columns c) * k + 2 * unat (video_num_columns c)"
    unfolding B by (simp add: distrib_left)
  have "unat (4 :: u32) \<le> unat (origin c + video_size_row c * con_bottom c)" using r(3) s d(1) by simp
  then have di: "unat di + 4 = unat (origin c) + 2 * unat (video_num_columns c) * unat (con_bottom c)"
    unfolding di_def using r(3) s d(1) by (simp add: unat_minus)
  have "unat (di - 4 * n) = unat di - unat (4 * n)" using di s w(2) d(1) by (intro unat_minus) linarith
  then have e0: "unat (di - 4 * n) + 4 = unat (origin c) + 2 * unat (video_num_columns c) * unat (con_top c) + 2 * unat (video_num_columns c)"
    using di s w(2) d(1) by linarith
  moreover have "unat (di - 4 * n + 2) = unat (di - 4 * n) + 2"
    using e0 di s d(6-8) r(4) by (subst unat_plus) simp_all
  ultimately have e: "unat (di - 4 * n + 2) + 2 = unat (origin c) + 2 * unat (video_num_columns c) * unat (con_top c) + 2 * unat (video_num_columns c)"
    by simp
  show ?thesis unfolding scrdown_def Let_def n_def[symmetric] di_def[symmetric]
  proof (intro good_vram assms)
    fix a :: u32 assume a: "\<not> (unat (origin c) \<le> unat a \<and> unat a < unat (scr_end c))"
    have "stosw_down (unat (video_num_columns c)) (di - 4 * n + 2) v m a = m a" for v m
      using a e s r(4) d(6-8) by (intro stosw_down_outside[of "unat (origin c)" _ _ "unat (scr_end c)"]) linarith+
    moreover have "movsl_down (unat n) di si m a = m a" for si m
      using a di s w(1) r(4) d(6-8) by (intro movsl_down_outside[of "unat (origin c)" _ _ "unat (scr_end c)"]) linarith+
    ultimately show "stosw_down (unat (video_num_columns c)) (di - 4 * n + 2) (video_erase_char c)
        (movsl_down (unat n) di (origin c + video_size_row c * (con_bottom c - 1) - 4) (vram c)) a = vram c a" by simp
  qed
qed

lemma good_scroll_window:
  assumes "con_ok c" shows "good c (scroll_window c)"
proof -
  note d = con_okD[OF assms]
  let ?C = "unat (video_num_columns c)" and ?L = "unat (video_num_lines c)"
  define n where "n = drop_bit 1 ((video_num_lines c - 1) * video_num_columns c)"
  have w: "4 * unat n = 2 * ?C * (?L - 1)" "unat (4 * n) = 2 * ?C * (?L - 1)"
    using row_dwords[OF assms, of 0 "video_num_lines c"] d(4) by (simp_all add: n_def)
  have L: "2 * ?C * ?L = 2 * ?C * (?L - 1) + 2 * ?C" using d(4) by (cases ?L) simp_all
  note p = pos_bounds[OF assms]
  have plus: "unat (origin c + video_size_row c) = unat (origin c) + 2 * ?C" "unat (scr_end c + video_size_row c) = unat (scr_end c) + 2 * ?C"
    "unat (con_pos c + video_size_row c) = unat (con_pos c) + 2 * ?C"
    using d(3,6-8) L p(2) by (simp_all add: unat_plus)
  show ?thesis
  proof (cases "scr_end c + video_size_row c > video_mem_end c")
    case True
    define o' where "o' = origin c + video_size_row c - video_mem_start c"
    have o': "unat o' = unat (origin c) + 2 * ?C - unat (video_mem_start c)"
      unfolding o'_def using d(5) plus(1) by (simp add: unat_minus)
    define c' where "c' = scroll_window c"
    have c': "c' = c\<lparr>origin := video_mem_start c, con_pos := con_pos c + video_size_row c - o', scr_end := scr_end c + video_size_row c - o',
        vram := stosw_up ?C (video_mem_start c + 4 * n) (video_erase_char c) (movsl_up (unat n) (video_mem_start c) (origin c + video_size_row c) (vram c))\<rparr>"
      using True by (simp add: c'_def scroll_window_def Let_def shift_up_def n_def o'_def)
    have "unat (con_pos c + video_size_row c - o') = unat (con_pos c) + 2 * ?C - unat o'"
      "unat (scr_end c + video_size_row c - o') = unat (scr_end c) + 2 * ?C - unat o'"
      using o' plus p d(5,8) by (simp_all add: unat_minus)
    then have ok: "con_ok c'" unfolding c' using d o' by (simp add: con_ok_def Let_def)
    have e: "unat (video_mem_start c + 4 * n) = unat (video_mem_start c) + 2 * ?C * (?L - 1)"
      using w(2) L d(5-7) by (subst unat_plus) (linarith, simp)
    have "vram c' a = vram c a" if "\<not> in_video c a" for a
    proof -
      have a: "\<not> (unat (video_mem_start c) \<le> unat a \<and> unat a < unat (video_mem_end c))" using that by (simp add: in_video_def)
      have "stosw_up ?C (video_mem_start c + 4 * n) v m a = m a" for v m
        using a e L d(5-7) by (intro stosw_up_outside[of "unat (video_mem_start c)" _ _ "unat (video_mem_end c)"]) linarith+
      moreover have "movsl_up (unat n) (video_mem_start c) si m a = m a" for si m
        using a w(1) L d(5-7) by (intro movsl_up_outside[of "unat (video_mem_start c)" _ _ "unat (video_mem_end c)"]) linarith+
      ultimately show ?thesis by (simp add: c')
    qed
    then show ?thesis using ok unfolding good_def c'_def[symmetric] by (simp add: c')
  next
    case False
    then have E: "unat (scr_end c) + 2 * ?C \<le> unat (video_mem_end c)" using plus(2) by (simp add: word_less_nat_alt not_less)
    define c' where "c' = scroll_window c"
    have c': "c' = c\<lparr>origin := origin c + video_size_row c, con_pos := con_pos c + video_size_row c, scr_end := scr_end c + video_size_row c,
        vram := stosw_up ?C (scr_end c) (video_erase_char c) (vram c)\<rparr>"
      using False by (simp add: c'_def scroll_window_def Let_def)
    have ok: "con_ok c'" unfolding c' using d plus E by (simp add: con_ok_def Let_def)
    have "vram c' a = vram c a" if "\<not> in_video c a" for a
    proof -
      have a: "\<not> (unat (video_mem_start c) \<le> unat a \<and> unat a < unat (video_mem_end c))" using that by (simp add: in_video_def)
      have "stosw_up ?C (scr_end c) v m a = m a" for v m
        using a E d(5-8) by (intro stosw_up_outside[of "unat (video_mem_start c)" _ _ "unat (video_mem_end c)"]) linarith+
      then show ?thesis by (simp add: c')
    qed
    then show ?thesis using ok unfolding good_def c'_def[symmetric] by (simp add: c')
  qed
qed

subsection \<open>The operations\<close>

lemma con_simps [simp]:
  "con (upd_con f s) = f (con s)" "con (outb v q s) = con s" "con (upd_tty i g s) = con s"
  "con (set_origin s) = con s" "con (set_cursor s) = con s" "con (sysbeep s) = con s" "con (wake_up w s) = con s"
  "con (tty_intr i m s) = con s" "con (put_write i ch s) = con s" "con (drop_last i s) = con s" "con (rs_write i s) = con s"
  by (simp_all add: upd_con_def outb_def upd_tty_def set_origin_def set_cursor_def crt_out_def Let_def sysbeep_def
      wake_up_def tty_intr_def put_write_def drop_last_def rs_write_def upd_task_def split: option.split)

text \<open>Steps that leave the geometry, the cursor and the video memory alone.\<close>

lemma good_other:
  "con_ok c \<Longrightarrow> good c (c\<lparr>con_state := n\<rparr>)" "con_ok c \<Longrightarrow> good c (c\<lparr>attr := a\<rparr>)" "con_ok c \<Longrightarrow> good c (c\<lparr>par := p\<rparr>)"
  "con_ok c \<Longrightarrow> good c (c\<lparr>npar := k\<rparr>)" "con_ok c \<Longrightarrow> good c (save_cur c)"
  "con_ok c \<Longrightarrow> good c (c\<lparr>par := p, npar := k, con_state := n, ques := q\<rparr>)"
  by (simp_all add: good_def con_ok_def Let_def save_cur_def)

lemma good_cursor:
  assumes "con_ok c" "unat x' \<le> unat (video_num_columns c)" "unat y' < unat (video_num_lines c)"
    "unat p' = unat (origin c) + 2 * unat (video_num_columns c) * unat y' + 2 * unat x'"
  shows "good c (c\<lparr>con_x := x', con_y := y', con_pos := p'\<rparr>)"
  using assms by (simp add: good_def con_ok_def Let_def)

lemma good_region:
  assumes "con_ok c" "unat t < unat b" "unat b \<le> unat (video_num_lines c)"
  shows "good c (c\<lparr>con_top := t, con_bottom := b\<rparr>)"
  using assms by (simp add: good_def con_ok_def Let_def)

lemma good_scrup: "con_ok (con s) \<Longrightarrow> good (con s) (con (scrup s))"
  by (simp add: scrup_def Let_def good_scroll_window good_scroll_region)

lemma good_lf:
  assumes "con_ok (con s)" shows "good (con s) (con (lf s))"
proof (cases "con_y (con s) + 1 < con_bottom (con s)")
  case True
  define c where "c = con s"
  note d = con_okD[OF assms, folded c_def]
  have y1: "unat (con_y c + 1) = unat (con_y c) + 1"
    using d(10) screen_small(1)[OF assms] by (subst unat_plus) (simp_all add: c_def)
  have y: "unat (con_y c + 1) < unat (video_num_lines c)" using True d(12) by (simp add: c_def[symmetric] word_less_nat_alt)
  have "unat (con_pos c + video_size_row c) = unat (con_pos c) + 2 * unat (video_num_columns c)"
    using pos_bounds(2)[OF assms] d(3,6-8) row_below[OF d(10), of "unat (video_num_columns c)"]
    by (subst unat_plus) (simp_all add: c_def[symmetric])
  then have "good c (c\<lparr>con_x := con_x c, con_y := con_y c + 1, con_pos := con_pos c + video_size_row c\<rparr>)"
    using assms d y y1 by (intro good_cursor) (simp_all add: c_def[symmetric])
  then show ?thesis using True by (simp add: lf_def c_def)
qed (simp add: lf_def assms good_scrup)

lemma good_ri:
  assumes "con_ok c" shows "good c (ri c)"
proof (cases "con_y c > con_top c")
  case True
  note d = con_okD[OF assms]
  have y: "unat (con_y c - 1) = unat (con_y c) - 1" "0 < unat (con_y c)"
    using True unat_minus[of 1 "con_y c"] by (simp_all add: word_less_nat_alt)
  then obtain k where k: "unat (con_y c) = Suc k" by (cases "unat (con_y c)") auto
  have "unat (con_pos c - video_size_row c) = unat (con_pos c) - 2 * unat (video_num_columns c)"
    using d(3,13) k by (simp add: unat_minus)
  then have "good c (c\<lparr>con_x := con_x c, con_y := con_y c - 1, con_pos := con_pos c - video_size_row c\<rparr>)"
    using assms d y k by (intro good_cursor) simp_all
  then show ?thesis using True by (simp add: ri_def)
qed (simp add: ri_def assms good_scrdown)

lemma con_pos_x: "c\<lparr>con_pos := p, con_x := x\<rparr> = c\<lparr>con_x := x, con_pos := p\<rparr>"
  by simp

lemma good_back:
  assumes "con_ok c" "unat k \<le> unat (con_x c)"
  shows "good c (c\<lparr>con_pos := con_pos c - k * 2, con_x := con_x c - k\<rparr>)"
proof -
  note d = con_okD[OF assms(1)]
  have k: "unat (k * 2) = 2 * unat k" using assms(2) d(6-9) screen_small(2)[OF assms(1)] by (intro unat_double) linarith
  have "unat (con_pos c - k * 2) = unat (con_pos c) - 2 * unat k" using assms(2) d(13) k by (simp add: unat_minus)
  moreover have "unat (con_x c - k) = unat (con_x c) - unat k" using assms(2) by (simp add: unat_minus)
  ultimately have "good c (c\<lparr>con_x := con_x c - k, con_y := con_y c, con_pos := con_pos c - k * 2\<rparr>)"
    using assms d by (intro good_cursor) auto
  then show ?thesis by (simp add: con_pos_x)
qed

lemma good_cr: "con_ok c \<Longrightarrow> good c (cr c)"
  using good_back[of c "con_x c"] by (simp add: cr_def)

lemma good_del:
  assumes "con_ok c" shows "good c (del c)"
proof (cases "con_x c = 0")
  case False
  then have x: "unat (1 :: u32) \<le> unat (con_x c)" by (simp add: unat_gt_0 Suc_leI)
  define c1 where "c1 = c\<lparr>con_pos := con_pos c - 2, con_x := con_x c - 1\<rparr>"
  have g: "good c c1" using good_back[OF assms x] by (simp add: c1_def)
  note ok = good_ok[OF g]
  have "unat (con_x c1) < unat (video_num_columns c1)"
    using unat_minus[OF x] x con_okD(9)[OF assms] by (simp add: c1_def)
  then have "good c1 (c1\<lparr>vram := (vram c1)(con_pos c1 := video_erase_char c)\<rparr>)"
    using pos_bounds[OF ok] by (intro good_vram ok) auto
  moreover have "del c = c1\<lparr>vram := (vram c1)(con_pos c1 := video_erase_char c)\<rparr>"
    using False by (simp add: del_def c1_def Let_def)
  ultimately show ?thesis using g good_trans by metis
qed (simp add: del_def assms)

lemma good_put_glyph:
  assumes "con_ok c" "con_x c < video_num_columns c" shows "good c (put_glyph ch c)"
proof -
  note d = con_okD[OF assms(1)]
  have x: "unat (con_x c) < unat (video_num_columns c)" using assms(2) by (simp add: word_less_nat_alt)
  define g where "g = (push_bit 8 (ucast (attr c)) OR ucast ch :: u16)"
  define c1 where "c1 = c\<lparr>vram := (vram c)(con_pos c := g)\<rparr>"
  have g1: "good c c1" unfolding c1_def using pos_bounds[OF assms(1)] x by (intro good_vram assms(1)) auto
  note d1 = con_okD[OF good_ok[OF g1]]
  have "unat (con_x c + 1) = unat (con_x c) + 1" "unat (con_pos c + 2) = unat (con_pos c) + 2"
    using x pos_bounds[OF assms(1)] d(6-8) screen_small[OF assms(1)] by (simp_all add: unat_plus)
  then have "good c1 (c1\<lparr>con_x := con_x c + 1, con_y := con_y c, con_pos := con_pos c + 2\<rparr>)"
    using x d by (intro good_cursor good_ok[OF g1]) (simp_all add: c1_def)
  moreover have "put_glyph ch c = c1\<lparr>con_x := con_x c + 1, con_y := con_y c, con_pos := con_pos c + 2\<rparr>"
    by (simp add: put_glyph_def c1_def g_def)
  ultimately show ?thesis using good_trans[OF g1] by metis
qed

text \<open>Wrapping to the next line: the cursor is at column \<open>C + k\<close>.\<close>

lemma good_wrap:
  assumes "con_ok c" "con s = c\<lparr>con_x := x', con_pos := p'\<rparr>" "unat x' = unat (video_num_columns c) + k" "k \<le> unat (video_num_columns c)"
    "unat p' = unat (origin c) + 2 * unat (video_num_columns c) * unat (con_y c) + 2 * unat x'"
  shows "good c (con (wrap s))" "unat (con_x (con (wrap s))) = k"
proof -
  note d = con_okD[OF assms(1)]
  define s1 where "s1 = upd_con (\<lambda>c. c\<lparr>con_x := con_x c - video_num_columns c, con_pos := con_pos c - video_size_row c\<rparr>) s"
  have c1: "con s1 = c\<lparr>con_x := x' - video_num_columns c, con_y := con_y c, con_pos := p' - video_size_row c\<rparr>"
    by (simp add: s1_def assms(2))
  have x: "unat (x' - video_num_columns c) = k" using assms(3) by (simp add: unat_minus)
  have "unat (p' - video_size_row c) = unat p' - 2 * unat (video_num_columns c)" using assms(3,5) d(3) by (simp add: unat_minus)
  then have g: "good c (con s1)" unfolding c1 using assms d x by (intro good_cursor) simp_all
  then show "good c (con (wrap s))" unfolding wrap_def s1_def[symmetric] using good_lf[OF good_ok[OF g]] good_trans by blast
  have "con_x (con (lf u)) = con_x (con u)" for u :: "'a tty_state_scheme"
    by (simp add: lf_def scrup_def Let_def scroll_region_def scroll_window_def shift_up_def)
  then show "unat (con_x (con (wrap s))) = k" unfolding wrap_def s1_def[symmetric] using x by (simp add: c1)
qed

lemma good_con_tab:
  assumes "con_ok (con s)" shows "good (con s) (con (con_tab s))"
proof -
  define c where "c = con s"
  have ok: "con_ok c" using assms by (simp add: c_def)
  note d = con_okD[OF ok]
  define w where "w = 8 - (con_x c AND 7)"
  have a7: "unat (con_x c AND 7) \<le> 7" using word_and_le1[of "con_x c" 7] by (simp add: word_le_nat_alt)
  then have w8: "unat w \<le> 8" unfolding w_def using unat_minus[of "con_x c AND 7" 8] by simp
  have tw: "unat (con_x c + w) = unat (con_x c) + unat w" "unat (w * 2) = 2 * unat w"
    "unat (con_pos c + w * 2) = unat (con_pos c) + 2 * unat w"
    using w8 d(6-9) screen_small[OF ok] pos_bounds[OF ok] by (simp_all add: unat_plus unat_double)
  define s1 where "s1 = upd_con (\<lambda>c. c\<lparr>con_x := con_x c + w, con_pos := con_pos c + w * 2\<rparr>) s"
  have c1: "con s1 = c\<lparr>con_x := con_x c + w, con_pos := con_pos c + w * 2\<rparr>" by (simp add: s1_def c_def)
  have e: "con_tab s = (if con_x (con s1) > video_num_columns (con s1) then wrap s1 else s1)"
    unfolding con_tab_def Let_def c_def[symmetric] w_def[symmetric] s1_def by (simp add: push_bit_eq_mult)
  show ?thesis
  proof (cases "con_x c + w > video_num_columns c")
    case True
    then obtain k where k: "unat (con_x c + w) = unat (video_num_columns c) + k"
      using le_Suc_ex[of "unat (video_num_columns c)" "unat (con_x c + w)"] by (auto simp: word_less_nat_alt)
    have "good c (con (wrap s1))" by (rule good_wrap(1)[OF ok c1 k]) (use k tw d w8 in simp_all)
    then show ?thesis using True by (simp add: e c1 c_def)
  next
    case False
    then have "good c (c\<lparr>con_x := con_x c + w, con_y := con_y c, con_pos := con_pos c + w * 2\<rparr>)"
      using tw d ok by (intro good_cursor) (simp_all add: word_less_nat_alt)
    then show ?thesis using False by (simp add: e c1 c_def)
  qed
qed

lemma good_con_glyph:
  assumes "con_ok (con s)"
  shows "good (con s) (put_glyph ch (con (if con_x (con s) \<ge> video_num_columns (con s) then wrap s else s)))"
proof (cases "con_x (con s) \<ge> video_num_columns (con s)")
  case True
  note d = con_okD[OF assms]
  have x: "unat (con_x (con s)) = unat (video_num_columns (con s)) + 0" using True d(9) by (simp add: word_le_nat_alt)
  have w: "good (con s) (con (wrap s))" "unat (con_x (con (wrap s))) = 0"
    using good_wrap[OF assms _ x, of s "con_pos (con s)"] d(9,13) x by simp_all
  have "con_x (con (wrap s)) < video_num_columns (con (wrap s))"
    using w(2) con_okD(1)[OF good_ok[OF w(1)]] by (simp add: word_less_nat_alt)
  then show ?thesis using True good_trans[OF w(1) good_put_glyph[OF good_ok[OF w(1)]]] by simp
next
  case False
  then show ?thesis using good_put_glyph[OF assms] by simp
qed

lemma good_con_plain:
  assumes "con_ok (con s)" shows "good (con s) (con (con_plain tty ch s))"
proof -
  have "good (con s) ((con s)\<lparr>con_x := con_x (con s) - 1, con_pos := con_pos (con s) - 2\<rparr>)" if "con_x (con s) \<noteq> 0"
    using good_back[OF assms, of 1] that by (simp add: unat_gt_0 Suc_leI con_pos_x)
  then show ?thesis
    using good_con_glyph[OF assms] good_con_tab[OF assms] good_lf[OF assms] good_cr[OF assms] good_del[OF assms] good_other(1)[OF assms] assms
    by (simp add: con_plain_def)
qed

subsection \<open>Control sequences\<close>

lemma good_csi_J:
  assumes "con_ok c" shows "good c (csi_J p c)"
proof -
  note d = con_okD[OF assms] and b = pos_bounds[OF assms]
  have "unat (scr_end c - con_pos c) = unat (scr_end c) - unat (con_pos c)" "unat (con_pos c - origin c) = unat (con_pos c) - unat (origin c)"
    using b by (simp_all add: unat_minus)
  then have "good c (erase (drop_bit 1 (scr_end c - con_pos c)) (con_pos c) c)" "good c (erase (drop_bit 1 (con_pos c - origin c)) (origin c) c)"
    using b d(8) by (intro good_erase assms; simp only: unat_half; simp)+
  moreover have "good c (erase (video_num_columns c * video_num_lines c) (origin c) c)"
    using d(6-8) by (intro good_erase assms) (simp_all add: unat_times mult.assoc)
  ultimately show ?thesis using assms by (simp add: csi_J_def)
qed

lemma good_csi_K:
  assumes "con_ok c" shows "good c (csi_K p c)"
proof -
  note d = con_okD[OF assms] and b = pos_bounds[OF assms]
  have x: "unat (con_x c * 2) = 2 * unat (con_x c)" using d(6-9) screen_small(2)[OF assms] by (intro unat_double) linarith
  have s: "unat (con_pos c - con_x c * 2) = unat (con_pos c) - 2 * unat (con_x c)" using b x d(13) by (simp add: unat_minus)
  have "good c (erase (video_num_columns c - con_x c) (con_pos c) c)"
    using b d(9) by (intro good_erase assms) (simp_all add: unat_minus)
  moreover have "good c (erase n (con_pos c - con_x c * 2) c)" if "unat n \<le> unat (video_num_columns c)" for n
    using b s d(9,13) that by (intro good_erase assms) simp_all
  ultimately show ?thesis using assms d(9) by (simp add: csi_K_def push_bit_eq_mult)
qed

lemma good_insert_char: "con_ok c \<Longrightarrow> good c (insert_char c)"
  unfolding insert_char_def using pos_bounds[of c] con_okD[of c]
  by (intro good_vram insert_loop_outside[of "unat (origin c)" _ _ "unat (scr_end c)"]) auto

lemma good_delete_char:
  assumes "con_ok c" shows "good c (delete_char c)"
proof (cases "con_x c \<ge> video_num_columns c")
  case False
  then have "unat (con_x c) < unat (video_num_columns c)" by (simp add: word_le_nat_alt)
  then have "good c (c\<lparr>vram := delete_loop (unat (video_num_columns c) - unat (con_x c) - 1) (con_pos c) (video_erase_char c) (vram c)\<rparr>)"
    using pos_bounds[OF assms] con_okD[OF assms]
    by (intro good_vram assms delete_loop_outside[of "unat (origin c)" _ _ "unat (scr_end c)"]) auto
  then show ?thesis using False by (simp add: delete_char_def)
qed (simp add: delete_char_def assms)

text \<open>\<open>insert_line\<close> and \<open>delete_line\<close> scroll from the cursor to the last line and restore the region.\<close>

lemma good_narrow: "con_ok c \<Longrightarrow> good c (c\<lparr>con_top := con_y c, con_bottom := video_num_lines c\<rparr>)"
  using con_okD[of c] by (intro good_region) auto

lemma good_insert_line:
  assumes "con_ok c" shows "good c (insert_line c)"
proof -
  define c1 where "c1 = c\<lparr>con_top := con_y c, con_bottom := video_num_lines c\<rparr>"
  have g: "good c (scrdown c1)" using good_trans[OF good_narrow[OF assms] good_scrdown] good_ok[OF good_narrow[OF assms]] by (simp add: c1_def)
  have "video_num_lines (scrdown c1) = video_num_lines c" by (simp add: scrdown_def Let_def c1_def)
  then have "good (scrdown c1) ((scrdown c1)\<lparr>con_top := con_top c, con_bottom := con_bottom c\<rparr>)"
    using con_okD[OF assms] by (intro good_region good_ok[OF g]) auto
  then show ?thesis using good_trans[OF g] by (simp add: insert_line_def Let_def c1_def)
qed

lemma good_delete_line:
  assumes "con_ok (con s)" shows "good (con s) (con (delete_line s))"
proof -
  define s1 where "s1 = upd_con (\<lambda>c. c\<lparr>con_top := con_y c, con_bottom := video_num_lines c\<rparr>) s"
  have g1: "good (con s) (con s1)" using good_narrow[OF assms] by (simp add: s1_def)
  have g: "good (con s) (con (scrup s1))" using good_trans[OF g1 good_scrup[OF good_ok[OF g1]]] .
  have "video_num_lines (con (scrup s1)) = video_num_lines (con s)"
    by (simp add: scrup_def Let_def scroll_region_def scroll_window_def shift_up_def s1_def)
  then have "good (con (scrup s1)) ((con (scrup s1))\<lparr>con_top := con_top (con s), con_bottom := con_bottom (con s)\<rparr>)"
    using con_okD[OF assms] by (intro good_region good_ok[OF g]) auto
  then show ?thesis using good_trans[OF g] by (simp add: delete_line_def Let_def s1_def[symmetric])
qed

lemma good_iterate: "(\<And>c. con_ok c \<Longrightarrow> good c (f c)) \<Longrightarrow> con_ok c \<Longrightarrow> good c ((f ^^ n) c)"
  by (induction n) (auto intro: good_trans dest: good_ok)

lemma good_csi_M: "con_ok (con s) \<Longrightarrow> good (con s) (con (csi_M p s))"
proof -
  assume ok: "con_ok (con s)"
  have "good (con s) (con ((delete_line ^^ n) s))" for n
    by (induction n) (auto intro: good_trans good_delete_line dest: good_ok simp: ok)
  then show ?thesis by (simp add: csi_M_def)
qed

lemma good_par: "con_ok c \<Longrightarrow> good c (par_dec k c)" "con_ok c \<Longrightarrow> good c (par_one c)"
  by (simp_all add: par_dec_def par_one_def good_other(3))

lemma good_goto_after: "good c d \<Longrightarrow> good c (gotoxy a b d)"
  using good_trans good_gotoxy good_ok by blast

lemma good_csi_move: "con_ok c \<Longrightarrow> csi_move ch c = Some d \<Longrightarrow> good c d"
  by (auto simp: csi_move_def Let_def split: if_splits
      intro!: good_goto_after good_par good_trans[OF good_par(1) good_par(1)] good_ok[OF good_par(1)])

lemma good_csi_r:
  assumes "con_ok c" shows "good c (csi_r c)"
proof -
  define d where "d = par_dec 0 c"
  define e where "e = (if par d 1 = 0 then d\<lparr>par := (par d)(1 := video_num_lines d)\<rparr> else d)"
  have g: "good c e" using good_trans[OF good_par(1)[OF assms, of 0]] good_other(3)[OF good_ok[OF good_par(1)[OF assms, of 0]]] good_par(1)[OF assms, of 0]
    by (simp add: e_def d_def)
  have "good e (e\<lparr>con_top := par e 0, con_bottom := par e 1\<rparr>)" if "par e 0 < par e 1" "par e 1 \<le> video_num_lines e"
    using that by (intro good_region good_ok[OF g]) (simp_all add: word_less_nat_alt word_le_nat_alt)
  then show ?thesis using g good_trans[OF g] unfolding csi_r_def Let_def d_def[symmetric] e_def[symmetric] by simp
qed

lemma good_con_csi:
  assumes "con_ok (con s)" shows "good (con s) (con (con_csi ch s))"
proof (cases "csi_move ch (con s)")
  case (Some c)
  then show ?thesis using good_csi_move[OF assms] by (simp add: con_csi_def Let_def)
next
  case None
  then show ?thesis using assms
    by (auto simp: con_csi_def Let_def csi_L_def csi_P_def csi_at_def csi_m_def restore_cur_def
        intro: good_csi_J good_csi_K good_iterate good_insert_line good_delete_char good_insert_char good_csi_M good_csi_r good_other good_gotoxy)
qed

lemma good_con_param:
  assumes "con_ok (con s)" shows "good (con s) (con (con_param ch s))"
proof -
  have "good (con s) (con (con_csi ch (upd_con (\<lambda>c. c\<lparr>con_state := 0\<rparr>) s)))"
    using good_trans[OF good_other(1)[OF assms, of 0]] good_con_csi[of "upd_con (\<lambda>c. c\<lparr>con_state := 0\<rparr>) s" ch] good_ok[OF good_other(1)[OF assms, of 0]] by simp
  then show ?thesis using assms by (auto simp: con_param_def intro: good_other)
qed

subsection \<open>The driver\<close>

text \<open>\<open>draws f\<close>: the routine \<open>f\<close> keeps the console inside the video memory.\<close>

definition draws :: "(nat \<Rightarrow> 'z tty_state_scheme \<Rightarrow> (unit, 'z tty_state_scheme) kres) \<Rightarrow> bool" where
  "draws f \<longleftrightarrow> (\<forall>tty s. con_ok (con s) \<longrightarrow> good (con s) (con (kstate (f tty s))))"

lemma drawsD: "draws f \<Longrightarrow> con_ok (con s) \<Longrightarrow> good (con s) (con (kstate (f tty s)))"
  by (simp add: draws_def)

lemma good_bindk:
  assumes "good c (con (kstate r))" "\<And>u s. r = Ok u s \<Longrightarrow> con_ok (con s) \<Longrightarrow> good (con s) (con (kstate (f u s)))"
  shows "good c (con (kstate (bindk r f)))"
proof (cases r)
  case (Ok u s)
  then have "good c (con s)" using assms(1) by simp
  then show ?thesis using good_trans[OF _ assms(2)[OF Ok good_ok]] Ok by simp
qed (use assms(1) in simp_all)

lemma good_con_char:
  assumes "draws ck" "con_ok (con s)"
  shows "good (con s) (con (kstate (con_char ck tty ch s)))"
proof -
  define s0 where "s0 = upd_con (\<lambda>c. c\<lparr>con_state := 0\<rparr>) s"
  have g0: "good (con s) (con s0)" using good_other(1)[OF assms(2)] by (simp add: s0_def)
  note ok0 = good_ok[OF g0]
  define s2 where "s2 = upd_con (\<lambda>c. c\<lparr>par := (\<lambda>k. if k < 16 then 0 else par c k), npar := 0, con_state := 3, ques := (ch = 0x3f)\<rparr>) s"
  have g2: "good (con s) (con s2)" using good_other(6)[OF assms(2)] by (simp add: s2_def)
  have r: "good (con s) (con (kstate (respond ck tty s0)))"
    unfolding respond_def by (rule good_trans[OF g0]) (use drawsD[OF assms(1)] ok0 in \<open>metis con_simps(3)\<close>)
  have one: "good (con s) (f (con s0))" if "\<And>c. con_ok c \<Longrightarrow> good c (f c)" for f
    by (rule good_trans[OF g0 that[OF ok0]])
  have "good (con s) (con (lf s0))" "\<And>ch. good (con s) (con (con_csi ch s0))" "\<And>ch. good (con s) (con (con_param ch s2))"
    using good_trans[OF g0 good_lf[OF ok0]] good_trans[OF g0 good_con_csi[OF ok0]] good_trans[OF g2 good_con_param[OF good_ok[OF g2]]] .
  moreover have "good (con s) (gotoxy 0 (con_y (con s0) + 1) (con s0))" "good (con s) (ri (con s0))" "good (con s) (save_cur (con s0))"
    "good (con s) (restore_cur (con s0))" "good (con s) ((con s0)\<lparr>con_state := 2\<rparr>)"
    unfolding restore_cur_def by (rule good_trans[OF g0]; intro good_gotoxy good_ri good_other ok0)+
  ultimately show ?thesis
    using r g0 g2 assms(2) good_con_plain[OF assms(2)] good_con_param[OF assms(2)]
    unfolding con_char_def Let_def s0_def[symmetric] s2_def[symmetric] by simp
qed

lemma good_con_loop:
  "draws ck \<Longrightarrow> con_ok (con s) \<Longrightarrow> good (con s) (con (kstate (con_loop n ck tty s)))"
proof (induction n arbitrary: s)
  case (Suc n)
  obtain ch q where g: "GETCH (write_q (tty_table s tty)) = (ch, q)" by fastforce
  define s1 where "s1 = upd_tty tty (\<lambda>t. t\<lparr>write_q := q\<rparr>) s"
  have "good (con s1) (con (kstate (con_char ck tty ch s1)))" using Suc.prems by (intro good_con_char) (simp_all add: s1_def)
  then have "good (con s) (con (kstate (bindk (con_char ck tty ch s1) (\<lambda>_ s. con_loop n ck tty s))))"
    using Suc.IH[OF Suc.prems(1)] by (intro good_bindk) (simp_all add: s1_def)
  then show ?case by (simp add: g s1_def)
qed simp

lemma draws_con_write_with: "draws ck \<Longrightarrow> draws (con_write_with ck)"
  unfolding draws_def[of "con_write_with ck"] con_write_with_def
  by (auto intro!: good_bindk good_con_loop)

lemma draws_kill_line: "draws wr \<Longrightarrow> draws (kill_line n wr)"
proof (induction n)
  case (Suc n)
  have e: "good (con s) (con (kstate (echo_erase wr tty ch s)))" if "con_ok (con s)" for tty ch and s :: "'a tty_state_scheme"
    unfolding echo_erase_def using drawsD[OF Suc.prems, of "put_write tty 127 (if sint ch < 32 then put_write tty 127 s else s)" tty] that
    by (auto split: if_splits)
  have k: "good (con s) (con (kstate (kill_line n wr tty (drop_last tty s))))" if "con_ok (con s)" for tty and s :: "'a tty_state_scheme"
    using drawsD[OF Suc.IH[OF Suc.prems], of "drop_last tty s" tty] that by simp
  show ?case unfolding draws_def by (auto intro!: good_bindk e k)
qed (simp add: draws_def)

lemma good_echo:
  assumes "draws wr" "con_ok (con s)"
  shows "good (con s) (con (kstate (echo_erase wr tty ch s)))" "good (con s) (con (kstate (echo_char wr tty ch s)))"
proof -
  have w: "good (con s) (con (kstate (wr tty u)))" if "con u = con s" for u
    using drawsD[OF assms(1), of u tty] assms(2) that by simp
  show "good (con s) (con (kstate (echo_erase wr tty ch s)))" unfolding echo_erase_def using assms(2) by (auto intro!: w)
  show "good (con s) (con (kstate (echo_char wr tty ch s)))" unfolding echo_char_def Let_def using assms(2) by (auto intro!: w)
qed

lemma good_cook_char:
  assumes "draws wr" "con_ok (con s)"
  shows "good (con s) (con (kstate (cook_char n wr tty ch s)))"
proof -
  have "good (con s) (con (kstate (kill_line n wr tty s)))" by (rule drawsD[OF draws_kill_line[OF assms(1)] assms(2)])
  moreover have "good (con s) (con (kstate (bindk (echo_erase wr tty x s) (\<lambda>_ s. Ok () (drop_last tty s)))))" for x
    by (rule good_bindk[OF good_echo(1)[OF assms]]) simp
  moreover have "good (con s) (con (kstate (bindk (echo_char wr tty ch u) (\<lambda>_ s.
      Ok () (upd_tty tty (\<lambda>t. t\<lparr>secondary := PUTCH ch (secondary t)\<rparr>) s)))))" if "con u = con s" for u
    using good_echo(2)[OF assms(1), of u tty ch] assms(2) that by (intro good_bindk) simp_all
  ultimately show ?thesis using assms(2) unfolding cook_char_def Let_def by (auto simp del: bindk.simps)
qed

lemma draws_cook_loop: "draws wr \<Longrightarrow> draws (cook_loop n wr)"
proof (induction n)
  case (Suc n)
  show ?case unfolding draws_def
  proof (intro allI impI)
    fix tty and s :: "'a tty_state_scheme" assume ok: "con_ok (con s)"
    obtain ch q where g: "GETCH (read_q (tty_table s tty)) = (ch, q)" by fastforce
    define s1 where "s1 = upd_tty tty (\<lambda>t. t\<lparr>read_q := q\<rparr>) s"
    have "good (con s) (con (kstate (case map_input tty ch s1 of None \<Rightarrow> Ok () s1 | Some ch \<Rightarrow> cook_char n wr tty ch s1)))"
      using good_cook_char[OF Suc.prems, of s1] ok by (simp add: s1_def split: option.split)
    then have "good (con s) (con (kstate (bindk (case map_input tty ch s1 of None \<Rightarrow> Ok () s1 | Some ch \<Rightarrow> cook_char n wr tty ch s1)
        (\<lambda>_ s. cook_loop n wr tty s))))"
      using drawsD[OF Suc.IH[OF Suc.prems]] by (intro good_bindk)
    then show "good (con s) (con (kstate (cook_loop (Suc n) wr tty s)))"
      unfolding cook_loop.simps Let_def g prod.case s1_def[symmetric] using ok by simp
  qed
qed (simp add: draws_def)

lemma draws_cooked: "draws wr \<Longrightarrow> draws (copy_to_cooked_with n wr)"
  unfolding draws_def[of "copy_to_cooked_with n wr"] copy_to_cooked_with_def
  by (auto intro!: good_bindk drawsD[OF draws_cook_loop])

lemma draws_tty_write: "draws (tty_write_fn n)"
proof (induction n)
  case (Suc n)
  show ?case unfolding draws_def
    using drawsD[OF draws_con_write_with[OF draws_cooked[OF Suc.IH]]] by auto
qed (simp add: draws_def)

text \<open>C24. The console driver. While the cursor, the scroll region and the window fit the geometry of the display, writing any bytes to
  the console (escape sequences, scrolling, the answer to a query with its nested echo) leaves them so, and changes
  no memory outside the video memory.\<close>

theorem con_write_in_video_memory:
  assumes "con_ok (con s)"
  shows "con_ok (con (kstate (con_write n tty s))) \<and>
    (\<forall>a. \<not> in_video (con s) a \<longrightarrow> vram (con (kstate (con_write n tty s))) a = vram (con s) a)"
proof -
  have "draws (con_write n)" unfolding con_write_def copy_to_cooked_def
    using draws_con_write_with[OF draws_cooked[OF draws_tty_write]] by (simp add: draws_def)
  then show ?thesis using drawsD[OF _ assms] unfolding good_def by blast
qed

subsection \<open>Initialisation\<close>

lemma con_init_inv:
  assumes "setup_byte 0x90007 s = 80" "setup_byte 0x90000 s \<le> 80" "setup_byte 0x90001 s < 25"
  shows "con_ok (con (con_init s))"
proof -
  define x where "x = setup_byte 0x90000 s"
  define y where "y = setup_byte 0x90001 s"
  have s: "setup_byte a (upd_con f u) = setup_byte a u" for a f and u :: "'a tty_state_scheme"
    by (simp add: setup_byte_def load_def upd_con_def)
  have xy: "unat x \<le> 80" "unat y < 25" using assms(2,3) by (simp_all add: x_def y_def word_le_nat_alt word_less_nat_alt)
  have p: "unat (st + y * 160 + x * 2) = unat st + 160 * unat y + 2 * unat x" if "unat st \<le> 0xb8000" for st :: u32
  proof -
    have "unat (y * 160) = unat y * 160" using xy by (subst unat_times) simp_all
    moreover have "unat (x * 2) = 2 * unat x" using xy by (intro unat_double) simp
    ultimately show ?thesis using xy that by (simp add: unat_plus)
  qed
  have n: "\<not> 80 < x" "\<not> 25 \<le> y" using assms(2,3) by (simp_all add: x_def y_def not_less not_le)
  show ?thesis
    by (simp add: con_init_def Let_def s assms(1) x_def[symmetric] y_def[symmetric] gotoxy_def n push_bit_eq_mult, intro conjI impI)
      (simp_all add: con_ok_def xy p)
qed

text \<open>\<open>con_init\<close> establishes the invariant of the console on an 80-column display of any type, provided the setup
  code reports a cursor on the screen.\<close>

theorem con_init_ok:
  assumes "setup_byte 0x90007 s = 80" "setup_byte 0x90000 s \<le> 80" "setup_byte 0x90001 s < 25"
  shows "con_ok (con (con_init s))"
  using assms by (rule con_init_inv)

subsection \<open>Saving the cursor\<close>

text \<open>The handlers of \<open>ESC 7\<close> and \<open>ESC 8\<close> test the column of the cursor instead of the character: outside columns
  55 and 56 both are ignored.\<close>

lemma esc_7_ignored:
  assumes "con_state (con s) = 1" "ch = 0x37 \<or> ch = 0x38" "con_x (con s) \<noteq> 0x37" "con_x (con s) \<noteq> 0x38"
  shows "con_char ck tty ch s = Ok () (upd_con (\<lambda>c. c\<lparr>con_state := 0\<rparr>) s)"
  using assms by (auto simp: con_char_def)

subsection \<open>Concrete instances\<close>

definition demo_tty :: tty_state where
  "demo_tty = con_init (tty_data (demo_fs\<lparr>phys := (\<lambda>_. 0)(0x90004 := 0x50030000)\<rparr>))"

theorem con_init_ok_witness:
  "setup_byte 0x90007 (tty_data (demo_fs\<lparr>phys := (\<lambda>_. 0)(0x90004 := 0x50030000)\<rparr>)) = 80 \<and> con_ok (con demo_tty)"
proof -
  let ?s = "tty_data (demo_fs\<lparr>phys := (\<lambda>_. 0)(0x90004 := 0x50030000)\<rparr>)"
  have "setup_byte 0x90007 ?s = 80" "setup_byte 0x90000 ?s \<le> 80" "setup_byte 0x90001 ?s < 25"
    by (simp_all add: setup_byte_def load_def tty_data_def fs_state.extend_def)
  then show ?thesis using con_init_ok[of ?s] by (simp add: demo_tty_def)
qed

lemma demo_tty_ok: "con_ok (con demo_tty)"
  unfolding demo_tty_def
  by (rule con_init_inv) (simp_all add: setup_byte_def load_def tty_data_def fs_state.extend_def)

theorem con_write_in_video_memory_witness:
  "con_ok (con demo_tty) \<and> con_ok (con (kstate (con_write 3 0 (put_write 0 0x41 demo_tty))))"
  using con_write_in_video_memory[of "put_write 0 0x41 demo_tty" 3 0] demo_tty_ok by simp

end
