(* ===== verification/Fs_Disk_Laws.thy ===== *)
theory Fs_Disk_Laws
  imports Fs_Namei Fs_Cache_Laws
begin

text \<open>
  What is on the disk. The bitmaps of a file system satisfy the interface \<open>bitmap\<close> of a first-fit allocator (a
  locale, interpreted on \<open>set_bit\<close>, \<open>clear_bit\<close> and \<open>find_first_zero\<close>), and \<open>new_block\<close> allocates the lowest free zone; an
  inode that \<open>write_inode\<close> stores through the cache is read back as it was written and never overlaps another; a directory entry matches exactly the name
  it was made for.
\<close>

subsection \<open>Bitmaps\<close>

locale bitmap =
  fixes test :: "nat \<Rightarrow> 'm \<Rightarrow> bool"
    and mark :: "nat \<Rightarrow> 'm \<Rightarrow> 'm"
    and unmark :: "nat \<Rightarrow> 'm \<Rightarrow> 'm"
    and first_free :: "'m \<Rightarrow> nat"
    and cap :: nat
  assumes test_mark: "test i (mark j m) \<longleftrightarrow> i = j \<or> test i m"
    and test_unmark: "test i (unmark j m) \<longleftrightarrow> i \<noteq> j \<and> test i m"
    and first_free_test: "first_free m < cap \<Longrightarrow> \<not> test (first_free m) m"
    and first_free_least: "i < first_free m \<Longrightarrow> test i m"
begin

lemma first_free_le: "\<not> test i m \<Longrightarrow> first_free m \<le> i"
  using first_free_least[of i m] by (meson not_le)

lemma alloc_free: "\<not> test i m \<Longrightarrow> test j (unmark i (mark i m)) = test j m"
  by (auto simp: test_mark test_unmark)

lemma free_alloc: "test i m \<Longrightarrow> test j (mark i (unmark i m)) = test j m"
  by (auto simp: test_mark test_unmark)

text \<open>Allocating twice gives two different bits, in increasing order.\<close>

lemma alloc_fresh: "first_free m < first_free (mark (first_free m) m) \<or> first_free (mark (first_free m) m) \<ge> cap"
proof (rule ccontr)
  let ?f = "first_free m" and ?m = "mark (first_free m) m"
  assume "\<not> ?thesis"
  then have l: "first_free ?m \<le> ?f" "first_free ?m < cap" by simp_all
  then have "\<not> test (first_free ?m) ?m" using first_free_test by simp
  then have "first_free ?m \<noteq> ?f" "\<not> test (first_free ?m) m" by (simp_all add: test_mark)
  then show False using l(1) first_free_le by fastforce
qed

end

lemma get_bit_set: "get_bit i (snd (set_bit j d)) \<longleftrightarrow> i = j \<or> get_bit i d"
proof -
  have "i = j \<longleftrightarrow> i div 8 = j div 8 \<and> i mod 8 = j mod 8" by (metis div_mult_mod_eq)
  then show ?thesis by (auto simp: get_bit_def set_bit_def bit_simps)
qed

lemma get_bit_clear: "get_bit i (snd (clear_bit j d)) \<longleftrightarrow> i \<noteq> j \<and> get_bit i d"
proof -
  have "i = j \<longleftrightarrow> i div 8 = j div 8 \<and> i mod 8 = j mod 8" by (metis div_mult_mod_eq)
  then show ?thesis by (auto simp: get_bit_def clear_bit_def bit_simps)
qed

lemma first_zero_from_least: "nr \<le> i \<Longrightarrow> i < first_zero_from n nr d \<Longrightarrow> get_bit i d"
proof (induction n arbitrary: nr)
  case (Suc n)
  then show ?case using Suc.IH[of "Suc nr"] by (cases "nr = i") (auto split: if_splits)
qed simp

lemma first_zero_from_clear: "first_zero_from n nr d < nr + n \<Longrightarrow> \<not> get_bit (first_zero_from n nr d) d"
  by (induction n arbitrary: nr) auto

interpretation bm: bitmap get_bit "\<lambda>i d. snd (set_bit i d)" "\<lambda>i d. snd (clear_bit i d)" find_first_zero 8192
proof unfold_locales
  fix i j d
  show "get_bit i (snd (set_bit j d)) \<longleftrightarrow> i = j \<or> get_bit i d" by (rule get_bit_set)
  show "get_bit i (snd (clear_bit j d)) \<longleftrightarrow> i \<noteq> j \<and> get_bit i d" by (rule get_bit_clear)
  show "find_first_zero d < 8192 \<Longrightarrow> \<not> get_bit (find_first_zero d) d"
    using first_zero_from_clear[of 8192 0 d] by (simp add: find_first_zero_def)
  show "i < find_first_zero d \<Longrightarrow> get_bit i d"
    using first_zero_from_least[of 0 i 8192 d] by (simp add: find_first_zero_def)
qed

subsection \<open>Zones\<close>

text \<open>Zone number \<open>nr\<close> of a file system (counted from \<open>s_firstdatazone - 1\<close>) is free when its bitmap block is present
  and the bit is clear.\<close>

definition zone_free :: "(nat \<Rightarrow> nat option) \<Rightarrow> (nat \<Rightarrow> buffer_head) \<Rightarrow> nat \<Rightarrow> bool" where
  "zone_free m bs nr \<longleftrightarrow> (\<exists>zb. m (nr div 8192) = Some zb \<and> \<not> get_bit (nr mod 8192) (b_data (bs zb)))"

lemma full_bitmap: "\<not> find_first_zero d < 8192 \<Longrightarrow> get_bit (nr mod 8192) d"
  using bm.first_free_least[of "nr mod 8192" d] mod_less_divisor[of 8192 nr] by linarith

lemma scan_bitmaps_Some:
  assumes "scan_bitmaps [k..<n] m bs = Some (i, zb, j)"
  shows "m i = Some zb \<and> k \<le> i \<and> i < n \<and> j < 8192 \<and> zone_free m bs (8192 * i + j) \<and>
    (\<forall>nr. k \<le> nr div 8192 \<and> nr < 8192 * i + j \<longrightarrow> \<not> zone_free m bs nr)"
  using assms
proof (induction "n - k" arbitrary: k)
  case (Suc l)
  then have kn: "[k..<n] = k # [Suc k..<n]" by (simp add: upt_rec)
  have later: "?case" if "scan_bitmaps [Suc k..<n] m bs = Some (i, zb, j)" "\<And>nr. nr div 8192 = k \<Longrightarrow> \<not> zone_free m bs nr"
  proof -
    have "l = n - Suc k" using Suc.hyps(2) by simp
    from Suc.hyps(1)[OF this that(1)] have ih: "m i = Some zb \<and> Suc k \<le> i \<and> i < n \<and> j < 8192 \<and> zone_free m bs (8192 * i + j) \<and>
      (\<forall>nr. Suc k \<le> nr div 8192 \<and> nr < 8192 * i + j \<longrightarrow> \<not> zone_free m bs nr)" .
    have "\<not> zone_free m bs nr" if "k \<le> nr div 8192" "nr < 8192 * i + j" for nr
      using ih that \<open>\<And>nr. nr div 8192 = k \<Longrightarrow> \<not> zone_free m bs nr\<close>[of nr] by (cases "nr div 8192 = k") auto
    with ih show ?thesis by simp
  qed
  show ?case
  proof (cases "m k")
    case None
    then show ?thesis using Suc.prems kn by (intro later) (auto simp: zone_free_def)
  next
    case (Some b)
    let ?j = "find_first_zero (b_data (bs b))"
    show ?thesis
    proof (cases "?j < 8192")
      case True
      have "\<not> zone_free m bs nr" if "k \<le> nr div 8192" "nr < 8192 * k + ?j" for nr
      proof -
        have "nr < 8192 * Suc k" using that True by simp
        then have "nr div 8192 < Suc k" by (simp only: less_mult_imp_div_less mult.commute)
        then have k: "nr div 8192 = k" using that(1) by simp
        then have "nr mod 8192 < ?j" using that(2) div_mult_mod_eq[of nr 8192] by linarith
        note k this
        with bm.first_free_least show ?thesis using Some by (auto simp: zone_free_def)
      qed
      moreover have "zone_free m bs (8192 * k + ?j)" using True Some bm.first_free_test by (auto simp: zone_free_def)
      ultimately show ?thesis using Suc.prems Suc.hyps(2) kn Some True by (auto simp: Let_def)
    next
      case False
      have "\<not> zone_free m bs nr" if "nr div 8192 = k" for nr
        using that Some full_bitmap[OF False, of nr] by (simp add: zone_free_def)
      then show ?thesis using Suc.prems kn Some False by (intro later) (auto simp: Let_def)
    qed
  qed
qed simp

lemma scan_bitmaps_finds:
  assumes "zone_free m bs nr" "nr < 65536" shows "scan_bitmaps [0..<8] m bs \<noteq> None"
proof -
  have "scan_bitmaps is m bs = None \<Longrightarrow> nr div 8192 \<notin> set is" for "is"
    using assms(1) by (induction "is") (auto simp: zone_free_def Let_def full_bitmap split: option.splits if_splits)
  moreover have "nr div 8192 \<in> set [0..<8]" using assms(2) by simp
  ultimately show ?thesis by blast
qed

text \<open>Steps that do not wait.\<close>

lemma get_super_quiet:
  assumes "dev \<noteq> 0" "find_super dev s = Some sb" "s_lock (super_blocks s sb) = 0" "0 < fuel w"
  shows "get_super dev w s = Ok (Some sb, w) s"
proof -
  obtain n where n: "fuel w = Suc n" using assms(4) by (cases "fuel w") auto
  have d: "s_dev (super_blocks s sb) = dev" using assms(2) by (auto simp: find_super_def find_Some_iff)
  have w: "wait_on_super sb w s = Ok ((), w) s" unfolding wait_on_super_def
    by (rule wait_not_needed) (use assms in auto)
  show ?thesis using assms(1,2) d
    by (simp add: get_super_def fuelp_def n bindp_def getp_def seqp_def w ifp_def retp_def)
qed

lemma brelse_quiet:
  assumes "b_lock (bufs s bh) = 0" "b_count (bufs s bh) \<noteq> 0" "0 < fuel w"
  shows "brelse (Some bh) w s = Ok ((), w) (wake_up (Some WBufferWait) (upd_buf bh (\<lambda>b. b\<lparr>b_count := b_count b - 1\<rparr>) s))"
proof -
  have w: "wait_on_buffer bh w s = Ok ((), w) s" unfolding wait_on_buffer_def
    by (rule wait_not_needed) (use assms in auto)
  show ?thesis using assms(2) by (simp add: brelse_def seqp_def bindp_def w getp_def modp_def)
qed

lemma getblk_unused:
  assumes "cache_inv N s" "0 < fuel w" "\<And>b. b < N \<Longrightarrow> b_lock (bufs s b) = 0"
    "\<exists>b<N. b_count (bufs s b) = 0 \<and> b_dirt (bufs s b) = 0"
    "\<And>b. b < N \<Longrightarrow> b_dev (bufs s b) = dev \<Longrightarrow> b_blocknr (bufs s b) = block \<Longrightarrow> b_count (bufs s b) = 0" "dev \<noteq> 0"
  shows "\<exists>bh s'. getblk dev block w s = Ok (bh, w) s' \<and> b_count (bufs s bh) = 0 \<and> b_count (bufs s' bh) = 1 \<and>
    b_lock (bufs s' bh) = 0 \<and> b_dev (bufs s' bh) = dev \<and> b_blocknr (bufs s' bh) = block \<and>
    (\<forall>c. c \<noteq> bh \<longrightarrow> contents (bufs s' c) = contents (bufs s c))"
proof -
  have f: "b < N \<and> b_dev (bufs s b) = dev \<and> b_blocknr (bufs s b) = block" if "find_buffer dev block s = Some b" for b
    using that assms(1,6) by (auto simp: find_buffer_iff)
  have "case find_buffer dev block s of Some b \<Rightarrow> b_lock (bufs s b) = 0
     | None \<Rightarrow> (\<exists>b<N. b_count (bufs s b) = 0 \<and> b_dirt (bufs s b) = 0 \<and> b_lock (bufs s b) = 0)"
    using f assms(3,4) by (auto split: option.split)
  from getblk_quiet[OF assms(1,2) this] obtain bh s' where g: "getblk dev block w s = Ok (bh, w) s'"
    "case find_buffer dev block s of
       Some b \<Rightarrow> bh = b \<and> s' = upd_buf b (\<lambda>h. h\<lparr>b_count := b_count h + 1\<rparr>) s
     | None \<Rightarrow> b_count (bufs s bh) = 0 \<and> b_dirt (bufs s bh) = 0 \<and>
         contents (bufs s' bh) = (b_data (bufs s bh), block, dev, 0, 0, 1, 0) \<and>
         (\<forall>c. c \<noteq> bh \<longrightarrow> contents (bufs s' c) = contents (bufs s c))" by blast
  show ?thesis
  proof (cases "find_buffer dev block s")
    case None
    then show ?thesis using g by (intro exI[of _ bh] exI[of _ s']) (simp add: contents_def)
  next
    case (Some b)
    then show ?thesis using g f[OF Some] assms(3,5)[of b] by (intro exI[of _ bh] exI[of _ s']) (auto simp: upd_buf_def contents_def)
  qed
qed

lemma new_block_steps:
  assumes gs: "get_super dev w s = Ok (Some sb, w) s"
    and sc: "scan_bitmaps [0..<8] (s_zmap (super_blocks s sb)) (bufs s) = Some (i, zb, j)"
    and bit: "\<not> get_bit j (b_data (bufs s zb))"
    and s1: "s1 = upd_buf zb (\<lambda>b. b\<lparr>b_data := snd (set_bit j (b_data b)), b_dirt := 1\<rparr>) s"
    and z: "int j + int i * 8192 + uint (s_firstdatazone (super_blocks s sb)) - 1 = int z"
    and small: "z < unat (s_nzones (super_blocks s sb))"
    and g: "getblk dev (of_nat z) w s1 = Ok (bh, w) s2" "b_count (bufs s2 bh) = 1" "b_lock (bufs s2 bh) = 0" "0 < fuel w"
  shows "new_block dev w s = Ok (of_nat z, w) (wake_up (Some WBufferWait) (upd_buf bh (\<lambda>b. b\<lparr>b_count := b_count b - 1\<rparr>)
    (upd_buf bh (\<lambda>b. b\<lparr>b_uptodate := 1, b_dirt := 1\<rparr>) (clear_block bh s2))))"
proof -
  let ?s3 = "upd_buf bh (\<lambda>b. b\<lparr>b_uptodate := 1, b_dirt := 1\<rparr>) (clear_block bh s2)"
  have br: "brelse (Some bh) w ?s3 = Ok ((), w) (wake_up (Some WBufferWait) (upd_buf bh (\<lambda>b. b\<lparr>b_count := b_count b - 1\<rparr>) ?s3))"
    by (rule brelse_quiet) (use g in \<open>auto simp: clear_block_def upd_buf_def\<close>)
  have u: "upd_buf zb (\<lambda>b. b\<lparr>b_dirt := 1\<rparr>) (upd_buf zb (\<lambda>b. b\<lparr>b_data := snd (set_bit j (b_data b))\<rparr>) s) = s1"
    by (simp add: s1 upd_buf_def)
  have sb1: "super_blocks s1 = super_blocks s" by (simp add: s1 upd_buf_def)
  have f: "fst (set_bit j (b_data (bufs s zb))) = False" using bit by (simp add: set_bit_def)
  have nzi: "uint (s_nzones (super_blocks s sb)) = int (unat (s_nzones (super_blocks s sb)))" by simp
  have w32: "of_nat j + of_nat i * 8192 + ucast (s_firstdatazone (super_blocks s sb)) - 1 = (of_nat z :: u32)"
    using arg_cong[OF z, of "word_of_int :: int \<Rightarrow> u32"] by simp
  have w16: "of_nat j + of_nat i * 8192 + s_firstdatazone (super_blocks s sb) - 1 = of_nat z"
    using arg_cong[OF z, of "word_of_int :: int \<Rightarrow> u16"] by simp
  have le: "\<not> uint (s_nzones (super_blocks s sb)) < int j + int i * 8192 + uint (s_firstdatazone (super_blocks s sb))"
    using z small nzi by linarith
  show ?thesis unfolding new_block_def
    by (simp add: bindp_def seqp_def gs getp_def sc f modp_def u sb1 ifp_def retp_def le w32 w16 g(1,2) br del: bindk_eq_Ok_iff)
qed

text \<open>A file system at rest: its super block is unlocked, its bitmap blocks are held and all different, no buffer is
  locked, none of its data blocks is in use and there is a clean unused buffer.\<close>

definition fs_rests :: "nat \<Rightarrow> u16 \<Rightarrow> nat \<Rightarrow> 'z fs_state_scheme \<Rightarrow> bool" where
  "fs_rests N dev sb s \<longleftrightarrow>
     dev \<noteq> 0 \<and> cache_inv N s \<and> find_super dev s = Some sb \<and> s_lock (super_blocks s sb) = 0 \<and>
     0 < s_firstdatazone (super_blocks s sb) \<and>
     (\<forall>i zb. s_zmap (super_blocks s sb) i = Some zb \<longrightarrow> zb < N \<and> b_count (bufs s zb) \<noteq> 0 \<and>
        (\<forall>k. s_zmap (super_blocks s sb) k = Some zb \<longrightarrow> k = i)) \<and>
     (\<forall>b<N. b_lock (bufs s b) = 0 \<and>
        (b_dev (bufs s b) = dev \<and> ucast (s_firstdatazone (super_blocks s sb)) \<le> b_blocknr (bufs s b) \<longrightarrow> b_count (bufs s b) = 0)) \<and>
     (\<exists>b<N. b_count (bufs s b) = 0 \<and> b_dirt (bufs s b) = 0)"

lemma new_block_first_fit:
  assumes r: "fs_rests N dev sb s" and w: "0 < fuel w"
    and z: "zone_free (s_zmap (super_blocks s sb)) (bufs s) nr"
      "nr + unat (s_firstdatazone (super_blocks s sb)) \<le> unat (s_nzones (super_blocks s sb))" "nr \<noteq> 0"
    and z0: "\<not> zone_free (s_zmap (super_blocks s sb)) (bufs s) 0"
  shows "\<exists>k s' bh. new_block dev w s = Ok (of_nat (k + unat (s_firstdatazone (super_blocks s sb)) - 1), w) s' \<and> k \<le> nr \<and>
    zone_free (s_zmap (super_blocks s sb)) (bufs s) k \<and>
    (\<forall>l<k. \<not> zone_free (s_zmap (super_blocks s sb)) (bufs s) l) \<and>
    (\<forall>l. zone_free (s_zmap (super_blocks s sb)) (bufs s') l \<longleftrightarrow> l \<noteq> k \<and> zone_free (s_zmap (super_blocks s sb)) (bufs s) l) \<and>
    b_dev (bufs s' bh) = dev \<and> b_blocknr (bufs s' bh) = of_nat (k + unat (s_firstdatazone (super_blocks s sb)) - 1) \<and>
    b_uptodate (bufs s' bh) = 1 \<and> b_dirt (bufs s' bh) = 1 \<and> b_count (bufs s' bh) = 0 \<and>
    (\<forall>i<1024. b_data (bufs s' bh) i = 0)"
proof -
  define m where "m = s_zmap (super_blocks s sb)"
  define fd where "fd = unat (s_firstdatazone (super_blocks s sb))"
  define nz where "nz = unat (s_nzones (super_blocks s sb))"
  note r' = r[unfolded fs_rests_def, folded m_def]
  have nz: "nz < 65536" using unsigned_less[of "s_nzones (super_blocks s sb)", where ?'a = nat] by (simp add: nz_def)
  have fd: "0 < fd" using r' by (auto simp: fd_def word_less_nat_alt)
  have "nr < 65536" using z(2) nz by (simp add: nz_def)
  then obtain i zb j where sc: "scan_bitmaps [0..<8] m (bufs s) = Some (i, zb, j)"
    using scan_bitmaps_finds[OF z(1)[folded m_def]] by (cases "scan_bitmaps [0..<8] m (bufs s)") auto
  define k where "k = 8192 * i + j"
  have k: "m i = Some zb" "j < 8192" "zone_free m (bufs s) k" "\<forall>l<k. \<not> zone_free m (bufs s) l"
    using scan_bitmaps_Some[OF sc] by (auto simp: k_def)
  have kd: "k div 8192 = i" "k mod 8192 = j" using k(2) by (simp_all add: k_def)
  have bit: "\<not> get_bit j (b_data (bufs s zb))" using k(1,3) kd by (auto simp: zone_free_def)
  have kn: "k \<le> nr" using k(4) z(1) m_def by (meson not_le)
  have k0: "0 < k" using k(3) z0 m_def by (cases k) auto
  have kz: "k + fd - 1 < nz" using kn z(2) k0 fd by (simp add: fd_def nz_def)
  define s1 where "s1 = upd_buf zb (\<lambda>b. b\<lparr>b_data := snd (set_bit j (b_data b)), b_dirt := 1\<rparr>) s"
  have zb: "b_count (bufs s zb) \<noteq> 0" using r' k(1) by blast
  have b1: "b_count (bufs s1 b) = b_count (bufs s b)" "b_dev (bufs s1 b) = b_dev (bufs s b)"
    "b_blocknr (bufs s1 b) = b_blocknr (bufs s b)" "b_lock (bufs s1 b) = b_lock (bufs s b)" for b
    by (simp_all add: s1_def upd_buf_def)
  have c1: "cache_inv N s1" using r' by (simp add: s1_def qfields_def)
  define blk :: u32 where "blk = word_of_int (int j + int i * 8192 + uint (s_firstdatazone (super_blocks s sb)) - 1)"
  have jk: "int j + int i * 8192 + uint (s_firstdatazone (super_blocks s sb)) - 1 = int (k + fd - 1)"
  proof -
    have "uint (s_firstdatazone (super_blocks s sb)) = int fd" unfolding fd_def by simp
    moreover have "int k = 8192 * int i + int j" by (simp add: k_def)
    ultimately show ?thesis using k0 by (simp add: of_nat_diff)
  qed
  have blk: "blk = of_nat (k + fd - 1)" "unat blk = k + fd - 1"
    using kz nz by (simp_all only: blk_def jk of_int_of_nat_eq unat_of_nat) (simp_all add: take_bit_nat_eq_self)
  have data: "ucast (s_firstdatazone (super_blocks s sb)) \<le> blk"
    using k0 by (simp add: word_le_nat_alt blk(2) fd_def[symmetric] unsigned_ucast_eq, intro le_trans[OF take_bit_nat_less_eq_self], simp)
  obtain bh s2 where g: "getblk dev blk w s1 = Ok (bh, w) s2" "b_count (bufs s1 bh) = 0" "b_count (bufs s2 bh) = 1"
    "b_lock (bufs s2 bh) = 0" "b_dev (bufs s2 bh) = dev" "b_blocknr (bufs s2 bh) = blk"
    "\<forall>c. c \<noteq> bh \<longrightarrow> contents (bufs s2 c) = contents (bufs s1 c)"
  proof -
    have "\<exists>b<N. b_count (bufs s1 b) = 0 \<and> b_dirt (bufs s1 b) = 0"
    proof -
      obtain b where "b < N" "b_count (bufs s b) = 0" "b_dirt (bufs s b) = 0" using r' by blast
      then show ?thesis using zb by (intro exI[of _ b]) (auto simp: s1_def upd_buf_def)
    qed
    moreover have "b_count (bufs s1 b) = 0" if "b < N" "b_dev (bufs s1 b) = dev" "b_blocknr (bufs s1 b) = blk" for b
      using that r' data b1 by simp
    ultimately show thesis using getblk_unused[OF c1 w, of dev blk] r' b1(4) that by auto
  qed
  define s3 where "s3 = upd_buf bh (\<lambda>b. b\<lparr>b_uptodate := 1, b_dirt := 1\<rparr>) (clear_block bh s2)"
  define s4 where "s4 = wake_up (Some WBufferWait) (upd_buf bh (\<lambda>b. b\<lparr>b_count := b_count b - 1\<rparr>) s3)"
  have nb: "new_block dev w s = Ok (of_nat (k + fd - 1), w) s4" unfolding s4_def s3_def
    by (rule new_block_steps[OF _ sc[unfolded m_def] bit s1_def jk _ g(1)[unfolded blk(1)] g(3,4) w])
      (use get_super_quiet[of dev s sb w] r' w kz in \<open>auto simp: nz_def\<close>)
  have d4: "b_data (bufs s4 c) = b_data (bufs s1 c)" if "m l = Some c" for l c
  proof -
    have "c \<noteq> bh" using that g(2) b1(1) r' by force
    moreover from this have "contents (bufs s2 c) = contents (bufs s1 c)" using g(7) by simp
    ultimately show ?thesis by (simp add: s4_def s3_def clear_block_def upd_buf_def contents_def)
  qed
  have zf: "zone_free m (bufs s4) l \<longleftrightarrow> l \<noteq> k \<and> zone_free m (bufs s) l" for l
  proof (cases "m (l div 8192)")
    case (Some c)
    have "c = zb \<longleftrightarrow> l div 8192 = i" using Some k(1) r' by auto
    moreover have "l = k \<longleftrightarrow> l div 8192 = i \<and> l mod 8192 = j" using kd by (metis div_mult_mod_eq)
    ultimately show ?thesis using Some d4[OF Some] by (auto simp: zone_free_def s1_def upd_buf_def get_bit_set)
  qed (simp add: zone_free_def)
  have bh4: "b_dev (bufs s4 bh) = dev" "b_blocknr (bufs s4 bh) = of_nat (k + fd - 1)" "b_uptodate (bufs s4 bh) = 1"
    "b_dirt (bufs s4 bh) = 1" "b_count (bufs s4 bh) = 0" "\<forall>i<1024. b_data (bufs s4 bh) i = 0"
    using g(3,5,6) blk(1) by (simp_all add: s4_def s3_def clear_block_def upd_buf_def)
  show ?thesis unfolding m_def[symmetric] fd_def[symmetric]
    by (rule exI[of _ k], rule exI[of _ s4], rule exI[of _ bh]) (use nb kn k(3,4) zf bh4 in blast)
qed

subsection \<open>Inodes\<close>

lemma put_zones_get: "k < n \<Longrightarrow> get_u16 (put_zones n z a d) (a + 2 * k) = z k"
  by (induction n) (auto simp: get_put_u16 get_put_u16_other less_Suc_eq)

lemma put_zones_other: "x < a \<or> a + 2 * n \<le> x \<Longrightarrow> put_zones n z a d x = d x"
  by (induction n) (auto simp: put_u16_def)

lemma put_u16_other: "x < a \<or> a + 1 < x \<Longrightarrow> put_u16 a v d x = d x"
  by (auto simp: put_u16_def)

lemma put_u32_other: "x < a \<or> a + 3 < x \<Longrightarrow> put_u32 a v d x = d x"
  by (auto simp: put_u32_def put_u16_other)

lemma get_u16_cong: "d a = e a \<Longrightarrow> d (a + 1) = e (a + 1) \<Longrightarrow> get_u16 d a = get_u16 e a"
  by (simp add: get_u16_def)

lemma get_u32_cong: "(\<And>i. i < 4 \<Longrightarrow> d (a + i) = e (a + i)) \<Longrightarrow> get_u32 d a = get_u32 e a"
proof -
  assume e: "\<And>i. i < 4 \<Longrightarrow> d (a + i) = e (a + i)"
  have "get_u16 d a = get_u16 e a" using e[of 0] e[of 1] by (intro get_u16_cong) simp_all
  moreover have "get_u16 d (a + 2) = get_u16 e (a + 2)"
    using e[of 2] e[of 3] by (intro get_u16_cong) (simp_all add: numeral_3_eq_3)
  ultimately show ?thesis by (simp add: get_u32_def)
qed

lemma encode_inode_other: "x < a \<or> a + 32 \<le> x \<Longrightarrow> encode_inode n a d x = d x"
  by (auto simp: encode_inode_def put_zones_other put_u32_other put_u16_other)

lemma decode_encode:
  "decode_inode (encode_inode n a d) a p = p\<lparr>i_mode := i_mode n, i_uid := i_uid n, i_size := i_size n, i_mtime := i_mtime n,
     i_gid := i_gid n, i_nlinks := i_nlinks n, i_zone := (\<lambda>k. if k < 9 then i_zone n k else i_zone p k)\<rparr>"
proof -
  let ?h = "put_u32 (a + 8) (i_mtime n) (put_u32 (a + 4) (i_size n) (put_u16 (a + 2) (i_uid n) (put_u16 a (i_mode n) d)))"
  have e: "encode_inode n a d x = (?h(a + 12 := i_gid n, a + 13 := i_nlinks n)) x" if "x < a + 14" for x
    using that by (simp add: encode_inode_def put_zones_other)
  have "get_u16 (encode_inode n a d) a = get_u16 (put_u16 a (i_mode n) d) a"
    by (rule get_u16_cong) (simp_all add: e put_u32_other put_u16_other)
  moreover have "get_u16 (encode_inode n a d) (a + 2) = get_u16 (put_u16 (a + 2) (i_uid n) (put_u16 a (i_mode n) d)) (a + 2)"
    by (rule get_u16_cong) (simp_all add: e put_u32_other)
  moreover have "get_u32 (encode_inode n a d) (a + 4) =
      get_u32 (put_u32 (a + 4) (i_size n) (put_u16 (a + 2) (i_uid n) (put_u16 a (i_mode n) d))) (a + 4)"
    by (rule get_u32_cong) (simp add: e put_u32_other)
  moreover have "get_u32 (encode_inode n a d) (a + 8) = get_u32 ?h (a + 8)"
    by (rule get_u32_cong) (simp add: e)
  moreover have "encode_inode n a d (a + 12) = i_gid n" "encode_inode n a d (a + 13) = i_nlinks n"
    by (simp_all add: e)
  moreover have "get_u16 (encode_inode n a d) (a + 14 + 2 * k) = i_zone n k" if "k < 9" for k
    unfolding encode_inode_def by (rule put_zones_get[OF that])
  ultimately show ?thesis unfolding decode_inode_def by (simp add: get_put_u16 get_put_u32 cong: if_cong)
qed

subsection \<open>Inodes through the cache\<close>

lemma wake_up_tables [simp]: "inode_table (wake_up q s) = inode_table s" "super_blocks (wake_up q s) = super_blocks s"
  by (simp_all add: wake_up_def upd_task_def split: option.split)

lemma upd_tables [simp]:
  "inode_table (upd_buf b f s) = inode_table s" "super_blocks (upd_buf b f s) = super_blocks s"
  "bufs (upd_inode i g s) = bufs s" "super_blocks (upd_inode i g s) = super_blocks s"
  by (simp_all add: upd_buf_def upd_inode_def)

text \<open>A block that is in the cache is read without waiting.\<close>

lemma bread_cached:
  assumes "cache_inv N s" "dev \<noteq> 0" "bh < N" "b_dev (bufs s bh) = dev" "b_blocknr (bufs s bh) = block" "b_uptodate (bufs s bh) \<noteq> 0"
    "b_lock (bufs s bh) = 0" "0 < fuel w"
  shows "bread dev block w s = Ok (Some bh, w) (upd_buf bh (\<lambda>b. b\<lparr>b_count := b_count b + 1\<rparr>) s)"
proof -
  have f: "find_buffer dev block s = Some bh" using assms by (simp add: find_buffer_iff)
  then have "getblk dev block w s = Ok (bh, w) (upd_buf bh (\<lambda>b. b\<lparr>b_count := b_count b + 1\<rparr>) s)"
    using getblk_quiet[OF assms(1,8), of dev block] assms(7) by auto
  then show ?thesis using assms(6) by (simp add: bread_def bread_with_def bindp_def ifp_def retp_def upd_buf_def)
qed

lemma lock_inode_free:
  assumes "i_lock (inode_table s i) = 0" "0 < fuel w"
  shows "lock_inode i w s = Ok ((), w) (upd_inode i (\<lambda>n. n\<lparr>i_lock := 1\<rparr>) s)"
proof -
  have "wait_while (\<lambda>s. i_lock (inode_table s i) \<noteq> 0) (WInode i) w s = Ok ((), w) s" by (rule wait_not_needed) (use assms in auto)
  then show ?thesis by (simp add: lock_inode_def seqp_def bindp_def modp_def)
qed

text \<open>Where an inode is: its block is cached as buffer \<open>bh\<close>, up to date, and nothing is locked.\<close>

definition inode_cached :: "nat \<Rightarrow> u16 \<Rightarrow> nat \<Rightarrow> nat \<Rightarrow> u16 \<Rightarrow> 'z fs_state_scheme \<Rightarrow> bool" where
  "inode_cached N dev sb bh nr s \<longleftrightarrow>
     cache_inv N s \<and> dev \<noteq> 0 \<and> find_super dev s = Some sb \<and> s_lock (super_blocks s sb) = 0 \<and> bh < N \<and> b_dev (bufs s bh) = dev \<and>
     b_blocknr (bufs s bh) = 2 + ucast (s_imap_blocks (super_blocks s sb)) + ucast (s_zmap_blocks (super_blocks s sb)) + (ucast nr - 1) div 32 \<and>
     b_uptodate (bufs s bh) \<noteq> 0 \<and> b_lock (bufs s bh) = 0 \<and> b_count (bufs s bh) + 1 \<noteq> 0"

lemma inode_cached_steps:
  assumes "inode_cached N dev sb bh nr s" "0 < fuel w" "i_num n = nr"
  shows "get_super dev w (upd_inode i f s) = Ok (Some sb, w) (upd_inode i f s)"
    "bread dev (inode_block (super_blocks s sb) n) w (upd_inode i f s) = Ok (Some bh, w) (upd_buf bh (\<lambda>b. b\<lparr>b_count := b_count b + 1\<rparr>) (upd_inode i f s))"
proof -
  note a = assms(1)[unfolded inode_cached_def]
  have "find_super dev (upd_inode i f s) = Some sb" using a by (simp add: find_super_def)
  then show "get_super dev w (upd_inode i f s) = Ok (Some sb, w) (upd_inode i f s)" by (rule get_super_quiet[rotated]) (use a assms(2) in simp_all)
  have "cache_inv N (upd_inode i f s)" using a by simp
  then show "bread dev (inode_block (super_blocks s sb) n) w (upd_inode i f s) =
      Ok (Some bh, w) (upd_buf bh (\<lambda>b. b\<lparr>b_count := b_count b + 1\<rparr>) (upd_inode i f s))"
    by (rule bread_cached) (use a assms(2,3) in \<open>simp_all add: inode_block_def\<close>)
qed

lemma write_inode_cached:
  assumes c: "inode_cached N dev sb bh (i_num (inode_table s i)) s" and w: "0 < fuel w"
    and i: "i_lock (inode_table s i) = 0" "i_dirt (inode_table s i) \<noteq> 0" "i_dev (inode_table s i) = dev"
  shows "\<exists>s1. write_inode i w s = Ok ((), w) s1 \<and> cache_inv N s1 \<and> super_blocks s1 = super_blocks s \<and>
    bufs s1 = (bufs s)(bh := (bufs s bh)\<lparr>b_data := encode_inode (inode_table s i) (inode_offset (inode_table s i)) (b_data (bufs s bh)), b_dirt := 1\<rparr>) \<and>
    inode_table s1 = (inode_table s)(i := (inode_table s i)\<lparr>i_dirt := 0\<rparr>)"
proof -
  let ?n = "inode_table s i" and ?sa = "upd_inode i (\<lambda>n. n\<lparr>i_lock := 1\<rparr>) s"
  note a = c[unfolded inode_cached_def]
  define sb1 where "sb1 = upd_inode i (\<lambda>n. n\<lparr>i_dirt := 0\<rparr>) (upd_buf bh (\<lambda>b. b\<lparr>b_dirt := 1\<rparr>)
     (upd_buf bh (\<lambda>b. b\<lparr>b_data := encode_inode (?n\<lparr>i_lock := 1\<rparr>) (inode_offset (?n\<lparr>i_lock := 1\<rparr>)) (b_data b)\<rparr>)
       (upd_buf bh (\<lambda>b. b\<lparr>b_count := b_count b + 1\<rparr>) ?sa)))"
  define s1 where "s1 = unlock_inode i (wake_up (Some WBufferWait) (upd_buf bh (\<lambda>b. b\<lparr>b_count := b_count b - 1\<rparr>) sb1))"
  have e: "encode_inode (?n\<lparr>i_lock := 1\<rparr>) = encode_inode ?n" "inode_offset (?n\<lparr>i_lock := 1\<rparr>) = inode_offset ?n" "inode_block sbk (?n\<lparr>i_lock := 1\<rparr>) = inode_block sbk ?n"
    for sbk by (simp_all add: encode_inode_def inode_offset_def inode_block_def fun_eq_iff)
  have br: "brelse (Some bh) w sb1 = Ok ((), w) (wake_up (Some WBufferWait) (upd_buf bh (\<lambda>b. b\<lparr>b_count := b_count b - 1\<rparr>) sb1))"
    by (rule brelse_quiet) (use a w in \<open>simp_all add: sb1_def\<close>, simp_all add: upd_buf_def)
  have it: "inode_table ?sa i = ?n\<lparr>i_lock := 1\<rparr>" by (simp add: upd_inode_def)
  note st = inode_cached_steps[OF c w refl, of i "\<lambda>n. n\<lparr>i_lock := 1\<rparr>"]
  have "write_inode i w s = Ok ((), w) s1"
    using i a by (simp add: write_inode_def write_inode_with_def seqp_def bindp_def lock_inode_free[OF i(1) w] ifp_def it getp_def e st modp_def
        br[unfolded sb1_def e] s1_def sb1_def del: bindk_eq_Ok_iff)
  moreover have "cache_inv N s1" using a by (simp add: s1_def sb1_def)
  moreover have "super_blocks s1 = super_blocks s" by (simp add: s1_def sb1_def unlock_inode_def)
  moreover have "bufs s1 = (bufs s)(bh := (bufs s bh)\<lparr>b_data := encode_inode ?n (inode_offset ?n) (b_data (bufs s bh)), b_dirt := 1\<rparr>)"
    by (simp add: s1_def sb1_def unlock_inode_def e) (simp add: upd_buf_def)
  moreover have "inode_table s1 = (inode_table s)(i := ?n\<lparr>i_dirt := 0\<rparr>)"
    using i(1) by (simp add: s1_def sb1_def unlock_inode_def)
      (simp add: upd_inode_def, rule arg_cong[where f = "\<lambda>x. (inode_table s)(i := x)"], rule m_inode.equality; simp)
  ultimately show ?thesis by blast
qed

lemma read_inode_cached:
  assumes c: "inode_cached N dev sb bh (i_num (inode_table s i)) s" and w: "0 < fuel w"
    and i: "i_lock (inode_table s i) = 0" "i_dev (inode_table s i) = dev"
  shows "\<exists>s1. read_inode i w s = Ok ((), w) s1 \<and> bufs s1 = bufs s \<and>
    inode_table s1 = (inode_table s)(i := decode_inode (b_data (bufs s bh)) (inode_offset (inode_table s i)) (inode_table s i))"
proof -
  let ?n = "inode_table s i" and ?sa = "upd_inode i (\<lambda>n. n\<lparr>i_lock := 1\<rparr>) s"
  note a = c[unfolded inode_cached_def]
  let ?d = "decode_inode (b_data (bufs s bh)) (inode_offset ?n)"
  define sb1 where "sb1 = upd_inode i (\<lambda>n. decode_inode (b_data (bufs s bh)) (inode_offset n) n) (upd_buf bh (\<lambda>b. b\<lparr>b_count := b_count b + 1\<rparr>) ?sa)"
  define s1 where "s1 = unlock_inode i (wake_up (Some WBufferWait) (upd_buf bh (\<lambda>b. b\<lparr>b_count := b_count b - 1\<rparr>) sb1))"
  have e: "inode_offset (?n\<lparr>i_lock := 1\<rparr>) = inode_offset ?n" "inode_block sbk (?n\<lparr>i_lock := 1\<rparr>) = inode_block sbk ?n"
    for sbk by (simp_all add: inode_offset_def inode_block_def)
  have br: "brelse (Some bh) w sb1 = Ok ((), w) (wake_up (Some WBufferWait) (upd_buf bh (\<lambda>b. b\<lparr>b_count := b_count b - 1\<rparr>) sb1))"
    by (rule brelse_quiet) (use a w in \<open>simp_all add: sb1_def\<close>, simp_all add: upd_buf_def)
  have it: "inode_table ?sa i = ?n\<lparr>i_lock := 1\<rparr>" by (simp add: upd_inode_def)
  have bd: "b_data (bufs (upd_buf bh (\<lambda>b. b\<lparr>b_count := b_count b + 1\<rparr>) ?sa) bh) = b_data (bufs s bh)" by (simp add: upd_buf_def upd_inode_def)
  note st = inode_cached_steps[OF c w refl, of i "\<lambda>n. n\<lparr>i_lock := 1\<rparr>"]
  have "read_inode i w s = Ok ((), w) s1"
    using i by (simp add: read_inode_def seqp_def bindp_def lock_inode_free[OF i(1) w] it getp_def e st modp_def bd
        br[unfolded sb1_def] s1_def sb1_def del: bindk_eq_Ok_iff)
  moreover have "bufs s1 = bufs s" by (simp add: s1_def sb1_def unlock_inode_def) (simp add: upd_buf_def)
  moreover have "inode_table s1 = (inode_table s)(i := ?d ?n)"
    using i(1) e by (simp add: s1_def sb1_def unlock_inode_def) 
      (simp add: upd_inode_def e decode_inode_def cong: if_cong, rule arg_cong[where f = "\<lambda>x. (inode_table s)(i := x)"], rule m_inode.equality; simp)
  ultimately show ?thesis by blast
qed

subsection \<open>Directory entries\<close>

text \<open>The name of length \<open>len\<close> at \<open>name\<close>, cut off at fourteen characters.\<close>

definition name_bytes :: "nat \<Rightarrow> u32 \<Rightarrow> 'z sched_state_scheme \<Rightarrow> u8 list" where
  "name_bytes len name s = map (\<lambda>k. get_fs_byte (name + of_nat k) s) [0..<len]"

lemma match_put_name:
  assumes "len \<le> 14" "len' \<le> 14" "0 \<notin> set (name_bytes len name s)" "0 \<notin> set (name_bytes len' name' s')"
    "get_u16 d a \<noteq> 0"
  shows "match len' name' (put_name name len a s d) a s' \<longleftrightarrow> name_bytes len' name' s' = name_bytes len name s"
proof -
  let ?d = "put_name name len a s d"
  have i: "get_u16 ?d a \<noteq> 0" using assms(5) by (simp add: get_u16_def put_name_def)
  have b: "?d (a + 2 + k) = (if k < len then get_fs_byte (name + of_nat k) s else 0)" if "k < 14" for k
    using that by (simp add: put_name_def)
  have m: "match len' name' ?d a s' \<longleftrightarrow> (len' < 14 \<longrightarrow> len \<le> len' \<or> get_fs_byte (name + of_nat len') s = 0) \<and>
      (\<forall>k<len'. get_fs_byte (name' + of_nat k) s' = (if k < len then get_fs_byte (name + of_nat k) s else 0))"
    using i assms(2) b by (auto simp: match_def list_all_iff)
  have n: "get_fs_byte (name + of_nat k) s \<noteq> 0" if "k < len" for k
    using assms(3) that by (auto simp: name_bytes_def)
  have n': "get_fs_byte (name' + of_nat k) s' \<noteq> 0" if "k < len'" for k
    using assms(4) that by (auto simp: name_bytes_def)
  show ?thesis unfolding m
  proof
    assume l: "(len' < 14 \<longrightarrow> len \<le> len' \<or> get_fs_byte (name + of_nat len') s = 0) \<and>
      (\<forall>k<len'. get_fs_byte (name' + of_nat k) s' = (if k < len then get_fs_byte (name + of_nat k) s else 0))"
    have "\<not> len < len'" using l n'[of len] by auto
    moreover have "\<not> len' < len" using l n[of len'] assms(1) by auto
    ultimately have "len' = len" by simp
    moreover note this
    ultimately show "name_bytes len' name' s' = name_bytes len name s" using l by (simp add: name_bytes_def)
  next
    assume e: "name_bytes len' name' s' = name_bytes len name s"
    then have l: "len' = len" by (metis length_map length_upt minus_nat.diff_0 name_bytes_def)
    then show "(len' < 14 \<longrightarrow> len \<le> len' \<or> get_fs_byte (name + of_nat len') s = 0) \<and>
      (\<forall>k<len'. get_fs_byte (name' + of_nat k) s' = (if k < len then get_fs_byte (name + of_nat k) s else 0))"
      using e by (simp add: name_bytes_def)
  qed
qed

subsection \<open>Properties\<close>

text \<open>C28. Allocating a block. In a file system at rest that has a free zone, \<open>new_block\<close> returns the first free
  zone, without sleeping: that zone is marked in the bitmap and every other zone keeps its mark; the block has a buffer that is
  cleared, up to date, dirty and unused.\<close>

theorem new_block_allocates:
  assumes "fs_rests N dev sb s" "0 < fuel w" "zone_free (s_zmap (super_blocks s sb)) (bufs s) nr" "nr \<noteq> 0"
    "nr + unat (s_firstdatazone (super_blocks s sb)) \<le> unat (s_nzones (super_blocks s sb))"
    "\<not> zone_free (s_zmap (super_blocks s sb)) (bufs s) 0"
  shows "\<exists>k s' bh. new_block dev w s = Ok (of_nat (k + unat (s_firstdatazone (super_blocks s sb)) - 1), w) s' \<and> k \<le> nr \<and>
    zone_free (s_zmap (super_blocks s sb)) (bufs s) k \<and>
    (\<forall>l<k. \<not> zone_free (s_zmap (super_blocks s sb)) (bufs s) l) \<and>
    (\<forall>l. zone_free (s_zmap (super_blocks s sb)) (bufs s') l \<longleftrightarrow> l \<noteq> k \<and> zone_free (s_zmap (super_blocks s sb)) (bufs s) l) \<and>
    b_dev (bufs s' bh) = dev \<and> b_blocknr (bufs s' bh) = of_nat (k + unat (s_firstdatazone (super_blocks s sb)) - 1) \<and>
    b_uptodate (bufs s' bh) = 1 \<and> b_dirt (bufs s' bh) = 1 \<and> b_count (bufs s' bh) = 0 \<and>
    (\<forall>i<1024. b_data (bufs s' bh) i = 0)"
  using new_block_first_fit[OF assms(1,2,3,5,4,6)] .

text \<open>C29. Inodes on disk. \<open>write_inode\<close> of a dirty inode whose block is in the cache marks that block, and no other, for writing, and the inode as clean. In
  the block it changes the 32 bytes of this inode alone (the block is number 2 plus the sizes of the bitmaps plus \<open>(nr - 1) / 32\<close>, the bytes those from
  \<open>32 * ((nr - 1) mod 32)\<close> on), which hold the fields in the order of \<open>struct d_inode\<close>. A \<open>read_inode\<close> of the same inode into any other entry of the
  table gets these fields back and leaves the rest of the entry and the cache alone.\<close>

theorem inode_roundtrip:
  assumes "inode_cached N dev sb bh (i_num n) s" "n = inode_table s i" "0 < fuel w" "i_num n \<noteq> 0"
    and "i_lock n = 0" "i_dirt n \<noteq> 0" "i_dev n = dev" "off = 32 * ((unat (i_num n) - 1) mod 32)"
  shows "\<exists>s1 d. write_inode i w s = Ok ((), w) s1 \<and> inode_table s1 = (inode_table s)(i := n\<lparr>i_dirt := 0\<rparr>) \<and>
    bufs s1 = (bufs s)(bh := (bufs s bh)\<lparr>b_data := d, b_dirt := 1\<rparr>) \<and> (\<forall>a. a < off \<or> off + 32 \<le> a \<longrightarrow> d a = b_data (bufs s bh) a) \<and>
    get_u16 d off = i_mode n \<and> get_u16 d (off + 2) = i_uid n \<and> get_u32 d (off + 4) = i_size n \<and> get_u32 d (off + 8) = i_mtime n \<and>
    d (off + 12) = i_gid n \<and> d (off + 13) = i_nlinks n \<and> (\<forall>k<9. get_u16 d (off + 14 + 2 * k) = i_zone n k) \<and>
    (\<forall>j p. p = inode_table s1 j \<and> i_lock p = 0 \<and> i_dev p = dev \<and> i_num p = i_num n \<longrightarrow>
      (\<exists>s2. read_inode j w s1 = Ok ((), w) s2 \<and> bufs s2 = bufs s1 \<and> inode_table s2 = (inode_table s1)(j :=
        p\<lparr>i_mode := i_mode n, i_uid := i_uid n, i_size := i_size n, i_mtime := i_mtime n, i_gid := i_gid n,
          i_nlinks := i_nlinks n, i_zone := (\<lambda>k. if k < 9 then i_zone n k else i_zone p k)\<rparr>)))"
proof -
  have off: "inode_offset n = off"
  proof -
    have "unat (i_num n) < 2 ^ 32" using unsigned_less[of "i_num n", where 'a = nat] by simp
    then have u: "unat (ucast (i_num n) :: u32) = unat (i_num n)" by (simp add: unsigned_ucast_eq take_bit_nat_eq_self)
    then have "(1 :: u32) \<le> ucast (i_num n)" using assms(4) by (simp add: word_le_nat_alt) (metis Suc_leI unat_gt_0)
    then have "unat (ucast (i_num n) - 1 :: u32) = unat (i_num n) - 1" using u by (simp add: unat_sub)
    then show ?thesis by (simp add: inode_offset_def assms(8) unat_mod)
  qed
  let ?d = "encode_inode n off (b_data (bufs s bh))"
  obtain s1 where s1: "write_inode i w s = Ok ((), w) s1" "cache_inv N s1" "super_blocks s1 = super_blocks s"
    "bufs s1 = (bufs s)(bh := (bufs s bh)\<lparr>b_data := ?d, b_dirt := 1\<rparr>)" "inode_table s1 = (inode_table s)(i := n\<lparr>i_dirt := 0\<rparr>)"
    using write_inode_cached[of N dev sb bh s i w] assms(1,3,5-7) unfolding assms(2) off[unfolded assms(2), symmetric] by blast
  have o: "?d a = b_data (bufs s bh) a" if "a < off \<or> off + 32 \<le> a" for a using that by (rule encode_inode_other)
  note dd = decode_encode[of n off "b_data (bufs s bh)" n, unfolded decode_inode_def]
  have f: "get_u16 ?d off = i_mode n" "get_u16 ?d (off + 2) = i_uid n" "get_u32 ?d (off + 4) = i_size n" "get_u32 ?d (off + 8) = i_mtime n"
      "?d (off + 12) = i_gid n" "?d (off + 13) = i_nlinks n"
    using arg_cong[OF dd, of i_mode] arg_cong[OF dd, of i_uid] arg_cong[OF dd, of i_size] arg_cong[OF dd, of i_mtime] arg_cong[OF dd, of i_gid]
      arg_cong[OF dd, of i_nlinks] by simp_all
  have z: "get_u16 ?d (off + 14 + 2 * k) = i_zone n k" if "k < 9" for k
    using fun_cong[OF arg_cong[OF dd, of i_zone], of k] that by simp
  have r: "\<exists>s2. read_inode j w s1 = Ok ((), w) s2 \<and> bufs s2 = bufs s1 \<and> inode_table s2 = (inode_table s1)(j :=
        p\<lparr>i_mode := i_mode n, i_uid := i_uid n, i_size := i_size n, i_mtime := i_mtime n, i_gid := i_gid n,
          i_nlinks := i_nlinks n, i_zone := (\<lambda>k. if k < 9 then i_zone n k else i_zone p k)\<rparr>)"
    if p: "p = inode_table s1 j" "i_lock p = 0" "i_dev p = dev" "i_num p = i_num n" for j p
  proof -
    have "inode_cached N dev sb bh (i_num (inode_table s1 j)) s1"
      using assms(1) s1(2-4) p(1,4) by (simp add: inode_cached_def find_super_def)
    moreover have "inode_offset p = off" using p(4) off by (simp add: inode_offset_def)
    ultimately show ?thesis
      using read_inode_cached[of N dev sb bh s1 j w] assms(3) p s1(4) decode_encode[of n off "b_data (bufs s bh)" p] by auto
  qed
  show ?thesis by (intro exI[of _ s1] exI[of _ ?d] conjI allI impI s1 o f z r) (use s1 in auto)
qed

text \<open>Names. The entry that \<open>add_entry\<close> writes for a name (cut off at fourteen bytes, none of them zero) matches a name looked up
  later exactly when it is the same name.\<close>

theorem entry_matches_its_name:
  assumes "len \<le> 14" "len' \<le> 14" "0 \<notin> set (name_bytes len name s)" "0 \<notin> set (name_bytes len' name' s')"
    "get_u16 d a \<noteq> 0"
  shows "match len' name' (put_name name len a s d) a s' \<longleftrightarrow> name_bytes len' name' s' = name_bytes len name s"
  using assms by (rule match_put_name)

subsection \<open>Concrete instances\<close>

text \<open>A file system with one bitmap block, in which only the reserved first bit is set.\<close>

definition demo_disk :: fs_state where
  "demo_disk =
     upd_super 0 (\<lambda>p. p\<lparr>s_dev := 0x301, s_firstdatazone := 10, s_nzones := 100, s_zmap := (\<lambda>_. None)(0 := Some 1)\<rparr>)
       (upd_buf 1 (\<lambda>b. b\<lparr>b_count := 1, b_data := (\<lambda>_. 0)(0 := 1)\<rparr>) demo_cache)"

lemma demo_cache_fields:
  "b < 2 \<Longrightarrow> bufs demo_cache b = init_buffer 2 b no_buffer" "super_blocks demo_cache = (\<lambda>_. no_super)"
proof -
  have n: "buffer_count 0x20000 0x20C00 0 = 2" by code_simp
  have f: "start_buffer demo_fs = 0x20000" "bufs demo_fs = (\<lambda>_. no_buffer)" "super_blocks demo_fs = (\<lambda>_. no_super)"
    by (simp_all add: demo_fs_def fs_data_def sched_state.extend_def fs_state.fields_def)
  show "b < 2 \<Longrightarrow> bufs demo_cache b = init_buffer 2 b no_buffer" "super_blocks demo_cache = (\<lambda>_. no_super)"
    by (simp_all add: demo_cache_def buffer_init_def f n del: buffer_count.simps)
qed

lemma demo_disk_fields:
  "bufs demo_disk 0 = init_buffer 2 0 no_buffer"
  "bufs demo_disk 1 = (init_buffer 2 1 no_buffer)\<lparr>b_count := 1, b_data := (\<lambda>_. 0)(0 := 1)\<rparr>"
  "super_blocks demo_disk 0 = no_super\<lparr>s_dev := 0x301, s_firstdatazone := 10, s_nzones := 100, s_zmap := (\<lambda>_. None)(0 := Some 1)\<rparr>"
  by (simp_all add: demo_disk_def upd_buf_def upd_super_def demo_cache_fields)

lemma demo_disk_inv: "cache_inv 2 demo_disk"
  using demo_cache_inv by (simp add: demo_disk_def qfields_def)

lemma demo_disk_rests: "fs_rests 2 0x301 0 demo_disk"
proof -
  have l: "(\<forall>b<2. P b) \<longleftrightarrow> P 0 \<and> P (1 :: nat)" for P by (auto simp: less_2_cases_iff)
  have sup: "find_super 0x301 demo_disk = Some 0" by (simp add: find_super_def upt_rec demo_disk_fields)
  have "\<exists>b<2. b_count (bufs demo_disk b) = 0 \<and> b_dirt (bufs demo_disk b) = 0"
    by (intro exI[of _ 0]) (simp add: demo_disk_fields init_buffer_def)
  then show ?thesis unfolding fs_rests_def l
    by (simp add: sup demo_disk_inv demo_disk_fields init_buffer_def no_super_def word_less_nat_alt del: One_nat_def)
qed

theorem new_block_allocates_witness:
  "\<exists>s' bh. new_block 0x301 demo_world demo_disk = Ok (10, demo_world) s' \<and> b_blocknr (bufs s' bh) = 10 \<and> b_data (bufs s' bh) 5 = 0"
proof -
  let ?m = "s_zmap (super_blocks demo_disk 0)"
  have m: "?m (nr div 8192) = (if nr < 8192 then Some 1 else None)" for nr
    by (simp add: demo_disk_fields div_eq_0_iff del: One_nat_def)
  have f: "zone_free ?m (bufs demo_disk) 1" "\<not> zone_free ?m (bufs demo_disk) 0"
    by (simp_all add: zone_free_def m get_bit_def demo_disk_fields bit_1_iff del: One_nat_def)
  have u: "unat (s_firstdatazone (super_blocks demo_disk 0)) = 10" "unat (s_nzones (super_blocks demo_disk 0)) = 100"
    by (simp_all add: demo_disk_fields)
  obtain k s' bh where k: "new_block 0x301 demo_world demo_disk = Ok (of_nat (k + 10 - 1), demo_world) s'" "k \<le> 1"
    "zone_free ?m (bufs demo_disk) k" "b_blocknr (bufs s' bh) = of_nat (k + 10 - 1)" "\<forall>i<1024. b_data (bufs s' bh) i = 0"
    using new_block_allocates[OF demo_disk_rests, where w = demo_world and nr = 1] f by (auto simp: u demo_world_def)
  then have "k = 1" using f(2) by (cases k) auto
  then show ?thesis using k by auto
qed

text \<open>A cache that holds block 2 of a device, the block of inode 3.\<close>

theorem inode_roundtrip_witness:
  "\<exists>(w :: fs_state world) s s1 s2 bh. write_inode 0 w s = Ok ((), w) s1 \<and> b_dirt (bufs s1 bh) = 1 \<and> get_u32 (b_data (bufs s1 bh)) 68 = 7 \<and>
     read_inode 1 w s1 = Ok ((), w) s2 \<and> i_size (inode_table s2 1) = 7"
proof -
  let ?w = "\<lparr>request_fn = (\<lambda>_. None), events = [], fuel = 3\<rparr> :: fs_state world"
  have w: "0 < fuel ?w" "world_keeps (cache_inv 2) ?w"
    by (simp_all add: world_keeps_def)
  have ex: "\<exists>b<2. b_count (bufs demo_cache b) = 0 \<and> b_dirt (bufs demo_cache b) = 0" using demo_cache_empty by (intro exI[of _ 0]) simp
  obtain bh s' where g: "getblk 0x301 2 ?w demo_cache = Ok (bh, ?w) s'" "b_count (bufs s' bh) = 1" "b_lock (bufs s' bh) = 0"
    "b_dev (bufs s' bh) = 0x301" "b_blocknr (bufs s' bh) = 2"
    using getblk_unused[OF demo_cache_inv w(1), of "0x301" 2] ex demo_cache_fields(1) by (auto simp: init_buffer_def)
  have c: "cache_inv 2 s'" "bh < 2"
    using yields_getblk[of 2 "0x301" 2] keeps_OkD[OF yields_keeps[OF yields_getblk] w(2) demo_cache_inv g(1)] w(2) demo_cache_inv g(1)
    unfolding yields_def by blast+
  let ?n = "no_inode\<lparr>i_num := 3, i_size := 7, i_dev := 0x301, i_dirt := 1\<rparr>" and ?p = "no_inode\<lparr>i_num := 3, i_dev := 0x301\<rparr>"
  define s where "s = upd_super 0 (\<lambda>_. no_super\<lparr>s_dev := 0x301\<rparr>) (upd_inode 0 (\<lambda>_. ?n) (upd_inode 1 (\<lambda>_. ?p) (upd_buf bh (\<lambda>b. b\<lparr>b_uptodate := 1\<rparr>) s')))"
  have su: "super_blocks s 0 = no_super\<lparr>s_dev := 0x301\<rparr>" "inode_table s 0 = ?n" "inode_table s 1 = ?p"
    "bufs s bh = (bufs s' bh)\<lparr>b_uptodate := 1\<rparr>" by (simp_all add: s_def upd_super_def upd_inode_def upd_buf_def)
  have f: "find_super 0x301 s = Some 0" by (simp add: find_super_def upt_rec su)
  have "cache_inv 2 s" using c(1) by (simp add: s_def qfields_def)
  then have ic: "inode_cached 2 0x301 0 bh (i_num ?n) s" using c(2) g f by (simp add: inode_cached_def su no_super_def)
  have h: "i_num ?n \<noteq> 0" "i_lock ?n = 0" "i_dirt ?n \<noteq> 0" "i_dev ?n = 0x301" "64 = 32 * ((unat (i_num ?n) - 1) mod 32)"
    by (simp_all add: no_inode_def)
  obtain s1 d where s1: "write_inode 0 ?w s = Ok ((), ?w) s1" "inode_table s1 = (inode_table s)(0 := ?n\<lparr>i_dirt := 0\<rparr>)"
      "bufs s1 = (bufs s)(bh := (bufs s bh)\<lparr>b_data := d, b_dirt := 1\<rparr>)" "get_u32 d (64 + 4) = i_size ?n"
      "\<exists>s2. read_inode 1 ?w s1 = Ok ((), ?w) s2 \<and> i_size (inode_table s2 1) = i_size ?n"
    using inode_roundtrip[OF ic su(2)[symmetric] w(1) h]
  proof (elim exE conjE, goal_cases)
    case (1 s1 d)
    have "inode_table s1 1 = ?p" using 1(3) su(3) by simp
    then have p: "?p = inode_table s1 1 \<and> i_lock ?p = 0 \<and> i_dev ?p = 0x301 \<and> i_num ?p = i_num ?n" by (simp add: no_inode_def)
    from 1(13)[rule_format, OF p] have "\<exists>s2. read_inode 1 ?w s1 = Ok ((), ?w) s2 \<and> i_size (inode_table s2 1) = i_size ?n" by auto
    then show ?case by (intro 1(1)[of s1 d] 1)
  qed
  then obtain s2 where s2: "read_inode 1 ?w s1 = Ok ((), ?w) s2" "i_size (inode_table s2 1) = 7" by auto
  have "b_dirt (bufs s1 bh) = 1" "get_u32 (b_data (bufs s1 bh)) 68 = 7" using s1(3,4) by simp_all
  then show ?thesis using s1(1) s2 by blast
qed

theorem entry_matches_its_name_witness:
  "match 2 0x2000 (put_name 0x1000 2 16 (demo_fs\<lparr>user := (\<lambda>_. 65)\<rparr>) (\<lambda>_. 1)) 16 (demo_fs\<lparr>user := (\<lambda>_. 65)\<rparr>) \<and>
   \<not> match 3 0x2000 (put_name 0x1000 2 16 (demo_fs\<lparr>user := (\<lambda>_. 65)\<rparr>) (\<lambda>_. 1)) 16 (demo_fs\<lparr>user := (\<lambda>_. 65)\<rparr>)"
proof -
  let ?s = "demo_fs\<lparr>user := (\<lambda>_. 65)\<rparr>"
  have b: "name_bytes len a ?s = replicate len 65" for len a
    by (simp add: name_bytes_def get_fs_byte_def map_replicate_const)
  have "match len 0x2000 (put_name 0x1000 2 16 ?s (\<lambda>_. 1)) 16 ?s \<longleftrightarrow> len = 2" if "len \<le> 14" for len
    using entry_matches_its_name[where len = 2 and len' = len and name = "0x1000" and s = ?s and name' = "0x2000" and s' = ?s and d = "\<lambda>_. 1" and a = 16] that
    by (auto simp: b get_u16_def dest: arg_cong[of _ _ length])
  then show ?thesis by simp
qed

end
