(* ===== verification/Fs_Files.thy ===== *)
theory Fs_Files
  imports Fs_Namei Chr_Tty_Io
begin

text \<open>
  Reading and writing: src/fs/file_dev.c, block_dev.c, char_dev.c, pipe.c and read_write.c. Positions are C
  \<open>int\<close>s and \<open>off_t\<close>s, 32 bits wide and signed; where the code adds them the sum wraps (\<open>s32\<close>). A file is named by its
  index in \<open>file_table\<close>, user buffers by their address.
\<close>

subsection \<open>Copying between buffers and user memory\<close>

text \<open>\<open>while (chars-->0) put_fs_byte(*(p++),buf++)\<close> and \<open>while (chars-->0) *(p++) = get_fs_byte(buf++)\<close>.\<close>

primrec copy_to_user :: "nat \<Rightarrow> (nat \<Rightarrow> u8) \<Rightarrow> nat \<Rightarrow> u32 \<Rightarrow> 'z sched_state_scheme \<Rightarrow> 'z sched_state_scheme" where
  "copy_to_user 0 d p buf s = s"
| "copy_to_user (Suc n) d p buf s = copy_to_user n d (Suc p) (buf + 1) (put_fs_byte (d p) buf s)"

primrec copy_from_user :: "nat \<Rightarrow> u32 \<Rightarrow> nat \<Rightarrow> 'z sched_state_scheme \<Rightarrow> block \<Rightarrow> block" where
  "copy_from_user 0 buf p s d = d"
| "copy_from_user (Suc n) buf p s d = copy_from_user n (buf + 1) (Suc p) s (d(p := get_fs_byte buf s))"

definition put_block :: "nat \<Rightarrow> nat \<Rightarrow> nat \<Rightarrow> u32 \<Rightarrow> 'z fs_state_scheme \<Rightarrow> 'z fs_state_scheme" where
  "put_block bh off n buf s = upd_buf bh (\<lambda>b. b\<lparr>b_data := copy_from_user n buf off s (b_data b)\<rparr>) s"

definition get_block_data :: "nat \<Rightarrow> nat \<Rightarrow> nat \<Rightarrow> u32 \<Rightarrow> 'z fs_state_scheme \<Rightarrow> 'z fs_state_scheme" where
  "get_block_data bh off n buf s = copy_to_user n (b_data (bufs s bh)) off buf s"

subsection \<open>Regular files\<close>

text \<open>The loop of \<open>file_read\<close>: \<open>left\<close> bytes to go; the value is what is left when it stops.\<close>

primrec file_read_loop :: "nat \<Rightarrow> nat \<Rightarrow> nat \<Rightarrow> u32 \<Rightarrow> int \<Rightarrow> (int, 'z fs_state_scheme) proc" where
  "file_read_loop 0 inode fp buf left = stuckp"
| "file_read_loop (Suc n) inode fp buf left =
     (if left = 0 then retp 0
      else
        bindp (getp (\<lambda>s. tdiv (f_pos (file_table s fp)) 1024)) (\<lambda>block.
        bindp (bmap inode block) (\<lambda>nr.
        bindp (if nr = 0 then retp (Some None) else bindp (bread_zone inode nr) (\<lambda>r. retp (map_option Some r))) (\<lambda>r.
          case r of
            None \<Rightarrow> retp left
          | Some bh \<Rightarrow>
              bindp (getp (\<lambda>s. f_pos (file_table s fp) - 1024 * tdiv (f_pos (file_table s fp)) 1024)) (\<lambda>nr.
              let chars = min (1024 - nr) left in
              seqp (modp (upd_file fp (\<lambda>f. f\<lparr>f_pos := s32 (f_pos f + chars)\<rparr>)))
              (seqp (case bh of
                       Some b \<Rightarrow> seqp (modp (get_block_data b (nat nr) (nat chars) buf)) (brelse (Some b))
                     | None \<Rightarrow> modp (copy_to_user (nat chars) (\<lambda>_. 0) 0 buf))
                (file_read_loop n inode fp (buf + word_of_int chars) (left - chars))))))))"

definition file_read :: "nat \<Rightarrow> nat \<Rightarrow> u32 \<Rightarrow> int \<Rightarrow> (int, 'z fs_state_scheme) proc" where
  "file_read inode fp buf count =
     (if count \<le> 0 then retp 0
      else
        bindp (fuelp (\<lambda>n. file_read_loop n inode fp buf count)) (\<lambda>left.
        seqp (modp (\<lambda>s. upd_inode inode (\<lambda>m. m\<lparr>i_atime := now s\<rparr>) s))
          (retp (if count - left \<noteq> 0 then count - left else - ERROR))))"

primrec file_write_loop :: "nat \<Rightarrow> nat \<Rightarrow> u32 \<Rightarrow> int \<Rightarrow> int \<Rightarrow> int \<Rightarrow> (int \<times> int, 'z fs_state_scheme) proc" where
  "file_write_loop 0 inode buf count pos i = stuckp"
| "file_write_loop (Suc n) inode buf count pos i =
     (if i \<ge> count then retp (pos, i)
      else
        bindp (create_block inode (tdiv pos 1024)) (\<lambda>block.
          if block = 0 then retp (pos, i)
          else bindp (bread_zone inode block) (\<lambda>r.
            case r of
              None \<Rightarrow> retp (pos, i)
            | Some bh \<Rightarrow>
                let off = pos - 1024 * tdiv pos 1024; c = min (1024 - off) (count - i); pos' = s32 (pos + c) in
                seqp (modp (set_dirty bh))
                (seqp (ifp (\<lambda>s. word_of_int pos' > i_size (inode_table s inode))
                         (modp (upd_inode inode (\<lambda>m. m\<lparr>i_size := word_of_int pos', i_dirt := 1\<rparr>))) (retp ()))
                (seqp (modp (put_block bh (nat off) (nat c) buf))
                (seqp (brelse (Some bh))
                  (file_write_loop n inode (buf + word_of_int c) count pos' (i + c))))))))"

definition file_write :: "nat \<Rightarrow> nat \<Rightarrow> u32 \<Rightarrow> int \<Rightarrow> (int, 'z fs_state_scheme) proc" where
  "file_write inode fp buf count =
     bindp (getp (\<lambda>s. (ucast (f_flags (file_table s fp)) AND O_APPEND \<noteq> 0, f_pos (file_table s fp), sint (i_size (inode_table s inode))))) (\<lambda>(app, fpos, sz).
     bindp (fuelp (\<lambda>n. file_write_loop n inode buf count (if app then sz else fpos) 0)) (\<lambda>(pos, i).
     seqp (modp (\<lambda>s. upd_inode inode (\<lambda>m. m\<lparr>i_mtime := now s\<rparr>) s))
     (seqp (ifp (\<lambda>s. ucast (f_flags (file_table s fp)) AND O_APPEND = 0)
              (seqp (modp (upd_file fp (\<lambda>f. f\<lparr>f_pos := pos\<rparr>)))
                (modp (\<lambda>s. upd_inode inode (\<lambda>m. m\<lparr>i_ctime := now s\<rparr>) s)))
              (retp ()))
       (retp (if i \<noteq> 0 then i else - 1)))))"

subsection \<open>Block devices\<close>

text \<open>The position of the open file is updated as the loops go.\<close>

primrec block_write_loop :: "nat \<Rightarrow> u16 \<Rightarrow> nat \<Rightarrow> int \<Rightarrow> int \<Rightarrow> u32 \<Rightarrow> int \<Rightarrow> int \<Rightarrow> (int, 'z fs_state_scheme) proc" where
  "block_write_loop 0 dev fp block offset buf count written = stuckp"
| "block_write_loop (Suc n) dev fp block offset buf count written =
     (if count \<le> 0 then retp written
      else
        let chars = min (1024 - offset) count in
        bindp (if chars = 1024 then bindp (getblk dev (word_of_int block)) (\<lambda>b. retp (Some b))
               else breada dev (word_of_int block) [block + 1, block + 2, - 1]) (\<lambda>r.
          case r of
            None \<Rightarrow> retp (if written \<noteq> 0 then written else - EIO)
          | Some bh \<Rightarrow>
              seqp (modp (upd_file fp (\<lambda>f. f\<lparr>f_pos := s32 (f_pos f + chars)\<rparr>)))
              (seqp (modp (put_block bh (nat offset) (nat chars) buf))
              (seqp (modp (set_dirty bh))
              (seqp (brelse (Some bh))
                (block_write_loop n dev fp (block + 1) 0 (buf + word_of_int chars) (count - chars) (written + chars)))))))"

definition block_write :: "u16 \<Rightarrow> nat \<Rightarrow> u32 \<Rightarrow> int \<Rightarrow> (int, 'z fs_state_scheme) proc" where
  "block_write dev fp buf count =
     bindp (getp (\<lambda>s. f_pos (file_table s fp))) (\<lambda>pos.
       fuelp (\<lambda>n. block_write_loop n dev fp (pos div 1024) (pos mod 1024) buf count 0))"

text \<open>Here \<open>pos\<close> points to an \<open>unsigned long\<close>.\<close>

primrec block_read_loop :: "nat \<Rightarrow> u16 \<Rightarrow> nat \<Rightarrow> int \<Rightarrow> int \<Rightarrow> u32 \<Rightarrow> int \<Rightarrow> int \<Rightarrow> (int, 'z fs_state_scheme) proc" where
  "block_read_loop 0 dev fp block offset buf count rd = stuckp"
| "block_read_loop (Suc n) dev fp block offset buf count rd =
     (if count \<le> 0 then retp rd
      else
        let chars = min (1024 - offset) count in
        bindp (breada dev (word_of_int block) [block + 1, block + 2, - 1]) (\<lambda>r.
          case r of
            None \<Rightarrow> retp (if rd \<noteq> 0 then rd else - EIO)
          | Some bh \<Rightarrow>
              seqp (modp (upd_file fp (\<lambda>f. f\<lparr>f_pos := s32 (f_pos f + chars)\<rparr>)))
              (seqp (modp (get_block_data bh (nat offset) (nat chars) buf))
              (seqp (brelse (Some bh))
                (block_read_loop n dev fp (block + 1) 0 (buf + word_of_int chars) (count - chars) (rd + chars))))))"

definition block_read :: "u16 \<Rightarrow> nat \<Rightarrow> u32 \<Rightarrow> int \<Rightarrow> (int, 'z fs_state_scheme) proc" where
  "block_read dev fp buf count =
     bindp (getp (\<lambda>s. uint (word_of_int (f_pos (file_table s fp)) :: u32))) (\<lambda>pos.
       fuelp (\<lambda>n. block_read_loop n dev fp (pos div 1024) (pos mod 1024) buf count 0))"

subsection \<open>Pipes\<close>

text \<open>The bytes of the page of a pipe, in physical memory; \<open>i_zone[0]\<close> is the head, \<open>i_zone[1]\<close> the tail.\<close>

definition phys_byte :: "'z mm_state_scheme \<Rightarrow> u32 \<Rightarrow> u8" where
  "phys_byte s a = ucast (drop_bit (8 * unat (a AND 3)) (load s (a AND NOT 3)))"

definition put_phys_byte :: "u32 \<Rightarrow> u8 \<Rightarrow> 'z mm_state_scheme \<Rightarrow> 'z mm_state_scheme" where
  "put_phys_byte a v s =
     (let sh = 8 * unat (a AND 3); w = a AND NOT 3
      in store w ((load s w AND NOT (push_bit sh 0xff)) OR push_bit sh (ucast v)) s)"

definition PIPE_HEAD :: "m_inode \<Rightarrow> u16" where "PIPE_HEAD n = i_zone n 0"
definition PIPE_TAIL :: "m_inode \<Rightarrow> u16" where "PIPE_TAIL n = i_zone n 1"

definition PIPE_SIZE :: "m_inode \<Rightarrow> int" where
  "PIPE_SIZE n = (uint (PIPE_HEAD n) - uint (PIPE_TAIL n)) mod 4096"

primrec pipe_to_user :: "nat \<Rightarrow> u32 \<Rightarrow> u32 \<Rightarrow> 'z sched_state_scheme \<Rightarrow> 'z sched_state_scheme" where
  "pipe_to_user 0 p buf s = s"
| "pipe_to_user (Suc n) p buf s = pipe_to_user n (p + 1) (buf + 1) (put_fs_byte (phys_byte s p) buf s)"

primrec user_to_pipe :: "nat \<Rightarrow> u32 \<Rightarrow> u32 \<Rightarrow> 'z sched_state_scheme \<Rightarrow> 'z sched_state_scheme" where
  "user_to_pipe 0 p buf s = s"
| "user_to_pipe (Suc n) p buf s = user_to_pipe n (p + 1) (buf + 1) (put_phys_byte p (get_fs_byte buf s) s)"

text \<open>One round of the copy, with \<open>size\<close> bytes in the pipe: the bytes copied and the new state.\<close>

definition pipe_get :: "nat \<Rightarrow> int \<Rightarrow> u32 \<Rightarrow> 'z fs_state_scheme \<Rightarrow> int \<times> 'z fs_state_scheme" where
  "pipe_get inode count buf s =
     (let m = inode_table s inode;
          t0 = uint (PIPE_TAIL m);
          chars = min (min (4096 - t0) count) (PIPE_SIZE m);
          s = upd_inode inode (\<lambda>m. m\<lparr>i_zone := (i_zone m)(1 := (PIPE_TAIL m + word_of_int chars) AND 0xfff)\<rparr>) s
      in (chars, pipe_to_user (nat chars) (i_size m + word_of_int t0) buf s))"

primrec read_pipe_loop :: "nat \<Rightarrow> nat \<Rightarrow> u32 \<Rightarrow> int \<Rightarrow> int \<Rightarrow> (bool \<times> int, 'z fs_state_scheme) proc" where
  "read_pipe_loop 0 inode buf count rd = stuckp"
| "read_pipe_loop (Suc n) inode buf count rd =
     (if count \<le> 0 then retp (True, rd)
      else
        ifp (\<lambda>s. PIPE_SIZE (inode_table s inode) = 0)
          (seqp (modp (wake_up (Some (WInode inode))))
          (ifp (\<lambda>s. i_count (inode_table s inode) \<noteq> 2) (retp (False, rd))
            (seqp (sleepp (WInode inode)) (read_pipe_loop n inode buf count rd))))
          (bindp (callp (pipe_get inode count buf)) (\<lambda>chars.
             read_pipe_loop n inode (buf + word_of_int chars) (count - chars) (rd + chars))))"

definition read_pipe :: "nat \<Rightarrow> u32 \<Rightarrow> int \<Rightarrow> (int, 'z fs_state_scheme) proc" where
  "read_pipe inode buf count =
     bindp (fuelp (\<lambda>n. read_pipe_loop n inode buf count 0)) (\<lambda>(fin, rd).
       seqp (if fin then modp (wake_up (Some (WInode inode))) else retp ()) (retp rd))"

definition pipe_put :: "nat \<Rightarrow> int \<Rightarrow> u32 \<Rightarrow> 'z fs_state_scheme \<Rightarrow> int \<times> 'z fs_state_scheme" where
  "pipe_put inode count buf s =
     (let m = inode_table s inode;
          h0 = uint (PIPE_HEAD m);
          chars = min (min (4096 - h0) count) (4095 - PIPE_SIZE m);
          s = upd_inode inode (\<lambda>m. m\<lparr>i_zone := (i_zone m)(0 := (PIPE_HEAD m + word_of_int chars) AND 0xfff)\<rparr>) s
      in (chars, user_to_pipe (nat chars) (i_size m + word_of_int h0) buf s))"

primrec write_pipe_loop :: "nat \<Rightarrow> nat \<Rightarrow> u32 \<Rightarrow> int \<Rightarrow> int \<Rightarrow> (bool \<times> int, 'z fs_state_scheme) proc" where
  "write_pipe_loop 0 inode buf count written = stuckp"
| "write_pipe_loop (Suc n) inode buf count written =
     (if count \<le> 0 then retp (True, written)
      else
        ifp (\<lambda>s. PIPE_SIZE (inode_table s inode) = 4095)
          (seqp (modp (wake_up (Some (WInode inode))))
          (ifp (\<lambda>s. i_count (inode_table s inode) \<noteq> 2)
             (seqp (modp (upd_cur (\<lambda>t. t\<lparr>signal := signal t OR S_bit SIGPIPE\<rparr>)))
               (retp (False, if written \<noteq> 0 then written else - 1)))
             (seqp (sleepp (WInode inode)) (write_pipe_loop n inode buf count written))))
          (bindp (callp (pipe_put inode count buf)) (\<lambda>chars.
             write_pipe_loop n inode (buf + word_of_int chars) (count - chars) (written + chars))))"

definition write_pipe :: "nat \<Rightarrow> u32 \<Rightarrow> int \<Rightarrow> (int, 'z fs_state_scheme) proc" where
  "write_pipe inode buf count =
     bindp (fuelp (\<lambda>n. write_pipe_loop n inode buf count 0)) (\<lambda>(fin, written).
       seqp (if fin then modp (wake_up (Some (WInode inode))) else retp ()) (retp written))"

text \<open>The free entries of the file table and of the descriptor table, in the order the loops meet them.\<close>

definition free_files :: "'z fs_state_scheme \<Rightarrow> nat list" where
  "free_files s = filter (\<lambda>i. f_count (file_table s i) = 0) [0..<NR_FILE]"

definition free_fds :: "'z sched_state_scheme \<Rightarrow> nat list" where
  "free_fds s = filter (\<lambda>i. filp (cur s) i = None) [0..<NR_OPEN]"

definition set_filp :: "nat \<Rightarrow> nat option \<Rightarrow> 'z sched_state_scheme \<Rightarrow> 'z sched_state_scheme" where
  "set_filp fd f s = upd_cur (\<lambda>t. t\<lparr>filp := (filp t)(fd := f)\<rparr>) s"

definition set_f_count :: "nat \<Rightarrow> u16 \<Rightarrow> 'z fs_state_scheme \<Rightarrow> 'z fs_state_scheme" where
  "set_f_count f c s = upd_file f (\<lambda>m. m\<lparr>f_count := c\<rparr>) s"

definition sys_pipe :: "u32 \<Rightarrow> (int, 'z fs_state_scheme) proc" where
  "sys_pipe fildes =
     bindp (getp free_files) (\<lambda>fs.
       case fs of
         f0 # f1 # _ \<Rightarrow>
           seqp (modp (set_f_count f0 1))
           (seqp (modp (set_f_count f1 1))
           (bindp (getp free_fds) (\<lambda>ds.
              case ds of
                d0 # d1 # _ \<Rightarrow>
                  seqp (modp (set_filp d0 (Some f0)))
                  (seqp (modp (set_filp d1 (Some f1)))
                  (bindp get_pipe_inode (\<lambda>r.
                     case r of
                       None \<Rightarrow>
                         donep [modp (set_filp d0 None), modp (set_filp d1 None), modp (set_f_count f0 0), modp (set_f_count f1 0)] (- 1)
                     | Some i \<Rightarrow>
                         donep [modp (upd_file f0 (\<lambda>f. f\<lparr>f_inode := Some i, f_pos := 0, f_mode := 1\<rparr>)),
                                modp (upd_file f1 (\<lambda>f. f\<lparr>f_inode := Some i, f_pos := 0, f_mode := 2\<rparr>)),
                                modp (put_fs_long (of_nat d0) fildes), modp (put_fs_long (of_nat d1) (fildes + 4))] 0)))
              | _ \<Rightarrow> donep [modp (set_f_count f0 0), modp (set_f_count f1 0)] (- 1))))
       | _ \<Rightarrow> retp (- 1))"

subsection \<open>Character devices\<close>

definition rw_ttyx :: "int \<Rightarrow> nat \<Rightarrow> u32 \<Rightarrow> int \<Rightarrow> (int, 'z tty_state_scheme) proc" where
  "rw_ttyx rw minor buf count = (if rw = READ then tty_read minor buf count else tty_write minor buf count)"

definition rw_tty :: "int \<Rightarrow> nat \<Rightarrow> u32 \<Rightarrow> int \<Rightarrow> (int, 'z tty_state_scheme) proc" where
  "rw_tty rw minor buf count =
     bindp (getp (\<lambda>s. t_tty (cur s))) (\<lambda>t.
       if t < 0 then retp (- EPERM) else rw_ttyx rw (nat t) buf count)"

definition rw_ram :: int where "rw_ram = - EIO"
definition rw_mem :: int where "rw_mem = - EIO"
definition rw_kmem :: int where "rw_kmem = - EIO"

text \<open>The loop of \<open>rw_port\<close> with \<open>n\<close> bytes to go: the port it ends at.\<close>

primrec port_loop :: "nat \<Rightarrow> int \<Rightarrow> u32 \<Rightarrow> int \<Rightarrow> 'z sched_state_scheme \<Rightarrow> int \<times> 'z sched_state_scheme" where
  "port_loop 0 rw buf i s = (i, s)"
| "port_loop (Suc n) rw buf i s =
     (if i < 65536
      then port_loop n rw (buf + 1) (i + 1)
        (if rw = READ then put_fs_byte (inb (word_of_int i) s) buf s else outb (get_fs_byte buf s) (word_of_int i) s)
      else (i, s))"

definition rw_port :: "int \<Rightarrow> u32 \<Rightarrow> int \<Rightarrow> nat \<Rightarrow> 'z fs_state_scheme \<Rightarrow> int \<times> 'z fs_state_scheme" where
  "rw_port rw buf count fp s =
     (let p = f_pos (file_table s fp);
          (i, s) = port_loop (nat count) rw buf p s;
          i = i - f_pos (file_table s fp)
      in (i, upd_file fp (\<lambda>f. f\<lparr>f_pos := f_pos f + i\<rparr>) s))"

definition rw_memory :: "int \<Rightarrow> nat \<Rightarrow> u32 \<Rightarrow> int \<Rightarrow> nat \<Rightarrow> (int, 'z fs_state_scheme) proc" where
  "rw_memory rw minor buf count fp =
     (if minor = 0 then retp rw_ram
      else if minor = 1 then retp rw_mem
      else if minor = 2 then retp rw_kmem
      else if minor = 3 then retp (if rw = READ then 0 else count)
      else if minor = 4 then callp (rw_port rw buf count fp)
      else retp (- EIO))"

definition rw_char :: "int \<Rightarrow> u16 \<Rightarrow> u32 \<Rightarrow> int \<Rightarrow> nat \<Rightarrow> (int, 'z tty_state_scheme) proc" where
  "rw_char rw dev buf count fp =
     (let major = MAJOR (ucast dev); minor = MINOR (ucast dev) in
      if major = 1 then rw_memory rw minor buf count fp
      else if major = 4 then rw_ttyx rw minor buf count
      else if major = 5 then rw_tty rw minor buf count
      else retp (- ENODEV))"

subsection \<open>The system calls\<close>

definition IS_SEEKABLE :: "nat \<Rightarrow> bool" where
  "IS_SEEKABLE x \<longleftrightarrow> 1 \<le> x \<and> x \<le> 3"

text \<open>The open file of a descriptor, \<open>current->filp[fd]\<close> with the bound check.\<close>

definition fget :: "u32 \<Rightarrow> 'z sched_state_scheme \<Rightarrow> nat option" where
  "fget fd s = (if fd < of_nat NR_OPEN then filp (cur s) (unat fd) else None)"

definition lseek_target :: "int \<Rightarrow> int \<Rightarrow> nat \<Rightarrow> nat \<Rightarrow> 'z fs_state_scheme \<Rightarrow> int option" where
  "lseek_target offset whence fp inode s =
     (if whence = 0 then Some offset
      else if whence = 1 then Some (s32 (f_pos (file_table s fp) + offset))
      else if whence = 2 then Some (s32 (uint (i_size (inode_table s inode)) + offset))
      else None)"

definition sys_lseek :: "u32 \<Rightarrow> int \<Rightarrow> int \<Rightarrow> 'z fs_state_scheme \<Rightarrow> int \<times> 'z fs_state_scheme" where
  "sys_lseek fd offset whence s =
     (case fget fd s of
        None \<Rightarrow> (- EBADF, s)
      | Some fp \<Rightarrow>
          (case f_inode (file_table s fp) of
             None \<Rightarrow> (- EBADF, s)
           | Some i \<Rightarrow>
               if \<not> IS_SEEKABLE (MAJOR (ucast (i_dev (inode_table s i)))) then (- EBADF, s)
               else if i_pipe (inode_table s i) \<noteq> 0 then (- ESPIPE, s)
               else
                 case lseek_target offset whence fp i s of
                   None \<Rightarrow> (- EINVAL, s)
                 | Some p \<Rightarrow> if p < 0 then (- EINVAL, s) else (p, upd_file fp (\<lambda>f. f\<lparr>f_pos := p\<rparr>) s)))"

text \<open>The number of bytes a read of a regular file or directory is cut down to; the comparison is unsigned.\<close>

definition clip_count :: "int \<Rightarrow> file_struct \<Rightarrow> m_inode \<Rightarrow> int" where
  "clip_count count f m =
     (if (word_of_int (count + f_pos f) :: u32) > i_size m then s32 (uint (i_size m) - f_pos f) else count)"

definition sys_read :: "u32 \<Rightarrow> u32 \<Rightarrow> int \<Rightarrow> (int, 'z tty_state_scheme) proc" where
  "sys_read fd buf count =
     bindp (getp (fget fd)) (\<lambda>r.
       case r of
         None \<Rightarrow> retp (- EINVAL)
       | Some fp \<Rightarrow>
           if count < 0 then retp (- EINVAL)
           else if count = 0 then retp 0
           else
             seqp (liftp (verify_area buf count))
             (bindp (getp (\<lambda>s. f_inode (file_table s fp))) (\<lambda>r.
                case r of
                  None \<Rightarrow> faultp
                | Some i \<Rightarrow>
                    bindp (getp (\<lambda>s. (inode_table s i, file_table s fp))) (\<lambda>(m, f).
                      if i_pipe m \<noteq> 0 then (if f_mode f AND 1 \<noteq> 0 then read_pipe i buf count else retp (- EIO))
                      else if S_ISCHR (i_mode m) then rw_char READ (i_zone m 0) buf count fp
                      else if S_ISBLK (i_mode m) then block_read (i_zone m 0) fp buf count
                      else if S_ISDIR (i_mode m) \<or> S_ISREG (i_mode m)
                      then (if clip_count count f m \<le> 0 then retp 0 else file_read i fp buf (clip_count count f m))
                      else seqp (modp (printk ''(Read)inode->i_mode=%06o'')) (retp (- EINVAL))))))"

definition sys_write :: "u32 \<Rightarrow> u32 \<Rightarrow> int \<Rightarrow> (int, 'z tty_state_scheme) proc" where
  "sys_write fd buf count =
     bindp (getp (fget fd)) (\<lambda>r.
       case r of
         None \<Rightarrow> retp (- EINVAL)
       | Some fp \<Rightarrow>
           if count < 0 then retp (- EINVAL)
           else if count = 0 then retp 0
           else
             bindp (getp (\<lambda>s. f_inode (file_table s fp))) (\<lambda>r.
                case r of
                  None \<Rightarrow> faultp
                | Some i \<Rightarrow>
                    bindp (getp (\<lambda>s. (inode_table s i, file_table s fp))) (\<lambda>(m, f).
                      if i_pipe m \<noteq> 0 then (if f_mode f AND 2 \<noteq> 0 then write_pipe i buf count else retp (- EIO))
                      else if S_ISCHR (i_mode m) then rw_char WRITE (i_zone m 0) buf count fp
                      else if S_ISBLK (i_mode m) then block_write (i_zone m 0) fp buf count
                      else if S_ISREG (i_mode m) then file_write i fp buf count
                      else seqp (modp (printk ''(Write)inode->i_mode=%06o'')) (retp (- EINVAL)))))"

end
