(* ===== verification/Fs_Pipe_Laws.thy ===== *)
theory Fs_Pipe_Laws
  imports Fs_Files Fs_Cache_Laws
begin

text \<open>
  Pipes. A pipe is a ring buffer in one page of memory; \<open>pipe_list\<close> is the list of the bytes in it. Writing appends to that
  list and reading takes from its front, in one or two rounds of the loop when the bytes wrap around the end of the
  page.
\<close>

subsection \<open>Bytes of physical memory\<close>

lemma byte_of_word:
  fixes x :: u32 and v :: u8
  assumes "k < 4" "l < 4"
  shows "(ucast (drop_bit (8 * k) ((x AND NOT (push_bit (8 * l) 0xff)) OR push_bit (8 * l) (ucast v))) :: u8) =
    (if k = l then v else ucast (drop_bit (8 * k) x))"
proof -
  have m: "(0xff :: u32) = mask 8" by (simp add: mask_eq_exp_minus_1)
  have c: "k = 0 \<or> k = 1 \<or> k = 2 \<or> k = 3" "l = 0 \<or> l = 1 \<or> l = 2 \<or> l = 3" using assms by auto
  show ?thesis unfolding m
    by (rule bit_word_eqI) (use c in \<open>auto simp: bit_simps dest: bit_imp_le_length\<close>)
qed

lemma phys_byte_put: "phys_byte (put_phys_byte a v s) b = (if b = a then v else phys_byte s b)"
proof -
  have lt: "unat (x AND 3) < 4" for x :: u32
    using word_and_le1[of x 3] by (simp add: word_le_nat_alt)
  have eq: "b = a \<longleftrightarrow> b AND NOT 3 = a AND NOT 3 \<and> b AND 3 = a AND 3"
    by (metis and.right_neutral bit.conj_disj_distrib bit.disj_cancel_left)
  have ne: "unat (b AND 3) = unat (a AND 3) \<longleftrightarrow> b AND 3 = a AND 3" by (simp add: word_unat_eq_iff)
  show ?thesis
    using byte_of_word[OF lt lt, of b "load s (a AND NOT 3)" a v] eq ne
    by (auto simp: phys_byte_def put_phys_byte_def load_def store_def Let_def)
qed

lemma put_phys_byte_frame: "put_phys_byte a v s = s\<lparr>phys := phys (put_phys_byte a v s)\<rparr>"
  by (simp add: put_phys_byte_def store_def Let_def)

lemma next_addresses: "Suc k < 2 ^ 32 \<Longrightarrow> p + 1 + of_nat k \<noteq> (p :: u32)"
proof
  assume k: "Suc k < 2 ^ 32" and "p + 1 + of_nat k = p"
  then have "(of_nat (Suc k) :: u32) = 0" by (simp add: algebra_simps)
  then have "unat (of_nat (Suc k) :: u32) = 0" by simp
  then show False using k by (simp add: unat_of_nat take_bit_nat_eq_self del: of_nat_Suc)
qed

lemma outside_Suc:
  fixes a p :: u32
  assumes "\<forall>k<Suc n. a \<noteq> p + of_nat k" shows "a \<noteq> p" "\<forall>k<n. a \<noteq> p + 1 + of_nat k"
proof -
  show "a \<noteq> p" using assms[rule_format, of 0] by simp
  show "\<forall>k<n. a \<noteq> p + 1 + of_nat k" using assms[rule_format, of "Suc _"] by (simp add: add.assoc)
qed

lemma user_to_pipe_effect:
  assumes "n \<le> 4096"
  shows "(\<exists>ph. user_to_pipe n p buf s = s\<lparr>phys := ph\<rparr>) \<and>
    (\<forall>k<n. phys_byte (user_to_pipe n p buf s) (p + of_nat k) = user s (buf + of_nat k)) \<and>
    (\<forall>a. (\<forall>k<n. a \<noteq> p + of_nat k) \<longrightarrow> phys_byte (user_to_pipe n p buf s) a = phys_byte s a)"
  using assms
proof (induction n arbitrary: p buf s)
  case 0
  have "s = s\<lparr>phys := phys s\<rparr>" by simp
  then show ?case by (metis less_nat_zero_code user_to_pipe.simps(1))
next
  case (Suc n)
  define s1 where "s1 = put_phys_byte p (user s buf) s"
  have s1: "\<exists>ph. s1 = s\<lparr>phys := ph\<rparr>" "user s1 = user s" "phys_byte s1 a = (if a = p then user s buf else phys_byte s a)" for a
    by (auto simp: s1_def phys_byte_put) (auto simp: put_phys_byte_def store_def Let_def)
  have e: "user_to_pipe (Suc n) p buf s = user_to_pipe n (p + 1) (buf + 1) s1" by (simp add: s1_def get_fs_byte_def)
  have n: "n \<le> 4096" using Suc.prems by simp
  note ih = Suc.IH[OF n, of "p + 1" "buf + 1" s1]
  have fresh: "p \<noteq> p + 1 + of_nat k" if "k < n" for k using next_addresses[of k p] that Suc.prems by auto
  have 1: "\<exists>ph. user_to_pipe (Suc n) p buf s = s\<lparr>phys := ph\<rparr>" unfolding e using ih s1(1) by auto
  have 2: "phys_byte (user_to_pipe (Suc n) p buf s) (p + of_nat k) = user s (buf + of_nat k)" if "k < Suc n" for k
  proof (cases k)
    case 0
    have "phys_byte (user_to_pipe n (p + 1) (buf + 1) s1) p = phys_byte s1 p" using ih fresh by blast
    then show ?thesis unfolding e using 0 by (simp add: s1)
  next
    case (Suc j)
    then have "phys_byte (user_to_pipe n (p + 1) (buf + 1) s1) (p + 1 + of_nat j) = user s1 (buf + 1 + of_nat j)"
      using ih that by simp
    then show ?thesis unfolding e Suc by (simp only: s1 of_nat_Suc add.assoc)
  qed
  have 3: "phys_byte (user_to_pipe (Suc n) p buf s) a = phys_byte s a" if a: "\<forall>k<Suc n. a \<noteq> p + of_nat k" for a
  proof -
    have "a \<noteq> p" "\<forall>k<n. a \<noteq> p + 1 + of_nat k" using outside_Suc[OF a] by simp_all
    with ih show ?thesis unfolding e by (simp add: s1)
  qed
  show ?case using 1 2 3 by blast
qed

lemma pipe_to_user_effect:
  assumes "n \<le> 4096"
  shows "(\<exists>u. pipe_to_user n p buf s = s\<lparr>user := u\<rparr>) \<and>
    (\<forall>k<n. user (pipe_to_user n p buf s) (buf + of_nat k) = phys_byte s (p + of_nat k)) \<and>
    (\<forall>a. (\<forall>k<n. a \<noteq> buf + of_nat k) \<longrightarrow> user (pipe_to_user n p buf s) a = user s a)"
  using assms
proof (induction n arbitrary: p buf s)
  case 0
  have "s = s\<lparr>user := user s\<rparr>" by simp
  then show ?case by (metis less_nat_zero_code pipe_to_user.simps(1))
next
  case (Suc n)
  define s1 where "s1 = put_fs_byte (phys_byte s p) buf s"
  have s1: "\<exists>u. s1 = s\<lparr>user := u\<rparr>" "user s1 a = (if a = buf then phys_byte s p else user s a)" "phys_byte s1 a = phys_byte s a" for a
    by (auto simp: s1_def put_fs_byte_def phys_byte_def load_def)
  have e: "pipe_to_user (Suc n) p buf s = pipe_to_user n (p + 1) (buf + 1) s1" by (simp add: s1_def)
  have n: "n \<le> 4096" using Suc.prems by simp
  note ih = Suc.IH[OF n, of "p + 1" "buf + 1" s1]
  have fresh: "buf \<noteq> buf + 1 + of_nat k" if "k < n" for k using next_addresses[of k buf] that Suc.prems by auto
  have 1: "\<exists>u. pipe_to_user (Suc n) p buf s = s\<lparr>user := u\<rparr>" unfolding e using ih s1(1) by auto
  have 2: "user (pipe_to_user (Suc n) p buf s) (buf + of_nat k) = phys_byte s (p + of_nat k)" if "k < Suc n" for k
  proof (cases k)
    case 0
    have "user (pipe_to_user n (p + 1) (buf + 1) s1) buf = user s1 buf" using ih fresh by blast
    then show ?thesis unfolding e using 0 by (simp add: s1)
  next
    case (Suc j)
    then have "user (pipe_to_user n (p + 1) (buf + 1) s1) (buf + 1 + of_nat j) = phys_byte s1 (p + 1 + of_nat j)"
      using ih that by simp
    then show ?thesis unfolding e Suc by (simp only: s1 of_nat_Suc add.assoc)
  qed
  have 3: "user (pipe_to_user (Suc n) p buf s) a = user s a" if a: "\<forall>k<Suc n. a \<noteq> buf + of_nat k" for a
  proof -
    have "a \<noteq> buf" "\<forall>k<n. a \<noteq> buf + 1 + of_nat k" using outside_Suc[OF a] by simp_all
    with ih show ?thesis unfolding e by (simp add: s1)
  qed
  show ?case using 1 2 3 by blast
qed

subsection \<open>The bytes in a pipe\<close>

abbreviation "PH i s \<equiv> unat (PIPE_HEAD (inode_table s i))"
abbreviation "PT i s \<equiv> unat (PIPE_TAIL (inode_table s i))"
abbreviation "PN i s \<equiv> nat (PIPE_SIZE (inode_table s i))"

definition pipe_ok :: "nat \<Rightarrow> 'z fs_state_scheme \<Rightarrow> bool" where
  "pipe_ok i s \<longleftrightarrow> PH i s < 4096 \<and> PT i s < 4096"

definition pipe_at :: "nat \<Rightarrow> 'z fs_state_scheme \<Rightarrow> nat \<Rightarrow> u8" where
  "pipe_at i s q = phys_byte s (i_size (inode_table s i) + of_nat q)"

definition pipe_list :: "nat \<Rightarrow> 'z fs_state_scheme \<Rightarrow> u8 list" where
  "pipe_list i s = map (\<lambda>k. pipe_at i s ((PT i s + k) mod 4096)) [0..<PN i s]"

definition user_bytes :: "nat \<Rightarrow> u32 \<Rightarrow> 'z sched_state_scheme \<Rightarrow> u8 list" where
  "user_bytes n buf s = map (\<lambda>k. user s (buf + of_nat k)) [0..<n]"

lemma pipe_ok_uint: "pipe_ok i s \<Longrightarrow> uint (PIPE_HEAD (inode_table s i)) < 4096 \<and> uint (PIPE_TAIL (inode_table s i)) < 4096"
proof -
  assume "pipe_ok i s"
  then have "int (PH i s) < int 4096" "int (PT i s) < int 4096" by (simp_all only: pipe_ok_def of_nat_less_iff)
  then show ?thesis by simp
qed

lemma length_pipe_list [simp]: "length (pipe_list i s) = PN i s"
  by (simp add: pipe_list_def)

lemma ring_size:
  fixes h t n :: nat
  assumes "int n = (int h - int t) mod 4096" "h < 4096" "t < 4096"
  shows "n < 4096" "(t + n) mod 4096 = h"
proof -
  have "int n < 4096" using assms(1) by simp
  then show "n < 4096" by simp
  have "int ((t + n) mod 4096) = (int t + (int h - int t) mod 4096) mod 4096" by (simp add: zmod_int assms(1))
  also have "\<dots> = int h" using assms(2) by (simp add: mod_add_right_eq)
  finally show "(t + n) mod 4096 = h" by simp
qed

lemma PN_ring:
  assumes "pipe_ok i s" shows "PN i s < 4096" "(PT i s + PN i s) mod 4096 = PH i s" "int (PN i s) = PIPE_SIZE (inode_table s i)"
proof -
  show n: "int (PN i s) = PIPE_SIZE (inode_table s i)" by (simp add: PIPE_SIZE_def)
  have "int (PN i s) = (int (PH i s) - int (PT i s)) mod 4096" by (simp add: n) (simp add: PIPE_SIZE_def)
  from ring_size[OF this] assms show "PN i s < 4096" "(PT i s + PN i s) mod 4096 = PH i s" by (simp_all add: pipe_ok_def)
qed

lemma ring_size_unique:
  fixes h t n :: nat
  assumes "n < 4096" "(t + n) mod 4096 = h" shows "(int h - int t) mod 4096 = int n"
proof -
  have "int h = (int t + int n) mod 4096" using arg_cong[OF assms(2), of int] by (simp add: zmod_int)
  then have "(int h - int t) mod 4096 = ((int t + int n) mod 4096 - int t) mod 4096" by simp
  also have "\<dots> = int n" using assms(1) by (simp add: mod_diff_left_eq)
  finally show ?thesis .
qed

lemma PN_eqI: "(PT i s + n) mod 4096 = PH i s \<Longrightarrow> n < 4096 \<Longrightarrow> PN i s = n"
  using ring_size_unique[of n "PT i s" "PH i s"] by (simp add: PIPE_SIZE_def)

lemma ring_distinct:
  fixes t k l n :: nat
  assumes "k < n" "n + l < 4096" shows "(t + k) mod 4096 \<noteq> (t + n + l) mod 4096"
proof
  assume "(t + k) mod 4096 = (t + n + l) mod 4096"
  then have "4096 dvd (t + n + l) - (t + k)" using assms(1) by (metis mod_eq_dvd_iff_nat add_le_mono le_add1 le_trans less_imp_le order_refl)
  then show False using assms nat_dvd_not_less[of "n + l - k" 4096] by simp
qed

lemma ring_position:
  fixes t n h l :: nat
  assumes "(t + n) mod 4096 = h" "h + l < 4096" shows "(t + n + l) mod 4096 = h + l"
  using assms by (metis mod_add_left_eq mod_less)

lemma unat_and_fff: "unat ((x :: u16) AND 0xfff) = unat x mod 4096"
proof -
  have "x AND 0xfff = take_bit 12 x" by (simp add: take_bit_eq_mask mask_eq_exp_minus_1)
  then show ?thesis by (simp only: unsigned_take_bit_eq take_bit_eq_mod) (simp add: unat_mod)
qed

lemma advance:
  assumes "unat (x :: u16) < 4096" "c \<le> 4096" shows "unat ((x + word_of_int (int c)) AND 0xfff) = (unat x + c) mod 4096"
proof -
  have "unat (x + of_nat c) = unat x + c" using assms by (simp add: unat_word_ariths unat_of_nat take_bit_nat_eq_self)
  then show ?thesis by (simp add: unat_and_fff)
qed

lemma of_nat_inj_page: "p + of_nat a = p + (of_nat b :: u32) \<Longrightarrow> a < 8192 \<Longrightarrow> b < 8192 \<Longrightarrow> a = b"
proof -
  assume "p + of_nat a = p + (of_nat b :: u32)" and l: "a < 8192" "b < 8192"
  then have "unat (of_nat a :: u32) = unat (of_nat b :: u32)" by simp
  then show "a = b" using l by (simp add: unat_of_nat take_bit_nat_eq_self)
qed

lemma pipe_put_appends:
  assumes ok: "pipe_ok i s" and count: "0 < count" "count \<le> 4095 - int (PN i s)"
    and r: "pipe_put i count buf s = (c, s')"
  shows "c = min (4096 - int (PH i s)) count" "0 < c" "pipe_ok i s'"
    "pipe_list i s' = pipe_list i s @ user_bytes (nat c) buf s" "user s' = user s" "PH i s' = (PH i s + nat c) mod 4096"
proof -
  define m where "m = inode_table s i"
  define n where "n = PN i s"
  define s1 where "s1 = upd_inode i (\<lambda>m. m\<lparr>i_zone := (i_zone m)(0 := (PIPE_HEAD m + word_of_int c) AND 0xfff)\<rparr>) s"
  have n: "n < 4096" "(PT i s + n) mod 4096 = PH i s" using PN_ring[OF ok] by (simp_all add: n_def)
  show c: "c = min (4096 - int (PH i s)) count"
    using r count PN_ring(3)[OF ok] by (simp add: pipe_put_def Let_def)
  have s': "s' = user_to_pipe (nat c) (i_size m + of_nat (PH i s)) buf s1"
    using r by (auto simp: pipe_put_def Let_def s1_def m_def)
  show c0: "0 < c" using c count pipe_ok_uint[OF ok] by simp
  have cle: "nat c \<le> 4096" "PH i s + nat c \<le> 4096" "n + nat c < 4096" 
  proof -
    have "c \<le> 4096 - int (PH i s)" "c \<le> count" unfolding c by (rule min.cobounded1, rule min.cobounded2)
    moreover have "int (nat c) = c" using c0 by simp
    ultimately have "int (nat c) \<le> 4096" "int (PH i s) + int (nat c) \<le> 4096" "int (PN i s) + int (nat c) < 4096"
      using count(2) by linarith+
    then show "nat c \<le> 4096" "PH i s + nat c \<le> 4096" "n + nat c < 4096" unfolding n_def by linarith+
  qed
  note e = user_to_pipe_effect[OF cle(1), of "i_size m + of_nat (PH i s)" buf s1, folded s']
  have u1: "user s1 = user s" "phys_byte s1 = phys_byte s" by (simp_all add: s1_def upd_inode_def phys_byte_def load_def fun_eq_iff)
  show us: "user s' = user s" using e u1 by auto
  have it: "inode_table s' i = m\<lparr>i_zone := (i_zone m)(0 := (PIPE_HEAD m + word_of_int c) AND 0xfff)\<rparr>"
    using e by (auto simp: s1_def upd_inode_def m_def)
  have hd: "PH i s' = (PH i s + nat c) mod 4096"
    using advance[of "PIPE_HEAD m" "nat c"] ok cle(1) c0 by (simp add: it PIPE_HEAD_def pipe_ok_def m_def)
  show "PH i s' = (PH i s + nat c) mod 4096" by (rule hd)
  have tl: "PT i s' = PT i s" by (simp add: it PIPE_TAIL_def m_def)
  show "pipe_ok i s'" using ok hd tl by (simp add: pipe_ok_def)
  have "(PT i s' + (n + nat c)) mod 4096 = PH i s'" by (simp add: hd tl mod_add_left_eq flip: n(2)) (simp add: add.assoc)
  then have n': "PN i s' = n + nat c" using cle(3) by (rule PN_eqI)
  have old: "pipe_at i s' ((PT i s + k) mod 4096) = pipe_at i s ((PT i s + k) mod 4096)" if "k < n" for k
  proof -
    have "i_size m + of_nat ((PT i s + k) mod 4096) \<noteq> i_size m + of_nat (PH i s) + of_nat l" if l: "l < nat c" for l
    proof
      assume "i_size m + of_nat ((PT i s + k) mod 4096) = i_size m + of_nat (PH i s) + of_nat l"
      then have "i_size m + of_nat ((PT i s + k) mod 4096) = i_size m + of_nat (PH i s + l)" by (simp add: add.assoc)
      then have "(PT i s + k) mod 4096 = PH i s + l" by (rule of_nat_inj_page) (use l cle in auto)
      also have "\<dots> = (PT i s + n + l) mod 4096" using ring_position[OF n(2), of l] l cle by simp
      finally show False using ring_distinct[OF \<open>k < n\<close>, of l "PT i s"] l cle by simp
    qed
    then show ?thesis using e by (simp add: pipe_at_def it u1(2)) (simp add: m_def)
  qed
  have new: "pipe_at i s' ((PT i s + (n + l)) mod 4096) = user s (buf + of_nat l)" if l: "l < nat c" for l
  proof -
    have p: "(PT i s + (n + l)) mod 4096 = PH i s + l" using ring_position[OF n(2), of l] l cle by (simp add: add.assoc)
    have "phys_byte s' (i_size m + of_nat (PH i s) + of_nat l) = user s1 (buf + of_nat l)" using e l by simp
    then show ?thesis by (simp add: pipe_at_def it p u1(1) add.assoc)
  qed
  show "pipe_list i s' = pipe_list i s @ user_bytes (nat c) buf s"
  proof (rule nth_equalityI)
    fix j assume "j < length (pipe_list i s')"
    then have "j < n + nat c" by (simp add: n')
    then show "pipe_list i s' ! j = (pipe_list i s @ user_bytes (nat c) buf s) ! j"
      using old[of j] new[of "j - n"]
      by (cases "j < n") (simp_all add: pipe_list_def user_bytes_def n' tl nth_append n_def[symmetric] del: of_nat_diff)
  qed (simp add: n' user_bytes_def n_def)
qed

lemma pipe_get_takes:
  assumes ok: "pipe_ok i s" and count: "0 < count" "count \<le> int (PN i s)" and r: "pipe_get i count buf s = (c, s')"
  shows "c = min (4096 - int (PT i s)) count" "0 < c" "pipe_ok i s'"
    "pipe_list i s' = drop (nat c) (pipe_list i s)" "user_bytes (nat c) buf s' = take (nat c) (pipe_list i s)"
    "PT i s' = (PT i s + nat c) mod 4096" "\<And>a. (\<forall>k<nat c. a \<noteq> buf + of_nat k) \<Longrightarrow> user s' a = user s a"
proof -
  define m where "m = inode_table s i"
  define n where "n = PN i s"
  define s1 where "s1 = upd_inode i (\<lambda>m. m\<lparr>i_zone := (i_zone m)(1 := (PIPE_TAIL m + word_of_int c) AND 0xfff)\<rparr>) s"
  have n: "n < 4096" "(PT i s + n) mod 4096 = PH i s" using PN_ring[OF ok] by (simp_all add: n_def)
  show c: "c = min (4096 - int (PT i s)) count"
    using r count PN_ring(3)[OF ok] by (simp add: pipe_get_def Let_def)
  have s': "s' = pipe_to_user (nat c) (i_size m + of_nat (PT i s)) buf s1"
    using r by (auto simp: pipe_get_def Let_def s1_def m_def)
  show c0: "0 < c" using c count pipe_ok_uint[OF ok] by simp
  have cle: "nat c \<le> 4096" "PT i s + nat c \<le> 4096" "nat c \<le> n"
  proof -
    have "c \<le> 4096 - int (PT i s)" "c \<le> count" unfolding c by (rule min.cobounded1, rule min.cobounded2)
    moreover have "int (nat c) = c" using c0 by simp
    ultimately have "int (nat c) \<le> 4096" "int (PT i s) + int (nat c) \<le> 4096" "int (nat c) \<le> int (PN i s)"
      using count(2) by linarith+
    then show "nat c \<le> 4096" "PT i s + nat c \<le> 4096" "nat c \<le> n" unfolding n_def by linarith+
  qed
  note e = pipe_to_user_effect[OF cle(1), of "i_size m + of_nat (PT i s)" buf s1, folded s']
  have p1: "user s1 = user s" "phys_byte s1 = phys_byte s" by (simp_all add: s1_def upd_inode_def phys_byte_def load_def fun_eq_iff)
  have p': "phys_byte s' = phys_byte s" using e p1 by (auto simp: phys_byte_def load_def fun_eq_iff)
  show "user s' a = user s a" if "\<forall>k<nat c. a \<noteq> buf + of_nat k" for a using e that p1 by simp
  have it: "inode_table s' i = m\<lparr>i_zone := (i_zone m)(1 := (PIPE_TAIL m + word_of_int c) AND 0xfff)\<rparr>"
    using e by (auto simp: s1_def upd_inode_def m_def)
  have tl: "PT i s' = (PT i s + nat c) mod 4096"
    using advance[of "PIPE_TAIL m" "nat c"] ok cle(1) c0 by (simp add: it PIPE_TAIL_def pipe_ok_def m_def)
  show "PT i s' = (PT i s + nat c) mod 4096" by (rule tl)
  have hd: "PH i s' = PH i s" by (simp add: it PIPE_HEAD_def m_def)
  show "pipe_ok i s'" using ok hd tl by (simp add: pipe_ok_def)
  have "(PT i s' + (n - nat c)) mod 4096 = (PT i s + nat c + (n - nat c)) mod 4096" unfolding tl by (rule mod_add_left_eq)
  also have "\<dots> = PH i s'" using cle(3) n(2) by (simp add: hd)
  finally have "(PT i s' + (n - nat c)) mod 4096 = PH i s'" .
  then have n': "PN i s' = n - nat c" using n(1) by (intro PN_eqI) simp_all
  have at: "pipe_at i s' = pipe_at i s" by (simp add: pipe_at_def it p' fun_eq_iff m_def)
  show "pipe_list i s' = drop (nat c) (pipe_list i s)"
  proof (rule nth_equalityI)
    fix j assume "j < length (pipe_list i s')"
    then have j: "j < n - nat c" by (simp add: n')
    have "(PT i s' + j) mod 4096 = (PT i s + (nat c + j)) mod 4096" by (simp add: tl mod_add_left_eq add.assoc)
    then show "pipe_list i s' ! j = drop (nat c) (pipe_list i s) ! j"
      using j cle(3) nth_upt[of 0 "nat c + j" n] by (simp add: pipe_list_def n' n_def[symmetric] at)
  qed (simp add: n' n_def)
  show "user_bytes (nat c) buf s' = take (nat c) (pipe_list i s)"
  proof (rule nth_equalityI)
    fix j assume "j < length (user_bytes (nat c) buf s')"
    then have j: "j < nat c" by (simp add: user_bytes_def)
    have "user s' (buf + of_nat j) = phys_byte s (i_size m + of_nat (PT i s) + of_nat j)" using e j p1 by simp
    moreover have "(PT i s + j) mod 4096 = PT i s + j" using j cle(2) by simp
    ultimately show "user_bytes (nat c) buf s' ! j = take (nat c) (pipe_list i s) ! j"
      using j cle(3) by (simp add: user_bytes_def pipe_list_def n_def[symmetric] pipe_at_def m_def add.assoc)
  qed (use cle(3) in \<open>simp add: user_bytes_def n_def\<close>)
qed

subsection \<open>The loops\<close>

lemma user_bytes_append: "user_bytes (a + b) buf s = user_bytes a buf s @ user_bytes b (buf + of_nat a) s"
  by (induction b) (simp_all add: user_bytes_def add.assoc)

lemma user_bytes_cong: "user s = user t \<Longrightarrow> user_bytes n buf s = user_bytes n buf t"
  by (simp add: user_bytes_def)

text \<open>The rounds a copy of \<open>count\<close> bytes from position \<open>q\<close> of the page takes, with the last test.\<close>

definition rounds :: "nat \<Rightarrow> int \<Rightarrow> nat" where
  "rounds q count = (if count \<le> 0 then 1 else if int q + count \<le> 4096 then 2 else 3)"

lemma rounds_step:
  assumes "0 < count" "q < 4096" "count \<le> 4096" "c = min (4096 - int q) count" "rounds q count \<le> Suc n"
  shows "rounds ((q + nat c) mod 4096) (count - c) \<le> n"
proof (cases "int q + count \<le> 4096")
  case True
  then show ?thesis using assms by (simp add: rounds_def)
next
  case False
  then have "c = 4096 - int q" using assms(4) by simp
  moreover from this have "q + nat c = 4096" using assms(2) by simp
  ultimately show ?thesis using assms False by (simp add: rounds_def)
qed

lemma write_pipe_loop_appends:
  assumes "pipe_ok i s" "0 \<le> count" "count \<le> 4095 - int (PN i s)" "rounds (PH i s) count \<le> n"
  shows "\<exists>s'. write_pipe_loop n i buf count wr w s = Ok ((True, wr + count), w) s' \<and> pipe_ok i s' \<and>
    pipe_list i s' = pipe_list i s @ user_bytes (nat count) buf s \<and> user s' = user s"
  using assms
proof (induction n arbitrary: buf count wr s)
  case 0
  then show ?case by (simp add: rounds_def split: if_splits)
next
  case (Suc n)
  show ?case
  proof (cases "count = 0")
    case False
    obtain c s1 where p: "pipe_put i count buf s = (c, s1)" by fastforce
    have c0: "0 < count" using False Suc.prems(2) by simp
    note a = pipe_put_appends[OF Suc.prems(1) c0 Suc.prems(3) p]
    have cc: "c \<le> count" by (simp add: a(1))
    have n1: "int (PN i s1) = int (PN i s) + c" using arg_cong[OF a(4), of length] a(2) by (simp add: user_bytes_def)
    have r: "rounds (PH i s1) (count - c) \<le> n"
      using rounds_step[OF c0 _ _ a(1) Suc.prems(4)] Suc.prems(1,3) a(6) by (simp add: pipe_ok_def)
    obtain s' where s': "write_pipe_loop n i (buf + word_of_int c) (count - c) (wr + c) w s1 = Ok ((True, wr + count), w) s'"
      "pipe_ok i s'" "pipe_list i s' = pipe_list i s1 @ user_bytes (nat (count - c)) (buf + word_of_int c) s1" "user s' = user s1"
      using Suc.IH[of s1 "count - c" "buf + word_of_int c" "wr + c"] a(3) cc n1 r Suc.prems(3) by auto
    have ne: "PIPE_SIZE (inode_table s i) \<noteq> 4095" using Suc.prems(3) c0 PN_ring(3)[OF Suc.prems(1)] by linarith
    have "write_pipe_loop (Suc n) i buf count wr w s = write_pipe_loop n i (buf + word_of_int c) (count - c) (wr + c) w s1"
      using c0 ne by (simp add: ifp_def bindp_def callp_def p)
    moreover have "user_bytes (nat count) buf s = user_bytes (nat c) buf s @ user_bytes (nat (count - c)) (buf + word_of_int c) s1"
      using user_bytes_append[of "nat c" "nat (count - c)" buf s] a(2,5) cc user_bytes_cong[of s s1]
      by (simp flip: nat_add_distrib)
    ultimately show ?thesis using s' a(4,5) by auto
  qed (use Suc.prems in \<open>simp add: retp_def user_bytes_def\<close>)
qed

lemma read_pipe_loop_takes:
  assumes "pipe_ok i s" "0 \<le> count" "count \<le> int (PN i s)" "rounds (PT i s) count \<le> n"
  shows "\<exists>s'. read_pipe_loop n i buf count rd w s = Ok ((True, rd + count), w) s' \<and> pipe_ok i s' \<and>
    pipe_list i s' = drop (nat count) (pipe_list i s) \<and> user_bytes (nat count) buf s' = take (nat count) (pipe_list i s) \<and>
    (\<forall>a. (\<forall>k<nat count. a \<noteq> buf + of_nat k) \<longrightarrow> user s' a = user s a)"
  using assms
proof (induction n arbitrary: buf count rd s)
  case 0
  then show ?case by (simp add: rounds_def split: if_splits)
next
  case (Suc n)
  show ?case
  proof (cases "count = 0")
    case False
    obtain c s1 where p: "pipe_get i count buf s = (c, s1)" by fastforce
    have c0: "0 < count" using False Suc.prems(2) by simp
    note a = pipe_get_takes[OF Suc.prems(1) c0 Suc.prems(3) p]
    have cc: "c \<le> count" by (simp add: a(1))
    have le: "count \<le> 4096" using Suc.prems(3) PN_ring(1)[OF Suc.prems(1)] by linarith
    have n1: "PN i s1 = PN i s - nat c" using arg_cong[OF a(4), of length] by simp
    have r: "rounds (PT i s1) (count - c) \<le> n"
      using rounds_step[OF c0 _ le a(1) Suc.prems(4)] Suc.prems(1) a(6) by (simp add: pipe_ok_def)
    obtain s' where s': "read_pipe_loop n i (buf + of_nat (nat c)) (count - c) (rd + c) w s1 = Ok ((True, rd + count), w) s'"
      "pipe_ok i s'" "pipe_list i s' = drop (nat (count - c)) (pipe_list i s1)"
      "user_bytes (nat (count - c)) (buf + of_nat (nat c)) s' = take (nat (count - c)) (pipe_list i s1)"
      "\<forall>a. (\<forall>k<nat (count - c). a \<noteq> buf + of_nat (nat c) + of_nat k) \<longrightarrow> user s' a = user s1 a"
      using Suc.IH[of s1 "count - c" "buf + of_nat (nat c)" "rd + c"] a(2,3) cc n1 r Suc.prems(3) by auto
    have ne: "PIPE_SIZE (inode_table s i) \<noteq> 0" using Suc.prems(3) c0 PN_ring(3)[OF Suc.prems(1)] by linarith
    have l: "read_pipe_loop (Suc n) i buf count rd w s = read_pipe_loop n i (buf + of_nat (nat c)) (count - c) (rd + c) w s1"
      using c0 ne a(2) by (simp add: ifp_def bindp_def callp_def p)
    have sum: "nat count = nat c + nat (count - c)" using a(2) cc by simp
    have keep: "user s' (buf + of_nat k) = user s1 (buf + of_nat k)" if k: "k < nat c" for k
    proof -
      have "buf + of_nat k \<noteq> buf + of_nat (nat c) + of_nat j" if "j < nat (count - c)" for j
      proof -
        have "nat c + j < 8192" using that sum le by linarith
        then show ?thesis using of_nat_inj_page[of buf k "nat c + j"] k by (auto simp: add.assoc)
      qed
      then show ?thesis using s'(5) by blast
    qed
    have b1: "user_bytes (nat c) buf s' = take (nat c) (pipe_list i s)"
    proof -
      have "user_bytes (nat c) buf s' = user_bytes (nat c) buf s1" unfolding user_bytes_def by (intro map_cong refl keep) simp
      then show ?thesis by (simp only: a(5))
    qed
    have b2: "user_bytes (nat count) buf s' = take (nat count) (pipe_list i s)"
      unfolding sum user_bytes_append b1 s'(4) a(4) by (simp add: take_add)
    have out: "user s' x = user s x" if x: "\<forall>k<nat count. x \<noteq> buf + of_nat k" for x
    proof -
      have "x \<noteq> buf + of_nat (nat c) + of_nat k" if "k < nat (count - c)" for k
        using x[rule_format, of "nat c + k"] that sum by (simp add: add.assoc)
      then have "user s' x = user s1 x" using s'(5) by blast
      also have "\<dots> = user s x" by (rule a(7)) (use x sum in simp)
      finally show ?thesis .
    qed
    have "pipe_list i s' = drop (nat count) (pipe_list i s)" using s'(3) a(4) sum by (simp add: add.commute)
    then show ?thesis using l s'(1,2) b2 out by auto
  qed (use Suc.prems in \<open>simp add: retp_def user_bytes_def\<close>)
qed

subsection \<open>Properties\<close>

lemma wake_up_fields [simp]: "inode_table (wake_up q s) = inode_table s" "user (wake_up q s) = user s" "phys (wake_up q s) = phys s"
  by (simp_all add: wake_up_def upd_task_def split: option.split)

lemma pipe_wake_up [simp]: "pipe_list i (wake_up q s) = pipe_list i s" "pipe_ok i (wake_up q s) = pipe_ok i s"
  "user_bytes n buf (wake_up q s) = user_bytes n buf s"
  by (simp_all add: pipe_list_def pipe_at_def pipe_ok_def user_bytes_def phys_byte_def load_def)

lemma rounds_le: "rounds q count \<le> 3" by (simp add: rounds_def)

lemma write_pipe_appends:
  assumes "pipe_ok i s" "0 \<le> count" "count \<le> 4095 - int (PN i s)" "3 \<le> fuel w"
  shows "\<exists>s'. write_pipe i buf count w s = Ok (count, w) s' \<and> pipe_ok i s' \<and>
    pipe_list i s' = pipe_list i s @ user_bytes (nat count) buf s \<and> user s' = user s"
proof -
  obtain s1 where s1: "write_pipe_loop (fuel w) i buf count 0 w s = Ok ((True, count), w) s1" "pipe_ok i s1"
    "pipe_list i s1 = pipe_list i s @ user_bytes (nat count) buf s" "user s1 = user s"
    using write_pipe_loop_appends[OF assms(1-3) order_trans[OF rounds_le assms(4)], of buf 0 w] by auto
  then show ?thesis
    by (intro exI[of _ "wake_up (Some (WInode i)) s1"]) (simp add: write_pipe_def bindp_def fuelp_def seqp_def modp_def retp_def)
qed

lemma read_pipe_takes:
  assumes "pipe_ok i s" "0 \<le> count" "count \<le> int (PN i s)" "3 \<le> fuel w"
  shows "\<exists>s'. read_pipe i buf count w s = Ok (count, w) s' \<and> pipe_ok i s' \<and>
    pipe_list i s' = drop (nat count) (pipe_list i s) \<and> user_bytes (nat count) buf s' = take (nat count) (pipe_list i s)"
proof -
  obtain s1 where s1: "read_pipe_loop (fuel w) i buf count 0 w s = Ok ((True, count), w) s1" "pipe_ok i s1"
    "pipe_list i s1 = drop (nat count) (pipe_list i s)" "user_bytes (nat count) buf s1 = take (nat count) (pipe_list i s)"
    using read_pipe_loop_takes[OF assms(1-3) order_trans[OF rounds_le assms(4)], of buf 0 w] by auto
  then show ?thesis
    by (intro exI[of _ "wake_up (Some (WInode i)) s1"]) (simp add: read_pipe_def bindp_def fuelp_def seqp_def modp_def retp_def)
qed

text \<open>C8. Pipes are first-in, first-out. When there is room, \<open>write_pipe\<close> returns without sleeping, within three rounds, and has appended
  the bytes of the user's buffer to the pipe; \<open>read_pipe\<close> of everything that is then in the pipe returns it in order, the old
  bytes first, and leaves the pipe empty. It does not matter where in the page head and tail are.\<close>

theorem pipe_fifo:
  assumes "pipe_ok i s" "0 \<le> count" "count \<le> 4095 - int (length (pipe_list i s))" "3 \<le> fuel w"
  shows "\<exists>s1 s2. write_pipe i buf count w s = Ok (count, w) s1 \<and>
    read_pipe i buf' (int (length (pipe_list i s)) + count) w s1 = Ok (int (length (pipe_list i s)) + count, w) s2 \<and>
    user_bytes (length (pipe_list i s) + nat count) buf' s2 = pipe_list i s @ user_bytes (nat count) buf s \<and>
    pipe_list i s2 = [] \<and> pipe_ok i s2"
proof -
  obtain s1 where s1: "write_pipe i buf count w s = Ok (count, w) s1" "pipe_ok i s1"
    "pipe_list i s1 = pipe_list i s @ user_bytes (nat count) buf s"
    using write_pipe_appends[of i s count w buf] assms by auto
  have l: "PN i s1 = length (pipe_list i s) + nat count" using arg_cong[OF s1(3), of length] by (simp add: user_bytes_def)
  have n: "nat (int (length (pipe_list i s)) + count) = PN i s1" using l assms(2) by linarith
  have le: "0 \<le> int (length (pipe_list i s)) + count" "int (length (pipe_list i s)) + count \<le> int (PN i s1)"
    using n assms(2) by linarith+
  obtain s2 where s2: "read_pipe i buf' (int (length (pipe_list i s)) + count) w s1 = Ok (int (length (pipe_list i s)) + count, w) s2"
    "pipe_ok i s2" "pipe_list i s2 = drop (PN i s1) (pipe_list i s1)" "user_bytes (PN i s1) buf' s2 = take (PN i s1) (pipe_list i s1)"
    using read_pipe_takes[OF s1(2) le assms(4), of buf'] unfolding n by blast
  have "user_bytes (length (pipe_list i s) + nat count) buf' s2 = pipe_list i s @ user_bytes (nat count) buf s" "pipe_list i s2 = []"
    using s2(3,4) s1(3) l by (metis length_pipe_list take_all order_refl, simp add: user_bytes_def)
  then show ?thesis using s1(1) s2(1,2) by blast
qed

theorem pipe_fifo_witness:
  "\<exists>s1 s2. write_pipe 0 0x1000 3 demo_world (demo_fs\<lparr>inode_table := (\<lambda>_. no_inode\<lparr>i_zone := (\<lambda>_. 4094)\<rparr>), user := (\<lambda>a. ucast a)\<rparr>) = Ok (3, demo_world) s1 \<and>
     read_pipe 0 0x2000 3 demo_world s1 = Ok (3, demo_world) s2 \<and> user_bytes 3 0x2000 s2 = [0, 1, 2]"
proof -
  let ?s = "demo_fs\<lparr>inode_table := (\<lambda>_. no_inode\<lparr>i_zone := (\<lambda>_. 4094)\<rparr>), user := (\<lambda>a. ucast a)\<rparr>"
  have e: "pipe_list 0 ?s = []" by (simp add: pipe_list_def PIPE_SIZE_def PIPE_HEAD_def PIPE_TAIL_def)
  have "pipe_ok 0 ?s" by (simp add: pipe_ok_def PIPE_HEAD_def PIPE_TAIL_def)
  from pipe_fifo[OF this, of 3 demo_world "0x1000" "0x2000"] show ?thesis
    by (auto simp: e demo_world_def) (simp add: user_bytes_def upt_rec)
qed

end
