(* ===== verification/Fs_Open.thy ===== *)
theory Fs_Open
  imports Fs_Files
begin

text \<open>
  Super blocks and mounting (the rest of src/fs/super.c), changed diskettes (\<open>check_disk_change\<close> of src/fs/buffer.c,
  \<open>floppy_change\<close> of src/kernel/blk_drv/floppy.c), and the calls of src/fs/open.c, fcntl.c, stat.c and ioctl.c. The
  padding bytes of the uninitialised \<open>struct stat\<close> that \<open>cp_stat\<close> copies to user space are an argument. \<open>sys_open\<close> with a
  terminal whose minor number is above 2 writes behind \<open>tty_table\<close>, a \<open>Fault\<close> here.
\<close>

abbreviation (input) ENOTBLK :: int where "ENOTBLK \<equiv> 15"
abbreviation (input) O_NONBLOCK :: u32 where "O_NONBLOCK \<equiv> 0x800"
abbreviation (input) FD_DIR :: u16 where "FD_DIR \<equiv> 0x3f7"

subsection \<open>Super blocks\<close>

definition release_maps :: "nat \<Rightarrow> (unit, 'z fs_state_scheme) proc" where
  "release_maps sb =
     seqp (forp [0..<I_MAP_SLOTS] (\<lambda>i. bindp (getp (\<lambda>s. s_imap (super_blocks s sb) i)) brelse))
       (forp [0..<Z_MAP_SLOTS] (\<lambda>i. bindp (getp (\<lambda>s. s_zmap (super_blocks s sb) i)) brelse))"

definition set_s_dev :: "nat \<Rightarrow> u16 \<Rightarrow> 'z fs_state_scheme \<Rightarrow> 'z fs_state_scheme" where
  "set_s_dev sb dev s = upd_super sb (\<lambda>p. p\<lparr>s_dev := dev\<rparr>) s"

definition put_super :: "u16 \<Rightarrow> (unit, 'z fs_state_scheme) proc" where
  "put_super dev =
     ifp (\<lambda>s. dev = ROOT_DEV s) (modp (printk ''root diskette changed: prepare for armageddon''))
     (bindp (get_super dev) (\<lambda>r.
        case r of
          None \<Rightarrow> retp ()
        | Some sb \<Rightarrow>
            ifp (\<lambda>s. s_imount (super_blocks s sb) \<noteq> None) (modp (printk ''Mounted disk changed - tssk, tssk''))
              (donep [lock_super sb, modp (set_s_dev sb 0), release_maps sb, modp (free_super sb)] ())))"

definition floppy_onp :: "nat \<Rightarrow> (unit, 'z sched_state_scheme) proc" where
  "floppy_onp nr = (\<lambda>w s. bindk (floppy_on nr (events w) s) (\<lambda>ev s. Ok ((), w\<lparr>events := ev\<rparr>) s))"

primrec floppy_change_loop :: "nat \<Rightarrow> nat \<Rightarrow> (bool, 'z sched_state_scheme) proc" where
  "floppy_change_loop 0 nr = stuckp"
| "floppy_change_loop (Suc n) nr =
     seqp (floppy_onp nr)
     (seqp (isleep_while (\<lambda>s. current_DOR s AND 3 \<noteq> of_nat nr \<and> selected s \<noteq> 0) WFloppySelect)
     (ifp (\<lambda>s. current_DOR s AND 3 \<noteq> of_nat nr) (floppy_change_loop n nr)
       (bindp (getp (\<lambda>s. inb FD_DIR s AND 0x80 \<noteq> 0)) (\<lambda>c.
          seqp (modp (floppy_off nr)) (retp c)))))"

definition floppy_change :: "nat \<Rightarrow> (bool, 'z sched_state_scheme) proc" where
  "floppy_change nr = fuelp (\<lambda>n. floppy_change_loop n nr)"

definition check_disk_change :: "u16 \<Rightarrow> (unit, 'z fs_state_scheme) proc" where
  "check_disk_change dev =
     (if MAJOR (ucast dev) \<noteq> 2 then retp ()
      else
        bindp (floppy_change (unat (dev AND 3))) (\<lambda>c.
          if \<not> c then retp ()
          else
            donep [forp [0..<NR_SUPER] (\<lambda>i. ifp (\<lambda>s. s_dev (super_blocks s i) = dev) (put_super dev) (retp ())),
                   invalidate_inodes dev, invalidate_buffers dev] ()))"

text \<open>\<open>struct d_super_block\<close>: the first twenty bytes, the last two of them padding.\<close>

definition decode_super :: "block \<Rightarrow> super_block \<Rightarrow> super_block" where
  "decode_super d p = p\<lparr>
     s_ninodes := get_u16 d 0, s_nzones := get_u16 d 2, s_imap_blocks := get_u16 d 4, s_zmap_blocks := get_u16 d 6,
     s_firstdatazone := get_u16 d 8, s_log_zone_size := get_u16 d 10, s_max_size := get_u32 d 12, s_magic := get_u16 d 16\<rparr>"

text \<open>The loops that read the bitmaps: \<open>set\<close> stores the buffer in slot \<open>i\<close>, \<open>k\<close> slots are left; the value is the next block.
  The slots are not bounded by the size of the arrays: a super block that claims more than eight
  blocks makes the code store behind them, a \<open>Fault\<close> here.\<close>

primrec read_maps ::
    "nat \<Rightarrow> (nat \<Rightarrow> nat option \<Rightarrow> super_block \<Rightarrow> super_block) \<Rightarrow> nat \<Rightarrow> nat \<Rightarrow> u16 \<Rightarrow> u32 \<Rightarrow> (u32, 'z fs_state_scheme) proc" where
  "read_maps 0 put sb i dev block = retp block"
| "read_maps (Suc k) put sb i dev block =
     (if i \<ge> 8 then faultp
      else
        bindp (bread dev block) (\<lambda>r.
          seqp (modp (upd_super sb (put i r)))
            (case r of None \<Rightarrow> retp block | Some _ \<Rightarrow> read_maps k put sb (i + 1) dev (block + 1))))"

definition put_imap :: "nat \<Rightarrow> nat option \<Rightarrow> super_block \<Rightarrow> super_block" where
  "put_imap i b p = p\<lparr>s_imap := (s_imap p)(i := b)\<rparr>"

definition put_zmap :: "nat \<Rightarrow> nat option \<Rightarrow> super_block \<Rightarrow> super_block" where
  "put_zmap i b p = p\<lparr>s_zmap := (s_zmap p)(i := b)\<rparr>"

definition set_first_bit :: "nat option \<Rightarrow> (unit, 'z fs_state_scheme) proc" where
  "set_first_bit b =
     (case b of
        None \<Rightarrow> faultp
      | Some b \<Rightarrow> modp (upd_buf b (\<lambda>h. h\<lparr>b_data := (b_data h)(0 := b_data h 0 OR 1)\<rparr>)))"

definition free_super_slot :: "'z fs_state_scheme \<Rightarrow> nat option" where
  "free_super_slot s = find (\<lambda>i. s_dev (super_blocks s i) = 0) [0..<NR_SUPER]"

definition read_super :: "u16 \<Rightarrow> (nat option, 'z fs_state_scheme) proc" where
  "read_super dev =
     (if dev = 0 then retp None
      else
        seqp (check_disk_change dev)
        (bindp (get_super dev) (\<lambda>r.
           case r of
             Some sb \<Rightarrow> retp (Some sb)
           | None \<Rightarrow>
               bindp (getp free_super_slot) (\<lambda>r.
                 case r of
                   None \<Rightarrow> retp None
                 | Some sb \<Rightarrow>
                     seqp (modp (upd_super sb (\<lambda>p. p\<lparr>s_dev := dev, s_isup := None, s_imount := None, s_time := 0,
                                   s_rd_only := 0, s_dirt := 0\<rparr>)))
                     (seqp (lock_super sb)
                     (bindp (bread dev 1) (\<lambda>r.
                        case r of
                          None \<Rightarrow> donep [modp (set_s_dev sb 0), modp (free_super sb)] None
                        | Some bh \<Rightarrow>
                            seqp (modp (\<lambda>s. upd_super sb (decode_super (b_data (bufs s bh))) s))
                            (seqp (brelse (Some bh))
                            (ifp (\<lambda>s. s_magic (super_blocks s sb) \<noteq> SUPER_MAGIC)
                               (donep [modp (set_s_dev sb 0), modp (free_super sb)] None)
                               (seqp (modp (upd_super sb (\<lambda>p. p\<lparr>s_imap := (\<lambda>_. None), s_zmap := (\<lambda>_. None)\<rparr>)))
                               (bindp (getp (\<lambda>s. (unat (s_imap_blocks (super_blocks s sb)), unat (s_zmap_blocks (super_blocks s sb))))) (\<lambda>(ni, nz).
                                bindp (read_maps ni put_imap sb 0 dev 2) (\<lambda>block.
                                bindp (read_maps nz put_zmap sb 0 dev block) (\<lambda>block.
                                  if block \<noteq> of_nat (2 + ni + nz)
                                  then donep [release_maps sb, modp (set_s_dev sb 0), modp (free_super sb)] None
                                  else
                                    donep [bindp (getp (\<lambda>s. s_imap (super_blocks s sb) 0)) set_first_bit,
                                           bindp (getp (\<lambda>s. s_zmap (super_blocks s sb) 0)) set_first_bit,
                                           modp (free_super sb)] (Some sb)))))))))))))))"

text \<open>\<open>namei\<close> of a block special file; its device.\<close>

definition sys_umount :: "u32 \<Rightarrow> (int, 'z fs_state_scheme) proc" where
  "sys_umount dev_name =
     bindp (namei dev_name) (\<lambda>r.
       case r of
         None \<Rightarrow> retp (- ENOENT)
       | Some inode \<Rightarrow>
           bindp (getp (\<lambda>s. i_zone (inode_table s inode) 0)) (\<lambda>dev.
           ifp (\<lambda>s. \<not> S_ISBLK (i_mode (inode_table s inode))) (donep [iput (Some inode)] (- ENOTBLK))
           (seqp (iput (Some inode))
           (ifp (\<lambda>s. dev = ROOT_DEV s) (retp (- EBUSY))
           (bindp (get_super dev) (\<lambda>r.
              case r of
                None \<Rightarrow> retp (- ENOENT)
              | Some sb \<Rightarrow>
                  bindp (getp (\<lambda>s. s_imount (super_blocks s sb))) (\<lambda>m.
                    case m of
                      None \<Rightarrow> retp (- ENOENT)
                    | Some m \<Rightarrow>
                        seqp (ifp (\<lambda>s. i_mount (inode_table s m) = 0) (modp (printk ''Mounted inode has i_mount=0'')) (retp ()))
                        (ifp (\<lambda>s. list_ex (\<lambda>i. i_dev (inode_table s i) = dev \<and> i_count (inode_table s i) \<noteq> 0) [0..<NR_INODE])
                           (retp (- EBUSY))
                           (donep [modp (upd_inode m (\<lambda>n. n\<lparr>i_mount := 0\<rparr>)),
                                   bindp (getp (\<lambda>s. s_imount (super_blocks s sb))) iput,
                                   modp (upd_super sb (\<lambda>p. p\<lparr>s_imount := None\<rparr>)),
                                   bindp (getp (\<lambda>s. s_isup (super_blocks s sb))) iput,
                                   modp (upd_super sb (\<lambda>p. p\<lparr>s_isup := None\<rparr>)),
                                   put_super dev, sync_dev dev] 0)))))))))"

definition sys_mount :: "u32 \<Rightarrow> u32 \<Rightarrow> (int, 'z fs_state_scheme) proc" where
  "sys_mount dev_name dir_name =
     bindp (namei dev_name) (\<lambda>r.
       case r of
         None \<Rightarrow> retp (- ENOENT)
       | Some dev_i \<Rightarrow>
           bindp (getp (\<lambda>s. i_zone (inode_table s dev_i) 0)) (\<lambda>dev.
           ifp (\<lambda>s. \<not> S_ISBLK (i_mode (inode_table s dev_i))) (donep [iput (Some dev_i)] (- EPERM))
           (seqp (iput (Some dev_i))
           (bindp (namei dir_name) (\<lambda>r.
              case r of
                None \<Rightarrow> retp (- ENOENT)
              | Some dir_i \<Rightarrow>
                  ifp (\<lambda>s. i_count (inode_table s dir_i) \<noteq> 1 \<or> i_num (inode_table s dir_i) = word_of_int ROOT_INO)
                    (donep [iput (Some dir_i)] (- EBUSY))
                  (ifp (\<lambda>s. \<not> S_ISDIR (i_mode (inode_table s dir_i))) (donep [iput (Some dir_i)] (- EPERM))
                  (bindp (read_super dev) (\<lambda>r.
                     case r of
                       None \<Rightarrow> donep [iput (Some dir_i)] (- EBUSY)
                     | Some sb \<Rightarrow>
                         ifp (\<lambda>s. s_imount (super_blocks s sb) \<noteq> None) (donep [iput (Some dir_i)] (- EBUSY))
                         (ifp (\<lambda>s. i_mount (inode_table s dir_i) \<noteq> 0) (donep [iput (Some dir_i)] (- EPERM))
                           (donep [modp (upd_super sb (\<lambda>p. p\<lparr>s_imount := Some dir_i\<rparr>)),
                                   modp (upd_inode dir_i (\<lambda>n. n\<lparr>i_mount := 1, i_dirt := 1\<rparr>))] 0))))))))))"

text \<open>\<open>while (-- i >= 0)\<close> of \<open>mount_root\<close>, whose \<open>set_bit\<close> only tests; a missing bitmap block is a null pointer.\<close>

definition count_free :: "nat \<Rightarrow> (nat \<Rightarrow> nat option) \<Rightarrow> 'z fs_state_scheme \<Rightarrow> nat option" where
  "count_free n maps s =
     (if list_all (\<lambda>i. maps (i div 8192) \<noteq> None) [0..<n]
      then Some (length (filter (\<lambda>i. \<not> get_bit (i mod 8192) (b_data (bufs s (the (maps (i div 8192)))))) [0..<n]))
      else None)"

definition report_free :: "nat \<Rightarrow> (nat \<Rightarrow> nat option) \<Rightarrow> string \<Rightarrow> (unit, 'z fs_state_scheme) proc" where
  "report_free n maps msg =
     bindp (getp (count_free n maps)) (\<lambda>c. case c of None \<Rightarrow> faultp | Some _ \<Rightarrow> modp (printk msg))"

definition mount_root :: "(unit, 'z tty_state_scheme) proc" where
  "mount_root =
     seqp (modp (\<lambda>s. fold (\<lambda>i. set_f_count i 0) [0..<NR_FILE] s))
     (seqp (ifp (\<lambda>s. MAJOR (ucast (ROOT_DEV s)) = 2)
              (seqp (modp (printk ''Insert root floppy and press ENTER'')) wait_for_keypress) (retp ()))
     (seqp (modp (\<lambda>s. fold (\<lambda>i s. upd_super i (\<lambda>p. p\<lparr>s_dev := 0, s_lock := 0\<rparr>) (s\<lparr>waitq := (waitq s)(WSuper i := None)\<rparr>)) [0..<NR_SUPER] s))
     (bindp (getp ROOT_DEV) (\<lambda>dev.
      bindp (read_super dev) (\<lambda>r.
        case r of
          None \<Rightarrow> panicp ''Unable to mount root''
        | Some p \<Rightarrow>
            bindp (iget dev (word_of_int ROOT_INO)) (\<lambda>mi.
            seqp (modp (upd_inode mi (\<lambda>n. n\<lparr>i_count := i_count n + 3\<rparr>)))
            (seqp (modp (upd_super p (\<lambda>q. q\<lparr>s_isup := Some mi, s_imount := Some mi\<rparr>)))
            (seqp (modp (upd_cur (\<lambda>t. t\<lparr>pwd := Some mi, root_dir := Some mi\<rparr>)))
            (bindp (getp (\<lambda>s. super_blocks s p)) (\<lambda>q.
             seqp (report_free (unat (s_nzones q)) (s_zmap q) ''%d/%d free blocks'')
               (report_free (unat (s_ninodes q) + 1) (s_imap q) ''%d/%d free inodes'')))))))))))"

subsection \<open>Files by name\<close>

definition sys_ustat :: int where "sys_ustat = - ENOSYS"

text \<open>\<open>namei\<close> with the error \<open>e\<close> when there is no such file.\<close>

definition with_inode :: "u32 \<Rightarrow> int \<Rightarrow> (nat \<Rightarrow> (int, 'z fs_state_scheme) proc) \<Rightarrow> (int, 'z fs_state_scheme) proc" where
  "with_inode filename e k = bindp (namei filename) (\<lambda>r. case r of None \<Rightarrow> retp (- e) | Some i \<Rightarrow> k i)"

definition sys_utime :: "u32 \<Rightarrow> u32 \<Rightarrow> (int, 'z fs_state_scheme) proc" where
  "sys_utime filename tp =
     with_inode filename ENOENT (\<lambda>i.
       bindp (getp (\<lambda>s. if tp \<noteq> 0 then (get_fs_long tp s, get_fs_long (tp + 4) s) else (now s, now s))) (\<lambda>(actime, modtime).
         donep [modp (upd_inode i (\<lambda>n. n\<lparr>i_atime := actime, i_mtime := modtime, i_dirt := 1\<rparr>)), iput (Some i)] 0))"

text \<open>The bits \<open>sys_access\<close> tests and its decision, for the mode bits \<open>i_mode & 0777\<close>. The inode's owner
  is read after \<open>iput\<close>.\<close>

definition access_bits :: "u32 \<Rightarrow> m_inode \<Rightarrow> 'z sched_state_scheme \<Rightarrow> u32" where
  "access_bits mode9 n s =
     (if uid (cur s) = i_uid n then drop_bit 6 mode9
      else if gid (cur s) = ucast (i_gid n) then drop_bit 6 mode9 else mode9)"

definition access_ok :: "u32 \<Rightarrow> u32 \<Rightarrow> m_inode \<Rightarrow> 'z sched_state_scheme \<Rightarrow> int" where
  "access_ok mode9 mode n s =
     (if access_bits mode9 n s AND 7 AND mode = mode then 0
      else if uid (cur s) = 0 \<and> (mode AND 1 = 0 \<or> mode9 AND 0x49 \<noteq> 0) then 0
      else - EACCES)"

definition sys_access :: "u32 \<Rightarrow> u32 \<Rightarrow> (int, 'z fs_state_scheme) proc" where
  "sys_access filename mode =
     (let mode = mode AND 7 in
      with_inode filename EACCES (\<lambda>i.
        bindp (getp (\<lambda>s. ucast (i_mode (inode_table s i)) AND 0x1ff)) (\<lambda>mode9.
        seqp (iput (Some i))
          (getp (\<lambda>s. access_ok mode9 mode (inode_table s i) s)))))"

definition sys_chdir :: "u32 \<Rightarrow> (int, 'z fs_state_scheme) proc" where
  "sys_chdir filename =
     with_inode filename ENOENT (\<lambda>i.
       ifp (\<lambda>s. \<not> S_ISDIR (i_mode (inode_table s i))) (donep [iput (Some i)] (- ENOTDIR))
         (donep [bindp (getp (\<lambda>s. pwd (cur s))) iput, modp (upd_cur (\<lambda>t. t\<lparr>pwd := Some i\<rparr>))] 0))"

definition sys_chroot :: "u32 \<Rightarrow> (int, 'z fs_state_scheme) proc" where
  "sys_chroot filename =
     with_inode filename ENOENT (\<lambda>i.
       ifp (\<lambda>s. \<not> S_ISDIR (i_mode (inode_table s i))) (donep [iput (Some i)] (- ENOTDIR))
         (donep [bindp (getp (\<lambda>s. root_dir (cur s))) iput, modp (upd_cur (\<lambda>t. t\<lparr>root_dir := Some i\<rparr>))] 0))"

definition sys_chmod :: "u32 \<Rightarrow> u16 \<Rightarrow> (int, 'z fs_state_scheme) proc" where
  "sys_chmod filename mode =
     with_inode filename ENOENT (\<lambda>i.
       ifp (\<lambda>s. euid (cur s) \<noteq> i_uid (inode_table s i) \<and> \<not> suser s) (donep [iput (Some i)] (- EACCES))
         (donep [modp (upd_inode i (\<lambda>n. n\<lparr>i_mode := (mode AND 0xfff) OR (i_mode n AND NOT 0xfff), i_dirt := 1\<rparr>)),
                 iput (Some i)] 0))"

definition sys_chown :: "u32 \<Rightarrow> u32 \<Rightarrow> u32 \<Rightarrow> (int, 'z fs_state_scheme) proc" where
  "sys_chown filename owner grp =
     with_inode filename ENOENT (\<lambda>i.
       ifp (\<lambda>s. \<not> suser s) (donep [iput (Some i)] (- EACCES))
         (donep [modp (upd_inode i (\<lambda>n. n\<lparr>i_uid := ucast owner, i_gid := ucast grp, i_dirt := 1\<rparr>)), iput (Some i)] 0))"

subsection \<open>Descriptors\<close>

definition clear_close_on_exec :: "nat \<Rightarrow> 'z sched_state_scheme \<Rightarrow> 'z sched_state_scheme" where
  "clear_close_on_exec fd s = upd_cur (\<lambda>t. t\<lparr>close_on_exec := close_on_exec t AND NOT (push_bit fd 1)\<rparr>) s"

text \<open>The special treatment of terminals in \<open>sys_open\<close>: false when the call has to fail.\<close>

definition open_tty :: "nat \<Rightarrow> (bool, 'z tty_state_scheme) proc" where
  "open_tty inode =
     bindp (getp (\<lambda>s. (S_ISCHR (i_mode (inode_table s inode)), MAJOR (ucast (i_zone (inode_table s inode) 0)),
                       MINOR (ucast (i_zone (inode_table s inode) 0)), t_tty (cur s) < 0, leader (cur s) \<noteq> 0)))
       (\<lambda>(chr, major, minor, none, lead).
          if chr \<and> major = 4 \<and> lead \<and> none
          then
            seqp (modp (upd_cur (\<lambda>t. t\<lparr>t_tty := int minor\<rparr>)))
              (if minor > 2 then faultp
               else seqp (modp (\<lambda>s. upd_tty minor (\<lambda>t. t\<lparr>tty_pgrp := pgrp (cur s)\<rparr>) s)) (retp True))
          else retp (\<not> (chr \<and> major = 5 \<and> none)))"

definition sys_open :: "u32 \<Rightarrow> u32 \<Rightarrow> u32 \<Rightarrow> (int, 'z tty_state_scheme) proc" where
  "sys_open filename flag mode =
     bindp (getp (\<lambda>s. mode AND (0x1ff AND NOT (ucast (umask (cur s)))))) (\<lambda>mode.
     bindp (getp free_fds) (\<lambda>ds.
       case ds of
         [] \<Rightarrow> retp (- EINVAL)
       | fd # _ \<Rightarrow>
           seqp (modp (clear_close_on_exec fd))
           (bindp (getp free_files) (\<lambda>fs.
              case fs of
                [] \<Rightarrow> retp (- EINVAL)
              | f # _ \<Rightarrow>
                  seqp (modp (set_filp fd (Some f)))
                  (seqp (modp (set_f_count f 1))
                  (bindp (open_namei filename flag mode) (\<lambda>(i, r).
                     if i < 0 then donep [modp (set_filp fd None), modp (set_f_count f 0)] i
                     else
                       case r of
                         None \<Rightarrow> faultp
                       | Some inode \<Rightarrow>
                           bindp (open_tty inode) (\<lambda>ok.
                             if \<not> ok
                             then donep [iput (Some inode), modp (set_filp fd None), modp (set_f_count f 0)] (- EPERM)
                             else
                               seqp (ifp (\<lambda>s. S_ISBLK (i_mode (inode_table s inode)))
                                       (bindp (getp (\<lambda>s. i_zone (inode_table s inode) 0)) check_disk_change) (retp ()))
                               (seqp (modp (\<lambda>s. upd_file f (\<lambda>_. \<lparr>f_mode = i_mode (inode_table s inode), f_flags = ucast flag, f_count = 1, f_inode = Some inode, f_pos = 0\<rparr>) s))
                                 (retp (int fd)))))))))))"

definition sys_creat :: "u32 \<Rightarrow> u32 \<Rightarrow> (int, 'z tty_state_scheme) proc" where
  "sys_creat pathname mode = sys_open pathname (O_CREAT OR O_TRUNC) mode"

definition sys_close :: "u32 \<Rightarrow> (int, 'z fs_state_scheme) proc" where
  "sys_close fd =
     (if fd \<ge> of_nat NR_OPEN then retp (- EINVAL)
      else
        seqp (modp (clear_close_on_exec (unat fd)))
        (bindp (getp (\<lambda>s. filp (cur s) (unat fd))) (\<lambda>r.
           case r of
             None \<Rightarrow> retp (- EINVAL)
           | Some f \<Rightarrow>
               seqp (modp (set_filp (unat fd) None))
               (ifp (\<lambda>s. f_count (file_table s f) = 0) (panicp ''Close: file count is 0'')
               (seqp (modp (upd_file f (\<lambda>m. m\<lparr>f_count := f_count m - 1\<rparr>)))
               (ifp (\<lambda>s. f_count (file_table s f) \<noteq> 0) (retp 0)
                 (seqp (bindp (getp (\<lambda>s. f_inode (file_table s f))) iput) (retp 0))))))))"

definition dupfd :: "u32 \<Rightarrow> u32 \<Rightarrow> 'z fs_state_scheme \<Rightarrow> int \<times> 'z fs_state_scheme" where
  "dupfd fd arg s =
     (case fget fd s of
        None \<Rightarrow> (- EBADF, s)
      | Some f \<Rightarrow>
          if arg \<ge> of_nat NR_OPEN then (- EINVAL, s)
          else
            case find (\<lambda>i. filp (cur s) i = None) [unat arg..<NR_OPEN] of
              None \<Rightarrow> (- EMFILE, s)
            | Some n \<Rightarrow>
                (int n, upd_file f (\<lambda>m. m\<lparr>f_count := f_count m + 1\<rparr>) (set_filp n (Some f) (clear_close_on_exec n s))))"

definition sys_dup2 :: "u32 \<Rightarrow> u32 \<Rightarrow> (int, 'z fs_state_scheme) proc" where
  "sys_dup2 oldfd newfd = bindp (sys_close newfd) (\<lambda>_. callp (dupfd oldfd newfd))"

definition sys_dup :: "u32 \<Rightarrow> 'z fs_state_scheme \<Rightarrow> int \<times> 'z fs_state_scheme" where
  "sys_dup fildes s = dupfd fildes 0 s"

definition sys_fcntl :: "u32 \<Rightarrow> u32 \<Rightarrow> u32 \<Rightarrow> 'z fs_state_scheme \<Rightarrow> int \<times> 'z fs_state_scheme" where
  "sys_fcntl fd cmd arg s =
     (case fget fd s of
        None \<Rightarrow> (- EBADF, s)
      | Some f \<Rightarrow>
          if cmd = 0 then dupfd fd arg s
          else if cmd = 1 then (uint (drop_bit (unat fd) (close_on_exec (cur s)) AND 1), s)
          else if cmd = 2
          then (0, if arg AND 1 \<noteq> 0 then upd_cur (\<lambda>t. t\<lparr>close_on_exec := close_on_exec t OR push_bit (unat fd) 1\<rparr>) s
                   else clear_close_on_exec (unat fd) s)
          else if cmd = 3 then (uint (f_flags (file_table s f)), s)
          else if cmd = 4
          then (0, upd_file f (\<lambda>m. m\<lparr>f_flags := (f_flags m AND NOT (ucast (O_APPEND OR O_NONBLOCK))) OR
                   ucast (arg AND (O_APPEND OR O_NONBLOCK))\<rparr>) s)
          else (- 1, s))"

subsection \<open>Status and control\<close>

definition stat_bytes :: "(nat \<Rightarrow> u8) \<Rightarrow> m_inode \<Rightarrow> u8 list" where
  "stat_bytes junk n =
     u16_bytes (ucast (i_dev n)) @ u16_bytes (ucast (i_num n)) @ u16_bytes (ucast (i_mode n)) @ [i_nlinks n, junk 0] @
     u16_bytes (ucast (i_uid n)) @ [i_gid n, junk 1] @ u16_bytes (ucast (i_zone n 0)) @ [junk 2, junk 3] @
     u32_bytes (i_size n) @ u32_bytes (i_atime n) @ u32_bytes (i_mtime n) @ u32_bytes (i_ctime n)"

definition cp_stat :: "(nat \<Rightarrow> u8) \<Rightarrow> nat \<Rightarrow> u32 \<Rightarrow> 'z fs_state_scheme \<Rightarrow> (unit, 'z fs_state_scheme) kres" where
  "cp_stat junk inode statbuf s =
     bindk (verify_area statbuf 32 s) (\<lambda>_ s. Ok () (put_user (stat_bytes junk (inode_table s inode)) statbuf s))"

definition sys_stat :: "(nat \<Rightarrow> u8) \<Rightarrow> u32 \<Rightarrow> u32 \<Rightarrow> (int, 'z fs_state_scheme) proc" where
  "sys_stat junk filename statbuf =
     with_inode filename ENOENT (\<lambda>i. donep [liftp (cp_stat junk i statbuf), iput (Some i)] 0)"

definition sys_fstat :: "(nat \<Rightarrow> u8) \<Rightarrow> u32 \<Rightarrow> u32 \<Rightarrow> (int, 'z fs_state_scheme) proc" where
  "sys_fstat junk fd statbuf =
     bindp (getp (\<lambda>s. Option.bind (fget fd s) (\<lambda>f. f_inode (file_table s f)))) (\<lambda>r.
       case r of
         None \<Rightarrow> retp (- EBADF)
       | Some i \<Rightarrow> donep [liftp (cp_stat junk i statbuf)] 0)"

definition sys_ioctl :: "u8 \<Rightarrow> u32 \<Rightarrow> u32 \<Rightarrow> u32 \<Rightarrow> 'z tty_state_scheme \<Rightarrow> (int, 'z tty_state_scheme) kres" where
  "sys_ioctl junk fd cmd arg s =
     (case fget fd s of
        None \<Rightarrow> Ok (- EBADF) s
      | Some f \<Rightarrow>
          (case f_inode (file_table s f) of
             None \<Rightarrow> Fault s
           | Some i \<Rightarrow>
               let n = inode_table s i; dev = ucast (i_zone n 0) :: u32 in
               if \<not> S_ISCHR (i_mode n) \<and> \<not> S_ISBLK (i_mode n) then Ok (- EINVAL) s
               else if MAJOR dev \<ge> 8 then Ok (- ENODEV) s
               else if MAJOR dev \<noteq> 4 \<and> MAJOR dev \<noteq> 5 then Ok (- ENOTTY) s
               else tty_ioctl junk dev cmd arg s))"

end
