(* ===== verification/Fs_File_Laws.thy ===== *)
theory Fs_File_Laws
  imports Fs_Open Fs_Disk_Laws
begin

text \<open>
  Open files. The reference count of an entry of \<open>file_table\<close> is the number of descriptors that name it; duplicating and
  closing a descriptor keep it so and undo each other. \<open>lseek\<close> never leaves a negative position. \<open>access\<close> takes the
  owner's bits for the group, and a full block written to a block device is lost when it is read before it is flushed.
\<close>

subsection \<open>Descriptors\<close>

definition fd_refs :: "'z fs_state_scheme \<Rightarrow> nat \<Rightarrow> (nat \<times> nat) set" where
  "fd_refs s f = {(t, d). t < NR_TASKS \<and> d < NR_OPEN \<and> (\<exists>p. task s t = Some p \<and> filp p d = Some f)}"

definition files_counted :: "'z fs_state_scheme \<Rightarrow> bool" where
  "files_counted s \<longleftrightarrow> (\<forall>f. unat (f_count (file_table s f)) = card (fd_refs s f))"

lemma fd_refs_subset: "fd_refs s f \<subseteq> {..<64} \<times> {..<20}"
  by (auto simp: fd_refs_def)

lemma finite_fd_refs [simp]: "finite (fd_refs s f)"
  using finite_subset[OF fd_refs_subset] by blast

lemma card_fd_refs: "card (fd_refs s f) \<le> 1280"
  using card_mono[OF _ fd_refs_subset[of s f]] by (simp add: card_cartesian_product)

lemma set_filp_cur:
  assumes "task s (current s) = Some p"
  shows "task (set_filp d v s) = (task s)(current s := Some (p\<lparr>filp := (filp p)(d := v)\<rparr>))"
  using assms by (simp add: set_filp_def upd_cur_def upd_task_def)

lemma fd_refs_set_filp:
  assumes "task s (current s) = Some p" "current s < 64" "d < 20"
  shows "fd_refs (set_filp d v s) f =
    (if v = Some f then insert (current s, d) (fd_refs s f) else fd_refs s f - {(current s, d)})"
proof -
  have "(t, e) \<in> fd_refs (set_filp d v s) f \<longleftrightarrow>
      (if t = current s \<and> e = d then v = Some f else (t, e) \<in> fd_refs s f)" for t e
    using assms by (cases "t = current s") (auto simp: fd_refs_def set_filp_cur[OF assms(1)])
  then show ?thesis by (auto split: if_splits)
qed

lemma fd_refs_other [simp]:
  "fd_refs (upd_file f g s) = fd_refs s" "fd_refs (clear_close_on_exec d s) = fd_refs s"
  by (auto simp: fd_refs_def upd_file_def clear_close_on_exec_def upd_cur_def upd_task_def fun_eq_iff split: if_splits)

lemma close_on_exec_fields [simp]:
  "file_table (clear_close_on_exec d s) = file_table s" "current (clear_close_on_exec d s) = current s"
  "task s (current s) = Some p \<Longrightarrow> task (clear_close_on_exec d s) (current s) = Some (p\<lparr>close_on_exec := close_on_exec p AND NOT (push_bit d 1)\<rparr>)"
  by (simp_all add: clear_close_on_exec_def upd_cur_def upd_task_def)

lemma set_filp_fields [simp]: "file_table (set_filp d v s) = file_table s" "current (set_filp d v s) = current s"
  by (simp_all add: set_filp_def upd_cur_def upd_task_def)

lemma fget_Some:
  assumes "fget fd s = Some f" "task s (current s) = Some p"
  shows "unat fd < 20" "filp p (unat fd) = Some f"
  using assms by (auto simp: fget_def cur_def word_less_nat_alt split: if_splits)

lemma find_upt_Some:
  "find P [a..<b] = Some n \<Longrightarrow> a \<le> n \<and> n < b \<and> P n \<and> (\<forall>d. a \<le> d \<and> d < n \<longrightarrow> \<not> P d)"
proof (induction "b - a" arbitrary: a)
  case (Suc k)
  then have u: "[a..<b] = a # [Suc a..<b]" by (simp add: upt_rec)
  show ?case
  proof (cases "P a")
    case False
    then have "Suc a \<le> n \<and> n < b \<and> P n \<and> (\<forall>d. Suc a \<le> d \<and> d < n \<longrightarrow> \<not> P d)"
      using Suc.hyps(1)[of "Suc a"] Suc.hyps(2) Suc.prems u by simp
    then show ?thesis using False by (metis Suc_leD Suc_leI le_neq_implies_less)
  qed (use Suc u in auto)
qed simp

text \<open>The state after a successful \<open>dupfd\<close> onto descriptor \<open>n\<close>.\<close>

definition dupped :: "nat \<Rightarrow> nat \<Rightarrow> 'z fs_state_scheme \<Rightarrow> 'z fs_state_scheme" where
  "dupped f n s = upd_file f (\<lambda>m. m\<lparr>f_count := f_count m + 1\<rparr>) (set_filp n (Some f) (clear_close_on_exec n s))"

lemma dupfd_cases:
  assumes "task s (current s) = Some p"
  shows "fget fd s = None \<and> dupfd fd arg s = (- EBADF, s) \<or>
    fget fd s \<noteq> None \<and> arg \<ge> 20 \<and> dupfd fd arg s = (- EINVAL, s) \<or>
    fget fd s \<noteq> None \<and> arg < 20 \<and> (\<forall>d. unat arg \<le> d \<and> d < 20 \<longrightarrow> filp p d \<noteq> None) \<and> dupfd fd arg s = (- EMFILE, s) \<or>
    (\<exists>f n. fget fd s = Some f \<and> unat arg \<le> n \<and> n < 20 \<and> filp p n = None \<and>
      (\<forall>d. unat arg \<le> d \<and> d < n \<longrightarrow> filp p d \<noteq> None) \<and> dupfd fd arg s = (int n, dupped f n s))"
proof (cases "fget fd s")
  case None
  then show ?thesis by (simp add: dupfd_def)
next
  case (Some f)
  show ?thesis
  proof (cases "arg \<ge> 20")
    case True
    then show ?thesis using Some by (simp add: dupfd_def)
  next
    case False
    let ?P = "\<lambda>i. filp (cur s) i = None"
    have c: "cur s = p" using assms by (simp add: cur_def)
    show ?thesis
    proof (cases "find ?P [unat arg..<20]")
      case None
      then have "\<forall>d. unat arg \<le> d \<and> d < 20 \<longrightarrow> filp p d \<noteq> None" using c by (auto simp: find_None_iff)
      then show ?thesis using Some False None by (auto simp: dupfd_def)
    next
      case (Some n)
      then have n: "unat arg \<le> n" "n < 20" "filp p n = None" "\<forall>d. unat arg \<le> d \<and> d < n \<longrightarrow> filp p d \<noteq> None"
        using find_upt_Some[OF Some] c by auto
      have "dupfd fd arg s = (int n, dupped f n s)"
        using Some \<open>fget fd s = Some f\<close> False by (simp add: dupfd_def dupped_def not_le)
      then show ?thesis using n \<open>fget fd s = Some f\<close> by blast
    qed
  qed
qed

lemma files_counted_dupped:
  assumes c: "files_counted s" and p: "task s (current s) = Some p" "current s < 64" "n < 20" "filp p n = None"
  shows "files_counted (dupped f n s)"
  unfolding files_counted_def
proof
  fix g
  let ?t = "set_filp n (Some f) (clear_close_on_exec n s)"
  have r: "fd_refs ?t g = (if g = f then insert (current s, n) (fd_refs s f) else fd_refs s g - {(current s, n)})"
    using fd_refs_set_filp[of "clear_close_on_exec n s" _ n "Some f" g] p by auto
  have n: "(current s, n) \<notin> fd_refs s h" for h using p by (auto simp: fd_refs_def)
  have b: "unat (f_count (file_table s h)) \<le> 1280" for h using c card_fd_refs[of s h] by (simp add: files_counted_def)
  have "unat (f_count (file_table s f) + 1) = unat (f_count (file_table s f)) + 1"
    using b[of f] by (simp add: unat_word_ariths)
  moreover have "fd_refs (dupped f n s) = fd_refs ?t" by (simp add: dupped_def)
  moreover have "f_count (file_table (dupped f n s) g) = (if g = f then f_count (file_table s f) + 1 else f_count (file_table s g))"
    by (simp add: dupped_def upd_file_def)
  ultimately show "unat (f_count (file_table (dupped f n s) g)) = card (fd_refs (dupped f n s) g)"
    using c n by (simp add: r files_counted_def)
qed

lemma counted_positive:
  assumes "files_counted s" "task s (current s) = Some p" "current s < 64" "d < 20" "filp p d = Some f"
  shows "f_count (file_table s f) \<noteq> 0"
proof -
  have "(current s, d) \<in> fd_refs s f" using assms by (auto simp: fd_refs_def)
  then have "card (fd_refs s f) \<noteq> 0" by (auto simp: card_eq_0_iff)
  then show ?thesis using assms(1) unfolding files_counted_def by (metis unat_0)
qed

lemma close_dupped:
  assumes p: "task s (current s) = Some p" "n < 20" "filp p n = None" and c: "f_count (file_table s f) \<noteq> 0"
    and b: "unat (f_count (file_table s f)) \<le> 1280"
  shows "\<exists>s'. sys_close (of_nat n) w (dupped f n s) = Ok (0, w) s' \<and> file_table s' = file_table s \<and> filp (cur s') = filp p"
proof -
  have u: "unat (of_nat n :: u32) = n" using p(2) by (simp add: unat_of_nat take_bit_nat_eq_self)
  have l: "\<not> (of_nat n :: u32) \<ge> 20" using p(2) by (simp add: word_le_nat_alt u)
  have one: "f_count (file_table s f) + 1 \<noteq> 0" using b by (auto simp: word_unat_eq_iff unat_word_ariths)
  define t where "t = upd_file f (\<lambda>m. m\<lparr>f_count := f_count m - 1\<rparr>) (set_filp n None (clear_close_on_exec n (dupped f n s)))"
  have "sys_close (of_nat n) w (dupped f n s) = Ok (0, w) t"
    using p l u c one
    by (simp add: sys_close_def seqp_def bindp_def modp_def getp_def ifp_def retp_def t_def dupped_def upd_file_def
        clear_close_on_exec_def set_filp_def upd_cur_def upd_task_def cur_def)
  moreover have "file_table t = file_table s" by (simp add: t_def dupped_def upd_file_def)
  moreover have "filp (cur t) = filp p"
    using p by (auto simp: t_def dupped_def upd_file_def clear_close_on_exec_def set_filp_def upd_cur_def upd_task_def cur_def)
  ultimately show ?thesis by blast
qed

subsection \<open>Properties\<close>

text \<open>C16. Duplicating a descriptor, while the count of every open file is the number of descriptors that name it. A bad \<open>fd\<close> is \<open>EBADF\<close>; else an \<open>arg\<close> that
  is no descriptor is \<open>EINVAL\<close>; else, when all descriptors from \<open>arg\<close> on are taken, it is \<open>EMFILE\<close>; none of these changes anything. Otherwise \<open>dupfd\<close>
  returns the lowest free descriptor from \<open>arg\<close> on, which names the same open file and stays open across \<open>exec\<close>, and the counts are right again;
  closing that descriptor then restores the file table and the descriptors.\<close>

theorem dupfd_close:
  assumes "files_counted s" "task s (current s) = Some p" "current s < 64" "dupfd fd arg s = (r, s')"
  shows "if fd \<ge> 20 \<or> filp p (unat fd) = None then r = - 9 \<and> s' = s
    else if arg \<ge> 20 then r = - 22 \<and> s' = s
    else if \<forall>d. unat arg \<le> d \<and> d < 20 \<longrightarrow> filp p d \<noteq> None then r = - 24 \<and> s' = s
    else unat arg \<le> nat r \<and> 0 \<le> r \<and> r < 20 \<and> filp p (nat r) = None \<and> (\<forall>d. unat arg \<le> d \<and> d < nat r \<longrightarrow> filp p d \<noteq> None) \<and>
      filp (cur s') = (filp p)(nat r := filp p (unat fd)) \<and> \<not> bit (close_on_exec (cur s')) (nat r) \<and> files_counted s' \<and>
      (\<exists>s''. sys_close (word_of_int r) w s' = Ok (0, w) s'' \<and> file_table s'' = file_table s \<and> filp (cur s'') = filp p)"
proof -
  have c: "fget fd s = None \<longleftrightarrow> fd \<ge> 20 \<or> filp p (unat fd) = None" using assms(2) by (auto simp: fget_def cur_def not_le not_less)
  show ?thesis using dupfd_cases[OF assms(2), of fd arg] unfolding assms(4)
  proof (elim disjE exE conjE)
    fix f n assume 2: "fget fd s = Some f" "unat arg \<le> n" "n < 20" "filp p n = None"
      "\<forall>d. unat arg \<le> d \<and> d < n \<longrightarrow> filp p d \<noteq> None" "(r, s') = (int n, dupped f n s)"
    note g = fget_Some[OF 2(1) assms(2)]
    have f: "f_count (file_table s f) \<noteq> 0" by (rule counted_positive[OF assms(1-3) g])
    have b: "unat (f_count (file_table s f)) \<le> 1280" using assms(1) card_fd_refs[of s f] by (simp add: files_counted_def)
    have "filp (cur s') = (filp p)(n := filp p (unat fd))" "\<not> bit (close_on_exec (cur s')) n"
      using assms(2) g(2) 2(6) by (auto simp: dupped_def upd_file_def clear_close_on_exec_def set_filp_def upd_cur_def upd_task_def cur_def bit_simps)
    moreover have "\<not> arg \<ge> 20" using 2(2,3) by (auto simp: word_le_nat_alt)
    moreover have "\<not> (fd \<ge> 20 \<or> filp p (unat fd) = None)" "\<not> (\<forall>d. unat arg \<le> d \<and> d < 20 \<longrightarrow> filp p d \<noteq> None)" using c 2(1-4) by auto
    ultimately show ?thesis
      using 2 files_counted_dupped[OF assms(1-3) 2(3,4), of f] close_dupped[OF assms(2) 2(3,4) f b, of w] by simp
  qed (use c in \<open>auto simp: not_le\<close>)
qed

text \<open>Seeking. \<open>lseek\<close> either fails with one of its three errors and changes nothing, or sets the position of
  the open file to the value it returns, which fits 31 bits, and changes nothing else.\<close>

theorem lseek_bounds:
  assumes "- 0x80000000 \<le> offset" "offset < 0x80000000" "sys_lseek fd offset whence s = (r, s')"
  shows "r \<in> {- EBADF, - ESPIPE, - EINVAL} \<and> s' = s \<or>
    (\<exists>f. fget fd s = Some f \<and> 0 \<le> r \<and> r < 0x80000000 \<and> s' = upd_file f (\<lambda>m. m\<lparr>f_pos := r\<rparr>) s \<and>
      (whence = 0 \<longrightarrow> r = offset))"
proof -
  have "s32 x < 0x80000000" for x using signed_take_bit_int_less_exp[of 31 x] by (simp add: s32_def)
  then show ?thesis using assms
    by (auto simp: sys_lseek_def lseek_target_def split: option.splits if_splits)
qed

text \<open>\<open>access\<close> and groups. For a member of the file's group who is neither its owner nor the super user, \<open>access\<close> decides by the
  permission bits of the owner, not by those of the group.\<close>

theorem access_group:
  assumes "uid (cur s) \<noteq> i_uid n" "uid (cur s) \<noteq> 0" "gid (cur s) = ucast (i_gid n)"
  shows "access_ok (ucast m AND 0x1ff) mode n s = 0 \<longleftrightarrow> drop_bit 6 (ucast (m :: u16)) AND 7 AND mode = mode"
proof -
  have "drop_bit 6 (ucast m AND 0x1ff :: u32) AND 7 = drop_bit 6 (ucast m) AND 7"
    by (rule bit_word_eqI) (auto simp: bit_simps)
  then show ?thesis using assms by (simp add: access_ok_def access_bits_def and.assoc)
qed

subsection \<open>A lost write\<close>

text \<open>The fields that taking a buffer for another block leaves alone.\<close>

definition rest_of :: "'z fs_state_scheme \<Rightarrow> (nat \<Rightarrow> nat option) \<times> (nat \<Rightarrow> request) \<times> u32 \<times> int \<times> (nat \<Rightarrow> u8) \<times> (u32 \<Rightarrow> u8) \<times> (nat \<Rightarrow> file_struct)" where
  "rest_of s = (current_request s, requests_tab s, rd_start s, rd_length s, rd_mem s, user s, file_table s)"

lemma rest_of_upd [simp]:
  "rest_of (upd_buf b f s) = rest_of s" "rest_of (upd_ptr q f s) = rest_of s" "rest_of (s\<lparr>hash_table := h\<rparr>) = rest_of s"
  "rest_of (s\<lparr>free_list := l\<rparr>) = rest_of s" "rest_of (store a v s) = rest_of s"
  by (simp_all add: rest_of_def upd_buf_def upd_ptr_def store_def split: option.split)

lemma remove_rest: "remove_from_queues b s = Ok u s' \<Longrightarrow> rest_of s' = rest_of s"
  by (auto simp: remove_from_queues_def Let_def split: option.splits if_splits)

lemma insert_rest: "insert_into_queues b s = Ok u s' \<Longrightarrow> rest_of s' = rest_of s"
  by (auto simp: insert_into_queues_def Let_def split: option.splits if_splits)

lemma claim_rest: "claim_buffer dev block b s = Ok () s' \<Longrightarrow> rest_of s' = rest_of s"
  by (auto simp: claim_buffer_def dest!: remove_rest insert_rest)

lemma copy_from_user_data:
  "copy_from_user n buf p s d x = (if p \<le> x \<and> x < p + n then user s (buf + of_nat (x - p)) else d x)"
proof (induction n arbitrary: buf p d)
  case (Suc n)
  have "copy_from_user (Suc n) buf p s d x =
      (if Suc p \<le> x \<and> x < Suc p + n then user s (buf + 1 + of_nat (x - Suc p)) else (d(p := user s buf)) x)"
    by (simp only: copy_from_user.simps Suc get_fs_byte_def)
  moreover have "buf + 1 + of_nat (x - Suc p) = buf + (of_nat (x - p) :: u32)" if "p < x"
    using that by (simp add: Suc_diff_Suc[symmetric] del: of_nat_diff)
  ultimately show ?case by (cases x p rule: linorder_cases) auto
qed auto

definition block_stored :: "nat \<Rightarrow> nat \<Rightarrow> u32 \<Rightarrow> 'z fs_state_scheme \<Rightarrow> 'z fs_state_scheme" where
  "block_stored b fp buf s =
     wake_up (Some WBufferWait) (upd_buf b (\<lambda>h. h\<lparr>b_count := b_count h - 1\<rparr>)
       (set_dirty b (put_block b 0 1024 buf (upd_file fp (\<lambda>f. f\<lparr>f_pos := s32 (f_pos f + 1024)\<rparr>) s))))"

lemma block_write_full:
  assumes "getblk dev (of_nat k) w s = Ok (b, w) s'" "b_lock (bufs s' b) = 0" "b_count (bufs s' b) \<noteq> 0"
    "f_pos (file_table s fp) = 1024 * int k" "2 \<le> fuel w"
  shows "block_write dev fp buf 1024 w s = Ok (1024, w) (block_stored b fp buf s')"
proof -
  obtain n where n: "fuel w = Suc (Suc n)" using assms(5) by (metis Suc_le_D numeral_2_eq_2 Suc_le_mono)
  let ?t = "set_dirty b (put_block b 0 1024 buf (upd_file fp (\<lambda>f. f\<lparr>f_pos := s32 (f_pos f + 1024)\<rparr>) s'))"
  have "brelse (Some b) w ?t = Ok ((), w) (block_stored b fp buf s')" unfolding block_stored_def
    by (rule brelse_quiet) (use assms in \<open>simp_all add: set_dirty_def put_block_def upd_buf_def upd_file_def\<close>)
  then show ?thesis
    using assms(1) by (simp add: block_write_def bindp_def seqp_def getp_def modp_def fuelp_def n assms(4) retp_def)
qed

lemma stored_fields:
  "bufs (block_stored b fp buf s) = (bufs s)(b := (bufs s b)\<lparr>b_data := copy_from_user 1024 buf 0 s (b_data (bufs s b)),
     b_dirt := 1, b_count := b_count (bufs s b) - 1\<rparr>)"
  "current_request (block_stored b fp buf s) = current_request s" "requests_tab (block_stored b fp buf s) = requests_tab s"
  "rd_start (block_stored b fp buf s) = rd_start s" "rd_length (block_stored b fp buf s) = rd_length s" "rd_mem (block_stored b fp buf s) = rd_mem s"
proof -
  have c: "copy_from_user n buf p (upd_file fp f s) d = copy_from_user n buf p s d" for n p d f
    by (simp add: copy_from_user_data fun_eq_iff upd_file_def)
  show "bufs (block_stored b fp buf s) = (bufs s)(b := (bufs s b)\<lparr>b_data := copy_from_user 1024 buf 0 s (b_data (bufs s b)),
     b_dirt := 1, b_count := b_count (bufs s b) - 1\<rparr>)"
    unfolding block_stored_def put_block_def c by (simp add: set_dirty_def upd_buf_def upd_file_def)
  show "current_request (block_stored b fp buf s) = current_request s" "requests_tab (block_stored b fp buf s) = requests_tab s"
    "rd_start (block_stored b fp buf s) = rd_start s" "rd_length (block_stored b fp buf s) = rd_length s" "rd_mem (block_stored b fp buf s) = rd_mem s"
    by (simp_all add: block_stored_def set_dirty_def put_block_def upd_buf_def upd_file_def)
qed

lemma cache_inv_stored: "cache_inv N s \<Longrightarrow> cache_inv N (block_stored b fp buf s)"
proof -
  have "hash_table (wake_up q t) = hash_table t" "free_list (wake_up q t) = free_list t" "NR_BUFFERS (wake_up q t) = NR_BUFFERS t"
    for q and t :: "'a fs_state_scheme" by (simp_all add: wake_up_def upd_task_def split: option.split)
  then have "hash_table (block_stored b fp buf s) = hash_table s" "free_list (block_stored b fp buf s) = free_list s"
    "NR_BUFFERS (block_stored b fp buf s) = NR_BUFFERS s"
    by (simp_all add: block_stored_def set_dirty_def put_block_def upd_buf_def upd_file_def)
  then show "cache_inv N s \<Longrightarrow> cache_inv N (block_stored b fp buf s)"
    using cache_inv_cong[of "block_stored b fp buf s" s N] by (simp add: stored_fields qfields_def)
qed

text \<open>A buffer of the idle RAM disk that is cached, unlocked and not up to date is read from the disk.\<close>

lemma bread_rereads:
  assumes "cache_inv N s" "find_buffer 0x101 block s = Some b" "rd_ready b w s" "b_uptodate (bufs s b) = 0"
  shows "\<exists>s'. bread 0x101 block w s = Ok (Some b, w) s' \<and> b_dirt (bufs s' b) = 0 \<and> b_uptodate (bufs s' b) = 1 \<and>
    (\<forall>i<1024. b_data (bufs s' b) i = rd_mem s (rd_addr (bufs s b) + i))"
proof -
  have l: "b_lock (bufs s b) = 0" "0 < fuel w" using assms(3) by (auto simp: rd_ready_def)
  define s1 where "s1 = upd_buf b (\<lambda>h. h\<lparr>b_count := b_count h + 1\<rparr>) s"
  have g: "getblk 0x101 block w s = Ok (b, w) s1" unfolding s1_def by (rule getblk_hit[OF assms(1) l(2) assms(2) l(1)])
  have r: "rd_ready b w s1" "b_uptodate (bufs s1 b) = 0" "rd_addr (bufs s1 b) = rd_addr (bufs s b)" "rd_mem s1 = rd_mem s"
    using assms(3,4) by (simp_all add: s1_def rd_ready_def rd_addr_def upd_buf_def)
  obtain q where q: "ll_rw_block READ b w s1 = Ok ((), w) (rd_complete q b (rd_transfer READ b (rd_queued READ q b s1)))"
    using rd_served[OF r(1), of READ] r(2) by auto
  define s2 where "s2 = rd_complete q b (rd_transfer READ b (rd_queued READ q b s1))"
  note b2 = rd_read[OF s2_def]
  have wt: "wait_on_buffer b w s2 = Ok ((), w) s2" unfolding wait_on_buffer_def
    by (rule wait_not_needed) (use l(2) b2 in auto)
  have "bread 0x101 block w s = Ok (Some b, w) s2"
    using r(2) b2 by (simp add: bread_def bread_with_def bindp_def g ifp_def seqp_def q[folded s2_def] wt retp_def)
  then show ?thesis using b2 r by (intro exI[of _ s2]) simp
qed

text \<open>A lost write. \<open>block_write\<close> of a whole block that is not cached leaves the buffer dirty but not up to date; a later read of
  the block before the buffer is flushed fetches the old contents from the disk over it and marks it clean: the bytes written
  are lost, although the call reported 1024 bytes written.\<close>

theorem full_block_write_lost:
  assumes "cache_inv N s" "2 \<le> fuel w" "request_fn w 1 = Some do_rd_request" "current_request s 1 = None" "rq_dev (requests_tab s 0) < 0"
    "f_pos (file_table s fp) = 1024 * int k" "k < 2 ^ 20" "int (1024 * k + 1024) \<le> rd_length s" "int (unat (rd_start s)) + rd_length s < 2 ^ 32"
    "find_buffer 0x101 (of_nat k) s = None" "\<exists>b<N. b_count (bufs s b) = 0 \<and> b_dirt (bufs s b) = 0 \<and> b_lock (bufs s b) = 0"
  shows "\<exists>s1 bh s2. block_write 0x101 fp buf 1024 w s = Ok (1024, w) s1 \<and> (\<forall>i<1024. b_data (bufs s1 bh) i = user s (buf + of_nat i)) \<and>
    bread 0x101 (of_nat k) w s1 = Ok (Some bh, w) s2 \<and> b_dirt (bufs s2 bh) = 0 \<and>
    (\<forall>i<1024. b_data (bufs s2 bh) i = rd_mem s (1024 * k + i))"
proof -
  have f: "0 < fuel w" using assms(2) by simp
  obtain b s' where g: "b < N" "getblk 0x101 (of_nat k) w s = Ok (b, w) s'" "claim_buffer 0x101 (of_nat k) b s = Ok () s'"
    "b_lock (bufs s b) = 0"
    using getblk_miss[OF assms(1) f assms(10,11)] by blast
  have c: "cache_inv N s'" using claim_buffer_ok[OF assms(1) g(1) assms(10)] g(3) by auto
  have b: "b_dev (bufs s' b) = 0x101" "b_blocknr (bufs s' b) = of_nat k" "b_uptodate (bufs s' b) = 0" "b_count (bufs s' b) = 1" "b_lock (bufs s' b) = 0"
    using claim_contents(2)[OF g(3)] g(4) by (simp_all add: contents_def)
  define t where "t = block_stored b fp buf s'"
  note tf = stored_fields[of b fp buf s', folded t_def]
  have r: "current_request s' = current_request s" "requests_tab s' = requests_tab s" "rd_length s' = rd_length s" "rd_start s' = rd_start s"
    "rd_mem s' = rd_mem s" "user s' = user s"
    using claim_rest[OF g(3)] by (simp_all add: rest_of_def)
  have bw: "block_write 0x101 fp buf 1024 w s = Ok (1024, w) t" unfolding t_def
    by (rule block_write_full[OF g(2)]) (use b assms in auto)
  have u: "unat (of_nat k :: u32) = k" using assms(7) by (simp add: unat_of_nat take_bit_nat_eq_self)
  have ct: "cache_inv N t" unfolding t_def by (rule cache_inv_stored[OF c])
  have ft: "find_buffer 0x101 (of_nat k) t = Some b" using find_buffer_iff[OF ct] g(1) b tf by simp
  have rdy: "rd_ready b w t" using assms b u r tf by (simp add: rd_ready_def rd_addr_def)
  obtain s2 where s2: "bread 0x101 (of_nat k) w t = Ok (Some b, w) s2" "b_dirt (bufs s2 b) = 0"
    "\<forall>i<1024. b_data (bufs s2 b) i = rd_mem t (rd_addr (bufs t b) + i)"
    using bread_rereads[OF ct ft rdy] b tf by auto
  have "\<forall>i<1024. b_data (bufs t b) i = user s (buf + of_nat i)" by (simp add: tf copy_from_user_data r)
  moreover have "\<forall>i<1024. b_data (bufs s2 b) i = rd_mem s (1024 * k + i)" using s2(3) by (simp add: tf r rd_addr_def b u)
  ultimately show ?thesis using bw s2(1,2) by blast
qed

subsection \<open>Concrete instances\<close>

theorem full_block_write_lost_witness:
  "\<exists>s1 bh s2. block_write 0x101 0 0x1000 1024 demo_world (blk_dev_init demo_cache\<lparr>rd_length := 65536, user := (\<lambda>_. 77)\<rparr>) = Ok (1024, demo_world) s1 \<and>
     b_data (bufs s1 bh) 5 = 77 \<and> bread 0x101 0 demo_world s1 = Ok (Some bh, demo_world) s2 \<and> b_data (bufs s2 bh) 5 = 0"
proof -
  let ?s = "blk_dev_init demo_cache\<lparr>rd_length := 65536, user := (\<lambda>_. 77)\<rparr>"
  have n: "buffer_count 0x20000 0x20C00 0 = 2" by code_simp
  have d: "current_request demo_cache = (\<lambda>_. None)" "f_pos (file_table demo_cache 0) = 0" "rd_mem demo_cache = (\<lambda>_. 0)" "rd_start demo_cache = 0"
    "start_buffer demo_fs = 0x20000"
    by (simp_all add: demo_cache_def buffer_init_def n demo_fs_def fs_data_def sched_state.extend_def fs_state.fields_def del: buffer_count.simps)
  have i: "cache_inv 2 ?s" using demo_cache_inv
    by (intro cache_inv_cong[of ?s demo_cache 2, THEN iffD2]) (simp_all add: blk_dev_init_def)
  have e: "find_buffer 0x101 (of_nat 0) ?s = None" "b_count (bufs ?s 0) = 0" "b_dirt (bufs ?s 0) = 0" "b_lock (bufs ?s 0) = 0"
    using demo_cache_empty by (simp_all add: blk_dev_init_def find_buffer_def)
  have "\<exists>b<2. b_count (bufs ?s b) = 0 \<and> b_dirt (bufs ?s b) = 0 \<and> b_lock (bufs ?s b) = 0" using e by (intro exI[of _ 0]) simp
  then obtain s1 bh s2 where "block_write 0x101 0 0x1000 1024 demo_world ?s = Ok (1024, demo_world) s1"
    "\<forall>i<1024. b_data (bufs s1 bh) i = user ?s (0x1000 + of_nat i)" "bread 0x101 (of_nat 0) demo_world s1 = Ok (Some bh, demo_world) s2"
    "\<forall>i<1024. b_data (bufs s2 bh) i = rd_mem ?s (1024 * 0 + i)"
    using full_block_write_lost[OF i, where w = demo_world and fp = 0 and k = 0 and buf = "0x1000"] e(1) by (auto simp: blk_dev_init_def d demo_world_def)
  then show ?thesis by (auto simp: blk_dev_init_def d)
qed

definition demo_files :: fs_state where
  "demo_files = demo_fs\<lparr>current := 1, task := [1 \<mapsto> (INIT_TASK 0)\<lparr>filp := [0 \<mapsto> 3], uid := 7, gid := 5\<rparr>],
     file_table := (file_table demo_fs)(3 := \<lparr>f_mode = 0, f_flags = 0, f_count = 1, f_inode = Some 0, f_pos = 10\<rparr>),
     inode_table := (\<lambda>_. no_inode\<lparr>i_dev := 0x301, i_gid := 5, i_size := 100\<rparr>)\<rparr>"

lemma demo_files_fields:
  "current demo_files = 1" "task demo_files = [1 \<mapsto> (INIT_TASK 0)\<lparr>filp := [0 \<mapsto> 3], uid := 7, gid := 5\<rparr>]"
  "file_table demo_files f = (if f = 3 then \<lparr>f_mode = 0, f_flags = 0, f_count = 1, f_inode = Some 0, f_pos = 10\<rparr>
     else \<lparr>f_mode = 0, f_flags = 0, f_count = 0, f_inode = None, f_pos = 0\<rparr>)"
  "inode_table demo_files i = no_inode\<lparr>i_dev := 0x301, i_gid := 5, i_size := 100\<rparr>"
  by (simp_all add: demo_files_def demo_fs_def fs_data_def sched_state.extend_def fs_state.fields_def)

lemma demo_files_counted: "files_counted demo_files"
proof -
  have "fd_refs demo_files f = (if f = 3 then {(1, 0)} else {})" for f
    by (auto simp: fd_refs_def demo_files_fields split: if_splits)
  then show ?thesis by (simp add: files_counted_def demo_files_fields)
qed

theorem dupfd_close_witness:
  "\<exists>s' s''. dupfd 0 0 demo_files = (1, s') \<and> files_counted s' \<and> filp (cur s') 1 = Some 3 \<and>
     sys_close 1 demo_world s' = Ok (0, demo_world) s'' \<and> file_table s'' = file_table demo_files"
proof -
  have r: "fst (dupfd 0 0 demo_files) = 1"
    by (simp add: dupfd_def fget_def cur_def demo_files_fields upt_rec)
  obtain s' where s': "dupfd 0 0 demo_files = (1, s')" using r by (metis prod.collapse)
  have free: "(\<forall>d<20. \<exists>y. (if d = (0 :: nat) then Some (3 :: nat) else None) = Some y) \<longleftrightarrow> False" by (auto intro!: exI[of _ 1])
  show ?thesis
    using dupfd_close[OF demo_files_counted _ _ s', of "(INIT_TASK 0)\<lparr>filp := [0 \<mapsto> 3], uid := 7, gid := 5\<rparr>" demo_world] s'
    by (simp add: free demo_files_fields) blast
qed

theorem lseek_bounds_witness:
  "sys_lseek 0 (- 5) 2 demo_files = (95, upd_file 3 (\<lambda>m. m\<lparr>f_pos := 95\<rparr>) demo_files)"
proof -
  have r: "fst (sys_lseek 0 (- 5) 2 demo_files) = 95" "fget 0 demo_files = Some 3"
    by (simp_all add: sys_lseek_def fget_def cur_def demo_files_fields IS_SEEKABLE_def MAJOR_def lseek_target_def s32_def no_inode_def)
  obtain s' where s': "sys_lseek 0 (- 5) 2 demo_files = (95, s')" using r(1) by (metis prod.collapse)
  show ?thesis using lseek_bounds[OF _ _ s'] r(2) s' by auto
qed

theorem access_group_witness:
  "access_ok (ucast (0x1c0 :: u16) AND 0x1ff) 4 (inode_table demo_files 0) demo_files = 0"
  using access_group[of demo_files "inode_table demo_files 0" "0x1c0" 4]
  by (simp add: demo_files_fields cur_def no_inode_def)

end
