(* ===== verification/Kernel_Fork.thy ===== *)
theory Kernel_Fork
  imports Fs_Open
begin

text \<open>
  Creating processes: src/kernel/fork.c (its \<open>verify_area\<close> is in \<open>Kernel_Signal\<close>) and \<open>sys_fork\<close> of src/kernel/system_call.s. The task
  structure is at the low end of its page; \<open>t_page\<close> is the address. \<open>tss\<close> is 744 bytes and \<open>ldt\<close> 720 bytes into it.
  \<open>fnsave\<close> leaves the coprocessor in its initial state.
\<close>

text \<open>The arguments of \<open>copy_process\<close>: what the interrupt entry and \<open>sys_fork\<close> have pushed.\<close>

record fork_regs =
  r_ebp :: u32
  r_edi :: u32
  r_esi :: u32
  r_gs :: u32
  r_ebx :: u32
  r_ecx :: u32
  r_edx :: u32
  r_fs :: u32
  r_es :: u32
  r_ds :: u32
  r_eip :: u32
  r_cs :: u32
  r_eflags :: u32
  r_esp :: u32
  r_ss :: u32

definition copy_mem :: "nat \<Rightarrow> 'z sched_state_scheme \<Rightarrow> (int, 'z sched_state_scheme) kres" where
  "copy_mem nr s =
     (let code_limit = get_limit (ldt (cur s) 1);
          data_limit = get_limit (ldt (cur s) 2);
          old_code_base = get_base (ldt (cur s) 1);
          old_data_base = get_base (ldt (cur s) 2);
          new_base = of_nat nr * 0x4000000 :: u32 in
      if old_data_base \<noteq> old_code_base then Panic ''We don't support separate I&D'' s
      else if data_limit < code_limit then Panic ''Bad data_limit'' s
      else
        let s = upd_task nr (\<lambda>p. p\<lparr>start_code := new_base,
                   ldt := (ldt p)(1 := set_base new_base (ldt p 1), 2 := set_base new_base (ldt p 2))\<rparr>) s in
        bindk (copy_page_tables old_data_base new_base data_limit s) (\<lambda>r s.
          if r \<noteq> 0 then bindk (free_page_tables new_base data_limit s) (\<lambda>_ s. Ok (- ENOMEM) s)
          else Ok 0 s))"

definition child_tss :: "u32 \<Rightarrow> nat \<Rightarrow> fork_regs \<Rightarrow> tss_struct \<Rightarrow> tss_struct" where
  "child_tss p nr r t = t\<lparr>
     tss_back_link := 0, tss_esp0 := 4096 + p, tss_ss0 := 0x10, tss_eip := r_eip r, tss_eflags := r_eflags r,
     tss_eax := 0, tss_ecx := r_ecx r, tss_edx := r_edx r, tss_ebx := r_ebx r, tss_esp := r_esp r, tss_ebp := r_ebp r,
     tss_esi := r_esi r, tss_edi := r_edi r, tss_es := r_es r AND 0xffff, tss_cs := r_cs r AND 0xffff,
     tss_ss := r_ss r AND 0xffff, tss_ds := r_ds r AND 0xffff, tss_fs := r_fs r AND 0xffff, tss_gs := r_gs r AND 0xffff,
     tss_ldt := LDT_sel nr, tss_trace_bitmap := 0x80000000\<rparr>"

definition child_task :: "u32 \<Rightarrow> nat \<Rightarrow> fork_regs \<Rightarrow> 'z sched_state_scheme \<Rightarrow> task_struct" where
  "child_task p nr r s = (cur s)\<lparr>
     t_page := p, state := TASK_UNINTERRUPTIBLE, counter := priority (cur s), signal := 0, pid := last_pid s,
     father := pid (cur s), leader := 0, alarm := 0, utime := 0, stime := 0, cutime := 0, cstime := 0,
     start_time := jiffies s, tss := child_tss p nr r (tss (cur s))\<rparr>"

definition save_math :: "nat \<Rightarrow> 'z sched_state_scheme \<Rightarrow> 'z sched_state_scheme" where
  "save_math nr s =
     (if last_task_used_math s = Some (current s)
      then (upd_task nr (\<lambda>p. p\<lparr>tss := (tss p)\<lparr>i387 := fpu s\<rparr>\<rparr>) s)\<lparr>fpu := []\<rparr>
      else s)"

text \<open>\<open>f->f_count++\<close> for every open file of the child, and \<open>i_count++\<close> for the three inodes of the parent.\<close>

definition share_file :: "nat option \<Rightarrow> 'z fs_state_scheme \<Rightarrow> 'z fs_state_scheme" where
  "share_file f s = (case f of None \<Rightarrow> s | Some f \<Rightarrow> upd_file f (\<lambda>m. m\<lparr>f_count := f_count m + 1\<rparr>) s)"

definition share_inode :: "nat option \<Rightarrow> 'z fs_state_scheme \<Rightarrow> 'z fs_state_scheme" where
  "share_inode i s = (case i of None \<Rightarrow> s | Some i \<Rightarrow> upd_inode i (\<lambda>m. m\<lparr>i_count := i_count m + 1\<rparr>) s)"

definition share_open :: "nat \<Rightarrow> 'z fs_state_scheme \<Rightarrow> 'z fs_state_scheme" where
  "share_open nr s =
     (let s = fold (\<lambda>i s. share_file (Option.bind (task s nr) (\<lambda>p. filp p i)) s) [0..<NR_OPEN] s
      in share_inode (executable (cur s)) (share_inode (root_dir (cur s)) (share_inode (pwd (cur s)) s)))"

definition copy_process :: "nat \<Rightarrow> fork_regs \<Rightarrow> 'z fs_state_scheme \<Rightarrow> (int, 'z fs_state_scheme) kres" where
  "copy_process nr r s =
     (let (p, s) = get_free_page s in
      if p = 0 then Ok (- EAGAIN) s
      else
        let s = s\<lparr>task := (task s)(nr \<mapsto> child_task p nr r s)\<rparr> in
        bindk (copy_mem nr (save_math nr s)) (\<lambda>e s.
          if e \<noteq> 0
          then bindk (free_page p (s\<lparr>task := (task s)(nr := None)\<rparr>)) (\<lambda>_ s. Ok (- EAGAIN) s)
          else
            let s = share_open nr s;
                s = s\<lparr>gdt := (gdt s)(2 * nr + 4 := set_tssldt_desc (p + 744) 0x89, 2 * nr + 5 := set_tssldt_desc (p + 720) 0x82)\<rparr>
            in Ok (last_pid s) (upd_task nr (\<lambda>t. t\<lparr>state := TASK_RUNNING\<rparr>) s)))"

text \<open>\<open>find_empty_process\<close>. The search for a pid that is not in use is bounded by \<open>NR_TASKS + 1\<close> rounds, which always suffice.\<close>

definition next_pid :: "int \<Rightarrow> int" where
  "next_pid p = (let q = s32 (p + 1) in if q < 0 then 1 else q)"

definition pid_used :: "int \<Rightarrow> 'z sched_state_scheme \<Rightarrow> bool" where
  "pid_used p s = list_ex (\<lambda>i. case task s i of None \<Rightarrow> False | Some t \<Rightarrow> pid t = p) [0..<NR_TASKS]"

primrec find_pid :: "nat \<Rightarrow> 'z sched_state_scheme \<Rightarrow> (unit, 'z sched_state_scheme) kres" where
  "find_pid 0 s = Blocked s"
| "find_pid (Suc n) s =
     (let s = s\<lparr>last_pid := next_pid (last_pid s)\<rparr> in if pid_used (last_pid s) s then find_pid n s else Ok () s)"

definition find_empty_process :: "'z sched_state_scheme \<Rightarrow> (int, 'z sched_state_scheme) kres" where
  "find_empty_process s =
     bindk (find_pid (NR_TASKS + 1) s) (\<lambda>_ s.
       case find (\<lambda>i. task s i = None) [1..<NR_TASKS] of
         Some i \<Rightarrow> Ok (int i) s
       | None \<Rightarrow> Ok (- EAGAIN) s)"

definition sys_fork :: "fork_regs \<Rightarrow> 'z fs_state_scheme \<Rightarrow> (int, 'z fs_state_scheme) kres" where
  "sys_fork r s = bindk (find_empty_process s) (\<lambda>nr s. if nr < 0 then Ok nr s else copy_process (nat nr) r s)"

end
