(* ===== verification/Kernel_Exit.thy ===== *)
theory Kernel_Exit
  imports Fs_Open
begin

text \<open>
  The end of processes and \<open>kill\<close>: src/kernel/exit.c. Tasks are named by their slot. \<open>do_exit\<close> and \<open>release\<close> call
  \<open>schedule\<close> like every other routine; that a task which has left the table or is a zombie does not come back from it follows from \<open>resumable\<close>.
\<close>

abbreviation (input) WNOHANG :: u32 where "WNOHANG \<equiv> 1"
abbreviation (input) WUNTRACED :: u32 where "WUNTRACED \<equiv> 2"

definition release :: "nat \<Rightarrow> (unit, 'z sched_state_scheme) proc" where
  "release i =
     bindp (getp (\<lambda>s. task s i)) (\<lambda>t.
       case t of
         None \<Rightarrow> retp ()
       | Some p \<Rightarrow>
           if i = 0 \<or> i \<ge> NR_TASKS then panicp ''trying to release non-existent task''
           else
             seqp (modp (\<lambda>s. s\<lparr>task := (task s)(i := None)\<rparr>))
             (seqp (liftp (free_page (t_page p)))
               schedulep))"

definition add_signal :: "nat \<Rightarrow> nat \<Rightarrow> 'z sched_state_scheme \<Rightarrow> 'z sched_state_scheme" where
  "add_signal sig i s = upd_task i (\<lambda>t. t\<lparr>signal := signal t OR S_bit sig\<rparr>) s"

definition send_sig :: "int \<Rightarrow> nat \<Rightarrow> bool \<Rightarrow> 'z sched_state_scheme \<Rightarrow> int \<times> 'z sched_state_scheme" where
  "send_sig sig i priv s =
     (case task s i of
        None \<Rightarrow> (- EINVAL, s)
      | Some p \<Rightarrow>
          if sig < 1 \<or> sig > 32 then (- EINVAL, s)
          else if priv \<or> euid (cur s) = euid p \<or> suser s then (0, add_signal (nat sig) i s)
          else (- EPERM, s))"

text \<open>\<open>while (--p > &FIRST_TASK)\<close> from slot \<open>k\<close> down.\<close>

definition kill_session :: "'z sched_state_scheme \<Rightarrow> 'z sched_state_scheme" where
  "kill_session s =
     fold (\<lambda>i s. case task s i of
             Some t \<Rightarrow> if session t = session (cur s) then add_signal SIGHUP i s else s
           | None \<Rightarrow> s) (rev [1..<NR_TASKS]) s"

text \<open>The loop that signals the tasks that satisfy \<open>P\<close>, keeping the last error.\<close>

primrec kill_loop ::
    "nat \<Rightarrow> (task_struct \<Rightarrow> 'z sched_state_scheme \<Rightarrow> bool) \<Rightarrow> int \<Rightarrow> bool \<Rightarrow> int \<Rightarrow> 'z sched_state_scheme \<Rightarrow> int \<times> 'z sched_state_scheme" where
  "kill_loop 0 P sig priv retval s = (retval, s)"
| "kill_loop (Suc k) P sig priv retval s =
     (if k = 0 then (retval, s)
      else
        case task s k of
          None \<Rightarrow> kill_loop k P sig priv retval s
        | Some t \<Rightarrow>
            if P t s
            then let (err, s) = send_sig sig k priv s in kill_loop k P sig priv (if err \<noteq> 0 then err else retval) s
            else kill_loop k P sig priv retval s)"

text \<open>The branch for \<open>pid == -1\<close>: the \<open>else\<close> the source indents like its \<open>if\<close> belongs to \<open>if (err = send_sig(...))\<close>, so
  the first signal that can be sent ends the loop over all tasks and starts the one over the group \<open>-pid\<close>.\<close>

primrec kill_all_loop :: "nat \<Rightarrow> int \<Rightarrow> int \<Rightarrow> int \<Rightarrow> 'z sched_state_scheme \<Rightarrow> int \<times> 'z sched_state_scheme" where
  "kill_all_loop 0 pd sig retval s = (retval, s)"
| "kill_all_loop (Suc k) pd sig retval s =
     (if k = 0 then (retval, s)
      else
        let (err, s) = send_sig sig k False s in
        if err \<noteq> 0 then kill_all_loop k pd sig err s
        else kill_loop k (\<lambda>t _. pgrp t = - pd) sig False retval s)"

definition sys_kill :: "int \<Rightarrow> int \<Rightarrow> 'z sched_state_scheme \<Rightarrow> int \<times> 'z sched_state_scheme" where
  "sys_kill pd sig s =
     (if pd = 0 then kill_loop NR_TASKS (\<lambda>t s. pgrp t = pid (cur s)) sig True 0 s
      else if pd > 0 then kill_loop NR_TASKS (\<lambda>t _. pid t = pd) sig False 0 s
      else if pd = - 1 then kill_all_loop NR_TASKS pd sig 0 s
      else (0, s))"

definition tell_father :: "int \<Rightarrow> (unit, 'z sched_state_scheme) proc" where
  "tell_father pd =
     bindp (getp (\<lambda>s. if pd = 0 then None
                      else find (\<lambda>i. case task s i of None \<Rightarrow> False | Some t \<Rightarrow> pid t = pd) [0..<NR_TASKS])) (\<lambda>r.
       case r of
         Some i \<Rightarrow> modp (add_signal SIGCHLD i)
       | None \<Rightarrow>
           seqp (modp (printk ''BAD BAD - no father found''))
             (bindp (getp current) release))"

text \<open>The children of the exiting task are handed to task 1.\<close>

definition adopt_one :: "nat \<Rightarrow> 'z sched_state_scheme \<Rightarrow> 'z sched_state_scheme" where
  "adopt_one i s =
     (case task s i of
        None \<Rightarrow> s
      | Some t \<Rightarrow>
          if father t = pid (cur s)
          then let s = upd_task i (\<lambda>t. t\<lparr>father := 1\<rparr>) s
               in if state t = TASK_ZOMBIE then snd (send_sig (int SIGCHLD) 1 True s) else s
          else s)"

definition adopt_children :: "'z sched_state_scheme \<Rightarrow> 'z sched_state_scheme" where
  "adopt_children s = fold adopt_one [0..<NR_TASKS] s"

definition free_segment :: "nat \<Rightarrow> (unit, 'z sched_state_scheme) proc" where
  "free_segment k =
     bindp (getp (\<lambda>s. (get_base (ldt (cur s) k), get_limit (ldt (cur s) k)))) (\<lambda>(base, limit).
     bindp (liftp (free_page_tables base limit)) (\<lambda>_. retp ()))"

text \<open>\<open>do_exit\<close> up to the assignment of the state: the memory, the children, the files and the terminal of the task.\<close>

definition release_resources :: "(unit, 'z tty_state_scheme) proc" where
  "release_resources =
     donep
       [free_segment 1, free_segment 2, modp adopt_children,
        forp [0..<NR_OPEN] (\<lambda>i. ifp (\<lambda>s. filp (cur s) i \<noteq> None) (bindp (sys_close (of_nat i)) (\<lambda>_. retp ())) (retp ())),
        bindp (getp (\<lambda>s. pwd (cur s))) iput, modp (upd_cur (\<lambda>t. t\<lparr>pwd := None\<rparr>)),
        bindp (getp (\<lambda>s. root_dir (cur s))) iput, modp (upd_cur (\<lambda>t. t\<lparr>root_dir := None\<rparr>)),
        bindp (getp (\<lambda>s. executable (cur s))) iput, modp (upd_cur (\<lambda>t. t\<lparr>executable := None\<rparr>)),
        ifp (\<lambda>s. leader (cur s) \<noteq> 0 \<and> t_tty (cur s) \<ge> 0)
          (ifp (\<lambda>s. t_tty (cur s) > 2) faultp (modp (\<lambda>s. upd_tty (nat (t_tty (cur s))) (\<lambda>t. t\<lparr>tty_pgrp := 0\<rparr>) s))) (retp ()),
        modp (\<lambda>s. if last_task_used_math s = Some (current s) then s\<lparr>last_task_used_math := None\<rparr> else s),
        ifp (\<lambda>s. leader (cur s) \<noteq> 0) (modp kill_session) (retp ())] ()"

definition do_exit :: "int \<Rightarrow> (int, 'z tty_state_scheme) proc" where
  "do_exit code =
     donep
       [release_resources,
        modp (upd_cur (\<lambda>t. t\<lparr>state := TASK_ZOMBIE, exit_code := code\<rparr>)),
        bindp (getp (\<lambda>s. father (cur s))) tell_father,
        schedulep] (- 1)"

definition sys_exit :: "u32 \<Rightarrow> (int, 'z tty_state_scheme) proc" where
  "sys_exit error_code = do_exit (uint (push_bit 8 (error_code AND 0xff)))"

subsection \<open>Waiting for children\<close>

text \<open>What the loop of \<open>waitpid\<close> over the tasks, from the last slot down to slot 1, finds: a stopped child, a zombie, or whether there is
  any other child.\<close>

datatype wait_result = WaitStopped nat | WaitZombie nat | WaitNone bool

definition wanted :: "int \<Rightarrow> task_struct \<Rightarrow> 'z sched_state_scheme \<Rightarrow> bool" where
  "wanted pd t s \<longleftrightarrow> father t = pid (cur s) \<and>
     (if pd > 0 then pid t = pd else if pd = 0 then pgrp t = pgrp (cur s) else pd = - 1 \<or> pgrp t = - pd)"

primrec wait_scan :: "nat \<Rightarrow> int \<Rightarrow> u32 \<Rightarrow> bool \<Rightarrow> 'z sched_state_scheme \<Rightarrow> wait_result" where
  "wait_scan 0 pd options flag s = WaitNone flag"
| "wait_scan (Suc k) pd options flag s =
     (case task s (Suc k) of
        None \<Rightarrow> wait_scan k pd options flag s
      | Some t \<Rightarrow>
          if Suc k = current s \<or> \<not> wanted pd t s then wait_scan k pd options flag s
          else if state t = TASK_STOPPED
          then (if options AND WUNTRACED = 0 then wait_scan k pd options flag s else WaitStopped (Suc k))
          else if state t = TASK_ZOMBIE then WaitZombie (Suc k)
          else wait_scan k pd options True s)"

definition reap :: "nat \<Rightarrow> u32 \<Rightarrow> (int, 'z sched_state_scheme) proc" where
  "reap i stat_addr =
     bindp (getp (\<lambda>s. the (task s i))) (\<lambda>p.
     seqp (modp (upd_cur (\<lambda>t. t\<lparr>cutime := s32 (cutime t + utime p), cstime := s32 (cstime t + stime p)\<rparr>)))
     (seqp (release i)
     (seqp (modp (put_fs_long (word_of_int (exit_code p)) stat_addr))
       (retp (pid p)))))"

primrec waitpid_loop :: "nat \<Rightarrow> int \<Rightarrow> u32 \<Rightarrow> u32 \<Rightarrow> (int, 'z sched_state_scheme) proc" where
  "waitpid_loop 0 pd stat_addr options = stuckp"
| "waitpid_loop (Suc n) pd stat_addr options =
     bindp (getp (wait_scan (NR_TASKS - 1) pd options False)) (\<lambda>r.
       case r of
         WaitStopped i \<Rightarrow> seqp (modp (put_fs_long 0x7f stat_addr)) (getp (\<lambda>s. pid (the (task s i))))
       | WaitZombie i \<Rightarrow> reap i stat_addr
       | WaitNone flag \<Rightarrow>
           if \<not> flag then retp (- ECHILD)
           else if options AND WNOHANG \<noteq> 0 then retp 0
           else
             seqp (modp (upd_cur (\<lambda>t. t\<lparr>state := TASK_INTERRUPTIBLE\<rparr>)))
             (seqp schedulep
             (seqp (modp (upd_cur (\<lambda>t. t\<lparr>signal := signal t AND NOT (S_bit SIGCHLD)\<rparr>)))
               (ifp (\<lambda>s. signal (cur s) = 0) (waitpid_loop n pd stat_addr options) (retp (- EINTR))))))"

definition sys_waitpid :: "int \<Rightarrow> u32 \<Rightarrow> u32 \<Rightarrow> (int, 'z sched_state_scheme) proc" where
  "sys_waitpid pd stat_addr options =
     seqp (liftp (verify_area stat_addr 4)) (fuelp (\<lambda>n. waitpid_loop n pd stat_addr options))"

end
