(* ===== verification/Process_Laws.thy ===== *)
theory Process_Laws
  imports Kernel_Fork Kernel_Exit Fs_File_Laws
begin

text \<open>
  Processes. A new process gets a pid nobody has, a copy of the parent's context in its own 64 MB of linear memory, and shares the
  parent's open files, whose counts stay right; when memory runs out nothing is left behind. \<open>kill\<close> of a process group
  other than group 1 does nothing. A zombie is reaped once, and a process without children is told so.
\<close>

subsection \<open>Process identifiers\<close>

lemma next_pid_cases:
  assumes "0 \<le> p" "p < 0x80000000"
  shows "next_pid p = (if p = 0x7fffffff then 1 else p + 1)"
proof (cases "p = 0x7fffffff")
  case False
  then have "s32 (p + 1) = p + 1" using assms by (simp add: s32_def signed_take_bit_int_eq_self)
  then show ?thesis using False assms by (simp add: next_pid_def)
qed (simp add: next_pid_def s32_def)

text \<open>The pids tried, starting from \<open>q > 0\<close>.\<close>

lemma next_pid_iterate:
  assumes "1 \<le> q" "q < 0x80000000"
  shows "(next_pid ^^ k) q = (q - 1 + int k) mod 0x7fffffff + 1"
proof (induction k)
  case 0
  then show ?case using assms by simp
next
  case (Suc k)
  define x where "x = (q - 1 + int k) mod 0x7fffffff"
  have x: "0 \<le> x" "x < 0x7fffffff" by (simp_all add: x_def)
  have "(next_pid ^^ Suc k) q = (if x + 1 = 0x7fffffff then 1 else x + 2)"
    using x by (simp add: Suc x_def[symmetric] next_pid_cases)
  also have "\<dots> = (x + 1) mod 0x7fffffff + 1" using x by auto
  also have "(x + 1) mod 0x7fffffff = (q - 1 + int (Suc k)) mod 0x7fffffff"
    unfolding x_def by (simp add: mod_add_left_eq add.assoc)
  finally show ?case .
qed

lemma next_pid_distinct:
  assumes "1 \<le> q" "q < 0x80000000" "i < j" "j < 100"
  shows "(next_pid ^^ i) q \<noteq> (next_pid ^^ j) q"
proof
  assume "(next_pid ^^ i) q = (next_pid ^^ j) q"
  then have "(q - 1 + int j) mod 0x7fffffff = (q - 1 + int i) mod 0x7fffffff"
    by (simp add: next_pid_iterate[OF assms(1,2)])
  then have "0x7fffffff dvd int j - int i" by (simp add: mod_eq_dvd_iff)
  then show False using assms(3,4) zdvd_not_zless[of "int j - int i" "0x7fffffff"] by simp
qed

lemma find_pid_searches:
  "find_pid n s = Blocked s' \<Longrightarrow> k < n \<Longrightarrow> pid_used ((next_pid ^^ Suc k) (last_pid s)) s"
proof (induction n arbitrary: s k)
  case (Suc n)
  have u: "pid_used p (s\<lparr>last_pid := l\<rparr>) = pid_used p s" for p l by (simp add: pid_used_def)
  show ?case
  proof (cases k)
    case 0
    then show ?thesis using Suc.prems by (auto simp: Let_def u split: if_splits)
  next
    case (Suc j)
    then have "pid_used ((next_pid ^^ Suc j) (next_pid (last_pid s))) (s\<lparr>last_pid := next_pid (last_pid s)\<rparr>)"
      using Suc.prems Suc.IH[of "s\<lparr>last_pid := next_pid (last_pid s)\<rparr>" j] by (auto simp: Let_def split: if_splits)
    then show ?thesis unfolding u using \<open>k = Suc j\<close> by (simp only: funpow_Suc_right o_apply)
  qed
qed simp

lemma find_pid_result:
  "find_pid n s = Ok u s' \<Longrightarrow> 0 \<le> last_pid s \<Longrightarrow> last_pid s < 0x80000000 \<Longrightarrow>
    s' = s\<lparr>last_pid := last_pid s'\<rparr> \<and> 0 < last_pid s' \<and> last_pid s' < 0x80000000 \<and> \<not> pid_used (last_pid s') s"
proof (induction n arbitrary: s)
  case (Suc n)
  let ?p = "next_pid (last_pid s)"
  have p: "0 < ?p" "?p < 0x80000000" using next_pid_cases[of "last_pid s"] Suc.prems(2,3) by auto
  have u: "pid_used q (s\<lparr>last_pid := l\<rparr>) = pid_used q s" for q l by (simp add: pid_used_def)
  show ?case
  proof (cases "pid_used ?p s")
    case True
    then have "find_pid n (s\<lparr>last_pid := ?p\<rparr>) = Ok u s'" using Suc.prems(1) by (simp add: Let_def u)
    from Suc.IH[OF this] p show ?thesis by (simp add: u)
  next
    case False
    then show ?thesis using Suc.prems(1) p by (auto simp: Let_def u)
  qed
qed simp

lemma find_pid_shape: "(\<exists>s'. find_pid n s = Ok () s') \<or> (\<exists>s'. find_pid n s = Blocked s')"
  by (induction n arbitrary: s) (auto simp: Let_def)

lemma find_pid_finds:
  assumes "0 \<le> last_pid s" "last_pid s < 0x80000000"
  shows "\<exists>s'. find_pid 65 s = Ok () s'"
proof (rule ccontr)
  assume "\<not> ?thesis"
  then obtain s' where b: "find_pid 65 s = Blocked s'" using find_pid_shape[of 65 s] by blast
  define q where "q = next_pid (last_pid s)"
  have q: "1 \<le> q" "q < 0x80000000" using next_pid_cases[OF assms] assms by (auto simp: q_def)
  let ?f = "\<lambda>k. (next_pid ^^ k) q"
  have used: "?f k \<in> (\<lambda>i. pid (the (task s i))) ` {..<64}" if "k < 65" for k
  proof -
    have "pid_used (?f k) s" using find_pid_searches[OF b that] by (simp add: q_def funpow_swap1)
    then show ?thesis by (force simp: pid_used_def list_ex_iff split: option.splits)
  qed
  have "inj_on ?f {..<65}"
  proof (rule linorder_inj_onI')
    fix i j :: nat assume "j \<in> {..<65}" "i < j"
    then show "?f i \<noteq> ?f j" using next_pid_distinct[OF q, of i j] by simp
  qed
  then have "card {..<65 :: nat} \<le> card ((\<lambda>i. pid (the (task s i))) ` {..<64 :: nat})"
    using used by (intro card_inj_on_le[of ?f]) auto
  also have "\<dots> \<le> 64" using card_image_le[of "{..<64 :: nat}"] by (metis card_lessThan finite_lessThan)
  finally show False by simp
qed

lemma find_empty_process_search:
  assumes "0 \<le> last_pid s" "last_pid s < 0x80000000"
  shows "\<exists>r s'. find_empty_process s = Ok r s' \<and> s' = s\<lparr>last_pid := last_pid s'\<rparr> \<and> 0 < last_pid s' \<and> last_pid s' < 0x80000000 \<and>
    (\<forall>i<64. \<forall>t. task s i = Some t \<longrightarrow> pid t \<noteq> last_pid s') \<and>
    (if r < 0 then r = - EAGAIN \<and> (\<forall>i. 0 < i \<and> i < 64 \<longrightarrow> task s i \<noteq> None)
     else 0 < r \<and> r < 64 \<and> task s (nat r) = None)"
proof -
  obtain s' where f: "find_pid 65 s = Ok () s'" using find_pid_finds[OF assms] by blast
  note r = find_pid_result[OF f assms]
  have t: "task s' = task s" using r by (metis sched_state.select_convs(1) sched_state.surjective sched_state.update_convs(6))
  have fresh: "\<forall>i<64. \<forall>t. task s i = Some t \<longrightarrow> pid t \<noteq> last_pid s'"
    using r by (auto simp: pid_used_def list_ex_iff split: option.splits)
  show ?thesis
  proof (cases "find (\<lambda>i. task s i = None) [1..<64]")
    case None
    then have "\<forall>i. 0 < i \<and> i < 64 \<longrightarrow> task s i \<noteq> None" by (auto simp: find_None_iff)
    moreover have "find_empty_process s = Ok (- EAGAIN) s'" using None by (simp add: find_empty_process_def f t)
    ultimately show ?thesis using r fresh by auto
  next
    case (Some i)
    then have "1 \<le> i" "i < 64" "task s i = None" using find_upt_Some by blast+
    moreover have "find_empty_process s = Ok (int i) s'" using Some by (simp add: find_empty_process_def f t)
    ultimately show ?thesis using r fresh by auto
  qed
qed

subsection \<open>What forking leaves alone\<close>

lemma more_store [simp]: "mm_state.more (store a v s) = mm_state.more s" "mm_state.more (invalidate s) = mm_state.more s"
  "mm_state.more (s\<lparr>mem_map := m\<rparr>) = mm_state.more s"
  by (simp_all add: store_def invalidate_def)

lemma more_bindk:
  assumes "mm_state.more (kstate m) = x" "\<And>a s. m = Ok a s \<Longrightarrow> mm_state.more (kstate (f a s)) = x"
  shows "mm_state.more (kstate (bindk m f)) = x"
  using assms by (cases m) auto

lemma more_free_table: "mm_state.more (kstate (free_table_loop n a s)) = mm_state.more s"
proof (induction n arbitrary: a s)
  case (Suc n)
  show ?case unfolding free_table_loop.simps
    by (rule more_bindk) (auto simp: Suc more_free_page split: if_splits dest!: arg_cong[of _ _ "\<lambda>r. mm_state.more (kstate r)"])
qed simp

lemma more_OkD: "mm_state.more (kstate m) = x \<Longrightarrow> m = Ok a s \<Longrightarrow> mm_state.more s = x"
  by simp

lemma more_free_dir: "mm_state.more (kstate (free_dir_loop n a s)) = mm_state.more s"
proof (induction n arbitrary: a s)
  case (Suc n)
  show ?case unfolding free_dir_loop.simps
    by (auto simp: Suc more_free_page more_free_table dest!: more_OkD[OF more_free_table] more_OkD[OF more_free_page] intro!: more_bindk)
qed simp

lemma more_copy_table: "mm_state.more (kstate (copy_table_loop n a b s)) = mm_state.more s"
  by (induction n arbitrary: a b s) (simp_all add: Let_def)

lemma more_copy_dir: "mm_state.more (kstate (copy_dir_loop n f a b s)) = mm_state.more s"
proof (induction n arbitrary: f a b s)
  case (Suc n)
  obtain p t where g: "get_free_page s = (p, t)" by fastforce
  have t: "mm_state.more t = mm_state.more s" using more_get_free_page[of s] g by simp
  show ?case unfolding copy_dir_loop.simps Let_def g
    using t by (auto simp: Suc more_copy_table dest!: more_OkD[OF more_copy_table] intro!: more_bindk)
qed simp

lemma more_page_tables:
  "mm_state.more (kstate (copy_page_tables a b l s)) = mm_state.more s"
  "mm_state.more (kstate (free_page_tables a l s)) = mm_state.more s"
  by (auto simp: copy_page_tables_def free_page_tables_def Let_def more_copy_dir more_free_dir dest!: more_OkD[OF more_free_dir]
      intro!: more_bindk)

text \<open>The files and the descriptors, which do not depend on the memory of the machine.\<close>

lemma fs_more:
  assumes "mm_state.more s' = mm_state.more (s :: 'z fs_state_scheme)"
  shows "file_table s' = file_table s" "inode_table s' = inode_table s" "last_pid s' = last_pid s" "gdt s' = gdt s"
    "task s' = task s" "current s' = current s"
  using assms by (cases s, cases s', simp)+

lemma copy_mem_task:
  fixes s :: "'z sched_state_scheme"
  assumes "copy_mem nr s = Ok e s'"
  shows "mm_state.more s' = mm_state.more (upd_task nr (\<lambda>p. p\<lparr>start_code := of_nat nr * 0x4000000,
    ldt := (ldt p)(1 := set_base (of_nat nr * 0x4000000) (ldt p 1), 2 := set_base (of_nat nr * 0x4000000) (ldt p 2))\<rparr>) s)"
proof -
  let ?t = "upd_task nr (\<lambda>p. p\<lparr>start_code := of_nat nr * 0x4000000,
    ldt := (ldt p)(1 := set_base (of_nat nr * 0x4000000) (ldt p 1), 2 := set_base (of_nat nr * 0x4000000) (ldt p 2))\<rparr>) s"
  let ?l = "get_limit (ldt (cur s) 2)" and ?b = "get_base (ldt (cur s) 2)"
  obtain r s1 where c: "copy_page_tables ?b (of_nat nr * 0x4000000) ?l ?t = Ok r s1"
    "(if r \<noteq> 0 then bindk (free_page_tables (of_nat nr * 0x4000000) ?l s1) (\<lambda>_ s. Ok (- ENOMEM) s) else Ok 0 s1) = Ok e s'"
    using assms by (auto simp: copy_mem_def Let_def split: if_splits)
  have "mm_state.more s1 = mm_state.more ?t" by (rule more_OkD[OF more_page_tables(1) c(1)])
  moreover have "mm_state.more s' = mm_state.more s1"
    using c(2) more_OkD[OF more_page_tables(2)] by (auto split: if_splits)
  ultimately show ?thesis by simp
qed

subsection \<open>Sharing the open files\<close>

lemma share_file_fields [simp]:
  "task (share_file f s) = task s" "current (share_file f s) = current s" "inode_table (share_file f s) = inode_table s"
  "last_pid (share_file f s) = last_pid s"
  by (simp_all add: share_file_def upd_file_def split: option.splits)

lemma share_inode_fields [simp]:
  "task (share_inode i s) = task s" "current (share_inode i s) = current s" "file_table (share_inode i s) = file_table s"
  "last_pid (share_inode i s) = last_pid s"
  by (simp_all add: share_inode_def upd_inode_def split: option.splits)

lemma share_file_count:
  "f_count (file_table (share_file v s) g) = f_count (file_table s g) + (if v = Some g then 1 else 0)"
  by (simp add: share_file_def upd_file_def split: option.splits)

lemma share_files_fields [simp]:
  "task (fold (\<lambda>i. share_file (v i)) ds s) = task s" "current (fold (\<lambda>i. share_file (v i)) ds s) = current s"
  "last_pid (fold (\<lambda>i. share_file (v i)) ds s) = last_pid s"
  by (induction ds arbitrary: s) simp_all

lemma share_files_count:
  "distinct ds \<Longrightarrow> f_count (file_table (fold (\<lambda>i. share_file (v i)) ds s) g) =
    f_count (file_table s g) + of_nat (card {d \<in> set ds. v d = Some g})"
proof (induction ds arbitrary: s)
  case (Cons d ds)
  have "{e \<in> set (d # ds). v e = Some g} = (if v d = Some g then insert d {e \<in> set ds. v e = Some g} else {e \<in> set ds. v e = Some g})"
    by auto
  then show ?case using Cons by (simp add: share_file_count)
qed simp

text \<open>The body of the loop reads the child's descriptors, which it does not change.\<close>

lemma share_loop:
  assumes "task s nr = Some c"
  shows "fold (\<lambda>i s. share_file (Option.bind (task s nr) (\<lambda>p. filp p i)) s) ds s = fold (\<lambda>i. share_file (filp c i)) ds s"
  using assms by (induction ds arbitrary: s) simp_all

lemma share_open_fields:
  assumes "task s nr = Some c"
  shows "task (share_open nr s) = task s" "current (share_open nr s) = current s" "last_pid (share_open nr s) = last_pid s"
    "f_count (file_table (share_open nr s) g) = f_count (file_table s g) + of_nat (card {d. d < 20 \<and> filp c d = Some g})"
  using assms share_files_count[of "[0..<20]" "filp c" s g] by (simp_all add: share_open_def Let_def share_loop)

lemma files_counted_shared:
  assumes c: "files_counted s" and nr: "task s nr = None" "nr < 64"
    and t: "task s' = (task s)(nr \<mapsto> c)"
    and f: "\<And>g. f_count (file_table s' g) = f_count (file_table s g) + of_nat (card {d. d < 20 \<and> filp c d = Some g})"
  shows "files_counted s'"
  unfolding files_counted_def
proof
  fix g
  let ?D = "{d. d < 20 \<and> filp c d = Some g}"
  have u: "fd_refs s' g = fd_refs s g \<union> {nr} \<times> ?D" using nr t by (auto simp: fd_refs_def split: if_splits)
  have d: "fd_refs s g \<inter> {nr} \<times> ?D = {}" using nr by (auto simp: fd_refs_def)
  have n: "card (fd_refs s' g) = unat (f_count (file_table s g)) + card ?D"
    using c d unfolding u by (simp add: card_Un_disjoint card_cartesian_product files_counted_def)
  have "card (fd_refs s' g) < 2 ^ 16" using card_fd_refs[of s' g] by simp
  moreover have "f_count (file_table s' g) = of_nat (card (fd_refs s' g))" unfolding f n by simp
  ultimately show "unat (f_count (file_table s' g)) = card (fd_refs s' g)"
    by (simp add: unat_of_nat take_bit_nat_eq_self)
qed

subsection \<open>fork\<close>

lemma get_set_base: "get_base (set_base b d) = b"
proof (rule bit_word_eqI)
  fix n assume "n < LENGTH(32)"
  then have "n \<in> set [0..<32]" by simp
  then show "bit (get_base (set_base b d)) n = bit b n"
    by (simp add: upt_rec del: set_upt) (elim disjE, simp_all add: get_base_def set_base_def bit_simps, simp_all add: eval_nat_numeral)
qed

text \<open>What the parent \<open>p\<close> passes on to the child \<open>c\<close> in slot \<open>nr\<close>: its own pid, the parent as father, the parent's registers with 0 in
  \<open>eax\<close>, the descriptors, the directories and the identity of the parent, no pending signal, and the segment at \<open>nr\<close> times 64 MB.\<close>

definition child_of :: "nat \<Rightarrow> int \<Rightarrow> fork_regs \<Rightarrow> task_struct \<Rightarrow> task_struct \<Rightarrow> bool" where
  "child_of nr v r p c \<longleftrightarrow> pid c = v \<and> father c = pid p \<and> state c = TASK_RUNNING \<and> counter c = priority p \<and> signal c = 0 \<and>
     tss_eax (tss c) = 0 \<and> tss_eip (tss c) = r_eip r \<and> tss_esp (tss c) = r_esp r \<and> tss_ebx (tss c) = r_ebx r \<and>
     filp c = filp p \<and> pwd c = pwd p \<and> root_dir c = root_dir p \<and> uid c = uid p \<and> euid c = euid p \<and>
     get_base (ldt c 1) = of_nat nr * 0x4000000 \<and> get_base (ldt c 2) = of_nat nr * 0x4000000"

lemma save_math_task:
  assumes "task s nr = Some c"
  shows "\<exists>x. task (save_math nr s) = (task s)(nr \<mapsto> c\<lparr>tss := (tss c)\<lparr>i387 := x\<rparr>\<rparr>)"
proof (cases "last_task_used_math s = Some (current s)")
  case True
  then show ?thesis using assms by (auto simp: save_math_def upd_task_def)
next
  case False
  have e: "c\<lparr>tss := (tss c)\<lparr>i387 := i387 (tss c)\<rparr>\<rparr> = c" by simp
  have "(task s)(nr \<mapsto> c) = task s" using assms by (rule map_upd_triv)
  then have "task (save_math nr s) = (task s)(nr \<mapsto> c\<lparr>tss := (tss c)\<lparr>i387 := i387 (tss c)\<rparr>\<rparr>)"
    unfolding e using False by (simp add: save_math_def)
  then show ?thesis by (rule exI)
qed

lemma save_math_rest [simp]:
  "file_table (save_math nr s) = file_table (s :: 'z fs_state_scheme)" "inode_table (save_math nr s) = inode_table s" 
  "last_pid (save_math nr s) = last_pid s" "current (save_math nr s) = current s"
  by (simp_all add: save_math_def upd_task_def)

lemma copy_mem_fork:
  fixes s :: "'z fs_state_scheme"
  assumes m: "copy_mem nr (save_math nr (s\<lparr>task := (task s)(nr \<mapsto> child_task pg nr r s)\<rparr>)) = Ok e s'"
    and p: "task s (current s) = Some p" and nr: "nr \<noteq> current s"
  shows "file_table s' = file_table s" "inode_table s' = inode_table s" "last_pid s' = last_pid s" "current s' = current s"
    "\<exists>c. task s' = (task s)(nr \<mapsto> c) \<and> child_of nr (last_pid s) r p (c\<lparr>state := 0\<rparr>)"
proof -
  let ?c = "child_task pg nr r s"
  let ?s = "s\<lparr>task := (task s)(nr \<mapsto> ?c)\<rparr>"
  obtain x where t: "task (save_math nr ?s) = (task ?s)(nr \<mapsto> ?c\<lparr>tss := (tss ?c)\<lparr>i387 := x\<rparr>\<rparr>)"
    using save_math_task[of ?s nr ?c] by auto
  let ?g = "\<lambda>c. c\<lparr>start_code := of_nat nr * 0x4000000,
    ldt := (ldt c)(1 := set_base (of_nat nr * 0x4000000) (ldt c 1), 2 := set_base (of_nat nr * 0x4000000) (ldt c 2))\<rparr>"
  have e: "mm_state.more s' = mm_state.more (upd_task nr ?g (save_math nr ?s))" by (rule copy_mem_task[OF m])
  show "file_table s' = file_table s" "inode_table s' = inode_table s" "last_pid s' = last_pid s" "current s' = current s"
    using fs_more[OF e] by (simp_all add: upd_task_def)
  have "task s' = (task s)(nr \<mapsto> ?g (?c\<lparr>tss := (tss ?c)\<lparr>i387 := x\<rparr>\<rparr>))"
    using fs_more[OF e] t by (simp add: upd_task_def)
  moreover have "child_of nr (last_pid s) r p ((?g (?c\<lparr>tss := (tss ?c)\<lparr>i387 := x\<rparr>\<rparr>))\<lparr>state := 0\<rparr>)"
    using p by (simp add: child_of_def child_task_def child_tss_def cur_def get_set_base)
  ultimately show "\<exists>c. task s' = (task s)(nr \<mapsto> c) \<and> child_of nr (last_pid s) r p (c\<lparr>state := 0\<rparr>)" by blast
qed

text \<open>A process that cannot be made leaves the tables as they were.\<close>

lemma copy_process_result:
  fixes s :: "'z fs_state_scheme"
  assumes r: "copy_process nr r s = Ok v s'" and p: "task s (current s) = Some p" and nr: "task s nr = None" "nr < 64"
    and c: "files_counted s"
  shows "v = - EAGAIN \<and> task s' = task s \<and> file_table s' = file_table s \<and> inode_table s' = inode_table s \<or>
    v = last_pid s \<and> files_counted s' \<and> (\<exists>c. task s' = (task s)(nr \<mapsto> c) \<and> child_of nr v r p c)"
proof -
  have n: "nr \<noteq> current s" using p nr by auto
  obtain pg s1 where g: "get_free_page s = (pg, s1)" by fastforce
  have m1: "mm_state.more s1 = mm_state.more s" using more_get_free_page[of s] g by simp
  note f1 = fs_more[OF m1]
  show ?thesis
  proof (cases "pg = 0")
    case True
    then show ?thesis using r g f1 by (auto simp: copy_process_def)
  next
    case False
    obtain e s2 where m: "copy_mem nr (save_math nr (s1\<lparr>task := (task s1)(nr \<mapsto> child_task pg nr r s1)\<rparr>)) = Ok e s2"
      and k: "(if e \<noteq> 0 then bindk (free_page pg (s2\<lparr>task := (task s2)(nr := None)\<rparr>)) (\<lambda>_ s. Ok (- EAGAIN) s)
          else let s = share_open nr s2;
                s = s\<lparr>gdt := (gdt s)(2 * nr + 4 := set_tssldt_desc (pg + 744) 0x89, 2 * nr + 5 := set_tssldt_desc (pg + 720) 0x82)\<rparr>
            in Ok (last_pid s) (upd_task nr (\<lambda>t. t\<lparr>state := TASK_RUNNING\<rparr>) s)) = Ok v s'"
      using r g False by (auto simp: copy_process_def Let_def)
    note f2 = copy_mem_fork[OF m, of p]
    obtain ch where ch: "task s2 = (task s)(nr \<mapsto> ch)" "child_of nr (last_pid s) r p (ch\<lparr>state := 0\<rparr>)"
      using f2(5) p n f1 by auto
    show ?thesis
    proof (cases "e = 0")
      case True
      have o2: "task s2 nr = Some ch" using ch by simp
      have v: "v = last_pid s" "task s' = (task s)(nr \<mapsto> ch\<lparr>state := 0\<rparr>)"
        and ft: "file_table s' = file_table (share_open nr s2)"
        using k True share_open_fields[OF o2] f2 f1 p n ch by (auto simp: Let_def upd_task_def)
      have "files_counted s'"
        by (rule files_counted_shared[OF c nr v(2)]) (use share_open_fields(4)[OF o2] ft f2(1) f1 p n in simp)
      then show ?thesis using v ch(2) by blast
    next
      case False
      then obtain u where u: "free_page pg (s2\<lparr>task := (task s2)(nr := None)\<rparr>) = Ok u s'" "v = - EAGAIN" using k by auto
      note f3 = fs_more[OF more_OkD[OF more_free_page u(1)]]
      have "task s' = task s" using f3 ch nr by (simp add: fun_eq_iff)
      then show ?thesis using f3 f2 f1 p n u(2) by simp
    qed
  qed
qed

text \<open>The search of \<open>find_empty_process\<close> ends within 65 rounds whatever pids are in use, also where \<open>last_pid\<close> wraps at \<open>2 ^ 31\<close>: it
  sets \<open>last_pid\<close> to a positive pid that no task has and returns a free slot, or \<open>-EAGAIN\<close> when all slots but the first are taken.\<close>

theorem find_empty_process_total:
  assumes "0 \<le> last_pid s" "last_pid s < 0x80000000"
  shows "\<exists>r s'. find_empty_process s = Ok r s' \<and> s' = s\<lparr>last_pid := last_pid s'\<rparr> \<and> 0 < last_pid s' \<and> last_pid s' < 0x80000000 \<and>
    (\<forall>i<64. \<forall>t. task s i = Some t \<longrightarrow> pid t \<noteq> last_pid s') \<and>
    (if r < 0 then r = - EAGAIN \<and> (\<forall>i. 0 < i \<and> i < 64 \<longrightarrow> task s i \<noteq> None)
     else 0 < r \<and> r < 64 \<and> task s (nat r) = None)"
  by (rule find_empty_process_search[OF assms])

text \<open>C5. \<open>fork\<close>. When it returns, either it has failed with \<open>-EAGAIN\<close> and the task table, the open files and the inodes are as before; or
  the result is a pid that no task had, exactly one free slot now holds a child of the caller (\<open>child_of\<close>), every other task is unchanged, and the
  count of every open file is still the number of descriptors that name it.\<close>

theorem fork_result:
  fixes s :: "'z fs_state_scheme"
  assumes r: "sys_fork r s = Ok v s'" and l: "0 \<le> last_pid s" "last_pid s < 0x80000000" and p: "task s (current s) = Some p"
    and c: "files_counted s"
  shows "v = - EAGAIN \<and> task s' = task s \<and> file_table s' = file_table s \<and> inode_table s' = inode_table s \<or>
    0 < v \<and> (\<forall>i<64. \<forall>t. task s i = Some t \<longrightarrow> pid t \<noteq> v) \<and> files_counted s' \<and>
    (\<exists>nr c. 0 < nr \<and> nr < 64 \<and> task s nr = None \<and> task s' = (task s)(nr \<mapsto> c) \<and> child_of nr v r p c)"
proof -
  obtain q s1 where e: "find_empty_process s = Ok q s1" and s1: "s1 = s\<lparr>last_pid := last_pid s1\<rparr>" "0 < last_pid s1"
    and fr: "\<forall>i<64. \<forall>t. task s i = Some t \<longrightarrow> pid t \<noteq> last_pid s1"
    and q: "if q < 0 then q = - EAGAIN \<and> (\<forall>i. 0 < i \<and> i < 64 \<longrightarrow> task s i \<noteq> None) else 0 < q \<and> q < 64 \<and> task s (nat q) = None"
    using find_empty_process_search[OF l] by blast
  obtain x where x: "s1 = s\<lparr>last_pid := x\<rparr>" using s1(1) by blast
  show ?thesis
  proof (cases "q < 0")
    case True
    then have "v = - EAGAIN" "s' = s\<lparr>last_pid := x\<rparr>" using r e q x by (auto simp: sys_fork_def)
    then show ?thesis by simp
  next
    case False
    then have k: "copy_process (nat q) r s1 = Ok v s'" using r e by (simp add: sys_fork_def)
    have c1: "files_counted s1" using c by (simp add: x files_counted_def fd_refs_def)
    have nr: "nat q < 64" "0 < nat q" "task s (nat q) = None" using q False by auto
    consider (fail) "v = - EAGAIN" "task s' = task s" "file_table s' = file_table s" "inode_table s' = inode_table s"
      | (made) ch where "v = last_pid s1" "files_counted s'" "task s' = (task s)(nat q \<mapsto> ch)" "child_of (nat q) v r p ch"
      using copy_process_result[OF k _ _ nr(1) c1, of p] p nr(3) by (auto simp: x)
    then show ?thesis
    proof cases
      case made
      then show ?thesis using nr fr s1(2) by blast
    qed simp
  qed
qed

text \<open>The fork of a process with one open file, on a machine whose page directory is empty.\<close>

lemma scan_map_top: "0 < n \<Longrightarrow> m (n - 1) = 0 \<Longrightarrow> scan_map m n = Some (n - 1)"
  by (cases n) simp_all

lemma copy_dir_absent:
  "(\<And>a. phys s a = 0) \<Longrightarrow> copy_dir_loop n f a b s = Ok 0 (invalidate s)"
  by (induction n arbitrary: a b) (simp_all add: load_def present_def)

lemma demo_files_mm:
  "mem_map demo_files i = 0" "phys demo_files a = 0" "last_pid demo_files = 0" "last_task_used_math demo_files = None"
  by (simp_all add: demo_files_def demo_fs_def fs_data_def sched_state.extend_def fs_state.fields_def demo_sched_def sched_data_def)

definition demo_regs :: fork_regs where
  "demo_regs = \<lparr>r_ebp = 0, r_edi = 0, r_esi = 0, r_gs = 0x17, r_ebx = 3, r_ecx = 0, r_edx = 0, r_fs = 0x17, r_es = 0x17, r_ds = 0x17,
     r_eip = 0x100, r_cs = 0x0f, r_eflags = 0x202, r_esp = 0x3fffff0, r_ss = 0x17\<rparr>"

lemma demo_fork: "\<exists>s'. sys_fork demo_regs demo_files = Ok 1 s'"
proof -
  let ?s = "demo_files\<lparr>last_pid := 1\<rparr>"
  have u: "\<not> pid_used 1 ?s" by (auto simp: pid_used_def demo_files_fields INIT_TASK_def list_ex_iff split: option.splits)
  have f: "find_empty_process demo_files = Ok 2 ?s"
  proof -
    have "find_pid (Suc 64) demo_files = Ok () ?s" unfolding find_pid.simps using u by (simp add: demo_files_mm next_pid_def Let_def)
    moreover have "find (\<lambda>i. task ?s i = None) [1..<64] = Some 2" by (simp add: demo_files_fields upt_rec)
    ultimately show ?thesis by (simp add: find_empty_process_def)
  qed
  obtain s1 where g: "get_free_page ?s = (0xfff000, s1)" "\<And>a. phys s1 a = 0" "mm_state.more s1 = mm_state.more ?s"
    using scan_map_top[of 3840 "mem_map ?s"] by (simp add: get_free_page_def demo_files_mm stosl_page_def)
  note f1 = fs_more[OF g(3)]
  let ?m = "save_math 2 (s1\<lparr>task := (task s1)(2 \<mapsto> child_task 0xfff000 2 demo_regs s1)\<rparr>)"
  have l: "ldt (cur ?m) = ldt (INIT_TASK 0)"
    using f1 by (simp add: save_math_def upd_task_def cur_def demo_files_fields)
  have b: "get_base (ldt (INIT_TASK 0) 1) = 0" "get_base (ldt (INIT_TASK 0) 2) = 0" "get_limit (ldt (INIT_TASK 0) 1) = get_limit (ldt (INIT_TASK 0) 2)"
    by (simp_all add: INIT_TASK_def get_base_def get_limit_def)
  have "phys (upd_task 2 g ?m) a = 0" for g a using g(2) by (simp add: save_math_def upd_task_def)
  then obtain s2 where m: "copy_mem 2 ?m = Ok 0 s2"
    by (simp add: copy_mem_def Let_def l b copy_page_tables_def copy_dir_absent del: One_nat_def)
  have o: "task s2 2 \<noteq> None" "last_pid s2 = 1"
    using copy_mem_fork[OF m, of "(INIT_TASK 0)\<lparr>filp := [0 \<mapsto> 3], uid := 7, gid := 5\<rparr>"] f1 by (auto simp: demo_files_fields)
  then have "last_pid (share_open 2 s2) = 1" using share_open_fields(3)[of s2 2] by auto
  then show ?thesis using f g(1) m by (simp add: sys_fork_def copy_process_def Let_def)
qed

theorem find_empty_process_total_witness:
  "\<exists>r s'. find_empty_process demo_files = Ok r s' \<and> 0 < last_pid s' \<and> (\<forall>i<64. \<forall>t. task demo_files i = Some t \<longrightarrow> pid t \<noteq> last_pid s')"
  using find_empty_process_total[of demo_files] by (auto simp: demo_files_mm)

theorem fork_result_witness:
  "\<exists>s' nr c. sys_fork demo_regs demo_files = Ok 1 s' \<and> task s' = (task demo_files)(nr \<mapsto> c) \<and> pid c = 1 \<and> tss_eax (tss c) = 0 \<and>
     filp c 0 = Some 3 \<and> f_count (file_table s' 3) = 2"
proof -
  obtain s' where s': "sys_fork demo_regs demo_files = Ok 1 s'" using demo_fork by blast
  let ?p = "(INIT_TASK 0)\<lparr>filp := [0 \<mapsto> 3], uid := 7, gid := 5\<rparr>"
  obtain nr c where n: "nr < 64" "task demo_files nr = None" "task s' = (task demo_files)(nr \<mapsto> c)" "child_of nr 1 demo_regs ?p c"
    and k: "files_counted s'"
    using fork_result[OF s' _ _ _ demo_files_counted, of ?p] by (auto simp: demo_files_mm demo_files_fields)
  have nr: "nr \<noteq> 1" using n(2) by (auto simp: demo_files_fields)
  have "fd_refs s' 3 = {(1, 0), (nr, 0)}" using n by (auto simp: fd_refs_def demo_files_fields child_of_def split: if_splits)
  then have "unat (f_count (file_table s' 3)) = 2" using k nr by (simp add: files_counted_def)
  then have "f_count (file_table s' 3) = of_nat 2" by (metis of_nat_unat ucast_id)
  moreover have "pid c = 1" "tss_eax (tss c) = 0" "filp c 0 = Some 3" using n(4) by (simp_all add: child_of_def)
  ultimately show ?thesis using s' n(3) by auto
qed

subsection \<open>kill\<close>

text \<open>The state in which the tasks that satisfy \<open>Q\<close> have one more pending signal.\<close>

definition signalled :: "int \<Rightarrow> (nat \<Rightarrow> bool) \<Rightarrow> 'z sched_state_scheme \<Rightarrow> 'z sched_state_scheme" where
  "signalled sig Q s = s\<lparr>task := (\<lambda>i. if Q i then map_option (\<lambda>t. t\<lparr>signal := signal t OR S_bit (nat sig)\<rparr>) (task s i) else task s i)\<rparr>"

definition may_signal :: "bool \<Rightarrow> 'z sched_state_scheme \<Rightarrow> task_struct \<Rightarrow> bool" where
  "may_signal priv s t \<longleftrightarrow> priv \<or> euid (cur s) = euid t \<or> suser s"

lemma add_signal_signalled: "add_signal (nat sig) i s = signalled sig (\<lambda>j. j = i) s"
  by (auto simp: add_signal_def signalled_def upd_task_def fun_upd_def intro!: arg_cong[of _ _ "\<lambda>t. s\<lparr>task := t\<rparr>"])

lemma signalled_none: "(\<And>i. \<not> Q i) \<Longrightarrow> signalled sig Q s = s"
  by (simp add: signalled_def)

lemma signalled_signalled:
  "(\<And>i. \<not> (Q i \<and> R i)) \<Longrightarrow> signalled sig Q (signalled sig R s) = signalled sig (\<lambda>i. Q i \<or> R i) s"
  by (auto simp: signalled_def fun_eq_iff intro!: arg_cong[of _ _ "\<lambda>t. s\<lparr>task := t\<rparr>"])

lemma signalled_cur [simp]:
  "task s (current s) \<noteq> None \<Longrightarrow> euid (cur (signalled sig Q s)) = euid (cur s)"
  "task s (current s) \<noteq> None \<Longrightarrow> pid (cur (signalled sig Q s)) = pid (cur s)"
  "task (signalled sig Q s) i = None \<longleftrightarrow> task s i = None" "current (signalled sig Q s) = current s"
  by (auto simp: signalled_def cur_def)

lemma signalled_may [simp]: "task s (current s) \<noteq> None \<Longrightarrow> may_signal priv (signalled sig Q s) = may_signal priv s"
  by (simp add: may_signal_def suser_def fun_eq_iff)

lemma send_sig_cases:
  assumes "task s i = Some t" "1 \<le> sig" "sig \<le> 32"
  shows "send_sig sig i priv s = (if may_signal priv s t then (0, signalled sig (\<lambda>j. j = i) s) else (- EPERM, s))"
  using assms by (simp add: send_sig_def may_signal_def add_signal_signalled)

text \<open>The loop: \<open>R\<close> is the condition of the caller, which signals do not affect.\<close>

lemma kill_loop_spec:
  assumes "1 \<le> sig" "sig \<le> 32" "task s (current s) \<noteq> None"
    and "\<And>t s'. current s' = current s \<Longrightarrow> pid (cur s') = pid (cur s) \<Longrightarrow> P t s' = R t"
  shows "kill_loop k P sig priv rv s =
    (if \<exists>i t. 0 < i \<and> i < k \<and> task s i = Some t \<and> R t \<and> \<not> may_signal priv s t then - EPERM else rv,
     signalled sig (\<lambda>i. 0 < i \<and> i < k \<and> (\<exists>t. task s i = Some t \<and> R t \<and> may_signal priv s t)) s)"
  using assms(3,4)
proof (induction k arbitrary: rv s)
  case 0
  then show ?case by (simp add: signalled_none)
next
  case (Suc k)
  let ?hit = "\<lambda>k s i. 0 < i \<and> i < k \<and> (\<exists>t. task s i = Some t \<and> R t \<and> may_signal priv s t)"
  let ?err = "\<lambda>k s. \<exists>i t. 0 < i \<and> i < k \<and> task s i = Some t \<and> R t \<and> \<not> may_signal priv s t"
  show ?case
  proof (cases "k = 0 \<or> task s k = None \<or> \<not> R (the (task s k))")
    case True
    have s: "?err (Suc k) s \<longleftrightarrow> ?err k s" "?hit (Suc k) s = ?hit k s" using True by (auto simp: less_Suc_eq fun_eq_iff)
    have "kill_loop (Suc k) P sig priv rv s = kill_loop k P sig priv rv s"
      using True Suc.prems(2) by (cases k) (auto split: option.splits)
    then show ?thesis unfolding s using Suc.IH[OF Suc.prems] by simp
  next
    case False
    then obtain t where t: "task s k = Some t" "R t" "0 < k" by auto
    show ?thesis
    proof (cases "may_signal priv s t")
      case True
      let ?s = "signalled sig (\<lambda>j. j = k) s"
      have ts: "task ?s i = task s i" if "i < k" for i using that by (simp add: signalled_def)
      have ms: "may_signal priv ?s = may_signal priv s" using Suc.prems(1) by simp
      have e: "?err k ?s \<longleftrightarrow> ?err (Suc k) s" unfolding ms using t True ts by (auto simp: less_Suc_eq; blast)
      have h: "?hit k ?s = ?hit k s" "(\<lambda>i. ?hit k s i \<or> i = k) = ?hit (Suc k) s"
        unfolding ms using t True ts by (auto simp: less_Suc_eq fun_eq_iff)
      have "kill_loop (Suc k) P sig priv rv s = kill_loop k P sig priv rv ?s"
        using t True Suc.prems(2) send_sig_cases[OF t(1) assms(1,2), of priv] by simp
      also have "\<dots> = (if ?err k ?s then - EPERM else rv, signalled sig (?hit k ?s) ?s)"
        by (rule Suc.IH) (use Suc.prems in auto)
      finally show ?thesis unfolding e h(1) by (simp add: signalled_signalled flip: h(2))
    next
      case False
      have h: "?hit (Suc k) s = ?hit k s" "?err (Suc k) s" using t False by (auto simp: less_Suc_eq fun_eq_iff)
      have "kill_loop (Suc k) P sig priv rv s = kill_loop k P sig priv (- EPERM) s"
        using t False Suc.prems(2) send_sig_cases[OF t(1) assms(1,2), of priv] by simp
      then show ?thesis unfolding h(1) using h(2) Suc.IH[OF Suc.prems, of "- EPERM"] by simp
    qed
  qed
qed

text \<open>C33. \<open>kill\<close> with a pid that is positive signals exactly the tasks with this pid the caller may signal, and reports \<open>-EPERM\<close> when there is
  one it may not; with pid 0 it signals, whatever the permissions, the tasks whose process group is the caller's pid (not the caller's group).
  Task 0 is never signalled, and no other part of the state changes.\<close>

theorem kill_delivers:
  fixes s :: "'z sched_state_scheme"
  assumes "1 \<le> sig" "sig \<le> 32" "task s (current s) \<noteq> None" "0 \<le> pd"
  shows "sys_kill pd sig s =
    (if 0 < pd \<and> (\<exists>i t. 0 < i \<and> i < 64 \<and> task s i = Some t \<and> pid t = pd \<and> \<not> may_signal False s t) then - EPERM else 0,
     signalled sig (\<lambda>i. 0 < i \<and> i < 64 \<and> (\<exists>t. task s i = Some t \<and>
       (if pd = 0 then pgrp t = pid (cur s) else pid t = pd \<and> may_signal False s t))) s)"
proof (cases "pd = 0")
  case True
  have m: "may_signal True s t" for t by (simp add: may_signal_def)
  show ?thesis using True kill_loop_spec[OF assms(1-3), of "\<lambda>t s. pgrp t = pid (cur s)" "\<lambda>t. pgrp t = pid (cur s)" 64 True 0]
    by (simp add: sys_kill_def m)
next
  case False
  show ?thesis using False assms(4) kill_loop_spec[OF assms(1-3), of "\<lambda>t _. pid t = pd" "\<lambda>t. pid t = pd" 64 False 0]
    by (simp add: sys_kill_def)
qed

lemma kill_all_skips:
  assumes "\<forall>i. k \<le> i \<and> i < m \<longrightarrow> (\<forall>t. task s i = Some t \<longrightarrow> \<not> may_signal False s t)" "k \<le> m" "0 < k"
  shows "\<exists>rv'. kill_all_loop m pd sig rv s = kill_all_loop k pd sig rv' s"
  using assms
proof (induction m arbitrary: rv)
  case (Suc m)
  show ?case
  proof (cases "k = Suc m")
    case False
    then have m: "k \<le> m" using Suc.prems(2) by simp
    then have "\<exists>e. e \<noteq> 0 \<and> send_sig sig m False s = (e, s)"
      using Suc.prems(1) by (auto simp: send_sig_def may_signal_def split: option.splits)
    then obtain e where "kill_all_loop (Suc m) pd sig rv s = kill_all_loop m pd sig e s" using m Suc.prems(3) by auto
    moreover obtain rv' where "kill_all_loop m pd sig e s = kill_all_loop k pd sig rv' s"
      using Suc.IH[of e] Suc.prems(1,3) m by (meson less_SucI)
    ultimately show ?thesis by metis
  qed auto
qed auto

text \<open>\<open>kill\<close> of everything and of a group. With pid -1 only the highest task the caller may signal gets the signal, and below it the tasks of
  process group 1 (the \<open>else\<close> that was meant for the group belongs to the innermost \<open>if\<close>); a pid below -1, which names a
  process group, does nothing and reports success.\<close>

theorem kill_broadcast:
  fixes s :: "'z sched_state_scheme"
  assumes "1 \<le> sig" "sig \<le> 32" "task s (current s) \<noteq> None"
    and k: "0 < k" "k < 64" "task s k = Some t" "may_signal False s t"
    and "\<forall>i. k < i \<and> i < 64 \<longrightarrow> (\<forall>u. task s i = Some u \<longrightarrow> \<not> may_signal False s u)"
  shows "snd (sys_kill (- 1) sig s) = signalled sig (\<lambda>i. i = k \<or> 0 < i \<and> i < k \<and>
      (\<exists>u. task s i = Some u \<and> pgrp u = 1 \<and> may_signal False s u)) s \<and>
    (\<forall>pd. pd < - 1 \<longrightarrow> sys_kill pd sig s = (0, s))"
proof (intro conjI allI impI)
  obtain rv where r: "kill_all_loop 64 (- 1) sig 0 s = kill_all_loop (Suc k) (- 1) sig rv s"
    using kill_all_skips[of "Suc k" 64 s "- 1" sig 0] assms(5,8) by (metis Suc_le_eq zero_less_Suc)
  let ?s = "signalled sig (\<lambda>i. i = k) s"
  have ts: "task ?s i = task s i" if "i < k" for i using that by (simp add: signalled_def)
  have ms: "may_signal False ?s = may_signal False s" using assms(3) by simp
  let ?Q = "\<lambda>s i. 0 < i \<and> i < k \<and> (\<exists>u. task s i = Some u \<and> pgrp u = 1 \<and> may_signal False s u)"
  have "sys_kill (- 1) sig s = kill_loop k (\<lambda>t _. pgrp t = 1) sig False rv ?s"
    using r k send_sig_cases[OF k(3) assms(1,2), of False] by (simp add: sys_kill_def)
  then have "snd (sys_kill (- 1) sig s) = signalled sig (?Q ?s) ?s"
    using kill_loop_spec[OF assms(1,2), of ?s "\<lambda>t _. pgrp t = 1" "\<lambda>t. pgrp t = 1" k False rv] assms(3) by simp
  also have "?Q ?s = ?Q s" unfolding ms using ts by (auto simp: fun_eq_iff)
  also have "signalled sig (?Q s) ?s = signalled sig (\<lambda>i. i = k \<or> ?Q s i) s"
    by (subst signalled_signalled) (auto simp: disj_commute)
  finally show "snd (sys_kill (- 1) sig s) = signalled sig (\<lambda>i. i = k \<or> ?Q s i) s" .
next
  fix pd :: int assume "pd < - 1"
  then show "sys_kill pd sig s = (0, s)" by (simp add: sys_kill_def)
qed

theorem kill_delivers_witness:
  "fst (sys_kill 2 9 demo_sched) = 0 \<and> signal (the (task (snd (sys_kill 2 9 demo_sched)) 2)) = 0x100 \<and>
   signal (the (task (snd (sys_kill 2 9 demo_sched)) 1)) = 0"
proof -
  have c: "task demo_sched (current demo_sched) \<noteq> None" "may_signal False demo_sched t" for t
    by (simp_all add: demo_task demo_sched_def may_signal_def suser_def cur_def INIT_TASK_def)
  show ?thesis using kill_delivers[of 9 demo_sched 2] c by (auto simp: signalled_def demo_task INIT_TASK_def S_bit_def)
qed

theorem kill_broadcast_witness:
  "signal (the (task (snd (sys_kill (- 1) 9 demo_sched)) 2)) = 0x100 \<and> signal (the (task (snd (sys_kill (- 1) 9 demo_sched)) 1)) = 0 \<and>
   sys_kill (- 7) 9 demo_sched = (0, demo_sched)"
proof -
  have c: "task demo_sched (current demo_sched) \<noteq> None" "may_signal False demo_sched t" for t
    by (simp_all add: demo_task demo_sched_def may_signal_def suser_def cur_def INIT_TASK_def)
  show ?thesis using kill_broadcast[of 9 demo_sched 2] c
    by (auto simp: signalled_def demo_task INIT_TASK_def S_bit_def)
qed

subsection \<open>Orphans\<close>

definition zombie_child :: "nat \<Rightarrow> 'z sched_state_scheme \<Rightarrow> bool" where
  "zombie_child n s \<longleftrightarrow> (\<exists>j<n. \<exists>t. task s j = Some t \<and> father t = pid (cur s) \<and> state t = TASK_ZOMBIE)"

text \<open>The tasks after the first \<open>n\<close> rounds of the loop in \<open>do_exit\<close>.\<close>

definition adopted :: "nat \<Rightarrow> 'z sched_state_scheme \<Rightarrow> nat \<Rightarrow> task_struct \<Rightarrow> task_struct" where
  "adopted n s i t = t\<lparr>father := (if i < n \<and> father t = pid (cur s) then 1 else father t),
     signal := (if i = 1 \<and> zombie_child n s then signal t OR S_bit SIGCHLD else signal t)\<rparr>"

lemma adopted_fields [simp]:
  "father (adopted n s i t) = (if i < n \<and> father t = pid (cur s) then 1 else father t)" "state (adopted n s i t) = state t"
  "pid (adopted n s i t) = pid t"
  by (simp_all add: adopted_def)

lemma adopt_one_task:
  "task (adopt_one i s) j = (case task s i of
     None \<Rightarrow> task s j
   | Some t \<Rightarrow> if father t = pid (cur s)
       then map_option (\<lambda>u. u\<lparr>father := (if j = i then 1 else father u),
              signal := (if j = 1 \<and> state t = TASK_ZOMBIE then signal u OR S_bit SIGCHLD else signal u)\<rparr>) (task s j)
       else task s j)"
  by (cases "task s j") (auto simp: adopt_one_def send_sig_def add_signal_def upd_task_def Let_def split: option.splits)

lemma adopt_one_current [simp]: "current (adopt_one i s) = current s"
  by (auto simp: adopt_one_def send_sig_def add_signal_def upd_task_def Let_def split: option.splits)

lemma adopted_Suc:
  assumes "zombie_child (Suc n) s \<longleftrightarrow> zombie_child n s \<or> z"
  shows "adopted (Suc n) s i t = (adopted n s i t)\<lparr>father := (if i = n \<and> father t = pid (cur s) then 1 else father (adopted n s i t)),
    signal := (if i = 1 \<and> z then signal (adopted n s i t) OR S_bit SIGCHLD else signal (adopted n s i t))\<rparr>"
  unfolding adopted_def assms by (auto simp: less_Suc_eq or.assoc)

lemma adopt_loop:
  assumes "task s (current s) \<noteq> None"
  shows "task (fold adopt_one [0..<n] s) = (\<lambda>i. map_option (adopted n s i) (task s i)) \<and> current (fold adopt_one [0..<n] s) = current s"
proof (induction n)
  case 0
  have "adopted 0 s i = id" for i by (simp add: adopted_def zombie_child_def fun_eq_iff)
  then show ?case by (simp add: option.map_ident)
next
  case (Suc n)
  let ?s = "fold adopt_one [0..<n] s"
  have ts: "task ?s i = map_option (adopted n s i) (task s i)" for i using Suc by (simp add: fun_eq_iff)
  have c: "pid (cur ?s) = pid (cur s)" using Suc assms by (auto simp: cur_def)
  define z where "z \<longleftrightarrow> (\<exists>t. task s n = Some t \<and> father t = pid (cur s) \<and> state t = TASK_ZOMBIE)"
  have z: "zombie_child (Suc n) s \<longleftrightarrow> zombie_child n s \<or> z" by (auto simp: zombie_child_def z_def less_Suc_eq)
  have "task (adopt_one n ?s) i = map_option (adopted (Suc n) s i) (task s i)" for i
  proof (cases "task s i")
    case None
    then have "task ?s i = None" by (simp only: ts) simp
    then show ?thesis using None by (simp only: adopt_one_task) (simp split: option.splits)
  next
    case (Some t)
    let ?a = "adopted n s i t"
    show ?thesis
    proof (cases "\<exists>u. task s n = Some u \<and> father u = pid (cur s)")
      case True
      then obtain u where u: "task s n = Some u" "father u = pid (cur s)" by blast
      have "z \<longleftrightarrow> state u = TASK_ZOMBIE" "i = n \<Longrightarrow> father t = pid (cur s)" using u Some by (auto simp: z_def)
      then show ?thesis unfolding adopt_one_task c adopted_Suc[OF z] ts Some u(1) using u(2) by (simp del: adopted_fields add: adopted_fields(2)) auto
    next
      case False
      then have "\<not> z" "\<not> (i = n \<and> father t = pid (cur s))" using Some by (auto simp: z_def)
      then have "adopted (Suc n) s i t = ?a" unfolding adopted_Suc[OF z] by auto
      moreover have "task (adopt_one n ?s) i = task ?s i"
        unfolding adopt_one_task c ts[of n] using False by (cases "task s n") auto
      ultimately show ?thesis unfolding ts Some by simp
    qed
  qed
  then show ?case using Suc by (simp add: fun_eq_iff)
qed

text \<open>The children of an exiting task are handed to task 1: afterwards every task that was a child has father 1, so that no task is left with
  the dying task as father (unless that is task 1 itself), task 1 has a pending \<open>SIGCHLD\<close> if one of them was a zombie, and nothing else in the table changes.\<close>

theorem adopt_children_effect:
  fixes s :: "'z sched_state_scheme"
  assumes "task s (current s) \<noteq> None" "i < 64"
  shows "task (adopt_children s) i = map_option (\<lambda>t. t\<lparr>father := (if father t = pid (cur s) then 1 else father t),
     signal := (if i = 1 \<and> zombie_child 64 s then signal t OR S_bit SIGCHLD else signal t)\<rparr>) (task s i) \<and>
    (pid (cur s) \<noteq> 1 \<longrightarrow> (\<forall>t. task (adopt_children s) i = Some t \<longrightarrow> father t \<noteq> pid (cur s)))"
proof -
  have "task (adopt_children s) i = map_option (adopted 64 s i) (task s i)"
    using adopt_loop[OF assms(1), of 64] by (simp add: adopt_children_def)
  moreover have "adopted 64 s i t = t\<lparr>father := (if father t = pid (cur s) then 1 else father t),
     signal := (if i = 1 \<and> zombie_child 64 s then signal t OR S_bit SIGCHLD else signal t)\<rparr>" for t
    using assms(2) by (simp add: adopted_def)
  ultimately show ?thesis by (cases "task s i") simp_all
qed

theorem adopt_children_effect_witness:
  "father (the (task (adopt_children (demo_sched\<lparr>task := (task demo_sched)(3 \<mapsto> (INIT_TASK 0)\<lparr>pid := 3, father := 2\<rparr>), current := 2\<rparr>)) 3)) = 1"
proof -
  let ?s = "demo_sched\<lparr>task := (task demo_sched)(3 \<mapsto> (INIT_TASK 0)\<lparr>pid := 3, father := 2\<rparr>), current := 2\<rparr>"
  have "task ?s (current ?s) \<noteq> None" "pid (cur ?s) = 2" by (simp_all add: demo_task cur_def)
  then show ?thesis using adopt_children_effect[of ?s 3] by simp
qed

subsection \<open>Waiting\<close>

lemma wait_scan_none:
  "wait_scan n pd options flag s = WaitNone False \<longleftrightarrow> \<not> flag \<and>
    (\<forall>i t. 0 < i \<and> i \<le> n \<and> task s i = Some t \<and> i \<noteq> current s \<and> wanted pd t s \<longrightarrow> state t = TASK_STOPPED \<and> options AND WUNTRACED = 0)"
proof (induction n arbitrary: flag)
  case (Suc n)
  have "(\<forall>i t. 0 < i \<and> i \<le> Suc n \<and> task s i = Some t \<and> i \<noteq> current s \<and> wanted pd t s \<longrightarrow> state t = TASK_STOPPED \<and> options AND WUNTRACED = 0) \<longleftrightarrow>
    (\<forall>i t. 0 < i \<and> i \<le> n \<and> task s i = Some t \<and> i \<noteq> current s \<and> wanted pd t s \<longrightarrow> state t = TASK_STOPPED \<and> options AND WUNTRACED = 0) \<and>
    (\<forall>t. task s (Suc n) = Some t \<and> Suc n \<noteq> current s \<and> wanted pd t s \<longrightarrow> state t = TASK_STOPPED \<and> options AND WUNTRACED = 0)"
    by (auto simp: le_Suc_eq)
  then show ?case using Suc by (auto split: option.splits)
qed auto

text \<open>\<open>waitpid\<close> reports \<open>-ECHILD\<close>, at once and without an effect beyond the check of the address, exactly when the scan of the table finds no
  child that matches the request, not counting stopped children where \<open>WUNTRACED\<close> is not given: a parent whose only child is stopped is told that it has
  none.\<close>

theorem waitpid_echild:
  fixes s :: "'z sched_state_scheme"
  assumes "verify_area stat_addr 4 s = Ok () s1" "0 < fuel w"
    and "\<forall>i t. 0 < i \<and> i < 64 \<and> task s1 i = Some t \<and> i \<noteq> current s1 \<and> wanted pd t s1 \<longrightarrow> state t = TASK_STOPPED \<and> options AND WUNTRACED = 0"
  shows "sys_waitpid pd stat_addr options w s = Ok (- ECHILD, w) s1"
proof -
  have "i \<le> 63 \<longleftrightarrow> i < 64" for i :: nat by linarith
  then have "wait_scan 63 pd options False s1 = WaitNone False" using assms(3) by (subst wait_scan_none) (simp, blast)
  moreover obtain n where "fuel w = Suc n" using assms(2) by (cases "fuel w") auto
  ultimately show ?thesis using assms(1)
    by (simp add: sys_waitpid_def seqp_def bindp_def liftp_def fuelp_def getp_def retp_def)
qed

theorem waitpid_echild_witness:
  "sys_waitpid (- 1) 0 0 \<lparr>request_fn = (\<lambda>_. None), events = [], fuel = 1\<rparr>
     (demo_sched\<lparr>task := (task demo_sched)(1 \<mapsto> (INIT_TASK 0)\<lparr>pid := 1\<rparr>, 3 \<mapsto> (INIT_TASK 0)\<lparr>pid := 3, father := 1, state := 4\<rparr>)\<rparr>) =
   Ok (- 10, \<lparr>request_fn = (\<lambda>_. None), events = [], fuel = 1\<rparr>)
     (demo_sched\<lparr>task := (task demo_sched)(1 \<mapsto> (INIT_TASK 0)\<lparr>pid := 1\<rparr>, 3 \<mapsto> (INIT_TASK 0)\<lparr>pid := 3, father := 1, state := 4\<rparr>)\<rparr>)"
proof -
  let ?s = "demo_sched\<lparr>task := (task demo_sched)(1 \<mapsto> (INIT_TASK 0)\<lparr>pid := 1\<rparr>, 3 \<mapsto> (INIT_TASK 0)\<lparr>pid := 3, father := 1, state := 4\<rparr>)\<rparr>"
  have "phys ?s a = 0" for a by (simp add: demo_sched_def sched_data_def)
  then have "write_verify a ?s = Ok () ?s" for a by (simp add: write_verify_def load_def present_def)
  then have v: "verify_area 0 4 ?s = Ok () ?s" by (simp add: verify_area_def)
  show ?thesis
    by (rule waitpid_echild[OF v]) (auto simp: wanted_def cur_def demo_task demo_sched_def INIT_TASK_def split: if_splits)
qed

end
