(* ===== verification/Lib_Malloc.thy ===== *)
theory Lib_Malloc
  imports Mm_Paging
begin

text \<open>
  The kernel's memory allocator: src/lib/malloc.c. A page from \<open>get_free_page\<close> holds objects of one size, linked through their
  first word (in \<open>phys\<close>); a bucket descriptor counts the objects in use and heads that list. The descriptors, which also live
  in pages of their own that are never given back, are the typed part of memory \<open>bdescs\<close>, indexed by address; a null pointer is the
  address 0. The loops over linked descriptors are bounded by \<open>chain_fuel\<close>, one more than the number of pages; a longer chain is a
  loop that does not end (\<open>Blocked\<close>). The \<open>cli\<close>/\<open>sti\<close> pairs do not show in the sequential model.
\<close>

record bucket_desc =
  bd_page :: u32
  bd_next :: u32
  bd_freeptr :: u32
  bd_refcnt :: u16
  bd_bucket_size :: u16

record malloc_state = mm_state +
  bdescs :: "u32 \<Rightarrow> bucket_desc"
  bdir_chain :: "nat \<Rightarrow> u32"
  free_bucket_desc :: u32

abbreviation (input) NR_BUCKETS :: nat where "NR_BUCKETS \<equiv> 9"
abbreviation (input) chain_fuel :: nat where "chain_fuel \<equiv> 3841"

definition bucket_dir :: "nat list" where
  "bucket_dir = [16, 32, 64, 128, 256, 512, 1024, 2048, 4096]"

definition no_bucket :: bucket_desc where
  "no_bucket = \<lparr>bd_page = 0, bd_next = 0, bd_freeptr = 0, bd_refcnt = 0, bd_bucket_size = 0\<rparr>"

definition upd_bdesc ::
    "u32 \<Rightarrow> (bucket_desc \<Rightarrow> bucket_desc) \<Rightarrow> 'z malloc_state_scheme \<Rightarrow> 'z malloc_state_scheme" where
  "upd_bdesc b f s = s\<lparr>bdescs := (bdescs s)(b := f (bdescs s b))\<rparr>"

text \<open>The loop over the descriptors of a new page; \<open>n\<close> is the counter \<open>i\<close>, the result the last descriptor.\<close>

fun link_bdescs :: "nat \<Rightarrow> u32 \<Rightarrow> 'z malloc_state_scheme \<Rightarrow> u32 \<times> 'z malloc_state_scheme" where
  "link_bdescs n bdesc s =
     (if n > 1 then link_bdescs (n - 1) (bdesc + 16) (upd_bdesc bdesc (\<lambda>d. d\<lparr>bd_next := bdesc + 16\<rparr>) s)
      else (bdesc, s))"

definition init_bucket_desc :: "'z malloc_state_scheme \<Rightarrow> (unit, 'z malloc_state_scheme) kres" where
  "init_bucket_desc s =
     (let (first, s) = get_free_page s in
      if first = 0 then Panic ''Out of memory in init_bucket_desc()'' s
      else
        let s = s\<lparr>bdescs := (\<lambda>b. if in_page first b then no_bucket else bdescs s b)\<rparr>;
            (bdesc, s) = link_bdescs 256 first s;
            s = upd_bdesc bdesc (\<lambda>d. d\<lparr>bd_next := free_bucket_desc s\<rparr>) s
        in Ok () (s\<lparr>free_bucket_desc := first\<rparr>))"

text \<open>The free objects of a new page.\<close>

fun link_objects :: "nat \<Rightarrow> u32 \<Rightarrow> u32 \<Rightarrow> 'z malloc_state_scheme \<Rightarrow> 'z malloc_state_scheme" where
  "link_objects n sz cp s =
     (if n > 1 then link_objects (n - 1) sz (cp + sz) (store cp (cp + sz) s) else store cp 0 s)"

definition new_bucket :: "nat \<Rightarrow> 'z malloc_state_scheme \<Rightarrow> (u32, 'z malloc_state_scheme) kres" where
  "new_bucket i s =
     bindk (if free_bucket_desc s = 0 then init_bucket_desc s else Ok () s) (\<lambda>_ s.
       let bdesc = free_bucket_desc s;
           s = s\<lparr>free_bucket_desc := bd_next (bdescs s bdesc)\<rparr>;
           (cp, s) = get_free_page (upd_bdesc bdesc (\<lambda>d. d\<lparr>bd_refcnt := 0, bd_bucket_size := of_nat (bucket_dir ! i)\<rparr>) s);
           s = upd_bdesc bdesc (\<lambda>d. d\<lparr>bd_freeptr := cp, bd_page := cp\<rparr>) s in
       if cp = 0 then Panic ''Out of memory in kernel malloc()'' s
       else
         let s = link_objects (4096 div bucket_dir ! i) (of_nat (bucket_dir ! i)) cp s;
             s = upd_bdesc bdesc (\<lambda>d. d\<lparr>bd_next := bdir_chain s i\<rparr>) s
         in Ok bdesc (s\<lparr>bdir_chain := (bdir_chain s)(i := bdesc)\<rparr>))"

text \<open>The first descriptor of a chain that has a free object, or 0.\<close>

primrec find_free :: "nat \<Rightarrow> u32 \<Rightarrow> 'z malloc_state_scheme \<Rightarrow> (u32, 'z malloc_state_scheme) kres" where
  "find_free 0 bdesc s = Blocked s"
| "find_free (Suc n) bdesc s =
     (if bdesc = 0 \<or> bd_freeptr (bdescs s bdesc) \<noteq> 0 then Ok bdesc s
      else find_free n (bd_next (bdescs s bdesc)) s)"

definition malloc :: "u32 \<Rightarrow> 'z malloc_state_scheme \<Rightarrow> (u32, 'z malloc_state_scheme) kres" where
  "malloc len s =
     (case find (\<lambda>i. of_nat (bucket_dir ! i) \<ge> len) [0..<NR_BUCKETS] of
        None \<Rightarrow> Panic ''malloc: bad arg'' (printk ''malloc called with impossibly large argument (%d)'' s)
      | Some i \<Rightarrow>
          bindk (find_free chain_fuel (bdir_chain s i) s) (\<lambda>bdesc s.
          bindk (if bdesc = 0 then new_bucket i s else Ok bdesc s) (\<lambda>bdesc s.
            let retval = bd_freeptr (bdescs s bdesc)
            in Ok retval (upd_bdesc bdesc (\<lambda>d. d\<lparr>bd_freeptr := load s retval, bd_refcnt := bd_refcnt d + 1\<rparr>) s))))"

text \<open>The search of \<open>free_s\<close> in one chain for the descriptor of \<open>page\<close>; the result has its predecessor first.\<close>

primrec find_page :: "nat \<Rightarrow> u32 \<Rightarrow> u32 \<Rightarrow> u32 \<Rightarrow> 'z malloc_state_scheme \<Rightarrow> ((u32 \<times> u32) option, 'z malloc_state_scheme) kres" where
  "find_page 0 page prev bdesc s = Blocked s"
| "find_page (Suc n) page prev bdesc s =
     (if bdesc = 0 then Ok None s
      else if bd_page (bdescs s bdesc) = page then Ok (Some (prev, bdesc)) s
      else find_page n page bdesc (bd_next (bdescs s bdesc)) s)"

text \<open>The loop over the directory from entry \<open>i\<close>, \<open>n\<close> entries to go.\<close>

primrec find_bucket :: "nat \<Rightarrow> nat \<Rightarrow> int \<Rightarrow> u32 \<Rightarrow> 'z malloc_state_scheme \<Rightarrow> ((nat \<times> u32 \<times> u32) option, 'z malloc_state_scheme) kres" where
  "find_bucket 0 i sz page s = Ok None s"
| "find_bucket (Suc n) i sz page s =
     (if int (bucket_dir ! i) < sz then find_bucket n (Suc i) sz page s
      else
        bindk (find_page chain_fuel page 0 (bdir_chain s i) s) (\<lambda>r s.
          case r of
            Some (prev, bdesc) \<Rightarrow> Ok (Some (i, prev, bdesc)) s
          | None \<Rightarrow> find_bucket n (Suc i) sz page s))"

text \<open>\<open>for (prev = bdir->chain; prev; prev = prev->next) if (prev->next == bdesc) break;\<close>\<close>

primrec find_prev :: "nat \<Rightarrow> u32 \<Rightarrow> u32 \<Rightarrow> 'z malloc_state_scheme \<Rightarrow> (u32, 'z malloc_state_scheme) kres" where
  "find_prev 0 bdesc prev s = Blocked s"
| "find_prev (Suc n) bdesc prev s =
     (if prev = 0 \<or> bd_next (bdescs s prev) = bdesc then Ok prev s
      else find_prev n bdesc (bd_next (bdescs s prev)) s)"

definition unlink_bucket :: "nat \<Rightarrow> u32 \<Rightarrow> u32 \<Rightarrow> 'z malloc_state_scheme \<Rightarrow> (unit, 'z malloc_state_scheme) kres" where
  "unlink_bucket i prev bdesc s =
     bindk (if prev \<noteq> 0 \<and> bd_next (bdescs s prev) \<noteq> bdesc \<or> prev = 0 \<and> bdir_chain s i \<noteq> bdesc
            then find_prev chain_fuel bdesc (bdir_chain s i) s else Ok prev s) (\<lambda>prev s.
     bindk (if prev \<noteq> 0 then Ok () (upd_bdesc prev (\<lambda>d. d\<lparr>bd_next := bd_next (bdescs s bdesc)\<rparr>) s)
            else if bdir_chain s i \<noteq> bdesc then Panic ''malloc bucket chains corrupted'' s
            else Ok () (s\<lparr>bdir_chain := (bdir_chain s)(i := bd_next (bdescs s bdesc))\<rparr>)) (\<lambda>_ s.
     bindk (free_page (bd_page (bdescs s bdesc)) s) (\<lambda>_ s.
       Ok () (upd_bdesc bdesc (\<lambda>d. d\<lparr>bd_next := free_bucket_desc s\<rparr>) s\<lparr>free_bucket_desc := bdesc\<rparr>))))"

definition free_s :: "u32 \<Rightarrow> int \<Rightarrow> 'z malloc_state_scheme \<Rightarrow> (unit, 'z malloc_state_scheme) kres" where
  "free_s obj sz s =
     bindk (find_bucket NR_BUCKETS 0 sz (obj AND 0xfffff000) s) (\<lambda>r s.
       case r of
         None \<Rightarrow> Panic ''Bad address passed to kernel free_s()'' s
       | Some (i, prev, bdesc) \<Rightarrow>
           let s = store obj (bd_freeptr (bdescs s bdesc)) s;
               s = upd_bdesc bdesc (\<lambda>d. d\<lparr>bd_freeptr := obj, bd_refcnt := bd_refcnt d - 1\<rparr>) s in
           if bd_refcnt (bdescs s bdesc) = 0 then unlink_bucket i prev bdesc s else Ok () s)"

end
