(* ===== verification/Malloc_Laws.thy ===== *)
theory Malloc_Laws
  imports Lib_Malloc
begin

text \<open>
  The allocator of src/lib/malloc.c keeps the objects it has handed out apart. The lists of descriptors and of free objects are
  abstracted to Isabelle lists; the invariant \<open>heap_ok\<close> says that they are disjoint, that every bucket owns a page of its own and
  that the free objects and the count of a bucket add up. \<open>malloc_heap\<close> hides the lists: what remains is the set of objects
  in use. The locale \<open>allocator\<close> is the contract the rest of a kernel may rely on; \<open>malloc\<close> and \<open>free_s\<close> provide it.
\<close>

subsection \<open>Linked lists\<close>

primrec linked :: "(u32 \<Rightarrow> u32) \<Rightarrow> u32 \<Rightarrow> u32 list \<Rightarrow> bool" where
  "linked nx a [] \<longleftrightarrow> a = 0"
| "linked nx a (x # xs) \<longleftrightarrow> a = x \<and> x \<noteq> 0 \<and> linked nx (nx x) xs"

lemma linked_cong: "(\<And>x. x \<in> set xs \<Longrightarrow> nx x = nx' x) \<Longrightarrow> linked nx a xs \<longleftrightarrow> linked nx' a xs"
  by (induction xs arbitrary: a) auto

lemma linked_upd: "b \<notin> set xs \<Longrightarrow> linked (\<lambda>c. g ((f(b := d)) c)) a xs \<longleftrightarrow> linked (\<lambda>c. g (f c)) a xs"
  by (rule linked_cong) auto

lemma linked_head: "linked nx a xs \<Longrightarrow> a \<noteq> 0 \<Longrightarrow> \<exists>ys. xs = a # ys \<and> linked nx (nx a) ys"
  by (cases xs) auto

lemma linked_nonzero: "linked nx a xs \<Longrightarrow> x \<in> set xs \<Longrightarrow> x \<noteq> 0"
  by (induction xs arbitrary: a) auto

lemma linked_middle: "linked nx a (ys @ b # zs) \<Longrightarrow> linked nx (nx b) zs"
  by (induction ys arbitrary: a) auto

lemma linked_pred: "linked nx a (ys @ b # zs) \<Longrightarrow> ys \<noteq> [] \<Longrightarrow> nx (last ys) = b"
proof (induction ys arbitrary: a)
  case (Cons y ys)
  then show ?case by (cases ys) auto
qed simp

text \<open>Taking an element out of a list whose elements are distinct.\<close>

lemma linked_remove:
  "linked nx a (ys @ b # zs) \<Longrightarrow> distinct (ys @ b # zs) \<Longrightarrow> ys \<noteq> [] \<Longrightarrow> linked (nx(last ys := nx b)) a (ys @ zs)"
proof (induction ys arbitrary: a)
  case (Cons y ys)
  show ?case
  proof (cases "ys = []")
    case True
    have "linked (nx(y := nx b)) (nx b) zs"
      using Cons.prems True by (subst linked_cong[of _ _ nx]) auto
    then show ?thesis using Cons.prems(1) True by (simp add: fun_upd_def)
  next
    case False
    have "linked (nx(last ys := nx b)) (nx y) (ys @ zs)" using Cons False by (simp add: fun_upd_def)
    moreover have "last ys \<noteq> y" using Cons.prems(2) False by auto
    ultimately show ?thesis using Cons.prems(1) False by (simp add: fun_upd_def)
  qed
qed simp

subsection \<open>Pages and their objects\<close>

lemma bucket_sizes:
  assumes "i < 9"
  shows "(4096 div bucket_dir ! i) * bucket_dir ! i = 4096" "16 \<le> bucket_dir ! i" "bucket_dir ! i \<le> 4096"
    "0 < 4096 div bucket_dir ! i" "4096 div bucket_dir ! i \<le> 256"
proof -
  have "i \<in> set [0..<9]" using assms by simp
  then have "(4096 div bucket_dir ! i) * bucket_dir ! i = 4096 \<and> 16 \<le> bucket_dir ! i \<and> bucket_dir ! i \<le> 4096 \<and>
      0 < 4096 div bucket_dir ! i \<and> 4096 div bucket_dir ! i \<le> 256"
    unfolding bucket_dir_def by (simp add: upt_rec del: set_upt) (elim disjE, simp_all)
  then show "(4096 div bucket_dir ! i) * bucket_dir ! i = 4096" "16 \<le> bucket_dir ! i" "bucket_dir ! i \<le> 4096"
    "0 < 4096 div bucket_dir ! i" "4096 div bucket_dir ! i \<le> 256" by auto
qed

definition obj :: "nat \<Rightarrow> u32 \<Rightarrow> nat \<Rightarrow> u32" where
  "obj i p k = p + of_nat (k * bucket_dir ! i)"

definition objs :: "nat \<Rightarrow> u32 \<Rightarrow> u32 set" where
  "objs i p = obj i p ` {..<4096 div bucket_dir ! i}"

lemma obj_offset:
  assumes "i < 9" "k < 4096 div bucket_dir ! i"
  shows "k * bucket_dir ! i + bucket_dir ! i \<le> 4096"
proof -
  have "(k + 1) * bucket_dir ! i \<le> (4096 div bucket_dir ! i) * bucket_dir ! i" using assms(2) by (intro mult_right_mono) auto
  then show ?thesis using bucket_sizes[OF assms(1)] by simp
qed

lemma unat_obj:
  assumes "i < 9" "k < 4096 div bucket_dir ! i" "j < 3840"
  shows "unat (obj i (page_addr j) k) = j * 4096 + 0x100000 + k * bucket_dir ! i"
proof -
  define n where "n = k * bucket_dir ! i"
  have n: "n < 4096" using obj_offset[OF assms(1,2)] bucket_sizes(2)[OF assms(1)] unfolding n_def by linarith
  have "unat (of_nat n :: u32) = n" using n by (simp add: unat_of_nat take_bit_nat_eq_self)
  then show ?thesis using n assms(3) unfolding obj_def n_def[symmetric]
    by (subst unat_plus_if') (simp add: unat_page_addr)
qed

lemma frame_div: "n < 4096 \<Longrightarrow> (j * 4096 + 0x100000 + n) div 4096 = j + 256" for n :: nat
  using div_mult_self2[of 4096 n "j + 256"] by (simp add: algebra_simps)

lemma frame_obj:
  assumes "i < 9" "k < 4096 div bucket_dir ! i" "j < 3840"
  shows "obj i (page_addr j) k AND 0xfffff000 = page_addr j"
proof -
  have "k * bucket_dir ! i < 4096" using obj_offset[OF assms(1,2)] bucket_sizes(2)[OF assms(1)] by linarith
  then have "unat (frame (obj i (page_addr j) k)) = unat (page_addr j)"
    using assms(3) frame_div[of "k * bucket_dir ! i" j] by (simp add: frame_unat unat_obj[OF assms] unat_page_addr)
  then have "frame (obj i (page_addr j) k) = page_addr j" by (simp only: word_unat_eq_iff)
  then show ?thesis by (simp add: frame_def and.commute)
qed

lemma obj_inj:
  assumes "i < 9" "j < 3840"
  shows "inj_on (obj i (page_addr j)) {..<4096 div bucket_dir ! i}"
  using unat_obj[OF assms(1) _ assms(2)] bucket_sizes(2)[OF assms(1)] by (intro inj_onI) (metis add_left_imp_eq lessThan_iff mult_cancel2 not_numeral_le_zero)

lemma obj_nonzero: "i < 9 \<Longrightarrow> k < 4096 div bucket_dir ! i \<Longrightarrow> j < 3840 \<Longrightarrow> obj i (page_addr j) k \<noteq> 0"
  using unat_obj[of i k j] by auto

lemma card_objs: "i < 9 \<Longrightarrow> j < 3840 \<Longrightarrow> card (objs i (page_addr j)) = 4096 div bucket_dir ! i"
  by (simp add: objs_def card_image obj_inj)

lemma frame_objs: "i < 9 \<Longrightarrow> j < 3840 \<Longrightarrow> x \<in> objs i (page_addr j) \<Longrightarrow> x AND 0xfffff000 = page_addr j"
  by (auto simp: objs_def frame_obj)

lemma page_addr_eq: "j < 3840 \<Longrightarrow> k < 3840 \<Longrightarrow> page_addr j = page_addr k \<longleftrightarrow> j = k"
  by (metis MAP_NR_page_addr)

subsection \<open>Building a bucket\<close>

declare link_objects.simps [simp del] link_bdescs.simps [simp del]

lemma link_objects_links:
  assumes "i < 9" "j < 3840" "k + n = 4096 div bucket_dir ! i" "0 < n"
  shows "\<exists>m. link_objects n (of_nat (bucket_dir ! i)) (obj i (page_addr j) k) s = s\<lparr>phys := m\<rparr> \<and>
    linked m (obj i (page_addr j) k) (map (obj i (page_addr j)) [k..<k + n]) \<and>
    (\<forall>a. a \<notin> obj i (page_addr j) ` {k..<k + n} \<longrightarrow> m a = phys s a)"
  using assms(3,4)
proof (induction n arbitrary: k s)
  case (Suc n)
  let ?o = "obj i (page_addr j)"
  have nxt: "?o k + of_nat (bucket_dir ! i) = ?o (Suc k)" by (simp add: obj_def algebra_simps)
  have nz: "?o k \<noteq> 0" using obj_nonzero[OF assms(1) _ assms(2), of k] Suc.prems by simp
  show ?case
  proof (cases n)
    case 0
    then show ?thesis using nz
      by (intro exI[of _ "(phys s)(?o k := 0)"]) (auto simp: store_def fun_upd_def link_objects.simps[of "Suc 0"])
  next
    case (Suc n')
    then have n: "0 < n" "n \<noteq> 0" by auto
    let ?s = "store (?o k) (?o (Suc k)) s"
    obtain m where m: "link_objects n (of_nat (bucket_dir ! i)) (?o (Suc k)) ?s = ?s\<lparr>phys := m\<rparr>"
      "linked m (?o (Suc k)) (map ?o [Suc k..<Suc k + n])" "\<forall>a. a \<notin> ?o ` {Suc k..<Suc k + n} \<longrightarrow> m a = phys ?s a"
      using Suc.IH[of "Suc k" ?s] Suc.prems n by auto
    have "?o k \<notin> ?o ` {Suc k..<Suc k + n}"
    proof
      assume "?o k \<in> ?o ` {Suc k..<Suc k + n}"
      then obtain l where l: "l \<in> {Suc k..<Suc k + n}" "?o k = ?o l" by blast
      then have "k = l" using inj_onD[OF obj_inj[OF assms(1,2)] l(2)] Suc.prems(1) by auto
      then show False using l(1) by simp
    qed
    then have k: "m (?o k) = ?o (Suc k)" using m(3) by (simp add: store_def)
    have "link_objects (Suc n) (of_nat (bucket_dir ! i)) (?o k) s = link_objects n (of_nat (bucket_dir ! i)) (?o (Suc k)) ?s"
      using n by (simp add: nxt link_objects.simps[of "Suc n"])
    also have "\<dots> = s\<lparr>phys := m\<rparr>" using m(1) by (simp add: store_def)
    finally have "link_objects (Suc n) (of_nat (bucket_dir ! i)) (?o k) s = s\<lparr>phys := m\<rparr>" .
    moreover have "linked m (?o k) (map ?o [k..<k + Suc n])"
      using m(2) k nz by (subst upt_conv_Cons) (simp_all del: upt_Suc)
    moreover have "m a = phys s a" if "a \<notin> ?o ` {k..<k + Suc n}" for a
      using that m(3) by (auto simp: store_def image_iff)
    ultimately show ?thesis by blast
  qed
qed simp

text \<open>A new page of descriptors: \<open>n\<close> of them from \<open>b\<close> on, 16 bytes apart.\<close>

definition desc :: "u32 \<Rightarrow> nat \<Rightarrow> u32" where
  "desc p k = p + of_nat (16 * k)"

lemma desc_obj: "desc p k = obj 0 p k"
  by (simp add: desc_def obj_def bucket_dir_def mult.commute)

lemma link_bdescs_links:
  assumes "j < 3840" "k + n = 256" "0 < n"
  shows "\<exists>m. link_bdescs n (desc (page_addr j) k) s = (desc (page_addr j) 255, s\<lparr>bdescs := m\<rparr>) \<and>
    (\<forall>l. k \<le> l \<and> l < 255 \<longrightarrow> bd_next (m (desc (page_addr j) l)) = desc (page_addr j) (Suc l)) \<and>
    (\<forall>b. b \<notin> desc (page_addr j) ` {k..<255} \<longrightarrow> m b = bdescs s b)"
  using assms(2,3)
proof (induction n arbitrary: k s)
  case (Suc n)
  let ?d = "desc (page_addr j)"
  have nxt: "?d k + 16 = ?d (Suc k)" by (simp add: desc_def algebra_simps)
  show ?case
  proof (cases "n = 0")
    case True
    then have "k = 255" using Suc.prems by simp
    then show ?thesis using True by (intro exI[of _ "bdescs s"]) (auto simp: link_bdescs.simps[of "Suc 0"])
  next
    case False
    let ?s = "upd_bdesc (?d k) (\<lambda>d. d\<lparr>bd_next := ?d (Suc k)\<rparr>) s"
    obtain m where m: "link_bdescs n (?d (Suc k)) ?s = (?d 255, ?s\<lparr>bdescs := m\<rparr>)"
      "\<forall>l. Suc k \<le> l \<and> l < 255 \<longrightarrow> bd_next (m (?d l)) = ?d (Suc l)" "\<forall>b. b \<notin> ?d ` {Suc k..<255} \<longrightarrow> m b = bdescs ?s b"
      using Suc.IH[of "Suc k" ?s] Suc.prems False by auto
    have "?d k \<notin> ?d ` {Suc k..<255}"
    proof
      assume "?d k \<in> ?d ` {Suc k..<255}"
      then obtain l where l: "l \<in> {Suc k..<255}" "obj 0 (page_addr j) k = obj 0 (page_addr j) l" by (auto simp: desc_obj)
      then have "k = l" using inj_onD[OF obj_inj[of 0 j] l(2)] Suc.prems(1) assms(1) by (auto simp: bucket_dir_def)
      then show False using l(1) by simp
    qed
    then have k: "bd_next (m (?d k)) = ?d (Suc k)" using m(3) by (simp add: upd_bdesc_def)
    have "link_bdescs (Suc n) (?d k) s = (?d 255, s\<lparr>bdescs := m\<rparr>)"
      using m(1) False by (simp add: nxt link_bdescs.simps[of "Suc n"]) (simp add: upd_bdesc_def)
    moreover have "\<forall>l. k \<le> l \<and> l < 255 \<longrightarrow> bd_next (m (?d l)) = ?d (Suc l)" using m(2) k by (metis Suc_leI le_neq_implies_less)
    moreover have "\<forall>b. b \<notin> ?d ` {k..<255} \<longrightarrow> m b = bdescs s b"
      using m(3) Suc.prems False by (auto simp: upd_bdesc_def image_iff)
    ultimately show ?thesis by blast
  qed
qed simp

text \<open>A list through the descriptors from \<open>k\<close> on, followed by the old one.\<close>

lemma linked_descs:
  assumes "j < 3840" "k \<le> 255" "\<forall>l. k \<le> l \<and> l < 255 \<longrightarrow> nx (desc (page_addr j) l) = desc (page_addr j) (Suc l)"
    "linked nx (nx (desc (page_addr j) 255)) xs"
  shows "linked nx (desc (page_addr j) k) (map (desc (page_addr j)) [k..<256] @ xs)"
  using assms(2,3)
proof (induction "255 - k" arbitrary: k)
  case 0
  have "desc (page_addr j) 255 \<noteq> 0" using obj_nonzero[of 0 255 j] assms(1) by (simp add: desc_obj bucket_dir_def)
  then show ?case using 0 assms(4) by (simp add: upt_rec)
next
  case (Suc d)
  then have "linked nx (desc (page_addr j) (Suc k)) (map (desc (page_addr j)) [Suc k..<256] @ xs)" by simp
  moreover have "desc (page_addr j) k \<noteq> 0" using obj_nonzero[of 0 k j] assms(1) Suc.prems(1) by (simp add: desc_obj bucket_dir_def)
  ultimately show ?case using Suc.hyps(2) Suc.prems by (simp add: upt_rec[of k])
qed

subsection \<open>The heap\<close>

text \<open>The ghost state: the descriptors on each chain (\<open>C\<close>), the unused descriptors (\<open>F\<close>) and the free objects of each bucket
  (\<open>U\<close>).\<close>

definition bucket_ok :: "nat \<Rightarrow> u32 \<Rightarrow> u32 list \<Rightarrow> 'z malloc_state_scheme \<Rightarrow> bool" where
  "bucket_ok i b os s \<longleftrightarrow>
     (\<exists>j<PAGING_PAGES. bd_page (bdescs s b) = page_addr j \<and> mem_map s j = 1 \<and> page_addr j < HIGH_MEMORY s) \<and>
     linked (phys s) (bd_freeptr (bdescs s b)) os \<and> distinct os \<and> set os \<subseteq> objs i (bd_page (bdescs s b)) \<and>
     length os + unat (bd_refcnt (bdescs s b)) = 4096 div bucket_dir ! i"

definition desc_home :: "u32 \<Rightarrow> 'z malloc_state_scheme \<Rightarrow> bool" where
  "desc_home b s \<longleftrightarrow> (\<exists>j<PAGING_PAGES. b AND 0xfffff000 = page_addr j \<and> mem_map s j \<noteq> 0)"

definition buckets :: "(nat \<Rightarrow> u32 list) \<Rightarrow> u32 set" where
  "buckets C = (\<Union>i<NR_BUCKETS. set (C i))"

definition lists_ok :: "(nat \<Rightarrow> u32 list) \<Rightarrow> u32 list \<Rightarrow> 'z malloc_state_scheme \<Rightarrow> bool" where
  "lists_ok C F s \<longleftrightarrow>
     (\<forall>i<NR_BUCKETS. linked (\<lambda>b. bd_next (bdescs s b)) (bdir_chain s i) (C i)) \<and>
     linked (\<lambda>b. bd_next (bdescs s b)) (free_bucket_desc s) F \<and>
     (\<forall>i<NR_BUCKETS. distinct (C i)) \<and> (\<forall>i<NR_BUCKETS. \<forall>j<NR_BUCKETS. i \<noteq> j \<longrightarrow> set (C i) \<inter> set (C j) = {}) \<and>
     distinct F \<and> buckets C \<inter> set F = {}"

definition pages_ok :: "(nat \<Rightarrow> u32 list) \<Rightarrow> u32 list \<Rightarrow> 'z malloc_state_scheme \<Rightarrow> bool" where
  "pages_ok C F s \<longleftrightarrow>
     inj_on (\<lambda>b. bd_page (bdescs s b)) (buckets C) \<and>
     (\<forall>b\<in>buckets C \<union> set F. desc_home b s) \<and>
     (\<forall>b\<in>buckets C. \<forall>d\<in>buckets C \<union> set F. d AND 0xfffff000 \<noteq> bd_page (bdescs s b)) \<and>
     (\<forall>j<PAGING_PAGES. mem_map s j = 0 \<longrightarrow> page_addr j < HIGH_MEMORY s)"

definition heap_ok :: "(nat \<Rightarrow> u32 list) \<Rightarrow> u32 list \<Rightarrow> (u32 \<Rightarrow> u32 list) \<Rightarrow> 'z malloc_state_scheme \<Rightarrow> bool" where
  "heap_ok C F U s \<longleftrightarrow> lists_ok C F s \<and> (\<forall>i<NR_BUCKETS. \<forall>b\<in>set (C i). bucket_ok i b (U b) s) \<and> pages_ok C F s"

lemma heap_bucket: "heap_ok C F U s \<Longrightarrow> i < 9 \<Longrightarrow> b \<in> set (C i) \<Longrightarrow> bucket_ok i b (U b) s"
  by (simp add: heap_ok_def)

lemma heap_page_inj: "heap_ok C F U s \<Longrightarrow> inj_on (\<lambda>b. bd_page (bdescs s b)) (buckets C)"
  by (simp add: heap_ok_def pages_ok_def)

definition live_objs :: "(nat \<Rightarrow> u32 list) \<Rightarrow> (u32 \<Rightarrow> u32 list) \<Rightarrow> 'z malloc_state_scheme \<Rightarrow> (u32 \<times> nat) set" where
  "live_objs C U s = {(x, i). i < NR_BUCKETS \<and> (\<exists>b\<in>set (C i). x \<in> objs i (bd_page (bdescs s b)) - set (U b))}"

lemma chain_short:
  assumes "heap_ok C F U s" "i < 9"
  shows "length (C i) \<le> 3840"
proof -
  have "length (C i) = card (set (C i))" using assms by (simp add: heap_ok_def lists_ok_def distinct_card)
  also have "\<dots> \<le> card (page_addr ` {..<3840})"
  proof (rule card_inj_on_le[where f = "\<lambda>b. bd_page (bdescs s b)"])
    show "inj_on (\<lambda>b. bd_page (bdescs s b)) (set (C i))"
      by (rule inj_on_subset[OF heap_page_inj[OF assms(1)]]) (use assms(2) in \<open>auto simp: buckets_def\<close>)
    show "(\<lambda>b. bd_page (bdescs s b)) ` set (C i) \<subseteq> page_addr ` {..<3840}"
      using heap_bucket[OF assms] unfolding bucket_ok_def by blast
  qed simp
  also have "\<dots> \<le> 3840" using card_image_le[of "{..<3840 :: nat}" page_addr] by simp
  finally show ?thesis .
qed

lemma find_free_spec:
  "linked (\<lambda>b. bd_next (bdescs s b)) a xs \<Longrightarrow> length xs < n \<Longrightarrow>
    (\<exists>b\<in>set xs. bd_freeptr (bdescs s b) \<noteq> 0 \<and> find_free n a s = Ok b s) \<or>
    (\<forall>b\<in>set xs. bd_freeptr (bdescs s b) = 0) \<and> find_free n a s = Ok 0 s"
proof (induction n arbitrary: a xs)
  case (Suc n)
  show ?case
  proof (cases xs)
    case (Cons x ys)
    then have x: "a = x" "x \<noteq> 0" "linked (\<lambda>b. bd_next (bdescs s b)) (bd_next (bdescs s x)) ys" using Suc.prems by auto
    show ?thesis
    proof (cases "bd_freeptr (bdescs s x) = 0")
      case True
      then show ?thesis using Suc.IH[OF x(3)] Suc.prems(2) Cons x by auto
    qed (use x Cons in simp)
  qed (use Suc in simp)
qed simp

text \<open>Taking the first free object of a bucket.\<close>

definition take_obj :: "u32 \<Rightarrow> 'z malloc_state_scheme \<Rightarrow> 'z malloc_state_scheme" where
  "take_obj b s = upd_bdesc b (\<lambda>d. d\<lparr>bd_freeptr := load s (bd_freeptr (bdescs s b)), bd_refcnt := bd_refcnt d + 1\<rparr>) s"

lemma take_obj_fields [simp]:
  "bd_page (bdescs (take_obj b s) c) = bd_page (bdescs s c)" "bd_next (bdescs (take_obj b s) c) = bd_next (bdescs s c)"
  "c \<noteq> b \<Longrightarrow> bdescs (take_obj b s) c = bdescs s c"
  "bdir_chain (take_obj b s) = bdir_chain s" "free_bucket_desc (take_obj b s) = free_bucket_desc s" "phys (take_obj b s) = phys s"
  "mem_map (take_obj b s) = mem_map s" "HIGH_MEMORY (take_obj b s) = HIGH_MEMORY s"
  by (simp_all add: take_obj_def upd_bdesc_def)

lemma buckets_unique: "heap_ok C F U s \<Longrightarrow> i < 9 \<Longrightarrow> j < 9 \<Longrightarrow> b \<in> set (C i) \<Longrightarrow> b \<in> set (C j) \<Longrightarrow> i = j"
  unfolding heap_ok_def lists_ok_def by blast

lemma owner_unique:
  assumes h: "heap_ok C F U s" and b: "i < 9" "b \<in> set (C i)" "x \<in> objs i (bd_page (bdescs s b))"
    and c: "j < 9" "c \<in> set (C j)" "x \<in> objs j (bd_page (bdescs s c))"
  shows "b = c" "i = j"
proof -
  have "bucket_ok i b (U b) s" "bucket_ok j c (U c) s" using heap_bucket[OF h] b c by blast+
  then have "bd_page (bdescs s b) = x AND 0xfffff000" "bd_page (bdescs s c) = x AND 0xfffff000"
    using frame_objs b c unfolding bucket_ok_def by metis+
  moreover have "inj_on (\<lambda>b. bd_page (bdescs s b)) (buckets C)" by (rule heap_page_inj[OF h])
  moreover have "b \<in> buckets C" "c \<in> buckets C" using b c by (auto simp: buckets_def)
  ultimately show "b = c" by (metis inj_onD)
  then show "i = j" using buckets_unique[OF h] b c by blast
qed

lemma live_iff:
  assumes "heap_ok C F U s" "i < 9" "b \<in> set (C i)" "x \<in> objs i (bd_page (bdescs s b))"
  shows "(x, j) \<in> live_objs C U s \<longleftrightarrow> j = i \<and> x \<notin> set (U b)"
proof
  assume "(x, j) \<in> live_objs C U s"
  then obtain c where c: "j < 9" "c \<in> set (C j)" "x \<in> objs j (bd_page (bdescs s c))" "x \<notin> set (U c)"
    unfolding live_objs_def by blast
  then show "j = i \<and> x \<notin> set (U b)" using owner_unique[OF assms c(1-3)] by simp
next
  assume "j = i \<and> x \<notin> set (U b)"
  then show "(x, j) \<in> live_objs C U s" using assms(2-4) unfolding live_objs_def by blast
qed

lemma take_obj_ok:
  assumes h: "heap_ok C F U s" and i: "i < 9" "b \<in> set (C i)" "U b = x # os"
  shows "heap_ok C F (U(b := os)) (take_obj b s)" "live_objs C (U(b := os)) (take_obj b s) = insert (x, i) (live_objs C U s)"
    "bd_freeptr (bdescs s b) = x" "(x, i) \<notin> live_objs C U s" "x \<in> objs i (bd_page (bdescs s b))"
proof -
  have b: "bucket_ok i b (x # os) s" using heap_bucket[OF h i(1,2)] i(3) by simp
  then show x: "bd_freeptr (bdescs s b) = x" "x \<in> objs i (bd_page (bdescs s b))" by (auto simp: bucket_ok_def)
  have n: "unat (bd_refcnt (bdescs s b)) < 256" using b bucket_sizes(5)[OF i(1)] unfolding bucket_ok_def by auto
  have "unat (bd_refcnt (bdescs s b) + 1) = unat (bd_refcnt (bdescs s b)) + 1" using n by (simp add: unat_word_ariths)
  then have "bucket_ok i b os (take_obj b s)" using b x unfolding bucket_ok_def
    by (auto simp: take_obj_def upd_bdesc_def load_def)
  then have "bucket_ok k c ((U(b := os)) c) (take_obj b s)" if c: "k < 9" "c \<in> set (C k)" for k c
  proof (cases "c = b")
    case True
    then have "k = i" using buckets_unique[OF h c(1) i(1)] c(2) i(2) by simp
    then show ?thesis using True \<open>bucket_ok i b os (take_obj b s)\<close> by simp
  next
    case False
    have "bucket_ok k c (U c) s" by (rule heap_bucket[OF h c])
    then show ?thesis using False by (simp add: bucket_ok_def)
  qed
  then show h': "heap_ok C F (U(b := os)) (take_obj b s)"
    using h unfolding heap_ok_def by (simp add: desc_home_def lists_ok_def pages_ok_def)
  show "(x, i) \<notin> live_objs C U s" using live_iff[OF h i(1,2) x(2)] i(3) by simp
  have d: "x \<notin> set os" using b by (simp add: bucket_ok_def)
  have "(y, k) \<in> live_objs C (U(b := os)) (take_obj b s) \<longleftrightarrow> (y, k) \<in> insert (x, i) (live_objs C U s)" for y k
  proof (cases "y \<in> objs i (bd_page (bdescs s b))")
    case True
    then show ?thesis
      using live_iff[OF h i(1,2) True] live_iff[OF h' i(1,2), of y k] i(3) d by auto
  next
    case False
    then have "(y, k) \<in> live_objs C (U(b := os)) (take_obj b s) \<longleftrightarrow> (y, k) \<in> live_objs C U s"
      using buckets_unique[OF h _ i(1) _ i(2)] unfolding live_objs_def by (simp, metis)
    then show ?thesis using False x(2) by auto
  qed
  then show "live_objs C (U(b := os)) (take_obj b s) = insert (x, i) (live_objs C U s)" by auto
qed

text \<open>The heap does not depend on memory it does not own.\<close>

lemma bucket_ok_mem:
  assumes b: "bucket_ok i b os s" and i: "i < 9" and e: "bdescs s' b = bdescs s b" "HIGH_MEMORY s' = HIGH_MEMORY s"
    and m: "\<And>k. k < 3840 \<Longrightarrow> mem_map s k \<noteq> 0 \<Longrightarrow> mem_map s' k = mem_map s k"
    and p: "\<And>x. x AND 0xfffff000 = bd_page (bdescs s b) \<Longrightarrow> phys s' x = phys s x"
  shows "bucket_ok i b os s'"
proof -
  obtain j where j: "j < 3840" "bd_page (bdescs s b) = page_addr j" "mem_map s j = 1" "page_addr j < HIGH_MEMORY s"
    using b by (auto simp: bucket_ok_def)
  have "phys s x = phys s' x" if "x \<in> set os" for x
  proof -
    have "x \<in> objs i (page_addr j)" using b that j(2) by (auto simp: bucket_ok_def)
    then show ?thesis using p[of x] frame_objs[OF i j(1)] j(2) by simp
  qed
  then have "linked (phys s') (bd_freeptr (bdescs s b)) os" using b linked_cong[of os "phys s" "phys s'"] by (simp add: bucket_ok_def)
  moreover have "mem_map s' j = 1" using m[OF j(1)] j(3) by simp
  ultimately show ?thesis using b e j unfolding bucket_ok_def by auto
qed

lemma pages_ok_mem:
  assumes p: "pages_ok C F s" and e: "\<And>b. b \<in> buckets C \<Longrightarrow> bdescs s' b = bdescs s b" "HIGH_MEMORY s' = HIGH_MEMORY s"
    and m: "\<And>k. k < 3840 \<Longrightarrow> mem_map s k \<noteq> 0 \<Longrightarrow> mem_map s' k = mem_map s k"
  shows "pages_ok C F s'"
proof -
  have "inj_on (\<lambda>b. bd_page (bdescs s' b)) (buckets C) = inj_on (\<lambda>b. bd_page (bdescs s b)) (buckets C)"
    by (rule inj_on_cong) (simp add: e)
  moreover have "desc_home b s'" if "desc_home b s" for b using that m by (auto simp: desc_home_def)
  moreover have "mem_map s k = 0" if "k < 3840" "mem_map s' k = 0" for k using m[OF that(1)] that(2) by metis
  ultimately show ?thesis using p e unfolding pages_ok_def by simp
qed

lemma lists_ok_cong:
  assumes "lists_ok C F s" "\<And>b. b \<in> buckets C \<Longrightarrow> bd_next (bdescs s' b) = bd_next (bdescs s b)" "bdir_chain s' = bdir_chain s"
    "linked (\<lambda>b. bd_next (bdescs s' b)) (free_bucket_desc s') F'" "distinct F'" "buckets C \<inter> set F' = {}"
  shows "lists_ok C F' s'"
proof -
  have "linked (\<lambda>b. bd_next (bdescs s' b)) (bdir_chain s' i) (C i)" if "i < 9" for i
  proof -
    have "b \<in> set (C i) \<Longrightarrow> bd_next (bdescs s' b) = bd_next (bdescs s b)" for b using assms(2) that by (auto simp: buckets_def)
    then show ?thesis using assms(1,3) that linked_cong[of "C i" "\<lambda>b. bd_next (bdescs s' b)" "\<lambda>b. bd_next (bdescs s b)"]
      by (simp add: lists_ok_def)
  qed
  then show ?thesis using assms(1,4-6) by (simp add: lists_ok_def)
qed

lemma buckets_ok_mem:
  assumes h: "heap_ok C F U s" and e: "\<And>b. b \<in> buckets C \<Longrightarrow> bdescs s' b = bdescs s b" "HIGH_MEMORY s' = HIGH_MEMORY s"
    and m: "\<And>k. k < 3840 \<Longrightarrow> mem_map s k \<noteq> 0 \<Longrightarrow> mem_map s' k = mem_map s k"
    and p: "\<And>b x. b \<in> buckets C \<Longrightarrow> x AND 0xfffff000 = bd_page (bdescs s b) \<Longrightarrow> phys s' x = phys s x"
    and b: "i < 9" "b \<in> set (C i)"
  shows "bucket_ok i b (U b) s'"
proof (rule bucket_ok_mem[OF heap_bucket[OF h b] b(1) _ e(2) m])
  have "b \<in> buckets C" using b by (auto simp: buckets_def)
  then show "bdescs s' b = bdescs s b" by (rule e(1))
  show "phys s' x = phys s x" if "x AND 0xfffff000 = bd_page (bdescs s b)" for x
    using p[OF \<open>b \<in> buckets C\<close> that] .
qed

lemma heap_ok_mem:
  assumes h: "heap_ok C F U s" and e: "\<And>b. b \<in> buckets C \<union> set F \<Longrightarrow> bdescs s' b = bdescs s b" "bdir_chain s' = bdir_chain s"
      "free_bucket_desc s' = free_bucket_desc s" "HIGH_MEMORY s' = HIGH_MEMORY s"
    and m: "\<And>k. k < 3840 \<Longrightarrow> mem_map s k \<noteq> 0 \<Longrightarrow> mem_map s' k = mem_map s k"
    and p: "\<And>b x. b \<in> buckets C \<Longrightarrow> x AND 0xfffff000 = bd_page (bdescs s b) \<Longrightarrow> phys s' x = phys s x"
  shows "heap_ok C F U s'"
proof -
  have e': "b \<in> buckets C \<Longrightarrow> bdescs s' b = bdescs s b" for b using e(1) by blast
  have "linked (\<lambda>b. bd_next (bdescs s' b)) (free_bucket_desc s') F"
    using h e linked_cong[of F "\<lambda>b. bd_next (bdescs s' b)" "\<lambda>b. bd_next (bdescs s b)"] by (simp add: heap_ok_def lists_ok_def)
  then have "lists_ok C F s'"
    using h e' e(2) lists_ok_cong[of C F s s' F] unfolding heap_ok_def by (simp add: lists_ok_def[of C F s])
  moreover have "pages_ok C F s'" using h pages_ok_mem[OF _ e' e(4) m] by (simp add: heap_ok_def)
  moreover have "bucket_ok i b (U b) s'" if "i < 9" "b \<in> set (C i)" for i b by (rule buckets_ok_mem[OF h e' e(4) m p that])
  ultimately show ?thesis by (simp add: heap_ok_def)
qed

lemma bucket_page_used:
  assumes "heap_ok C F U s" "b \<in> buckets C"
  shows "\<exists>j<3840. bd_page (bdescs s b) = page_addr j \<and> mem_map s j = 1"
  using assms heap_bucket[OF assms(1)] unfolding buckets_def bucket_ok_def by blast

lemma home_not_free:
  assumes "pages_ok C F s" "c \<in> buckets C \<union> set F" "j < 3840" "mem_map s j = 0"
  shows "c AND 0xfffff000 \<noteq> page_addr j"
proof -
  have "desc_home c s" using assms(1,2) unfolding pages_ok_def by blast
  then show ?thesis using assms(3,4) by (auto simp: desc_home_def page_addr_eq)
qed

lemma heap_ok_get_page:
  assumes h: "heap_ok C F U s" and j: "j < 3840" "mem_map s j = 0"
  shows "heap_ok C F U (s\<lparr>mem_map := (mem_map s)(j := 1), phys := stosl_page (page_addr j) 0 (phys s)\<rparr>)"
proof (rule heap_ok_mem[OF h])
  fix b x assume b: "b \<in> buckets C" "x AND 0xfffff000 = bd_page (bdescs s b)"
  then have "x AND 0xfffff000 \<noteq> page_addr j" using bucket_page_used[OF h b(1)] j by (auto simp: page_addr_eq)
  then show "phys (s\<lparr>mem_map := (mem_map s)(j := 1), phys := stosl_page (page_addr j) 0 (phys s)\<rparr>) x = phys s x"
    by (simp add: stosl_page_def in_page_def)
qed (use j in auto)

text \<open>A page of new descriptors.\<close>

lemma heap_ok_new_descs:
  assumes h: "heap_ok C [] U s" and j: "j < 3840" "mem_map s j = 0"
    and e: "bdir_chain s' = bdir_chain s" "HIGH_MEMORY s' = HIGH_MEMORY s" "mem_map s' = (mem_map s)(j := 1)"
      "phys s' = stosl_page (page_addr j) 0 (phys s)" "\<And>b. b AND 0xfffff000 \<noteq> page_addr j \<Longrightarrow> bdescs s' b = bdescs s b"
    and f: "free_bucket_desc s' = desc (page_addr j) 0" "bd_next (bdescs s' (desc (page_addr j) 255)) = 0"
      "\<forall>l<255. bd_next (bdescs s' (desc (page_addr j) l)) = desc (page_addr j) (Suc l)"
  shows "heap_ok C (map (desc (page_addr j)) [0..<256]) U s'"
proof -
  let ?F = "map (desc (page_addr j)) [0..<256]"
  have fr: "d AND 0xfffff000 = page_addr j" if "d \<in> set ?F" for d
    using that frame_obj[of 0 _ j] j(1) by (auto simp: desc_obj bucket_dir_def)
  have old: "b AND 0xfffff000 \<noteq> page_addr j" if "b \<in> buckets C" for b
    using h that j unfolding heap_ok_def pages_ok_def desc_home_def by (auto simp: page_addr_eq)
  have eb: "bdescs s' b = bdescs s b" if "b \<in> buckets C" for b using e(5) old[OF that] by blast
  have mm: "mem_map s' k = mem_map s k" if "k < 3840" "mem_map s k \<noteq> 0" for k using that j by (auto simp: e(3))
  have pg: "bd_page (bdescs s b) \<noteq> page_addr j" if "b \<in> buckets C" for b
    using bucket_page_used[OF h that] j by (auto simp: page_addr_eq)
  have ph: "phys s' x = phys s x" if "b \<in> buckets C" "x AND 0xfffff000 = bd_page (bdescs s b)" for b x
    using pg[OF that(1)] that(2) by (simp add: e(4) stosl_page_def in_page_def)
  have "linked (\<lambda>b. bd_next (bdescs s' b)) (desc (page_addr j) 0) (map (desc (page_addr j)) [0..<256] @ [])"
    using f j(1) by (intro linked_descs) auto
  moreover have "distinct ?F"
    using obj_inj[of 0 j] j(1) by (simp add: distinct_map desc_obj[abs_def] bucket_dir_def lessThan_atLeast0)
  moreover have "buckets C \<inter> set ?F = {}" using old fr by blast
  ultimately have "lists_ok C ?F s'"
    using h f(1) eb e(1) lists_ok_cong[of C "[]" s s' ?F] unfolding heap_ok_def by simp
  moreover have "pages_ok C ?F s'"
  proof -
    have "pages_ok C [] s" using h by (simp add: heap_ok_def)
    then have "pages_ok C [] s'" by (rule pages_ok_mem[OF _ eb e(2) mm])
    moreover have "desc_home d s'" if "d \<in> set ?F" for d using fr[OF that] j(1) by (auto simp: desc_home_def e(3))
    moreover have "d AND 0xfffff000 \<noteq> bd_page (bdescs s' b)" if "d \<in> set ?F" "b \<in> buckets C" for d b
      using fr[OF that(1)] pg[OF that(2)] eb[OF that(2)] by simp
    ultimately show ?thesis unfolding pages_ok_def by blast
  qed
  moreover have "bucket_ok i b (U b) s'" if "i < 9" "b \<in> set (C i)" for i b by (rule buckets_ok_mem[OF h eb e(2) mm ph that])
  ultimately show ?thesis by (simp add: heap_ok_def)
qed

lemma init_bucket_desc_ok:
  assumes h: "heap_ok C [] U s" and fr: "\<exists>j<3840. mem_map s j = 0"
  shows "\<exists>s' j. init_bucket_desc s = Ok () s' \<and> j < 3840 \<and> mem_map s j = 0 \<and> mem_map s' = (mem_map s)(j := 1) \<and>
    heap_ok C (map (desc (page_addr j)) [0..<256]) U s' \<and> live_objs C U s' = live_objs C U s \<and>
    (\<forall>b\<in>buckets C. bdescs s' b = bdescs s b)"
proof (cases rule: get_free_page_cases[of s])
  case full
  then show ?thesis using fr by blast
next
  case (page j)
  let ?s1 = "s\<lparr>mem_map := (mem_map s)(j := 1), phys := stosl_page (page_addr j) 0 (phys s)\<rparr>"
  let ?s2 = "?s1\<lparr>bdescs := (\<lambda>b. if in_page (page_addr j) b then no_bucket else bdescs s b)\<rparr>"
  let ?d = "desc (page_addr j)"
  obtain m where m: "link_bdescs 256 (?d 0) ?s2 = (?d 255, ?s2\<lparr>bdescs := m\<rparr>)"
    "\<forall>l. 0 \<le> l \<and> l < 255 \<longrightarrow> bd_next (m (?d l)) = ?d (Suc l)" "\<forall>b. b \<notin> ?d ` {0..<255} \<longrightarrow> m b = bdescs ?s2 b"
    using link_bdescs_links[OF page(1), of 0 256 ?s2] by auto
  let ?s3 = "(upd_bdesc (?d 255) (\<lambda>d. d\<lparr>bd_next := free_bucket_desc s\<rparr>) (?s2\<lparr>bdescs := m\<rparr>))\<lparr>free_bucket_desc := ?d 0\<rparr>"
  have d0: "?d 0 = page_addr j" by (simp add: desc_def)
  have i: "init_bucket_desc s = Ok () ?s3"
    using m(1) page page_addr_nz[OF page(1)] by (simp add: init_bucket_desc_def d0 Let_def cong: if_cong)
  have z: "free_bucket_desc s = 0" using h by (simp add: heap_ok_def lists_ok_def)
  have frd: "?d l AND 0xfffff000 = page_addr j" if "l < 256" for l
    using frame_obj[of 0 l j] page(1) that by (simp add: desc_obj bucket_dir_def)
  have o: "bdescs ?s3 b = bdescs s b" if "b AND 0xfffff000 \<noteq> page_addr j" for b
  proof -
    have "b \<notin> ?d ` {0..<255}" "b \<noteq> ?d 255" using that frd by auto
    then show ?thesis using m(3) that by (simp add: upd_bdesc_def in_page_def)
  qed
  have ne: "?d l \<noteq> ?d 255" if "l < 255" for l
    using inj_onD[OF obj_inj[of 0 j], of l 255] that page(1) by (auto simp: desc_obj bucket_dir_def)
  have h3: "heap_ok C (map ?d [0..<256]) U ?s3"
    by (rule heap_ok_new_descs[OF h page(1,2) _ _ _ _ o]) (use m(2) ne in \<open>simp_all add: z upd_bdesc_def\<close>)
  have bs: "\<forall>b\<in>buckets C. bdescs ?s3 b = bdescs s b"
  proof
    fix b assume "b \<in> buckets C"
    then have "b AND 0xfffff000 \<noteq> page_addr j" using h home_not_free[of C "[]" s b, OF _ _ page(1,2)] by (simp add: heap_ok_def)
    then show "bdescs ?s3 b = bdescs s b" by (rule o)
  qed
  then have "live_objs C U ?s3 = live_objs C U s" unfolding live_objs_def buckets_def by auto
  moreover have "mem_map ?s3 = (mem_map s)(j := 1)" by (simp add: upd_bdesc_def)
  ultimately show ?thesis using i h3 page(1,2) bs by blast
qed

text \<open>Linking in a new bucket \<open>b\<close> whose page is \<open>j\<close>.\<close>

lemma heap_ok_new_bucket:
  assumes h: "heap_ok C (b # F) U s" and j: "j < 3840" "mem_map s j = 0" and i: "i < 9"
    and d: "bdescs s' = (bdescs s)(b := d)" "bd_page d = page_addr j" "bd_freeptr d = page_addr j" "bd_refcnt d = 0" "bd_next d = bdir_chain s i"
    and e: "bdir_chain s' = (bdir_chain s)(i := b)" "free_bucket_desc s' = bd_next (bdescs s b)" "mem_map s' = (mem_map s)(j := 1)"
      "HIGH_MEMORY s' = HIGH_MEMORY s"
    and os: "os = map (obj i (page_addr j)) [0..<4096 div bucket_dir ! i]" "linked (phys s') (page_addr j) os"
      "\<And>a. a AND 0xfffff000 \<noteq> page_addr j \<Longrightarrow> phys s' a = phys s a"
  shows "heap_ok (C(i := b # C i)) F (U(b := os)) s'" "live_objs (C(i := b # C i)) (U(b := os)) s' = live_objs C U s"
proof -
  let ?C = "C(i := b # C i)"
  have l: "lists_ok C (b # F) s" and pg: "pages_ok C (b # F) s" using h by (simp_all add: heap_ok_def)
  have b: "b \<notin> buckets C" "b \<notin> set F" "b \<noteq> 0" using l by (auto simp: lists_ok_def)
  have B: "buckets ?C = insert b (buckets C)" using i by (auto simp: buckets_def split: if_splits)
  have ck: "b \<notin> set (C k)" if "k < 9" for k using b(1) that by (auto simp: buckets_def)
  have eb: "bdescs s' c = bdescs s c" if "c \<in> buckets C" for c using that b(1) d(1) by auto
  have mm: "mem_map s' k = mem_map s k" if "k < 3840" "mem_map s k \<noteq> 0" for k using that j by (auto simp: e(3))
  have np: "bd_page (bdescs s c) \<noteq> page_addr j" if "c \<in> buckets C" for c
    using bucket_page_used[OF h that] j by (auto simp: page_addr_eq)
  have nd: "c AND 0xfffff000 \<noteq> page_addr j" if "c \<in> buckets C \<union> set (b # F)" for c
    by (rule home_not_free[OF pg that j])
  have ph: "phys s' x = phys s x" if "c \<in> buckets C" "x AND 0xfffff000 = bd_page (bdescs s c)" for c x
    using np[OF that(1)] that(2) os(3) by simp
  have "linked (\<lambda>c. bd_next (bdescs s' c)) (bdir_chain s k) (C k)" if "k < 9" for k
    using l that linked_upd[OF ck[OF that], of bd_next "bdescs s" d] d(1) by (simp add: lists_ok_def)
  then have "linked (\<lambda>c. bd_next (bdescs s' c)) (bdir_chain s' k) (?C k)" if "k < 9" for k
    using that i b(3) d e(1) by simp
  moreover have "linked (\<lambda>c. bd_next (bdescs s' c)) (free_bucket_desc s') F"
    using l linked_upd[OF b(2), of bd_next "bdescs s" d] d(1) e(2) by (simp add: lists_ok_def)
  ultimately have "lists_ok ?C F s'" using l ck b i unfolding lists_ok_def B by (simp add: fun_upd_apply)
  moreover have "pages_ok ?C F s'"
  proof -
    have p1: "pages_ok C (b # F) s'" by (rule pages_ok_mem[OF pg eb e(4) mm])
    moreover have "inj_on (\<lambda>c. bd_page (bdescs s' c)) (insert b (buckets C))"
    proof -
      have "bd_page (bdescs s' c) \<noteq> bd_page (bdescs s' b)" if "c \<in> buckets C" for c using np[OF that] eb[OF that] d(1,2) by simp
      then show ?thesis using p1 unfolding pages_ok_def inj_on_insert by (metis Diff_empty Diff_insert0 b(1) imageE)
    qed
    moreover have "c AND 0xfffff000 \<noteq> bd_page (bdescs s' b)" if "c \<in> buckets C \<union> set (b # F)" for c
      using nd[OF that] d by simp
    ultimately show ?thesis unfolding pages_ok_def B by auto
  qed
  moreover have "bucket_ok k c ((U(b := os)) c) s'" if c: "k < 9" "c \<in> set (?C k)" for k c
  proof (cases "c = b")
    case True
    then have "k = i" using c ck by (auto split: if_splits)
    have "distinct os" using obj_inj[OF i j(1)] by (simp add: os(1) distinct_map lessThan_atLeast0)
    moreover have "page_addr j < HIGH_MEMORY s" using pg j by (simp add: pages_ok_def)
    ultimately show ?thesis using True d e os j \<open>k = i\<close> by (auto simp: bucket_ok_def objs_def)
  next
    case False
    then have "c \<in> set (C k)" using c by (auto split: if_splits)
    then show ?thesis using buckets_ok_mem[OF h eb e(4) mm ph c(1)] False by simp
  qed
  ultimately show "heap_ok ?C F (U(b := os)) s'" by (simp add: heap_ok_def)
  have "objs i (bd_page (bdescs s' b)) - set os = {}" using d by (auto simp: objs_def os(1))
  moreover have "bdescs s' c = bdescs s c \<and> c \<noteq> b" if "k < 9" "c \<in> set (C k)" for k c
    using that ck[OF that(1)] d(1) by auto
  ultimately show "live_objs ?C (U(b := os)) s' = live_objs C U s" unfolding live_objs_def
    by (auto split: if_splits; metis)
qed

lemma new_bucket_from:
  assumes h: "heap_ok C (b # F) U s" and fr: "\<exists>j<3840. mem_map s j = 0" and i: "i < 9"
  shows "\<exists>s' U'. new_bucket i s = Ok b s' \<and> heap_ok (C(i := b # C i)) F U' s' \<and> live_objs (C(i := b # C i)) U' s' = live_objs C U s \<and>
    U' b \<noteq> [] \<and> (\<forall>c. c \<noteq> b \<longrightarrow> bd_refcnt (bdescs s' c) = bd_refcnt (bdescs s c))"
proof (cases rule: get_free_page_cases[of s])
  case full
  then show ?thesis using fr by blast
next
  case (page j)
  let ?n = "4096 div bucket_dir ! i"
  have b: "free_bucket_desc s = b" "b \<noteq> 0" using h by (simp_all add: heap_ok_def lists_ok_def)
  let ?d = "\<lambda>d. d\<lparr>bd_refcnt := 0, bd_bucket_size := of_nat (bucket_dir ! i)\<rparr>"
  let ?s1 = "upd_bdesc b ?d (s\<lparr>free_bucket_desc := bd_next (bdescs s b)\<rparr>)"
  let ?s2 = "?s1\<lparr>mem_map := (mem_map s)(j := 1), phys := stosl_page (page_addr j) 0 (phys s)\<rparr>"
  let ?s3 = "upd_bdesc b (\<lambda>d. d\<lparr>bd_freeptr := page_addr j, bd_page := page_addr j\<rparr>) ?s2"
  have g: "get_free_page ?s1 = (page_addr j, ?s2)"
  proof -
    have "scan_map (mem_map s) 3840 = Some j" using page(1-3) by (simp only: scan_map_Some)
    then show ?thesis by (simp add: get_free_page_def upd_bdesc_def page_addr_def Let_def)
  qed
  have o0: "obj i (page_addr j) 0 = page_addr j" by (simp add: obj_def)
  obtain m where m: "link_objects ?n (of_nat (bucket_dir ! i)) (page_addr j) ?s3 = ?s3\<lparr>phys := m\<rparr>"
    "linked m (page_addr j) (map (obj i (page_addr j)) [0..<?n])" "\<forall>a. a \<notin> obj i (page_addr j) ` {0..<?n} \<longrightarrow> m a = phys ?s3 a"
    using link_objects_links[OF i page(1), of 0 ?n ?s3] bucket_sizes(4)[OF i] by (auto simp: o0)
  let ?s4 = "(upd_bdesc b (\<lambda>d. d\<lparr>bd_next := bdir_chain s i\<rparr>) (?s3\<lparr>phys := m\<rparr>))\<lparr>bdir_chain := (bdir_chain s)(i := b)\<rparr>"
  have n: "new_bucket i s = Ok b ?s4"
    using b g m(1) page_addr_nz[OF page(1)] by (simp add: new_bucket_def Let_def upd_bdesc_def)
  have mo: "m a = phys s a" if "a AND 0xfffff000 \<noteq> page_addr j" for a
  proof -
    have "a \<notin> obj i (page_addr j) ` {0..<?n}" using that frame_obj[OF i _ page(1)] by auto
    then show ?thesis using m(3) that by (simp add: upd_bdesc_def stosl_page_def in_page_def)
  qed
  let ?os = "map (obj i (page_addr j)) [0..<?n]"
  let ?e = "(?d (bdescs s b))\<lparr>bd_freeptr := page_addr j, bd_page := page_addr j, bd_next := bdir_chain s i\<rparr>"
  have b4: "bdescs ?s4 = (bdescs s)(b := ?e)" by (simp add: upd_bdesc_def)
  have "heap_ok (C(i := b # C i)) F (U(b := ?os)) ?s4"
    by (rule heap_ok_new_bucket(1)[OF h page(1,2) i b4 _ _ _ _ _ _ _ _ refl]) (simp_all add: upd_bdesc_def m(2) mo)
  moreover have "live_objs (C(i := b # C i)) (U(b := ?os)) ?s4 = live_objs C U s"
    by (rule heap_ok_new_bucket(2)[OF h page(1,2) i b4 _ _ _ _ _ _ _ _ refl]) (simp_all add: upd_bdesc_def m(2) mo)
  moreover have "(U(b := ?os)) b \<noteq> []" using bucket_sizes(4)[OF i] by simp
  moreover have "\<forall>c. c \<noteq> b \<longrightarrow> bd_refcnt (bdescs ?s4 c) = bd_refcnt (bdescs s c)" unfolding b4 by simp
  ultimately show ?thesis using n by blast
qed

definition free_pages :: "'z mm_state_scheme \<Rightarrow> nat" where
  "free_pages s = card {j. j < PAGING_PAGES \<and> mem_map s j = 0}"

lemma free_pages_ex: "0 < free_pages s \<Longrightarrow> \<exists>j<3840. mem_map s j = 0"
  unfolding free_pages_def card_gt_0_iff by blast

lemma free_pages_take:
  assumes "mem_map s' = (mem_map s)(j := 1)" "j < 3840" "mem_map s j = 0"
  shows "free_pages s' = free_pages s - 1"
proof -
  have "{k. k < 3840 \<and> mem_map s' k = 0} = {k. k < 3840 \<and> mem_map s k = 0} - {j}" using assms(1) by auto
  then show ?thesis using assms(2,3) by (simp add: free_pages_def card_Diff_singleton)
qed

lemma new_bucket_ok:
  assumes h: "heap_ok C F U s" and f: "2 \<le> free_pages s" and i: "i < 9"
  shows "\<exists>b s' F' U'. new_bucket i s = Ok b s' \<and> heap_ok (C(i := b # C i)) F' U' s' \<and> live_objs (C(i := b # C i)) U' s' = live_objs C U s \<and>
    U' b \<noteq> [] \<and> b \<notin> buckets C \<and> (\<forall>c\<in>buckets C. bd_refcnt (bdescs s' c) = bd_refcnt (bdescs s c))"
proof -
  have go: "\<exists>b s' F' U'. new_bucket i t = Ok b s' \<and> heap_ok (C(i := b # C i)) F' U' s' \<and> live_objs (C(i := b # C i)) U' s' = live_objs C U t \<and>
      U' b \<noteq> [] \<and> b \<notin> buckets C \<and> (\<forall>c\<in>buckets C. bd_refcnt (bdescs s' c) = bd_refcnt (bdescs t c))"
    if t: "heap_ok C (b # F') U t" "0 < free_pages t" for t b F'
  proof -
    have "b \<notin> buckets C" using t(1) by (auto simp: heap_ok_def lists_ok_def)
    then show ?thesis using new_bucket_from[OF t(1) free_pages_ex[OF t(2)] i] by metis
  qed
  show ?thesis
  proof (cases F)
    case Nil
    then obtain s1 j where s1: "init_bucket_desc s = Ok () s1" "j < 3840" "mem_map s j = 0" "mem_map s1 = (mem_map s)(j := 1)"
      "heap_ok C (map (desc (page_addr j)) [0..<256]) U s1" "live_objs C U s1 = live_objs C U s" "\<forall>b\<in>buckets C. bdescs s1 b = bdescs s b"
      using init_bucket_desc_ok[of C U s] h free_pages_ex[of s] f by fastforce
    have u: "map (desc (page_addr j)) [0..<256] = desc (page_addr j) 0 # map (desc (page_addr j)) [1..<256]"
      by (simp add: upt_conv_Cons del: upt_Suc)
    have z: "free_bucket_desc s = 0" "free_bucket_desc s1 \<noteq> 0"
      using h Nil s1(5) unfolding u by (simp_all add: heap_ok_def lists_ok_def)
    have "new_bucket i s = new_bucket i s1" using s1(1) z by (simp add: new_bucket_def)
    then show ?thesis using go[of _ _ s1] s1(5-7) f free_pages_take[OF s1(4,2,3)] unfolding u by fastforce
  next
    case (Cons b F')
    then show ?thesis using go[of b F' s] h f by simp
  qed
qed

text \<open>Without a free page for it a new bucket is a panic.\<close>

lemma free_pages_none: "\<forall>j<3840. mem_map s j \<noteq> 0 \<Longrightarrow> get_free_page s = (0, s)"
  by (cases rule: get_free_page_cases[of s]) auto

lemma free_pages_0: "free_pages s = 0 \<longleftrightarrow> (\<forall>j<3840. mem_map s j \<noteq> 0)"
  unfolding free_pages_def by (subst card_0_eq) auto

lemma new_bucket_full:
  assumes "free_bucket_desc s \<noteq> 0" "free_pages s = 0"
  shows "\<exists>m s'. new_bucket i s = Panic m s'"
proof -
  have g: "get_free_page t = (0, t)" if "mem_map t = mem_map s" for t :: "'a malloc_state_scheme"
    using assms(2) that unfolding free_pages_0 by (intro free_pages_none) simp
  show ?thesis using assms(1) by (simp add: new_bucket_def Let_def) (subst g, simp_all add: upd_bdesc_def)
qed

lemma new_bucket_outcomes:
  assumes h: "heap_ok C F U s" and i: "i < 9"
  shows "(\<exists>b s' F' U'. new_bucket i s = Ok b s' \<and> heap_ok (C(i := b # C i)) F' U' s' \<and> live_objs (C(i := b # C i)) U' s' = live_objs C U s \<and>
      U' b \<noteq> [] \<and> b \<notin> buckets C \<and> (\<forall>c\<in>buckets C. bd_refcnt (bdescs s' c) = bd_refcnt (bdescs s c))) \<or>
    free_pages s < 2 \<and> (\<exists>m s'. new_bucket i s = Panic m s')"
proof (cases "2 \<le> free_pages s")
  case True
  then show ?thesis using new_bucket_ok[OF h _ i] by blast
next
  case few: False
  show ?thesis
  proof (cases F)
    case (Cons b F')
    then have b: "b \<notin> buckets C" "free_bucket_desc s \<noteq> 0" using h by (auto simp: heap_ok_def lists_ok_def)
    show ?thesis
    proof (cases "free_pages s = 0")
      case True
      then show ?thesis using new_bucket_full[OF b(2)] by simp
    next
      case False
      then show ?thesis using new_bucket_from[of C b F' U s i] free_pages_ex[of s] h i b(1) Cons by (metis neq0_conv)
    qed
  next
    case Nil
    then have z: "free_bucket_desc s = 0" using h by (simp add: heap_ok_def lists_ok_def)
    show ?thesis
    proof (cases "free_pages s = 0")
      case True
      then have "get_free_page s = (0, s)" unfolding free_pages_0 by (rule free_pages_none)
      then show ?thesis using z True by (simp add: new_bucket_def init_bucket_desc_def)
    next
      case False
      then obtain s1 j where s1: "init_bucket_desc s = Ok () s1" "j < 3840" "mem_map s j = 0" "mem_map s1 = (mem_map s)(j := 1)"
        "heap_ok C (map (desc (page_addr j)) [0..<256]) U s1"
        using init_bucket_desc_ok[of C U s] h free_pages_ex[of s] Nil by fastforce
      have u: "map (desc (page_addr j)) [0..<256] = desc (page_addr j) 0 # map (desc (page_addr j)) [1..<256]"
        by (simp add: upt_conv_Cons del: upt_Suc)
      have z1: "free_bucket_desc s1 \<noteq> 0" using s1(5) unfolding u by (simp add: heap_ok_def lists_ok_def)
      have "new_bucket i s = new_bucket i s1" using s1(1) z z1 by (simp add: new_bucket_def)
      moreover have "free_pages s1 = 0" using free_pages_take[OF s1(4,2,3)] few by simp
      ultimately show ?thesis using new_bucket_full[OF z1, of i] few by simp
    qed
  qed
qed

subsection \<open>Allocation\<close>

text \<open>\<open>malloc_heap L s\<close>: the allocator's state is sound, \<open>L\<close> are the objects in use with their bucket, and no bucket is empty.\<close>

definition malloc_heap :: "(u32 \<times> nat) set \<Rightarrow> 'z malloc_state_scheme \<Rightarrow> bool" where
  "malloc_heap L s \<longleftrightarrow> (\<exists>C F U. heap_ok C F U s \<and> L = live_objs C U s \<and> (\<forall>b\<in>buckets C. bd_refcnt (bdescs s b) \<noteq> 0))"

text \<open>The bucket for a request.\<close>

definition bucket_for :: "u32 \<Rightarrow> nat" where
  "bucket_for len = the (find (\<lambda>i. of_nat (bucket_dir ! i) \<ge> len) [0..<NR_BUCKETS])"

lemma bucket_for_fits:
  assumes "len \<le> 4096"
  shows "find (\<lambda>i. of_nat (bucket_dir ! i) \<ge> len) [0..<9] = Some (bucket_for len)" "bucket_for len < 9" "unat len \<le> bucket_dir ! bucket_for len"
proof -
  let ?P = "\<lambda>i. of_nat (bucket_dir ! i) \<ge> len"
  have "?P 8" using assms by (simp add: bucket_dir_def)
  then have "find ?P [0..<9] \<noteq> None" unfolding find_None_iff by force
  then show f: "find ?P [0..<9] = Some (bucket_for len)" by (simp add: bucket_for_def)
  then have b: "?P (bucket_for len)" "bucket_for len < 9" using find_Some_iff[of ?P "[0..<9]"] by auto
  show "bucket_for len < 9" by (rule b(2))
  have "unat (of_nat (bucket_dir ! bucket_for len) :: u32) = bucket_dir ! bucket_for len"
    using bucket_sizes(3)[OF b(2)] by (simp add: unat_of_nat take_bit_nat_eq_self)
  then show "unat len \<le> bucket_dir ! bucket_for len" using b(1) by (simp add: word_le_nat_alt)
qed

lemma take_obj_heap:
  assumes h: "heap_ok C F U s" and i: "i < 9" "b \<in> set (C i)" "U b \<noteq> []"
    and r: "\<forall>c\<in>buckets C. c \<noteq> b \<longrightarrow> bd_refcnt (bdescs s c) \<noteq> 0"
  shows "malloc_heap (insert (bd_freeptr (bdescs s b), i) (live_objs C U s)) (take_obj b s) \<and>
    (bd_freeptr (bdescs s b), i) \<notin> live_objs C U s"
proof -
  obtain x os where u: "U b = x # os" using i(3) by (cases "U b") auto
  note t = take_obj_ok[OF h i(1,2) u]
  have "bucket_ok i b (x # os) s" using heap_bucket[OF h i(1,2)] u by simp
  then have "unat (bd_refcnt (bdescs s b)) < 256" using bucket_sizes(5)[OF i(1)] by (auto simp: bucket_ok_def)
  then have "unat (bd_refcnt (bdescs s b) + 1) \<noteq> 0" by (simp add: unat_word_ariths)
  then have "bd_refcnt (bdescs s b) + 1 \<noteq> 0" by (metis unat_0)
  then have "\<forall>c\<in>buckets C. bd_refcnt (bdescs (take_obj b s) c) \<noteq> 0"
    using r by (auto simp: take_obj_def upd_bdesc_def)
  then show ?thesis using t(1,2,4) unfolding t(3) malloc_heap_def by blast
qed

lemma malloc_outcomes:
  assumes m: "malloc_heap L s" and len: "len \<le> 4096"
  shows "case malloc len s of
      Ok x s' \<Rightarrow> malloc_heap (insert (x, bucket_for len) L) s' \<and> (x, bucket_for len) \<notin> L
    | Panic msg s' \<Rightarrow> \<not> 2 \<le> free_pages s
    | _ \<Rightarrow> False"
proof -
  obtain C F U where h: "heap_ok C F U s" and L: "L = live_objs C U s" and r: "\<forall>b\<in>buckets C. bd_refcnt (bdescs s b) \<noteq> 0"
    using m by (auto simp: malloc_heap_def)
  let ?i = "bucket_for len"
  note i = bucket_for_fits[OF len]
  have lk: "linked (\<lambda>b. bd_next (bdescs s b)) (bdir_chain s ?i) (C ?i)" using h i(2) by (simp add: heap_ok_def lists_ok_def)
  have ln: "length (C ?i) < 3841" using chain_short[OF h i(2)] by simp
  from find_free_spec[OF lk ln] show ?thesis
  proof
    assume "\<exists>b\<in>set (C ?i). bd_freeptr (bdescs s b) \<noteq> 0 \<and> find_free 3841 (bdir_chain s ?i) s = Ok b s"
    then obtain b where b: "b \<in> set (C ?i)" "bd_freeptr (bdescs s b) \<noteq> 0" "find_free 3841 (bdir_chain s ?i) s = Ok b s" by blast
    have "linked (phys s) (bd_freeptr (bdescs s b)) (U b)" using heap_bucket[OF h i(2) b(1)] by (simp add: bucket_ok_def)
    then have u: "U b \<noteq> []" using b(2) by auto
    have "b \<noteq> 0" using linked_nonzero[OF lk b(1)] .
    then have "malloc len s = Ok (bd_freeptr (bdescs s b)) (take_obj b s)"
      using i(1) b(3) by (simp add: malloc_def take_obj_def Let_def)
    then show ?thesis using take_obj_heap[OF h i(2) b(1) u] r L by simp
  next
    assume "(\<forall>b\<in>set (C ?i). bd_freeptr (bdescs s b) = 0) \<and> find_free 3841 (bdir_chain s ?i) s = Ok 0 s"
    then have z: "find_free 3841 (bdir_chain s ?i) s = Ok 0 s" by blast
    from new_bucket_outcomes[OF h i(2)] show ?thesis
    proof
      assume "\<exists>b s' F' U'. new_bucket ?i s = Ok b s' \<and> heap_ok (C(?i := b # C ?i)) F' U' s' \<and> live_objs (C(?i := b # C ?i)) U' s' = live_objs C U s \<and>
        U' b \<noteq> [] \<and> b \<notin> buckets C \<and> (\<forall>c\<in>buckets C. bd_refcnt (bdescs s' c) = bd_refcnt (bdescs s c))"
      then obtain b s1 F' U' where n: "new_bucket ?i s = Ok b s1" "heap_ok (C(?i := b # C ?i)) F' U' s1"
        "live_objs (C(?i := b # C ?i)) U' s1 = L" "U' b \<noteq> []" "\<forall>c\<in>buckets C. bd_refcnt (bdescs s1 c) = bd_refcnt (bdescs s c)"
        using L by blast
      have "malloc len s = Ok (bd_freeptr (bdescs s1 b)) (take_obj b s1)"
        using i(1) z n(1) by (simp add: malloc_def take_obj_def Let_def)
      moreover have "\<forall>c\<in>buckets (C(?i := b # C ?i)). c \<noteq> b \<longrightarrow> bd_refcnt (bdescs s1 c) \<noteq> 0"
        using n(5) r by (auto simp: buckets_def split: if_splits)
      ultimately show ?thesis using take_obj_heap[OF n(2) i(2) _ n(4)] n(3) by fastforce
    next
      assume "free_pages s < 2 \<and> (\<exists>m s'. new_bucket ?i s = Panic m s')"
      then show ?thesis using i(1) z by (auto simp: malloc_def)
    qed
  qed
qed

subsection \<open>Release\<close>

lemma find_page_hit:
  assumes "linked (\<lambda>b. bd_next (bdescs s b)) a (ys @ b # zs)" "length ys < n" "bd_page (bdescs s b) = page"
    "\<forall>c\<in>set ys. bd_page (bdescs s c) \<noteq> page"
  shows "find_page n page prev a s = Ok (Some (last (prev # ys), b)) s"
  using assms
proof (induction n arbitrary: a ys prev)
  case (Suc n)
  then show ?case by (cases ys) auto
qed simp

lemma find_page_miss:
  assumes "linked (\<lambda>b. bd_next (bdescs s b)) a xs" "length xs < n" "\<forall>c\<in>set xs. bd_page (bdescs s c) \<noteq> page"
  shows "find_page n page prev a s = Ok None s"
  using assms
proof (induction n arbitrary: a xs prev)
  case (Suc n)
  then show ?case by (cases xs) auto
qed simp

lemma find_bucket_hit:
  assumes h: "heap_ok C F U s" and i: "i < 9" "C i = ys @ b # zs" and sz: "sz \<le> int (bucket_dir ! i)"
    and k: "k + n = 9" "k \<le> i"
  shows "find_bucket n k sz (bd_page (bdescs s b)) s = Ok (Some (i, last (0 # ys), b)) s"
  using k
proof (induction n arbitrary: k)
  case (Suc n)
  have l: "linked (\<lambda>b. bd_next (bdescs s b)) (bdir_chain s j) (C j)" "length (C j) < 3841" if "j < 9" for j
    using h chain_short[OF h that] that by (simp_all add: heap_ok_def lists_ok_def)
  have b: "b \<in> buckets C" using i by (auto simp: buckets_def intro!: bexI[of _ i])
  show ?case
  proof (cases "k = i")
    case True
    have "c \<noteq> b \<and> c \<in> buckets C" if "c \<in> set ys" for c
      using that h i by (auto simp: heap_ok_def lists_ok_def buckets_def intro!: bexI[of _ i])
    then have "\<forall>c\<in>set ys. bd_page (bdescs s c) \<noteq> bd_page (bdescs s b)" using inj_onD[OF heap_page_inj[OF h]] b by blast
    then have "find_page 3841 (bd_page (bdescs s b)) 0 (bdir_chain s i) s = Ok (Some (last (0 # ys), b)) s"
      using l[OF i(1)] i(2) by (intro find_page_hit) auto
    then show ?thesis using True sz by simp
  next
    case False
    then have k: "k < 9" "Suc k \<le> i" using Suc.prems by auto
    have "c \<noteq> b \<and> c \<in> buckets C" if "c \<in> set (C k)" for c
    proof -
      have "c \<noteq> b" using buckets_unique[OF h k(1) i(1), of b] that i(2) False by auto
      then show ?thesis using that k(1) by (auto simp: buckets_def)
    qed
    then have "\<forall>c\<in>set (C k). bd_page (bdescs s c) \<noteq> bd_page (bdescs s b)" using inj_onD[OF heap_page_inj[OF h]] b by blast
    then have "find_page 3841 (bd_page (bdescs s b)) 0 (bdir_chain s k) s = Ok None s"
      using l[OF k(1)] by (intro find_page_miss) auto
    then show ?thesis using Suc.IH[of "Suc k"] Suc.prems(1) k(2) by simp
  qed
qed (use i in simp)

text \<open>Putting an object back on the list of its bucket.\<close>

definition put_obj :: "u32 \<Rightarrow> u32 \<Rightarrow> 'z malloc_state_scheme \<Rightarrow> 'z malloc_state_scheme" where
  "put_obj x b s = upd_bdesc b (\<lambda>d. d\<lparr>bd_freeptr := x, bd_refcnt := bd_refcnt d - 1\<rparr>) (store x (bd_freeptr (bdescs s b)) s)"

lemma put_obj_fields [simp]:
  "bd_page (bdescs (put_obj x b s) c) = bd_page (bdescs s c)" "bd_next (bdescs (put_obj x b s) c) = bd_next (bdescs s c)"
  "c \<noteq> b \<Longrightarrow> bdescs (put_obj x b s) c = bdescs s c" "bd_freeptr (bdescs (put_obj x b s) b) = x"
  "bd_refcnt (bdescs (put_obj x b s) b) = bd_refcnt (bdescs s b) - 1"
  "bdir_chain (put_obj x b s) = bdir_chain s" "free_bucket_desc (put_obj x b s) = free_bucket_desc s"
  "phys (put_obj x b s) = (phys s)(x := bd_freeptr (bdescs s b))"
  "mem_map (put_obj x b s) = mem_map s" "HIGH_MEMORY (put_obj x b s) = HIGH_MEMORY s"
  by (simp_all add: put_obj_def upd_bdesc_def store_def)

lemma put_obj_ok:
  assumes h: "heap_ok C F U s" and i: "i < 9" "b \<in> set (C i)" and x: "x \<in> objs i (bd_page (bdescs s b))" "x \<notin> set (U b)"
  shows "heap_ok C F (U(b := x # U b)) (put_obj x b s)" "live_objs C (U(b := x # U b)) (put_obj x b s) = live_objs C U s - {(x, i)}"
proof -
  let ?s = "put_obj x b s"
  have b: "bucket_ok i b (U b) s" by (rule heap_bucket[OF h i])
  obtain j where j: "j < 3840" "bd_page (bdescs s b) = page_addr j" using b by (auto simp: bucket_ok_def)
  have "insert x (set (U b)) \<subseteq> objs i (page_addr j)" using b x j by (simp add: bucket_ok_def)
  then have "card (insert x (set (U b))) \<le> card (objs i (page_addr j))" by (rule card_mono[rotated]) (simp add: objs_def)
  then have "length (U b) < 4096 div bucket_dir ! i"
    using card_objs[OF i(1) j(1)] b x(2) by (simp add: bucket_ok_def distinct_card)
  then have "0 < unat (bd_refcnt (bdescs s b))" using b by (simp add: bucket_ok_def)
  then have "unat (bd_refcnt (bdescs s b) - 1) = unat (bd_refcnt (bdescs s b)) - 1" by (simp add: unat_sub word_le_nat_alt)
  moreover have "linked (phys ?s) a (U b) \<longleftrightarrow> linked (phys s) a (U b)" for a
    by (rule linked_cong) (use x(2) in auto)
  then have "linked (phys ?s) (bd_freeptr (bdescs s b)) (U b)" using b by (simp add: bucket_ok_def)
  moreover have "x \<noteq> 0" using x(1) obj_nonzero[OF i(1) _ j(1)] j(2) by (auto simp: objs_def)
  ultimately have bo: "bucket_ok i b (x # U b) ?s" using b x \<open>0 < unat _\<close> by (simp add: bucket_ok_def)
  have "bucket_ok k c ((U(b := x # U b)) c) ?s" if c: "k < 9" "c \<in> set (C k)" for k c
  proof (cases "c = b")
    case True
    then have "k = i" using buckets_unique[OF h c(1) i(1)] c(2) i(2) by simp
    then show ?thesis using True bo by simp
  next
    case False
    have "y \<noteq> x" if "y AND 0xfffff000 = bd_page (bdescs s c)" for y
    proof
      assume "y = x"
      then have "bd_page (bdescs s c) = bd_page (bdescs s b)" using that frame_objs[OF i(1) j(1)] x(1) j(2) by simp
      then show False using inj_onD[OF heap_page_inj[OF h]] False c i by (auto simp: buckets_def)
    qed
    then have "bucket_ok k c (U c) ?s"
      by (intro bucket_ok_mem[OF heap_bucket[OF h c] c(1)]) (use False in auto)
    then show ?thesis using False by simp
  qed
  then show h': "heap_ok C F (U(b := x # U b)) ?s"
    using h unfolding heap_ok_def by (simp add: desc_home_def lists_ok_def pages_ok_def)
  have "(y, k) \<in> live_objs C (U(b := x # U b)) ?s \<longleftrightarrow> (y, k) \<in> live_objs C U s - {(x, i)}" for y k
  proof (cases "y \<in> objs i (bd_page (bdescs s b))")
    case True
    then show ?thesis using live_iff[OF h i True] live_iff[OF h' i, of y k] by auto
  next
    case False
    then have "(y, k) \<in> live_objs C (U(b := x # U b)) ?s \<longleftrightarrow> (y, k) \<in> live_objs C U s"
      using buckets_unique[OF h _ i(1) _ i(2)] unfolding live_objs_def by (simp, metis)
    then show ?thesis using False x(1) by auto
  qed
  then show "live_objs C (U(b := x # U b)) ?s = live_objs C U s - {(x, i)}" by auto
qed

text \<open>Taking an empty bucket out of its chain and returning its page.\<close>

definition drop_bucket :: "nat \<Rightarrow> u32 \<Rightarrow> u32 \<Rightarrow> 'z malloc_state_scheme \<Rightarrow> 'z malloc_state_scheme" where
  "drop_bucket i prev b s =
     (let t = (if prev = 0 then s\<lparr>bdir_chain := (bdir_chain s)(i := bd_next (bdescs s b))\<rparr>
               else upd_bdesc prev (\<lambda>d. d\<lparr>bd_next := bd_next (bdescs s b)\<rparr>) s);
          m = MAP_NR (bd_page (bdescs s b))
      in (upd_bdesc b (\<lambda>d. d\<lparr>bd_next := free_bucket_desc s\<rparr>) (t\<lparr>mem_map := (mem_map s)(m := 0)\<rparr>))\<lparr>free_bucket_desc := b\<rparr>)"

lemma unlink_bucket_drop:
  assumes h: "heap_ok C F U s" and i: "i < 9" "C i = ys @ b # zs"
  shows "unlink_bucket i (last (0 # ys)) b s = Ok () (drop_bucket i (last (0 # ys)) b s)"
proof -
  let ?p = "last (0 # ys)"
  have l: "linked (\<lambda>b. bd_next (bdescs s b)) (bdir_chain s i) (ys @ b # zs)" "distinct (ys @ b # zs)"
    using h i unfolding heap_ok_def lists_ok_def by metis+
  have bo: "bucket_ok i b (U b) s" using heap_bucket[OF h i(1), of b] i(2) by simp
  then obtain j where j: "j < 3840" "bd_page (bdescs s b) = page_addr j" "mem_map s j = 1" "page_addr j < HIGH_MEMORY s"
    by (auto simp: bucket_ok_def)
  have p: "?p = 0 \<longleftrightarrow> ys = []" using linked_nonzero[OF l(1), of "last ys"] by auto
  have c: "ys = [] \<Longrightarrow> bdir_chain s i = b" "ys \<noteq> [] \<Longrightarrow> bd_next (bdescs s (last ys)) = b"
    using l(1) linked_pred[OF l(1)] by auto
  have pb: "ys \<noteq> [] \<Longrightarrow> last ys \<noteq> b" using l(2) by auto
  have fp: "free_page (page_addr j) t = Ok () (t\<lparr>mem_map := (mem_map t)(j := 0)\<rparr>)" if "mem_map t = mem_map s" "HIGH_MEMORY t = HIGH_MEMORY s"
    for t :: "'a malloc_state_scheme"
    using j page_addr_ge[OF j(1)] that by (auto simp: free_page_def Let_def dest: leD)
  show ?thesis
    using p c pb j fp by (cases "ys = []") (auto simp: unlink_bucket_def drop_bucket_def upd_bdesc_def Let_def)
qed

lemma drop_bucket_fields:
  assumes "prev \<noteq> b"
  shows "bd_page (bdescs (drop_bucket i prev b s) c) = bd_page (bdescs s c)" "bd_freeptr (bdescs (drop_bucket i prev b s) c) = bd_freeptr (bdescs s c)"
    "bd_refcnt (bdescs (drop_bucket i prev b s) c) = bd_refcnt (bdescs s c)"
    "bd_next (bdescs (drop_bucket i prev b s) c) = (if c = b then free_bucket_desc s else if prev \<noteq> 0 \<and> c = prev then bd_next (bdescs s b) else bd_next (bdescs s c))"
    "bdir_chain (drop_bucket i prev b s) = (if prev = 0 then (bdir_chain s)(i := bd_next (bdescs s b)) else bdir_chain s)"
    "free_bucket_desc (drop_bucket i prev b s) = b" "phys (drop_bucket i prev b s) = phys s" "HIGH_MEMORY (drop_bucket i prev b s) = HIGH_MEMORY s"
    "mem_map (drop_bucket i prev b s) = (mem_map s)(MAP_NR (bd_page (bdescs s b)) := 0)"
  using assms by (auto simp: drop_bucket_def upd_bdesc_def Let_def)

lemma drop_lists:
  assumes l: "lists_ok C F s" and i: "i < 9" "C i = ys @ b # zs"
  shows "lists_ok (C(i := ys @ zs)) (b # F) (drop_bucket i (last (0 # ys)) b s)"
proof -
  let ?p = "last (0 # ys)" and ?C = "C(i := ys @ zs)"
  let ?s = "drop_bucket i ?p b s"
  let ?nx = "\<lambda>c. bd_next (bdescs s c)" and ?nx' = "\<lambda>c. bd_next (bdescs ?s c)"
  have li: "linked ?nx (bdir_chain s i) (ys @ b # zs)" "distinct (ys @ b # zs)" using l i unfolding lists_ok_def by metis+
  have dj: "set (C k) \<inter> set (ys @ b # zs) = {}" if "k < 9" "k \<noteq> i" for k using l i that unfolding lists_ok_def by metis
  have b: "b \<noteq> 0" "b \<in> buckets C" using linked_nonzero[OF li(1)] i by (auto simp: buckets_def intro!: bexI[of _ i])
  have p: "?p = 0 \<longleftrightarrow> ys = []" using linked_nonzero[OF li(1), of "last ys"] by auto
  have pb: "?p \<noteq> b" using li(2) b(1) by auto
  note f = drop_bucket_fields[OF pb, of i s]
  have B: "buckets ?C = buckets C - {b}"
  proof -
    have "c \<in> set (?C k) \<longleftrightarrow> c \<in> set (C k) \<and> c \<noteq> b" if "k < 9" for c k using that i(2) li(2) dj[OF that] by auto
    then show ?thesis unfolding buckets_def by auto
  qed
  have Fb: "b \<notin> set F" "?p \<notin> set F \<or> ?p = 0"
  proof -
    show "b \<notin> set F" using l b(2) unfolding lists_ok_def by blast
    have "ys \<noteq> [] \<Longrightarrow> last ys \<in> buckets C" using i by (auto simp: buckets_def intro!: bexI[of _ i])
    then show "?p \<notin> set F \<or> ?p = 0" using l unfolding lists_ok_def by auto
  qed
  have F: "linked ?nx' (free_bucket_desc ?s) (b # F)"
  proof -
    have "linked ?nx' (free_bucket_desc s) F \<longleftrightarrow> linked ?nx (free_bucket_desc s) F" by (rule linked_cong) (use Fb f(4) in auto)
    then show ?thesis using l b(1) f(4,6) by (simp add: lists_ok_def)
  qed
  have "linked ?nx' (bdir_chain ?s k) (?C k)" if k: "k < 9" for k
  proof (cases "k = i")
    case True
    show ?thesis
    proof (cases "ys = []")
      case Y: True
      have "linked ?nx' (?nx b) zs \<longleftrightarrow> linked ?nx (?nx b) zs" by (rule linked_cong) (use li(2) f(4) Y in auto)
      then show ?thesis using True Y f(5) li(1) by simp
    next
      case Y: False
      have "linked (?nx(last ys := ?nx b)) (bdir_chain s i) (ys @ zs)" by (rule linked_remove[OF li Y])
      moreover have "linked ?nx' a (ys @ zs) \<longleftrightarrow> linked (?nx(last ys := ?nx b)) a (ys @ zs)" for a
        by (rule linked_cong) (use li(2) f(4) Y p in auto)
      ultimately show ?thesis using True Y f(5) p by simp
    qed
  next
    case False
    have "linked ?nx' (bdir_chain s k) (C k) \<longleftrightarrow> linked ?nx (bdir_chain s k) (C k)"
    proof (rule linked_cong)
      fix c assume "c \<in> set (C k)"
      then have "c \<notin> set (ys @ b # zs)" using dj[OF k False] by auto
      then have "c \<noteq> b" "\<not> (?p \<noteq> 0 \<and> c = ?p)" by auto
      then show "?nx' c = ?nx c" using f(4)[of c] by metis
    qed
    moreover have "bdir_chain ?s k = bdir_chain s k" using f(5) False by simp
    ultimately show ?thesis using l k False by (simp add: lists_ok_def)
  qed
  moreover have "distinct (?C k)" if "k < 9" for k using l that li(2) by (auto simp: lists_ok_def)
  moreover have "set (?C k) \<inter> set (?C m) = {}" if "k < 9" "m < 9" "k \<noteq> m" for k m
  proof (cases "k = i \<or> m = i")
    case True
    then show ?thesis using dj[OF that(1)] dj[OF that(2)] that(3) by auto
  next
    case False
    then show ?thesis using l that unfolding lists_ok_def by simp
  qed
  moreover have "distinct (b # F)" "buckets ?C \<inter> set (b # F) = {}" using l Fb(1) unfolding B lists_ok_def by auto
  ultimately show ?thesis using F by (simp only: lists_ok_def) blast
qed

lemma drop_bucket_ok:
  assumes h: "heap_ok C F U s" and i: "i < 9" "C i = ys @ b # zs" and r: "bd_refcnt (bdescs s b) = 0"
  shows "heap_ok (C(i := ys @ zs)) (b # F) U (drop_bucket i (last (0 # ys)) b s)"
    "live_objs (C(i := ys @ zs)) U (drop_bucket i (last (0 # ys)) b s) = live_objs C U s" "buckets (C(i := ys @ zs)) = buckets C - {b}"
proof -
  let ?p = "last (0 # ys)" and ?C = "C(i := ys @ zs)"
  let ?s = "drop_bucket i ?p b s"
  have l: "lists_ok C F s" and pg: "pages_ok C F s" using h by (simp_all add: heap_ok_def)
  have li: "linked (\<lambda>c. bd_next (bdescs s c)) (bdir_chain s i) (ys @ b # zs)" "distinct (ys @ b # zs)" using l i unfolding lists_ok_def by metis+
  have bC: "b \<in> set (C i)" "b \<in> buckets C" using i by (auto simp: buckets_def intro!: bexI[of _ i])
  have bo: "bucket_ok i b (U b) s" by (rule heap_bucket[OF h i(1) bC(1)])
  then obtain j where j: "j < 3840" "bd_page (bdescs s b) = page_addr j" "mem_map s j = 1" "page_addr j < HIGH_MEMORY s"
    by (auto simp: bucket_ok_def)
  have pb: "?p \<noteq> b" using li(2) linked_nonzero[OF li(1), of b] by auto
  note f = drop_bucket_fields[OF pb, of i s]
  have mm: "mem_map ?s = (mem_map s)(j := 0)" using f(9) j by simp
  have sub: "c \<in> set (?C k) \<longleftrightarrow> c \<in> set (C k) \<and> c \<noteq> b" if "k < 9" for c k
  proof (cases "k = i")
    case True
    then show ?thesis using i(2) li(2) by auto
  next
    case False
    then have "b \<notin> set (C k)" using buckets_unique[OF h that i(1) _ bC(1)] by blast
    then show ?thesis using False by auto
  qed
  then show B: "buckets ?C = buckets C - {b}" unfolding buckets_def by auto
  have np: "bd_page (bdescs s c) \<noteq> page_addr j" if "c \<in> buckets C" "c \<noteq> b" for c
    using inj_onD[OF heap_page_inj[OF h] _ that(1) bC(2)] that(2) j(2) by metis
  have nd: "c AND 0xfffff000 \<noteq> page_addr j" if "c \<in> buckets C \<union> set F" for c
    using pg bC(2) that j(2) unfolding pages_ok_def by metis
  have "bucket_ok k c (U c) ?s" if c: "k < 9" "c \<in> set (?C k)" for k c
  proof -
    have c': "c \<in> set (C k)" "c \<noteq> b" "c \<in> buckets C" using sub[OF c(1)] c by (auto simp: buckets_def)
    obtain m where m: "m < 3840" "bd_page (bdescs s c) = page_addr m" "mem_map s m = 1" "page_addr m < HIGH_MEMORY s"
      using heap_bucket[OF h c(1) c'(1)] by (auto simp: bucket_ok_def)
    then have "mem_map ?s m = 1" using np[OF c'(3,2)] mm by auto
    then have "\<exists>m<3840. bd_page (bdescs s c) = page_addr m \<and> mem_map ?s m = 1 \<and> page_addr m < HIGH_MEMORY s" using m by blast
    then show ?thesis using heap_bucket[OF h c(1) c'(1)] unfolding bucket_ok_def f(1-3,7,8) by blast
  qed
  moreover have "lists_ok ?C (b # F) ?s" by (rule drop_lists[OF l i])
  moreover have "pages_ok ?C (b # F) ?s"
  proof -
    have "inj_on (\<lambda>c. bd_page (bdescs ?s c)) (buckets ?C)"
      using inj_on_subset[OF heap_page_inj[OF h], of "buckets ?C"] unfolding B f(1) by blast
    moreover have "desc_home c ?s" if "c \<in> buckets C \<union> set F" for c
    proof -
      have "desc_home c s" using pg that unfolding pages_ok_def by blast
      then show ?thesis using nd[OF that] mm unfolding desc_home_def by auto
    qed
    moreover have "d AND 0xfffff000 \<noteq> bd_page (bdescs ?s c)" if "c \<in> buckets ?C" "d \<in> buckets C \<union> set F" for c d
      using pg that unfolding pages_ok_def B f(1) by blast
    moreover have "page_addr k < HIGH_MEMORY ?s" if "k < 3840" "mem_map ?s k = 0" for k
      using that pg j(4) mm f(8) by (auto simp: pages_ok_def split: if_splits)
    ultimately show ?thesis using bC(2) unfolding pages_ok_def B by auto
  qed
  ultimately show "heap_ok ?C (b # F) U ?s" by (simp add: heap_ok_def)
  have "card (set (U b)) = card (objs i (page_addr j))" using bo r card_objs[OF i(1) j(1)] by (simp add: bucket_ok_def distinct_card)
  then have "set (U b) = objs i (bd_page (bdescs s b))"
    using bo j(2) by (intro card_subset_eq) (auto simp: bucket_ok_def objs_def)
  then have "x \<in> objs k (bd_page (bdescs s c)) - set (U c) \<Longrightarrow> k < 9 \<Longrightarrow> c \<in> set (C k) \<Longrightarrow> c \<noteq> b" for x k c
    using buckets_unique[OF h i(1) _ bC(1)] by blast
  note nb = this
  have "(x, k) \<in> live_objs ?C U ?s \<longleftrightarrow> (x, k) \<in> live_objs C U s" for x k
  proof (cases "k < 9")
    case True
    show ?thesis unfolding live_objs_def f(1) using sub[OF True] nb[OF _ True] True by blast
  qed (simp add: live_objs_def)
  then show "live_objs ?C U ?s = live_objs C U s" by auto
qed

text \<open>A bucket counts no object exactly when no object in use lies in its page.\<close>

lemma empty_bucket_iff:
  assumes h: "heap_ok C F U s" and i: "i < 9" "b \<in> set (C i)"
  shows "(\<exists>(y, k)\<in>live_objs C U s. y AND 0xfffff000 = bd_page (bdescs s b)) \<longleftrightarrow> bd_refcnt (bdescs s b) \<noteq> 0"
proof -
  obtain j where j: "j < 3840" "bd_page (bdescs s b) = page_addr j" using heap_bucket[OF h i] by (auto simp: bucket_ok_def)
  have u: "distinct (U b)" "set (U b) \<subseteq> objs i (page_addr j)" "length (U b) + unat (bd_refcnt (bdescs s b)) = card (objs i (page_addr j))"
    using heap_bucket[OF h i] j card_objs[OF i(1) j(1)] by (auto simp: bucket_ok_def)
  have "finite (objs i (page_addr j))" by (simp add: objs_def)
  then have "objs i (page_addr j) - set (U b) = {} \<longleftrightarrow> card (objs i (page_addr j)) \<le> card (set (U b))"
    using u(2) by (metis Diff_eq_empty_iff card_mono card_seteq finite_subset)
  also have "\<dots> \<longleftrightarrow> bd_refcnt (bdescs s b) = 0" using u(3) unat_eq_zero[of "bd_refcnt (bdescs s b)"] unfolding distinct_card[OF u(1)] by linarith
  finally have e: "objs i (page_addr j) - set (U b) = {} \<longleftrightarrow> bd_refcnt (bdescs s b) = 0" .
  have "(y, k) \<in> live_objs C U s \<and> y AND 0xfffff000 = page_addr j \<longleftrightarrow> k = i \<and> y \<in> objs i (page_addr j) - set (U b)" for y k
  proof
    assume y: "(y, k) \<in> live_objs C U s \<and> y AND 0xfffff000 = page_addr j"
    then obtain c where c: "k < 9" "c \<in> set (C k)" "y \<in> objs k (bd_page (bdescs s c)) - set (U c)" by (auto simp: live_objs_def)
    then have "bd_page (bdescs s c) = bd_page (bdescs s b)"
      using heap_bucket[OF h c(1,2)] frame_objs[OF c(1)] y j(2) unfolding bucket_ok_def by (metis Diff_iff)
    moreover have "b \<in> buckets C" "c \<in> buckets C" using i c by (auto simp: buckets_def)
    ultimately have "c = b" using inj_onD[OF heap_page_inj[OF h]] by metis
    then show "k = i \<and> y \<in> objs i (page_addr j) - set (U b)" using buckets_unique[OF h c(1) i(1) _ i(2)] c j(2) by auto
  next
    assume "k = i \<and> y \<in> objs i (page_addr j) - set (U b)"
    then show "(y, k) \<in> live_objs C U s \<and> y AND 0xfffff000 = page_addr j" using i j frame_objs[OF i(1) j(1)] by (auto simp: live_objs_def intro!: bexI[of _ b])
  qed
  then show ?thesis using e j(2) by auto
qed

text \<open>Any live object can be released, with its size or with 0 for an unknown one.\<close>

lemma free_s_releases:
  assumes m: "malloc_heap L s" and x: "(x, i) \<in> L" and sz: "sz \<le> int (bucket_dir ! i)"
  shows "\<exists>s'. free_s x sz s = Ok () s' \<and> malloc_heap (L - {(x, i)}) s' \<and>
    (if \<exists>(y, k)\<in>L - {(x, i)}. y AND 0xfffff000 = x AND 0xfffff000
     then mem_map s' = mem_map s \<and> free_bucket_desc s' = free_bucket_desc s
     else mem_map s (MAP_NR (x AND 0xfffff000)) = 1 \<and> mem_map s' = (mem_map s)(MAP_NR (x AND 0xfffff000) := 0) \<and>
       free_bucket_desc s' \<noteq> 0 \<and> bd_page (bdescs s' (free_bucket_desc s')) = x AND 0xfffff000 \<and>
       bd_next (bdescs s' (free_bucket_desc s')) = free_bucket_desc s)"
proof -
  obtain C F U where h: "heap_ok C F U s" and L: "L = live_objs C U s" and r: "\<forall>b\<in>buckets C. bd_refcnt (bdescs s b) \<noteq> 0"
    using m by (auto simp: malloc_heap_def)
  obtain b where i: "i < 9" "b \<in> set (C i)" and xo: "x \<in> objs i (bd_page (bdescs s b))" "x \<notin> set (U b)"
    using x L by (auto simp: live_objs_def)
  obtain ys zs where c: "C i = ys @ b # zs" using split_list[OF i(2)] by blast
  have "\<exists>j<3840. bd_page (bdescs s b) = page_addr j" using heap_bucket[OF h i] by (auto simp: bucket_ok_def)
  then have pg: "x AND 0xfffff000 = bd_page (bdescs s b)" using frame_objs[OF i(1)] xo(1) by auto
  have fb: "find_bucket 9 0 sz (x AND 0xfffff000) s = Ok (Some (i, last (0 # ys), b)) s"
    unfolding pg by (rule find_bucket_hit[OF h i(1) c sz]) simp_all
  let ?s = "put_obj x b s"
  note p = put_obj_ok[OF h i xo]
  have fs: "free_s x sz s = (if bd_refcnt (bdescs ?s b) = 0 then unlink_bucket i (last (0 # ys)) b ?s else Ok () ?s)"
    using fb by (simp add: free_s_def Let_def put_obj_def store_def upd_bdesc_def)
  have ro: "bd_refcnt (bdescs ?s c) \<noteq> 0" if "c \<in> buckets C" "c \<noteq> b" for c using r that by simp
  obtain j where j: "j < 3840" "bd_page (bdescs s b) = page_addr j" "mem_map s j = 1" using heap_bucket[OF h i] by (auto simp: bucket_ok_def)
  have others: "(\<exists>(y, k)\<in>L - {(x, i)}. y AND 0xfffff000 = x AND 0xfffff000) \<longleftrightarrow> bd_refcnt (bdescs ?s b) \<noteq> 0"
    using empty_bucket_iff[OF p(1) i] p(2) L pg by simp
  show ?thesis
  proof (cases "bd_refcnt (bdescs ?s b) = 0")
    case True
    let ?t = "drop_bucket i (last (0 # ys)) b ?s"
    have t: "free_s x sz s = Ok () ?t" using fs True unlink_bucket_drop[OF p(1) i(1) c] by simp
    note d = drop_bucket_ok[OF p(1) i(1) c True]
    have "last (0 # ys) \<noteq> b"
    proof -
      have "linked (\<lambda>b. bd_next (bdescs s b)) (bdir_chain s i) (C i)" "distinct (C i)" using h i(1) by (simp_all add: heap_ok_def lists_ok_def)
      then show ?thesis using linked_nonzero i(2) c by auto
    qed
    note f = drop_bucket_fields[OF this, of i ?s]
    have "malloc_heap (live_objs C (U(b := x # U b)) ?s) ?t"
      unfolding malloc_heap_def using d(1,2,3) ro f(3) by (metis DiffE insertI1)
    moreover have "mem_map ?t = (mem_map s)(MAP_NR (x AND 0xfffff000) := 0)" "free_bucket_desc ?t = b" "bd_page (bdescs ?t b) = x AND 0xfffff000"
      "bd_next (bdescs ?t b) = free_bucket_desc s" "mem_map s (MAP_NR (x AND 0xfffff000)) = 1"
      using f pg j by simp_all
    moreover have "b \<noteq> 0" using h i linked_nonzero by (force simp: heap_ok_def lists_ok_def)
    ultimately show ?thesis using t p(2) L others True by simp
  next
    case False
    then have "\<forall>c\<in>buckets C. bd_refcnt (bdescs ?s c) \<noteq> 0" using ro by metis
    then have "malloc_heap (L - {(x, i)}) ?s" unfolding malloc_heap_def using p L by blast
    then show ?thesis using fs False others by simp
  qed
qed

subsection \<open>The contract\<close>

lemma live_extent:
  assumes "malloc_heap L s" "(x, i) \<in> L"
  shows "i < 9 \<and> (\<exists>j k. j < 3840 \<and> k < 4096 div bucket_dir ! i \<and> x = obj i (page_addr j) k)"
proof -
  obtain C F U where h: "heap_ok C F U s" and L: "L = live_objs C U s" using assms(1) by (auto simp: malloc_heap_def)
  obtain b where b: "i < 9" "b \<in> set (C i)" "x \<in> objs i (bd_page (bdescs s b))" using assms(2) L by (auto simp: live_objs_def)
  obtain j where "j < 3840" "bd_page (bdescs s b) = page_addr j" using heap_bucket[OF h b(1,2)] by (auto simp: bucket_ok_def)
  then show ?thesis using b by (auto simp: objs_def)
qed

lemma live_same_class:
  assumes "malloc_heap L s" "(x, i) \<in> L" "(y, k) \<in> L" "x AND 0xfffff000 = y AND 0xfffff000"
  shows "i = k"
proof -
  obtain C F U where h: "heap_ok C F U s" and L: "L = live_objs C U s" using assms(1) by (auto simp: malloc_heap_def)
  obtain b where b: "i < 9" "b \<in> set (C i)" "x \<in> objs i (bd_page (bdescs s b))" using assms(2) L by (auto simp: live_objs_def)
  obtain c where c: "k < 9" "c \<in> set (C k)" "y \<in> objs k (bd_page (bdescs s c))" using assms(3) L by (auto simp: live_objs_def)
  have "bd_page (bdescs s b) = x AND 0xfffff000" "bd_page (bdescs s c) = y AND 0xfffff000"
    using heap_bucket[OF h b(1,2)] heap_bucket[OF h c(1,2)] frame_objs b c unfolding bucket_ok_def by metis+
  moreover have "b \<in> buckets C" "c \<in> buckets C" using b c by (auto simp: buckets_def)
  ultimately have "b = c" using inj_onD[OF heap_page_inj[OF h]] assms(4) by metis
  then show ?thesis using buckets_unique[OF h b(1) c(1)] b(2) c(2) by simp
qed

lemma slots_apart:
  fixes k l n :: nat
  assumes "k \<noteq> l"
  shows "k * n + n \<le> l * n \<or> l * n + n \<le> k * n"
proof -
  have "Suc k \<le> l \<or> Suc l \<le> k" using assms by linarith
  then have "Suc k * n \<le> l * n \<or> Suc l * n \<le> k * n" using mult_le_mono1 by blast
  then show ?thesis by (simp add: add.commute)
qed

lemma live_disjoint:
  assumes m: "malloc_heap L s" and x: "(x, i) \<in> L" and y: "(y, k) \<in> L" and ne: "(x, i) \<noteq> (y, k)"
  shows "unat x + bucket_dir ! i \<le> unat y \<or> unat y + bucket_dir ! k \<le> unat x"
proof -
  obtain j a where a: "i < 9" "j < 3840" "a < 4096 div bucket_dir ! i" "x = obj i (page_addr j) a" using live_extent[OF m x] by blast
  obtain l b where b: "k < 9" "l < 3840" "b < 4096 div bucket_dir ! k" "y = obj k (page_addr l) b" using live_extent[OF m y] by blast
  have u: "unat x = j * 4096 + 0x100000 + a * bucket_dir ! i" "unat y = l * 4096 + 0x100000 + b * bucket_dir ! k"
    using unat_obj[OF a(1,3,2)] unat_obj[OF b(1,3,2)] a(4) b(4) by auto
  show ?thesis
  proof (cases "j = l")
    case True
    have "x AND 0xfffff000 = y AND 0xfffff000" using frame_obj[OF a(1,3,2)] frame_obj[OF b(1,3,2)] a(4) b(4) True by simp
    then have "i = k" by (rule live_same_class[OF m x y])
    moreover have "a \<noteq> b" using ne a(4) b(4) True \<open>i = k\<close> by auto
    ultimately show ?thesis using slots_apart[of a b "bucket_dir ! i"] u True by auto
  next
    case False
    have "a * bucket_dir ! i + bucket_dir ! i \<le> 4096" "b * bucket_dir ! k + bucket_dir ! k \<le> 4096"
      using obj_offset[OF a(1,3)] obj_offset[OF b(1,3)] by auto
    moreover have "j * 4096 + 4096 \<le> l * 4096 \<or> l * 4096 + 4096 \<le> j * 4096" using slots_apart[OF False] .
    ultimately show ?thesis using u by linarith
  qed
qed

locale allocator =
  fixes heap :: "(u32 \<times> nat) set \<Rightarrow> 's \<Rightarrow> bool"
    and alloc :: "u32 \<Rightarrow> 's \<Rightarrow> (u32, 's) kres"
    and dealloc :: "u32 \<Rightarrow> int \<Rightarrow> 's \<Rightarrow> (unit, 's) kres"
    and room :: "'s \<Rightarrow> bool"
    and class_of :: "u32 \<Rightarrow> nat"
    and extent :: "nat \<Rightarrow> nat"
  assumes alloc_outcome: "heap L s \<Longrightarrow> len \<le> 4096 \<Longrightarrow>
      (case alloc len s of
        Ok x s' \<Rightarrow> heap (insert (x, class_of len) L) s' \<and> (x, class_of len) \<notin> L
      | Panic msg s' \<Rightarrow> \<not> room s
      | _ \<Rightarrow> False)"
    and dealloc_removes: "heap L s \<Longrightarrow> (x, c) \<in> L \<Longrightarrow> sz \<le> int (extent c) \<Longrightarrow> \<exists>s'. dealloc x sz s = Ok () s' \<and> heap (L - {(x, c)}) s'"
    and apart: "heap L s \<Longrightarrow> (x, c) \<in> L \<Longrightarrow> (y, d) \<in> L \<Longrightarrow> (x, c) \<noteq> (y, d) \<Longrightarrow> unat x + extent c \<le> unat y \<or> unat y + extent d \<le> unat x"
    and class_fits: "len \<le> 4096 \<Longrightarrow> unat len \<le> extent (class_of len)"
begin

lemma alloc_fresh:
  assumes "heap L s" "len \<le> 4096" "room s"
  shows "\<exists>x s'. alloc len s = Ok x s' \<and> heap (insert (x, class_of len) L) s' \<and> (x, class_of len) \<notin> L"
  using alloc_outcome[OF assms(1,2)] assms(3) by (cases "alloc len s") auto

text \<open>A new object holds the request and overlaps no object in use; only a lack of room stops an allocation.\<close>

lemma alloc_separate:
  assumes "heap L s" "len \<le> 4096"
  shows "case alloc len s of
      Ok x s' \<Rightarrow> heap (insert (x, class_of len) L) s' \<and> (\<forall>(y, d)\<in>L. unat x + unat len \<le> unat y \<or> unat y + extent d \<le> unat x)
    | Panic msg s' \<Rightarrow> \<not> room s
    | _ \<Rightarrow> False"
proof (cases "alloc len s")
  case (Ok x s')
  then have x: "heap (insert (x, class_of len) L) s'" "(x, class_of len) \<notin> L" using alloc_outcome[OF assms] by simp_all
  have "unat x + unat len \<le> unat y \<or> unat y + extent d \<le> unat x" if "(y, d) \<in> L" for y d
  proof -
    have "(x, class_of len) \<noteq> (y, d)" using that x(2) by blast
    then have "unat x + extent (class_of len) \<le> unat y \<or> unat y + extent d \<le> unat x"
      using apart[OF x(1), of x "class_of len" y d] that by blast
    then show ?thesis using class_fits[OF assms(2)] by linarith
  qed
  then show ?thesis using Ok x(1) by auto
qed (use alloc_outcome[OF assms] in simp_all)

text \<open>What was allocated can be released again, which undoes the allocation.\<close>

lemma alloc_dealloc:
  assumes "heap L s" "len \<le> 4096" "room s"
  shows "\<exists>x s' s''. alloc len s = Ok x s' \<and> dealloc x 0 s' = Ok () s'' \<and> heap L s''"
proof -
  obtain x s' where x: "alloc len s = Ok x s'" "heap (insert (x, class_of len) L) s'" "(x, class_of len) \<notin> L"
    using alloc_fresh[OF assms] by blast
  obtain s'' where "dealloc x 0 s' = Ok () s''" "heap (insert (x, class_of len) L - {(x, class_of len)}) s''"
    using dealloc_removes[OF x(2), of x "class_of len" 0] by auto
  then show ?thesis using x by auto
qed

end

interpretation kmalloc: allocator malloc_heap malloc free_s "\<lambda>s. 2 \<le> free_pages s" bucket_for "\<lambda>i. bucket_dir ! i"
proof
  show "malloc_heap L s \<Longrightarrow> len \<le> 4096 \<Longrightarrow>
      (case malloc len s of
        Ok x s' \<Rightarrow> malloc_heap (insert (x, bucket_for len) L) s' \<and> (x, bucket_for len) \<notin> L
      | Panic msg s' \<Rightarrow> \<not> 2 \<le> free_pages s
      | _ \<Rightarrow> False)"
    for L len and s :: "'a malloc_state_scheme" by (rule malloc_outcomes)
  show "malloc_heap L s \<Longrightarrow> (x, c) \<in> L \<Longrightarrow> sz \<le> int (bucket_dir ! c) \<Longrightarrow> \<exists>s'. free_s x sz s = Ok () s' \<and> malloc_heap (L - {(x, c)}) s'"
    for L x c sz and s :: "'a malloc_state_scheme" using free_s_releases by blast
  show "malloc_heap L s \<Longrightarrow> (x, c) \<in> L \<Longrightarrow> (y, d) \<in> L \<Longrightarrow> (x, c) \<noteq> (y, d) \<Longrightarrow>
      unat x + bucket_dir ! c \<le> unat y \<or> unat y + bucket_dir ! d \<le> unat x"
    for L x c y d and s :: "'a malloc_state_scheme" by (rule live_disjoint)
  show "len \<le> 4096 \<Longrightarrow> unat len \<le> bucket_dir ! bucket_for len" for len by (rule bucket_for_fits(3))
qed

text \<open>The allocator at start-up.\<close>

lemma malloc_heap_init:
  assumes "\<forall>i. bdir_chain s i = 0" "free_bucket_desc s = 0" "\<forall>j<PAGING_PAGES. mem_map s j = 0 \<longrightarrow> page_addr j < HIGH_MEMORY s"
  shows "malloc_heap {} s"
proof -
  have "heap_ok (\<lambda>_. []) [] U s" for U using assms by (simp add: heap_ok_def lists_ok_def pages_ok_def buckets_def)
  moreover have "live_objs (\<lambda>_. []) U s = {}" for U by (simp add: live_objs_def)
  ultimately show ?thesis unfolding malloc_heap_def by (metis (no_types) buckets_def empty_iff UN_E set_empty2)
qed

subsection \<open>Properties\<close>

text \<open>C7. Allocation. From a sound allocator state, \<open>malloc\<close> of more than 4096 bytes is the panic for a bad argument. Of up to 4096 bytes it returns an
  object that lies apart from every object in use, and the allocator's state stays sound with exactly this object added (in particular no address is handed
  out twice); or it panics, which happens only when fewer than two pages are free. Its searches always end, and nothing else can happen.\<close>

theorem malloc_separate:
  assumes "malloc_heap L s"
  shows "if len > 4096 then \<exists>s'. malloc len s = Panic ''malloc: bad arg'' s'
    else case malloc len s of
      Ok x s' \<Rightarrow> malloc_heap (insert (x, bucket_for len) L) s' \<and>
        (\<forall>(y, d)\<in>L. unat x + unat len \<le> unat y \<or> unat y + bucket_dir ! d \<le> unat x)
    | Panic msg s' \<Rightarrow> \<not> 2 \<le> free_pages s
    | _ \<Rightarrow> False"
proof (cases "len > 4096")
  case True
  have "find (\<lambda>i. of_nat (bucket_dir ! i) \<ge> len) [0..<NR_BUCKETS] = None"
  proof (subst find_None_iff, rule notI, elim exE conjE)
    fix i assume i: "i \<in> set [0..<NR_BUCKETS]" "len \<le> of_nat (bucket_dir ! i)"
    have "(of_nat (bucket_dir ! i) :: u32) \<le> 4096"
      using bucket_sizes(3)[of i] i(1) by (simp add: word_le_nat_alt unat_of_nat take_bit_nat_eq_self)
    then show False using i(2) True by simp
  qed
  then show ?thesis using True by (simp add: malloc_def)
next
  case False
  then show ?thesis using kmalloc.alloc_separate[OF assms, of len] by simp
qed

text \<open>C30. Release. \<open>free_s\<close> of any object in use, with a size that is 0 or at most that of its bucket, returns and removes exactly this object;
  all others stay in use. While another object in use lies in its page, the map of memory is unchanged. When the last one goes, the page, which had one user, is
  free again, and its descriptor heads the list of unused ones, followed by the old list.\<close>

theorem free_releases:
  assumes "malloc_heap L s" "(x, i) \<in> L" "sz \<le> int (bucket_dir ! i)"
  shows "\<exists>s'. free_s x sz s = Ok () s' \<and> malloc_heap (L - {(x, i)}) s' \<and>
    (if \<exists>(y, k)\<in>L - {(x, i)}. y AND 0xfffff000 = x AND 0xfffff000
     then mem_map s' = mem_map s \<and> free_bucket_desc s' = free_bucket_desc s
     else mem_map s (MAP_NR (x AND 0xfffff000)) = 1 \<and> mem_map s' = (mem_map s)(MAP_NR (x AND 0xfffff000) := 0) \<and>
       free_bucket_desc s' \<noteq> 0 \<and> bd_page (bdescs s' (free_bucket_desc s')) = x AND 0xfffff000 \<and>
       bd_next (bdescs s' (free_bucket_desc s')) = free_bucket_desc s)"
  by (rule free_s_releases[OF assms])

text \<open>A kernel with 15 MB above the first and an empty allocator.\<close>

definition demo_heap :: malloc_state where
  "demo_heap = \<lparr>mem_map = (\<lambda>_. 0), phys = (\<lambda>_. 0), HIGH_MEMORY = 0x1000000, klog = [], cr3_loads = 0,
     bdescs = (\<lambda>_. no_bucket), bdir_chain = (\<lambda>_. 0), free_bucket_desc = 0\<rparr>"

lemma demo_heap_ok: "malloc_heap {} demo_heap"
  by (rule malloc_heap_init) (simp_all add: demo_heap_def page_addr_lt)

lemma demo_heap_free: "2 \<le> free_pages demo_heap"
  by (simp add: free_pages_def demo_heap_def)

theorem malloc_separate_witness:
  "\<exists>x s'. malloc 100 demo_heap = Ok x s' \<and> malloc_heap {(x, bucket_for 100)} s'"
  using malloc_separate[OF demo_heap_ok, of 100] demo_heap_free by (cases "malloc 100 demo_heap") simp_all

theorem free_releases_witness:
  "\<exists>x s' s''. malloc 100 demo_heap = Ok x s' \<and> free_s x 100 s' = Ok () s'' \<and> malloc_heap {} s'' \<and> mem_map s'' (MAP_NR (x AND 0xfffff000)) = 0 \<and>
     bd_page (bdescs s'' (free_bucket_desc s'')) = x AND 0xfffff000"
proof -
  obtain x s' where x: "malloc 100 demo_heap = Ok x s'" "malloc_heap {(x, bucket_for 100)} s'"
    using kmalloc.alloc_fresh[OF demo_heap_ok _ demo_heap_free, of 100] by auto
  have "(100 :: int) \<le> int (bucket_dir ! bucket_for 100)" using bucket_for_fits(3)[of 100] by simp
  then show ?thesis using free_releases[OF x(2), of x "bucket_for 100" 100] x(1) by auto
qed

end
