(* ===== verification/Mm_Demand.thy ===== *)
theory Mm_Demand
  imports Fs_Files
begin

text \<open>
  Demand loading: \<open>try_to_share\<close>, \<open>share_page\<close> and \<open>do_no_page\<close> of src/mm/memory.c, which read the executable through the file system.
  A task is named by its slot. \<open>oom\<close> does not return: it ends the task (\<open>Exit\<close>).
\<close>

definition share_dir :: "u32 \<Rightarrow> u32 \<Rightarrow> u32" where
  "share_dir address start = (drop_bit 20 address AND 0xffc) + (drop_bit 20 start AND 0xffc)"

definition try_to_share :: "u32 \<Rightarrow> nat \<Rightarrow> 'z sched_state_scheme \<Rightarrow> (bool, 'z sched_state_scheme) kres" where
  "try_to_share address p s =
     (let from_dir = share_dir address (start_code (the (task s p)));
          to_dir = share_dir address (start_code (cur s)) in
      if \<not> present (load s from_dir) then Ok False s
      else
        let from_page = frame (load s from_dir) + (drop_bit 10 address AND 0xffc);
            phys_addr = load s from_page in
        if phys_addr AND 0x41 \<noteq> 1 then Ok False s
        else
          let phys_addr = frame phys_addr in
          if phys_addr \<ge> HIGH_MEMORY s \<or> phys_addr < LOW_MEM then Ok False s
          else
            bindk (if present (load s to_dir) then Ok (load s to_dir) s
                   else
                     let (to, s) = get_free_page s
                     in if to \<noteq> 0 then Ok to (store to_dir (to OR 7) s) else oom s) (\<lambda>to s.
              let to_page = frame to + (drop_bit 10 address AND 0xffc) in
              if present (load s to_page) then Panic ''try_to_share: to_page already exists'' s
              else
                let s = store from_page (write_protect (load s from_page)) s;
                    s = invalidate (store to_page (load s from_page) s);
                    i = MAP_NR phys_addr in
                if \<not> i < PAGING_PAGES then Fault s
                else Ok True (s\<lparr>mem_map := (mem_map s)(i := mem_map s i + 1)\<rparr>)))"

text \<open>The loop of \<open>share_page\<close> from slot \<open>n\<close> down to slot 1.\<close>

primrec share_loop :: "nat \<Rightarrow> u32 \<Rightarrow> 'z sched_state_scheme \<Rightarrow> (bool, 'z sched_state_scheme) kres" where
  "share_loop 0 address s = Ok False s"
| "share_loop (Suc n) address s =
     (case task s (Suc n) of
        None \<Rightarrow> share_loop n address s
      | Some p \<Rightarrow>
          if current s = Suc n \<or> executable p \<noteq> executable (cur s) then share_loop n address s
          else bindk (try_to_share address (Suc n) s) (\<lambda>r s. if r then Ok True s else share_loop n address s))"

definition share_page :: "u32 \<Rightarrow> 'z fs_state_scheme \<Rightarrow> (bool, 'z fs_state_scheme) kres" where
  "share_page address s =
     (case executable (cur s) of
        None \<Rightarrow> Ok False s
      | Some i \<Rightarrow> if i_count (inode_table s i) < 2 then Ok False s else share_loop (NR_TASKS - 1) address s)"

text \<open>\<open>while (i-- > 0) { tmp--; *(char *)tmp = 0; }\<close>\<close>

primrec clear_tail :: "nat \<Rightarrow> u32 \<Rightarrow> 'z mm_state_scheme \<Rightarrow> 'z mm_state_scheme" where
  "clear_tail 0 tmp s = s"
| "clear_tail (Suc i) tmp s = clear_tail i (tmp - 1) (put_phys_byte (tmp - 1) 0 s)"

definition oomp :: "('a, 'z mm_state_scheme) proc" where
  "oomp = (\<lambda>w s. oom s)"

definition do_no_page :: "u32 \<Rightarrow> u32 \<Rightarrow> (unit, 'z fs_state_scheme) proc" where
  "do_no_page error_code address =
     (let address = address AND 0xfffff000 in
      bindp (getp (\<lambda>s. (executable (cur s), address - start_code (cur s), end_data (cur s)))) (\<lambda>(ex, tmp, ed).
        case ex of
          None \<Rightarrow> liftp (get_empty_page address)
        | Some inode \<Rightarrow>
            if tmp \<ge> ed then liftp (get_empty_page address)
            else
              bindp (liftp (share_page tmp)) (\<lambda>shared.
                if shared then retp ()
                else
                  bindp (callp get_free_page) (\<lambda>page.
                    if page = 0 then oomp
                    else
                      let block = 1 + int (unat tmp div 1024) in
                      bindp (bmap inode block) (\<lambda>n0.
                      bindp (bmap inode (block + 1)) (\<lambda>n1.
                      bindp (bmap inode (block + 2)) (\<lambda>n2.
                      bindp (bmap inode (block + 3)) (\<lambda>n3.
                      bindp (getp (\<lambda>s. i_dev (inode_table s inode))) (\<lambda>dev.
                      seqp (bread_page page dev (map ucast [n0, n1, n2, n3]))
                      (seqp (modp (clear_tail (nat (s32 (uint tmp + 4096 - uint ed))) (page + 4096)))
                        (bindp (liftp (put_page page address)) (\<lambda>r.
                          if r \<noteq> 0 then retp ()
                          else seqp (liftp (free_page page)) oomp))))))))))))"

end
