(* ===== verification/Fs_Exec.thy ===== *)
theory Fs_Exec
  imports Fs_Open
begin

text \<open>
  Executing programs: src/fs/exec.c. The strings of the arguments and of the environment are copied, from the end, into up to 32 pages (\<open>page\<close>),
  which become the top of the new address space. Where the code switches \<open>fs\<close> between user and kernel data, the model takes the function that reads a
  byte as an argument. \<open>user\<close> is the data segment of the running task: \<open>change_ldt\<close> replaces it by the argument pages and, below them,
  by \<open>fresh\<close>, what the page faults of the new program bring in (\<open>do_no_page\<close>). \<open>cs\<close> is \<open>eip[1]\<close>; the new \<open>eip[0]\<close> and
  \<open>eip[3]\<close> are part of the result. Strings that do not end within \<open>fuel\<close> bytes are a loop that does not end.
\<close>

record exec =
  a_magic :: u32
  a_text :: u32
  a_data :: u32
  a_bss :: u32
  a_syms :: u32
  a_entry :: u32
  a_trsize :: u32
  a_drsize :: u32

abbreviation (input) ZMAGIC :: u32 where "ZMAGIC \<equiv> 0x10b"
abbreviation (input) MAX_ARG_PAGES :: nat where "MAX_ARG_PAGES \<equiv> 32"
abbreviation (input) ENOEXEC :: int where "ENOEXEC \<equiv> 8"
abbreviation (input) S_ISUID :: u16 where "S_ISUID \<equiv> 0x800"
abbreviation (input) S_ISGID :: u16 where "S_ISGID \<equiv> 0x400"

definition decode_exec :: "block \<Rightarrow> exec" where
  "decode_exec d = \<lparr>a_magic = get_u32 d 0, a_text = get_u32 d 4, a_data = get_u32 d 8, a_bss = get_u32 d 12, a_syms = get_u32 d 16,
     a_entry = get_u32 d 20, a_trsize = get_u32 d 24, a_drsize = get_u32 d 28\<rparr>"

definition N_TXTOFF :: "exec \<Rightarrow> u32" where
  "N_TXTOFF ex = (if a_magic ex = ZMAGIC then 1024 - 32 + 32 else 32)"

subsection \<open>The tables of arguments\<close>

text \<open>\<open>while (get_fs_byte(p++))\<close>: the address behind the string.\<close>

primrec skip_string :: "nat \<Rightarrow> u32 \<Rightarrow> 'z sched_state_scheme \<Rightarrow> u32 option" where
  "skip_string 0 p s = None"
| "skip_string (Suc n) p s = (if get_fs_byte p s = 0 then Some (p + 1) else skip_string n (p + 1) s)"

primrec put_ptrs :: "nat \<Rightarrow> nat \<Rightarrow> u32 \<Rightarrow> u32 \<Rightarrow> 'z sched_state_scheme \<Rightarrow> (u32, 'z sched_state_scheme) kres" where
  "put_ptrs n 0 p table s = Ok p (put_fs_long 0 table s)"
| "put_ptrs n (Suc argc) p table s =
     (let s = put_fs_long p table s in
      case skip_string n p s of None \<Rightarrow> Blocked s | Some p \<Rightarrow> put_ptrs n argc p (table + 4) s)"

definition create_tables :: "nat \<Rightarrow> u32 \<Rightarrow> nat \<Rightarrow> nat \<Rightarrow> 'z sched_state_scheme \<Rightarrow> (u32, 'z sched_state_scheme) kres" where
  "create_tables n p argc envc s =
     (let envp = (p AND 0xfffffffc) - 4 * (of_nat envc + 1);
          argv = envp - 4 * (of_nat argc + 1);
          sp = argv - 12;
          s = put_fs_long (of_nat argc) sp (put_fs_long argv (sp + 4) (put_fs_long envp (sp + 8) s)) in
      bindk (put_ptrs n argc p argv s) (\<lambda>p s.
      bindk (put_ptrs n envc p envp s) (\<lambda>_ s. Ok sp s)))"

primrec count_loop :: "nat \<Rightarrow> u32 \<Rightarrow> nat \<Rightarrow> 'z sched_state_scheme \<Rightarrow> nat option" where
  "count_loop 0 tmp i s = None"
| "count_loop (Suc n) tmp i s = (if get_fs_long tmp s = 0 then Some i else count_loop n (tmp + 4) (Suc i) s)"

definition count_args :: "nat \<Rightarrow> u32 \<Rightarrow> 'z sched_state_scheme \<Rightarrow> nat option" where
  "count_args n argv s = (if argv = 0 then Some 0 else count_loop n argv 0 s)"

subsection \<open>Copying the strings\<close>

text \<open>The length with the zero, as the \<open>do\<close> loop counts it.\<close>

primrec string_len :: "nat \<Rightarrow> (u32 \<Rightarrow> 's \<Rightarrow> u8) \<Rightarrow> u32 \<Rightarrow> 's \<Rightarrow> nat option" where
  "string_len 0 get tmp s = None"
| "string_len (Suc n) get tmp s = (if get tmp s = 0 then Some 1 else map_option Suc (string_len n get (tmp + 1) s))"

text \<open>The loop over the bytes of one string. \<open>pag\<close> and \<open>offset\<close> are the current page and the position in it; an index past the array \<open>page\<close> is a
  \<open>Fault\<close>. The result says whether there was memory.\<close>

primrec copy_bytes ::
    "nat \<Rightarrow> (u32 \<Rightarrow> 'z mm_state_scheme \<Rightarrow> u8) \<Rightarrow> u32 \<Rightarrow> u32 \<Rightarrow> int \<Rightarrow> u32 \<Rightarrow> (nat \<Rightarrow> u32) \<Rightarrow> 'z mm_state_scheme
     \<Rightarrow> (bool \<times> u32 \<times> int \<times> u32 \<times> (nat \<Rightarrow> u32), 'z mm_state_scheme) kres" where
  "copy_bytes 0 get tmp p offset pag page s = Ok (True, p, offset, pag, page) s"
| "copy_bytes (Suc len) get tmp p offset pag page s =
     (let p = p - 1; tmp = tmp - 1 in
      if offset - 1 < 0
      then
        let offset = uint p mod 4096; i = unat p div 4096 in
        if i \<ge> MAX_ARG_PAGES then Fault s
        else if page i \<noteq> 0
        then copy_bytes len get tmp p offset (page i) page (put_phys_byte (page i + word_of_int offset) (get tmp s) s)
        else
          let (new, s) = get_free_page s in
          if new = 0 then Ok (False, p, offset, new, page) s
          else copy_bytes len get tmp p offset new (page(i := new)) (put_phys_byte (new + word_of_int offset) (get tmp s) s)
      else copy_bytes len get tmp p (offset - 1) pag page (put_phys_byte (pag + word_of_int (offset - 1)) (get tmp s) s))"

text \<open>The loop over the strings, from the last to the first; \<open>fetch k\<close> is the pointer \<open>argv[k]\<close>. The test \<open>p-len < 0\<close> compares an unsigned number
  with 0 and is never true. The result is \<open>p\<close>, 0 when there was no memory, and the pages.\<close>

primrec copy_args ::
    "nat \<Rightarrow> nat \<Rightarrow> (nat \<Rightarrow> 'z mm_state_scheme \<Rightarrow> u32) \<Rightarrow> (u32 \<Rightarrow> 'z mm_state_scheme \<Rightarrow> u8) \<Rightarrow> u32 \<Rightarrow> int \<Rightarrow> u32 \<Rightarrow> (nat \<Rightarrow> u32)
     \<Rightarrow> 'z mm_state_scheme \<Rightarrow> (u32 \<times> (nat \<Rightarrow> u32), 'z mm_state_scheme) kres" where
  "copy_args n 0 fetch get p offset pag page s = Ok (p, page) s"
| "copy_args n (Suc argc) fetch get p offset pag page s =
     (let tmp = fetch argc s in
      if tmp = 0 then Panic ''argc is wrong'' s
      else
        case string_len n get tmp s of
          None \<Rightarrow> Blocked s
        | Some len \<Rightarrow>
            bindk (copy_bytes len get (tmp + of_nat len) p offset pag page s) (\<lambda>(ok, p, offset, pag, page) s.
              if \<not> ok then Ok (0, page) s else copy_args n argc fetch get p offset pag page s))"

definition copy_strings ::
    "nat \<Rightarrow> nat \<Rightarrow> (nat \<Rightarrow> 'z mm_state_scheme \<Rightarrow> u32) \<Rightarrow> (u32 \<Rightarrow> 'z mm_state_scheme \<Rightarrow> u8) \<Rightarrow> (nat \<Rightarrow> u32) \<Rightarrow> u32
     \<Rightarrow> 'z mm_state_scheme \<Rightarrow> (u32 \<times> (nat \<Rightarrow> u32), 'z mm_state_scheme) kres" where
  "copy_strings n argc fetch get page p s = (if p = 0 then Ok (0, page) s else copy_args n argc fetch get p 0 0 page s)"

text \<open>The values of \<open>from_kmem\<close>: an array and strings in user space (0), a pointer of the kernel to a string in user space (1), a string
  of the kernel, here at address 1 (2).\<close>

definition copy_user_strings :: "nat \<Rightarrow> nat \<Rightarrow> u32 \<Rightarrow> (nat \<Rightarrow> u32) \<Rightarrow> u32 \<Rightarrow> 'z sched_state_scheme \<Rightarrow> (u32 \<times> (nat \<Rightarrow> u32), 'z sched_state_scheme) kres" where
  "copy_user_strings n argc argv = copy_strings n argc (\<lambda>k s. get_fs_long (argv + 4 * of_nat k) s) get_fs_byte"

definition copy_user_string :: "nat \<Rightarrow> u32 \<Rightarrow> (nat \<Rightarrow> u32) \<Rightarrow> u32 \<Rightarrow> 'z sched_state_scheme \<Rightarrow> (u32 \<times> (nat \<Rightarrow> u32), 'z sched_state_scheme) kres" where
  "copy_user_string n ptr = copy_strings n 1 (\<lambda>_ _. ptr) get_fs_byte"

definition kernel_byte :: "u8 list \<Rightarrow> u32 \<Rightarrow> u8" where
  "kernel_byte xs a = (let i = unat (a - 1) in if i < length xs then xs ! i else 0)"

definition copy_kernel_string :: "u8 list \<Rightarrow> (nat \<Rightarrow> u32) \<Rightarrow> u32 \<Rightarrow> 'z sched_state_scheme \<Rightarrow> (u32 \<times> (nat \<Rightarrow> u32), 'z sched_state_scheme) kres" where
  "copy_kernel_string xs = copy_strings (Suc (length xs)) 1 (\<lambda>_ _. 1) (\<lambda>a _. kernel_byte xs a)"

subsection \<open>The new address space\<close>

primrec put_arg_pages :: "nat \<Rightarrow> u32 \<Rightarrow> (nat \<Rightarrow> u32) \<Rightarrow> 'z mm_state_scheme \<Rightarrow> (unit, 'z mm_state_scheme) kres" where
  "put_arg_pages 0 data_base page s = Ok () s"
| "put_arg_pages (Suc i) data_base page s =
     (let data_base = data_base - 4096 in
      bindk (if page i \<noteq> 0 then bindk (put_page (page i) data_base s) (\<lambda>_ s. Ok () s) else Ok () s) (\<lambda>_ s. put_arg_pages i data_base page s))"

definition new_user :: "(nat \<Rightarrow> u32) \<Rightarrow> (u32 \<Rightarrow> u8) \<Rightarrow> 'z mm_state_scheme \<Rightarrow> u32 \<Rightarrow> u8" where
  "new_user page fresh s a =
     (let i = unat (a - 0x3fe0000) div 4096 in
      if 0x3fe0000 \<le> a \<and> a < 0x4000000 \<and> page i \<noteq> 0 then phys_byte s (page i + (a AND 0xfff)) else fresh a)"

definition change_ldt :: "u32 \<Rightarrow> (nat \<Rightarrow> u32) \<Rightarrow> (u32 \<Rightarrow> u8) \<Rightarrow> 'z sched_state_scheme \<Rightarrow> (u32, 'z sched_state_scheme) kres" where
  "change_ldt text_size page fresh s =
     (let code_limit = (text_size + 4096 - 1) AND 0xfffff000;
          data_limit = 0x4000000;
          base = get_base (ldt (cur s) 1);
          s = upd_cur (\<lambda>t. t\<lparr>ldt := (ldt t)(1 := set_limit code_limit (set_base base (ldt t 1)),
                                           2 := set_limit data_limit (set_base base (ldt t 2)))\<rparr>) s in
      bindk (put_arg_pages MAX_ARG_PAGES (base + data_limit) page s) (\<lambda>_ s.
        Ok data_limit (s\<lparr>user := new_user page fresh s\<rparr>)))"

subsection \<open>Interpreters\<close>

definition is_blank :: "u8 \<Rightarrow> bool" where
  "is_blank c \<longleftrightarrow> c = 0x20 \<or> c = 9"

text \<open>The first line of a script, the bytes behind \<open>#!\<close>: the interpreter, its name without the directory, and the rest of the line
  as an argument.\<close>

definition parse_interp :: "u8 list \<Rightarrow> (u8 list \<times> u8 list \<times> u8 list option) option" where
  "parse_interp raw =
     (let buf = takeWhile (\<lambda>c. c \<noteq> 0) raw in
      if 10 \<notin> set buf then None
      else
        let cp = dropWhile is_blank (takeWhile (\<lambda>c. c \<noteq> 10) buf) in
        if cp = [] then None
        else
          let interp = takeWhile (\<lambda>c. \<not> is_blank c) cp;
              rest = dropWhile (\<lambda>c. \<not> is_blank c) cp;
              i_name = rev (takeWhile (\<lambda>c. c \<noteq> 0x2f) (rev interp))
          in Some (interp, i_name, if rest = [] then None else Some (tl rest)))"

text \<open>\<open>namei\<close> with \<open>fs\<close> set to the kernel's data, on a kernel string.\<close>

definition namei_kernel :: "u8 list \<Rightarrow> (nat option, 'z fs_state_scheme) proc" where
  "namei_kernel xs =
     bindp (getp user) (\<lambda>saved.
     seqp (modp (\<lambda>s. s\<lparr>user := kernel_byte xs\<rparr>))
     (bindp (namei 1) (\<lambda>r. seqp (modp (\<lambda>s. s\<lparr>user := saved\<rparr>)) (retp r))))"

subsection \<open>do\_execve\<close>

text \<open>From \<open>restart_interp\<close> to the check of the header: an error (\<open>exec_error2\<close>), a script with the bytes of its first block behind the
  \<open>#!\<close>, or an image with the effective ids it gets.\<close>

datatype exec_step = ExecError int | ExecScript "u8 list" | ExecImage exec u16 u16

definition may_exec :: "m_inode \<Rightarrow> 'z sched_state_scheme \<Rightarrow> bool" where
  "may_exec n s \<longleftrightarrow>
     (let i = (if euid (cur s) = i_uid n then drop_bit 6 (i_mode n)
               else if egid (cur s) = ucast (i_gid n) then drop_bit 3 (i_mode n) else i_mode n)
      in i AND 1 \<noteq> 0 \<or> i_mode n AND 0x49 \<noteq> 0 \<and> suser s)"

definition bad_image :: "exec \<Rightarrow> m_inode \<Rightarrow> bool" where
  "bad_image ex n \<longleftrightarrow> a_magic ex \<noteq> ZMAGIC \<or> a_trsize ex \<noteq> 0 \<or> a_drsize ex \<noteq> 0 \<or>
     a_text ex + a_data ex + a_bss ex > 0x3000000 \<or> i_size n < a_text ex + a_data ex + a_syms ex + N_TXTOFF ex"

definition exec_header :: "bool \<Rightarrow> nat \<Rightarrow> (exec_step, 'z fs_state_scheme) proc" where
  "exec_header sh_bang inode =
     bindp (getp (\<lambda>s. inode_table s inode)) (\<lambda>n.
       if \<not> S_ISREG (i_mode n) then retp (ExecError (- EACCES))
       else
         bindp (getp (\<lambda>s. (if i_mode n AND S_ISUID \<noteq> 0 then i_uid n else euid (cur s),
                           if i_mode n AND S_ISGID \<noteq> 0 then ucast (i_gid n) else egid (cur s)))) (\<lambda>(e_uid, e_gid).
         ifp (\<lambda>s. \<not> may_exec n s) (retp (ExecError (- ENOEXEC)))
         (bindp (bread (i_dev n) (ucast (i_zone n 0))) (\<lambda>r.
            case r of
              None \<Rightarrow> retp (ExecError (- EACCES))
            | Some bh \<Rightarrow>
                bindp (getp (\<lambda>s. b_data (bufs s bh))) (\<lambda>d.
                  if d 0 = 0x23 \<and> d 1 = 0x21 \<and> \<not> sh_bang
                  then donep [brelse (Some bh), iput (Some inode)] (ExecScript (map d [2..<1024]))
                  else
                    seqp (brelse (Some bh))
                    (bindp (getp (\<lambda>s. inode_table s inode)) (\<lambda>n.
                       let ex = decode_exec d in
                       if bad_image ex n then retp (ExecError (- ENOEXEC))
                       else if N_TXTOFF ex \<noteq> 1024
                       then seqp (modp (printk ''%s: N_TXTOFF != BLOCK_SIZE. See a.out.h.'')) (retp (ExecError (- ENOEXEC)))
                       else retp (ExecImage ex e_uid e_gid))))))))"

definition free_arg_pages :: "(nat \<Rightarrow> u32) \<Rightarrow> (unit, 'z mm_state_scheme) proc" where
  "free_arg_pages page = forp [0..<MAX_ARG_PAGES] (\<lambda>i. liftp (free_page (page i)))"

text \<open>\<open>while (i&0xfff) put_fs_byte(0,(char *) (i++))\<close>: \<open>n\<close> bytes.\<close>

primrec clear_user :: "nat \<Rightarrow> u32 \<Rightarrow> 'z sched_state_scheme \<Rightarrow> 'z sched_state_scheme" where
  "clear_user 0 a s = s"
| "clear_user (Suc n) a s = clear_user n (a + 1) (put_fs_byte 0 a s)"

text \<open>Behind the point of no return.\<close>

definition exec_commit ::
    "(u32 \<Rightarrow> u8) \<Rightarrow> nat \<Rightarrow> exec \<Rightarrow> u16 \<Rightarrow> u16 \<Rightarrow> nat \<Rightarrow> nat \<Rightarrow> u32 \<Rightarrow> (nat \<Rightarrow> u32)
     \<Rightarrow> (int \<times> (u32 \<times> u32) option, 'z tty_state_scheme) proc" where
  "exec_commit fresh inode ex e_uid e_gid argc envc p page =
     seqp (bindp (getp (\<lambda>s. executable (cur s))) (\<lambda>old. case old of None \<Rightarrow> retp () | Some _ \<Rightarrow> iput old))
     (seqp (modp (upd_cur (\<lambda>t. t\<lparr>executable := Some inode,
              sigactions := (\<lambda>i. if i < 32 then (sigactions t i)\<lparr>sa_handler := 0\<rparr> else sigactions t i)\<rparr>)))
     (seqp (forp [0..<NR_OPEN] (\<lambda>i. ifp (\<lambda>s. bit (close_on_exec (cur s)) i) (bindp (sys_close (of_nat i)) (\<lambda>_. retp ())) (retp ())))
     (seqp (modp (upd_cur (\<lambda>t. t\<lparr>close_on_exec := 0\<rparr>)))
     (seqp (bindp (getp (\<lambda>s. (get_base (ldt (cur s) 1), get_limit (ldt (cur s) 1)))) (\<lambda>(base, limit).
              bindp (liftp (free_page_tables base limit)) (\<lambda>_. retp ())))
     (seqp (bindp (getp (\<lambda>s. (get_base (ldt (cur s) 2), get_limit (ldt (cur s) 2)))) (\<lambda>(base, limit).
              bindp (liftp (free_page_tables base limit)) (\<lambda>_. retp ())))
     (seqp (modp (\<lambda>s. if last_task_used_math s = Some (current s) then s\<lparr>last_task_used_math := None\<rparr> else s))
     (seqp (modp (upd_cur (\<lambda>t. t\<lparr>used_math := 0\<rparr>)))
     (bindp (liftp (change_ldt (a_text ex) page fresh)) (\<lambda>data_limit.
      bindp (fuelp (\<lambda>n. liftp (create_tables n (p + data_limit - 0x20000) argc envc))) (\<lambda>p.
      seqp (modp (upd_cur (\<lambda>t. t\<lparr>end_code := a_text ex, end_data := a_data ex + a_text ex, brk := a_bss ex + (a_data ex + a_text ex),
               start_stack := p AND 0xfffff000, euid := e_uid, egid := e_gid\<rparr>)))
      (seqp (modp (let i = a_text ex + a_data ex in clear_user (nat ((- uint i) mod 4096)) i))
        (retp (0, Some (a_entry ex, p))))))))))))))"

text \<open>The strings of a script: environment, arguments but the first, the name of the script, the argument and the name of the interpreter.
  The value is the new \<open>argc\<close>, \<open>p\<close> and the pages.\<close>

definition script_strings ::
    "u32 \<Rightarrow> u32 \<Rightarrow> u32 \<Rightarrow> nat \<Rightarrow> nat \<Rightarrow> u8 list option \<Rightarrow> u8 list \<Rightarrow> (nat \<Rightarrow> u32) \<Rightarrow> u32 \<Rightarrow> (nat \<times> u32 \<times> (nat \<Rightarrow> u32), 'z sched_state_scheme) proc" where
  "script_strings filename argv envp argc envc i_arg i_name page p =
     bindp (fuelp (\<lambda>n. liftp (copy_user_strings n envc envp page p))) (\<lambda>(p, page).
     bindp (fuelp (\<lambda>n. liftp (copy_user_strings n (argc - 1) (argv + 4) page p))) (\<lambda>(p, page).
     bindp (fuelp (\<lambda>n. liftp (copy_user_string n filename page p))) (\<lambda>(p, page).
     bindp (case i_arg of None \<Rightarrow> retp (p, page) | Some a \<Rightarrow> liftp (copy_kernel_string a page p)) (\<lambda>(p, page).
     bindp (liftp (copy_kernel_string i_name page p)) (\<lambda>(p, page).
       retp (nat (int argc - 1 + 2 + (if i_arg = None then 0 else 1)), p, page))))))"

definition exec_fail :: "nat option \<Rightarrow> (nat \<Rightarrow> u32) \<Rightarrow> int \<Rightarrow> (int \<times> (u32 \<times> u32) option, 'z fs_state_scheme) proc" where
  "exec_fail inode page retval =
     seqp (case inode of None \<Rightarrow> retp () | Some _ \<Rightarrow> iput inode) (seqp (free_arg_pages page) (retp (retval, None)))"

definition do_execve :: "(u32 \<Rightarrow> u8) \<Rightarrow> u32 \<Rightarrow> u32 \<Rightarrow> u32 \<Rightarrow> u32 \<Rightarrow> (int \<times> (u32 \<times> u32) option, 'z tty_state_scheme) proc" where
  "do_execve fresh cs filename argv envp =
     (let p = 4096 * 32 - 4; page = (\<lambda>_. 0) in
      if cs AND 0xffff \<noteq> 0xf then panicp ''execve called from supervisor mode''
      else
        bindp (namei filename) (\<lambda>r.
          case r of
            None \<Rightarrow> retp (- ENOENT, None)
          | Some inode \<Rightarrow>
              bindp (fuelp (\<lambda>n. getp (\<lambda>s. (count_args n argv s, count_args n envp s)))) (\<lambda>(c, e).
                case (c, e) of
                  (Some argc, Some envc) \<Rightarrow>
                    bindp (exec_header False inode) (\<lambda>h.
                      case h of
                        ExecError e \<Rightarrow> exec_fail (Some inode) page e
                      | ExecImage ex e_uid e_gid \<Rightarrow>
                          bindp (fuelp (\<lambda>n. liftp (copy_user_strings n envc envp page p))) (\<lambda>(p, page).
                          bindp (fuelp (\<lambda>n. liftp (copy_user_strings n argc argv page p))) (\<lambda>(p, page).
                            if p = 0 then exec_fail (Some inode) page (- ENOMEM)
                            else exec_commit fresh inode ex e_uid e_gid argc envc p page))
                      | ExecScript raw \<Rightarrow>
                          (case parse_interp raw of
                             None \<Rightarrow> exec_fail None page (- ENOEXEC)
                           | Some (interp, i_name, i_arg) \<Rightarrow>
                               bindp (script_strings filename argv envp argc envc i_arg i_name page p) (\<lambda>(argc, p, page).
                                 if p = 0 then exec_fail None page (- ENOMEM)
                                 else
                                   bindp (namei_kernel interp) (\<lambda>r.
                                     case r of
                                       None \<Rightarrow> exec_fail None page (- ENOENT)
                                     | Some inode \<Rightarrow>
                                         bindp (exec_header True inode) (\<lambda>h.
                                           case h of
                                             ExecError e \<Rightarrow> exec_fail (Some inode) page e
                                           | ExecImage ex e_uid e_gid \<Rightarrow> exec_commit fresh inode ex e_uid e_gid argc envc p page
                                           | ExecScript _ \<Rightarrow> faultp)))))
                | _ \<Rightarrow> stuckp)))"

end
