(* ===== verification/Exec_Laws.thy ===== *)
theory Exec_Laws
  imports Fs_Exec
begin

text \<open>
  The stack of a new program (src/fs/exec.c). When the strings of the arguments and of the environment lie one behind the other at \<open>p\<close>,
  \<open>create_tables\<close> puts below them, from the stack pointer up: the number of arguments, the addresses of the two tables, and the tables, whose entries
  are the addresses of the strings, each ended by a null pointer.
\<close>

primrec strings_at :: "u8 list list \<Rightarrow> u32 \<Rightarrow> (u32 \<Rightarrow> u8) \<Rightarrow> bool" where
  "strings_at [] p m \<longleftrightarrow> True"
| "strings_at (x # xs) p m \<longleftrightarrow>
     (\<forall>i<length x. m (p + of_nat i) = x ! i \<and> x ! i \<noteq> 0) \<and> m (p + of_nat (length x)) = 0 \<and> strings_at xs (p + of_nat (Suc (length x))) m"

primrec str_ptrs :: "u8 list list \<Rightarrow> u32 \<Rightarrow> u32 list" where
  "str_ptrs [] p = []"
| "str_ptrs (x # xs) p = p # str_ptrs xs (p + of_nat (Suc (length x)))"

definition total_len :: "u8 list list \<Rightarrow> nat" where
  "total_len xs = (\<Sum>x\<leftarrow>xs. Suc (length x))"

lemma length_str_ptrs [simp]: "length (str_ptrs xs p) = length xs"
  by (induction xs arbitrary: p) simp_all

lemma strings_at_append:
  "strings_at (xs @ ys) p m \<longleftrightarrow> strings_at xs p m \<and> strings_at ys (p + of_nat (total_len xs)) m"
  by (induction xs arbitrary: p) (simp_all add: total_len_def algebra_simps)

text \<open>Bytes at \<open>p\<close> and above, and words below.\<close>

definition same_from :: "u32 \<Rightarrow> (u32 \<Rightarrow> u8) \<Rightarrow> (u32 \<Rightarrow> u8) \<Rightarrow> bool" where
  "same_from p m m' \<longleftrightarrow> (\<forall>a\<ge>p. m' a = m a)"

lemma unat_add_small: "unat (p :: u32) + n < 2 ^ 32 \<Longrightarrow> unat (p + of_nat n) = unat p + n"
  by (subst unat_plus_if') (simp add: unat_of_nat take_bit_nat_eq_self)

lemma strings_at_same:
  assumes "same_from p m m'" "unat q + total_len xs \<le> 2 ^ 32" "p \<le> q" "strings_at xs q m"
  shows "strings_at xs q m'"
  using assms(2-4)
proof (induction xs arbitrary: q)
  case (Cons x xs)
  have t: "total_len (x # xs) = Suc (length x) + total_len xs" by (simp add: total_len_def)
  have e: "m' (q + of_nat i) = m (q + of_nat i)" if "i \<le> length x" for i
  proof -
    have "p \<le> q + of_nat i" using that Cons.prems(1,2) t unat_add_small[of q i] by (simp add: word_le_nat_alt)
    then show ?thesis using assms(1) by (simp add: same_from_def)
  qed
  show ?case
  proof (cases "xs = []")
    case True
    then show ?thesis using Cons.prems(3) e by simp
  next
    case False
    then have "0 < total_len xs" by (cases xs) (simp_all add: total_len_def)
    then have u: "unat (q + of_nat (Suc (length x))) = unat q + Suc (length x)" using Cons.prems(1) t by (intro unat_add_small) simp
    then have "strings_at xs (q + of_nat (Suc (length x))) m'"
      using Cons.IH[of "q + of_nat (Suc (length x))"] Cons.prems t by (simp add: word_le_nat_alt)
    then show ?thesis using Cons.prems(3) e by simp
  qed
qed simp

lemma same_from_trans: "same_from p m m' \<Longrightarrow> same_from p m' m'' \<Longrightarrow> same_from p m m''"
  by (simp add: same_from_def)

lemma same_from_put_long:
  assumes "unat a + 4 \<le> unat p"
  shows "same_from p (user s) (user (put_fs_long v a s))"
  unfolding same_from_def
proof (intro allI impI)
  fix b assume "p \<le> b"
  then have "unat p \<le> unat b" by (simp add: word_le_nat_alt)
  moreover have "unat (a + of_nat i) = unat a + i" if "i < 4" for i
    using that assms unsigned_less[of p, where ?'a = nat] by (intro unat_add_small) simp
  from this[of 1] this[of 2] this[of 3] have "unat (a + 1) = unat a + 1" "unat (a + 2) = unat a + 2" "unat (a + 3) = unat a + 3" by simp_all
  ultimately have "b \<noteq> a" "b \<noteq> a + 1" "b \<noteq> a + 2" "b \<noteq> a + 3" using assms by auto
  then show "user (put_fs_long v a s) b = user s b" by (simp add: put_fs_long_def)
qed

lemma same_from_put_words:
  "unat a + 4 * length ws \<le> unat p \<Longrightarrow> same_from p (user s) (user (put_words ws a s))"
proof (induction ws arbitrary: a s)
  case Nil
  then show ?case by (simp add: same_from_def)
next
  case (Cons w ws)
  show ?case
  proof (cases "ws = []")
    case True
    then show ?thesis using Cons.prems same_from_put_long by simp
  next
    case False
    then have "0 < length ws" by simp
    then have "unat (a + of_nat 4) = unat a + 4"
      using Cons.prems unsigned_less[of p, where ?'a = nat] by (intro unat_add_small) simp
    then have "same_from p (user (put_fs_long w a s)) (user (put_words ws (a + 4) (put_fs_long w a s)))"
      using Cons.prems by (intro Cons.IH) simp
    moreover have "same_from p (user s) (user (put_fs_long w a s))" using Cons.prems by (intro same_from_put_long) simp
    ultimately show ?thesis unfolding put_words.simps by (metis same_from_trans)
  qed
qed

lemma put_words_append: "put_words (xs @ ys) a s = put_words ys (a + 4 * of_nat (length xs)) (put_words xs a s)"
  by (induction xs arbitrary: a s) (simp_all add: algebra_simps)

lemma skip_string_end:
  "(\<forall>i<length x. user s (p + of_nat i) \<noteq> 0) \<Longrightarrow> user s (p + of_nat (length x)) = 0 \<Longrightarrow> length x < n \<Longrightarrow>
    skip_string n p s = Some (p + of_nat (Suc (length x)))"
proof (induction n arbitrary: p x)
  case (Suc n)
  show ?case
  proof (cases x)
    case Nil
    then show ?thesis using Suc.prems by (simp add: get_fs_byte_def)
  next
    case (Cons c cs)
    have "user s p \<noteq> 0" using Suc.prems(1) Cons by (auto dest: spec[of _ 0])
    moreover have "user s (p + 1 + of_nat i) \<noteq> 0" if "i < length cs" for i
      using Suc.prems(1) Cons that by (auto dest!: spec[of _ "Suc i"] simp: algebra_simps)
    ultimately show ?thesis using Suc.IH[of cs "p + 1"] Suc.prems Cons by (simp add: get_fs_byte_def algebra_simps)
  qed
qed simp

text \<open>One table: the strings stay where they are and the table gets their addresses.\<close>

lemma put_ptrs_words:
  assumes "strings_at xs q (user s)" "unat q + total_len xs \<le> 2 ^ 32" "p \<le> q" "unat table + 4 * length xs + 4 \<le> unat p"
    "\<forall>x\<in>set xs. length x < n"
  shows "put_ptrs n (length xs) q table s = Ok (q + of_nat (total_len xs)) (put_words (str_ptrs xs q @ [0]) table s)"
  using assms
proof (induction xs arbitrary: q table s)
  case Nil
  then show ?case by (simp add: total_len_def)
next
  case (Cons x xs)
  let ?s = "put_fs_long q table s"
  have t: "total_len (x # xs) = Suc (length x) + total_len xs" by (simp add: total_len_def)
  have sf: "same_from p (user s) (user ?s)" using Cons.prems(4) by (intro same_from_put_long) simp
  have st: "strings_at (x # xs) q (user ?s)" by (rule strings_at_same[OF sf Cons.prems(2,3,1)])
  have sk: "skip_string n q ?s = Some (q + of_nat (Suc (length x)))"
    using st Cons.prems(5) by (intro skip_string_end) auto
  have "unat (table + of_nat 4) = unat table + 4"
    using Cons.prems(4) unsigned_less[of p, where ?'a = nat] by (intro unat_add_small) simp
  then have tb: "unat (table + 4) + 4 * length xs + 4 \<le> unat p" using Cons.prems(4) by simp
  have "put_ptrs n (length xs) (q + of_nat (Suc (length x))) (table + 4) ?s =
      Ok (q + of_nat (Suc (length x)) + of_nat (total_len xs)) (put_words (str_ptrs xs (q + of_nat (Suc (length x))) @ [0]) (table + 4) ?s)"
  proof (cases "xs = []")
    case True
    then show ?thesis by (simp add: total_len_def)
  next
    case False
    then have "0 < total_len xs" by (cases xs) (simp_all add: total_len_def)
    then have u: "unat (q + of_nat (Suc (length x))) = unat q + Suc (length x)" using Cons.prems(2) t by (intro unat_add_small) simp
    show ?thesis
      by (rule Cons.IH) (use st u tb Cons.prems t in \<open>auto simp: word_le_nat_alt\<close>)
  qed
  then show ?case using sk by (simp add: t Let_def algebra_simps)
qed

lemma unat_word_bytes:
  assumes "unat (a :: u32) + 4 \<le> 2 ^ 32"
  shows "unat (a + 1) = unat a + 1" "unat (a + 2) = unat a + 2" "unat (a + 3) = unat a + 3"
  using unat_add_small[of a 1] unat_add_small[of a 2] unat_add_small[of a 3] assms by simp_all

lemma put_fs_long_commute:
  assumes "unat a + 4 \<le> unat b" "unat b + 4 \<le> 2 ^ 32"
  shows "put_fs_long v a (put_fs_long w b s) = put_fs_long w b (put_fs_long v a s)"
proof -
  have "unat a + 4 \<le> 2 ^ 32" using assms by linarith
  note u = unat_word_bytes[OF this] unat_word_bytes[OF assms(2)]
  have "a \<noteq> b" "a \<noteq> b + 1" "a \<noteq> b + 2" "a \<noteq> b + 3" "a + 1 \<noteq> b" "a + 1 \<noteq> b + 1" "a + 1 \<noteq> b + 2" "a + 1 \<noteq> b + 3"
    "a + 2 \<noteq> b" "a + 2 \<noteq> b + 1" "a + 2 \<noteq> b + 2" "a + 2 \<noteq> b + 3" "a + 3 \<noteq> b" "a + 3 \<noteq> b + 1" "a + 3 \<noteq> b + 2" "a + 3 \<noteq> b + 3"
    using u assms(1) by (auto simp only: word_unat_eq_iff)
  then show ?thesis unfolding put_fs_long_def
    by (intro sched_state.equality) (simp_all add: fun_upd_twist)
qed

lemma unat_word_align: "unat (p AND 0xfffffffc :: u32) = 4 * (unat p div 4)"
proof -
  have "(0xfffffffc :: u32) = NOT (mask 2)" by (simp add: mask_eq_exp_minus_1)
  moreover have "Suc (Suc (n - 2)) = n" if "2 \<le> n" for n using that by simp
  then have "p AND NOT (mask 2) = push_bit 2 (drop_bit 2 p)"
    by (intro bit_word_eqI) (auto simp: bit_simps simp del: push_bit_numeral)
  moreover have "unat (push_bit 2 (drop_bit 2 p)) = 4 * (unat p div 4)"
  proof -
    have "unat (drop_bit 2 p) = unat p div 4" using unat_div[of p 4] by (simp add: drop_bit_eq_div)
    moreover have "unat p div 4 * 4 < 2 ^ 32" using unsigned_less[of p, where ?'a = nat] by simp
    ultimately show ?thesis
      using unat_mult_lem[of "drop_bit 2 p" 4] by (simp add: push_bit_eq_mult)
  qed
  ultimately show ?thesis by simp
qed

text \<open>C23. The stack of a new program. If the argument and environment strings lie one behind the other at \<open>p\<close> and there is room below,
  \<open>create_tables\<close> returns and has written exactly these words at the new stack pointer: \<open>argc\<close>, the addresses of the two tables, the
  addresses of the argument strings with a null pointer, those of the environment strings with a null pointer. The strings themselves are not touched.\<close>

theorem create_tables_stack:
  fixes s :: "'z sched_state_scheme"
  assumes st: "strings_at (args @ env) p (user s)" and top: "unat p + total_len (args @ env) < 2 ^ 32"
    and room: "4 * (length args + length env) + 24 \<le> unat p" and n: "\<forall>x\<in>set (args @ env). length x < n"
  shows "\<exists>sp s'. create_tables n p (length args) (length env) s = Ok sp s' \<and>
    s' = put_words ([of_nat (length args), sp + 12, sp + 16 + 4 * of_nat (length args)] @ str_ptrs args p @ [0] @
      str_ptrs env (p + of_nat (total_len args)) @ [0]) sp s \<and>
    unat sp + 4 * (length args + length env + 5) \<le> unat p \<and> strings_at (args @ env) p (user s')"
proof -
  let ?A = "length args" and ?E = "length env"
  let ?k = "4 * (?A + ?E + 5)"
  let ?q = "p + of_nat (total_len args) :: u32"
  define sp :: u32 where "sp = (p AND 0xfffffffc) - of_nat ?k"
  have "?k \<le> unat (p AND 0xfffffffc)" using room by (simp add: unat_word_align)
  moreover have "unat (of_nat ?k :: u32) = ?k" using room unsigned_less[of p, where ?'a = nat] by (simp add: unat_of_nat take_bit_nat_eq_self del: of_nat_mult of_nat_add)
  ultimately have "unat sp = 4 * (unat p div 4) - ?k" unfolding sp_def by (subst unat_sub) (simp_all add: word_le_nat_alt unat_word_align del: of_nat_mult of_nat_add)
  then have usp: "unat sp + ?k \<le> unat p" using room by simp
  have small: "unat (sp + of_nat i) = unat sp + i" if "i \<le> ?k" for i
    using that usp unsigned_less[of p, where ?'a = nat] by (intro unat_add_small) simp
  have tl: "total_len (args @ env) = total_len args + total_len env" by (simp add: total_len_def)
  have sts: "strings_at args p (user s)" "strings_at env ?q (user s)" using st by (simp_all add: strings_at_append)
  have envp: "(p AND 0xfffffffc) - 4 * (of_nat ?E + 1) = sp + of_nat (16 + 4 * ?A)" by (simp add: sp_def algebra_simps)
  have argv: "sp + of_nat (16 + 4 * ?A) - 4 * (of_nat ?A + 1) = sp + of_nat 12" by (simp add: algebra_simps)
  let ?h = "[of_nat ?A, sp + of_nat 12, sp + of_nat (16 + 4 * ?A)]"
  let ?s1 = "put_words ?h sp s" and ?ta = "str_ptrs args p @ [0]" and ?te = "str_ptrs env ?q @ [0]"
  let ?s2 = "put_words ?ta (sp + of_nat 12) ?s1"
  let ?s3 = "put_words ?te (sp + of_nat (16 + 4 * ?A)) ?s2"
  have uq: "unat ?q = unat p + total_len args" using top tl by (intro unat_add_small) simp
  then have pq: "p \<le> ?q" by (simp add: word_le_nat_alt)
  have f1: "same_from p (user s) (user ?s1)" using usp by (intro same_from_put_words) simp
  have f2: "same_from p (user ?s1) (user ?s2)" using usp small[of 12] by (intro same_from_put_words) simp
  have f3: "same_from p (user ?s2) (user ?s3)" using usp small[of "16 + 4 * ?A"] by (intro same_from_put_words) simp
  have hdr: "put_fs_long (of_nat ?A) sp (put_fs_long (sp + of_nat 12) (sp + 4) (put_fs_long (sp + of_nat (16 + 4 * ?A)) (sp + 8) s)) = ?s1"
    using small[of 4] small[of 8] usp unsigned_less[of p, where ?'a = nat]
    by (simp add: put_fs_long_commute[of sp "sp + 4"] put_fs_long_commute[of sp "sp + 8"] put_fs_long_commute[of "sp + 4" "sp + 8"] add.commute[of 8 sp] del: of_nat_add of_nat_mult)
  have p1: "put_ptrs n ?A p (sp + of_nat 12) ?s1 = Ok ?q ?s2"
    using top tl usp small[of 12] n by (intro put_ptrs_words[where p = p] strings_at_same[OF f1 _ _ sts(1)]) (auto simp: word_le_nat_alt)
  have p2: "put_ptrs n ?E ?q (sp + of_nat (16 + 4 * ?A)) ?s2 = Ok (?q + of_nat (total_len env)) ?s3"
    using top tl usp uq pq small[of "16 + 4 * ?A"] n
    by (intro put_ptrs_words[where p = p] strings_at_same[OF same_from_trans[OF f1 f2] _ _ sts(2)]) (auto simp: word_le_nat_alt)
  have "create_tables n p ?A ?E s = Ok sp ?s3"
    unfolding create_tables_def Let_def envp argv using hdr p1 p2 by (simp add: bindk_def)
  moreover have "?s3 = put_words (?h @ ?ta @ ?te) sp s" by (simp add: put_words_append algebra_simps)
  moreover have "strings_at (args @ env) p (user ?s3)"
    using top by (intro strings_at_same[OF same_from_trans[OF same_from_trans[OF f1 f2] f3] _ _ st]) simp_all
  ultimately show ?thesis using usp by (intro exI[of _ sp] exI[of _ ?s3]) (simp add: algebra_simps)
qed

theorem create_tables_stack_witness:
  "\<exists>sp s'. create_tables 10 0x1000 1 1 (demo_sched\<lparr>user := (\<lambda>_. 0)(0x1000 := 0x6c, 0x1001 := 0x73, 0x1003 := 0x41)\<rparr>) = Ok sp s' \<and>
    s' = put_words [1, sp + 12, sp + 20, 0x1000, 0, 0x1003, 0] sp
      (demo_sched\<lparr>user := (\<lambda>_. 0)(0x1000 := 0x6c, 0x1001 := 0x73, 0x1003 := 0x41)\<rparr>)"
proof -
  let ?s = "demo_sched\<lparr>user := (\<lambda>_. 0)(0x1000 := 0x6c, 0x1001 := 0x73, 0x1003 := 0x41)\<rparr>"
  let ?a = "[[0x6c, 0x73]] :: u8 list list" and ?e = "[[0x41]] :: u8 list list"
  have "strings_at (?a @ ?e) 0x1000 (user ?s)" by (simp add: All_less_Suc)
  from this have "\<exists>sp s'. create_tables 10 0x1000 (length ?a) (length ?e) ?s = Ok sp s' \<and>
    s' = put_words ([of_nat (length ?a), sp + 12, sp + 16 + 4 * of_nat (length ?a)] @ str_ptrs ?a 0x1000 @ [0] @
      str_ptrs ?e (0x1000 + of_nat (total_len ?a)) @ [0]) sp ?s \<and>
    unat sp + 4 * (length ?a + length ?e + 5) \<le> unat (0x1000 :: u32) \<and> strings_at (?a @ ?e) 0x1000 (user s')"
    by (rule create_tables_stack) (simp_all add: total_len_def)
  then obtain sp s' where "create_tables 10 0x1000 (length ?a) (length ?e) ?s = Ok sp s'"
    "s' = put_words ([of_nat (length ?a), sp + 12, sp + 16 + 4 * of_nat (length ?a)] @ str_ptrs ?a 0x1000 @ [0] @
      str_ptrs ?e (0x1000 + of_nat (total_len ?a)) @ [0]) sp ?s" by blast
  then show ?thesis by (intro exI[of _ sp] exI[of _ s']) (simp add: total_len_def add.commute[of 20 sp])
qed

end
