(* ===== verification/Lib_String.thy ===== *)
theory Lib_String
  imports Kernel_Prelude
begin

text \<open>
  The string routines of src/include/string.h. They are written with the string instructions of the processor; the model has one definition per
  instruction and composes them in the order of the code. Memory is a function from addresses to bytes. A loop that has no counter may run for ever
  and is a partial function whose value is then \<open>None\<close>.
\<close>

type_synonym mem = "u32 \<Rightarrow> u8"

subsection \<open>The repeated string instructions\<close>

text \<open>\<open>repne scasb\<close> with the count \<open>n\<close> in \<open>ecx\<close>: the new \<open>edi\<close> and \<open>ecx\<close>, and whether the last byte compared was \<open>al\<close>. With a count of zero
  nothing is compared; the flag is then the one of the instruction before.\<close>

fun repne_scasb :: "mem \<Rightarrow> u8 \<Rightarrow> u32 \<Rightarrow> nat \<Rightarrow> bool \<Rightarrow> u32 \<times> nat \<times> bool" where
  "repne_scasb m al edi n zf =
     (if n = 0 then (edi, 0, zf)
      else if m edi = al then (edi + 1, n - 1, True) else repne_scasb m al (edi + 1) (n - 1) False)"

declare repne_scasb.simps [simp del]

text \<open>\<open>repe cmpsb\<close>: the new \<open>esi\<close>, and whether the last bytes compared were equal and whether \<open>esi\<close>'s was the smaller one.\<close>

fun repe_cmpsb :: "mem \<Rightarrow> u32 \<Rightarrow> u32 \<Rightarrow> nat \<Rightarrow> bool \<times> bool \<Rightarrow> u32 \<times> bool \<times> bool" where
  "repe_cmpsb m esi edi n flags =
     (if n = 0 then (esi, flags)
      else if m esi = m edi then repe_cmpsb m (esi + 1) (edi + 1) (n - 1) (True, False)
      else (esi + 1, False, sint (m esi) < sint (m edi)))"

declare repe_cmpsb.simps [simp del]

text \<open>\<open>rep movsb\<close> with \<open>n\<close> in \<open>ecx\<close> and the direction of the direction flag, and \<open>rep stosb\<close>.\<close>

fun rep_movsb :: "u32 \<Rightarrow> u32 \<Rightarrow> u32 \<Rightarrow> nat \<Rightarrow> mem \<Rightarrow> mem" where
  "rep_movsb d esi edi n m = (if n = 0 then m else rep_movsb d (esi + d) (edi + d) (n - 1) (m(edi := m esi)))"

declare rep_movsb.simps [simp del]

fun rep_stosb :: "u8 \<Rightarrow> u32 \<Rightarrow> nat \<Rightarrow> mem \<Rightarrow> mem" where
  "rep_stosb al edi n m = (if n = 0 then m else rep_stosb al (edi + 1) (n - 1) (m(edi := al)))"

declare rep_stosb.simps [simp del]

text \<open>\<open>repne scasb; notl %ecx; decl %ecx\<close> with \<open>al = 0\<close> and \<open>ecx = 0xffffffff\<close>.\<close>

definition scan_len :: "mem \<Rightarrow> u32 \<Rightarrow> u32" where
  "scan_len m p = (case repne_scasb m 0 p 0xffffffff False of (edi, ecx, zf) \<Rightarrow> NOT (of_nat ecx) - 1)"

text \<open>\<open>repne scasb; decl %edi\<close>.\<close>

definition scan_end :: "mem \<Rightarrow> u32 \<Rightarrow> u32" where
  "scan_end m p = (case repne_scasb m 0 p 0xffffffff False of (edi, ecx, zf) \<Rightarrow> edi - 1)"

text \<open>Whether \<open>al\<close> is one of the \<open>edx\<close> bytes at \<open>ct\<close>: \<open>repne scasb\<close> behind \<open>testb %al,%al\<close>, which has cleared the zero flag.\<close>

definition among :: "mem \<Rightarrow> u8 \<Rightarrow> u32 \<Rightarrow> u32 \<Rightarrow> bool" where
  "among m al ct edx = (case repne_scasb m al ct (unat edx) False of (edi, ecx, zf) \<Rightarrow> zf)"

subsection \<open>Copying\<close>

partial_function (option) copy_loop :: "u32 \<Rightarrow> u32 \<Rightarrow> mem \<Rightarrow> mem option" where
  "copy_loop esi edi m =
     (let al = m esi; m = m(edi := al) in if al \<noteq> 0 then copy_loop (esi + 1) (edi + 1) m else Some m)"

definition strcpy :: "u32 \<Rightarrow> u32 \<Rightarrow> mem \<Rightarrow> (u32 \<times> mem) option" where
  "strcpy dest src m = map_option (\<lambda>m. (dest, m)) (copy_loop src dest m)"

text \<open>How often a loop runs that begins with \<open>decl; js\<close>: the least integer is the one that does not become negative.\<close>

definition js_count :: "int \<Rightarrow> nat" where
  "js_count count = (if count = - (2 ^ 31) then 2 ^ 31 else nat count)"

text \<open>The loop with a counter. The value is the place behind the last byte stored, the bytes still to go and the memory.\<close>

fun copy_count :: "nat \<Rightarrow> u32 \<Rightarrow> u32 \<Rightarrow> mem \<Rightarrow> u32 \<times> nat \<times> mem" where
  "copy_count n esi edi m =
     (if n = 0 then (edi, 0, m)
      else
        let al = m esi; m = m(edi := al) in
        if al \<noteq> 0 then copy_count (n - 1) (esi + 1) (edi + 1) m else (edi + 1, n - 1, m))"

declare copy_count.simps [simp del]

definition strncpy :: "u32 \<Rightarrow> u32 \<Rightarrow> int \<Rightarrow> mem \<Rightarrow> u32 \<times> mem" where
  "strncpy dest src count m =
     (case copy_count (js_count count) src dest m of (edi, ecx, m) \<Rightarrow> (dest, rep_stosb 0 edi ecx m))"

definition strcat :: "u32 \<Rightarrow> u32 \<Rightarrow> mem \<Rightarrow> (u32 \<times> mem) option" where
  "strcat dest src m = map_option (\<lambda>m. (dest, m)) (copy_loop src (scan_end m dest) m)"

definition strncat :: "u32 \<Rightarrow> u32 \<Rightarrow> int \<Rightarrow> mem \<Rightarrow> u32 \<times> mem" where
  "strncat dest src count m =
     (case copy_count (js_count count) src (scan_end m dest) m of (edi, ecx, m) \<Rightarrow> (dest, m(edi := 0)))"

subsection \<open>Comparing and searching\<close>

partial_function (option) cmp_loop :: "mem \<Rightarrow> u32 \<Rightarrow> u32 \<Rightarrow> int option" where
  "cmp_loop m esi edi =
     (if m esi \<noteq> m edi then Some (if sint (m esi) < sint (m edi) then 1 else - 1)
      else if m esi \<noteq> 0 then cmp_loop m (esi + 1) (edi + 1) else Some 0)"

definition strcmp :: "u32 \<Rightarrow> u32 \<Rightarrow> mem \<Rightarrow> int option" where
  "strcmp cs ct m = cmp_loop m ct cs"

fun cmp_count :: "mem \<Rightarrow> u32 \<Rightarrow> u32 \<Rightarrow> nat \<Rightarrow> int" where
  "cmp_count m esi edi n =
     (if n = 0 then 0
      else if m esi \<noteq> m edi then (if sint (m esi) < sint (m edi) then 1 else - 1)
      else if m esi \<noteq> 0 then cmp_count m (esi + 1) (edi + 1) (n - 1) else 0)"

declare cmp_count.simps [simp del]

definition strncmp :: "u32 \<Rightarrow> u32 \<Rightarrow> int \<Rightarrow> mem \<Rightarrow> int" where
  "strncmp cs ct count m = cmp_count m ct cs (js_count count)"

partial_function (option) strchr_loop :: "mem \<Rightarrow> u8 \<Rightarrow> u32 \<Rightarrow> u32 option" where
  "strchr_loop m ah esi =
     (let al = m esi; esi = esi + 1 in
      if al = ah then Some (esi - 1) else if al \<noteq> 0 then strchr_loop m ah esi else Some (1 - 1))"

definition strchr :: "u32 \<Rightarrow> u8 \<Rightarrow> mem \<Rightarrow> u32 option" where
  "strchr s c m = strchr_loop m c s"

partial_function (option) strrchr_loop :: "mem \<Rightarrow> u8 \<Rightarrow> u32 \<Rightarrow> u32 \<Rightarrow> u32 option" where
  "strrchr_loop m ah esi res =
     (let al = m esi; esi = esi + 1; res = (if al = ah then esi - 1 else res) in
      if al \<noteq> 0 then strrchr_loop m ah esi res else Some res)"

definition strrchr :: "u32 \<Rightarrow> u8 \<Rightarrow> mem \<Rightarrow> u32 option" where
  "strrchr s c m = strrchr_loop m c s 0"

text \<open>The loop of \<open>strspn\<close>, \<open>strcspn\<close>, \<open>strpbrk\<close> and \<open>strtok\<close> over the bytes at \<open>esi\<close>, which goes on while the membership of the byte in the
  \<open>edx\<close> bytes at \<open>ct\<close> is \<open>go\<close>: the last byte read and the place behind it.\<close>

partial_function (option) span_loop :: "mem \<Rightarrow> bool \<Rightarrow> u32 \<Rightarrow> u32 \<Rightarrow> u32 \<Rightarrow> (u8 \<times> u32) option" where
  "span_loop m go ct edx esi =
     (let al = m esi; esi = esi + 1 in
      if al = 0 then Some (al, esi) else if among m al ct edx = go then span_loop m go ct edx esi else Some (al, esi))"

definition strspn :: "u32 \<Rightarrow> u32 \<Rightarrow> mem \<Rightarrow> u32 option" where
  "strspn cs ct m = map_option (\<lambda>(al, esi). esi - 1 - cs) (span_loop m True ct (scan_len m ct) cs)"

definition strcspn :: "u32 \<Rightarrow> u32 \<Rightarrow> mem \<Rightarrow> u32 option" where
  "strcspn cs ct m = map_option (\<lambda>(al, esi). esi - 1 - cs) (span_loop m False ct (scan_len m ct) cs)"

definition strpbrk :: "u32 \<Rightarrow> u32 \<Rightarrow> mem \<Rightarrow> u32 option" where
  "strpbrk cs ct m = map_option (\<lambda>(al, esi). if al = 0 then 0 else esi - 1) (span_loop m False ct (scan_len m ct) cs)"

text \<open>\<open>flags\<close> are the flags at the head of the loop: the zero flag of \<open>decl %ecx\<close> in the first round.\<close>

partial_function (option) strstr_loop :: "mem \<Rightarrow> u32 \<Rightarrow> u32 \<Rightarrow> bool \<times> bool \<Rightarrow> u32 \<Rightarrow> u32 option" where
  "strstr_loop m ct edx flags esi =
     (case repe_cmpsb m esi ct (unat edx) flags of (eax, zf, lf) \<Rightarrow>
        if zf then Some esi
        else if m (eax - 1) \<noteq> 0 then strstr_loop m ct edx (False, False) (esi + 1) else Some 0)"

definition strstr :: "u32 \<Rightarrow> u32 \<Rightarrow> mem \<Rightarrow> u32 option" where
  "strstr cs ct m = (let edx = scan_len m ct in strstr_loop m ct edx (edx = 0, False) cs)"

definition strlen :: "u32 \<Rightarrow> mem \<Rightarrow> u32" where
  "strlen s m = scan_len m s"

subsection \<open>strtok\<close>

text \<open>\<open>old\<close> is the static \<open>___strtok\<close>; the value is the token, the new \<open>___strtok\<close> and the memory.\<close>

definition strtok :: "u32 \<Rightarrow> u32 \<Rightarrow> u32 \<Rightarrow> mem \<Rightarrow> (u32 \<times> u32 \<times> mem) option" where
  "strtok old s ct m =
     (if s = 0 \<and> old = 0 then Some (0, 0, m)
      else
        let s = (if s = 0 then old else s); edx = scan_len m ct in
        if edx = 0 then Some (0, 0, m)
        else
          case span_loop m True ct edx s of
            None \<Rightarrow> None
          | Some (al, esi) \<Rightarrow>
              if al = 0 then Some (0, 0, m)
              else
                let tok = esi - 1 in
                if m tok = 0 then Some (0, 0, m)
                else
                  case span_loop m False ct edx tok of
                    None \<Rightarrow> None
                  | Some (al, esi) \<Rightarrow>
                      let (nxt, m) = (if al = 0 \<or> m (esi - 1) = 0 then (0, m) else (esi, m(esi - 1 := 0)));
                          tok = (if m tok \<noteq> 0 then tok else 0)
                      in Some (tok, if tok \<noteq> 0 then nxt else 0, m))"

subsection \<open>Memory\<close>

definition memcpy :: "u32 \<Rightarrow> u32 \<Rightarrow> u32 \<Rightarrow> mem \<Rightarrow> u32 \<times> mem" where
  "memcpy dest src n m = (dest, rep_movsb 1 src dest (unat n) m)"

definition memmove :: "u32 \<Rightarrow> u32 \<Rightarrow> u32 \<Rightarrow> mem \<Rightarrow> u32 \<times> mem" where
  "memmove dest src n m =
     (dest, if dest < src then rep_movsb 1 src dest (unat n) m else rep_movsb (- 1) (src + n - 1) (dest + n - 1) (unat n) m)"

text \<open>\<open>flags\<close> are the flags the caller leaves, which decide when \<open>count\<close> is zero.\<close>

definition memcmp :: "bool \<times> bool \<Rightarrow> u32 \<Rightarrow> u32 \<Rightarrow> u32 \<Rightarrow> mem \<Rightarrow> int" where
  "memcmp flags cs ct count m =
     (case repe_cmpsb m ct cs (unat count) flags of (esi, zf, lf) \<Rightarrow> if zf then 0 else if lf then 1 else - 1)"

definition memchr :: "u32 \<Rightarrow> u8 \<Rightarrow> u32 \<Rightarrow> mem \<Rightarrow> u32" where
  "memchr cs c count m =
     (if count = 0 then 0
      else case repne_scasb m c cs (unat count) False of (edi, ecx, zf) \<Rightarrow> if zf then edi - 1 else 1 - 1)"

definition memset :: "u32 \<Rightarrow> u8 \<Rightarrow> u32 \<Rightarrow> mem \<Rightarrow> u32 \<times> mem" where
  "memset s c count m = (s, rep_stosb c s (unat count) m)"

end
