(* ===== verification/String_Laws.thy ===== *)
theory String_Laws
  imports Lib_String
begin

text \<open>
  What the string instructions compute: the length of a string, the search for a substring and the copy between overlapping areas.
\<close>

primrec bytes_at :: "mem \<Rightarrow> u32 \<Rightarrow> u8 list \<Rightarrow> bool" where
  "bytes_at m p [] \<longleftrightarrow> True"
| "bytes_at m p (x # xs) \<longleftrightarrow> m p = x \<and> bytes_at m (p + 1) xs"

definition string_at :: "mem \<Rightarrow> u32 \<Rightarrow> u8 list \<Rightarrow> bool" where
  "string_at m p xs \<longleftrightarrow> bytes_at m p (xs @ [0]) \<and> 0 \<notin> set xs"

lemma string_at_Nil [simp]: "string_at m p [] \<longleftrightarrow> m p = 0"
  by (simp add: string_at_def)

lemma string_at_Cons [simp]: "string_at m p (x # xs) \<longleftrightarrow> m p = x \<and> x \<noteq> 0 \<and> string_at m (p + 1) xs"
  by (auto simp: string_at_def)

lemma repne_scasb_string:
  "string_at m p xs \<Longrightarrow> length xs < n \<Longrightarrow>
    repne_scasb m 0 p n zf = (p + of_nat (Suc (length xs)), n - Suc (length xs), True)"
proof (induction xs arbitrary: p n zf)
  case Nil
  then show ?case by (subst repne_scasb.simps) simp
next
  case (Cons x xs)
  have "repne_scasb m 0 (p + 1) (n - 1) False = (p + 1 + of_nat (Suc (length xs)), n - 1 - Suc (length xs), True)"
    using Cons.prems by (intro Cons.IH) auto
  then show ?case using Cons.prems by (subst repne_scasb.simps) (simp add: algebra_simps)
qed

lemma not_of_nat: "k \<le> 0xffffffff \<Longrightarrow> NOT (of_nat (0xffffffff - k) :: u32) = of_nat k"
  by (simp add: of_nat_diff not_eq_complement)

lemma scan_len_string: "string_at m p xs \<Longrightarrow> length xs < 0xffffffff \<Longrightarrow> scan_len m p = of_nat (length xs)"
  using not_of_nat[of "Suc (length xs)"] by (simp add: scan_len_def repne_scasb_string)

text \<open>One comparison of \<open>strstr\<close>.\<close>

lemma repe_cmpsb_string:
  assumes "string_at m esi xs" "bytes_at m edi ys" "0 \<notin> set ys" "ys \<noteq> []"
  shows "\<exists>eax zf lf. repe_cmpsb m esi edi (length ys) fl = (eax, zf, lf) \<and> zf = (take (length ys) xs = ys) \<and>
    (\<not> zf \<longrightarrow> m (eax - 1) = 0 \<longrightarrow> length xs < length ys) \<and> (\<not> zf \<longrightarrow> xs = [] \<longrightarrow> m (eax - 1) = 0)"
  using assms
proof (induction ys arbitrary: esi edi xs fl)
  case (Cons y ys)
  have n: "m edi = y" "y \<noteq> 0" using Cons.prems by auto
  show ?case
  proof (cases xs)
    case Nil
    then show ?thesis using Cons.prems n by (subst repe_cmpsb.simps) auto
  next
    case (Cons x xs')
    note xs = this
    have x: "m esi = x" "x \<noteq> 0" "string_at m (esi + 1) xs'" using Cons.prems xs by auto
    show ?thesis
    proof (cases "x = y")
      case False
      then show ?thesis using x n xs by (subst repe_cmpsb.simps) auto
    next
      case True
      show ?thesis
      proof (cases "ys = []")
        case t: True
        then show ?thesis using x n xs True by (subst repe_cmpsb.simps) (auto simp: repe_cmpsb.simps)
      next
        case False
        have "bytes_at m (edi + 1) ys" "0 \<notin> set ys" using Cons.prems by auto
        from Cons.IH[OF x(3) this False, of "(True, False)"] obtain eax zf lf where
          "repe_cmpsb m (esi + 1) (edi + 1) (length ys) (True, False) = (eax, zf, lf)" "zf = (take (length ys) xs' = ys)"
          "\<not> zf \<longrightarrow> m (eax - 1) = 0 \<longrightarrow> length xs' < length ys" "\<not> zf \<longrightarrow> xs' = [] \<longrightarrow> m (eax - 1) = 0" by blast
        then show ?thesis using x n xs True by (subst repe_cmpsb.simps) auto
      qed
    qed
  qed
qed simp

definition occurs_at :: "u8 list \<Rightarrow> u8 list \<Rightarrow> nat \<Rightarrow> bool" where
  "occurs_at ys xs i \<longleftrightarrow> i \<le> length xs \<and> take (length ys) (drop i xs) = ys"

lemma occurs_at_Suc: "occurs_at ys (x # xs) (Suc i) \<longleftrightarrow> occurs_at ys xs i"
  by (simp add: occurs_at_def)

lemma occurs_at_short: "occurs_at ys xs i \<Longrightarrow> length ys \<le> length xs"
  by (auto simp: occurs_at_def dest!: arg_cong[of _ _ length])

lemma strstr_loop_finds:
  assumes "string_at m esi xs" "bytes_at m ct ys" "0 \<notin> set ys" "ys \<noteq> []" "unat edx = length ys"
  shows "\<exists>r. strstr_loop m ct edx fl esi = Some r \<and>
    ((\<exists>i. r = esi + of_nat i \<and> occurs_at ys xs i \<and> (\<forall>j<i. \<not> occurs_at ys xs j)) \<or> r = 0 \<and> (\<forall>i. \<not> occurs_at ys xs i))"
  using assms(1)
proof (induction xs arbitrary: esi fl)
  case Nil
  obtain eax zf lf where r: "repe_cmpsb m esi ct (unat edx) fl = (eax, zf, lf)" "zf = (take (length ys) [] = ys)" "\<not> zf \<longrightarrow> m (eax - 1) = 0"
    using repe_cmpsb_string[OF Nil assms(2-4), of fl] assms(5) by auto
  moreover have "\<not> zf" using r(2) assms(4) by auto
  moreover have "\<not> occurs_at ys [] i" for i using assms(4) by (auto simp: occurs_at_def)
  ultimately show ?case by (subst strstr_loop.simps) simp
next
  case (Cons x xs)
  obtain eax zf lf where r: "repe_cmpsb m esi ct (unat edx) fl = (eax, zf, lf)" "zf = (take (length ys) (x # xs) = ys)"
      "\<not> zf \<longrightarrow> m (eax - 1) = 0 \<longrightarrow> length (x # xs) < length ys"
    using repe_cmpsb_string[OF Cons.prems assms(2-4), of fl] assms(5) by auto
  have z: "occurs_at ys (x # xs) 0 \<longleftrightarrow> zf" using r(2) by (simp add: occurs_at_def)
  show ?case
  proof (cases "zf \<or> m (eax - 1) = 0")
    case True
    then consider zf | "\<not> zf" "m (eax - 1) = 0" by blast
    then show ?thesis
    proof cases
      case 1
      then show ?thesis using r(1) z by (subst strstr_loop.simps) (auto intro: exI[of _ 0])
    next
      case 2
      then have "\<not> occurs_at ys (x # xs) i" for i using r(3) occurs_at_short[of ys "x # xs" i] by auto
      then show ?thesis using r(1) 2 by (subst strstr_loop.simps) simp
    qed
  next
    case False
    then have st: "strstr_loop m ct edx fl esi = strstr_loop m ct edx (False, False) (esi + 1)"
      using r(1) by (subst strstr_loop.simps) simp
    have "string_at m (esi + 1) xs" using Cons.prems by simp
    from Cons.IH[OF this, of "(False, False)"] obtain q where q: "strstr_loop m ct edx (False, False) (esi + 1) = Some q"
      "(\<exists>i. q = esi + 1 + of_nat i \<and> occurs_at ys xs i \<and> (\<forall>j<i. \<not> occurs_at ys xs j)) \<or> q = 0 \<and> (\<forall>i. \<not> occurs_at ys xs i)" by blast
    have no0: "\<not> occurs_at ys (x # xs) 0" using False z by simp
    from q(2) have "(\<exists>i. q = esi + of_nat i \<and> occurs_at ys (x # xs) i \<and> (\<forall>j<i. \<not> occurs_at ys (x # xs) j)) \<or> q = 0 \<and> (\<forall>i. \<not> occurs_at ys (x # xs) i)"
    proof (elim disjE exE conjE)
      fix i assume i: "q = esi + 1 + of_nat i" "occurs_at ys xs i" "\<forall>j<i. \<not> occurs_at ys xs j"
      have "\<not> occurs_at ys (x # xs) j" if "j < Suc i" for j using that no0 i(3) by (cases j) (auto simp: occurs_at_Suc)
      then show ?thesis using i by (intro disjI1 exI[of _ "Suc i"]) (auto simp: occurs_at_Suc)
    next
      assume "q = 0" "\<forall>i. \<not> occurs_at ys xs i"
      then have "\<not> occurs_at ys (x # xs) i" for i using no0 by (cases i) (auto simp: occurs_at_Suc)
      then show ?thesis using \<open>q = 0\<close> by blast
    qed
    then show ?thesis using st q(1) by auto
  qed
qed

text \<open>C38. \<open>strstr\<close> on two terminated strings ends and returns the first place where the second occurs in the first, or the null pointer when it
  occurs nowhere; the empty string occurs at the beginning.\<close>

theorem strstr_first:
  assumes "string_at m cs xs" "string_at m ct ys" "length ys < 0xffffffff"
  shows "\<exists>r. strstr cs ct m = Some r \<and>
    ((\<exists>i. r = cs + of_nat i \<and> occurs_at ys xs i \<and> (\<forall>j<i. \<not> occurs_at ys xs j)) \<or> r = 0 \<and> (\<forall>i. \<not> occurs_at ys xs i))"
proof -
  have len: "scan_len m ct = of_nat (length ys)" using assms by (intro scan_len_string)
  show ?thesis
  proof (cases "ys = []")
    case True
    then have "strstr cs ct m = Some cs" unfolding strstr_def using len by (subst strstr_loop.simps) (simp add: repe_cmpsb.simps)
    moreover have "occurs_at ys xs 0" using True by (simp add: occurs_at_def)
    ultimately show ?thesis by (auto intro: exI[of _ 0])
  next
    case False
    have "unat (of_nat (length ys) :: u32) = length ys" using assms(3) by (simp add: unat_of_nat take_bit_nat_eq_self)
    moreover have "bytes_at m p (us @ vs) \<Longrightarrow> bytes_at m p us" for p us vs by (induction us arbitrary: p) auto
    then have "bytes_at m ct ys" "0 \<notin> set ys" using assms(2) by (auto simp: string_at_def)
    ultimately show ?thesis unfolding strstr_def len Let_def using False assms(1) by (intro strstr_loop_finds) auto
  qed
qed

theorem strstr_first_witness:
  "\<exists>r. strstr 0x100 0x200 ((\<lambda>_. 0)(0x100 := 0x61, 0x101 := 0x61, 0x102 := 0x62, 0x200 := 0x61, 0x201 := 0x62)) = Some r \<and>
    (\<exists>i. r = 0x100 + of_nat i \<and> occurs_at [0x61, 0x62] [0x61, 0x61, 0x62] i)"
proof -
  let ?m = "(\<lambda>_. 0)(0x100 := 0x61, 0x101 := 0x61, 0x102 := 0x62, 0x200 := 0x61, 0x201 := 0x62) :: mem"
  have "occurs_at [0x61, 0x62] [0x61, 0x61, 0x62 :: u8] 1" by (simp add: occurs_at_def)
  then show ?thesis
    using strstr_first[of ?m "0x100" "[0x61, 0x61, 0x62]" "0x200" "[0x61, 0x62]"] by auto
qed

subsection \<open>Overlapping areas\<close>

lemma rep_movsb_copies:
  assumes "\<And>i j. i < j \<Longrightarrow> j < n \<Longrightarrow> esi + of_nat j * d \<noteq> edi + of_nat i * d \<and> of_nat i * d \<noteq> of_nat j * d"
  shows "rep_movsb d esi edi n m = (\<lambda>a. if \<exists>i<n. a = edi + of_nat i * d then m (esi + (a - edi)) else m a)"
  using assms
proof (induction n arbitrary: esi edi m)
  case 0
  then show ?case by (subst rep_movsb.simps) simp
next
  case (Suc n)
  let ?m = "m(edi := m esi)"
  have h: "esi + d + of_nat j * d \<noteq> edi + d + of_nat i * d \<and> of_nat i * d \<noteq> of_nat j * d" if "i < j" "j < n" for i j
    using Suc.prems[of i j] that by simp
  have "rep_movsb d esi edi (Suc n) m = rep_movsb d (esi + d) (edi + d) n ?m" by (subst rep_movsb.simps) simp
  also have "\<dots> = (\<lambda>a. if \<exists>i<n. a = edi + d + of_nat i * d then ?m (esi + d + (a - (edi + d))) else ?m a)"
    by (rule Suc.IH[OF h])
  also have "\<dots> = (\<lambda>a. if \<exists>i<Suc n. a = edi + of_nat i * d then m (esi + (a - edi)) else m a)"
  proof
    fix a
    have ex: "(\<exists>i<Suc n. a = edi + of_nat i * d) \<longleftrightarrow> a = edi \<or> (\<exists>i<n. a = edi + d + of_nat i * d)"
      by (auto simp: Ex_less_Suc2 algebra_simps)
    show "(if \<exists>i<n. a = edi + d + of_nat i * d then ?m (esi + d + (a - (edi + d))) else ?m a) =
      (if \<exists>i<Suc n. a = edi + of_nat i * d then m (esi + (a - edi)) else m a)"
    proof (cases "\<exists>i<n. a = edi + d + of_nat i * d")
      case True
      then obtain i where i: "i < n" "a = edi + d + of_nat i * d" by blast
      have "esi + of_nat (Suc i) * d \<noteq> edi" using Suc.prems[of 0 "Suc i"] i(1) by simp
      then have "esi + (a - edi) \<noteq> edi" using i(2) by (simp add: algebra_simps)
      then show ?thesis using True ex by (auto simp: algebra_simps)
    next
      case False
      then show ?thesis using ex by auto
    qed
  qed
  finally show ?case .
qed

lemma offset_lt_iff: "(a - d < (n :: u32)) \<longleftrightarrow> (\<exists>i<unat n. a = d + of_nat i)"
proof
  assume "a - d < n"
  then show "\<exists>i<unat n. a = d + of_nat i" by (intro exI[of _ "unat (a - d)"]) (simp add: word_less_nat_alt)
next
  assume "\<exists>i<unat n. a = d + of_nat i"
  then obtain i where i: "i < unat n" "a = d + of_nat i" by blast
  have "unat (of_nat i :: u32) = i" using i(1) unsigned_less[of n, where ?'a = nat] by (simp add: unat_of_nat take_bit_nat_eq_self)
  then show "a - d < n" using i by (simp add: word_less_nat_alt)
qed

text \<open>Two places in areas that do not wrap around.\<close>

lemma area_eq_iff:
  assumes "unat (p :: u32) + k \<le> 2 ^ 32" "unat q + k \<le> 2 ^ 32" "i < k" "j < k"
  shows "p + of_nat i = q + of_nat j \<longleftrightarrow> unat p + i = unat q + j"
proof -
  have "unat (p + of_nat i) = unat p + i" "unat (q + of_nat j) = unat q + j"
    using assms by (subst unat_plus_if', simp add: unat_of_nat take_bit_nat_eq_self)+
  then show ?thesis by (metis word_unat_eq_iff)
qed

text \<open>C39. \<open>memmove\<close> copies as if through a buffer of its own: afterwards the area at \<open>dest\<close> holds what the area at \<open>src\<close> held before, and every
  other byte is unchanged, whichever way the two areas overlap.\<close>

theorem memmove_overlap:
  assumes "unat src + unat n \<le> 2 ^ 32" "unat dest + unat n \<le> 2 ^ 32"
  shows "memmove dest src n m = (dest, \<lambda>a. if a - dest < n then m (src + (a - dest)) else m a)"
proof (cases "dest < src")
  case True
  have "src + of_nat j * 1 \<noteq> dest + of_nat i * 1 \<and> of_nat i * 1 \<noteq> (of_nat j * 1 :: u32)" if "i < j" "j < unat n" for i j
    using that assms True area_eq_iff[of src "unat n" dest j i] area_eq_iff[of dest "unat n" dest i j] by (auto simp: word_less_nat_alt)
  note copy = rep_movsb_copies[OF this]
  show ?thesis using True by (simp add: memmove_def offset_lt_iff copy)
next
  case False
  let ?N = "unat n" and ?s = "src + n - 1" and ?d = "dest + n - 1"
  have down: "p + n - 1 + of_nat i * - 1 = p + of_nat (?N - 1 - i)" if "i < ?N" for i :: nat and p :: u32
  proof -
    have "of_nat (?N - 1 - i) = (of_nat ?N - 1 - of_nat i :: u32)" using that by (simp add: of_nat_diff)
    then show ?thesis by (simp add: algebra_simps)
  qed
  have "?s + of_nat j * - 1 \<noteq> ?d + of_nat i * - 1 \<and> of_nat i * - 1 \<noteq> (of_nat j * - 1 :: u32)" if "i < j" "j < ?N" for i j
    using that assms False down[of i] down[of j] area_eq_iff[of src ?N dest "?N - 1 - j" "?N - 1 - i"] area_eq_iff[of dest ?N dest i j]
    by (auto simp: word_less_nat_alt)
  note copy = rep_movsb_copies[OF this]
  have "(\<exists>i<?N. a = ?d + of_nat i * - 1) \<longleftrightarrow> a - dest < n" for a
  proof -
    have "(\<exists>i<?N. a = ?d + of_nat i * - 1) \<longleftrightarrow> (\<exists>i<?N. a = dest + of_nat (?N - 1 - i))" using down[of _ dest] by auto
    also have "\<dots> \<longleftrightarrow> (\<exists>i<?N. a = dest + of_nat i)"
    proof (intro iffI; elim exE conjE)
      fix i assume "i < ?N" "a = dest + of_nat (?N - 1 - i)"
      then show "\<exists>i<?N. a = dest + of_nat i" by (intro exI[of _ "?N - 1 - i"]) simp
    next
      fix i assume "i < ?N" "a = dest + of_nat i"
      then show "\<exists>i<?N. a = dest + of_nat (?N - 1 - i)" by (intro exI[of _ "?N - 1 - i"]) simp
    qed
    finally show ?thesis by (simp add: offset_lt_iff)
  qed
  moreover have "?s + (a - ?d) = src + (a - dest)" for a by (simp only: algebra_simps)
  ultimately show ?thesis using False by (simp only: memmove_def copy if_False)
qed

theorem memmove_overlap_witness:
  "memmove 0x101 0x100 2 ((\<lambda>_. 0)(0x100 := 1, 0x101 := 2, 0x102 := 3)) =
    (0x101, \<lambda>a. if a - 0x101 < 2 then ((\<lambda>_. 0)(0x100 := 1, 0x101 := 2, 0x102 := 3)) (0x100 + (a - 0x101))
      else ((\<lambda>_. 0)(0x100 := 1, 0x101 := 2, 0x102 := 3)) a)"
  by (rule memmove_overlap) simp_all

end
