(* ===== verification/Blk_Hd.thy ===== *)
theory Blk_Hd
  imports Fs_Open
begin

text \<open>
  The hard disk driver, src/kernel/blk_drv/hd.c, the interrupt routine of src/kernel/system_call.s that calls it, and \<open>rd_load\<close> of ramdisk.c, which
  \<open>sys_setup\<close> calls.

  The controller is not part of the program: \<open>hd_input k p\<close> is what the \<open>k\<close>-th input from a port reads when the port is \<open>p\<close>, and \<open>hd_data k\<close> the
  sector the \<open>k\<close>-th transfer from the data port delivers. Output goes to the log \<open>ports\<close>, sectors written to \<open>hd_sectors\<close>.
\<close>

abbreviation (input) HD_DATA :: u16 where "HD_DATA \<equiv> 0x1f0"
abbreviation (input) HD_ERROR :: u16 where "HD_ERROR \<equiv> 0x1f1"
abbreviation (input) HD_STATUS :: u16 where "HD_STATUS \<equiv> 0x1f7"
abbreviation (input) HD_CMD :: u16 where "HD_CMD \<equiv> 0x3f6"
abbreviation (input) WIN_RESTORE :: u8 where "WIN_RESTORE \<equiv> 0x10"
abbreviation (input) WIN_READ :: u8 where "WIN_READ \<equiv> 0x20"
abbreviation (input) WIN_WRITE :: u8 where "WIN_WRITE \<equiv> 0x30"
abbreviation (input) WIN_SPECIFY :: u8 where "WIN_SPECIFY \<equiv> 0x91"
abbreviation (input) HD_MAX_ERRORS :: int where "HD_MAX_ERRORS \<equiv> 7"

record hd_i_struct =
  hi_head :: u32
  hi_sect :: u32
  hi_cyl :: u32
  hi_wpcom :: u32
  hi_lzone :: u32
  hi_ctl :: u32

record hd_struct =
  start_sect :: u32
  nr_sects :: u32

datatype hd_intr = Read_Intr | Write_Intr | Recal_Intr

record hd_state = tty_state +
  hd_info :: "nat \<Rightarrow> hd_i_struct"
  NR_HD :: nat
  hd :: "nat \<Rightarrow> hd_struct"
  recalibrate :: bool
  hd_reset :: bool
  do_hd :: "hd_intr option"
  callable :: bool
  hd_input :: "nat \<Rightarrow> u16 \<Rightarrow> u8"
  hd_ins :: nat
  hd_data :: "nat \<Rightarrow> block"
  hd_reads :: nat
  hd_sectors :: "u8 list list"

subsection \<open>Ports\<close>

definition hd_inb :: "u16 \<Rightarrow> 'z hd_state_scheme \<Rightarrow> u8 \<times> 'z hd_state_scheme" where
  "hd_inb p s = (hd_input s (hd_ins s) p, s\<lparr>hd_ins := Suc (hd_ins s)\<rparr>)"

text \<open>\<open>port_read(HD_DATA, buf, 256)\<close> and \<open>port_write\<close>, 512 bytes at the offset \<open>off\<close> of the data of a buffer.\<close>

definition port_read :: "nat \<Rightarrow> nat \<Rightarrow> 'z hd_state_scheme \<Rightarrow> 'z hd_state_scheme" where
  "port_read b off s =
     (upd_buf b (\<lambda>h. h\<lparr>b_data := (\<lambda>i. if off \<le> i \<and> i < off + 512 then hd_data s (hd_reads s) (i - off) else b_data h i)\<rparr>) s)
       \<lparr>hd_reads := Suc (hd_reads s)\<rparr>"

definition port_write :: "nat \<Rightarrow> nat \<Rightarrow> 'z hd_state_scheme \<Rightarrow> 'z hd_state_scheme" where
  "port_write b off s = s\<lparr>hd_sectors := hd_sectors s @ [map (\<lambda>i. b_data (bufs s b) (off + i)) [0..<512]]\<rparr>"

text \<open>\<open>while (--retries && (inb_p(HD_STATUS)&0xc0)!=0x40)\<close>.\<close>

fun ready_loop :: "nat \<Rightarrow> 'z hd_state_scheme \<Rightarrow> nat \<times> 'z hd_state_scheme" where
  "ready_loop retries s =
     (if retries \<le> 1 then (0, s)
      else
        let (v, s) = hd_inb HD_STATUS s
        in if v AND 0xc0 \<noteq> 0x40 then ready_loop (retries - 1) s else (retries - 1, s))"

declare ready_loop.simps [simp del]

definition controller_ready :: "'z hd_state_scheme \<Rightarrow> nat \<times> 'z hd_state_scheme" where
  "controller_ready s = ready_loop 10000 s"

text \<open>Whether the last command failed.\<close>

definition win_result :: "'z hd_state_scheme \<Rightarrow> bool \<times> 'z hd_state_scheme" where
  "win_result s =
     (let (i, s) = hd_inb HD_STATUS s in
      if i AND 0xf1 = 0x50 then (False, s)
      else if i AND 1 \<noteq> 0 then (True, snd (hd_inb HD_ERROR s))
      else (True, s))"

definition hd_out ::
    "u32 \<Rightarrow> u32 \<Rightarrow> u32 \<Rightarrow> u32 \<Rightarrow> u32 \<Rightarrow> u8 \<Rightarrow> hd_intr \<Rightarrow> 'z hd_state_scheme \<Rightarrow> (unit, 'z hd_state_scheme) kres" where
  "hd_out drive nsect sect head cyl cmd intr_addr s =
     (if drive > 1 \<or> head > 15 then Panic ''Trying to write bad sector'' s
      else
        let (r, s) = controller_ready s in
        if r = 0 then Panic ''HD controller not ready'' s
        else
          let d = hd_info s (unat drive);
              s = s\<lparr>do_hd := Some intr_addr\<rparr>;
              s = outb (ucast (hi_ctl d)) HD_CMD s;
              s = outb (ucast (drop_bit 2 (hi_wpcom d))) 0x1f1 s;
              s = outb (ucast nsect) 0x1f2 s;
              s = outb (ucast sect) 0x1f3 s;
              s = outb (ucast cyl) 0x1f4 s;
              s = outb (ucast (drop_bit 8 cyl)) 0x1f5 s;
              s = outb (ucast (0xA0 OR push_bit 4 drive OR head)) 0x1f6 s
          in Ok () (outb cmd 0x1f7 s))"

fun busy_loop :: "nat \<Rightarrow> 'z hd_state_scheme \<Rightarrow> 'z hd_state_scheme" where
  "busy_loop n s =
     (if n = 0 then s
      else let (v, s) = hd_inb HD_STATUS s in if v AND 0xc0 = 0x40 then s else busy_loop (n - 1) s)"

declare busy_loop.simps [simp del]

text \<open>The test \<open>i == READY_STAT | SEEK_STAT\<close> is \<open>(i == READY_STAT) | SEEK_STAT\<close>.\<close>

definition drive_busy :: "'z hd_state_scheme \<Rightarrow> bool \<times> 'z hd_state_scheme" where
  "drive_busy s =
     (let (i, s) = hd_inb HD_STATUS (busy_loop 10000 s);
          i = i AND 0xd0 in
      if (if i = 0x40 then 1 else 0) OR (0x10 :: u8) \<noteq> 0 then (False, s)
      else (True, printk ''HD controller times out'' s))"

definition reset_controller :: "'z hd_state_scheme \<Rightarrow> 'z hd_state_scheme" where
  "reset_controller s =
     (let s = outb 4 HD_CMD s;
          s = outb (ucast (hi_ctl (hd_info s 0) AND 0x0f)) HD_CMD s;
          (b, s) = drive_busy s;
          s = (if b then printk ''HD-controller still busy'' s else s);
          (i, s) = hd_inb HD_ERROR s
      in if i \<noteq> 1 then printk ''HD-controller reset failed: %02x'' s else s)"

definition reset_hd :: "nat \<Rightarrow> 'z hd_state_scheme \<Rightarrow> (unit, 'z hd_state_scheme) kres" where
  "reset_hd nr s =
     (let s = reset_controller s; d = hd_info s nr
      in hd_out (of_nat nr) (hi_sect d) (hi_sect d) (hi_head d - 1) (hi_cyl d) WIN_SPECIFY Recal_Intr s)"

definition unexpected_hd_interrupt :: "'z hd_state_scheme \<Rightarrow> 'z hd_state_scheme" where
  "unexpected_hd_interrupt = printk ''Unexpected HD interrupt''"

subsection \<open>Requests\<close>

definition hd_end_request :: "u8 \<Rightarrow> 'z hd_state_scheme \<Rightarrow> (unit, 'z hd_state_scheme) kres" where
  "hd_end_request = end_request ''harddisk'' (\<lambda>_ s. s) 3"

text \<open>\<open>CURRENT->errors\<close> behind \<open>end_request\<close> is read through the next request, a null pointer when there is none:
  a \<open>Fault\<close>, although at this privilege the processor reads the word at that address and goes on.\<close>

definition bad_rw_intr :: "'z hd_state_scheme \<Rightarrow> (unit, 'z hd_state_scheme) kres" where
  "bad_rw_intr s =
     (case current_request s 3 of
        None \<Rightarrow> Fault s
      | Some r \<Rightarrow>
          let s = upd_req r (\<lambda>q. q\<lparr>rq_errors := rq_errors q + 1\<rparr>) s in
          bindk (if rq_errors (requests_tab s r) \<ge> HD_MAX_ERRORS then hd_end_request 0 s else Ok () s) (\<lambda>_ s.
            case current_request s 3 of
              None \<Rightarrow> Fault s
            | Some r \<Rightarrow> Ok () (if rq_errors (requests_tab s r) > HD_MAX_ERRORS div 2 then s\<lparr>hd_reset := True\<rparr> else s)))"

text \<open>\<open>for (i=0 ; i<3000 && !(r=inb_p(HD_STATUS)&DRQ_STAT) ; i++)\<close>: the last \<open>r\<close>.\<close>

fun drq_loop :: "nat \<Rightarrow> 'z hd_state_scheme \<Rightarrow> bool \<times> 'z hd_state_scheme" where
  "drq_loop n s =
     (if n = 0 then (False, s)
      else let (v, s) = hd_inb HD_STATUS s in if v AND 8 \<noteq> 0 then (True, s) else drq_loop (n - 1) s)"

declare drq_loop.simps [simp del]

text \<open>The cylinder, head and sector of an absolute sector, by the two \<open>divl\<close>; a division by zero is a \<open>Fault\<close>.\<close>

definition hd_chs :: "hd_i_struct \<Rightarrow> u32 \<Rightarrow> (u32 \<times> u32 \<times> u32) option" where
  "hd_chs d block =
     (if hi_sect d = 0 \<or> hi_head d = 0 then None
      else
        let sec = block mod hi_sect d; block = block div hi_sect d
        in Some (block div hi_head d, block mod hi_head d, sec + 1))"

definition hd_bad_block :: "request \<Rightarrow> 'z hd_state_scheme \<Rightarrow> bool" where
  "hd_bad_block q s =
     (let dev = MINOR (word_of_int (rq_dev q)) in dev \<ge> 5 * NR_HD s \<or> rq_sector q + 2 > nr_sects (hd s dev))"

text \<open>One round of \<open>do_hd_request\<close> for the request \<open>q\<close>: \<open>True\<close> is \<open>goto repeat\<close>.\<close>

definition hd_round :: "request \<Rightarrow> 'z hd_state_scheme \<Rightarrow> (bool, 'z hd_state_scheme) kres" where
  "hd_round q s =
     (if hd_bad_block q s then bindk (hd_end_request 0 s) (\<lambda>_ s. Ok True s)
      else
        let dev = MINOR (word_of_int (rq_dev q));
            block = rq_sector q + start_sect (hd s dev);
            dev = dev div 5; fin = (\<lambda>_. Ok False) in
        case hd_chs (hd_info s dev) block of
          None \<Rightarrow> Fault s
        | Some (cyl, head, sec) \<Rightarrow>
            if hd_reset s then bindk (reset_hd dev (s\<lparr>hd_reset := False, recalibrate := True\<rparr>)) fin
            else if recalibrate s
            then bindk (hd_out (of_nat dev) (hi_sect (hd_info s dev)) 0 0 0 WIN_RESTORE Recal_Intr (s\<lparr>recalibrate := False\<rparr>)) fin
            else if rq_cmd q = WRITE
            then bindk (hd_out (of_nat dev) (rq_nr_sectors q) sec head cyl WIN_WRITE Write_Intr s) (\<lambda>_ s.
                   let (r, s) = drq_loop 3000 s in
                   if \<not> r then bindk (bad_rw_intr s) (\<lambda>_. Ok True) else Ok False (port_write (rq_buffer q) (rq_offset q) s))
            else if rq_cmd q = READ
            then bindk (hd_out (of_nat dev) (rq_nr_sectors q) sec head cyl WIN_READ Read_Intr s) fin
            else Panic ''unknown hd-command'' s)"

primrec hd_loop :: "nat \<Rightarrow> 'z hd_state_scheme \<Rightarrow> (unit, 'z hd_state_scheme) kres" where
  "hd_loop 0 s = Blocked s"
| "hd_loop (Suc n) s =
     bindk (init_request ''harddisk'' 3 s) (\<lambda>c s.
       case c of
         None \<Rightarrow> Ok () s
       | Some q \<Rightarrow> bindk (hd_round q s) (\<lambda>again s. if again then hd_loop n s else Ok () s))"

text \<open>A round that repeats either takes a request off the queue or counts an error, and no request gets more than \<open>MAX_ERRORS\<close>: eight rounds
  for each entry of the table are enough.\<close>

definition do_hd_request :: "'z hd_state_scheme \<Rightarrow> (unit, 'z hd_state_scheme) kres" where
  "do_hd_request s = hd_loop (8 * NR_REQUEST + 1) s"

definition read_intr :: "'z hd_state_scheme \<Rightarrow> (unit, 'z hd_state_scheme) kres" where
  "read_intr s =
     (let (bad, s) = win_result s in
      if bad then bindk (bad_rw_intr s) (\<lambda>_. do_hd_request)
      else
        case current_request s 3 of
          None \<Rightarrow> Fault s
        | Some r \<Rightarrow>
            let q = requests_tab s r;
                s = port_read (rq_buffer q) (rq_offset q) s;
                s = upd_req r (\<lambda>q. q\<lparr>rq_errors := 0, rq_offset := rq_offset q + 512, rq_sector := rq_sector q + 1,
                                  rq_nr_sectors := rq_nr_sectors q - 1\<rparr>) s in
            if rq_nr_sectors (requests_tab s r) \<noteq> 0 then Ok () (s\<lparr>do_hd := Some Read_Intr\<rparr>)
            else bindk (hd_end_request 1 s) (\<lambda>_. do_hd_request))"

definition write_intr :: "'z hd_state_scheme \<Rightarrow> (unit, 'z hd_state_scheme) kres" where
  "write_intr s =
     (let (bad, s) = win_result s in
      if bad then bindk (bad_rw_intr s) (\<lambda>_. do_hd_request)
      else
        case current_request s 3 of
          None \<Rightarrow> Fault s
        | Some r \<Rightarrow>
            let s = upd_req r (\<lambda>q. q\<lparr>rq_nr_sectors := rq_nr_sectors q - 1\<rparr>) s in
            if rq_nr_sectors (requests_tab s r) \<noteq> 0
            then
              let s = upd_req r (\<lambda>q. q\<lparr>rq_sector := rq_sector q + 1, rq_offset := rq_offset q + 512\<rparr>) s;
                  q = requests_tab s r
              in Ok () (port_write (rq_buffer q) (rq_offset q) (s\<lparr>do_hd := Some Write_Intr\<rparr>))
            else bindk (hd_end_request 1 s) (\<lambda>_. do_hd_request))"

definition recal_intr :: "'z hd_state_scheme \<Rightarrow> (unit, 'z hd_state_scheme) kres" where
  "recal_intr s =
     (let (bad, s) = win_result s in
      if bad then bindk (bad_rw_intr s) (\<lambda>_. do_hd_request) else do_hd_request s)"

definition hd_interrupt :: "'z hd_state_scheme \<Rightarrow> (unit, 'z hd_state_scheme) kres" where
  "hd_interrupt s =
     (let s = outb 0x20 0xA0 s; h = do_hd s; s = outb 0x20 0x20 (s\<lparr>do_hd := None\<rparr>) in
      case h of
        None \<Rightarrow> Ok () (unexpected_hd_interrupt s)
      | Some Read_Intr \<Rightarrow> read_intr s
      | Some Write_Intr \<Rightarrow> write_intr s
      | Some Recal_Intr \<Rightarrow> recal_intr s)"

definition hd_init :: "'z hd_state_scheme \<Rightarrow> 'z hd_state_scheme" where
  "hd_init s =
     (let (a, s) = hd_inb 0x21 s;
          s = outb (a AND 0xfb) 0x21 s;
          (b, s) = hd_inb 0xA1 s
      in outb (b AND 0xbf) 0xA1 s)"

subsection \<open>Set-up\<close>

text \<open>\<open>rd_load\<close> of src/kernel/blk_drv/ramdisk.c. The loop runs until \<open>nblocks\<close> is zero; \<open>cp\<close> is the offset in the RAM disk.\<close>

primrec rd_load_loop :: "nat \<Rightarrow> u32 \<Rightarrow> nat \<Rightarrow> (bool, 'z fs_state_scheme) proc" where
  "rd_load_loop 0 block cp = retp True"
| "rd_load_loop (Suc n) block cp =
     bindp (getp ROOT_DEV) (\<lambda>dev.
     bindp (if sint (of_nat (Suc n) :: u32) > 2 then breada dev block [uint block + 1, uint block + 2, - 1] else bread dev block) (\<lambda>r.
       case r of
         None \<Rightarrow> seqp (modp (printk ''I/O error on block %d, aborting load'')) (retp False)
       | Some bh \<Rightarrow>
           seqp (modp (\<lambda>s. s\<lparr>rd_mem := (\<lambda>i. if cp \<le> i \<and> i < cp + 1024 then b_data (bufs s bh) (i - cp) else rd_mem s i)\<rparr>))
           (seqp (brelse (Some bh)) (seqp (modp (printk ''%4dk'')) (rd_load_loop n (block + 1) (cp + 1024))))))"

definition rd_load :: "(unit, 'z fs_state_scheme) proc" where
  "rd_load =
     ifp (\<lambda>s. rd_length s = 0) (retp ())
     (seqp (modp (printk ''Ram disk: %d bytes, starting at 0x%x''))
     (ifp (\<lambda>s. MAJOR (ucast (ROOT_DEV s)) \<noteq> 2) (retp ())
     (bindp (getp ROOT_DEV) (\<lambda>dev.
      bindp (breada dev 257 [256, 258, - 1]) (\<lambda>r.
        case r of
          None \<Rightarrow> modp (printk ''Disk error while looking for ramdisk!'')
        | Some bh \<Rightarrow>
            bindp (getp (\<lambda>s. (decode_super (b_data (bufs s bh)) no_super, rd_length s))) (\<lambda>(p, len).
            let nblocks = push_bit (unat (s_log_zone_size p) mod 32) (ucast (s_nzones p) :: u32) in
            seqp (brelse (Some bh))
              (if s_magic p \<noteq> SUPER_MAGIC then retp ()
               else if sint nblocks > len div 1024 then modp (printk ''Ram disk image too big!  (%d blocks, %d avail)'')
               else
                 seqp (modp (printk ''Loading %d bytes into ram disk... 0000k''))
                 (bindp (rd_load_loop (unat nblocks) 256 0) (\<lambda>done.
                    if done then modp (\<lambda>s. (printk ''done'' s)\<lparr>ROOT_DEV := 0x101\<rparr>) else retp ())))))))))"

text \<open>The drive parameters of the BIOS, sixteen bytes for each drive.\<close>

definition bios_drive :: "(u32 \<Rightarrow> u8) \<Rightarrow> u32 \<Rightarrow> hd_i_struct" where
  "bios_drive m a =
     (let half = (\<lambda>k. ucast (m (a + k)) OR push_bit 8 (ucast (m (a + k + 1))) :: u32) in
      \<lparr>hi_head = ucast (m (a + 2)), hi_sect = ucast (m (a + 14)), hi_cyl = half 0, hi_wpcom = half 5, hi_lzone = half 12, hi_ctl = ucast (m (a + 8))\<rparr>)"

definition drive_sects :: "hd_i_struct \<Rightarrow> hd_struct" where
  "drive_sects d = \<lparr>start_sect = 0, nr_sects = hi_head d * hi_sect d * hi_cyl d\<rparr>"

definition read_drives :: "u32 \<Rightarrow> 'z hd_state_scheme \<Rightarrow> 'z hd_state_scheme" where
  "read_drives BIOS s =
     (let s = s\<lparr>hd_info := (hd_info s)(0 := bios_drive (phys_byte s) BIOS, 1 := bios_drive (phys_byte s) (BIOS + 16))\<rparr>;
          s = s\<lparr>NR_HD := (if hi_cyl (hd_info s 1) \<noteq> 0 then 2 else 1)\<rparr>;
          s = s\<lparr>hd := (\<lambda>k. if k mod 5 = 0 \<and> k div 5 < NR_HD s then drive_sects (hd_info s (k div 5)) else hd s k)\<rparr>;
          (cmos, s) = hd_inb 0x71 (outb 0x92 0x70 s);
          s = s\<lparr>NR_HD := (if cmos AND 0xf0 \<noteq> 0 then (if cmos AND 0x0f \<noteq> 0 then 2 else 1) else 0)\<rparr>
      in s\<lparr>hd := (\<lambda>k. if k mod 5 = 0 \<and> NR_HD s \<le> k div 5 \<and> k div 5 < 2 then \<lparr>start_sect = 0, nr_sects = 0\<rparr> else hd s k)\<rparr>)"

text \<open>The partition table of one drive, four entries of sixteen bytes at 0x1BE.\<close>

definition part_entry :: "block \<Rightarrow> nat \<Rightarrow> hd_struct" where
  "part_entry d i = (let a = 0x1be + 16 * (i - 1) in \<lparr>start_sect = get_u32 d (a + 8), nr_sects = get_u32 d (a + 12)\<rparr>)"

definition read_partitions :: "nat \<Rightarrow> (unit, 'z hd_state_scheme) proc" where
  "read_partitions drive =
     bindp (bread (of_nat (0x300 + drive * 5)) 0) (\<lambda>r.
       case r of
         None \<Rightarrow> seqp (modp (printk ''Unable to read partition table of drive %d'')) (panicp '''')
       | Some bh \<Rightarrow>
           bindp (getp (\<lambda>s. b_data (bufs s bh))) (\<lambda>d.
             if d 510 \<noteq> 0x55 \<or> d 511 \<noteq> 0xAA
             then seqp (modp (printk ''Bad partition table on drive %d'')) (panicp '''')
             else
               seqp (modp (\<lambda>s. s\<lparr>hd := (\<lambda>k. if 1 + 5 * drive \<le> k \<and> k < 5 + 5 * drive then part_entry d (k - 5 * drive) else hd s k)\<rparr>))
                 (brelse (Some bh))))"

definition sys_setup :: "u32 \<Rightarrow> (int, 'z hd_state_scheme) proc" where
  "sys_setup BIOS =
     ifp (\<lambda>s. \<not> callable s) (retp (- 1))
     (seqp (modp (\<lambda>s. read_drives BIOS (s\<lparr>callable := False\<rparr>)))
     (bindp (getp NR_HD) (\<lambda>n.
      seqp (forp [0..<n] read_partitions)
      (seqp (if n \<noteq> 0 then modp (printk ''Partition table%s ok.'') else retp ())
      (seqp rd_load (seqp mount_root (retp 0)))))))"

end
