(* ===== verification/Hd_Laws.thy ===== *)
theory Hd_Laws
  imports Blk_Hd
begin

text \<open>
  The hard disk driver: the loop of \<open>do_hd_request\<close> ends whatever the controller answers, a command it gives addresses the sector of the request inside
  its partition, and a read request is completed by two interrupts.
\<close>

text \<open>Nothing the driver does with the ports touches the queue, the buffers or the tables of the drives.\<close>

definition same_queue :: "'z hd_state_scheme \<Rightarrow> 'z hd_state_scheme \<Rightarrow> bool" where
  "same_queue s t \<longleftrightarrow> requests_tab t = requests_tab s \<and> current_request t = current_request s \<and> bufs t = bufs s \<and> hd_info t = hd_info s"

lemma same_queue_trans [trans]: "same_queue s t \<Longrightarrow> same_queue t u \<Longrightarrow> same_queue s u"
  by (simp add: same_queue_def)

lemma same_queue_refl [simp]: "same_queue s s"
  by (simp add: same_queue_def)

lemma same_queue_inb: "same_queue s (snd (hd_inb p s))"
  by (simp add: same_queue_def hd_inb_def)

lemma same_queue_ready: "same_queue s (snd (ready_loop n s))"
proof (induction n s rule: ready_loop.induct)
  case (1 n s)
  have "same_queue s (snd (ready_loop (n - 1) (snd (hd_inb 0x1f7 s))))" if "\<not> n \<le> 1" "fst (hd_inb 0x1f7 s) AND 0xc0 \<noteq> 0x40"
    using same_queue_trans[OF same_queue_inb 1] that by (metis prod.collapse)
  then show ?case using same_queue_inb[of s "0x1f7"] by (subst ready_loop.simps) (auto simp: case_prod_beta Let_def)
qed

lemma same_queue_drq: "same_queue s (snd (drq_loop n s))"
proof (induction n s rule: drq_loop.induct)
  case (1 n s)
  have "same_queue s (snd (drq_loop (n - 1) (snd (hd_inb 0x1f7 s))))" if "n \<noteq> 0" "\<not> fst (hd_inb 0x1f7 s) AND 8 \<noteq> 0"
    using same_queue_trans[OF same_queue_inb 1] that by (metis prod.collapse)
  then show ?case using same_queue_inb[of s "0x1f7"] by (subst drq_loop.simps) (auto simp: case_prod_beta Let_def)
qed

lemma same_queue_busy: "same_queue s (busy_loop n s)"
proof (induction n s rule: busy_loop.induct)
  case (1 n s)
  have "same_queue s (busy_loop (n - 1) (snd (hd_inb 0x1f7 s)))" if "n \<noteq> 0" "fst (hd_inb 0x1f7 s) AND 0xc0 \<noteq> 0x40"
    using same_queue_trans[OF same_queue_inb 1] that by (metis prod.collapse)
  then show ?case using same_queue_inb[of s "0x1f7"] by (subst busy_loop.simps) (auto simp: case_prod_beta Let_def)
qed

lemma same_queue_upd:
  "same_queue s (outb v p t) = same_queue s t" "same_queue s (printk msg t) = same_queue s t" "same_queue s (t\<lparr>do_hd := h\<rparr>) = same_queue s t"
  "same_queue (u\<lparr>hd_reset := x, recalibrate := y\<rparr>) t = same_queue u t" "same_queue (u\<lparr>recalibrate := y\<rparr>) t = same_queue u t"
  by (simp_all add: same_queue_def outb_def printk_def)

lemma same_queue_reset: "same_queue s (reset_controller s)"
proof -
  let ?a = "outb (ucast (hi_ctl (hd_info s 0) AND 0x0f)) 0x3f6 (outb 4 0x3f6 s)"
  have b: "same_queue s (snd (drive_busy ?a))"
    using same_queue_trans[OF same_queue_busy same_queue_inb, of ?a "0x1f7" 10000]
    by (simp add: drive_busy_def Let_def case_prod_beta same_queue_def outb_def)
  have h: "hd_info (outb 4 0x3f6 s) = hd_info s" by (simp add: outb_def)
  show ?thesis
    using same_queue_trans[OF b same_queue_inb[of _ "0x1f1"]] b
    by (auto simp: reset_controller_def Let_def case_prod_beta same_queue_upd h same_queue_def printk_def hd_inb_def)
qed

text \<open>The outcome of a command: it is given, or the kernel stops.\<close>

lemma hd_out_cases:
  "(\<exists>s'. hd_out drive nsect sect head cyl cmd h s = Ok () s' \<and> same_queue s s') \<or>
   (\<exists>m s'. hd_out drive nsect sect head cyl cmd h s = Panic m s')"
proof -
  have "same_queue s (snd (controller_ready s))" by (simp add: controller_ready_def same_queue_ready)
  then show ?thesis by (auto simp: hd_out_def Let_def case_prod_beta same_queue_upd)
qed

lemma reset_hd_cases:
  "(\<exists>s'. reset_hd nr s = Ok () s' \<and> same_queue s s') \<or> (\<exists>m s'. reset_hd nr s = Panic m s')"
proof -
  define t where "t = reset_controller s"
  have "same_queue s t" by (simp add: t_def same_queue_reset)
  then show ?thesis
    using hd_out_cases[of "of_nat nr" "hi_sect (hd_info t nr)" "hi_sect (hd_info t nr)" "hi_head (hd_info t nr) - 1" "hi_cyl (hd_info t nr)" "0x91" Recal_Intr t]
      same_queue_trans by (fastforce simp: reset_hd_def Let_def t_def[symmetric])
qed

subsection \<open>The loop ends\<close>

text \<open>The rounds the queue \<open>ns\<close> can still cost.\<close>

definition cost1 :: "int \<Rightarrow> nat" where
  "cost1 e = nat (7 - e) + 1"

definition cost :: "(nat \<Rightarrow> request) \<Rightarrow> nat list \<Rightarrow> nat" where
  "cost rt ns = (\<Sum>r\<leftarrow>ns. cost1 (rq_errors (rt r)))"

definition hd_queue :: "nat list \<Rightarrow> 'z hd_state_scheme \<Rightarrow> bool" where
  "hd_queue ns s \<longleftrightarrow> rchain (requests_tab s) (current_request s 3) ns \<and> distinct ns"

lemma rchain_cong: "(\<And>r. r \<in> set ns \<Longrightarrow> rq_next (f r) = rq_next (g r)) \<Longrightarrow> rchain f p ns = rchain g p ns"
  by (induction ns arbitrary: p) auto

lemma cost_cong: "(\<And>r. r \<in> set ns \<Longrightarrow> rq_errors (f r) = rq_errors (g r)) \<Longrightarrow> cost f ns = cost g ns"
  unfolding cost_def by (induction ns) auto

text \<open>What is left after a request was ended, and after an error was counted.\<close>

lemma end_request_pops:
  assumes "hd_queue (r # ns) s"
  shows "\<exists>s'. hd_end_request u s = Ok () s' \<and> hd_queue ns s' \<and> cost (requests_tab s') ns = cost (requests_tab s) ns"
proof -
  have c: "current_request s 3 = Some r" "r \<notin> set ns" using assms by (auto simp: hd_queue_def)
  obtain s' where e: "hd_end_request u s = Ok () s'" using c by (auto simp: hd_end_request_def end_request_def Let_def)
  have q: "current_request s' 3 = rq_next (requests_tab s r)" "requests_tab s' = (requests_tab s)(r := (requests_tab s r)\<lparr>rq_dev := - 1\<rparr>)"
    using e c(1) by (auto simp: hd_end_request_def end_request_def Let_def unlock_buffer_def upd_buf_def upd_req_def printk_def split: option.splits if_splits)
  have "rchain (requests_tab s') (current_request s' 3) ns = rchain (requests_tab s) (rq_next (requests_tab s r)) ns"
    unfolding q using c(2) by (intro rchain_cong) auto
  then have "hd_queue ns s'" using assms by (simp add: hd_queue_def)
  moreover have "cost (requests_tab s') ns = cost (requests_tab s) ns" unfolding q using c(2) by (intro cost_cong) auto
  ultimately show ?thesis using e by blast
qed

lemma bad_rw_intr_cases:
  assumes "hd_queue (r # ns) s"
  shows "(\<exists>s'. bad_rw_intr s = Fault s') \<or>
    (\<exists>s' ms. bad_rw_intr s = Ok () s' \<and> hd_queue ms s' \<and> cost (requests_tab s') ms < cost (requests_tab s) (r # ns))"
proof -
  let ?e = "rq_errors (requests_tab s r) + 1"
  define t where "t = upd_req r (\<lambda>q. q\<lparr>rq_errors := rq_errors q + 1\<rparr>) s"
  have c: "current_request s 3 = Some r" "r \<notin> set ns" using assms by (auto simp: hd_queue_def)
  have t: "requests_tab t = (requests_tab s)(r := (requests_tab s r)\<lparr>rq_errors := ?e\<rparr>)" "current_request t = current_request s"
    by (simp_all add: t_def upd_req_def)
  have qt: "hd_queue (r # ns) t"
  proof -
    have "rchain (requests_tab t) (current_request t 3) (r # ns) = rchain (requests_tab s) (current_request t 3) (r # ns)"
      unfolding t by (intro rchain_cong) auto
    then show ?thesis using assms t(2) by (simp add: hd_queue_def)
  qed
  have ct: "cost (requests_tab t) ns = cost (requests_tab s) ns" unfolding t using c(2) by (intro cost_cong) auto
  have cs: "cost (requests_tab s) (r # ns) = cost1 (rq_errors (requests_tab s r)) + cost (requests_tab s) ns" by (simp add: cost_def)
  have unf: "bad_rw_intr s = bindk (if ?e \<ge> 7 then hd_end_request 0 t else Ok () t) (\<lambda>_ s.
            case current_request s 3 of
              None \<Rightarrow> Fault s
            | Some r \<Rightarrow> Ok () (if rq_errors (requests_tab s r) > 7 div 2 then s\<lparr>hd_reset := True\<rparr> else s))"
    using c(1) t(1) by (simp add: bad_rw_intr_def Let_def t_def[symmetric])
  have rs: "hd_queue ms (u\<lparr>hd_reset := True\<rparr>) = hd_queue ms u" "requests_tab (u\<lparr>hd_reset := True\<rparr>) = requests_tab u" for ms and u :: "'a hd_state_scheme"
    by (simp_all add: hd_queue_def)
  show ?thesis
  proof (cases "?e \<ge> 7")
    case True
    obtain u where u: "hd_end_request 0 t = Ok () u" "hd_queue ns u" "cost (requests_tab u) ns = cost (requests_tab s) ns"
      using end_request_pops[OF qt] ct by metis
    have lt: "cost (requests_tab u) ns < cost (requests_tab s) (r # ns)" using u(3) cs by (simp add: cost1_def)
    show ?thesis
    proof (cases "current_request u 3")
      case None
      then show ?thesis using True u(1) by (simp add: unf)
    next
      case (Some r')
      then show ?thesis using True u(1,2) lt rs by (auto simp: unf)
    qed
  next
    case False
    have "cost (requests_tab t) (r # ns) < cost (requests_tab s) (r # ns)"
      using False ct cs t(1) by (simp add: cost_def cost1_def)
    then show ?thesis using False c(1) t qt rs by (auto simp: unf)
  qed
qed

lemma hd_queue_same: "same_queue s t \<Longrightarrow> hd_queue ns t = hd_queue ns s \<and> cost (requests_tab t) ns = cost (requests_tab s) ns"
  by (simp add: hd_queue_def same_queue_def)

lemma bindk_fin_cases:
  "(\<exists>u. m = Ok () u \<and> same_queue s u) \<or> (\<exists>e u. m = Panic e u) \<Longrightarrow>
    (\<exists>u. bindk m (\<lambda>_. Ok False) = Ok False u) \<or> (\<exists>e u. bindk m (\<lambda>_. Ok False) = Panic e u)"
  by auto

lemma hd_write_cases:
  fixes drive nsect sect head cyl cmd h b off
  assumes "hd_queue (r # ns) s"
  defines "w \<equiv> bindk (hd_out drive nsect sect head cyl cmd h s) (\<lambda>_ s. let (r, s) = drq_loop 3000 s in
                   if \<not> r then bindk (bad_rw_intr s) (\<lambda>_. Ok True) else Ok False (port_write b off s))"
  shows "(\<exists>s'. w = Ok False s') \<or> (\<exists>e s'. w = Panic e s') \<or> (\<exists>s'. w = Fault s') \<or>
    (\<exists>s' ms. w = Ok True s' \<and> hd_queue ms s' \<and> cost (requests_tab s') ms < cost (requests_tab s) (r # ns))"
  using hd_out_cases[of drive nsect sect head cyl cmd h s]
proof (elim disjE exE conjE)
  fix t assume t: "hd_out drive nsect sect head cyl cmd h s = Ok () t" "same_queue s t"
  obtain d u where u: "drq_loop 3000 t = (d, u)" by fastforce
  have su: "same_queue s u" using same_queue_trans[OF t(2) same_queue_drq] u by (metis snd_conv)
  have w: "w = (if \<not> d then bindk (bad_rw_intr u) (\<lambda>_. Ok True) else Ok False (port_write b off u))" by (simp add: w_def t(1) u)
  show ?thesis
  proof (cases d)
    case True
    then show ?thesis by (simp add: w)
  next
    case False
    have "hd_queue (r # ns) u" "cost (requests_tab u) (r # ns) = cost (requests_tab s) (r # ns)" using hd_queue_same[OF su] assms(1) by simp_all
    then show ?thesis using bad_rw_intr_cases[of r ns u] False by (auto simp: w)
  qed
qed (simp add: w_def)

lemma hd_round_cases:
  assumes "hd_queue (r # ns) s"
  shows "(\<exists>s'. hd_round q s = Ok False s') \<or> (\<exists>e s'. hd_round q s = Panic e s') \<or> (\<exists>s'. hd_round q s = Fault s') \<or>
    (\<exists>s' ms. hd_round q s = Ok True s' \<and> hd_queue ms s' \<and> cost (requests_tab s') ms < cost (requests_tab s) (r # ns))"
proof (cases "hd_bad_block q s")
  case True
  obtain u where u: "hd_end_request 0 s = Ok () u" "hd_queue ns u" "cost (requests_tab u) ns = cost (requests_tab s) ns"
    using end_request_pops[OF assms] by metis
  then have "cost (requests_tab u) ns < cost (requests_tab s) (r # ns)" by (simp add: cost_def cost1_def)
  then show ?thesis using True u by (auto simp: hd_round_def)
next
  case False
  let ?dev = "MINOR (word_of_int (rq_dev q))"
  show ?thesis
  proof (cases "hd_chs (hd_info s (?dev div 5)) (rq_sector q + start_sect (hd s ?dev))")
    case None
    then show ?thesis using False by (simp add: hd_round_def Let_def)
  next
    case (Some chs)
    obtain cyl head sec where chs: "chs = (cyl, head, sec)" by (cases chs)
    define w where "w = bindk (hd_out (of_nat (?dev div 5)) (rq_nr_sectors q) sec head cyl 0x30 Write_Intr s) (\<lambda>_ s. let (r, s) = drq_loop 3000 s in
                   if \<not> r then bindk (bad_rw_intr s) (\<lambda>_. Ok True) else Ok False (port_write (rq_buffer q) (rq_offset q) s))"
    have w': "(\<exists>s'. w = Ok False s') \<or> (\<exists>e s'. w = Panic e s') \<or> (\<exists>s'. w = Fault s') \<or>
      (\<exists>s' ms. w = Ok True s' \<and> hd_queue ms s' \<and> cost (requests_tab s') ms < cost (requests_tab s) (r # ns))"
      unfolding w_def by (rule hd_write_cases[OF assms])
    note reset = bindk_fin_cases[OF reset_hd_cases[of "?dev div 5" "s\<lparr>hd_reset := False, recalibrate := True\<rparr>"]]
    note out = bindk_fin_cases[OF hd_out_cases]
    have e: "hd_round q s =
       (if hd_reset s then bindk (reset_hd (?dev div 5) (s\<lparr>hd_reset := False, recalibrate := True\<rparr>)) (\<lambda>_. Ok False)
        else if recalibrate s
        then bindk (hd_out (of_nat (?dev div 5)) (hi_sect (hd_info s (?dev div 5))) 0 0 0 0x10 Recal_Intr (s\<lparr>recalibrate := False\<rparr>)) (\<lambda>_. Ok False)
        else if rq_cmd q = WRITE then w
        else if rq_cmd q = READ then bindk (hd_out (of_nat (?dev div 5)) (rq_nr_sectors q) sec head cyl 0x20 Read_Intr s) (\<lambda>_. Ok False)
        else Panic ''unknown hd-command'' s)"
      using False Some chs by (simp add: hd_round_def Let_def w_def)
    consider "hd_reset s" | "\<not> hd_reset s" "recalibrate s" | "\<not> hd_reset s" "\<not> recalibrate s" "rq_cmd q = WRITE"
      | "\<not> hd_reset s" "\<not> recalibrate s" "rq_cmd q \<noteq> WRITE" "rq_cmd q = READ" | "\<not> hd_reset s" "\<not> recalibrate s" "rq_cmd q \<noteq> WRITE" "rq_cmd q \<noteq> READ" by blast
    then show ?thesis
    proof cases
      case 1
      then show ?thesis using reset by (simp only: e if_True) blast
    next
      case 2
      then show ?thesis using out by (simp only: e if_True if_False) blast
    next
      case 3
      then have "hd_round q s = w" using e by simp
      then show ?thesis using w' by simp
    next
      case 4
      then have "hd_round q s = bindk (hd_out (of_nat (?dev div 5)) (rq_nr_sectors q) sec head cyl 0x20 Read_Intr s) (\<lambda>_. Ok False)" using e by simp
      then show ?thesis using out by metis
    next
      case 5
      then show ?thesis by (simp add: e)
    qed
  qed
qed

lemma init_request_cases:
  "(init_request nm k s = Ok None s \<and> current_request s k = None) \<or> (\<exists>e. init_request nm k s = Panic e s) \<or>
   (\<exists>r. current_request s k = Some r \<and> init_request nm k s = Ok (Some (requests_tab s r)) s)"
  by (cases "current_request s k") (auto simp: init_request_def Let_def split: option.split)

lemma hd_loop_ends:
  "hd_queue ns s \<Longrightarrow> cost (requests_tab s) ns < n \<Longrightarrow> hd_loop n s \<noteq> Blocked s'"
proof (induction n arbitrary: s ns)
  case (Suc n)
  consider "init_request ''harddisk'' 3 s = Ok None s" | e where "init_request ''harddisk'' 3 s = Panic e s"
    | q where "init_request ''harddisk'' 3 s = Ok (Some q) s" "current_request s 3 \<noteq> None"
    using init_request_cases by (metis option.distinct(1))
  then show ?case
  proof cases
    case 3
    obtain r ms where ns: "ns = r # ms" using 3(2) Suc.prems(1) by (cases ns) (auto simp: hd_queue_def)
    have loop: "hd_loop (Suc n) s = bindk (hd_round q s) (\<lambda>again s. if again then hd_loop n s else Ok () s)" using 3(1) by simp
    show ?thesis using hd_round_cases[OF Suc.prems(1)[unfolded ns], of q]
    proof (elim disjE exE conjE)
      fix u ls assume u: "hd_round q s = Ok True u" "hd_queue ls u" "cost (requests_tab u) ls < cost (requests_tab s) (r # ms)"
      then have "hd_loop n u \<noteq> Blocked s'" using Suc.IH[OF u(2)] Suc.prems(2) ns by simp
      then show ?thesis using u(1) loop by simp
    qed (simp_all add: loop del: hd_loop.simps)
  qed auto
qed simp

text \<open>C19. \<open>do_hd_request\<close> ends: for every queue of requests whose errors are counted from zero and for every behaviour of the controller, its loop is left
  within the bound of the model, with a command given, an empty queue or a panic. It never goes on for ever.\<close>

theorem do_hd_request_ends:
  assumes "hd_queue ns s" "set ns \<subseteq> {..<NR_REQUEST}" "\<forall>r\<in>set ns. 0 \<le> rq_errors (requests_tab s r)"
  shows "do_hd_request s \<noteq> Blocked s'"
proof -
  have "length ns = card (set ns)" using assms(1) by (simp add: hd_queue_def distinct_card)
  then have "length ns \<le> 32" using card_mono[OF _ assms(2)] by simp
  moreover have "cost (requests_tab s) ns \<le> 8 * length ns"
    using assms(3) unfolding cost_def by (induction ns) (auto simp: cost1_def)
  ultimately show ?thesis unfolding do_hd_request_def by (intro hd_loop_ends[OF assms(1)]) simp
qed

subsection \<open>The command\<close>

text \<open>The sector a command addresses, computed from the bytes at the ports.\<close>

definition chs_lba :: "hd_i_struct \<Rightarrow> u8 \<Rightarrow> u8 \<Rightarrow> u8 \<Rightarrow> u8 \<Rightarrow> nat" where
  "chs_lba d sec lcyl hcyl dh =
     ((unat lcyl + 256 * unat hcyl) * unat (hi_head d) + unat (dh AND 0xf)) * unat (hi_sect d) + unat sec - 1"

lemma unat_ucast8: "unat (ucast (x :: u32) :: u8) = unat x mod 256"
  by (simp add: unsigned_ucast_eq take_bit_eq_mod)

lemma cyl_bytes:
  assumes "unat (c :: u32) < 65536"
  shows "unat (ucast c :: u8) + 256 * unat (ucast (drop_bit 8 c) :: u8) = unat c"
proof -
  have "unat (drop_bit 8 c) = unat c div 256" using unat_div[of c 256] by (simp add: drop_bit_eq_div)
  moreover have "unat c div 256 < 256" using assms by simp
  ultimately show ?thesis by (simp add: unat_ucast8)
qed

lemma current_byte:
  assumes "unat (h :: u32) < 16" "d < 2"
  shows "unat ((ucast (0xA0 OR push_bit 4 (of_nat d) OR h) :: u8) AND 0xf) = unat h"
    "bit (ucast (0xA0 OR push_bit 4 (of_nat d) OR h) :: u8) 4 = (d = 1)"
proof -
  have "h = of_nat (unat h)" by simp
  moreover have "unat h \<in> {..<16}" using assms(1) by simp
  then have "unat h \<in> {0, 1, 2, 3, 4, 5, 6, 7, 8, 9, 10, 11, 12, 13, 14, 15}" by (auto simp: lessThan_nat_numeral lessThan_Suc)
  ultimately obtain k where k: "h = of_nat k" "unat h = k" "k \<in> {0, 1, 2, 3, 4, 5, 6, 7, 8, 9, 10, 11, 12, 13, 14, 15}" by blast
  have d: "d = 0 \<or> d = 1" using assms(2) by auto
  show "unat ((ucast (0xA0 OR push_bit 4 (of_nat d) OR h) :: u8) AND 0xf) = unat h"
    using k(3) d unfolding k(2) unfolding k(1) by auto
  show "bit (ucast (0xA0 OR push_bit 4 (of_nat d) OR h) :: u8) 4 = (d = 1)"
    using k(3) d unfolding k(1) by auto
qed

lemma hd_out_command:
  assumes "drive \<le> 1" "head \<le> 15" "controller_ready s = (r, t)" "0 < r"
  shows "\<exists>s'. hd_out drive nsect sect head cyl cmd h s = Ok () s' \<and> do_hd s' = Some h \<and> same_queue s s' \<and>
    ports s' = ports t @ [(0x3f6, ucast (hi_ctl (hd_info s (unat drive)))), (0x1f1, ucast (drop_bit 2 (hi_wpcom (hd_info s (unat drive))))),
      (0x1f2, ucast nsect), (0x1f3, ucast sect), (0x1f4, ucast cyl), (0x1f5, ucast (drop_bit 8 cyl)),
      (0x1f6, ucast (0xA0 OR push_bit 4 drive OR head)), (0x1f7, cmd)]"
proof -
  have q: "same_queue s t" using same_queue_ready[of s 10000] assms(3) by (simp add: controller_ready_def)
  then have "hd_info t = hd_info s" by (simp add: same_queue_def)
  then show ?thesis using assms q by (auto simp: hd_out_def Let_def outb_def same_queue_def)
qed

lemma ports_ready: "ports (snd (ready_loop n s)) = ports s"
proof (induction n s rule: ready_loop.induct)
  case (1 n s)
  have i: "ports (snd (hd_inb 0x1f7 s)) = ports s" by (simp add: hd_inb_def)
  have "ports (snd (ready_loop (n - 1) (snd (hd_inb 0x1f7 s)))) = ports s" if "\<not> n \<le> 1" "fst (hd_inb 0x1f7 s) AND 0xc0 \<noteq> 0x40"
    using 1 that i by (metis prod.collapse)
  then show ?case using i by (subst ready_loop.simps) (auto simp: case_prod_beta Let_def)
qed

text \<open>The geometry of a drive as its registers can hold it, and a partition that lies on it.\<close>

definition drive_ok :: "hd_i_struct \<Rightarrow> bool" where
  "drive_ok d \<longleftrightarrow> 0 < unat (hi_sect d) \<and> unat (hi_sect d) \<le> 255 \<and> 0 < unat (hi_head d) \<and> unat (hi_head d) \<le> 16 \<and> unat (hi_cyl d) \<le> 65536"

definition part_ok :: "hd_i_struct \<Rightarrow> hd_struct \<Rightarrow> bool" where
  "part_ok d p \<longleftrightarrow> unat (start_sect p) + unat (nr_sects p) \<le> unat (hi_sect d) * unat (hi_head d) * unat (hi_cyl d)"

lemma hd_chs_inverse:
  assumes "drive_ok d" "unat b < unat (hi_sect d) * unat (hi_head d) * unat (hi_cyl d)" "k < 2"
  shows "\<exists>cyl head sec. hd_chs d b = Some (cyl, head, sec) \<and> head \<le> 15 \<and>
    chs_lba d (ucast sec) (ucast cyl) (ucast (drop_bit 8 cyl)) (ucast (0xA0 OR push_bit 4 (of_nat k) OR head)) = unat b"
proof -
  let ?S = "unat (hi_sect d)" and ?H = "unat (hi_head d)" and ?b = "unat b"
  let ?cyl = "b div hi_sect d div hi_head d" and ?head = "b div hi_sect d mod hi_head d" and ?sec = "b mod hi_sect d + 1"
  have g: "0 < ?S" "?S \<le> 255" "0 < ?H" "?H \<le> 16" "unat (hi_cyl d) \<le> 65536" using assms(1) by (auto simp: drive_ok_def)
  have "hi_sect d \<noteq> 0" "hi_head d \<noteq> 0" using g(1,3) by auto
  then have e: "hd_chs d b = Some (?cyl, ?head, ?sec)" by (simp add: hd_chs_def Let_def)
  have uc: "unat ?cyl = ?b div ?S div ?H" by (simp add: unat_div)
  have uh: "unat ?head = ?b div ?S mod ?H" by (simp add: unat_div unat_mod)
  have sl: "?b mod ?S < ?S" using g(1) by simp
  have us: "unat ?sec = ?b mod ?S + 1" using sl g(2) by (subst unat_plus_if') (simp add: unat_mod)
  have "?b < ?S * (?H * unat (hi_cyl d))" using assms(2) by (simp add: mult.assoc)
  then have "?b div ?S < ?H * unat (hi_cyl d)" using g(1) by (simp add: less_mult_imp_div_less mult.commute)
  then have "?b div ?S div ?H < unat (hi_cyl d)" using g(3) by (simp add: less_mult_imp_div_less mult.commute)
  then have c: "unat ?cyl < 65536" using uc g(5) by simp
  have h: "unat ?head < 16" using uh g(3,4) by (metis mod_less_divisor order_less_le_trans)
  have s8: "unat (ucast ?sec :: u8) = ?b mod ?S + 1" using us sl g(2) by (simp add: unat_ucast8)
  have "(?b div ?S div ?H) * ?H + ?b div ?S mod ?H = ?b div ?S" by simp
  then have "((?b div ?S div ?H) * ?H + ?b div ?S mod ?H) * ?S + (?b mod ?S + 1) - 1 = ?b" by simp
  then have "chs_lba d (ucast ?sec) (ucast ?cyl) (ucast (drop_bit 8 ?cyl)) (ucast (0xA0 OR push_bit 4 (of_nat k) OR ?head)) = ?b"
    unfolding chs_lba_def cyl_bytes[OF c] current_byte(1)[OF h assms(3)] s8 uc uh by simp
  moreover have "?head \<le> 15" using h by (simp add: word_le_nat_alt)
  ultimately show ?thesis using e by blast
qed

lemma do_hd_request_Suc: "do_hd_request s = hd_loop (Suc 256) s"
  by (simp add: do_hd_request_def del: hd_loop.simps)

text \<open>A request at the head of the queue that \<open>do_hd_request\<close> accepts: the driver is idle, the sectors lie in the partition of the device.\<close>

definition hd_accepts :: "nat \<Rightarrow> 'z hd_state_scheme \<Rightarrow> bool" where
  "hd_accepts r s \<longleftrightarrow>
     (let q = requests_tab s r; dev = MINOR (word_of_int (rq_dev q)); d = hd_info s (dev div 5); p = hd s dev in
      current_request s 3 = Some r \<and> MAJOR (word_of_int (rq_dev q)) = 3 \<and> (\<forall>b. rq_bh q = Some b \<longrightarrow> b_lock (bufs s b) \<noteq> 0) \<and>
      dev < 5 * NR_HD s \<and> NR_HD s \<le> 2 \<and> drive_ok d \<and> part_ok d p \<and> unat (rq_sector q) + 2 \<le> unat (nr_sects p) \<and>
      \<not> hd_reset s \<and> \<not> recalibrate s)"

lemma hd_accepts_chs:
  assumes "hd_accepts r s"
  defines "q \<equiv> requests_tab s r"
  defines "dev \<equiv> MINOR (word_of_int (rq_dev q))"
  shows "init_request ''harddisk'' 3 s = Ok (Some q) s" "\<not> hd_bad_block q s" "dev div 5 < 2"
    "\<exists>cyl head sec. hd_chs (hd_info s (dev div 5)) (rq_sector q + start_sect (hd s dev)) = Some (cyl, head, sec) \<and> head \<le> 15 \<and>
      chs_lba (hd_info s (dev div 5)) (ucast sec) (ucast cyl) (ucast (drop_bit 8 cyl)) (ucast (0xA0 OR push_bit 4 (of_nat (dev div 5)) OR head)) =
      unat (start_sect (hd s dev)) + unat (rq_sector q)"
proof -
  let ?d = "hd_info s (dev div 5)" and ?p = "hd s dev"
  have a: "current_request s 3 = Some r" "MAJOR (word_of_int (rq_dev q)) = 3" "\<forall>b. rq_bh q = Some b \<longrightarrow> b_lock (bufs s b) \<noteq> 0"
    "dev < 5 * NR_HD s" "NR_HD s \<le> 2" "drive_ok ?d" "part_ok ?d ?p" "unat (rq_sector q) + 2 \<le> unat (nr_sects ?p)"
    using assms(1) by (simp_all add: hd_accepts_def Let_def q_def dev_def)
  show "init_request ''harddisk'' 3 s = Ok (Some q) s"
    using a(1-3) by (auto simp: init_request_def Let_def q_def split: option.split)
  have "unat (rq_sector q + 2) = unat (rq_sector q) + 2" using a(8) unsigned_less[of "nr_sects ?p", where ?'a = nat]
    by (subst unat_plus_if') simp
  then show "\<not> hd_bad_block q s" using a(4,8) by (simp add: hd_bad_block_def Let_def dev_def[symmetric] word_less_nat_alt)
  show k: "dev div 5 < 2" using a(4,5) by simp
  have g: "unat (hi_sect ?d) \<le> 255" "unat (hi_head ?d) \<le> 16" "unat (hi_cyl ?d) \<le> 65536" using a(6) by (auto simp: drive_ok_def)
  have "unat (hi_sect ?d) * unat (hi_head ?d) * unat (hi_cyl ?d) \<le> 255 * 16 * 65536" by (intro mult_le_mono g)
  then have sum: "unat (rq_sector q) + unat (start_sect ?p) < unat (hi_sect ?d) * unat (hi_head ?d) * unat (hi_cyl ?d)"
    "unat (rq_sector q) + unat (start_sect ?p) < 2 ^ 32"
    using a(7,8) by (simp_all add: part_ok_def)
  then have u: "unat (rq_sector q + start_sect ?p) = unat (start_sect ?p) + unat (rq_sector q)" by (subst unat_plus_if') simp
  show "\<exists>cyl head sec. hd_chs ?d (rq_sector q + start_sect ?p) = Some (cyl, head, sec) \<and> head \<le> 15 \<and>
      chs_lba ?d (ucast sec) (ucast cyl) (ucast (drop_bit 8 cyl)) (ucast (0xA0 OR push_bit 4 (of_nat (dev div 5)) OR head)) =
      unat (start_sect ?p) + unat (rq_sector q)"
    using hd_chs_inverse[OF a(6) _ k, of "rq_sector q + start_sect ?p"] sum(1) u by simp
qed

text \<open>C17. The command for a read. When the controller is ready, \<open>do_hd_request\<close> gives it exactly one command, in eight bytes, and sets the interrupt routine. The
  cylinder, head and sector it writes address the sector of the request on the drive of the request, and all its sectors are inside the partition.\<close>

theorem hd_read_command:
  assumes "hd_accepts r s" "rq_cmd (requests_tab s r) = READ" "unat (rq_nr_sectors (requests_tab s r)) \<le> 2" "fst (controller_ready s) \<noteq> 0"
  shows "let q = requests_tab s r; dev = MINOR (word_of_int (rq_dev q)); d = hd_info s (dev div 5); p = hd s dev in
    \<exists>s' sec lcyl hcyl dh. do_hd_request s = Ok () s' \<and> do_hd s' = Some Read_Intr \<and>
      requests_tab s' = requests_tab s \<and> current_request s' = current_request s \<and> bufs s' = bufs s \<and>
      ports s' = ports s @ [(0x3f6, ucast (hi_ctl d)), (0x1f1, ucast (drop_bit 2 (hi_wpcom d))), (0x1f2, ucast (rq_nr_sectors q)),
        (0x1f3, sec), (0x1f4, lcyl), (0x1f5, hcyl), (0x1f6, dh), (0x1f7, WIN_READ)] \<and>
      bit dh 4 = (dev div 5 = 1) \<and> chs_lba d sec lcyl hcyl dh = unat (start_sect p) + unat (rq_sector q) \<and>
      chs_lba d sec lcyl hcyl dh + unat (rq_nr_sectors q) \<le> unat (start_sect p) + unat (nr_sects p)"
proof -
  define q where "q = requests_tab s r"
  define dev where "dev = MINOR (word_of_int (rq_dev q))"
  note acc = hd_accepts_chs[OF assms(1), folded q_def, folded dev_def]
  obtain cyl head sec where chs: "hd_chs (hd_info s (dev div 5)) (rq_sector q + start_sect (hd s dev)) = Some (cyl, head, sec)" "head \<le> 15"
    "chs_lba (hd_info s (dev div 5)) (ucast sec) (ucast cyl) (ucast (drop_bit 8 cyl)) (ucast (0xA0 OR push_bit 4 (of_nat (dev div 5)) OR head)) =
      unat (start_sect (hd s dev)) + unat (rq_sector q)"
    using acc(4) by blast
  obtain c t where c: "controller_ready s = (c, t)" "0 < c" using assms(4) by (cases "controller_ready s") auto
  have pt: "ports t = ports s" using ports_ready[of 10000 s] c(1) by (simp add: controller_ready_def)
  have ud: "unat (of_nat (dev div 5) :: u32) = dev div 5" using acc(3) by (simp add: unat_of_nat take_bit_nat_eq_self)
  have "of_nat (dev div 5) \<le> (1 :: u32)" using acc(3) ud by (simp add: word_le_nat_alt)
  from hd_out_command[OF this chs(2) c(1,2), of "rq_nr_sectors q" sec cyl "0x20" Read_Intr, unfolded ud pt]
  obtain s' where s': "hd_out (of_nat (dev div 5)) (rq_nr_sectors q) sec head cyl 0x20 Read_Intr s = Ok () s'" "do_hd s' = Some Read_Intr" "same_queue s s'"
    "ports s' = ports s @ [(0x3f6, ucast (hi_ctl (hd_info s (dev div 5)))), (0x1f1, ucast (drop_bit 2 (hi_wpcom (hd_info s (dev div 5))))),
      (0x1f2, ucast (rq_nr_sectors q)), (0x1f3, ucast sec), (0x1f4, ucast cyl), (0x1f5, ucast (drop_bit 8 cyl)),
      (0x1f6, ucast (0xA0 OR push_bit 4 (of_nat (dev div 5)) OR head)), (0x1f7, 0x20)]" by blast
  have fl: "\<not> hd_reset s" "\<not> recalibrate s" "unat (rq_sector q) + 2 \<le> unat (nr_sects (hd s dev))"
    using assms(1) by (simp_all add: hd_accepts_def Let_def q_def dev_def)
  have "hd_round q s = Ok False s'"
    using acc(2) chs(1) fl s'(1) assms(2) by (simp add: hd_round_def Let_def dev_def[symmetric] q_def[symmetric])
  then have d: "do_hd_request s = Ok () s'" unfolding do_hd_request_Suc hd_loop.simps using acc(1) by simp
  have h: "unat head < 16" using chs(2) by (simp add: word_le_nat_alt)
  have "bit (ucast (0xA0 OR push_bit 4 (of_nat (dev div 5)) OR head) :: u8) 4 = (dev div 5 = 1)" by (rule current_byte(2)[OF h acc(3)])
  then show ?thesis unfolding Let_def q_def[symmetric] dev_def[symmetric]
    using d s' chs(3) fl(3) assms(3)[folded q_def]
    by (intro exI[of _ s'] exI[of _ "ucast sec"] exI[of _ "ucast cyl"] exI[of _ "ucast (drop_bit 8 cyl)"] exI[of _ "ucast (0xA0 OR push_bit 4 (of_nat (dev div 5)) OR head)"])
      (simp add: same_queue_def)
qed

subsection \<open>The transfer\<close>

text \<open>The state before an interrupt of a read that succeeds: \<open>n\<close> sectors are still to come and \<open>k\<close> have been read.\<close>

definition reading :: "nat \<Rightarrow> nat \<Rightarrow> nat \<Rightarrow> nat \<Rightarrow> 'z hd_state_scheme \<Rightarrow> bool" where
  "reading r b k n s \<longleftrightarrow> current_request s 3 = Some r \<and> do_hd s = Some Read_Intr \<and> rq_bh (requests_tab s r) = Some b \<and>
     rq_buffer (requests_tab s r) = b \<and> rq_offset (requests_tab s r) = 512 * k \<and> unat (rq_nr_sectors (requests_tab s r)) = n \<and>
     rq_next (requests_tab s r) = None \<and> hd_input s (hd_ins s) 0x1f7 AND 0xf1 = 0x50"

lemma read_intr_good:
  assumes "reading r b k (Suc n) s"
  defines "t \<equiv> upd_req r (\<lambda>q. q\<lparr>rq_errors := 0, rq_offset := rq_offset q + 512, rq_sector := rq_sector q + 1, rq_nr_sectors := rq_nr_sectors q - 1\<rparr>)
      (port_read b (512 * k) (outb 0x20 0x20 ((outb 0x20 0xA0 s)\<lparr>do_hd := None\<rparr>)\<lparr>hd_ins := Suc (hd_ins s)\<rparr>))"
  shows "hd_interrupt s = (if n \<noteq> 0 then Ok () (t\<lparr>do_hd := Some Read_Intr\<rparr>) else bindk (hd_end_request 1 t) (\<lambda>_. do_hd_request))"
proof -
  let ?a = "outb 0x20 0x20 ((outb 0x20 0xA0 s)\<lparr>do_hd := None\<rparr>)"
  have w: "win_result ?a = (False, ?a\<lparr>hd_ins := Suc (hd_ins s)\<rparr>)"
    using assms(1) by (simp add: win_result_def hd_inb_def reading_def outb_def)
  have nz: "rq_nr_sectors (requests_tab s r) - 1 \<noteq> 0 \<longleftrightarrow> n \<noteq> 0"
  proof -
    have "unat (rq_nr_sectors (requests_tab s r)) = Suc n" using assms(1) by (simp add: reading_def)
    then have "rq_nr_sectors (requests_tab s r) = 1 \<longleftrightarrow> n = 0" by (auto simp: word_unat_eq_iff)
    then show ?thesis by simp
  qed
  have c: "current_request ?a 3 = Some r" "requests_tab ?a = requests_tab s" "do_hd (outb 0x20 0xA0 s) = Some Read_Intr"
    using assms(1) by (simp_all add: reading_def outb_def)
  have q: "rq_buffer (requests_tab s r) = b" "rq_offset (requests_tab s r) = 512 * k" using assms(1) by (simp_all add: reading_def)
  have tt: "rq_nr_sectors (requests_tab t r) \<noteq> 0 \<longleftrightarrow> n \<noteq> 0"
    using nz by (simp add: t_def upd_req_def port_read_def upd_buf_def outb_def)
  have "hd_interrupt s = read_intr ?a" using c(3) by (simp add: hd_interrupt_def Let_def)
  also have "\<dots> = (if rq_nr_sectors (requests_tab t r) \<noteq> 0 then Ok () (t\<lparr>do_hd := Some Read_Intr\<rparr>) else bindk (hd_end_request 1 t) (\<lambda>_. do_hd_request))"
    using c q by (simp add: read_intr_def w Let_def t_def)
  finally show ?thesis by (simp only: tt)
qed

text \<open>C18. Two interrupts complete the read of a block. If the request at the head of the queue asks for two sectors and the controller reports success at both
  interrupts, the first stores one sector and waits for the next, and the second leaves the buffer of the request filled with the two sectors in order, up to date and
  unlocked, the entry of the request free and the queue empty; no other buffer changes.\<close>

theorem hd_read_block:
  assumes "reading r b 0 2 s" "hd_input s (Suc (hd_ins s)) 0x1f7 AND 0xf1 = 0x50"
  shows "\<exists>s1 s2. hd_interrupt s = Ok () s1 \<and> do_hd s1 = Some Read_Intr \<and> hd_interrupt s1 = Ok () s2 \<and>
    (\<forall>i<1024. b_data (bufs s2 b) i = hd_data s (hd_reads s + i div 512) (i mod 512)) \<and>
    b_uptodate (bufs s2 b) = 1 \<and> b_lock (bufs s2 b) = 0 \<and> (\<forall>c. c \<noteq> b \<longrightarrow> bufs s2 c = bufs s c) \<and>
    rq_dev (requests_tab s2 r) = - 1 \<and> current_request s2 3 = None"
proof -
  define t where "t = upd_req r (\<lambda>q. q\<lparr>rq_errors := 0, rq_offset := rq_offset q + 512, rq_sector := rq_sector q + 1, rq_nr_sectors := rq_nr_sectors q - 1\<rparr>)
      (port_read b (512 * 0) (outb 0x20 0x20 ((outb 0x20 0xA0 s)\<lparr>do_hd := None\<rparr>)\<lparr>hd_ins := Suc (hd_ins s)\<rparr>))"
  define s1 where "s1 = t\<lparr>do_hd := Some Read_Intr\<rparr>"
  have i1: "hd_interrupt s = Ok () s1"
    using read_intr_good[of r b 0 1 s] assms(1) by (simp add: t_def s1_def numeral_2_eq_2)
  have a: "current_request s 3 = Some r" "rq_bh (requests_tab s r) = Some b" "rq_buffer (requests_tab s r) = b" "rq_offset (requests_tab s r) = 0"
    "unat (rq_nr_sectors (requests_tab s r)) = 2" "rq_next (requests_tab s r) = None"
    using assms(1) by (simp_all add: reading_def)
  have "rq_nr_sectors (requests_tab s r) = 2" using a(5) by (simp add: word_unat_eq_iff)
  then have r1: "reading r b 1 (Suc 0) s1"
    using a assms(2) by (simp add: reading_def s1_def t_def upd_req_def port_read_def upd_buf_def outb_def)
  define u where "u = upd_req r (\<lambda>q. q\<lparr>rq_errors := 0, rq_offset := rq_offset q + 512, rq_sector := rq_sector q + 1, rq_nr_sectors := rq_nr_sectors q - 1\<rparr>)
      (port_read b (512 * 1) (outb 0x20 0x20 ((outb 0x20 0xA0 s1)\<lparr>do_hd := None\<rparr>)\<lparr>hd_ins := Suc (hd_ins s1)\<rparr>))"
  have i2: "hd_interrupt s1 = bindk (hd_end_request 1 u) (\<lambda>_. do_hd_request)"
    using read_intr_good[OF r1] by (simp add: u_def)
  have ub: "bufs u = (bufs s)(b := (bufs s b)\<lparr>b_data := (\<lambda>i. if 512 \<le> i \<and> i < 1024 then hd_data s (Suc (hd_reads s)) (i - 512)
      else if i < 512 then hd_data s (hd_reads s) i else b_data (bufs s b) i)\<rparr>)"
    by (simp add: u_def s1_def t_def upd_req_def port_read_def upd_buf_def outb_def fun_eq_iff)
  have uq: "current_request u 3 = Some r" "rq_bh (requests_tab u r) = Some b" "rq_next (requests_tab u r) = None"
    using a by (simp_all add: u_def s1_def t_def upd_req_def port_read_def upd_buf_def outb_def)
  obtain v where v: "hd_end_request 1 u = Ok () v" using uq(1) by (auto simp: hd_end_request_def end_request_def Let_def)
  have vb: "bufs v = (bufs u)(b := (bufs u b)\<lparr>b_uptodate := 1, b_lock := 0\<rparr>)" "current_request v 3 = None" "rq_dev (requests_tab v r) = - 1"
    using v uq by (auto simp: hd_end_request_def end_request_def Let_def unlock_buffer_def upd_buf_def upd_req_def printk_def split: if_splits)
  have "do_hd_request v = Ok () v" unfolding do_hd_request_Suc hd_loop.simps using vb(2) by (simp add: init_request_def)
  then have i2': "hd_interrupt s1 = Ok () v" using i2 v by simp
  have "b_data (bufs v b) i = hd_data s (hd_reads s + i div 512) (i mod 512)" if "i < 1024" for i
  proof (cases "i < 512")
    case True
    then show ?thesis by (simp add: vb(1) ub)
  next
    case False
    then have "i div 512 = 1" "i mod 512 = i - 512" using that by (simp_all add: div_nat_eqI mod_nat_eqI)
    then show ?thesis using False that by (simp add: vb(1) ub)
  qed
  then show ?thesis using i1 i2' vb ub by (intro exI[of _ s1] exI[of _ v]) (simp add: s1_def)
qed

subsection \<open>An example\<close>

definition hd_static :: "tty_state \<Rightarrow> hd_state" where
  "hd_static s = tty_state.extend s (hd_state.fields (\<lambda>_. \<lparr>hi_head = 0, hi_sect = 0, hi_cyl = 0, hi_wpcom = 0, hi_lzone = 0, hi_ctl = 0\<rparr>) 0
     (\<lambda>_. \<lparr>start_sect = 0, nr_sects = 0\<rparr>) True True None True (\<lambda>_ _. 0x50) 0 (\<lambda>k _. of_nat k) 0 [])"

definition demo_hd :: hd_state where
  "demo_hd = (hd_static (tty_data demo_fs))\<lparr>hd_info := (\<lambda>_. \<lparr>hi_head = 4, hi_sect = 17, hi_cyl = 100, hi_wpcom = 0, hi_lzone = 0, hi_ctl = 8\<rparr>),
     NR_HD := 1, hd := (\<lambda>_. \<lparr>start_sect = 17, nr_sects = 1000\<rparr>), hd_reset := False, recalibrate := False,
     bufs := (\<lambda>_. no_buffer\<lparr>b_lock := 1\<rparr>), current_request := [3 \<mapsto> 0],
     requests_tab := (\<lambda>_. \<lparr>rq_dev = 0x301, rq_cmd = READ, rq_errors = 0, rq_sector = 8, rq_nr_sectors = 2, rq_buffer = 0, rq_offset = 0,
       rq_bh = Some 0, rq_next = None\<rparr>)\<rparr>"

lemma demo_hd_sel:
  "hd_input demo_hd = (\<lambda>_ _. 0x50)" "hd_ins demo_hd = 0" "hd_reads demo_hd = 0" "hd_data demo_hd = (\<lambda>k _. of_nat k)" "do_hd demo_hd = None"
  by (simp_all add: demo_hd_def hd_static_def tty_state.extend_def hd_state.fields_def)

theorem do_hd_request_ends_witness: "do_hd_request demo_hd \<noteq> Blocked demo_hd"
  by (rule do_hd_request_ends[of "[0]"]) (simp_all add: hd_queue_def demo_hd_def)

theorem hd_read_command_witness:
  "\<exists>s' sec lcyl hcyl dh. do_hd_request demo_hd = Ok () s' \<and> do_hd s' = Some Read_Intr \<and> chs_lba (hd_info demo_hd 0) sec lcyl hcyl dh = 25"
proof -
  have a: "hd_accepts 0 demo_hd"
    by (simp add: hd_accepts_def demo_hd_def Let_def MAJOR_def MINOR_def drive_ok_def part_ok_def no_buffer_def)
  have c: "fst (controller_ready demo_hd) \<noteq> 0"
    by (simp add: controller_ready_def ready_loop.simps[of 10000] hd_inb_def demo_hd_sel)
  have q: "rq_cmd (requests_tab demo_hd 0) = READ" "unat (rq_nr_sectors (requests_tab demo_hd 0)) \<le> 2"
    "MINOR (word_of_int (rq_dev (requests_tab demo_hd 0))) = 1" "unat (start_sect (hd demo_hd 1)) = 17" "unat (rq_sector (requests_tab demo_hd 0)) = 8"
    by (simp_all add: demo_hd_def MINOR_def)
  show ?thesis using hd_read_command[OF a q(1,2) c] unfolding Let_def q(3) by (simp add: q(4,5) del: One_nat_def) blast
qed

theorem hd_read_block_witness:
  "\<exists>s1 s2. hd_interrupt (demo_hd\<lparr>do_hd := Some Read_Intr\<rparr>) = Ok () s1 \<and> hd_interrupt s1 = Ok () s2 \<and> b_data (bufs s2 0) 700 = 1"
proof -
  have "reading 0 0 0 2 (demo_hd\<lparr>do_hd := Some Read_Intr\<rparr>)" by (simp add: reading_def demo_hd_sel) (simp add: demo_hd_def)
  from hd_read_block[OF this] show ?thesis by (auto simp: demo_hd_sel)
qed

end
