(* ===== verification/Blk_Floppy.thy ===== *)
theory Blk_Floppy
  imports Blk_Hd
begin

text \<open>
  The floppy driver, src/kernel/blk_drv/floppy.c (\<open>floppy_change\<close> is with the disk changes in \<open>Fs_Open\<close>), and the interrupt routine of
  src/kernel/system_call.s that calls it.

  Inputs come from the stream of \<open>Blk_Hd\<close>. \<open>buf_addr\<close> is the address of the data of each buffer, which decides whether a transfer goes through
  \<open>tmp_floppy_area\<close>. Every call of \<open>do_fd_request\<close> inside \<open>transfer\<close>, \<open>setup_rw_floppy\<close> and \<open>recalibrate_floppy\<close> is made with \<open>reset\<close> set; it is
  \<open>fd_request_reset\<close> here, which \<open>do_fd_request\<close> is in that case.
\<close>

abbreviation (input) FD_STATUS :: u16 where "FD_STATUS \<equiv> 0x3f4"
abbreviation (input) FD_DATA :: u16 where "FD_DATA \<equiv> 0x3f5"
abbreviation (input) FD_DCR :: u16 where "FD_DCR \<equiv> 0x3f7"
abbreviation (input) FD_RECALIBRATE :: u8 where "FD_RECALIBRATE \<equiv> 0x07"
abbreviation (input) FD_SEEK :: u8 where "FD_SEEK \<equiv> 0x0F"
abbreviation (input) FD_READ :: u8 where "FD_READ \<equiv> 0xE6"
abbreviation (input) FD_WRITE :: u8 where "FD_WRITE \<equiv> 0xC5"
abbreviation (input) FD_SENSEI :: u8 where "FD_SENSEI \<equiv> 0x08"
abbreviation (input) FD_SPECIFY :: u8 where "FD_SPECIFY \<equiv> 0x03"
abbreviation (input) DMA_READ :: u8 where "DMA_READ \<equiv> 0x46"
abbreviation (input) DMA_WRITE :: u8 where "DMA_WRITE \<equiv> 0x4A"
abbreviation (input) FD_MAX_ERRORS :: int where "FD_MAX_ERRORS \<equiv> 8"
abbreviation (input) MAX_REPLIES :: nat where "MAX_REPLIES \<equiv> 7"

record floppy_struct =
  fl_size :: u32
  fl_sect :: u32
  fl_head :: u32
  fl_track :: u32
  fl_stretch :: u32
  fl_gap :: u8
  fl_rate :: u8
  fl_spec1 :: u8

definition fl_type :: "u32 \<Rightarrow> u32 \<Rightarrow> u32 \<Rightarrow> u32 \<Rightarrow> u32 \<Rightarrow> u8 \<Rightarrow> u8 \<Rightarrow> u8 \<Rightarrow> floppy_struct" where
  "fl_type a b c d e f g h =
     \<lparr>fl_size = a, fl_sect = b, fl_head = c, fl_track = d, fl_stretch = e, fl_gap = f, fl_rate = g, fl_spec1 = h\<rparr>"

definition floppy_type :: "floppy_struct list" where
  "floppy_type =
     [fl_type 0 0 0 0 0 0 0 0, fl_type 720 9 2 40 0 0x2A 0x02 0xDF, fl_type 2400 15 2 80 0 0x1B 0x00 0xDF, fl_type 720 9 2 40 1 0x2A 0x02 0xDF,
      fl_type 1440 9 2 80 0 0x2A 0x02 0xDF, fl_type 720 9 2 40 1 0x23 0x01 0xDF, fl_type 1440 9 2 80 0 0x23 0x01 0xDF, fl_type 2880 18 2 80 0 0x1B 0x00 0xCF]"

datatype fd_intr = Rw_Interrupt | Seek_Interrupt | Recal_Interrupt | Reset_Interrupt

record fd_state = hd_state +
  fd_recalibrate :: bool
  fd_reset :: bool
  fd_seek :: bool
  reply_buffer :: "nat \<Rightarrow> u8"
  cur_spec1 :: int
  cur_rate :: int
  floppy :: nat
  current_drive :: u8
  fd_sector :: u8
  fd_head :: u8
  fd_track :: u8
  seek_track :: u8
  current_track :: u8
  fd_command :: u8
  do_floppy :: "fd_intr option"
  tmp_floppy_area :: block
  buf_addr :: "nat \<Rightarrow> u32"

definition floppy_deselect :: "u8 \<Rightarrow> 'z sched_state_scheme \<Rightarrow> 'z sched_state_scheme" where
  "floppy_deselect nr s =
     (let s = (if nr \<noteq> current_DOR s AND 3 then printk ''floppy_deselect: drive not selected'' s else s)
      in wake_up (Some WFloppySelect) (s\<lparr>selected := 0\<rparr>))"

subsection \<open>The controller\<close>

definition request_addr :: "request \<Rightarrow> 'z fd_state_scheme \<Rightarrow> u32" where
  "request_addr q s = buf_addr s (rq_buffer q) + of_nat (rq_offset q)"

text \<open>\<open>addr\<close> is a signed \<open>long\<close>.\<close>

definition setup_DMA :: "'z fd_state_scheme \<Rightarrow> u32 \<Rightarrow> (unit, 'z fd_state_scheme) kres" where
  "setup_DMA s tmp_addr =
     (case current_request s 2 of
        None \<Rightarrow> Fault s
      | Some r \<Rightarrow>
          let q = requests_tab s r;
              high = sint (request_addr q s) \<ge> 0x100000;
              addr = (if high then tmp_addr else request_addr q s);
              s = (if high \<and> fd_command s = FD_WRITE
                   then s\<lparr>tmp_floppy_area := (\<lambda>i. if i < 1024 then b_data (bufs s (rq_buffer q)) (rq_offset q + i) else tmp_floppy_area s i)\<rparr> else s);
              c = (if fd_command s = FD_READ then DMA_READ else DMA_WRITE)
          in Ok () (outb 2 10 (outb 3 5 (outb 0xff 5 (outb (ucast (drop_bit 16 addr)) 0x81 (outb (ucast (drop_bit 8 addr)) 4
               (outb (ucast addr) 4 (outb c 11 (outb c 12 (outb 6 10 s))))))))))"

fun output_loop :: "nat \<Rightarrow> u8 \<Rightarrow> 'z fd_state_scheme \<Rightarrow> 'z fd_state_scheme" where
  "output_loop n byte s =
     (if n = 0 then printk ''Unable to send byte to FDC'' (s\<lparr>fd_reset := True\<rparr>)
      else
        let (status, s) = hd_inb FD_STATUS s
        in if status AND 0xc0 = 0x80 then outb byte FD_DATA s else output_loop (n - 1) byte s)"

declare output_loop.simps [simp del]

definition output_byte :: "u8 \<Rightarrow> 'z fd_state_scheme \<Rightarrow> 'z fd_state_scheme" where
  "output_byte byte s = (if fd_reset s then s else output_loop 10000 byte s)"

fun result_loop :: "nat \<Rightarrow> nat \<Rightarrow> 'z fd_state_scheme \<Rightarrow> int \<times> 'z fd_state_scheme" where
  "result_loop n i s =
     (let fail = (\<lambda>s. (- 1, printk ''Getstatus times out'' (s\<lparr>fd_reset := True\<rparr>))) in
      if n = 0 then fail s
      else
        let (status, s) = hd_inb FD_STATUS s; status = status AND 0xd0 in
        if status = 0x80 then (int i, s)
        else if status = 0xd0
        then (if i \<ge> MAX_REPLIES then fail s
              else let (v, s) = hd_inb FD_DATA s in result_loop (n - 1) (Suc i) (s\<lparr>reply_buffer := (reply_buffer s)(i := v)\<rparr>))
        else result_loop (n - 1) i s)"

declare result_loop.simps [simp del]

definition result :: "'z fd_state_scheme \<Rightarrow> int \<times> 'z fd_state_scheme" where
  "result s = (if fd_reset s then (- 1, s) else result_loop 10000 0 s)"

definition reset_floppy :: "'z fd_state_scheme \<Rightarrow> 'z fd_state_scheme" where
  "reset_floppy s =
     (let s = printk ''Reset-floppy called'' (s\<lparr>fd_reset := False, cur_spec1 := - 1, cur_rate := - 1, fd_recalibrate := True\<rparr>);
          s = s\<lparr>do_floppy := Some Reset_Interrupt\<rparr>
      in outb (current_DOR s) FD_DOR (outb (current_DOR s AND NOT 4) FD_DOR s))"

definition fd_request_reset :: "'z fd_state_scheme \<Rightarrow> 'z fd_state_scheme" where
  "fd_request_reset s = reset_floppy (s\<lparr>fd_seek := False\<rparr>)"

definition drive_byte :: "'z fd_state_scheme \<Rightarrow> u8" where
  "drive_byte s = push_bit 2 (fd_head s) OR current_drive s"

definition recalibrate_floppy :: "'z fd_state_scheme \<Rightarrow> 'z fd_state_scheme" where
  "recalibrate_floppy s =
     (let s = s\<lparr>fd_recalibrate := False, current_track := 0, do_floppy := Some Recal_Interrupt\<rparr>;
          s = output_byte FD_RECALIBRATE s;
          s = output_byte (drive_byte s) s
      in if fd_reset s then fd_request_reset s else s)"

definition send_bytes :: "u8 list \<Rightarrow> 'z fd_state_scheme \<Rightarrow> 'z fd_state_scheme" where
  "send_bytes bs s = fold output_byte bs s"

text \<open>\<open>tmp\<close> is the address of \<open>tmp_floppy_area\<close>.\<close>

definition setup_rw_floppy :: "u32 \<Rightarrow> 'z fd_state_scheme \<Rightarrow> (unit, 'z fd_state_scheme) kres" where
  "setup_rw_floppy tmp s =
     bindk (setup_DMA s tmp) (\<lambda>_ s.
       let s = s\<lparr>do_floppy := Some Rw_Interrupt\<rparr>;
           fl = floppy_type ! floppy s;
           s = send_bytes [fd_command s, drive_byte s, fd_track s, fd_head s, fd_sector s, 2, ucast (fl_sect fl), fl_gap fl, 0xFF] s
       in Ok () (if fd_reset s then fd_request_reset s else s))"

definition transfer :: "u32 \<Rightarrow> 'z fd_state_scheme \<Rightarrow> (unit, 'z fd_state_scheme) kres" where
  "transfer tmp s =
     (let fl = floppy_type ! floppy s;
          s = (if cur_spec1 s \<noteq> uint (fl_spec1 fl)
               then send_bytes [FD_SPECIFY, fl_spec1 fl, 6] (s\<lparr>cur_spec1 := uint (fl_spec1 fl)\<rparr>) else s);
          s = (if cur_rate s \<noteq> uint (fl_rate fl) then outb (fl_rate fl) FD_DCR (s\<lparr>cur_rate := uint (fl_rate fl)\<rparr>) else s) in
      if fd_reset s then Ok () (fd_request_reset s)
      else if \<not> fd_seek s then setup_rw_floppy tmp s
      else
        let s = s\<lparr>do_floppy := Some Seek_Interrupt\<rparr>;
            s = (if seek_track s \<noteq> 0 then send_bytes [FD_SEEK, drive_byte s, seek_track s] s
                 else send_bytes [FD_RECALIBRATE, drive_byte s] s)
        in Ok () (if fd_reset s then fd_request_reset s else s))"

text \<open>\<open>add_timer\<close> with the two routines of the driver, numbered 1 (\<open>transfer\<close>) and 2 (\<open>floppy_on_interrupt\<close>); with no ticks to wait the routine \<open>fn\<close>
  is called at once.\<close>

definition fd_add_timer :: "int \<Rightarrow> nat \<Rightarrow> ('z fd_state_scheme \<Rightarrow> (unit, 'z fd_state_scheme) kres) \<Rightarrow> 'z fd_state_scheme \<Rightarrow> (unit, 'z fd_state_scheme) kres" where
  "fd_add_timer j nr fn s = (if j \<le> 0 then fn s else add_timer (\<lambda>_ s. s) j (Some nr) s)"

definition floppy_on_interrupt :: "u32 \<Rightarrow> 'z fd_state_scheme \<Rightarrow> (unit, 'z fd_state_scheme) kres" where
  "floppy_on_interrupt tmp s =
     (let s = s\<lparr>selected := 1\<rparr> in
      if current_drive s \<noteq> current_DOR s AND 3
      then
        let s = s\<lparr>current_DOR := (current_DOR s AND 0xFC) OR current_drive s\<rparr>
        in fd_add_timer 2 1 (transfer tmp) (outb (current_DOR s) FD_DOR s)
      else transfer tmp s)"

subsection \<open>Requests\<close>

definition fd_end_request :: "u8 \<Rightarrow> 'z fd_state_scheme \<Rightarrow> (unit, 'z fd_state_scheme) kres" where
  "fd_end_request = end_request ''floppy'' (\<lambda>dev. floppy_off (nat (dev mod 4))) 2"

text \<open>From \<open>floppy = ...\<close> to the end of \<open>do_fd_request\<close> for the request \<open>q\<close>: the values of the next transfer. \<open>None\<close> is a request outside the diskette.\<close>

definition fd_geometry :: "request \<Rightarrow> 'z fd_state_scheme \<Rightarrow> 'z fd_state_scheme option" where
  "fd_geometry q s =
     (let k = MINOR (word_of_int (rq_dev q)) div 4;
          fl = floppy_type ! k;
          drive = of_nat (MINOR (word_of_int (rq_dev q)) mod 4);
          s = s\<lparr>floppy := k, fd_seek := fd_seek s \<or> current_drive s \<noteq> drive, current_drive := drive\<rparr>;
          block = rq_sector q in
      if block + 2 > fl_size fl then None
      else
        let sec = block mod fl_sect fl; block = block div fl_sect fl;
            trk = ucast (block div fl_head fl);
            skt = push_bit (unat (fl_stretch fl)) trk
        in Some (s\<lparr>fd_head := ucast (block mod fl_head fl), fd_track := trk, seek_track := skt,
                   fd_seek := fd_seek s \<or> skt \<noteq> current_track s, fd_sector := ucast sec + 1\<rparr>))"

text \<open>\<open>floppy_type\<close> has eight entries; a larger minor number indexes behind it.\<close>

primrec fd_loop :: "u32 \<Rightarrow> nat \<Rightarrow> 'z fd_state_scheme \<Rightarrow> (unit, 'z fd_state_scheme) kres" where
  "fd_loop tmp 0 s = Blocked s"
| "fd_loop tmp (Suc n) s =
     bindk (init_request ''floppy'' 2 s) (\<lambda>c s.
       case c of
         None \<Rightarrow> Ok () s
       | Some q \<Rightarrow>
           let k = MINOR (word_of_int (rq_dev q)) div 4; drive = of_nat (MINOR (word_of_int (rq_dev q)) mod 4) in
           if k \<ge> length floppy_type then Fault s
           else
             case fd_geometry q s of
               None \<Rightarrow>
                 bindk (fd_end_request 0 (s\<lparr>floppy := k, fd_seek := fd_seek s \<or> current_drive s \<noteq> drive, current_drive := drive\<rparr>))
                   (\<lambda>_. fd_loop tmp n)
             | Some s \<Rightarrow>
                 if rq_cmd q \<noteq> READ \<and> rq_cmd q \<noteq> WRITE then Panic ''do_fd_request: unknown command'' s
                 else
                   bindk (ticks_to_floppy_on (unat (current_drive s)) (s\<lparr>fd_command := (if rq_cmd q = READ then FD_READ else FD_WRITE)\<rparr>))
                     (\<lambda>ticks. fd_add_timer ticks 2 (floppy_on_interrupt tmp)))"

definition do_fd_request :: "u32 \<Rightarrow> 'z fd_state_scheme \<Rightarrow> (unit, 'z fd_state_scheme) kres" where
  "do_fd_request tmp s =
     (let s = s\<lparr>fd_seek := False\<rparr> in
      if fd_reset s then Ok () (reset_floppy s)
      else if fd_recalibrate s then Ok () (recalibrate_floppy s)
      else fd_loop tmp (NR_REQUEST + 1) s)"

definition bad_flp_intr :: "'z fd_state_scheme \<Rightarrow> (unit, 'z fd_state_scheme) kres" where
  "bad_flp_intr s =
     (case current_request s 2 of
        None \<Rightarrow> Fault s
      | Some r \<Rightarrow>
          let s = upd_req r (\<lambda>q. q\<lparr>rq_errors := rq_errors q + 1\<rparr>) s in
          bindk (if rq_errors (requests_tab s r) > FD_MAX_ERRORS then fd_end_request 0 (floppy_deselect (current_drive s) s) else Ok () s) (\<lambda>_ s.
            case current_request s 2 of
              None \<Rightarrow> Fault s
            | Some r \<Rightarrow>
                Ok () (if rq_errors (requests_tab s r) > FD_MAX_ERRORS div 2 then s\<lparr>fd_reset := True\<rparr> else s\<lparr>fd_recalibrate := True\<rparr>)))"

text \<open>The replies are tested although \<open>result\<close> may have failed before it read them.\<close>

definition rw_interrupt :: "u32 \<Rightarrow> 'z fd_state_scheme \<Rightarrow> (unit, 'z fd_state_scheme) kres" where
  "rw_interrupt tmp s =
     (let (n, s) = result s; st = reply_buffer s in
      if n \<noteq> 7 \<or> st 0 AND 0xf8 \<noteq> 0 \<or> st 1 AND 0xbf \<noteq> 0 \<or> st 2 AND 0x73 \<noteq> 0
      then
        bindk (if st 1 AND 2 \<noteq> 0
               then fd_end_request 0 (floppy_deselect (current_drive s) (printk ''Drive %d is write protected'' s))
               else bad_flp_intr s) (\<lambda>_. do_fd_request tmp)
      else
        case current_request s 2 of
          None \<Rightarrow> Fault s
        | Some r \<Rightarrow>
            let q = requests_tab s r;
                s = (if fd_command s = FD_READ \<and> request_addr q s \<ge> 0x100000
                     then upd_buf (rq_buffer q) (\<lambda>h. h\<lparr>b_data := (\<lambda>i. if rq_offset q \<le> i \<and> i < rq_offset q + 1024
                            then tmp_floppy_area s (i - rq_offset q) else b_data h i)\<rparr>) s
                     else s)
            in bindk (fd_end_request 1 (floppy_deselect (current_drive s) s)) (\<lambda>_. do_fd_request tmp))"

definition seek_interrupt :: "u32 \<Rightarrow> 'z fd_state_scheme \<Rightarrow> (unit, 'z fd_state_scheme) kres" where
  "seek_interrupt tmp s =
     (let (n, s) = result (output_byte FD_SENSEI s); st = reply_buffer s in
      if n \<noteq> 2 \<or> st 0 AND 0xF8 \<noteq> 0x20 \<or> st 1 \<noteq> seek_track s then bindk (bad_flp_intr s) (\<lambda>_. do_fd_request tmp)
      else setup_rw_floppy tmp (s\<lparr>current_track := st 1\<rparr>))"

definition recal_interrupt :: "u32 \<Rightarrow> 'z fd_state_scheme \<Rightarrow> (unit, 'z fd_state_scheme) kres" where
  "recal_interrupt tmp s =
     (let (n, s) = result (output_byte FD_SENSEI s)
      in do_fd_request tmp (if n \<noteq> 2 \<or> reply_buffer s 0 AND 0xE0 = 0x60 then s\<lparr>fd_reset := True\<rparr> else s\<lparr>fd_recalibrate := False\<rparr>))"

definition unexpected_floppy_interrupt :: "'z fd_state_scheme \<Rightarrow> 'z fd_state_scheme" where
  "unexpected_floppy_interrupt s =
     (let (n, s) = result (output_byte FD_SENSEI s)
      in if n \<noteq> 2 \<or> reply_buffer s 0 AND 0xE0 = 0x60 then s\<lparr>fd_reset := True\<rparr> else s\<lparr>fd_recalibrate := True\<rparr>)"

definition reset_interrupt :: "u32 \<Rightarrow> 'z fd_state_scheme \<Rightarrow> (unit, 'z fd_state_scheme) kres" where
  "reset_interrupt tmp s =
     (let s = snd (result (output_byte FD_SENSEI s))
      in do_fd_request tmp (send_bytes [FD_SPECIFY, word_of_int (cur_spec1 s), 6] s))"

definition floppy_interrupt :: "u32 \<Rightarrow> 'z fd_state_scheme \<Rightarrow> (unit, 'z fd_state_scheme) kres" where
  "floppy_interrupt tmp s =
     (let s = outb 0x20 0x20 s; h = do_floppy s; s = s\<lparr>do_floppy := None\<rparr> in
      case h of
        None \<Rightarrow> Ok () (unexpected_floppy_interrupt s)
      | Some Rw_Interrupt \<Rightarrow> rw_interrupt tmp s
      | Some Seek_Interrupt \<Rightarrow> seek_interrupt tmp s
      | Some Recal_Interrupt \<Rightarrow> recal_interrupt tmp s
      | Some Reset_Interrupt \<Rightarrow> reset_interrupt tmp s)"

definition floppy_init :: "'z fd_state_scheme \<Rightarrow> 'z fd_state_scheme" where
  "floppy_init s = (let (a, s) = hd_inb 0x21 s in outb (a AND NOT 0x40) 0x21 s)"

text \<open>The calls inside the routines with \<open>reset\<close> set are calls of \<open>do_fd_request\<close>.\<close>

lemma do_fd_request_reset: "fd_reset s \<Longrightarrow> do_fd_request tmp s = Ok () (fd_request_reset s)"
  by (simp add: do_fd_request_def fd_request_reset_def)

end
