(* ===== verification/Floppy_Laws.thy ===== *)
theory Floppy_Laws
  imports Blk_Floppy Hd_Laws
begin

text \<open>
  The floppy driver: the replies of the controller stay inside their buffer, and the track, head and sector of a transfer address the sectors of the request.
\<close>

text \<open>A type of diskette whose tracks, heads and sectors make up its size and fit into bytes.\<close>

definition fl_ok :: "floppy_struct \<Rightarrow> bool" where
  "fl_ok fl \<longleftrightarrow> 0 < unat (fl_sect fl) \<and> unat (fl_sect fl) \<le> 255 \<and> 0 < unat (fl_head fl) \<and> unat (fl_head fl) \<le> 255 \<and> unat (fl_track fl) \<le> 128 \<and>
     unat (fl_size fl) = unat (fl_track fl) * unat (fl_head fl) * unat (fl_sect fl)"

lemma floppy_type_ok: "0 < k \<Longrightarrow> k < length floppy_type \<Longrightarrow> fl_ok (floppy_type ! k)"
  by (auto simp: floppy_type_def fl_type_def fl_ok_def less_Suc_eq)

lemma chs_bytes:
  assumes "fl_ok fl" "unat b < unat (fl_size fl)"
  defines "trk \<equiv> ucast (b div fl_sect fl div fl_head fl) :: u8" and "hed \<equiv> ucast (b div fl_sect fl mod fl_head fl) :: u8"
    and "sec \<equiv> ucast (b mod fl_sect fl) + 1 :: u8"
  shows "unat trk < unat (fl_track fl)" "unat hed < unat (fl_head fl)" "1 \<le> unat sec" "unat sec \<le> unat (fl_sect fl)"
    "(unat trk * unat (fl_head fl) + unat hed) * unat (fl_sect fl) + unat sec - 1 = unat b"
proof -
  let ?S = "unat (fl_sect fl)" and ?H = "unat (fl_head fl)" and ?T = "unat (fl_track fl)" and ?b = "unat b"
  have g: "0 < ?S" "?S \<le> 255" "0 < ?H" "?H \<le> 255" "?T \<le> 128" "unat (fl_size fl) = ?T * ?H * ?S" using assms(1) by (auto simp: fl_ok_def)
  have "?b div ?S < ?T * ?H" using assms(2) g(1,6) by (simp add: less_mult_imp_div_less)
  then have t: "?b div ?S div ?H < ?T" by (simp add: less_mult_imp_div_less)
  have ut: "unat trk = ?b div ?S div ?H" using t g(5) by (simp add: trk_def unat_ucast8 unat_div)
  have h: "?b div ?S mod ?H < ?H" "?b mod ?S < ?S" using g(1,3) by simp_all
  have uh: "unat hed = ?b div ?S mod ?H" using h(1) g(4) by (simp add: hed_def unat_ucast8 unat_div unat_mod)
  have "unat (ucast (b mod fl_sect fl) :: u8) = ?b mod ?S" using h(2) g(2) by (simp add: unat_ucast8 unat_mod)
  then have us: "unat sec = ?b mod ?S + 1" unfolding sec_def using h(2) g(2) by (subst unat_plus_if') simp
  show "unat trk < ?T" "unat hed < ?H" "1 \<le> unat sec" "unat sec \<le> ?S" using ut t uh h us by simp_all
  show "(unat trk * ?H + unat hed) * ?S + unat sec - 1 = ?b" by (simp add: ut uh us)
qed

text \<open>The place of a transfer. For every type of diskette in the table and every request whose two sectors lie on it, \<open>do_fd_request\<close> computes a track, a head and a
  sector that exist on the diskette and address the first sector of the request; a request that reaches beyond the diskette is refused.\<close>

theorem fd_geometry_address:
  assumes "0 < k" "k < length floppy_type" "MINOR (word_of_int (rq_dev q)) div 4 = k" "unat (rq_sector q) + 2 < 2 ^ 32"
  shows "if unat (rq_sector q) + 2 \<le> unat (fl_size (floppy_type ! k))
    then \<exists>s'. fd_geometry q s = Some s' \<and> unat (fd_track s') < unat (fl_track (floppy_type ! k)) \<and> unat (fd_head s') < unat (fl_head (floppy_type ! k)) \<and>
      1 \<le> unat (fd_sector s') \<and> unat (fd_sector s') \<le> unat (fl_sect (floppy_type ! k)) \<and>
      (unat (fd_track s') * unat (fl_head (floppy_type ! k)) + unat (fd_head s')) * unat (fl_sect (floppy_type ! k)) + unat (fd_sector s') - 1 = unat (rq_sector q) \<and>
      (fd_seek s' \<longleftrightarrow> fd_seek s \<or> current_drive s \<noteq> current_drive s' \<or> seek_track s' \<noteq> current_track s)
    else fd_geometry q s = None"
proof -
  let ?fl = "floppy_type ! k" and ?b = "rq_sector q"
  have "unat (?b + 2) = unat ?b + 2" using assms(4) by (subst unat_plus_if') simp
  then have big: "?b + 2 > fl_size ?fl \<longleftrightarrow> \<not> unat ?b + 2 \<le> unat (fl_size ?fl)" by (auto simp: word_less_nat_alt)
  show ?thesis
  proof (cases "unat ?b + 2 \<le> unat (fl_size ?fl)")
    case True
    then have lt: "unat ?b < unat (fl_size ?fl)" by simp
    have nb: "\<not> ?b + 2 > fl_size ?fl" using True big by blast
    note c = chs_bytes[OF floppy_type_ok[OF assms(1,2)] lt]
    show ?thesis using True nb c by (simp add: fd_geometry_def Let_def assms(3))
  next
    case False
    then show ?thesis using big by (simp add: fd_geometry_def Let_def assms(3))
  qed
qed

text \<open>The replies: at most seven, and nothing else of the driver's data changes but \<open>reset\<close>.\<close>

lemma result_loop_bounds:
  "i \<le> 7 \<Longrightarrow> result_loop n i s = (r, s') \<Longrightarrow> r \<le> 7 \<and> (\<forall>j. j < i \<or> 7 \<le> j \<longrightarrow> reply_buffer s' j = reply_buffer s j)"
proof (induction n arbitrary: i s)
  case 0
  then show ?case by (subst (asm) result_loop.simps) (auto simp: printk_def)
next
  case (Suc n)
  obtain v t where v: "hd_inb 0x3f4 s = (v, t)" by fastforce
  obtain v2 t2 where v2: "hd_inb 0x3f5 t = (v2, t2)" by fastforce
  have e: "reply_buffer t = reply_buffer s" "reply_buffer t2 = reply_buffer s" using v v2 by (auto simp: hd_inb_def)
  have u: "(if v AND 0xd0 = 0x80 then (int i, t)
        else if v AND 0xd0 = 0xd0
        then (if i \<ge> 7 then (- 1, printk ''Getstatus times out'' (t\<lparr>fd_reset := True\<rparr>))
              else result_loop n (Suc i) (t2\<lparr>reply_buffer := (reply_buffer t2)(i := v2)\<rparr>))
        else result_loop n i t) = (r, s')"
    using Suc.prems(2) v v2 by (subst (asm) result_loop.simps) (simp add: Let_def cong: if_cong)
  consider "v AND 0xd0 = 0x80" | "v AND 0xd0 = 0xd0" "7 \<le> i" | "v AND 0xd0 = 0xd0" "\<not> 7 \<le> i"
    | "v AND 0xd0 \<noteq> 0x80" "v AND 0xd0 \<noteq> 0xd0" by blast
  then show ?case
  proof cases
    case 1
    then show ?thesis using u e Suc.prems(1) by auto
  next
    case 2
    then show ?thesis using u e by (auto simp: printk_def)
  next
    case 3
    then have "result_loop n (Suc i) (t2\<lparr>reply_buffer := (reply_buffer t2)(i := v2)\<rparr>) = (r, s')" using u by simp
    from Suc.IH[OF _ this] 3 e show ?thesis by auto
  next
    case 4
    then have "result_loop n i t = (r, s')" using u by simp
    from Suc.IH[OF Suc.prems(1) this] e show ?thesis by simp
  qed
qed

lemma result_replies: "result s = (r, s') \<Longrightarrow> r \<le> 7 \<and> (\<forall>j\<ge>7. reply_buffer s' j = reply_buffer s j)"
  using result_loop_bounds[of 0 10000 s r s'] by (auto simp: result_def split: if_splits)

text \<open>The static data of the driver, and a request for block 800 of a 1.44 MB diskette.\<close>

definition fd_static :: "hd_state \<Rightarrow> fd_state" where
  "fd_static s = hd_state.extend s (fd_state.fields False False False (\<lambda>_. 0) (- 1) (- 1) 0 0 0 0 0 0 255 0 None (\<lambda>_. 0) (\<lambda>_. 0))"

theorem fd_geometry_address_witness:
  "\<exists>s'. fd_geometry \<lparr>rq_dev = 0x21c, rq_cmd = READ, rq_errors = 0, rq_sector = 1600, rq_nr_sectors = 2, rq_buffer = 0, rq_offset = 0, rq_bh = None, rq_next = None\<rparr>
      (fd_static (hd_static (tty_data demo_fs))) = Some s' \<and> (unat (fd_track s') * 2 + unat (fd_head s')) * 18 + unat (fd_sector s') - 1 = 1600"
proof -
  let ?q = "\<lparr>rq_dev = 0x21c, rq_cmd = READ, rq_errors = 0, rq_sector = 1600, rq_nr_sectors = 2, rq_buffer = 0, rq_offset = 0, rq_bh = None, rq_next = None\<rparr>"
  let ?s = "fd_static (hd_static (tty_data demo_fs))"
  have k: "(7 :: nat) < length floppy_type" "MINOR (word_of_int (rq_dev ?q)) div 4 = 7" "unat (rq_sector ?q) + 2 < 2 ^ 32"
    by (simp_all add: floppy_type_def MINOR_def)
  have f: "floppy_type ! 7 = fl_type 2880 18 2 80 0 0x1B 0x00 0xCF" by (simp add: floppy_type_def)
  show ?thesis using fd_geometry_address[OF _ k, of ?s] unfolding f by (auto simp: fl_type_def)
qed

end
