(* ===== verification/Kernel_Traps.thy ===== *)
theory Kernel_Traps
  imports Kernel_Fork Kernel_Exit Kernel_Vsprintf
begin

text \<open>
  Exceptions (src/kernel/traps.c), the interrupt descriptor table (the gate macros of src/include/asm/system.h), printing and panics (src/kernel/printk.c, panic.c) and the
  coprocessor (src/kernel/math/math_emulate.c).

  The entry points of the exceptions are assembly routines; their addresses are the argument \<open>vec\<close>. Elsewhere in the development \<open>printk\<close> records the format and \<open>Panic\<close> stands for a
  call of \<open>panic\<close>; what the two do is \<open>printk_tty\<close> and \<open>do_panic\<close> here.
\<close>

subsection \<open>Gates\<close>

text \<open>The two words of a descriptor.\<close>

type_synonym gate = "u32 \<times> u32"

definition set_gate :: "u32 \<Rightarrow> u32 \<Rightarrow> u32 \<Rightarrow> gate" where
  "set_gate typ dpl addr =
     ((0x00080000 AND 0xffff0000) OR (addr AND 0xffff), (addr AND 0xffff0000) OR ((0x8000 + push_bit 13 dpl + push_bit 8 typ) AND 0xffff))"

definition set_intr_gate :: "nat \<Rightarrow> u32 \<Rightarrow> (nat \<Rightarrow> gate) \<Rightarrow> nat \<Rightarrow> gate" where
  "set_intr_gate n addr idt = idt(n := set_gate 14 0 addr)"

definition set_trap_gate :: "nat \<Rightarrow> u32 \<Rightarrow> (nat \<Rightarrow> gate) \<Rightarrow> nat \<Rightarrow> gate" where
  "set_trap_gate n addr idt = idt(n := set_gate 15 0 addr)"

definition set_system_gate :: "nat \<Rightarrow> u32 \<Rightarrow> (nat \<Rightarrow> gate) \<Rightarrow> nat \<Rightarrow> gate" where
  "set_system_gate n addr idt = idt(n := set_gate 15 3 addr)"

datatype trap_entry =
    Divide_Error | Debug | Nmi | Int3 | Overflow | Bounds | Invalid_Op | Device_Not_Available | Double_Fault
  | Coprocessor_Segment_Overrun | Invalid_TSS | Segment_Not_Present | Stack_Segment | General_Protection
  | Page_Fault | Reserved | Coprocessor_Error | Irq13 | Parallel_Interrupt

definition trap_gates :: "(trap_entry \<Rightarrow> u32) \<Rightarrow> (nat \<Rightarrow> gate) \<Rightarrow> nat \<Rightarrow> gate" where
  "trap_gates vec idt =
     (let idt = set_trap_gate 0 (vec Divide_Error) idt;
          idt = set_trap_gate 1 (vec Debug) idt;
          idt = set_trap_gate 2 (vec Nmi) idt;
          idt = set_system_gate 3 (vec Int3) idt;
          idt = set_system_gate 4 (vec Overflow) idt;
          idt = set_system_gate 5 (vec Bounds) idt;
          idt = set_trap_gate 6 (vec Invalid_Op) idt;
          idt = set_trap_gate 7 (vec Device_Not_Available) idt;
          idt = set_trap_gate 8 (vec Double_Fault) idt;
          idt = set_trap_gate 9 (vec Coprocessor_Segment_Overrun) idt;
          idt = set_trap_gate 10 (vec Invalid_TSS) idt;
          idt = set_trap_gate 11 (vec Segment_Not_Present) idt;
          idt = set_trap_gate 12 (vec Stack_Segment) idt;
          idt = set_trap_gate 13 (vec General_Protection) idt;
          idt = set_trap_gate 14 (vec Page_Fault) idt;
          idt = set_trap_gate 15 (vec Reserved) idt;
          idt = set_trap_gate 16 (vec Coprocessor_Error) idt;
          idt = fold (\<lambda>i. set_trap_gate i (vec Reserved)) [17..<48] idt;
          idt = set_trap_gate 45 (vec Irq13) idt
      in set_trap_gate 39 (vec Parallel_Interrupt) idt)"

definition trap_init :: "(trap_entry \<Rightarrow> u32) \<Rightarrow> (nat \<Rightarrow> gate) \<Rightarrow> 'z sched_state_scheme \<Rightarrow> (nat \<Rightarrow> gate) \<times> 'z sched_state_scheme" where
  "trap_init vec idt s =
     (let s = outb (inb 0x21 s AND 0xfb) 0x21 s
      in (trap_gates vec idt, outb (inb 0xA1 s AND 0xdf) 0xA1 s))"

subsection \<open>Printing and panics\<close>

text \<open>\<open>printk\<close>: the text goes to the first terminal, from a buffer of 1024 bytes in the kernel's data segment; a longer text is written behind it.\<close>

definition kernel_buffer :: "string \<Rightarrow> u32 \<Rightarrow> u8" where
  "kernel_buffer t a = (if unat a < length t then of_nat (of_char (t ! unat a)) else 0)"

definition printk_tty :: "string \<Rightarrow> va list \<Rightarrow> (int, 'z tty_state_scheme) proc" where
  "printk_tty fmt args =
     (case vsprintf fmt args of
        None \<Rightarrow> faultp
      | Some (n, t, _) \<Rightarrow>
          if n \<ge> 1024 then faultp
          else
            bindp (getp user) (\<lambda>fs.
            seqp (modp (\<lambda>s. s\<lparr>user := kernel_buffer t\<rparr>))
            (bindp (tty_write 0 0 (int n)) (\<lambda>_.
             seqp (modp (\<lambda>s. s\<lparr>user := fs\<rparr>)) (retp (int n))))))"

text \<open>\<open>panic\<close> ends in an endless loop.\<close>

definition do_panic :: "string \<Rightarrow> (unit, 'z fs_state_scheme) proc" where
  "do_panic msg =
     seqp (modp (printk ''Kernel panic: %s''))
     (seqp (ifp (\<lambda>s. current s = 0) (modp (printk ''In swapper task - not syncing'')) (bindp sys_sync (\<lambda>_. retp ())))
       (panicp msg))"

subsection \<open>Exceptions\<close>

text \<open>The part of the interrupted state \<open>die\<close> and \<open>do_int3\<close> print is in the frame; printing is all they do with it.\<close>

definition die :: "string \<Rightarrow> fork_regs \<Rightarrow> (unit, 'z tty_state_scheme) proc" where
  "die str r =
     seqp (modp (printk (str @ '': %04x'')))
     (seqp (modp (printk ''EIP: %04x:%p EFLAGS: %p ESP: %04x:%p''))
     (seqp (modp (printk ''fs: %04x''))
     (seqp (modp (printk ''base: %p, limit: %p''))
     (seqp (if r_ss r = 0x17 then modp (printk ''Stack: %p %p %p %p'') else retp ())
     (seqp (modp (printk ''Pid: %d, process nr: %d''))
     (seqp (modp (printk ''%02x %02x %02x %02x %02x %02x %02x %02x %02x %02x''))
       (bindp (do_exit 11) (\<lambda>_. retp ()))))))))"

definition do_int3 :: "(unit, 'z mm_state_scheme) proc" where
  "do_int3 =
     seqp (modp (printk ''eax ebx ecx edx''))
     (seqp (modp (printk ''esi edi ebp esp''))
     (seqp (modp (printk ''ds es fs tr'')) (modp (printk ''EIP: %8x   CS: %4x  EFLAGS: %8x''))))"

definition do_double_fault :: "fork_regs \<Rightarrow> (unit, 'z tty_state_scheme) proc" where "do_double_fault = die ''double fault''"
definition do_general_protection :: "fork_regs \<Rightarrow> (unit, 'z tty_state_scheme) proc" where "do_general_protection = die ''general protection''"
definition do_divide_error :: "fork_regs \<Rightarrow> (unit, 'z tty_state_scheme) proc" where "do_divide_error = die ''divide error''"
definition do_nmi :: "fork_regs \<Rightarrow> (unit, 'z tty_state_scheme) proc" where "do_nmi = die ''nmi''"
definition do_debug :: "fork_regs \<Rightarrow> (unit, 'z tty_state_scheme) proc" where "do_debug = die ''debug''"
definition do_overflow :: "fork_regs \<Rightarrow> (unit, 'z tty_state_scheme) proc" where "do_overflow = die ''overflow''"
definition do_bounds :: "fork_regs \<Rightarrow> (unit, 'z tty_state_scheme) proc" where "do_bounds = die ''bounds''"
definition do_invalid_op :: "fork_regs \<Rightarrow> (unit, 'z tty_state_scheme) proc" where "do_invalid_op = die ''invalid operand''"
definition do_device_not_available :: "fork_regs \<Rightarrow> (unit, 'z tty_state_scheme) proc" where
  "do_device_not_available = die ''device not available''"
definition do_coprocessor_segment_overrun :: "fork_regs \<Rightarrow> (unit, 'z tty_state_scheme) proc" where
  "do_coprocessor_segment_overrun = die ''coprocessor segment overrun''"
definition do_invalid_TSS :: "fork_regs \<Rightarrow> (unit, 'z tty_state_scheme) proc" where "do_invalid_TSS = die ''invalid TSS''"
definition do_segment_not_present :: "fork_regs \<Rightarrow> (unit, 'z tty_state_scheme) proc" where "do_segment_not_present = die ''segment not present''"
definition do_stack_segment :: "fork_regs \<Rightarrow> (unit, 'z tty_state_scheme) proc" where "do_stack_segment = die ''stack segment''"
definition do_reserved :: "fork_regs \<Rightarrow> (unit, 'z tty_state_scheme) proc" where "do_reserved = die ''reserved (15,17-47) error''"

definition do_coprocessor_error :: "fork_regs \<Rightarrow> (unit, 'z tty_state_scheme) proc" where
  "do_coprocessor_error r = ifp (\<lambda>s. last_task_used_math s \<noteq> Some (current s)) (retp ()) (die ''coprocessor error'' r)"

subsection \<open>The coprocessor\<close>

abbreviation (input) SIGFPE :: nat where "SIGFPE \<equiv> 8"

definition math_emulate :: "fork_regs \<Rightarrow> 'z sched_state_scheme \<Rightarrow> (fork_regs, 'z sched_state_scheme) kres" where
  "math_emulate r s =
     (if r_cs r AND 0xffff \<noteq> 0x000F then Panic ''Math emulation needed in kernel'' (printk ''math_emulate: %04x:%08x'' s)
      else Ok (r\<lparr>r_eip := r_eip r + 2\<rparr>)
             (upd_cur (\<lambda>t. t\<lparr>signal := signal t OR S_bit SIGFPE\<rparr>) (printk ''%04x:%08x %02x %02x'' s)))"

definition math_error :: "'z sched_state_scheme \<Rightarrow> 'z sched_state_scheme" where
  "math_error s =
     (case last_task_used_math s of None \<Rightarrow> s | Some t \<Rightarrow> upd_task t (\<lambda>t. t\<lparr>signal := signal t OR S_bit SIGFPE\<rparr>) s)"

subsection \<open>What a gate means to the processor\<close>

definition gate_addr :: "gate \<Rightarrow> u32" where
  "gate_addr g = (snd g AND 0xffff0000) OR (fst g AND 0xffff)"

definition gate_selector :: "gate \<Rightarrow> u32" where
  "gate_selector g = drop_bit 16 (fst g)"

definition gate_present :: "gate \<Rightarrow> bool" where
  "gate_present g = bit (snd g) 15"

definition gate_dpl :: "gate \<Rightarrow> u32" where
  "gate_dpl g = drop_bit 13 (snd g) AND 3"

definition gate_type :: "gate \<Rightarrow> u32" where
  "gate_type g = drop_bit 8 (snd g) AND 15"

definition trap_of :: "nat \<Rightarrow> trap_entry" where
  "trap_of n =
     (if n < 17
      then [Divide_Error, Debug, Nmi, Int3, Overflow, Bounds, Invalid_Op, Device_Not_Available, Double_Fault, Coprocessor_Segment_Overrun,
            Invalid_TSS, Segment_Not_Present, Stack_Segment, General_Protection, Page_Fault, Reserved, Coprocessor_Error] ! n
      else if n = 39 then Parallel_Interrupt else if n = 45 then Irq13 else Reserved)"

lemma addr_halves: "(a AND 0xffff0000) OR (a AND 0xffff) = (a :: u32)"
proof -
  have "(0xffff0000 :: u32) OR 0xffff = - 1" by simp
  then show ?thesis by (metis and.right_neutral bit.conj_disj_distrib)
qed

lemma set_gate_means:
  assumes "dpl = 0 \<or> dpl = 3"
  shows "gate_addr (set_gate 15 dpl a) = a" "gate_selector (set_gate 15 dpl a) = 8" "gate_present (set_gate 15 dpl a)"
    "gate_dpl (set_gate 15 dpl a) = dpl" "gate_type (set_gate 15 dpl a) = 15"
proof -
  define w :: u32 where "w = (if dpl = 0 then 0x8f00 else 0xef00)"
  have g: "set_gate 15 dpl a = (0x80000 OR (a AND 0xffff), (a AND 0xffff0000) OR w)"
    using assms by (auto simp: set_gate_def w_def)
  have w: "w AND 0xffff0000 = 0" "drop_bit 13 w AND 3 = dpl" "drop_bit 8 w AND 15 = 15" "bit w 15"
    using assms by (auto simp: w_def)
  show "gate_addr (set_gate 15 dpl a) = a"
    using addr_halves[of a] w(1) by (simp add: gate_addr_def g bit.conj_disj_distrib2 and.assoc)
  show "gate_selector (set_gate 15 dpl a) = 8" by (simp add: gate_selector_def g drop_bit_or drop_bit_and)
  show "gate_present (set_gate 15 dpl a)" using w(4) by (simp add: gate_present_def g bit_or_iff)
  show "gate_dpl (set_gate 15 dpl a) = dpl" using w(2) by (simp add: gate_dpl_def g drop_bit_or drop_bit_and bit.conj_disj_distrib2 and.assoc)
  show "gate_type (set_gate 15 dpl a) = 15" using w(3) by (simp add: gate_type_def g drop_bit_or drop_bit_and bit.conj_disj_distrib2 and.assoc)
qed

lemma fold_trap_gate: "fold (\<lambda>i. set_trap_gate i a) xs idt n = (if n \<in> set xs then set_gate 15 0 a else idt n)"
  by (induction xs arbitrary: idt) (auto simp: set_trap_gate_def)

lemma trap_gates_eq:
  "trap_gates vec idt n = (if n < 48 then set_gate 15 (if n \<in> {3, 4, 5} then 3 else 0) (vec (trap_of n)) else idt n)"
proof (cases "n < 17")
  case True
  then have "n \<in> {0, 1, 2, 3, 4, 5, 6, 7, 8, 9, 10, 11, 12, 13, 14, 15, 16}" by (auto simp: less_Suc_eq numeral_eq_Suc)
  then show ?thesis
    by (auto simp: trap_gates_def Let_def set_trap_gate_def set_system_gate_def fold_trap_gate trap_of_def)
next
  case False
  then show ?thesis
    by (auto simp: trap_gates_def Let_def set_trap_gate_def set_system_gate_def fold_trap_gate trap_of_def simp del: upt_rec_numeral)
qed

text \<open>The interrupt descriptor table. After \<open>trap_init\<close> each of the 48 vectors holds a present trap gate into the kernel's code segment whose address, put together by the processor from its
  two halves, is the entry point of its exception; user programs may raise only 3, 4 and 5 themselves; the other vectors are untouched.\<close>

theorem trap_init_gates:
  "case trap_init vec idt s of (idt', s') \<Rightarrow>
    (\<forall>n. if n < 48
      then gate_present (idt' n) \<and> gate_type (idt' n) = 15 \<and> gate_selector (idt' n) = 8 \<and> gate_addr (idt' n) = vec (trap_of n) \<and>
        gate_dpl (idt' n) = (if n \<in> {3, 4, 5} then 3 else 0)
      else idt' n = idt n)"
proof -
  have "(if n \<in> {3, 4, 5 :: nat} then 3 else 0 :: u32) = 0 \<or> (if n \<in> {3, 4, 5 :: nat} then 3 else 0 :: u32) = 3" for n by auto
  note set_gate_means[OF this]
  then show ?thesis by (simp add: trap_init_def Let_def trap_gates_eq)
qed

end
