(* ===== verification/Kernel_Syscall.thy ===== *)
theory Kernel_Syscall
  imports Blk_Hd Fs_Exec Kernel_Exit Kernel_Fork Kernel_Sys
begin

text \<open>
  The way into the kernel: \<open>sys_call_table\<close> of src/include/linux/sys.h and \<open>_system_call\<close>, \<open>ret_from_sys_call\<close>, \<open>_sys_execve\<close> and \<open>_timer_interrupt\<close> of src/kernel/system_call.s, which
  compose the system calls, the scheduler and the delivery of signals.

  A call gets the saved registers and returns a value and the registers, which \<open>execve\<close> and the delivery of a signal change. Three arguments stand for memory the calls read and C leaves open: the
  contents of the pages of a new program before they are loaded (\<open>fresh\<close>), and the bytes of uninitialised structures on the kernel stack (\<open>pad\<close>, \<open>pad1\<close>).
\<close>

type_synonym 's sys_entry = "fork_regs \<Rightarrow> (u32 \<times> fork_regs, 's) proc"

definition entry_proc :: "(fork_regs \<Rightarrow> (int, 's) proc) \<Rightarrow> 's sys_entry" where
  "entry_proc f r = bindp (f r) (\<lambda>v. retp (word_of_int v, r))"

definition entry_call :: "(fork_regs \<Rightarrow> 's \<Rightarrow> int \<times> 's) \<Rightarrow> 's sys_entry" where
  "entry_call f = entry_proc (\<lambda>r. callp (f r))"

definition entry_kres :: "(fork_regs \<Rightarrow> 's \<Rightarrow> (int, 's) kres) \<Rightarrow> 's sys_entry" where
  "entry_kres f = entry_proc (\<lambda>r. liftp (f r))"

definition entry_get :: "('s \<Rightarrow> int) \<Rightarrow> 's sys_entry" where
  "entry_get f = entry_proc (\<lambda>_. getp f)"

definition entry_const :: "int \<Rightarrow> 's sys_entry" where
  "entry_const v = entry_proc (\<lambda>_. retp v)"

definition entry_word :: "(fork_regs \<Rightarrow> 's \<Rightarrow> u32 \<times> 's) \<Rightarrow> 's sys_entry" where
  "entry_word f r = bindp (callp (f r)) (\<lambda>v. retp (v, r))"

definition pausep :: "(int, 'z sched_state_scheme) proc" where
  "pausep = (\<lambda>w s. bindk (sys_pause (events w) s) (\<lambda>v s. Ok (v, w\<lparr>events := tl (events w)\<rparr>) s))"

text \<open>\<open>_sys_execve\<close>: \<open>do_execve\<close> gets the place of \<open>eip\<close> on the stack and stores a new \<open>eip\<close> and \<open>esp\<close> there.\<close>

definition sys_execve :: "(u32 \<Rightarrow> u8) \<Rightarrow> 'z tty_state_scheme sys_entry" where
  "sys_execve fresh r =
     bindp (do_execve fresh (r_cs r) (r_ebx r) (r_ecx r) (r_edx r)) (\<lambda>(v, new).
       retp (word_of_int v, case new of None \<Rightarrow> r | Some (eip, esp) \<Rightarrow> r\<lparr>r_eip := eip, r_esp := esp\<rparr>))"

definition sys_call_table :: "(u32 \<Rightarrow> u8) \<Rightarrow> (nat \<Rightarrow> u8) \<Rightarrow> u8 \<Rightarrow> 'z hd_state_scheme sys_entry list" where
  "sys_call_table fresh pad pad1 =
    [entry_proc (\<lambda>r. sys_setup (r_ebx r)),
     entry_proc (\<lambda>r. sys_exit (r_ebx r)),
     entry_kres sys_fork,
     entry_proc (\<lambda>r. sys_read (r_ebx r) (r_ecx r) (sint (r_edx r))),
     entry_proc (\<lambda>r. sys_write (r_ebx r) (r_ecx r) (sint (r_edx r))),
     entry_proc (\<lambda>r. sys_open (r_ebx r) (r_ecx r) (r_edx r)),
     entry_proc (\<lambda>r. sys_close (r_ebx r)),
     entry_proc (\<lambda>r. sys_waitpid (sint (r_ebx r)) (r_ecx r) (r_edx r)),
     entry_proc (\<lambda>r. sys_creat (r_ebx r) (r_ecx r)),
     entry_proc (\<lambda>r. sys_link (r_ebx r) (r_ecx r)),
     entry_proc (\<lambda>r. sys_unlink (r_ebx r)),
     sys_execve fresh,
     entry_proc (\<lambda>r. sys_chdir (r_ebx r)),
     entry_kres (\<lambda>r. sys_time (r_ebx r)),
     entry_proc (\<lambda>r. sys_mknod (r_ebx r) (ucast (r_ecx r)) (ucast (r_edx r))),
     entry_proc (\<lambda>r. sys_chmod (r_ebx r) (ucast (r_ecx r))),
     entry_proc (\<lambda>r. sys_chown (r_ebx r) (r_ecx r) (r_edx r)),
     entry_const sys_break,
     entry_proc (\<lambda>r. sys_stat pad (r_ebx r) (r_ecx r)),
     entry_call (\<lambda>r. sys_lseek (r_ebx r) (sint (r_ecx r)) (sint (r_edx r))),
     entry_get sys_getpid,
     entry_proc (\<lambda>r. sys_mount (r_ebx r) (r_ecx r)),
     entry_proc (\<lambda>r. sys_umount (r_ebx r)),
     entry_call (\<lambda>r. sys_setuid (sint (r_ebx r))),
     entry_get sys_getuid,
     entry_call (\<lambda>r. sys_stime (r_ebx r)),
     entry_const sys_ptrace,
     entry_call (\<lambda>r. sys_alarm (sint (r_ebx r))),
     entry_proc (\<lambda>r. sys_fstat pad (r_ebx r) (r_ecx r)),
     entry_proc (\<lambda>_. pausep),
     entry_proc (\<lambda>r. sys_utime (r_ebx r) (r_ecx r)),
     entry_const sys_stty,
     entry_const sys_gtty,
     entry_proc (\<lambda>r. sys_access (r_ebx r) (r_ecx r)),
     entry_call (\<lambda>r. sys_nice (sint (r_ebx r))),
     entry_const sys_ftime,
     entry_proc (\<lambda>_. sys_sync),
     entry_call (\<lambda>r. sys_kill (sint (r_ebx r)) (sint (r_ecx r))),
     entry_const sys_rename,
     entry_proc (\<lambda>r. sys_mkdir (r_ebx r) (ucast (r_ecx r))),
     entry_proc (\<lambda>r. sys_rmdir (r_ebx r)),
     entry_call (\<lambda>r. sys_dup (r_ebx r)),
     entry_proc (\<lambda>r. sys_pipe (r_ebx r)),
     entry_kres (\<lambda>r. sys_times (r_ebx r)),
     entry_const sys_prof,
     entry_word (\<lambda>r. sys_brk (r_ebx r)),
     entry_call (\<lambda>r. sys_setgid (sint (r_ebx r))),
     entry_get sys_getgid,
     entry_word (\<lambda>r. sys_signal (sint (r_ebx r)) (r_ecx r) (r_edx r)),
     entry_get sys_geteuid,
     entry_get sys_getegid,
     entry_const sys_acct,
     entry_const sys_phys,
     entry_const sys_lock,
     entry_kres (\<lambda>r. sys_ioctl pad1 (r_ebx r) (r_ecx r) (r_edx r)),
     entry_call (\<lambda>r. sys_fcntl (r_ebx r) (r_ecx r) (r_edx r)),
     entry_const sys_mpx,
     entry_call (\<lambda>r. sys_setpgid (sint (r_ebx r)) (sint (r_ecx r))),
     entry_const sys_ulimit,
     entry_kres (\<lambda>r. sys_uname (r_ebx r)),
     entry_call (\<lambda>r. sys_umask (sint (r_ebx r))),
     entry_proc (\<lambda>r. sys_chroot (r_ebx r)),
     entry_const sys_ustat,
     entry_proc (\<lambda>r. sys_dup2 (r_ebx r) (r_ecx r)),
     entry_get sys_getppid,
     entry_get sys_getpgrp,
     entry_call (\<lambda>_. sys_setsid),
     entry_kres (\<lambda>r. sys_sigaction (sint (r_ebx r)) (r_ecx r) (r_edx r)),
     entry_word (\<lambda>_ s. (sys_sgetmask s, s)),
     entry_word (\<lambda>r. sys_ssetmask (r_ebx r)),
     entry_call (\<lambda>r. sys_setreuid (sint (r_ebx r)) (sint (r_ecx r))),
     entry_call (\<lambda>r. sys_setregid (sint (r_ebx r)) (sint (r_ecx r)))]"

subsection \<open>Back to the user\<close>

text \<open>\<open>bsfl\<close>: the lowest bit set.\<close>

definition bsf :: "u32 \<Rightarrow> nat option" where
  "bsf x = find (bit x) [0..<32]"

text \<open>The lowest pending signal that is not blocked, taken off the pending ones.\<close>

definition next_signal :: "'z sched_state_scheme \<Rightarrow> (nat \<times> 'z sched_state_scheme) option" where
  "next_signal s =
     map_option (\<lambda>n. (Suc n, upd_cur (\<lambda>t. t\<lparr>signal := unset_bit n (signal t)\<rparr>) s)) (bsf (signal (cur s) AND NOT (blocked (cur s))))"

definition ret_from_sys_call :: "u32 \<Rightarrow> fork_regs \<Rightarrow> (u32 \<times> fork_regs, 'z tty_state_scheme) proc" where
  "ret_from_sys_call eax r =
     ifp (\<lambda>s. current s = 0 \<or> r_cs r AND 0xffff \<noteq> 0x0f \<or> r_ss r AND 0xffff \<noteq> 0x17) (retp (eax, r))
     (bindp (getp next_signal) (\<lambda>sig.
        case sig of
          None \<Rightarrow> retp (eax, r)
        | Some (signr, s) \<Rightarrow>
            (\<lambda>w _. case do_signal signr \<lparr>fr_eax = eax, fr_ecx = r_ecx r, fr_edx = r_edx r, fr_eip = r_eip r, fr_eflags = r_eflags r, fr_esp = r_esp r\<rparr> s of
                     Exit c s \<Rightarrow> bindp (do_exit (uint c)) (\<lambda>_. retp (eax, r)) w s
                   | Ok f s \<Rightarrow> Ok ((eax, r\<lparr>r_eip := fr_eip f, r_esp := fr_esp f\<rparr>), w) s
                   | Panic m s \<Rightarrow> Panic m s | Blocked s \<Rightarrow> Blocked s | Fault s \<Rightarrow> Fault s)))"

text \<open>\<open>reschedule\<close> when the task is not runnable or has used up its time.\<close>

definition may_reschedule :: "(unit, 'z sched_state_scheme) proc" where
  "may_reschedule = (\<lambda>w s.
     if state (cur s) \<noteq> 0 \<or> counter (cur s) = 0
     then bindk (reschedule (events w) s) (\<lambda>ev s. Ok ((), w\<lparr>events := ev\<rparr>) s) else Ok ((), w) s)"

definition system_call :: "(u32 \<Rightarrow> u8) \<Rightarrow> (nat \<Rightarrow> u8) \<Rightarrow> u8 \<Rightarrow> u32 \<Rightarrow> 'z hd_state_scheme sys_entry" where
  "system_call fresh pad pad1 eax r =
     (if eax > 72 - 1 then retp (- 1, r)
      else
        bindp ((sys_call_table fresh pad pad1 ! unat eax) r) (\<lambda>(v, r).
          seqp may_reschedule (ret_from_sys_call v r)))"

text \<open>\<open>_timer_interrupt\<close>; \<open>call\<close> and \<open>n\<close> are the arguments of \<open>do_timer\<close>. When \<open>do_timer\<close> has switched to another task, the rest runs after the next event, when this task is current again.\<close>

definition resumep :: "nat \<Rightarrow> (unit, 'z sched_state_scheme) proc" where
  "resumep me = (\<lambda>w s.
     if current s = me then Ok ((), w) s
     else case events w of [] \<Rightarrow> Blocked s | e # ev \<Rightarrow> bindk (resume me e s) (\<lambda>_ s. Ok ((), w\<lparr>events := ev\<rparr>) s))"

definition timer_interrupt ::
    "(nat \<Rightarrow> 'z tty_state_scheme \<Rightarrow> 'z tty_state_scheme) \<Rightarrow> nat \<Rightarrow> u32 \<Rightarrow> 'z tty_state_scheme sys_entry" where
  "timer_interrupt call n eax r =
     seqp (modp (\<lambda>s. outb 0x20 0x20 (s\<lparr>jiffies := s32 (jiffies s + 1)\<rparr>)))
     (bindp (getp current) (\<lambda>me.
      seqp (liftp (do_timer call n (uint (r_cs r AND 3))))
      (seqp (resumep me) (ret_from_sys_call eax r))))"

text \<open>Every number the check admits is in the table.\<close>

lemma length_sys_call_table: "length (sys_call_table fresh pad pad1) = 72"
  by (simp add: sys_call_table_def)

end
