(* ===== verification/Lib_Syscall.thy ===== *)
theory Lib_Syscall
  imports Kernel_Syscall
begin

text \<open>
  The user's side of a system call: the numbers and the \<open>_syscall\<close> macros of src/include/unistd.h and the calls of src/lib. \<open>errno\<close> is the caller's variable; the registers of the call are \<open>r\<close>.
\<close>

definition nr_names :: "string list" where
  "nr_names =
     [''setup'', ''exit'', ''fork'', ''read'', ''write'', ''open'', ''close'', ''waitpid'', ''creat'', ''link'', ''unlink'', ''execve'', ''chdir'', ''time'', ''mknod'',
      ''chmod'', ''chown'', ''break'', ''stat'', ''lseek'', ''getpid'', ''mount'', ''umount'', ''setuid'', ''getuid'', ''stime'', ''ptrace'', ''alarm'', ''fstat'',
      ''pause'', ''utime'', ''stty'', ''gtty'', ''access'', ''nice'', ''ftime'', ''sync'', ''kill'', ''rename'', ''mkdir'', ''rmdir'', ''dup'', ''pipe'', ''times'',
      ''prof'', ''brk'', ''setgid'', ''getgid'', ''signal'', ''geteuid'', ''getegid'', ''acct'', ''phys'', ''lock'', ''ioctl'', ''fcntl'', ''mpx'', ''setpgid'',
      ''ulimit'', ''uname'', ''umask'', ''chroot'', ''ustat'', ''dup2'', ''getppid'', ''getpgrp'', ''setsid'', ''sigaction'', ''sgetmask'', ''ssetmask'', ''setreuid'', ''setregid'']"

definition NR :: "string \<Rightarrow> nat" where
  "NR name = length (takeWhile (\<lambda>n. n \<noteq> name) nr_names)"

text \<open>The value and \<open>errno\<close> a stub returns for the register \<open>eax\<close>.\<close>

definition syscall_return :: "u32 \<Rightarrow> int \<Rightarrow> int \<times> int" where
  "syscall_return res errno = (if 0 \<le> sint res then (sint res, errno) else (- 1, - sint res))"

definition syscall3 ::
    "(u32 \<Rightarrow> u8) \<Rightarrow> (nat \<Rightarrow> u8) \<Rightarrow> u8 \<Rightarrow> string \<Rightarrow> u32 \<Rightarrow> u32 \<Rightarrow> u32 \<Rightarrow> fork_regs \<Rightarrow> int
     \<Rightarrow> ((int \<times> int) \<times> fork_regs, 'z hd_state_scheme) proc" where
  "syscall3 fresh pad pad1 name a b c r errno =
     bindp (system_call fresh pad pad1 (of_nat (NR name)) (r\<lparr>r_ebx := a, r_ecx := b, r_edx := c\<rparr>)) (\<lambda>(res, r).
       retp (syscall_return res errno, r))"

definition syscall2 ::
    "(u32 \<Rightarrow> u8) \<Rightarrow> (nat \<Rightarrow> u8) \<Rightarrow> u8 \<Rightarrow> string \<Rightarrow> u32 \<Rightarrow> u32 \<Rightarrow> fork_regs \<Rightarrow> int \<Rightarrow> ((int \<times> int) \<times> fork_regs, 'z hd_state_scheme) proc" where
  "syscall2 fresh pad pad1 name a b r = syscall3 fresh pad pad1 name a b (r_edx r) r"

definition syscall1 ::
    "(u32 \<Rightarrow> u8) \<Rightarrow> (nat \<Rightarrow> u8) \<Rightarrow> u8 \<Rightarrow> string \<Rightarrow> u32 \<Rightarrow> fork_regs \<Rightarrow> int \<Rightarrow> ((int \<times> int) \<times> fork_regs, 'z hd_state_scheme) proc" where
  "syscall1 fresh pad pad1 name a r = syscall2 fresh pad pad1 name a (r_ecx r) r"

definition syscall0 ::
    "(u32 \<Rightarrow> u8) \<Rightarrow> (nat \<Rightarrow> u8) \<Rightarrow> u8 \<Rightarrow> string \<Rightarrow> fork_regs \<Rightarrow> int \<Rightarrow> ((int \<times> int) \<times> fork_regs, 'z hd_state_scheme) proc" where
  "syscall0 fresh pad pad1 name r = syscall1 fresh pad pad1 name (r_ebx r) r"

text \<open>\<open>close\<close>, \<open>dup\<close>, \<open>write\<close>, \<open>execve\<close> and \<open>setsid\<close> are the macros at these numbers; \<open>open\<close> and \<open>_exit\<close> are written out but do the same; \<open>wait\<close> calls \<open>waitpid\<close>.\<close>

definition lib_wait ::
    "(u32 \<Rightarrow> u8) \<Rightarrow> (nat \<Rightarrow> u8) \<Rightarrow> u8 \<Rightarrow> u32 \<Rightarrow> fork_regs \<Rightarrow> int \<Rightarrow> ((int \<times> int) \<times> fork_regs, 'z hd_state_scheme) proc" where
  "lib_wait fresh pad pad1 wait_stat = syscall3 fresh pad pad1 ''waitpid'' (- 1) wait_stat 0"

definition lib_open ::
    "(u32 \<Rightarrow> u8) \<Rightarrow> (nat \<Rightarrow> u8) \<Rightarrow> u8 \<Rightarrow> u32 \<Rightarrow> u32 \<Rightarrow> u32 \<Rightarrow> fork_regs \<Rightarrow> int \<Rightarrow> ((int \<times> int) \<times> fork_regs, 'z hd_state_scheme) proc" where
  "lib_open fresh pad pad1 filename flag mode = syscall3 fresh pad pad1 ''open'' filename flag mode"

lemma NR_less: "name \<in> set nr_names \<Longrightarrow> NR name < 72"
  by (auto simp: nr_names_def NR_def)

lemma NR_table:
  "name \<in> set nr_names \<Longrightarrow> NR name < length (sys_call_table fresh pad pad1)"
  by (simp add: length_sys_call_table NR_less)

text \<open>The two lists agree: the number of a stub selects the routine of that name.\<close>

lemma NR_entries:
  "sys_call_table fresh pad pad1 ! NR ''read'' = entry_proc (\<lambda>r. sys_read (r_ebx r) (r_ecx r) (sint (r_edx r)))"
  "sys_call_table fresh pad pad1 ! NR ''write'' = entry_proc (\<lambda>r. sys_write (r_ebx r) (r_ecx r) (sint (r_edx r)))"
  "sys_call_table fresh pad pad1 ! NR ''open'' = entry_proc (\<lambda>r. sys_open (r_ebx r) (r_ecx r) (r_edx r))"
  "sys_call_table fresh pad pad1 ! NR ''close'' = entry_proc (\<lambda>r. sys_close (r_ebx r))"
  "sys_call_table fresh pad pad1 ! NR ''waitpid'' = entry_proc (\<lambda>r. sys_waitpid (sint (r_ebx r)) (r_ecx r) (r_edx r))"
  "sys_call_table fresh pad pad1 ! NR ''execve'' = sys_execve fresh"
  "sys_call_table fresh pad pad1 ! NR ''dup'' = entry_call (\<lambda>r. sys_dup (r_ebx r))"
  "sys_call_table fresh pad pad1 ! NR ''setsid'' = entry_call (\<lambda>_. sys_setsid)"
  "sys_call_table fresh pad pad1 ! NR ''exit'' = entry_proc (\<lambda>r. sys_exit (r_ebx r))"
  "sys_call_table fresh pad pad1 ! NR ''setregid'' = entry_call (\<lambda>r. sys_setregid (sint (r_ebx r)) (sint (r_ecx r)))"
  by (simp_all add: nr_names_def NR_def sys_call_table_def)

end
