(* ===== verification/Exit_Laws.thy ===== *)
theory Exit_Laws
  imports Kernel_Exit
begin

text \<open>
  The end of a task. \<open>stays m\<close> says that a routine returns in the task that called it and consumes events of its world only;
  it is composed along the combinators as \<open>keeps\<close> is. With it, a task that has become a zombie does not come back from the \<open>schedule\<close>
  at the end of \<open>do_exit\<close>, because \<open>resumable\<close> admits runnable tasks only.
\<close>

subsection \<open>Routines return in their task\<close>

text \<open>The drivers return in the task that made the request.\<close>

definition drivers_stay :: "'z sched_state_scheme world \<Rightarrow> bool" where
  "drivers_stay w \<longleftrightarrow> (\<forall>m f s u s'. request_fn w m = Some f \<longrightarrow> f s = Ok u s' \<longrightarrow> current s' = current s)"

definition stays :: "('a, 'z sched_state_scheme) proc \<Rightarrow> bool" where
  "stays m \<longleftrightarrow> (\<forall>w s a w' s'. drivers_stay w \<longrightarrow> m w s = Ok (a, w') s' \<longrightarrow>
     current s' = current s \<and> request_fn w' = request_fn w \<and> set (events w') \<subseteq> set (events w))"

named_theorems stays_intros \<open>introduction rules for \<open>stays\<close>\<close>

lemma staysD:
  "stays m \<Longrightarrow> drivers_stay w \<Longrightarrow> m w s = Ok (a, w') s' \<Longrightarrow>
     current s' = current s \<and> request_fn w' = request_fn w \<and> set (events w') \<subseteq> set (events w)"
  unfolding stays_def by blast

lemma stays_basic [stays_intros]:
  "stays (retp a)" "stays (getp f)" "stays (panicp msg)" "stays faultp" "stays stuckp"
  by (simp_all add: stays_def retp_def getp_def panicp_def faultp_def stuckp_def)

lemma stays_mod: "(\<And>s. current (f s) = current s) \<Longrightarrow> stays (modp f)"
  by (auto simp: stays_def modp_def)

lemma stays_lift: "(\<And>s a s'. k s = Ok a s' \<Longrightarrow> current s' = current s) \<Longrightarrow> stays (liftp k)"
  by (auto simp: stays_def liftp_def)

lemma stays_if [stays_intros]: "stays m \<Longrightarrow> stays n \<Longrightarrow> stays (ifp c m n)"
  unfolding stays_def ifp_def by (metis (full_types))

lemma stays_if_split [stays_intros]: "(b \<Longrightarrow> stays m) \<Longrightarrow> (\<not> b \<Longrightarrow> stays n) \<Longrightarrow> stays (if b then m else n)"
  by simp

lemma stays_option [stays_intros]:
  "(x = None \<Longrightarrow> stays m) \<Longrightarrow> (\<And>y. x = Some y \<Longrightarrow> stays (n y)) \<Longrightarrow> stays (case x of None \<Rightarrow> m | Some y \<Rightarrow> n y)"
  by (cases x) auto

lemma stays_prod [stays_intros]: "(\<And>a b. stays (f a b)) \<Longrightarrow> stays (case x of (a, b) \<Rightarrow> f a b)"
  by (cases x) simp

lemma stays_fuel [stays_intros]: "(\<And>n. stays (f n)) \<Longrightarrow> stays (fuelp f)"
  unfolding stays_def fuelp_def by blast

lemma stays_bind [stays_intros]:
  assumes "stays m" "\<And>a. stays (f a)"
  shows "stays (bindp m f)"
  unfolding stays_def
proof (intro allI impI)
  fix w s b w' s' assume w: "drivers_stay w" and "bindp m f w s = Ok (b, w') s'"
  then obtain a w1 s1 where m: "m w s = Ok (a, w1) s1" and f: "f a w1 s1 = Ok (b, w') s'" by (auto simp: bindp_def)
  have 1: "current s1 = current s" "request_fn w1 = request_fn w" "set (events w1) \<subseteq> set (events w)"
    using staysD[OF assms(1) w m] by auto
  have "drivers_stay w1" using w 1(2) by (simp add: drivers_stay_def)
  then show "current s' = current s \<and> request_fn w' = request_fn w \<and> set (events w') \<subseteq> set (events w)"
    using staysD[OF assms(2) _ f] 1 by auto
qed

lemma stays_seq [stays_intros]: "stays m \<Longrightarrow> stays n \<Longrightarrow> stays (seqp m n)"
  unfolding seqp_def by (rule stays_bind)

lemma stays_for [stays_intros]: "(\<And>i. stays (f i)) \<Longrightarrow> stays (forp is f)"
  by (induction "is") (auto intro: stays_intros)

lemma stays_done [stays_intros]: "(\<And>m. m \<in> set ms \<Longrightarrow> stays m) \<Longrightarrow> stays (donep ms a)"
  by (induction ms) (auto intro: stays_intros)

lemma stays_reschedule: "reschedule env s = Ok env' s' \<Longrightarrow> current s' = current s \<and> set env' \<subseteq> set env"
  by (cases env) (auto simp: resume_def Let_def split: if_splits)

lemma current_upd [simp]:
  "current (upd_task i f s) = current s" "current (upd_cur f s) = current s" "current (sleep_leave t s) = current s"
  "current (wake_up q s) = current s"
  by (simp_all add: upd_task_def upd_cur_def sleep_leave_def wake_up_def split: option.split)

lemma stays_sched [stays_intros]: "stays schedulep"
  unfolding stays_def schedulep_def by (auto dest!: stays_reschedule)

lemma stays_sleep [stays_intros]: "stays (sleepp q)"
  unfolding stays_def sleepp_def
  by (auto simp: sleep_on_def Let_def sleep_enter_def dest!: stays_reschedule split: if_splits)

lemma stays_wait [stays_intros]: "stays (wait_while c q)"
proof -
  have "stays (wait_loop n c q)" for n by (induction n) (auto intro: stays_intros)
  then show ?thesis unfolding wait_while_def by (rule stays_fuel)
qed

subsection \<open>Memory\<close>

lemma current_mm [simp]:
  "current (store a v s) = current s" "current (printk msg s) = current s" "current (invalidate s) = current s"
  by (simp_all add: store_def printk_def invalidate_def)

lemma free_page_current: "free_page a s = Ok u s' \<Longrightarrow> current s' = current s"
  by (auto simp: free_page_def Let_def split: if_splits)

lemma free_table_loop_current: "free_table_loop n p s = Ok u s' \<Longrightarrow> current s' = current s"
  by (induction n arbitrary: p s) (fastforce dest: free_page_current split: if_splits)+

lemma free_dir_loop_current: "free_dir_loop n p s = Ok u s' \<Longrightarrow> current s' = current s"
  by (induction n arbitrary: p s) (fastforce dest: free_page_current free_table_loop_current split: if_splits)+

lemma free_page_tables_current: "free_page_tables from sz s = Ok u s' \<Longrightarrow> current s' = current s"
  by (auto simp: free_page_tables_def Let_def dest: free_dir_loop_current split: if_splits)

subsection \<open>The file system\<close>

lemma current_fs [simp]:
  "current (upd_buf b f s) = current s" "current (upd_ptr p f s) = current s" "current (upd_req r g s) = current s"
  "current (upd_inode i h s) = current s" "current (upd_super k j s) = current s" "current (upd_file l m s) = current s"
  by (simp_all add: upd_buf_def upd_ptr_def upd_req_def upd_inode_def upd_super_def upd_file_def split: option.split)

lemma stays_add_request: "stays (add_request major req)"
  unfolding stays_def add_request_def Let_def
  by (auto simp: drivers_stay_def liftp_def split: option.splits)

lemma stays_locks [stays_intros]:
  "stays (wait_on_buffer b)" "stays (lock_buffer b)" "stays (wait_on_inode i)" "stays (lock_inode i)" "stays (wait_on_super k)"
  unfolding wait_on_buffer_def lock_buffer_def wait_on_inode_def lock_inode_def wait_on_super_def
  by (auto intro!: stays_intros stays_mod)

lemma stays_ll_rw_block [stays_intros]: "stays (ll_rw_block rw b)"
proof -
  have u: "current (unlock_buffer msg b s) = current s" for msg and s :: "'z fs_state_scheme" by (simp add: unlock_buffer_def Let_def)
  have f: "current (fill_request r rw b s) = current s" for r rw and s :: "'z fs_state_scheme" by (simp add: fill_request_def)
  have l: "stays (request_loop n major rw ahead b)" for n major rw ahead
    by (induction n) (auto intro!: stays_intros stays_mod stays_add_request simp: u f)
  have m: "stays (make_request major rw b)" for major
    unfolding make_request_def Let_def by (auto intro!: stays_intros stays_mod l simp: u)
  show ?thesis
    unfolding stays_def ll_rw_block_def Let_def by (auto dest!: staysD[OF m] split: if_splits)
qed

lemma stays_brelse [stays_intros]: "stays (brelse b)"
  unfolding brelse_def by (auto intro!: stays_intros stays_mod)

lemma stays_get_hash_table [stays_intros]: "stays (get_hash_table dev block)"
proof -
  have "stays (get_hash_loop n dev block)" for n by (induction n) (auto intro!: stays_intros stays_mod)
  then show ?thesis unfolding get_hash_table_def by (rule stays_fuel)
qed

lemma stays_get_super [stays_intros]: "stays (get_super dev)"
proof -
  have "stays (get_super_loop n dev)" for n by (induction n) (auto intro!: stays_intros)
  then show ?thesis unfolding get_super_def by (auto intro!: stays_intros)
qed

lemma claim_buffer_current: "claim_buffer dev block b s = Ok u s' \<Longrightarrow> current s' = current s"
  by (auto simp: claim_buffer_def remove_from_queues_def insert_into_queues_def Let_def split: option.splits if_splits)

lemma stays_getblk_with:
  assumes "\<And>d. stays (sync d)" shows "stays (getblk_with sync dev block)"
proof -
  have c: "stays (clean_loop n sync b)" for n b by (induction n) (auto intro!: stays_intros assms)
  have "stays (getblk_loop n sync dev block)" for n
    by (induction n) (auto intro!: stays_intros stays_lift c dest: claim_buffer_current)
  then show ?thesis unfolding getblk_with_def by (rule stays_fuel)
qed

lemma current_unlock [simp]: "current (unlock_inode i s) = current s" "current (clear_inode i s) = current s"
  by (simp_all add: unlock_inode_def clear_inode_def)

lemma stays_bread_with: "(\<And>d k. stays (g d k)) \<Longrightarrow> stays (bread_with g dev block)"
  unfolding bread_with_def by (auto intro!: stays_intros)

lemma stays_write_inode_with: "(\<And>d k. stays (g d k)) \<Longrightarrow> stays (write_inode_with g i)"
  unfolding write_inode_with_def by (auto intro!: stays_intros stays_mod)

lemma stays_sync_dev_with: "(\<And>d k. stays (g d k)) \<Longrightarrow> stays (sync_dev_with (sync_inodes_with g) dev)"
  unfolding sync_dev_with_def sync_dev_buffers_def sync_inodes_with_def by (auto intro!: stays_intros stays_write_inode_with)

lemma stays_getblk [stays_intros]: "stays (getblk dev block)"
proof -
  have "stays (getblk_at n dev block)" for n dev block
    by (induction n arbitrary: dev block) (auto intro!: stays_intros stays_getblk_with stays_sync_dev_with stays_bread_with)
  then show ?thesis unfolding getblk_def by (rule stays_fuel)
qed

lemma stays_bread [stays_intros]: "stays (bread dev block)" "stays (write_inode i)" "stays (sync_dev dev)"
  unfolding bread_def write_inode_def sync_dev_def sync_inodes_def
  by (auto intro!: stays_intros stays_bread_with stays_write_inode_with stays_sync_dev_with)

lemma stays_free_block [stays_intros]: "stays (free_block dev block)" "stays (free_inode i)"
  unfolding free_block_def free_inode_def by (auto intro!: stays_intros stays_mod)

lemma stays_truncate [stays_intros]: "stays (Fs_Inode.truncate i)"
  unfolding Fs_Inode.truncate_def free_ind_def free_dind_def by (auto intro!: stays_intros stays_mod)

lemma stays_iput [stays_intros]: "stays (iput i)"
proof -
  have "stays (iput_loop n k)" for n k by (induction n) (auto intro!: stays_intros stays_mod)
  then show ?thesis unfolding iput_def by (auto intro!: stays_intros stays_mod stays_lift dest: free_page_current)
qed

lemma stays_sys_close [stays_intros]: "stays (sys_close fd)"
  unfolding sys_close_def by (auto intro!: stays_intros stays_mod simp: clear_close_on_exec_def set_filp_def)


subsection \<open>A task that has exited\<close>

lemma current_adopt_one: "current (adopt_one i s) = current s"
  by (auto simp: adopt_one_def send_sig_def add_signal_def Let_def split: option.split)

lemma current_adopt: "current (adopt_children s) = current s"
proof -
  have "current (fold adopt_one is s) = current s" for "is" and s :: "'z sched_state_scheme"
    by (induction "is" arbitrary: s) (simp_all add: current_adopt_one)
  then show ?thesis by (simp add: adopt_children_def)
qed

lemma current_kill_session: "current (kill_session s) = current s"
proof -
  have "current (fold (\<lambda>i s. case task s i of Some t \<Rightarrow> if session t = session (cur s) then add_signal SIGHUP i s else s | None \<Rightarrow> s) is s) =
      current s" for "is" and s :: "'z sched_state_scheme"
    by (induction "is" arbitrary: s) (simp_all add: add_signal_def split: option.split)
  then show ?thesis by (simp add: kill_session_def)
qed

lemma stays_release_resources: "stays release_resources"
  unfolding release_resources_def free_segment_def
  by (auto intro!: stays_done stays_intros stays_mod stays_lift dest: free_page_tables_current simp: current_adopt current_kill_session upd_tty_def)

text \<open>A fact about a slot of the table that the scheduler's own changes of a task, those for its signals and its counter, do not disturb.\<close>

locale slot_kept =
  fixes Q :: "task_struct option \<Rightarrow> bool"
  assumes kept_signals: "Q (Some t) \<Longrightarrow> Q (Some (check_signals j t))"
    and kept_counter: "Q (Some t) \<Longrightarrow> Q (Some (t\<lparr>counter := n\<rparr>))"
begin

lemma kept_upd_task: "Q (task s i) \<Longrightarrow> (\<And>t. Q (Some t) \<Longrightarrow> Q (Some (f t))) \<Longrightarrow> Q (task (upd_task k f s) i)"
  by (cases "task s i") (auto simp: upd_task_def)

lemma kept_wake_signalled: "Q (task s i) \<Longrightarrow> Q (task (wake_signalled n s) i)"
proof (induction n arbitrary: s)
  case (Suc n)
  show ?case unfolding wake_signalled.simps by (intro Suc.IH kept_upd_task[OF Suc.prems] kept_signals)
qed simp

lemma kept_recharge: "Q (task s i) \<Longrightarrow> Q (task (recharge n s) i)"
proof (induction n arbitrary: s)
  case (Suc n)
  show ?case unfolding recharge.simps by (intro Suc.IH kept_upd_task[OF Suc.prems] kept_counter)
qed simp

lemma kept_schedule_loop: "schedule_loop s = Some r \<Longrightarrow> Q (task s i) \<Longrightarrow> Q (task (snd r) i)"
proof (rule schedule_loop.raw_induct[of "\<lambda>s r. Q (task s i) \<longrightarrow> Q (task (snd r) i)", THEN mp])
  fix f s r
  assume f: "\<And>s r. f s = Some r \<Longrightarrow> Q (task s i) \<longrightarrow> Q (task (snd r) i)"
    and "(let (c, nxt) = pick_next (NR_TASKS - 1) (task s) (- 1) 0 in if c \<noteq> 0 then Some (nxt, s) else f (recharge (NR_TASKS - 1) s)) = Some r"
  then show "Q (task s i) \<longrightarrow> Q (task (snd r) i)"
    using f[of "recharge (NR_TASKS - 1) s" r] kept_recharge[of s i "NR_TASKS - 1"] by (auto split: prod.splits if_splits)
qed

lemma kept_schedule: "Q (task s i) \<Longrightarrow> Q (task (kstate (schedule s)) i)"
  using kept_schedule_loop[of "wake_signalled (NR_TASKS - 1) s" _ i] kept_wake_signalled[of s i "NR_TASKS - 1"]
  by (fastforce simp: schedule_def Let_def switch_to_def split: option.split prod.split)

end

text \<open>The slot holds a zombie with exit code \<open>c\<close>, or has been released.\<close>

definition exited :: "nat \<Rightarrow> int \<Rightarrow> 'z sched_state_scheme \<Rightarrow> bool" where
  "exited i c s \<longleftrightarrow> (case task s i of None \<Rightarrow> True | Some t \<Rightarrow> state t = TASK_ZOMBIE \<and> exit_code t = c)"

text \<open>The slot holds the zombie of task \<open>t\<close> with exit code \<open>c\<close>.\<close>

definition zombie_of :: "task_struct \<Rightarrow> int \<Rightarrow> task_struct option \<Rightarrow> bool" where
  "zombie_of t c r \<longleftrightarrow> (\<exists>u. r = Some u \<and> state u = TASK_ZOMBIE \<and> exit_code u = c \<and> pid u = pid t \<and> father u = father t \<and>
     pgrp u = pgrp t \<and> utime u = utime t \<and> stime u = stime t \<and> t_page u = t_page t)"

text \<open>The slot holds a task with signal \<open>n\<close> pending.\<close>

definition pending :: "nat \<Rightarrow> task_struct option \<Rightarrow> bool" where
  "pending n r \<longleftrightarrow> (\<exists>u. r = Some u \<and> bit (signal u) (n - 1))"

interpretation gone: slot_kept "\<lambda>r. case r of None \<Rightarrow> True | Some t \<Rightarrow> state t = TASK_ZOMBIE \<and> exit_code t = c" for c
  by unfold_locales (auto simp: check_signals_def Let_def)

interpretation zombie: slot_kept "zombie_of t c" for t c
  by unfold_locales (auto simp: check_signals_def Let_def zombie_of_def)

interpretation pend: slot_kept "pending n" for n
  by unfold_locales (auto simp: check_signals_def Let_def pending_def bit_or_iff)

lemma exited_not_resumable: "exited i c s \<Longrightarrow> i \<noteq> 0 \<Longrightarrow> \<not> resumable i s"
  by (auto simp: exited_def resumable_def split: option.splits)

lemma exited_upd_task:
  assumes "exited i c s" "\<And>t. state t = TASK_ZOMBIE \<Longrightarrow> state (f t) = TASK_ZOMBIE \<and> exit_code (f t) = exit_code t"
  shows "exited i c (upd_task k f s)"
  using assms by (auto simp: exited_def upd_task_def split: option.splits if_splits)

lemma exited_schedule: "exited i c s \<Longrightarrow> exited i c (kstate (schedule s))"
  unfolding exited_def by (rule gone.kept_schedule)

text \<open>\<open>schedule\<close> does not return to it.\<close>

definition stays_exited :: "nat \<Rightarrow> int \<Rightarrow> 'z sched_state_scheme world \<Rightarrow> bool" where
  "stays_exited i c w \<longleftrightarrow> (\<forall>e\<in>set (events w). \<forall>s. exited i c s \<longrightarrow> exited i c (e s))"

lemma schedulep_exited:
  assumes "exited (current s) c s" "current s \<noteq> 0" "stays_exited (current s) c w"
  shows "\<not> is_Ok (schedulep w s) \<and> exited (current s) c (kstate (schedulep w s))"
proof (cases "schedule s")
  case (Ok u t)
  then have t: "exited (current s) c t" using exited_schedule[OF assms(1)] by simp
  show ?thesis
  proof (cases "events w")
    case Nil
    then show ?thesis using Ok t by (simp add: schedulep_def)
  next
    case (Cons e ev)
    then have e: "exited (current s) c (e t)" using assms(3) t by (simp add: stays_exited_def)
    then have "resume (current s) e t = Blocked (e t)" using exited_not_resumable[OF e assms(2)] by (simp add: resume_def Let_def)
    then show ?thesis using Ok Cons e by (simp add: schedulep_def)
  qed
qed (use exited_schedule[OF assms(1)] in \<open>cases "events w"; simp add: schedulep_def\<close>)+

lemma free_page_exited: "exited i c s \<Longrightarrow> exited i c (kstate (free_page a s))"
  by (simp add: free_page_def exited_def Let_def)

lemma tell_father_exited:
  assumes "exited (current s) c s" "current s \<noteq> 0" "stays_exited (current s) c w"
  shows "exited (current s) c (kstate (tell_father pd w s)) \<and>
    (is_Ok (tell_father pd w s) \<longrightarrow> (\<exists>s'. tell_father pd w s = Ok ((), w) s' \<and> current s' = current s))"
proof -
  let ?i = "current s" and ?f = "if pd = 0 then None else find (\<lambda>i. case task s i of None \<Rightarrow> False | Some t \<Rightarrow> pid t = pd) [0..<NR_TASKS]"
  show ?thesis
  proof (cases ?f)
    case (Some f)
    then have "tell_father pd w s = Ok ((), w) (add_signal SIGCHLD f s)" by (simp add: tell_father_def bindp_def getp_def modp_def)
    moreover have "exited ?i c (add_signal SIGCHLD f s)" unfolding add_signal_def using assms(1) by (rule exited_upd_task) simp
    ultimately show ?thesis by (simp add: add_signal_def)
  next
    case None
    define s0 where "s0 = printk ''BAD BAD - no father found'' s"
    have s0: "exited ?i c s0" "current s0 = ?i" using assms(1) by (simp_all add: s0_def exited_def printk_def)
    have e: "tell_father pd w s = release ?i w s0" using None s0 by (simp add: tell_father_def bindp_def getp_def modp_def seqp_def flip: s0_def)
    show ?thesis
    proof (cases "task s0 ?i = None \<or> ?i \<ge> NR_TASKS")
      case True
      then show ?thesis unfolding e using s0 assms(2)
        by (auto simp: release_def bindp_def getp_def retp_def panicp_def split: option.split)
    next
      case False
      then obtain p where p: "task s0 ?i = Some p" by auto
      define s1 where "s1 = s0\<lparr>task := (task s0)(?i := None)\<rparr>"
      have s1: "exited ?i c s1" "current s1 = ?i" by (simp_all add: s1_def s0 exited_def)
      have e1: "release ?i w s0 = bindk (free_page (t_page p) s1) (\<lambda>_ s. schedulep w s)"
        using p False assms(2) by (simp add: release_def bindp_def getp_def modp_def seqp_def liftp_def bindk_assoc flip: s1_def)
      show ?thesis
      proof (cases "free_page (t_page p) s1")
        case (Ok u s2)
        then have "exited ?i c s2" "current s2 = ?i" using free_page_exited[OF s1(1), of "t_page p"] free_page_current[OF Ok] s1(2) by simp_all
        then show ?thesis unfolding e e1 using schedulep_exited[of s2 c w] assms(2,3) Ok by simp
      qed (use e e1 free_page_exited[OF s1(1), of "t_page p"] in simp_all)
    qed
  qed
qed

text \<open>\<open>do_exit\<close> does not return; once the resources are released, the task is a zombie with its exit code or has left the table.\<close>

lemma do_exit_unfold:
  "do_exit code w s = bindk (release_resources w s) (\<lambda>(_, w) s.
     let s = upd_cur (\<lambda>t. t\<lparr>state := TASK_ZOMBIE, exit_code := code\<rparr>) s in
     bindk (tell_father (father (cur s)) w s) (\<lambda>(_, w) s. bindk (schedulep w s) (\<lambda>(_, w) s. Ok (- 1, w) s)))"
  by (simp add: do_exit_def seqp_def bindp_def getp_def modp_def retp_def bindk_assoc Let_def case_prod_beta)

lemma do_exit_exited:
  assumes "current s \<noteq> 0" "drivers_stay w" "stays_exited (current s) code w"
  shows "\<not> is_Ok (do_exit code w s) \<and>
    (is_Ok (release_resources w s) \<longrightarrow> exited (current s) code (kstate (do_exit code w s)))"
proof (cases "release_resources w s")
  case (Ok r s1)
  obtain w1 where r: "r = ((), w1)" by (cases r) auto
  have c: "current s1 = current s" "set (events w1) \<subseteq> set (events w)"
    using staysD[OF stays_release_resources assms(2)] Ok r by auto
  define s2 where "s2 = upd_cur (\<lambda>t. t\<lparr>state := TASK_ZOMBIE, exit_code := code\<rparr>) s1"
  have s2: "current s2 = current s" "exited (current s2) code s2" using c(1) by (simp_all add: s2_def exited_def upd_cur_def upd_task_def split: option.split)
  have w1: "stays_exited (current s2) code w1" using assms(3) c(2) s2(1) by (auto simp: stays_exited_def)
  define tf where "tf = tell_father (father (cur s2)) w1 s2"
  have u: "do_exit code w s = bindk tf (\<lambda>(_, w) s. bindk (schedulep w s) (\<lambda>(_, w) s. Ok (- 1, w) s))"
    by (simp add: do_exit_unfold Ok r Let_def tf_def flip: s2_def)
  note t = tell_father_exited[OF s2(2) _ w1, of "father (cur s2)", unfolded s2(1), folded tf_def] 
  show ?thesis
  proof (cases "is_Ok tf")
    case True
    then obtain s3 where s3: "tf = Ok ((), w1) s3" "current s3 = current s" "exited (current s) code s3" using t assms(1) s2(1) by fastforce
    have "\<not> is_Ok (schedulep w1 s3) \<and> exited (current s) code (kstate (schedulep w1 s3))"
      using schedulep_exited[of s3 code w1] s3 w1 s2(1) assms(1) by simp
    then show ?thesis unfolding u s3(1) by (cases "schedulep w1 s3") simp_all
  next
    case False
    then show ?thesis using u t assms(1) s2(1) by (cases tf) simp_all
  qed
qed (simp_all add: do_exit_unfold)

text \<open>A task without memory, files, children and a terminal has nothing to release.\<close>

lemma free_dir_loop_empty: "(\<And>a. phys s a = 0) \<Longrightarrow> free_dir_loop n d s = Ok () s"
  by (induction n arbitrary: d) (simp_all add: load_def present_def)

lemma free_segment_empty:
  assumes "\<And>a. phys s a = 0" "get_base (ldt (cur s) k) AND 0x3fffff = 0" "get_base (ldt (cur s) k) \<noteq> 0"
  shows "free_segment k w s = Ok ((), w) (invalidate s)"
  using assms by (simp add: free_segment_def bindp_def getp_def liftp_def retp_def free_page_tables_def free_dir_loop_empty Let_def)

lemma adopt_children_none:
  assumes "\<And>j u. task s j = Some u \<Longrightarrow> father u \<noteq> pid (cur s)"
  shows "adopt_children s = s"
proof -
  have "fold adopt_one is s = s" for "is"
    using assms by (induction "is") (simp_all add: adopt_one_def split: option.split)
  then show ?thesis by (simp add: adopt_children_def)
qed

lemma forp_skip: "(\<And>i. f i w s = Ok ((), w) s) \<Longrightarrow> forp is f w s = Ok ((), w) s"
  by (induction "is") (simp_all add: retp_def seqp_def bindp_def)

lemma seqp_step: "seqp m n w s = bindk (m w s) (\<lambda>(_, w) s. n w s)"
  by (simp add: seqp_def bindp_def)

lemma upd_cur_same: "task s (current s) = Some t \<Longrightarrow> f t = t \<Longrightarrow> upd_cur f s = s"
  by (simp add: upd_cur_def upd_task_def fun_upd_idem)

lemma release_resources_bare:
  fixes s :: "'z tty_state_scheme"
  assumes "task s (current s) = Some t" "\<And>a. phys s a = 0"
    and base: "\<And>k. k \<in> {1, 2} \<Longrightarrow> get_base (ldt t k) AND 0x3fffff = 0 \<and> get_base (ldt t k) \<noteq> 0"
    and child: "\<And>j u. task s j = Some u \<Longrightarrow> father u \<noteq> pid t"
    and res: "filp t = (\<lambda>_. None)" "pwd t = None" "root_dir t = None" "executable t = None" "leader t = 0" "last_task_used_math s = None"
  shows "release_resources w s = Ok ((), w) (invalidate (invalidate s))"
proof -
  have c: "cur s = t" "cur (invalidate s) = t" "cur (invalidate (invalidate s)) = t" using assms(1) by (simp_all add: cur_def invalidate_def)
  let ?s = "invalidate (invalidate s)"
  have seg: "free_segment 1 w s = Ok ((), w) (invalidate s)" "free_segment 2 w (invalidate s) = Ok ((), w) ?s"
    using assms(2) base by (simp_all add: free_segment_empty c)
  have ad: "adopt_children ?s = ?s" using child c(3) by (intro adopt_children_none) (simp only: invalidate_def, simp)
  have t: "task ?s (current ?s) = Some t" "last_task_used_math ?s = None" using assms(1) res by (simp_all add: invalidate_def)
  have f: "forp is (\<lambda>i. ifp (\<lambda>s. filp (cur s) i \<noteq> None) (bindp (sys_close (of_nat i)) (\<lambda>_. retp ())) (retp ())) w ?s = Ok ((), w) ?s" for "is"
    by (rule forp_skip) (simp add: ifp_def c res retp_def)
  have u: "upd_cur (\<lambda>t. t\<lparr>pwd := None\<rparr>) ?s = ?s" "upd_cur (\<lambda>t. t\<lparr>root_dir := None\<rparr>) ?s = ?s" "upd_cur (\<lambda>t. t\<lparr>executable := None\<rparr>) ?s = ?s"
    by (rule upd_cur_same[OF t(1)], simp add: res)+
  have i: "bindp (getp (\<lambda>s. pwd (cur s))) iput w ?s = Ok ((), w) ?s" "bindp (getp (\<lambda>s. root_dir (cur s))) iput w ?s = Ok ((), w) ?s"
      "bindp (getp (\<lambda>s. executable (cur s))) iput w ?s = Ok ((), w) ?s"
    using c(3) res by (simp_all only: bindp_def getp_def iput_def retp_def bindk.simps case_prod_conv option.case)
  have m: "modp g w ?s = Ok ((), w) ?s" if "g ?s = ?s" for g using that by (simp only: modp_def)
  have n: "ifp (\<lambda>s. leader (cur s) \<noteq> 0 \<and> b s) p (retp ()) w ?s = Ok ((), w) ?s" "ifp (\<lambda>s. leader (cur s) \<noteq> 0) p (retp ()) w ?s = Ok ((), w) ?s"
    for b :: "'z tty_state_scheme \<Rightarrow> bool" and p using c(3) res by (simp_all only: ifp_def retp_def) simp_all
  have y: "modp adopt_children w ?s = Ok ((), w) ?s" "modp (upd_cur (\<lambda>t. t\<lparr>pwd := None\<rparr>)) w ?s = Ok ((), w) ?s"
      "modp (upd_cur (\<lambda>t. t\<lparr>root_dir := None\<rparr>)) w ?s = Ok ((), w) ?s" "modp (upd_cur (\<lambda>t. t\<lparr>executable := None\<rparr>)) w ?s = Ok ((), w) ?s"
    by (rule m, rule ad u)+
  have x: "modp (\<lambda>s. if last_task_used_math s = Some (current s) then s\<lparr>last_task_used_math := None\<rparr> else s) w ?s = Ok ((), w) ?s"
    by (rule m) (simp only: t option.distinct if_False)
  show ?thesis
    unfolding release_resources_def donep.simps
    by (simp only: seqp_step seg f i n x y bindk.simps case_prod_conv) (simp only: retp_def)
qed

definition demo_child :: tty_state where
  "demo_child = tty_data (fs_data ((sched_data 0)\<lparr>current := 3, HIGH_MEMORY := 0x1000000, mem_map := (\<lambda>_. 0)(256 := 1),
     task := [1 \<mapsto> (INIT_TASK 0)\<lparr>pid := 1\<rparr>,
              3 \<mapsto> (INIT_TASK 0)\<lparr>pid := 3, father := 1, t_page := 0x200000, ldt := (\<lambda>_. \<lparr>desc_a = 0, desc_b = 0x04000000\<rparr>)\<rparr>]\<rparr>))"

lemma demo_child_simps:
  "current demo_child = 3" "phys demo_child a = 0" "HIGH_MEMORY demo_child = 0x1000000" "mem_map demo_child = (\<lambda>_. 0)(256 := 1)"
  "last_task_used_math demo_child = None"
  "task demo_child = [1 \<mapsto> (INIT_TASK 0)\<lparr>pid := 1\<rparr>,
     3 \<mapsto> (INIT_TASK 0)\<lparr>pid := 3, father := 1, t_page := 0x200000, ldt := (\<lambda>_. \<lparr>desc_a = 0, desc_b = 0x04000000\<rparr>)\<rparr>]"
  by (simp_all add: demo_child_def tty_data_def fs_state.extend_def fs_data_def sched_state.extend_def sched_data_def)

text \<open>Whatever signals it has pending.\<close>

lemma demo_child_releases:
  assumes "current s = 3" "phys s = phys demo_child" "last_task_used_math s = None"
    and t: "task s = (task demo_child)(3 \<mapsto> (the (task demo_child 3))\<lparr>signal := x\<rparr>)"
  shows "release_resources w s = Ok ((), w) (invalidate (invalidate s))"
proof (rule release_resources_bare)
  show "task s (current s) = Some ((the (task demo_child 3))\<lparr>signal := x\<rparr>)" using assms(1) t by simp
qed (use assms in \<open>auto simp: demo_child_simps INIT_TASK_def get_base_def split: if_splits\<close>)

end
