(* ===== verification/Syscall_Laws.thy ===== *)
theory Syscall_Laws
  imports Kernel_Syscall Hd_Laws Exit_Laws
begin

text \<open>
  The return from a system call: a task with a pending \<open>SIGKILL\<close> ends in \<open>do_exit\<close> and does not come back to its program.
\<close>

lemma bsf_kill:
  assumes "x AND 0x1ff = 0x100"
  shows "bsf x = Some 8"
proof -
  have b: "bit x n = bit (0x100 :: u32) n" if "n < 9" for n
  proof -
    have "bit (x AND 0x1ff) n = bit x n"
    proof -
      have "bit (0x1ff :: u32) n" using that by (auto simp: less_Suc_eq numeral_eq_Suc bit_simps)
      then show ?thesis by (simp add: bit_and_iff)
    qed
    then show ?thesis using assms by simp
  qed
  have "bit x 8" using b[of 8] by simp
  moreover have "\<not> bit x j" if "j < 8" for j using b[of j] that by (auto simp: less_Suc_eq numeral_eq_Suc bit_simps)
  ultimately show ?thesis unfolding bsf_def by (subst find_Some_iff) (intro exI[of _ 8], simp)
qed

text \<open>C34. \<open>SIGKILL\<close> ends the task at the next return to its program. If it is the lowest pending signal that is not blocked and has no handler, \<open>ret_from_sys_call\<close>
  takes it off the pending ones and runs \<open>do_exit(0x100)\<close>, whatever the return value and the registers are, and does not return to the program: once
  the resources are released, the task is a zombie with that exit code or has left the table.\<close>

theorem killed_on_return:
  fixes s :: "'z tty_state_scheme"
  assumes "current s \<noteq> 0" "task s (current s) = Some t" "(signal t AND NOT (blocked t)) AND 0x1ff = 0x100"
    "sa_handler (sigactions t (SIGKILL - 1)) = 0" "r_cs r AND 0xffff = 0x0f" "r_ss r AND 0xffff = 0x17"
    and "drivers_stay w" "stays_exited (current s) 0x100 w"
  shows "\<exists>s1. s1 = s\<lparr>task := (task s)(current s \<mapsto> t\<lparr>signal := signal t AND NOT 0x100\<rparr>)\<rparr> \<and>
    ret_from_sys_call eax r w s = bindp (do_exit 0x100) (\<lambda>_. retp (eax, r)) w s1 \<and>
    \<not> is_Ok (ret_from_sys_call eax r w s) \<and>
    (is_Ok (release_resources w s1) \<longrightarrow> exited (current s) 0x100 (kstate (ret_from_sys_call eax r w s)))"
proof -
  define s1 where "s1 = upd_cur (\<lambda>t. t\<lparr>signal := unset_bit 8 (signal t)\<rparr>) s"
  have u: "unset_bit 8 (signal t) = signal t AND NOT 0x100"
    by (rule bit_word_eqI) (auto simp: bit_simps bit_numeral_word_iff unset_bit_eq_and_not)
  have s1: "s1 = s\<lparr>task := (task s)(current s \<mapsto> t\<lparr>signal := signal t AND NOT 0x100\<rparr>)\<rparr>"
    using assms(2) u by (simp add: s1_def upd_cur_def upd_task_def)
  have c: "cur s = t" "sigactions (cur s1) = sigactions t" using assms(2) by (simp_all add: cur_def s1)
  have n: "next_signal s = Some (9, s1)" using bsf_kill[OF assms(3)] c by (simp add: next_signal_def s1_def)
  have d: "do_signal 9 f s1 = Exit (S_bit 9) s1" for f using assms(4) c by (simp add: do_signal_def Let_def)
  have e: "ret_from_sys_call eax r w s = bindp (do_exit 0x100) (\<lambda>_. retp (eax, r)) w s1"
    using assms(1,5,6) n d by (simp add: ret_from_sys_call_def ifp_def bindp_def getp_def S_bit_def)
  have "current s1 = current s" by (simp add: s1)
  then have "\<not> is_Ok (do_exit 0x100 w s1)" "is_Ok (release_resources w s1) \<longrightarrow> exited (current s) 0x100 (kstate (do_exit 0x100 w s1))"
    using do_exit_exited[of s1 w "0x100"] assms(1,7,8) by simp_all
  then show ?thesis using s1 unfolding e by (cases "do_exit 0x100 w s1") (auto simp: bindp_def)
qed

theorem killed_on_return_witness:
  "exited 3 0x100 (kstate (ret_from_sys_call 0 \<lparr>r_ebp = 0, r_edi = 0, r_esi = 0, r_gs = 0, r_ebx = 0, r_ecx = 0, r_edx = 0, r_fs = 0, r_es = 0, r_ds = 0, r_eip = 0,
      r_cs = 0x0f, r_eflags = 0, r_esp = 0, r_ss = 0x17\<rparr> \<lparr>request_fn = (\<lambda>_. None), events = [], fuel = 5\<rparr>
    (demo_child\<lparr>task := (task demo_child)(3 \<mapsto> (the (task demo_child 3))\<lparr>signal := 0x100\<rparr>)\<rparr>)))"
proof -
  let ?r = "\<lparr>r_ebp = 0, r_edi = 0, r_esi = 0, r_gs = 0, r_ebx = 0, r_ecx = 0, r_edx = 0, r_fs = 0, r_es = 0, r_ds = 0, r_eip = 0,
      r_cs = 0x0f, r_eflags = 0, r_esp = 0, r_ss = 0x17\<rparr>"
  let ?w = "\<lparr>request_fn = (\<lambda>_. None), events = [], fuel = 5\<rparr> :: tty_state world"
  let ?t = "(the (task demo_child 3))\<lparr>signal := 0x100\<rparr>"
  define s where "s = demo_child\<lparr>task := (task demo_child)(3 \<mapsto> ?t)\<rparr>"
  have h: "current s = 3" "task s 3 = Some ?t" "drivers_stay ?w" "stays_exited 3 0x100 ?w"
    by (simp_all add: s_def demo_child_simps drivers_stay_def stays_exited_def)
  have f: "(signal ?t AND NOT (blocked ?t)) AND 0x1ff = 0x100" "sa_handler (sigactions ?t (SIGKILL - 1)) = 0"
    by (simp_all add: demo_child_simps INIT_TASK_def no_action_def)
  have r: "(3 :: nat) \<noteq> 0" "r_cs ?r AND 0xffff = 0x0f" "r_ss ?r AND 0xffff = 0x17" by simp_all
  have "is_Ok (release_resources ?w (s\<lparr>task := (task s)(3 \<mapsto> ?t\<lparr>signal := signal ?t AND NOT 0x100\<rparr>)\<rparr>))"
    by (subst demo_child_releases[of _ "signal ?t AND NOT 0x100"]) (simp_all add: s_def demo_child_simps)
  then show ?thesis unfolding s_def[symmetric]
    using killed_on_return[of s ?t ?r ?w 0, unfolded h(1), OF r(1) h(2) f r(2,3) h(3,4)] by blast
qed

end
