(* ===== verification/Init_Main.thy ===== *)
theory Init_Main
  imports Kernel_Traps Blk_Floppy Kernel_Mktime Chr_Tty_Io
begin

text \<open>
  Start-up, src/init/main.c: the division of the memory, the clock, and the order in which \<open>main\<close> sets up the components before it starts the first user task. \<open>init\<close> and what follows \<open>move_to_user_mode\<close>
  is a user program that consists of system calls.
\<close>

subsection \<open>The clock\<close>

definition CMOS_READ :: "u8 \<Rightarrow> 'z hd_state_scheme \<Rightarrow> u8 \<times> 'z hd_state_scheme" where
  "CMOS_READ addr s = hd_inb 0x71 (outb (0x80 OR addr) 0x70 s)"

definition BCD_TO_BIN :: "u8 \<Rightarrow> int" where
  "BCD_TO_BIN v = uint (v AND 15) + uint (drop_bit 4 v) * 10"

text \<open>The loop repeats when the seconds have changed while it read; \<open>n\<close> bounds the rounds, and running out of them is \<open>Blocked\<close>.\<close>

primrec read_clock :: "nat \<Rightarrow> 'z hd_state_scheme \<Rightarrow> (u8 list, 'z hd_state_scheme) kres" where
  "read_clock 0 s = Blocked s"
| "read_clock (Suc n) s =
     (let (sec, s) = CMOS_READ 0 s;
          (mi, s) = CMOS_READ 2 s;
          (hour, s) = CMOS_READ 4 s;
          (mday, s) = CMOS_READ 7 s;
          (mon, s) = CMOS_READ 8 s;
          (year, s) = CMOS_READ 9 s;
          (again, s) = CMOS_READ 0 s
      in if sec \<noteq> again then read_clock n s else Ok [sec, mi, hour, mday, mon, year] s)"

text \<open>A month outside the table of \<open>kernel_mktime\<close> is a \<open>Fault\<close>.\<close>

definition time_init :: "nat \<Rightarrow> 'z hd_state_scheme \<Rightarrow> (unit, 'z hd_state_scheme) kres" where
  "time_init n s =
     bindk (read_clock n s) (\<lambda>t s.
       let mon = BCD_TO_BIN (t ! 4) - 1 in
       if mon < 0 \<or> mon > 11 then Fault s
       else Ok () (s\<lparr>startup_time := kernel_mktime
              \<lparr>tm_sec = BCD_TO_BIN (t ! 0), tm_min = BCD_TO_BIN (t ! 1), tm_hour = BCD_TO_BIN (t ! 2), tm_mday = BCD_TO_BIN (t ! 3),
               tm_mon = nat mon, tm_year = BCD_TO_BIN (t ! 5)\<rparr>\<rparr>))"

subsection \<open>Memory\<close>

text \<open>\<open>memory_end\<close> and \<open>buffer_memory_end\<close> for \<open>ext_mem_k\<close> kilobytes of extended memory.\<close>

definition memory_layout :: "u16 \<Rightarrow> int \<times> int" where
  "memory_layout ext_mem_k =
     (let memory_end = uint ((push_bit 20 1 + push_bit 10 (ucast ext_mem_k)) AND 0xfffff000 :: u32);
          memory_end = (if memory_end > 16 * 1024 * 1024 then 16 * 1024 * 1024 else memory_end);
          buffer_memory_end = (if memory_end > 12 * 1024 * 1024 then 4 * 1024 * 1024
                               else if memory_end > 6 * 1024 * 1024 then 2 * 1024 * 1024 else 1 * 1024 * 1024)
      in (memory_end, buffer_memory_end))"

definition setup_half :: "u32 \<Rightarrow> 'z mm_state_scheme \<Rightarrow> u16" where
  "setup_half a s = ucast (phys_byte s a) OR push_bit 8 (ucast (phys_byte s (a + 1)))"

text \<open>\<open>main\<close> up to \<open>move_to_user_mode\<close>. \<open>ramdisk\<close> is the size of the RAM disk in kilobytes if the kernel is built with one, \<open>vec\<close> the entry points of the exceptions, \<open>init_task\<close> the address of task 0
  and \<open>n\<close> the bound on the rounds of the clock. The values are the gates and the
  copy of the drive parameters that \<open>init\<close> hands to \<open>setup\<close>. The gates of the clock, the system calls and the disks are set by the initialisation routines named beside them.\<close>

definition kernel_main ::
    "int option \<Rightarrow> (trap_entry \<Rightarrow> u32) \<Rightarrow> u32 \<Rightarrow> nat \<Rightarrow> (nat \<Rightarrow> gate) \<Rightarrow> 'z fd_state_scheme \<Rightarrow> ((nat \<Rightarrow> gate) \<times> u8 list, 'z fd_state_scheme) kres" where
  "kernel_main ramdisk vec init_task n idt s =
     (let s = s\<lparr>ROOT_DEV := setup_half 0x901FC s\<rparr>;
          drive_info = map (\<lambda>i. phys_byte s (0x90080 + of_nat i)) [0..<32];
          (memory_end, buffer_memory_end) = memory_layout (setup_half 0x90002 s);
          (main_memory_start, s) = (case ramdisk of
              None \<Rightarrow> (buffer_memory_end, s)
            | Some k \<Rightarrow> let (len, s) = rd_init buffer_memory_end (k * 1024) s in (buffer_memory_end + len, s)) in
      bindk (mem_init main_memory_start memory_end s) (\<lambda>_ s.
      let (idt, s) = trap_init vec idt s;
          s = tty_init (blk_dev_init s) in
      bindk (time_init n s) (\<lambda>_ s.
      bindk (buffer_init buffer_memory_end (sched_init init_task s)) (\<lambda>_ s.
      Ok (idt, drive_info) (floppy_init (hd_init s))))))"

lemma mem_init_loop_clears:
  "0 \<le> i \<Longrightarrow> nat i + n \<le> PAGING_PAGES \<Longrightarrow>
    mem_init_loop n i s = Ok () (s\<lparr>mem_map := (\<lambda>j. if nat i \<le> j \<and> j < nat i + n then 0 else mem_map s j)\<rparr>)"
proof (induction n arbitrary: i s)
  case 0
  have "(\<lambda>j. if nat i \<le> j \<and> j < nat i + 0 then 0 else mem_map s j) = mem_map s" by (rule ext) auto
  then show ?case by simp
next
  case (Suc n)
  have "mem_init_loop n (i + 1) (s\<lparr>mem_map := (mem_map s)(nat i := 0)\<rparr>) =
      Ok () (s\<lparr>mem_map := (\<lambda>j. if nat (i + 1) \<le> j \<and> j < nat (i + 1) + n then 0 else ((mem_map s)(nat i := 0)) j)\<rparr>)"
    using Suc.IH[of "i + 1"] Suc.prems by (simp cong: if_cong)
  moreover have "(\<lambda>j. if nat (i + 1) \<le> j \<and> j < nat (i + 1) + n then 0 else ((mem_map s)(nat i := 0)) j) =
      (\<lambda>j. if nat i \<le> j \<and> j < nat i + Suc n then 0 else mem_map s j)"
    using Suc.prems by (auto simp: fun_eq_iff)
  ultimately show ?case using Suc.prems by simp
qed

lemma unat_page_align: "unat (x AND 0xfffff000 :: u32) = 4096 * (unat x div 4096)"
proof -
  have "12 + (n - 12) = n" if "12 \<le> n" for n :: nat using that by simp
  then have "x AND NOT (mask 12) = push_bit 12 (drop_bit 12 x)"
    by (intro bit_word_eqI) (auto simp: bit_simps simp del: push_bit_numeral)
  moreover have "unat (drop_bit 12 x) = unat x div 4096" using unat_div[of x 4096] by (simp add: drop_bit_eq_div)
  moreover have "unat x div 4096 * 4096 < 2 ^ 32" using unsigned_less[of x, where ?'a = nat] by simp
  ultimately show ?thesis using unat_mult_lem[of "drop_bit 12 x" 4096] by (simp add: frame_mask push_bit_eq_mult)
qed

text \<open>What the layout guarantees: whole pages, at most 16 MB, and the buffers below the main memory.\<close>

lemma memory_layout_ok:
  assumes "memory_layout k = (m, b)"
  shows "b \<in> {0x100000, 0x200000, 0x400000}" "b \<le> m" "m \<le> 0x1000000" "m mod 4096 = 0"
proof -
  define e :: u32 where "e = (push_bit 20 1 + push_bit 10 (ucast k)) AND 0xfffff000"
  have "unat (push_bit 10 (ucast k :: u32)) = 1024 * unat k"
  proof -
    have "unat k < 65536" using unsigned_less[of k, where ?'a = nat] by simp
    moreover from this have "unat (ucast k :: u32) = unat k" by (simp add: unsigned_ucast_eq take_bit_nat_eq_self)
    ultimately show ?thesis using unat_mult_lem[of "ucast k :: u32" 1024] by (simp add: push_bit_eq_mult)
  qed
  then have u: "unat (push_bit 20 1 + push_bit 10 (ucast k) :: u32) = 1048576 + 1024 * unat k"
    using unsigned_less[of k, where ?'a = nat] by (subst unat_plus_if') simp
  have "unat e = 4096 * ((1048576 + 1024 * unat k) div 4096)"
    unfolding e_def by (simp only: unat_page_align u)
  moreover define d where "d = int ((1048576 + 1024 * unat k) div 4096)"
  ultimately have "int (unat e) = 4096 * d" by (simp only: of_nat_mult of_nat_numeral)
  then have e: "uint e = 4096 * d" by (simp only: of_nat_unat)
  have d: "256 \<le> d" by (simp add: d_def)
  have mb: "m = min (4096 * d) 0x1000000"
    "b = (if m > 12 * 1024 * 1024 then 4 * 1024 * 1024 else if m > 6 * 1024 * 1024 then 2 * 1024 * 1024 else 1 * 1024 * 1024)"
    using assms unfolding memory_layout_def Let_def e_def[symmetric] e by (auto simp: min_def)
  show "b \<in> {0x100000, 0x200000, 0x400000}" using mb(2) by simp
  show "b \<le> m" using mb d by (simp add: min_def split: if_splits)
  show "m \<le> 0x1000000" using mb(1) by simp
  show "m mod 4096 = 0" using mb(1) by (simp add: min_def)
qed

text \<open>C40. The division of the memory at start-up. For every size of memory the set-up routine can report, the main memory begins behind the buffers on a page boundary and ends on one, at 16 MB or below, and \<open>mem_init\<close>
  marks exactly its pages as free: it never indexes outside \<open>mem_map\<close>.\<close>

theorem boot_memory:
  "case memory_layout k of (memory_end, buffer_end) \<Rightarrow>
    0x100000 \<le> buffer_end \<and> buffer_end \<le> memory_end \<and> memory_end \<le> 0x1000000 \<and> buffer_end mod 4096 = 0 \<and> memory_end mod 4096 = 0 \<and>
    (\<exists>s'. mem_init buffer_end memory_end s = Ok () s' \<and> HIGH_MEMORY s' = word_of_int memory_end \<and>
      mem_map s' = (\<lambda>i. if buffer_end \<le> 0x100000 + 4096 * int i \<and> 0x100000 + 4096 * int i < memory_end then 0
        else if i < PAGING_PAGES then USED else mem_map s i))"
proof -
  obtain m b where l: "memory_layout k = (m, b)" by fastforce
  note ok = memory_layout_ok[OF l]
  have b: "0x100000 \<le> b" "b mod 4096 = 0" using ok(1) by auto
  define p q where "p = nat ((b - 0x100000) div 4096)" and "q = nat ((m - b) div 4096)"
  have dvd: "4096 dvd b" "4096 dvd m" using b(2) ok(4) by (simp_all add: dvd_eq_mod_eq_0)
  then have "4096 dvd b - 0x100000" by (intro dvd_diff) simp_all
  then have p: "b = 0x100000 + 4096 * int p" using b(1) by (simp add: p_def pos_imp_zdiv_nonneg_iff)
  have "4096 dvd m - b" using dvd by (intro dvd_diff)
  then have q: "m = b + 4096 * int q" using ok(2) by (simp add: q_def pos_imp_zdiv_nonneg_iff)
  have "p + q \<le> PAGING_PAGES" using ok(3) p q by simp
  moreover have "(b - 0x100000) div 4096 = int p" using p by simp
  ultimately have "mem_init b m s = Ok () (s\<lparr>HIGH_MEMORY := word_of_int m,
      mem_map := (\<lambda>j. if p \<le> j \<and> j < p + q then 0 else if j < PAGING_PAGES then USED else mem_map s j)\<rparr>)"
    unfolding mem_init_def q_def[symmetric] by (subst mem_init_loop_clears) (simp_all cong: if_cong)
  moreover have "p \<le> j \<and> j < p + q \<longleftrightarrow> b \<le> 0x100000 + 4096 * int j \<and> 0x100000 + 4096 * int j < m" for j
    unfolding p q by linarith
  ultimately show ?thesis unfolding l using ok(2-4) b by (simp cong: if_cong)
qed

end
