(* ===== verification/Tools_Build.thy ===== *)
theory Tools_Build
  imports Kernel_Prelude
begin

text \<open>
  The program that puts the boot image together, src/tools/build.c. A file is its bytes, or \<open>None\<close> when it cannot be opened; standard output takes what is written. The value is the message the program
  dies with, if it does, and what it has written by then.
\<close>

definition word_at :: "u8 list \<Rightarrow> nat \<Rightarrow> u32" where
  "word_at buf k = ucast (buf ! (4 * k)) OR push_bit 8 (ucast (buf ! (4 * k + 1))) OR push_bit 16 (ucast (buf ! (4 * k + 2))) OR
     push_bit 24 (ucast (buf ! (4 * k + 3)))"

type_synonym outcome = "string option \<times> u8 list"

text \<open>The header of a Minix executable: the message, or the bytes behind it.\<close>

definition minix_header :: "string \<Rightarrow> u8 list option \<Rightarrow> string + u8 list" where
  "minix_header name file =
     (case file of
        None \<Rightarrow> Inl (''Unable to open '' @ name)
      | Some bs \<Rightarrow>
          if length bs < 32 then Inl (''Unable to read header of '' @ name)
          else if word_at bs 0 \<noteq> 0x04100301 then Inl (''Non-Minix header of '' @ name)
          else if word_at bs 1 \<noteq> 32 then Inl (''Non-Minix header of '' @ name)
          else if word_at bs 3 \<noteq> 0 then Inl (''Illegal data segment in '' @ name)
          else if word_at bs 4 \<noteq> 0 then Inl (''Illegal bss in '' @ name)
          else if word_at bs 5 \<noteq> 0 then Inl (''Non-Minix header of '' @ name)
          else if word_at bs 7 \<noteq> 0 then Inl (''Illegal symbol table in '' @ name)
          else Inr (drop 32 bs))"

text \<open>The root device: from the command line (\<open>FLOPPY\<close>, or the device number \<open>stat\<close> reports), or the default.\<close>

datatype root_arg = No_Arg | Floppy_Arg | Stat_Failed | Stat_Dev u16

definition root_device :: "root_arg \<Rightarrow> (u8 \<times> u8) option" where
  "root_device a =
     (case a of
        No_Arg \<Rightarrow> Some (3, 6)
      | Floppy_Arg \<Rightarrow> Some (0, 0)
      | Stat_Failed \<Rightarrow> None
      | Stat_Dev d \<Rightarrow> Some (ucast (drop_bit 8 d), ucast d))"

definition build_system :: "u8 list option \<Rightarrow> u8 list \<Rightarrow> outcome" where
  "build_system system out =
     (case system of
        None \<Rightarrow> (Some ''Unable to open system'', out)
      | Some bs \<Rightarrow>
          if length bs < 1024 then (Some ''Unable to read header of system'', out)
          else if word_at bs 5 \<noteq> 0 then (Some ''Non-GCC header of system'', out)
          else
            let out = out @ drop 1024 bs
            in (if length bs - 1024 > 0x2000 * 16 then Some ''System is too big'' else None, out))"

definition build_setup :: "u8 list option \<Rightarrow> u8 list option \<Rightarrow> u8 list \<Rightarrow> outcome" where
  "build_setup setup system out =
     (case minix_header ''setup'' setup of
        Inl e \<Rightarrow> (Some e, out)
      | Inr body \<Rightarrow>
          let out = out @ body in
          if length body > 4 * 512 then (Some ''Setup exceeds 4 sectors'', out)
          else build_system system (out @ replicate (4 * 512 - length body) 0))"

definition build_main :: "root_arg \<Rightarrow> u8 list option \<Rightarrow> u8 list option \<Rightarrow> u8 list option \<Rightarrow> outcome" where
  "build_main a boot setup system =
     (case root_device a of
        None \<Rightarrow> (Some ''Couldn't stat root device.'', [])
      | Some (major_root, minor_root) \<Rightarrow>
          if major_root \<noteq> 2 \<and> major_root \<noteq> 3 \<and> major_root \<noteq> 0 then (Some ''Bad root device --- major #'', [])
          else
            case minix_header ''boot'' boot of
              Inl e \<Rightarrow> (Some e, [])
            | Inr body \<Rightarrow>
                let buf = take 1024 body in
                if length buf \<noteq> 512 then (Some ''Boot block must be exactly 512 bytes'', [])
                else if buf ! 510 \<noteq> 0x55 \<or> buf ! 511 \<noteq> 0xAA then (Some ''Boot block has no boot flag'', [])
                else build_setup setup system (buf[508 := minor_root, 509 := major_root]))"

text \<open>The image has its parts in place: when the program succeeds, the first sector is the boot block with the root device in its bytes 508 and 509 and the boot flag behind them, the next four sectors are the setup
  code padded with zeros, and the system follows without its header, at most 128 KB.\<close>

theorem image_layout:
  assumes "build_main a (Some boot) (Some setup) (Some system) = (None, out)"
  shows "\<exists>major minor. root_device a = Some (major, minor) \<and> length boot = 32 + 512 \<and>
    take 512 out = (drop 32 boot)[508 := minor, 509 := major] \<and> out ! 508 = minor \<and> out ! 509 = major \<and> out ! 510 = 0x55 \<and> out ! 511 = 0xAA \<and>
    take 2048 (drop 512 out) = drop 32 setup @ replicate (2048 - (length setup - 32)) 0 \<and> drop 2560 out = drop 1024 system \<and> length out \<le> 2560 + 0x20000"
proof -
  obtain mj mn where r: "root_device a = Some (mj, mn)" using assms by (auto simp: build_main_def split: option.splits)
  have h: "minix_header nm (Some f) = Inr b \<Longrightarrow> b = drop 32 f \<and> 32 \<le> length f" for nm f b
    by (auto simp: minix_header_def split: if_splits)
  obtain b where b: "minix_header ''boot'' (Some boot) = Inr b" using assms r by (auto simp: build_main_def split: sum.splits if_splits)
  have lb: "length (take 1024 b) = 512" "take 1024 b ! 510 = 0x55" "take 1024 b ! 511 = 0xAA"
    using assms r b by (auto simp: build_main_def Let_def split: if_splits)
  then have l512: "length b = 512" "take 1024 b = b" by (auto simp: min_def split: if_splits)
  define o1 where "o1 = b[508 := mn, 509 := mj]"
  have s: "build_setup (Some setup) (Some system) o1 = (None, out)"
    using assms r b lb l512 by (auto simp: build_main_def Let_def o1_def split: if_splits)
  obtain c where c: "minix_header ''setup'' (Some setup) = Inr c" using s by (auto simp: build_setup_def split: sum.splits)
  have lc: "length c \<le> 2048" and y: "build_system (Some system) (o1 @ c @ replicate (2048 - length c) 0) = (None, out)"
    using s c by (auto simp: build_setup_def Let_def split: if_splits)
  have o: "out = o1 @ (c @ replicate (2048 - length c) 0) @ drop 1024 system" "length system - 1024 \<le> 0x20000"
    using y by (auto simp: build_system_def Let_def split: if_splits)
  have lo: "length o1 = 512" "length (c @ replicate (2048 - length c) 0) = 2048" using l512 lc by (simp_all add: o1_def)
  have cb: "c = drop 32 setup" "b = drop 32 boot" "length boot = 544" using h[OF c] h[OF b] l512(1) by auto
  have t: "take 512 out = o1" "take 2048 (drop 512 out) = c @ replicate (2048 - length c) 0" "drop 2560 out = drop 1024 system"
    using lo by (simp_all add: o(1))
  have n: "out ! i = o1 ! i" if "i < 512" for i using lo(1) that by (simp add: o(1) nth_append)
  have v: "o1 ! 508 = mn" "o1 ! 509 = mj" "o1 ! 510 = 0x55" "o1 ! 511 = 0xAA" using lb(2,3) l512 by (simp_all add: o1_def)
  have "length out \<le> 2560 + 0x20000" using lo o by simp
  then show ?thesis using r t n v cb by (intro exI[of _ mj] exI[of _ mn]) (simp add: o1_def)
qed

definition demo_header :: "u8 list" where
  "demo_header = [1, 3, 0x10, 4, 32, 0, 0, 0] @ replicate 24 0"

lemma demo_header_words:
  "word_at (demo_header @ xs) 0 = 0x04100301" "word_at (demo_header @ xs) 1 = 32" "word_at (demo_header @ xs) 3 = 0" "word_at (demo_header @ xs) 4 = 0"
  "word_at (demo_header @ xs) 5 = 0" "word_at (demo_header @ xs) 7 = 0"
  by (simp_all add: word_at_def demo_header_def nth_append)

theorem image_layout_witness:
  "\<exists>out. build_main No_Arg (Some (demo_header @ replicate 510 0 @ [0x55, 0xAA])) (Some demo_header) (Some (replicate 1024 0)) = (None, out) \<and> out ! 508 = 6 \<and> out ! 509 = 3"
proof -
  have l: "length demo_header = 32" by (simp add: demo_header_def)
  have h: "minix_header nm (Some (demo_header @ xs)) = Inr xs" for nm xs
    by (simp add: minix_header_def l demo_header_words del: One_nat_def)
  have z: "word_at (replicate 1024 0) 5 = 0" by (simp add: word_at_def)
  let ?b = "replicate 510 0 @ [0x55, 0xAA] :: u8 list"
  have "build_setup (Some demo_header) (Some (replicate 1024 0)) o1 = (None, o1 @ replicate 2048 0)" for o1
    using h[of "''setup''" "[]"] z by (simp add: build_setup_def build_system_def Let_def)
  then have e: "build_main No_Arg (Some (demo_header @ ?b)) (Some demo_header) (Some (replicate 1024 0)) = (None, ?b[508 := 6, 509 := 3] @ replicate 2048 0)"
    by (simp add: build_main_def root_device_def h Let_def nth_append)
  define out where "out = ?b[508 := 6, 509 := 3] @ replicate 2048 0"
  have e': "build_main No_Arg (Some (demo_header @ ?b)) (Some demo_header) (Some (replicate 1024 0)) = (None, out)" unfolding out_def by (rule e)
  obtain mj mn where "root_device No_Arg = Some (mj, mn)" "out ! 508 = mn" "out ! 509 = mj" using image_layout[OF e'] by blast
  then show ?thesis using e' by (auto simp: root_device_def)
qed

end
