(* ===== verification/Chr_Keyboard.thy ===== *)
theory Chr_Keyboard
  imports Blk_Floppy Chr_Tty_Io
begin

text \<open>
  The keyboard interrupt, src/kernel/chr_drv/keyboard.S; a routine of the code is a definition of its name here. What the
  ports read comes from the stream of \<open>Blk_Hd\<close>. The layout of the keyboard is chosen in include/linux/config.h and an argument here.

  An interrupt wakes a sleeper by storing through \<open>proc_list\<close> and leaves the list alone (\<open>wake_first\<close>), unlike \<open>wake_up\<close>.
  The routine for function keys tests the register \<open>ecx\<close>, which nothing has loaded: it is an argument. The loops that wait for the
  keyboard controller have \<open>n\<close> rounds.
\<close>

record kbd_state = fd_state +
  kb_mode :: u8
  kb_leds :: u8
  kb_e0 :: u8

definition kbd_data :: "fd_state \<Rightarrow> kbd_state" where
  "kbd_data s = fd_state.extend s (kbd_state.fields 0 2 0)"

text \<open>\<open>movl proc_list(queue),%ecx; testl %ecx,%ecx; je 3f; movl $0,(%ecx)\<close>.\<close>

definition wake_first :: "wait_queue \<Rightarrow> 'z sched_state_scheme \<Rightarrow> 'z sched_state_scheme" where
  "wake_first q s = (case waitq s q of None \<Rightarrow> s | Some t \<Rightarrow> upd_task t (\<lambda>t. t\<lparr>state := 0\<rparr>) s)"

subsection \<open>Putting characters into the read queue\<close>

text \<open>The loop of \<open>put_queue\<close> on the registers \<open>eax\<close>, \<open>ebx\<close> and \<open>ecx\<close>: the new head, or \<open>None\<close> when the queue is full.\<close>

function put_bytes :: "u32 \<Rightarrow> u32 \<Rightarrow> u32 \<Rightarrow> tty_queue \<Rightarrow> u32 option \<times> tty_queue" where
  "put_bytes eax ebx ecx q =
     (let q = q\<lparr>tq_buf := (tq_buf q)(unat ecx := ucast eax)\<rparr>;
          ecx = (ecx + 1) AND 0x3ff in
      if ecx = tq_tail q then (None, q)
      else
        let a = drop_bit 8 eax OR push_bit 24 ebx in
        if a = 0 then (Some ecx, q) else put_bytes a (drop_bit 8 ebx) ecx q)"
  by pat_completeness auto

lemma drop_bit8_less: "x \<noteq> 0 \<Longrightarrow> unat (drop_bit 8 x :: u32) < unat x"
  by (simp add: drop_bit_eq_div unat_div word_unat_eq_iff)

termination put_bytes
proof (relation "measures [\<lambda>(eax, ebx, ecx, q). unat ebx, \<lambda>(eax, ebx, ecx, q). unat eax]")
  fix eax ebx ecx :: u32 and q q' :: tty_queue and x a
  assume "a = drop_bit 8 eax OR push_bit 24 ebx" "a \<noteq> 0"
  then show "((a, drop_bit 8 ebx, x, q'), eax, ebx, ecx, q) \<in> measures [\<lambda>(eax, ebx, ecx, q). unat ebx, \<lambda>(eax, ebx, ecx, q). unat eax]"
    using drop_bit8_less[of ebx] drop_bit8_less[of eax] by (cases "ebx = 0"; cases "eax = 0") auto
qed simp

declare put_bytes.simps [simp del]

definition put_queue :: "u32 \<Rightarrow> u32 \<Rightarrow> 'z tty_state_scheme \<Rightarrow> 'z tty_state_scheme" where
  "put_queue eax ebx s =
     (let q = read_q (tty_table s 0) in
      case put_bytes eax ebx (tq_head q) q of
        (None, q) \<Rightarrow> upd_tty 0 (\<lambda>t. t\<lparr>read_q := q\<rparr>) s
      | (Some h, q) \<Rightarrow> wake_first (WTty 0 0) (upd_tty 0 (\<lambda>t. t\<lparr>read_q := q\<lparr>tq_head := h\<rparr>\<rparr>) s))"

subsection \<open>The state of the shift keys\<close>

text \<open>The bit a key with a right-hand twin stands for: the twin's scan code has a prefix.\<close>

definition right_bit :: "u8 \<Rightarrow> 'z kbd_state_scheme \<Rightarrow> u8" where
  "right_bit al s = (if kb_e0 s = 0 then al else al + al)"

definition ctrl :: "'z kbd_state_scheme \<Rightarrow> 'z kbd_state_scheme" where
  "ctrl s = s\<lparr>kb_mode := kb_mode s OR right_bit 0x04 s\<rparr>"

definition alt :: "'z kbd_state_scheme \<Rightarrow> 'z kbd_state_scheme" where
  "alt s = s\<lparr>kb_mode := kb_mode s OR right_bit 0x10 s\<rparr>"

definition unctrl :: "'z kbd_state_scheme \<Rightarrow> 'z kbd_state_scheme" where
  "unctrl s = s\<lparr>kb_mode := kb_mode s AND NOT (right_bit 0x04 s)\<rparr>"

definition unalt :: "'z kbd_state_scheme \<Rightarrow> 'z kbd_state_scheme" where
  "unalt s = s\<lparr>kb_mode := kb_mode s AND NOT (right_bit 0x10 s)\<rparr>"

definition lshift :: "'z kbd_state_scheme \<Rightarrow> 'z kbd_state_scheme" where
  "lshift s = s\<lparr>kb_mode := kb_mode s OR 0x01\<rparr>"

definition unlshift :: "'z kbd_state_scheme \<Rightarrow> 'z kbd_state_scheme" where
  "unlshift s = s\<lparr>kb_mode := kb_mode s AND 0xfe\<rparr>"

definition rshift :: "'z kbd_state_scheme \<Rightarrow> 'z kbd_state_scheme" where
  "rshift s = s\<lparr>kb_mode := kb_mode s OR 0x02\<rparr>"

definition unrshift :: "'z kbd_state_scheme \<Rightarrow> 'z kbd_state_scheme" where
  "unrshift s = s\<lparr>kb_mode := kb_mode s AND 0xfd\<rparr>"

primrec kb_wait :: "nat \<Rightarrow> 'z hd_state_scheme \<Rightarrow> (unit, 'z hd_state_scheme) kres" where
  "kb_wait 0 s = Blocked s"
| "kb_wait (Suc n) s = (let (al, s) = hd_inb 0x64 s in if al AND 0x02 \<noteq> 0 then kb_wait n s else Ok () s)"

definition set_leds :: "nat \<Rightarrow> 'z kbd_state_scheme \<Rightarrow> (unit, 'z kbd_state_scheme) kres" where
  "set_leds n s =
     bindk (kb_wait n s) (\<lambda>_ s.
     bindk (kb_wait n (outb 0xed 0x60 s)) (\<lambda>_ s. Ok () (outb (kb_leds s) 0x60 s)))"

definition caps :: "nat \<Rightarrow> 'z kbd_state_scheme \<Rightarrow> (unit, 'z kbd_state_scheme) kres" where
  "caps n s =
     (if kb_mode s AND 0x80 \<noteq> 0 then Ok () s
      else set_leds n (s\<lparr>kb_leds := kb_leds s XOR 4, kb_mode := (kb_mode s XOR 0x40) OR 0x80\<rparr>))"

definition uncaps :: "'z kbd_state_scheme \<Rightarrow> 'z kbd_state_scheme" where
  "uncaps s = s\<lparr>kb_mode := kb_mode s AND 0x7f\<rparr>"

definition scroll :: "nat \<Rightarrow> 'z kbd_state_scheme \<Rightarrow> (unit, 'z kbd_state_scheme) kres" where
  "scroll n s = set_leds n (s\<lparr>kb_leds := kb_leds s XOR 1\<rparr>)"

definition num :: "nat \<Rightarrow> 'z kbd_state_scheme \<Rightarrow> (unit, 'z kbd_state_scheme) kres" where
  "num n s = set_leds n (s\<lparr>kb_leds := kb_leds s XOR 2\<rparr>)"

subsection \<open>Cursor and function keys\<close>

definition ascii :: "string \<Rightarrow> u8 list" where
  "ascii cs = map of_char cs"

definition reboot :: "nat \<Rightarrow> 'z kbd_state_scheme \<Rightarrow> (unit, 'z kbd_state_scheme) kres" where
  "reboot n s =
     bindk (kb_wait n s) (\<lambda>_ s.
       Blocked (outb 0xfc 0x64 (put_phys_byte 0x473 0x12 (put_phys_byte 0x472 0x34 s))))"

datatype kbd_type = KBD_FINNISH | KBD_US | KBD_GR | KBD_FR

definition num_table :: "kbd_type \<Rightarrow> u8 list" where
  "num_table k = ascii (if k = KBD_FR then ''789 456 1230.'' else ''789 456 1230,'')"

definition cur_table :: "u8 list" where
  "cur_table = ascii ''HA5 DGC YB623''"

definition cur_seq :: "u8 \<Rightarrow> 'z tty_state_scheme \<Rightarrow> 'z tty_state_scheme" where
  "cur_seq al s =
     (let c = cur_table ! unat al;
          ah = (if c > of_char CHR ''9'' then 0 else of_char CHR ''~'' :: u8)
      in put_queue (push_bit 24 (ucast ah) OR push_bit 16 (ucast c) OR 0x5b1b) 0 s)"

definition cursor :: "kbd_type \<Rightarrow> nat \<Rightarrow> u8 \<Rightarrow> 'z kbd_state_scheme \<Rightarrow> (unit, 'z kbd_state_scheme) kres" where
  "cursor k n al s =
     (if al < 0x47 then Ok () s
      else
        let al = al - 0x47 in
        if al > 12 then Ok () s
        else if al = 12 \<and> kb_mode s AND 0x0c \<noteq> 0 \<and> kb_mode s AND 0x30 \<noteq> 0 then reboot n s
        else if kb_e0 s = 1 \<or> kb_leds s AND 0x02 = 0 \<or> kb_mode s AND 0x03 \<noteq> 0 then Ok () (cur_seq al s)
        else Ok () (put_queue (ucast (num_table k ! unat al)) 0 s))"

definition func_table :: "u32 list" where
  "func_table = [0x415b5b1b, 0x425b5b1b, 0x435b5b1b, 0x445b5b1b, 0x455b5b1b, 0x465b5b1b, 0x475b5b1b, 0x485b5b1b,
     0x495b5b1b, 0x4a5b5b1b, 0x4b5b5b1b, 0x4c5b5b1b]"

text \<open>The index into \<open>func_table\<close> of a function key.\<close>

definition func_key :: "u8 \<Rightarrow> u8 option" where
  "func_key al =
     (if al < 0x3b then None
      else
        let al = al - 0x3b in
        if al \<le> 9 then Some al
        else let al = al - 18 in if al < 10 \<or> al > 11 then None else Some al)"

text \<open>\<open>show_task\<close> counts the unused bytes of the kernel stack to print them; a message stands for its format here, so the count is left out.\<close>

definition show_task :: "'z mm_state_scheme \<Rightarrow> 'z mm_state_scheme" where
  "show_task s = printk ''%d (of %d) chars free in kernel stack'' (printk ''%d: pid=%d, state=%d, '' s)"

definition show_stat :: "'z sched_state_scheme \<Rightarrow> 'z sched_state_scheme" where
  "show_stat s = fold (\<lambda>i s. if task s i \<noteq> None then show_task s else s) [0..<NR_TASKS] s"

definition func :: "u32 \<Rightarrow> u8 \<Rightarrow> 'z tty_state_scheme \<Rightarrow> 'z tty_state_scheme" where
  "func ecx al s =
     (let s = show_stat s in
      case func_key al of
        None \<Rightarrow> s
      | Some i \<Rightarrow> if sint ecx < 4 then s else put_queue (func_table ! unat i) 0 s)"

subsection \<open>Characters\<close>

text \<open>The keys \<open>0x36\<close> to \<open>0x60\<close>, which are the same on all keyboards but for the key \<open>0x56\<close>.\<close>

definition right_keys :: "char \<Rightarrow> u8 list" where
  "right_keys c = [0, of_char CHR ''*'', 0, 32] @ replicate 16 0 @ [of_char CHR ''-'', 0, 0, 0, of_char CHR ''+''] @ replicate 7 0 @ [of_char c] @ replicate 10 0"

text \<open>The keys \<open>0x00\<close> to \<open>0x35\<close>: the digits, the three rows of letters and the two keys before and after the second.\<close>

definition left_keys :: "u8 list \<Rightarrow> u8 list \<Rightarrow> u8 list \<Rightarrow> u8 list" where
  "left_keys digits upper rest = [0, 27] @ digits @ [127, 9] @ upper @ rest"

definition key_map :: "kbd_type \<Rightarrow> u8 list" where
  "key_map k = (case k of
     KBD_FINNISH \<Rightarrow> left_keys (ascii ''1234567890+'' @ [0x27]) (ascii ''qwertyuiop}'' @ [0, 13, 0])
       (ascii ''asdfghjkl|{'' @ [0, 0] @ [0x27] @ ascii ''zxcvbnm,.-'')
   | KBD_US \<Rightarrow> left_keys (ascii ''1234567890-='') (ascii ''qwertyuiop[]'' @ [13, 0])
       (ascii ''asdfghjkl;'' @ [0x27, 0x60, 0, 0x5c] @ ascii ''zxcvbnm,./'')
   | KBD_GR \<Rightarrow> left_keys (ascii ''1234567890'' @ [0x5c, 0x27]) (ascii ''qwertzuiop@+'' @ [13, 0])
       (ascii ''asdfghjkl[]^'' @ [0, of_char CHR ''#''] @ ascii ''yxcvbnm,.-'')
   | KBD_FR \<Rightarrow> left_keys (ascii ''&{'' @ [0x22, 0x27] @ ascii ''(-}_/@)='') (ascii ''azertyuiop^$'' @ [13, 0])
       (ascii ''qsdfghjklm|'' @ [0x60, 0, 42] @ ascii ''wxcvbn,;:!'')) @ right_keys CHR ''<''"

definition shift_map :: "kbd_type \<Rightarrow> u8 list" where
  "shift_map k = (case k of
     KBD_FINNISH \<Rightarrow> left_keys (ascii ''!'' @ [0x22] @ ascii ''#$%&/()=?'' @ [0x60]) (ascii ''QWERTYUIOP]^'' @ [13, 0])
       (ascii ''ASDFGHJKL'' @ [0x5c] @ ascii ''['' @ [0, 0] @ ascii ''*ZXCVBNM;:_'')
   | KBD_US \<Rightarrow> left_keys (ascii ''!@#$%^&*()_+'') (ascii ''QWERTYUIOP{}'' @ [13, 0])
       (ascii ''ASDFGHJKL:'' @ [0x22] @ ascii ''~'' @ [0] @ ascii ''|ZXCVBNM<>?'')
   | KBD_GR \<Rightarrow> left_keys (ascii ''!'' @ [0x22] @ ascii ''#$%&/()=?'' @ [0x60]) (ascii ''QWERTZUIOP'' @ [0x5c] @ ascii ''*'' @ [13, 0])
       (ascii ''ASDFGHJKL{}~'' @ [0, 0x27] @ ascii ''YXCVBNM;:_'')
   | KBD_FR \<Rightarrow> left_keys (ascii ''1234567890]+'') (ascii ''AZERTYUIOP<>'' @ [13, 0])
       (ascii ''QSDFGHJKLM%~'' @ [0, of_char CHR ''#''] @ ascii ''WXCVBN?./'' @ [0x5c])) @ right_keys CHR ''>''"

definition alt_map :: "kbd_type \<Rightarrow> u8 list" where
  "alt_map k =
     [0, 0] @ (if k = KBD_FR then [0] @ ascii ''~#{[|'' @ [0x60, 0x5c] @ ascii ''^@]}''
               else [0] @ ascii ''@'' @ [0] @ ascii ''$'' @ [0, 0] @ ascii ''{[]}'' @ [0x5c, 0])
     @ [0, 0] @ (if k = KBD_GR \<or> k = KBD_FR then [of_char CHR ''@''] else [0]) @ replicate 10 0 @ [of_char CHR ''~'', 13, 0]
     @ replicate 11 0 @ [0, 0] @ replicate 11 0 @ [0, 0, 0, 0] @ replicate 16 0 @ [0, 0, 0, 0, 0] @ replicate 7 0 @ [of_char CHR ''|''] @ replicate 10 0"

text \<open>The map the mode selects.\<close>

definition selected_map :: "kbd_type \<Rightarrow> u8 \<Rightarrow> u8 list" where
  "selected_map k mode = (if mode AND 0x20 \<noteq> 0 then alt_map k else if mode AND 0x03 \<noteq> 0 then shift_map k else key_map k)"

text \<open>The character of a key: the layout, capital letters, control characters and the bit of the left alt key.\<close>

definition self_char :: "kbd_type \<Rightarrow> u8 \<Rightarrow> u8 \<Rightarrow> u8" where
  "self_char k mode al =
     (let c = selected_map k mode ! unat al;
          c = (if mode AND 0x4c \<noteq> 0 \<and> of_char CHR ''a'' \<le> c \<and> c \<le> of_char CHR ''}'' then c - 32 else c);
          c = (if mode AND 0x0c \<noteq> 0 \<and> 64 \<le> c \<and> c < 64 + 32 then c - 64 else c)
      in if mode AND 0x10 \<noteq> 0 then c OR 0x80 else c)"

definition do_self :: "kbd_type \<Rightarrow> u8 \<Rightarrow> 'z kbd_state_scheme \<Rightarrow> 'z kbd_state_scheme" where
  "do_self k al s =
     (if selected_map k (kb_mode s) ! unat al = 0 then s else put_queue (ucast (self_char k (kb_mode s) al)) 0 s)"

definition minus :: "kbd_type \<Rightarrow> u8 \<Rightarrow> 'z kbd_state_scheme \<Rightarrow> 'z kbd_state_scheme" where
  "minus k al s = (if kb_e0 s = 1 then put_queue (of_char CHR ''/'') 0 s else do_self k al s)"

subsection \<open>The keyboard interrupt\<close>

datatype key_routine = None_key | Do_self | Ctrl | Unctrl | Alt | Unalt | Lshift | Unlshift | Rshift | Unrshift | Caps | Uncaps | Scroll | Num
  | Cursor | Func | Minus

definition key_table :: "key_routine list" where
  "key_table = [None_key] @ replicate 28 Do_self @ [Ctrl] @ replicate 12 Do_self @ [Lshift] @ replicate 10 Do_self @ [Minus, Rshift, Do_self, Alt, Do_self, Caps]
     @ replicate 10 Func @ [Num, Scroll, Cursor, Cursor, Cursor, Do_self, Cursor, Cursor, Cursor, Do_self] @ replicate 5 Cursor
     @ [None_key, None_key, Do_self, Func, Func] @ replicate 68 None_key @ [Unctrl] @ replicate 12 None_key @ [Unlshift] @ replicate 11 None_key
     @ [Unrshift, None_key, Unalt, None_key, Uncaps] @ replicate 69 None_key"

definition key_call ::
    "kbd_type \<Rightarrow> nat \<Rightarrow> u32 \<Rightarrow> key_routine \<Rightarrow> u8 \<Rightarrow> 'z kbd_state_scheme \<Rightarrow> (unit, 'z kbd_state_scheme) kres" where
  "key_call k n ecx r al s = (case r of
     None_key \<Rightarrow> Ok () s
   | Do_self \<Rightarrow> Ok () (do_self k al s)
   | Ctrl \<Rightarrow> Ok () (ctrl s)
   | Unctrl \<Rightarrow> Ok () (unctrl s)
   | Alt \<Rightarrow> Ok () (alt s)
   | Unalt \<Rightarrow> Ok () (unalt s)
   | Lshift \<Rightarrow> Ok () (lshift s)
   | Unlshift \<Rightarrow> Ok () (unlshift s)
   | Rshift \<Rightarrow> Ok () (rshift s)
   | Unrshift \<Rightarrow> Ok () (unrshift s)
   | Caps \<Rightarrow> caps n s
   | Uncaps \<Rightarrow> Ok () (uncaps s)
   | Scroll \<Rightarrow> scroll n s
   | Num \<Rightarrow> num n s
   | Cursor \<Rightarrow> cursor k n al s
   | Func \<Rightarrow> Ok () (func ecx al s)
   | Minus \<Rightarrow> Ok () (minus k al s))"

definition keyboard_interrupt :: "kbd_type \<Rightarrow> nat \<Rightarrow> u32 \<Rightarrow> 'z kbd_state_scheme \<Rightarrow> (unit, 'z kbd_state_scheme) kres" where
  "keyboard_interrupt k n ecx s =
     (let (al, s) = hd_inb 0x60 s in
      bindk (if al = 0xe0 then Ok () (s\<lparr>kb_e0 := 1\<rparr>)
             else if al = 0xe1 then Ok () (s\<lparr>kb_e0 := 2\<rparr>)
             else bindk (key_call k n ecx (key_table ! unat al) al s) (\<lambda>_ s. Ok () (s\<lparr>kb_e0 := 0\<rparr>))) (\<lambda>_ s.
      let (al, s) = hd_inb 0x61 s;
          s = outb (al OR 0x80) 0x61 s;
          s = outb ((al OR 0x80) AND 0x7f) 0x61 s
      in do_tty_interrupt n 0 (outb 0x20 0x20 s)))"

end
