(* ===== verification/Chr_Serial.thy ===== *)
theory Chr_Serial
  imports Chr_Keyboard
begin

text \<open>
  The interrupts of the serial lines, src/kernel/chr_drv/rs_io.s. \<open>tty\<close> is the channel of the line, 1 or 2, \<open>port\<close> the address of its
  chip. The loop of \<open>rs_int\<close> goes on while the chip reports a further interrupt; it has \<open>n\<close> rounds.
\<close>

definition modem_status :: "u16 \<Rightarrow> 'z hd_state_scheme \<Rightarrow> 'z hd_state_scheme" where
  "modem_status port s = snd (hd_inb (port + 6) s)"

definition line_status :: "u16 \<Rightarrow> 'z hd_state_scheme \<Rightarrow> 'z hd_state_scheme" where
  "line_status port s = snd (hd_inb (port + 5) s)"

definition store_char :: "u8 \<Rightarrow> tty_queue \<Rightarrow> tty_queue" where
  "store_char c q =
     (let ebx = (tq_head q + 1) AND 0x3ff;
          q = q\<lparr>tq_buf := (tq_buf q)(unat (tq_head q) := c)\<rparr>
      in if ebx = tq_tail q then q else q\<lparr>tq_head := ebx\<rparr>)"

definition read_char :: "nat \<Rightarrow> nat \<Rightarrow> u16 \<Rightarrow> 'z hd_state_scheme \<Rightarrow> (unit, 'z hd_state_scheme) kres" where
  "read_char n tty port s =
     (let (al, s) = hd_inb port s
      in do_tty_interrupt n tty (upd_tty tty (\<lambda>t. t\<lparr>read_q := store_char al (read_q t)\<rparr>) s))"

definition write_buffer_empty :: "nat \<Rightarrow> u16 \<Rightarrow> 'z hd_state_scheme \<Rightarrow> 'z hd_state_scheme" where
  "write_buffer_empty tty port s =
     (let (al, s) = hd_inb (port + 1) (wake_first (WTty tty 1) s)
      in outb (al AND 0xd) (port + 1) s)"

definition write_char :: "nat \<Rightarrow> u16 \<Rightarrow> 'z hd_state_scheme \<Rightarrow> 'z hd_state_scheme" where
  "write_char tty port s =
     (let q = write_q (tty_table s tty); ebx = (tq_head q - tq_tail q) AND 0x3ff in
      if ebx = 0 then write_buffer_empty tty port s
      else
        let s = (if ebx > 256 then s else wake_first (WTty tty 1) s);
            s = outb (tq_buf q (unat (tq_tail q))) port s;
            ebx = (tq_tail q + 1) AND 0x3ff;
            s = upd_tty tty (\<lambda>t. t\<lparr>write_q := q\<lparr>tq_tail := ebx\<rparr>\<rparr>) s
        in if ebx = tq_head q then write_buffer_empty tty port s else s)"

primrec rs_loop :: "nat \<Rightarrow> nat \<Rightarrow> nat \<Rightarrow> u16 \<Rightarrow> 'z hd_state_scheme \<Rightarrow> (unit, 'z hd_state_scheme) kres" where
  "rs_loop 0 m tty port s = Blocked s"
| "rs_loop (Suc n) m tty port s =
     (let (al, s) = hd_inb (port + 2) s in
      if al AND 1 \<noteq> 0 \<or> al > 6 then Ok () (outb 0x20 0x20 s)
      else
        bindk (if al = 0 then Ok () (modem_status port s)
               else if al = 2 then Ok () (write_char tty port s)
               else if al = 4 then read_char m tty port s
               else Ok () (line_status port s)) (\<lambda>_ s. rs_loop n m tty port s))"

definition rs_int :: "nat \<Rightarrow> nat \<Rightarrow> nat \<Rightarrow> 'z hd_state_scheme \<Rightarrow> (unit, 'z hd_state_scheme) kres" where
  "rs_int n m tty s = rs_loop n m tty (ucast (tq_data (read_q (tty_table s tty)))) s"

definition rs1_interrupt :: "nat \<Rightarrow> nat \<Rightarrow> 'z hd_state_scheme \<Rightarrow> (unit, 'z hd_state_scheme) kres" where
  "rs1_interrupt n m s = rs_int n m 1 s"

definition rs2_interrupt :: "nat \<Rightarrow> nat \<Rightarrow> 'z hd_state_scheme \<Rightarrow> (unit, 'z hd_state_scheme) kres" where
  "rs2_interrupt n m s = rs_int n m 2 s"

end
