(* ===== verification/Chr_Blind.thy ===== *)
theory Chr_Blind
  imports Chr_Tty_Io Fs_Cache
begin

text \<open>
  The interface of the terminals to the rest of the kernel: the locale \<open>tty_blind\<close>. An invariant that looks neither at the scheduler's data nor
  at terminals, console, ports and the beeper survives the line discipline, with all the echoing and answering it does. It is
  interpreted on the invariant of the buffer cache.
\<close>

locale tty_blind = sched_blind I for I :: "'z tty_state_scheme \<Rightarrow> bool" +
  assumes blind_tty: "I (s\<lparr>tty_table := t\<rparr>) = I s"
    and blind_con: "I (s\<lparr>con := c\<rparr>) = I s"
    and blind_ports: "I (s\<lparr>ports := ps\<rparr>) = I s"
    and blind_beep: "I (s\<lparr>beepcount := k\<rparr>) = I s"
begin

lemma blind_simps [simp]:
  "I (upd_tty i f s) = I s" "I (upd_con g s) = I s" "I (outb v p s) = I s" "I (put_write i ch s) = I s" "I (drop_last i s) = I s"
  "I (wake_up q s) = I s" "I (tty_intr i m s) = I s"
  by (simp_all add: upd_tty_def upd_con_def outb_def put_write_def drop_last_def wake_up_def tty_intr_def blind_tty blind_con blind_ports blind_task
      blind_waitq split: option.split)

lemma bindk_blind:
  assumes "I (kstate r) = I s" "\<And>a s'. r = Ok a s' \<Longrightarrow> I (kstate (f a s')) = I s'"
  shows "I (kstate (bindk r f)) = I s"
  using assms by (cases r) auto

definition passes :: "(nat \<Rightarrow> 'z tty_state_scheme \<Rightarrow> (unit, 'z tty_state_scheme) kres) \<Rightarrow> bool" where
  "passes f \<longleftrightarrow> (\<forall>tty s. I (kstate (f tty s)) = I s)"

lemma con_ops_blind [simp]:
  "I (crt_out r a s) = I s" "I (set_origin s) = I s" "I (set_cursor s) = I s" "I (sysbeep s) = I s"
  by (simp_all add: crt_out_def set_origin_def set_cursor_def sysbeep_def Let_def blind_beep)

lemma scrup_blind [simp]: "I (scrup s) = I s" "I (lf s) = I s"
  by (simp_all add: scrup_def lf_def Let_def)

lemma delete_line_blind [simp]: "I (delete_line s) = I s" "I (csi_M p s) = I s"
proof -
  show d: "I (delete_line s) = I s" for s by (simp add: delete_line_def Let_def)
  have "I ((delete_line ^^ n) s) = I s" for n by (induction n) (simp_all add: d)
  then show "I (csi_M p s) = I s" by (simp add: csi_M_def)
qed

lemma con_plain_blind [simp]: "I (con_plain tty ch s) = I s" "I (con_csi ch s) = I s" "I (con_param ch s) = I s"
proof -
  have w: "I (wrap s) = I s" for s by (simp add: wrap_def)
  then show "I (con_plain tty ch s) = I s" by (simp add: con_plain_def con_tab_def Let_def)
  show c: "I (con_csi ch s) = I s" for s by (simp add: con_csi_def Let_def split: option.split)
  show "I (con_param ch s) = I s" by (simp add: con_param_def c)
qed

lemma con_char_blind: "passes ck \<Longrightarrow> I (kstate (con_char ck tty ch s)) = I s"
  by (simp add: con_char_def Let_def respond_def passes_def)

lemma con_write_blind: "passes ck \<Longrightarrow> passes (con_write_with ck)"
proof -
  assume ck: "passes ck"
  have "I (kstate (con_loop n ck tty s)) = I s" for n tty s
  proof (induction n arbitrary: s)
    case (Suc n)
    obtain ch q where g: "GETCH (write_q (tty_table s tty)) = (ch, q)" by fastforce
    have "I (kstate (con_char ck tty ch (upd_tty tty (\<lambda>t. t\<lparr>write_q := q\<rparr>) s))) = I s"
      using con_char_blind[OF ck] by simp
    then show ?case unfolding con_loop.simps Let_def g prod.case using Suc.IH by (intro bindk_blind)
  qed simp
  then show "passes (con_write_with ck)" unfolding passes_def con_write_with_def by (intro allI bindk_blind) simp_all
qed

lemma echo_blind:
  assumes "passes wr"
  shows "I (kstate (echo_erase wr tty ch s)) = I s" "I (kstate (echo_char wr tty ch s)) = I s"
  using assms by (simp_all add: echo_erase_def echo_char_def passes_def Let_def)

lemma kill_line_blind: "passes wr \<Longrightarrow> I (kstate (kill_line n wr tty s)) = I s"
proof (induction n arbitrary: s)
  case (Suc n)
  then show ?case using echo_blind(1)[OF Suc.prems] by (auto intro!: bindk_blind)
qed simp

lemma cook_char_blind:
  assumes "passes wr" shows "I (kstate (cook_char n wr tty ch s)) = I s"
proof -
  have "I (kstate (bindk (echo_erase wr tty x s) (\<lambda>_ s. Ok () (drop_last tty s)))) = I s" for x
    by (rule bindk_blind[OF echo_blind(1)[OF assms]]) simp
  moreover have "I (kstate (bindk (echo_char wr tty ch u) (\<lambda>_ s. Ok () (upd_tty tty f s)))) = I u" for u f
    by (rule bindk_blind[OF echo_blind(2)[OF assms]]) simp
  ultimately show ?thesis using kill_line_blind[OF assms] by (simp add: cook_char_def Let_def del: bindk.simps)
qed

lemma cooked_blind: "passes wr \<Longrightarrow> passes (copy_to_cooked_with n wr)"
proof -
  assume wr: "passes wr"
  have "I (kstate (cook_loop m wr tty s)) = I s" for m tty s
  proof (induction m arbitrary: s)
    case (Suc m)
    obtain ch q where g: "GETCH (read_q (tty_table s tty)) = (ch, q)" by fastforce
    define s1 where "s1 = upd_tty tty (\<lambda>t. t\<lparr>read_q := q\<rparr>) s"
    have "I (kstate (case map_input tty ch s1 of None \<Rightarrow> Ok () s1 | Some ch \<Rightarrow> cook_char m wr tty ch s1)) = I s"
      using cook_char_blind[OF wr] by (simp add: s1_def split: option.split)
    then show ?case unfolding cook_loop.simps Let_def g prod.case s1_def[symmetric] using Suc.IH by (auto intro!: bindk_blind)
  qed simp
  then show "passes (copy_to_cooked_with n wr)" unfolding passes_def copy_to_cooked_with_def by (intro allI bindk_blind) simp_all
qed

lemma tty_write_fn_blind: "passes (tty_write_fn n)"
proof (induction n)
  case (Suc n)
  have "I (kstate (con_write_with (copy_to_cooked_with n (tty_write_fn n)) tty s)) = I s" for tty s
    using con_write_blind[OF cooked_blind[OF Suc.IH]] by (simp add: passes_def)
  then show ?case by (simp add: passes_def rs_write_def Let_def)
qed (simp add: passes_def)

text \<open>The line discipline with everything it calls.\<close>

lemma copy_to_cooked_blind: "I (kstate (copy_to_cooked n tty s)) = I s"
  using cooked_blind[OF tty_write_fn_blind] by (simp add: copy_to_cooked_def passes_def)

lemma copy_to_cooked_keeps: "copy_to_cooked n tty s = Ok u s' \<Longrightarrow> I s' = I s"
  using copy_to_cooked_blind[of n tty s] by simp

end

interpretation tty_cache: tty_blind "cache_inv N"
  by unfold_locales (rule cache_inv_cong; simp)+

end
