(* ===== verification/Chr_Interrupt_Laws.thy ===== *)
theory Chr_Interrupt_Laws
  imports Chr_Serial Chr_Blind Chr_Tty_Laws Floppy_Laws
begin

text \<open>
  The interrupts of the terminals. The keyboard interrupt keeps track of the shift keys as the abstract machine \<open>mod_step\<close>
  does, over any sequence of interrupts with anything in between; a typed character reaches the line being edited; the serial line sends
  what is in the write queue, in order.
\<close>

subsection \<open>The shift keys\<close>

text \<open>The keys the mode byte knows, whether capitals are locked, and whether a prefix came in.\<close>

datatype mod_key = Left_shift | Right_shift | Left_ctrl | Right_ctrl | Left_alt | Right_alt | Caps_key

record modifiers =
  held :: "mod_key set"
  locked :: bool
  prefixed :: bool

definition press :: "mod_key \<Rightarrow> modifiers \<Rightarrow> modifiers" where
  "press k m = m\<lparr>held := insert k (held m)\<rparr>"

definition release :: "mod_key \<Rightarrow> modifiers \<Rightarrow> modifiers" where
  "release k m = m\<lparr>held := held m - {k}\<rparr>"

definition mod_key_of :: "u8 \<Rightarrow> bool \<Rightarrow> mod_key option" where
  "mod_key_of c pre =
     (if c = 0x2a then Some Left_shift else if c = 0x36 then Some Right_shift
      else if c = 0x1d then Some (if pre then Right_ctrl else Left_ctrl)
      else if c = 0x38 then Some (if pre then Right_alt else Left_alt)
      else if c = 0x3a then Some Caps_key else None)"

text \<open>A key is pressed with its scan code and released with the code plus 128; the first press of the caps key turns the lock.\<close>

definition mod_step :: "modifiers \<Rightarrow> u8 \<Rightarrow> modifiers" where
  "mod_step m c =
     (if c = 0xe0 \<or> c = 0xe1 then m\<lparr>prefixed := True\<rparr>
      else
        (case mod_key_of c (prefixed m) of
           Some k \<Rightarrow> press k (if k = Caps_key \<and> k \<notin> held m then m\<lparr>locked := \<not> locked m\<rparr> else m)
         | None \<Rightarrow> (case mod_key_of (c - 0x80) (prefixed m) of Some k \<Rightarrow> release k m | None \<Rightarrow> m))\<lparr>prefixed := False\<rparr>)"

primrec key_bit :: "mod_key \<Rightarrow> nat" where
  "key_bit Left_shift = 0"
| "key_bit Right_shift = 1"
| "key_bit Left_ctrl = 2"
| "key_bit Right_ctrl = 3"
| "key_bit Left_alt = 4"
| "key_bit Right_alt = 5"
| "key_bit Caps_key = 7"

definition mods :: "u8 \<Rightarrow> u8 \<Rightarrow> modifiers" where
  "mods mode pre = \<lparr>held = {k. bit mode (key_bit k)}, locked = bit mode 6, prefixed = (pre \<noteq> 0)\<rparr>"

abbreviation "mods_of s \<equiv> mods (kb_mode s) (kb_e0 s)"

lemma key_bit_inj: "key_bit k = key_bit k' \<longleftrightarrow> k = k'"
  by (cases k; cases k') simp_all

lemma key_bit_6: "key_bit k \<noteq> 6" "key_bit k < 8"
  by (cases k; simp)+

lemma mods_set: "mods (mode OR push_bit (key_bit k) 1) pre = press k (mods mode pre)"
  using key_bit_inj[of _ k] key_bit_6[of k] by (auto simp: mods_def press_def bit_simps set_eq_iff)

lemma mods_clear: "mods (mode AND NOT (push_bit (key_bit k) 1)) pre = release k (mods mode pre)"
  using key_bit_inj[of _ k] key_bit_6 by (auto simp: mods_def release_def bit_simps set_eq_iff)

text \<open>What each routine of the key table does to the keys.\<close>

definition key_effect :: "key_routine \<Rightarrow> modifiers \<Rightarrow> modifiers" where
  "key_effect r m = (case r of
     Lshift \<Rightarrow> press Left_shift m
   | Unlshift \<Rightarrow> release Left_shift m
   | Rshift \<Rightarrow> press Right_shift m
   | Unrshift \<Rightarrow> release Right_shift m
   | Ctrl \<Rightarrow> press (if prefixed m then Right_ctrl else Left_ctrl) m
   | Unctrl \<Rightarrow> release (if prefixed m then Right_ctrl else Left_ctrl) m
   | Alt \<Rightarrow> press (if prefixed m then Right_alt else Left_alt) m
   | Unalt \<Rightarrow> release (if prefixed m then Right_alt else Left_alt) m
   | Caps \<Rightarrow> press Caps_key (if Caps_key \<in> held m then m else m\<lparr>locked := \<not> locked m\<rparr>)
   | Uncaps \<Rightarrow> release Caps_key m
   | _ \<Rightarrow> m)"

definition kbd :: "'z kbd_state_scheme \<Rightarrow> u8 \<times> u8" where
  "kbd s = (kb_mode s, kb_e0 s)"

interpretation kb: tty_blind "\<lambda>s. kbd s = x" for x
  by unfold_locales (simp_all add: kbd_def)

lemma kbd_ops [simp]:
  "kbd (put_queue a b s) = kbd s" "kbd (cur_seq al s) = kbd s" "kbd (do_self k al s) = kbd s" "kbd (minus k al s) = kbd s"
  "kbd (func ecx al s) = kbd s" "kbd (outb v p s) = kbd s" "kbd (snd (hd_inb p s)) = kbd s"
proof -
  have w: "kbd (wake_first q s) = kbd s" for q and s :: "'b kbd_state_scheme"
    by (simp add: wake_first_def upd_task_def kbd_def split: option.split)
  have u: "kbd (upd_tty i f s) = kbd s" for i f and s :: "'b kbd_state_scheme" by (simp add: upd_tty_def kbd_def)
  show q: "kbd (put_queue a b s) = kbd s" for a b and s :: "'b kbd_state_scheme"
    by (simp add: put_queue_def Let_def w u split: prod.split option.split)
  show "kbd (cur_seq al s) = kbd s" by (simp add: cur_seq_def Let_def q)
  show d: "kbd (do_self k al s) = kbd s" by (simp add: do_self_def q)
  show "kbd (minus k al s) = kbd s" by (simp add: minus_def q d)
  have "kbd (fold (\<lambda>i s. if task s i \<noteq> None then show_task s else s) is s) = kbd s" for "is" and s :: "'b kbd_state_scheme"
  proof (induction "is" arbitrary: s)
    case (Cons i "is")
    have "kbd (if task s i \<noteq> None then show_task s else s) = kbd s" by (simp add: show_task_def printk_def kbd_def)
    then show ?case using Cons.IH by simp
  qed simp
  then have "kbd (show_stat s) = kbd s" by (simp add: show_stat_def)
  then show "kbd (func ecx al s) = kbd s" by (simp add: func_def Let_def q split: option.split)
  show "kbd (outb v p s) = kbd s" "kbd (snd (hd_inb p s)) = kbd s" by (simp_all add: kbd_def outb_def hd_inb_def)
qed

lemma kbd_hd_ins [simp]: "kbd (s\<lparr>hd_ins := i\<rparr>) = kbd s"
  by (simp add: kbd_def)

lemma kb_wait_kbd: "kb_wait n s = Ok u s' \<Longrightarrow> kbd s' = kbd s"
proof (induction n arbitrary: s)
  case (Suc n)
  obtain al s1 where h: "hd_inb 0x64 s = (al, s1)" by fastforce
  have "kbd (snd (hd_inb 0x64 s)) = kbd s" by (rule kbd_ops)
  then show ?case using Suc h by (auto simp: Let_def split: if_splits)
qed simp

lemma set_leds_kbd: "set_leds n s = Ok u s' \<Longrightarrow> kbd s' = kbd s"
  by (auto simp: set_leds_def bindk_eq_Ok_iff dest!: kb_wait_kbd)

lemma mods_caps: "mods ((m XOR 0x40) OR 0x80) pre = press Caps_key ((mods m pre)\<lparr>locked := \<not> locked (mods m pre)\<rparr>)"
proof -
  have e: "(m XOR 0x40) OR 0x80 = (m XOR push_bit 6 1) OR push_bit 7 1" by simp
  have b: "bit ((m XOR 0x40) OR 0x80) n = ((bit m n \<noteq> (n = 6)) \<or> n = 7)" if "n < 8" for n
    using that unfolding e by (auto simp: bit_simps simp del: push_bit_of_1)
  have "key_bit k = 7 \<longleftrightarrow> k = Caps_key" for k using key_bit_inj[of k Caps_key] by simp
  then show ?thesis using key_bit_6 by (auto simp: mods_def press_def b)
qed

lemmas mods_bits = mods_set[of _ Left_shift, simplified] mods_set[of _ Right_shift, simplified] mods_set[of _ Left_ctrl, simplified]
  mods_set[of _ Right_ctrl, simplified] mods_set[of _ Left_alt, simplified] mods_set[of _ Right_alt, simplified]
  mods_clear[of _ Left_shift, simplified] mods_clear[of _ Right_shift, simplified] mods_clear[of _ Left_ctrl, simplified]
  mods_clear[of _ Right_ctrl, simplified] mods_clear[of _ Left_alt, simplified] mods_clear[of _ Right_alt, simplified]
  mods_clear[of _ Caps_key, simplified]

text \<open>A routine of the key table leaves the prefix alone and changes the mode as \<open>key_effect\<close> says.\<close>

lemma key_call_mods:
  assumes "key_call k n ecx r al s = Ok u s'"
  shows "kb_e0 s' = kb_e0 s \<and> mods_of s' = key_effect r (mods_of s)"
proof -
  have same: ?thesis if "kbd s' = kbd s" "key_effect r (mods_of s) = mods_of s" using that by (simp add: kbd_def)
  have p: "prefixed (mods m e) \<longleftrightarrow> e \<noteq> 0" for m e by (simp add: mods_def)
  have c: "(0xfe :: u8) = - 2" "(0xfd :: u8) = - 3" "(0x7f :: u8) = - 129" by simp_all
  show ?thesis
  proof (cases r)
    case Caps
    have m: "kb_mode s AND 0x80 \<noteq> 0 \<longleftrightarrow> Caps_key \<in> held (mods_of s)"
      using bit_iff_and_push_bit_not_eq_0[of "kb_mode s" 7] by (simp add: mods_def)
    show ?thesis
    proof (cases "kb_mode s AND 0x80 = 0")
      case True
      then have "kbd s' = kbd (s\<lparr>kb_leds := kb_leds s XOR 4, kb_mode := (kb_mode s XOR 0x40) OR 0x80\<rparr>)"
        using Caps assms by (auto simp: key_call_def caps_def dest: set_leds_kbd)
      then show ?thesis using Caps True m by (simp add: kbd_def key_effect_def mods_caps)
    next
      case False
      then have "s' = s" using Caps assms by (simp add: key_call_def caps_def)
      then show ?thesis using Caps False m by (auto simp: key_effect_def press_def insert_absorb)
    qed
  next
    case Cursor
    then have "kbd s' = kbd s" using assms
      by (auto simp: key_call_def cursor_def reboot_def Let_def bindk_eq_Ok_iff split: if_splits)
    then show ?thesis using Cursor by (intro same) (simp_all add: key_effect_def)
  next
    case Scroll
    then have "kbd s' = kbd (s\<lparr>kb_leds := kb_leds s XOR 1\<rparr>)" using assms by (auto simp: key_call_def scroll_def dest: set_leds_kbd)
    then show ?thesis using Scroll by (intro same) (simp_all add: key_effect_def kbd_def)
  next
    case Num
    then have "kbd s' = kbd (s\<lparr>kb_leds := kb_leds s XOR 2\<rparr>)" using assms by (auto simp: key_call_def num_def dest: set_leds_kbd)
    then show ?thesis using Num by (intro same) (simp_all add: key_effect_def kbd_def)
  qed (use assms c in \<open>auto simp: key_call_def key_effect_def ctrl_def unctrl_def alt_def unalt_def lshift_def unlshift_def rshift_def
      unrshift_def uncaps_def right_bit_def mods_bits p kbd_ops(3-5)[unfolded kbd_def prod.inject]\<close>)
qed

text \<open>The key table gives every scan code the routine the abstract machine expects.\<close>

definition expected_routine :: "nat \<Rightarrow> key_routine \<Rightarrow> bool" where
  "expected_routine i r \<longleftrightarrow> (r = Lshift) = (i = 0x2a) \<and> (r = Unlshift) = (i = 0xaa) \<and> (r = Rshift) = (i = 0x36) \<and> (r = Unrshift) = (i = 0xb6) \<and>
     (r = Ctrl) = (i = 0x1d) \<and> (r = Unctrl) = (i = 0x9d) \<and> (r = Alt) = (i = 0x38) \<and> (r = Unalt) = (i = 0xb8) \<and>
     (r = Caps) = (i = 0x3a) \<and> (r = Uncaps) = (i = 0xba)"

lemma key_table_routines: "list_all2 expected_routine [0..<256] key_table"
  by code_simp

lemma key_table_mods:
  assumes "al \<noteq> 0xe0" "al \<noteq> 0xe1"
  shows "(key_effect (key_table ! unat al) m)\<lparr>prefixed := False\<rparr> = mod_step m al"
proof -
  have "unat al < 256" using unsigned_less[of al, where ?'a = nat] by simp
  then have t: "(key_table ! unat al = Lshift) = (al = 0x2a)" "(key_table ! unat al = Unlshift) = (al = 0xaa)"
    "(key_table ! unat al = Rshift) = (al = 0x36)" "(key_table ! unat al = Unrshift) = (al = 0xb6)"
    "(key_table ! unat al = Ctrl) = (al = 0x1d)" "(key_table ! unat al = Unctrl) = (al = 0x9d)"
    "(key_table ! unat al = Alt) = (al = 0x38)" "(key_table ! unat al = Unalt) = (al = 0xb8)"
    "(key_table ! unat al = Caps) = (al = 0x3a)" "(key_table ! unat al = Uncaps) = (al = 0xba)"
    using list_all2_nthD[OF key_table_routines, of "unat al"] by (simp_all add: expected_routine_def word_unat_eq_iff)
  have d: "al - 0x80 = c \<longleftrightarrow> al = c + 0x80" for c by (simp add: diff_eq_eq)
  show ?thesis
    using t assms by (cases "key_table ! unat al") (simp_all add: key_effect_def mod_step_def mod_key_of_def d)
qed

text \<open>One interrupt is one step of the abstract machine.\<close>

lemma keyboard_interrupt_mods:
  assumes "keyboard_interrupt k n ecx s = Ok u s'"
  shows "mods_of s' = mod_step (mods_of s) (hd_input s (hd_ins s) 0x60)"
proof -
  define al where "al = hd_input s (hd_ins s) 0x60"
  define s1 where "s1 = s\<lparr>hd_ins := Suc (hd_ins s)\<rparr>"
  have m1: "mods_of s1 = mods_of s" by (simp add: s1_def)
  have h: "hd_inb 0x60 s = (al, s1)" by (simp add: hd_inb_def al_def s1_def)
  define r where "r = (if al = 0xe0 then Ok () (s1\<lparr>kb_e0 := 1\<rparr>) else if al = 0xe1 then Ok () (s1\<lparr>kb_e0 := 2\<rparr>)
    else bindk (key_call k n ecx (key_table ! unat al) al s1) (\<lambda>_ s. Ok () (s\<lparr>kb_e0 := 0\<rparr>)))"
  obtain s2 where s2: "r = Ok () s2" "kbd s' = kbd s2"
  proof -
    define rest where "rest s = (let (al, s) = hd_inb 0x61 s; s = outb (al OR 0x80) 0x61 s; s = outb ((al OR 0x80) AND 0x7f) 0x61 s
      in do_tty_interrupt n 0 (outb 0x20 0x20 s))" for s :: "'a kbd_state_scheme"
    have "bindk r (\<lambda>_. rest) = Ok u s'" using assms by (simp add: keyboard_interrupt_def h r_def rest_def Let_def)
    then obtain s2 where s2: "r = Ok () s2" "rest s2 = Ok u s'" by (auto simp: bindk_eq_Ok_iff)
    have "kbd s' = kbd s2" using s2(2) kb.copy_to_cooked_keeps[of n 0 _ u s' "kbd s2"]
      by (auto simp: rest_def Let_def do_tty_interrupt_def hd_inb_def kbd_ops)
    then show ?thesis using s2(1) that by blast
  qed
  have "mods_of s2 = mod_step (mods_of s1) al"
  proof (cases "al = 0xe0 \<or> al = 0xe1")
    case True
    then show ?thesis using s2(1) by (auto simp: r_def mod_step_def mods_def)
  next
    case False
    then obtain s3 where s3: "key_call k n ecx (key_table ! unat al) al s1 = Ok () s3" "s2 = s3\<lparr>kb_e0 := 0\<rparr>"
      using s2(1) by (auto simp: r_def bindk_eq_Ok_iff)
    have "mods_of s2 = (mods_of s3)\<lparr>prefixed := False\<rparr>" by (simp add: mods_def s3(2))
    moreover have "mods_of s3 = key_effect (key_table ! unat al) (mods_of s1)" using key_call_mods[OF s3(1)] by blast
    moreover have "(key_effect (key_table ! unat al) (mods_of s1))\<lparr>prefixed := False\<rparr> = mod_step (mods_of s1) al"
      using False by (intro key_table_mods) auto
    ultimately show ?thesis by simp
  qed
  then show ?thesis using s2(2) m1 unfolding al_def by (simp add: kbd_def)
qed

text \<open>Interrupts with the scan codes \<open>cs\<close>, and between them anything that leaves the keyboard's own bytes alone.\<close>

inductive kbd_run :: "kbd_type \<Rightarrow> 'z kbd_state_scheme \<Rightarrow> u8 list \<Rightarrow> 'z kbd_state_scheme \<Rightarrow> bool" for k and s :: "'z kbd_state_scheme" where
  run_start: "kbd_run k s [] s"
| run_key: "kbd_run k s cs s' \<Longrightarrow> keyboard_interrupt k n ecx s' = Ok () s'' \<Longrightarrow> kbd_run k s (cs @ [hd_input s' (hd_ins s') 0x60]) s''"
| run_other: "kbd_run k s cs s' \<Longrightarrow> kb_mode s'' = kb_mode s' \<Longrightarrow> kb_e0 s'' = kb_e0 s' \<Longrightarrow> kbd_run k s cs s''"

text \<open>C12. The shift keys. Over any sequence of keyboard interrupts, with anything in between that leaves the keyboard's bytes alone, the mode
  byte is what the abstract machine \<open>mod_step\<close> makes of the scan codes: which of the two shift, control and alt keys and the
  caps key are held down, told apart by the prefix, and whether capitals are locked (once for each press of the caps key, however often it repeats).\<close>

theorem keyboard_tracks_modifiers:
  assumes "kbd_run k s cs s'"
  shows "mods (kb_mode s') (kb_e0 s') = foldl mod_step (mods (kb_mode s) (kb_e0 s)) cs"
  using assms by induction (simp_all add: keyboard_interrupt_mods)

subsection \<open>The read queue\<close>

text \<open>The bytes \<open>put_queue\<close> takes from its two registers.\<close>

function key_seq :: "u32 \<Rightarrow> u32 \<Rightarrow> u8 list" where
  "key_seq eax ebx =
     ucast eax # (let a = drop_bit 8 eax OR push_bit 24 ebx in if a = 0 then [] else key_seq a (drop_bit 8 ebx))"
  by pat_completeness auto
termination
proof (relation "measures [\<lambda>(eax, ebx). unat ebx, \<lambda>(eax, ebx). unat eax]")
  fix eax ebx a :: u32
  assume "a = drop_bit 8 eax OR push_bit 24 ebx" "a \<noteq> 0"
  then show "((a, drop_bit 8 ebx), eax, ebx) \<in> measures [\<lambda>(eax, ebx). unat ebx, \<lambda>(eax, ebx). unat eax]"
    using drop_bit8_less[of ebx] drop_bit8_less[of eax] by (cases "ebx = 0"; cases "eax = 0") auto
qed simp

declare key_seq.simps [simp del]

lemma key_seq_char: "key_seq (ucast c) 0 = [c]"
proof -
  have c: "unat c < 256" using unsigned_less[of c, where ?'a = nat] by simp
  then have "unat (ucast c :: u32) = unat c" by (simp add: unsigned_ucast_eq take_bit_nat_eq_self)
  then have "drop_bit 8 (ucast c :: u32) = 0" using c by (simp add: word_unat_eq_iff drop_bit_eq_div unat_div)
  moreover have "ucast (ucast c :: u32) = c" by (rule bit_word_eqI) (simp add: bit_simps)
  ultimately show ?thesis by (subst key_seq.simps) simp
qed

lemma q_len_buf [simp]: "q_len (q\<lparr>tq_buf := b\<rparr>) = q_len q" "q_len (q\<lparr>tq_data := d\<rparr>) = q_len q"
  by (simp_all add: q_len_def)

lemma ring_diff: "h < 1024 \<Longrightarrow> t < 1024 \<Longrightarrow> (h + 1024 - t) mod 1024 = (if t \<le> h then h - t else h + 1024 - t :: nat)"
  by (auto simp: mod_if)

lemma ring_sum: "x < 1024 \<Longrightarrow> y < 1024 \<Longrightarrow> (x + y) mod 1024 = (if x + y < 1024 then x + y else x + y - 1024 :: nat)"
  by (auto simp: mod_if)

lemma ring_full:
  assumes "h < 1024" "t < 1024" shows "(h + 1) mod 1024 = t \<longleftrightarrow> (h + 1024 - t) mod 1024 = (1023 :: nat)"
proof -
  have s: "(h + 1) mod 1024 = (if h + 1 < 1024 then h + 1 else h + 1 - 1024)" by (rule ring_sum) (simp_all add: assms)
  show ?thesis unfolding ring_diff[OF assms] s using assms by (auto split: if_splits)
qed

lemma put_full: "q_ok q \<Longrightarrow> INC (tq_head q) = tq_tail q \<longleftrightarrow> q_len q = 1023"
proof -
  assume q: "q_ok q"
  then have "INC (tq_head q) = tq_tail q \<longleftrightarrow> (unat (tq_head q) + 1) mod 1024 = unat (tq_tail q)"
    unfolding word_unat_eq_iff by (simp add: unat_INC q_ok_def)
  then show ?thesis using ring_full q by (simp add: q_ok_def q_len_def)
qed

lemma ring_window:
  assumes "h < 1024" "t < 1024" "i < (h + 1024 - t) mod 1024" shows "(t + i) mod 1024 \<noteq> (h :: nat)"
proof -
  have "i < 1024" using assms(3) by (rule less_le_trans) simp
  then have s: "(t + i) mod 1024 = (if t + i < 1024 then t + i else t + i - 1024)" by (rule ring_sum[OF assms(2)])
  show ?thesis unfolding s using assms ring_diff[OF assms(1,2)] by (auto split: if_splits)
qed

lemma window_not_head:
  assumes "q_ok q" "i < q_len q" shows "(unat (tq_tail q) + i) mod 1024 \<noteq> unat (tq_head q)"
  using assms ring_window by (simp add: q_ok_def q_len_def)

text \<open>Either all bytes fit and are put, or the head stays where it was and the bytes in the queue are untouched.\<close>

lemma put_bytes_fits:
  "q_ok p \<Longrightarrow> q_len p + length (key_seq a b) \<le> 1023 \<Longrightarrow>
    put_bytes a b (tq_head p) (p\<lparr>tq_head := h\<rparr>) = (Some (tq_head (fold PUTCH (key_seq a b) p)), (fold PUTCH (key_seq a b) p)\<lparr>tq_head := h\<rparr>)"
proof (induction a b arbitrary: p rule: key_seq.induct)
  case (1 a b)
  define a' where "a' = drop_bit 8 a OR push_bit 24 b"
  define p' where "p' = PUTCH (ucast a) p"
  have seq: "key_seq a b = ucast a # (if a' = 0 then [] else key_seq a' (drop_bit 8 b))" by (subst key_seq.simps) (simp add: a'_def)
  have l: "q_len p < 1023" using "1.prems"(2) seq by simp
  have p': "q_ok p'" "q_len p' = Suc (q_len p)" using PUTCH_list[OF "1.prems"(1) l, of "ucast a"]
    by (auto simp: p'_def simp flip: length_q_list)
  have e: "p\<lparr>tq_head := h, tq_buf := (tq_buf p)(unat (tq_head p) := ucast a)\<rparr> = p'\<lparr>tq_head := h\<rparr>" by (simp add: p'_def PUTCH_def)
  have i: "(tq_head p + 1) AND 0x3ff = tq_head p'" "tq_tail p' = tq_tail p" by (simp_all add: p'_def PUTCH_def INC_def)
  have "put_bytes a b (tq_head p) (p\<lparr>tq_head := h\<rparr>) =
      (if a' = 0 then (Some (tq_head p'), p'\<lparr>tq_head := h\<rparr>) else put_bytes a' (drop_bit 8 b) (tq_head p') (p'\<lparr>tq_head := h\<rparr>))"
    using put_full[OF "1.prems"(1)] l i by (subst put_bytes.simps) (simp add: Let_def e a'_def INC_def)
  moreover have "put_bytes a' (drop_bit 8 b) (tq_head p') (p'\<lparr>tq_head := h\<rparr>) =
      (Some (tq_head (fold PUTCH (key_seq a' (drop_bit 8 b)) p')), (fold PUTCH (key_seq a' (drop_bit 8 b)) p')\<lparr>tq_head := h\<rparr>)" if "a' \<noteq> 0"
    using "1.prems"(2) p'(2) seq that by (intro "1.IH"[OF a'_def that p'(1)]) simp
  ultimately show ?case by (cases "a' = 0") (simp_all add: seq p'_def[symmetric])
qed

lemma put_bytes_full:
  "q_ok p \<Longrightarrow> 1023 < q_len p + length (key_seq a b) \<Longrightarrow>
    \<exists>q'. put_bytes a b (tq_head p) (p\<lparr>tq_head := h\<rparr>) = (None, q') \<and> tq_head q' = h \<and> tq_tail q' = tq_tail p \<and>
      (\<forall>i<q_len p. tq_buf q' ((unat (tq_tail p) + i) mod 1024) = tq_buf p ((unat (tq_tail p) + i) mod 1024))"
proof (induction a b arbitrary: p rule: key_seq.induct)
  case (1 a b)
  define a' where "a' = drop_bit 8 a OR push_bit 24 b"
  define p' where "p' = PUTCH (ucast a) p"
  have seq: "key_seq a b = ucast a # (if a' = 0 then [] else key_seq a' (drop_bit 8 b))" by (subst key_seq.simps) (simp add: a'_def)
  have e: "p\<lparr>tq_head := h, tq_buf := (tq_buf p)(unat (tq_head p) := ucast a)\<rparr> = p'\<lparr>tq_head := h\<rparr>" by (simp add: p'_def PUTCH_def)
  have i: "(tq_head p + 1) AND 0x3ff = tq_head p'" "tq_tail p' = tq_tail p" by (simp_all add: p'_def PUTCH_def INC_def)
  have w: "tq_buf p' ((unat (tq_tail p) + j) mod 1024) = tq_buf p ((unat (tq_tail p) + j) mod 1024)" if "j < q_len p" for j
    using window_not_head[OF "1.prems"(1) that] by (simp add: p'_def PUTCH_def)
  show ?case
  proof (cases "q_len p = 1023")
    case True
    then have "put_bytes a b (tq_head p) (p\<lparr>tq_head := h\<rparr>) = (None, p'\<lparr>tq_head := h\<rparr>)"
      using put_full[OF "1.prems"(1)] i by (subst put_bytes.simps) (simp add: Let_def e INC_def)
    then show ?thesis using w i by simp
  next
    case False
    then have l: "q_len p < 1023" using q_len_less(2)[of p] by simp
    have p': "q_ok p'" "q_len p' = Suc (q_len p)" using PUTCH_list[OF "1.prems"(1) l, of "ucast a"]
      by (auto simp: p'_def simp flip: length_q_list)
    have a: "a' \<noteq> 0" "1023 < q_len p' + length (key_seq a' (drop_bit 8 b))" using l "1.prems"(2) seq p'(2) by (auto split: if_splits)
    have "put_bytes a b (tq_head p) (p\<lparr>tq_head := h\<rparr>) = put_bytes a' (drop_bit 8 b) (tq_head p') (p'\<lparr>tq_head := h\<rparr>)"
      using put_full[OF "1.prems"(1)] l i a(1) by (subst put_bytes.simps) (simp add: Let_def e a'_def INC_def)
    then show ?thesis using "1.IH"[OF a'_def a(1) p'(1) a(2)] w i p'(2) by auto
  qed
qed

text \<open>What \<open>put_queue\<close> does to the read queue of the console.\<close>

lemma put_queue_queue:
  assumes "q_ok (in_q 0 s)"
  shows "q_ok (in_q 0 (put_queue a b s)) \<and> q_list (in_q 0 (put_queue a b s)) =
    (if length (q_list (in_q 0 s)) + length (key_seq a b) \<le> 1023 then q_list (in_q 0 s) @ key_seq a b else q_list (in_q 0 s))"
proof -
  define q where "q = in_q 0 s"
  have w: "tty_table (wake_first w t) = tty_table t" for w and t :: "'a tty_state_scheme"
    by (simp add: wake_first_def upd_task_def split: option.split)
  have h: "q\<lparr>tq_head := tq_head q\<rparr> = q" by simp
  show ?thesis
  proof (cases "q_len q + length (key_seq a b) \<le> 1023")
    case True
    define q' where "q' = fold PUTCH (key_seq a b) q"
    have "put_bytes a b (tq_head q) q = (Some (tq_head q'), q'\<lparr>tq_head := tq_head q\<rparr>)"
      using put_bytes_fits[of q a b "tq_head q"] assms True unfolding h q'_def by (simp add: q_def)
    then have "in_q 0 (put_queue a b s) = q'"
      by (simp add: put_queue_def Let_def q_def[symmetric] w)
    then show ?thesis using tq.put_all_items[of q "key_seq a b"] assms True by (simp add: q_def q'_def)
  next
    case False
    then obtain q' where q': "put_bytes a b (tq_head q) q = (None, q')" "tq_head q' = tq_head q" "tq_tail q' = tq_tail q"
      "\<And>i. i < q_len q \<Longrightarrow> tq_buf q' ((unat (tq_tail q) + i) mod 1024) = tq_buf q ((unat (tq_tail q) + i) mod 1024)"
      using put_bytes_full[of q a b "tq_head q"] assms unfolding h q_def[symmetric] by auto
    then have "in_q 0 (put_queue a b s) = q'" by (simp add: put_queue_def Let_def q_def[symmetric])
    moreover have "q_len q' = q_len q" "q_ok q'" using q'(2,3) assms by (simp_all add: q_len_def q_ok_def q_def)
    moreover from this have "q_list q' = q_list q" using q'(3,4) by (simp add: q_list_def)
    ultimately show ?thesis using False by (simp add: q_def)
  qed
qed

subsection \<open>Typing\<close>

lemma copy_to_cooked_edits:
  assumes "\<not> L_ECHO (tty_table s tty)" "q_ok (sec_q tty s)" "q_ok (in_q tty s)" "q_len (sec_q tty s) + q_len (in_q tty s) \<le> 1023" "2048 \<le> n"
    "q_len (in_q tty s) \<le> 1"
  shows "\<exists>s'. copy_to_cooked n tty s = Ok () s' \<and> q_list (in_q tty s') = [] \<and>
    q_list (sec_q tty s') = foldl (edit_input tty s) (q_list (sec_q tty s)) (q_list (in_q tty s))"
proof -
  have l: "q_len (in_q tty s) + 1024 < n" using assms(5,6) by simp
  obtain s' k where k: "cook_loop n (tty_write_fn n) tty s = Ok () s'" "k \<le> q_len (in_q tty s)" "q_list (in_q tty s') = drop k (q_list (in_q tty s))"
    "q_list (sec_q tty s') = foldl (edit_input tty s) (q_list (sec_q tty s)) (take k (q_list (in_q tty s)))"
    "k = q_len (in_q tty s) \<or> q_len (sec_q tty s') = 1023"
    using cook_loop_edits[OF assms(1-3) l, of "tty_write_fn n"] by blast
  have all: "k = q_len (in_q tty s)"
  proof (rule ccontr)
    assume "k \<noteq> q_len (in_q tty s)"
    then have "k = 0" "q_len (sec_q tty s') = 1023" "q_len (in_q tty s) = 1" using k(2,5) assms(6) by auto
    then show False using k(4) assms(4) by (simp flip: length_q_list)
  qed
  have w: "tty_table (wake_up q u) = tty_table u" for q and u :: "'a tty_state_scheme"
    by (simp add: wake_up_def upd_task_def split: option.split)
  show ?thesis using k all
    by (intro exI[of _ "wake_up (Some (WTty tty 2)) s'"]) (simp add: copy_to_cooked_def copy_to_cooked_with_def w)
qed

lemma put_queue_line: "same_line 0 s (put_queue a b s)" "secondary (tty_table (put_queue a b s) 0) = secondary (tty_table s 0)"
proof -
  have w: "tty_table (wake_first w t) = tty_table t" "below_ctype (wake_first w t) = below_ctype t" for w and t :: "'a tty_state_scheme"
    by (simp_all add: wake_first_def upd_task_def split: option.split)
  show "same_line 0 s (put_queue a b s)" "secondary (tty_table (put_queue a b s) 0) = secondary (tty_table s 0)"
    by (simp_all add: put_queue_def Let_def same_line_def w split: prod.split option.split)
qed

text \<open>C13. Typing. With a console that does not echo, whose read queue is empty and whose line has room, the interrupt of a character key
  returns; the character the layout and the shift keys give it has edited the line being typed, and the read queue is empty again. A key without a
  character changes nothing in the line.\<close>

theorem typed_key_edits_line:
  assumes "hd_input s (hd_ins s) 0x60 = al" "key_table ! unat al = Do_self"
    and "\<not> L_ECHO (tty_table s 0)" "q_ok (secondary (tty_table s 0))" "q_ok (read_q (tty_table s 0))"
    and "EMPTY (read_q (tty_table s 0))" "\<not> FULL (secondary (tty_table s 0))" "2048 \<le> n"
  shows "\<exists>s'. keyboard_interrupt k n ecx s = Ok () s' \<and> q_list (read_q (tty_table s' 0)) = [] \<and>
    q_list (secondary (tty_table s' 0)) =
      (if selected_map k (kb_mode s) ! unat al = 0 then q_list (secondary (tty_table s 0))
       else edit_input 0 s (q_list (secondary (tty_table s 0))) (self_char k (kb_mode s) al))"
proof -
  have al: "al \<noteq> 0xe0" "al \<noteq> 0xe1" using assms(2) by (auto simp: key_table_def nth_append)
  have e: "q_list (in_q 0 s) = []" "q_len (sec_q 0 s) < 1023" using EMPTY_iff[OF assms(5)] FULL_iff[OF assms(4)] assms(6,7) q_len_less(2)[of "sec_q 0 s"]
    by auto
  define s1 where "s1 = s\<lparr>hd_ins := Suc (hd_ins s)\<rparr>"
  define s2 where "s2 = do_self k al s1"
  define cs where "cs = (if selected_map k (kb_mode s) ! unat al = 0 then [] else [self_char k (kb_mode s) al])"
  have "same_line 0 s s2 \<and> sec_q 0 s2 = sec_q 0 s \<and> q_ok (in_q 0 s2) \<and> q_list (in_q 0 s2) = cs"
    using put_queue_line[where s = s1] put_queue_queue[where s = s1 and a = "ucast (self_char k (kb_mode s) al)" and b = 0] assms(5) e
    by (auto simp: s2_def do_self_def cs_def s1_def same_line_def key_seq_char)
  moreover define s3 where "s3 = outb 0x20 0x20 (outb ((hd_input s2 (hd_ins s2) 0x61 OR 0x80) AND 0x7f) 0x61 (outb (hd_input s2 (hd_ins s2) 0x61 OR 0x80) 0x61
    (s2\<lparr>kb_e0 := 0, hd_ins := Suc (hd_ins s2)\<rparr>)))"
  ultimately have s3: "same_line 0 s s3" "sec_q 0 s3 = sec_q 0 s" "q_ok (in_q 0 s3)" "q_list (in_q 0 s3) = cs"
    by (simp_all add: same_line_def outb_def)
  have "\<not> L_ECHO (tty_table s3 0)" using s3(1) assms(3) by (simp add: same_line_def L_FLAG_def)
  moreover have "q_len (in_q 0 s3) \<le> 1" using s3(4) by (simp add: cs_def flip: length_q_list)
  ultimately obtain s' where s': "copy_to_cooked n 0 s3 = Ok () s'" "q_list (in_q 0 s') = []"
    "q_list (sec_q 0 s') = foldl (edit_input 0 s3) (q_list (sec_q 0 s)) cs"
    using copy_to_cooked_edits[of s3 0 n] s3 assms(4,8) e(2) by auto
  have "edit_input 0 s3 = edit_input 0 s" using edit_cong[OF s3(1)] by (intro ext)
  moreover have "keyboard_interrupt k n ecx s = Ok () s'"
    using s'(1) al assms(2)
    by (simp add: keyboard_interrupt_def hd_inb_def assms(1) s1_def[symmetric] key_call_def s2_def[symmetric] do_tty_interrupt_def s3_def Let_def)
  ultimately show ?thesis using s'(2,3) by (auto simp: cs_def)
qed

subsection \<open>Sending\<close>

lemma write_char_sends:
  fixes port :: u16
  assumes "q_ok (write_q (tty_table s tty))" "q_list (write_q (tty_table s tty)) = c # cs"
  defines "s' \<equiv> write_char tty port s"
  shows "q_ok (write_q (tty_table s' tty))" "q_list (write_q (tty_table s' tty)) = cs" "hd_input s' = hd_input s" "waitq s' = waitq s"
    "cs \<noteq> [] \<Longrightarrow> ports s' = ports s @ [(port, c)] \<and> hd_ins s' = hd_ins s"
    "cs = [] \<Longrightarrow> ports s' = ports s @ [(port, c), (port + 1, hd_input s (hd_ins s) (port + 1) AND 0xd)]"
    "task s i \<noteq> None \<longleftrightarrow> task s' i \<noteq> None"
    "cs = [] \<Longrightarrow> waitq s (WTty tty 1) = Some i \<Longrightarrow> task s' i = Some t \<Longrightarrow> state t = TASK_RUNNING"
proof -
  define q where "q = write_q (tty_table s tty)"
  note g = GETCH_list[of q]
  have q: "q_ok q" "q_list q = c # cs" using assms by (simp_all add: q_def)
  have q': "q_ok (q\<lparr>tq_tail := (tq_tail q + 1) AND 0x3ff\<rparr>)" "q_list (q\<lparr>tq_tail := (tq_tail q + 1) AND 0x3ff\<rparr>) = cs"
    "tq_buf q (unat (tq_tail q)) = c" using g q by (simp_all add: GETCH_def INC_def)
  have ne: "(tq_head q - tq_tail q) AND 0x3ff \<noteq> 0"
    using unat_CHARS[OF q(1)] q(2) by (auto simp: CHARS_def simp flip: length_q_list)
  have last: "(tq_tail q + 1) AND 0x3ff = tq_head q \<longleftrightarrow> cs = []"
    using EMPTY_iff[OF q'(1)] unfolding q'(2) EMPTY_def by auto
  have w: "tty_table (wake_first w t) = tty_table t" "hd_input (wake_first w t) = hd_input t" "hd_ins (wake_first w t) = hd_ins t"
    "ports (wake_first w t) = ports t" "waitq (wake_first w t) = waitq t" "(task (wake_first w t) i = None) = (task t i = None)"
    for w and t :: "'a hd_state_scheme"
    by (auto simp: wake_first_def upd_task_def split: option.split)
  have r: "task (wake_first w u) i = Some t \<Longrightarrow> waitq u w = Some i \<Longrightarrow> state t = TASK_RUNNING" for w and u :: "'a hd_state_scheme"
    by (auto simp: wake_first_def upd_task_def)
  note d = s'_def write_char_def Let_def q_def[symmetric] write_buffer_empty_def hd_inb_def outb_def upd_tty_def q' w last ne
  show "q_ok (write_q (tty_table s' tty))" "q_list (write_q (tty_table s' tty)) = cs" "hd_input s' = hd_input s" "waitq s' = waitq s"
    "task s i \<noteq> None \<longleftrightarrow> task s' i \<noteq> None"
    by (simp_all add: d del: not_None_eq)
  show "cs \<noteq> [] \<Longrightarrow> ports s' = ports s @ [(port, c)] \<and> hd_ins s' = hd_ins s"
    "cs = [] \<Longrightarrow> ports s' = ports s @ [(port, c), (port + 1, hd_input s (hd_ins s) (port + 1) AND 0xd)]"
    by (simp_all add: d)
  show "cs = [] \<Longrightarrow> waitq s (WTty tty 1) = Some i \<Longrightarrow> task s' i = Some t \<Longrightarrow> state t = TASK_RUNNING"
    by (auto simp: d intro: r)
qed

text \<open>C20. Sending. While the chip of a serial line asks for characters, the write queue goes out byte for byte in order; with the last byte
  the transmit interrupt is switched off and the task that waits for room in the queue is made runnable. So bytes put into the queue by
  \<open>tty_write\<close> are sent once each, and the line falls silent when there is nothing left to send.\<close>

theorem serial_sends_queue:
  fixes port :: u16
  assumes "q_ok (write_q (tty_table s tty))" "q_list (write_q (tty_table s tty)) = xs" "xs \<noteq> []"
  defines "s' \<equiv> (write_char tty port ^^ length xs) s"
  shows "ports s' = ports s @ map (Pair port) xs @ [(port + 1, hd_input s (hd_ins s) (port + 1) AND 0xd)] \<and>
    EMPTY (write_q (tty_table s' tty)) \<and>
    (case waitq s (WTty tty 1) of Some i \<Rightarrow> task s i \<noteq> None \<longrightarrow> (\<exists>t. task s' i = Some t \<and> state t = TASK_RUNNING) | None \<Rightarrow> True)"
  unfolding s'_def using assms(1-3)
proof (induction xs arbitrary: s)
  case (Cons c cs)
  define s1 where "s1 = write_char tty port s"
  note f = write_char_sends[where port = port, OF Cons.prems(1,2), folded s1_def]
  have s': "(write_char tty port ^^ length (c # cs)) s = (write_char tty port ^^ length cs) s1" unfolding s1_def by (simp add: funpow_swap1)
  show ?case
  proof (cases "cs = []")
    case True
    then show ?thesis unfolding s' using f EMPTY_iff[OF f(1)] by (auto split: option.split)
  next
    case False
    then show ?thesis unfolding s' using Cons.IH[OF f(1,2) False] f(3,4,5,7) by (simp split: option.splits)
  qed
qed simp

subsection \<open>Examples\<close>

text \<open>A keyboard that delivers the scan code \<open>c\<close>, with \<open>xs\<close> in the write queue of the first serial line, for whose room task 1 waits.\<close>

definition demo_kbd :: "u8 \<Rightarrow> u8 list \<Rightarrow> kbd_state" where
  "demo_kbd c xs = (kbd_data (fd_static (hd_static (tty_data demo_fs))))\<lparr>hd_input := (\<lambda>_ _. c),
     tty_table := (\<lambda>i. (init_tty i)\<lparr>tty_termios := (tty_termios (init_tty i))\<lparr>c_lflag := 2\<rparr>, write_q := fold PUTCH xs (init_queue 0)\<rparr>),
     ports := [], waitq := [WTty 1 1 \<mapsto> 1], task := [1 \<mapsto> (INIT_TASK 0)\<lparr>state := 2\<rparr>]\<rparr>"

lemma demo_kbd_facts:
  "hd_input (demo_kbd c xs) = (\<lambda>_ _. c)" "kb_mode (demo_kbd c xs) = 0" "kb_e0 (demo_kbd c xs) = 0" "ports (demo_kbd c xs) = []"
  "waitq (demo_kbd c xs) = [WTty 1 1 \<mapsto> 1]" "task (demo_kbd c xs) = [1 \<mapsto> (INIT_TASK 0)\<lparr>state := 2\<rparr>]"
  by (simp_all add: demo_kbd_def kbd_data_def fd_state.extend_def kbd_state.fields_def fd_static_def hd_state.extend_def fd_state.fields_def
      hd_static_def tty_state.extend_def hd_state.fields_def tty_data_def fs_state.extend_def tty_state.fields_def demo_fs_def)

lemma init_queue_facts [simp]: "q_ok (init_queue d)" "q_list (init_queue d) = []" "EMPTY (init_queue d)" "\<not> FULL (init_queue d)"
  by (simp_all add: q_ok_def init_queue_def q_list_def q_len_def EMPTY_def FULL_def LEFT_def)

lemma demo_kbd_ttys:
  "\<not> L_ECHO (tty_table (demo_kbd c xs) i)" "secondary (tty_table (demo_kbd c xs) i) = init_queue 0"
  "read_q (tty_table (demo_kbd c xs) 0) = init_queue 0" "write_q (tty_table (demo_kbd c xs) i) = fold PUTCH xs (init_queue 0)"
  by (simp_all add: demo_kbd_def L_FLAG_def init_tty_def Let_def)

theorem typed_key_edits_line_witness:
  "\<exists>s'. keyboard_interrupt KBD_FINNISH 2048 0 (demo_kbd 0x1e []) = Ok () s' \<and> q_list (secondary (tty_table s' 0)) = [0x61]"
proof -
  have "selected_map KBD_FINNISH 0 ! 30 = 0x61" "self_char KBD_FINNISH 0 0x1e = 0x61" by code_simp+
  moreover have "edit_input 0 (demo_kbd 0x1e []) [] 0x61 = [0x61]"
    by (simp add: edit_input_def map_input_def Let_def demo_kbd_def init_tty_def L_FLAG_def I_FLAG_def edit_def is_cc_def INIT_C_CC_def)
  moreover have "key_table ! 30 = Do_self" by (simp add: key_table_def nth_append)
  ultimately show ?thesis
    using typed_key_edits_line[where s = "demo_kbd 0x1e []" and al = "0x1e" and n = 2048 and k = KBD_FINNISH and ecx = 0] by (auto simp: demo_kbd_facts demo_kbd_ttys)
qed

theorem serial_sends_queue_witness:
  "ports ((write_char 1 0x3f8 ^^ 2) (demo_kbd 0x0f [0x68, 0x69])) = [(0x3f8, 0x68), (0x3f8, 0x69), (0x3f9, 0x0d)]"
proof -
  have "q_ok (fold PUTCH [0x68, 0x69] (init_queue 0)) \<and> q_list (fold PUTCH [0x68, 0x69] (init_queue 0)) = [0x68, 0x69]"
    using tq.put_all_items[of "init_queue 0" "[0x68, 0x69]"] by simp
  then show ?thesis using serial_sends_queue[where s = "demo_kbd 0x0f [0x68, 0x69]" and tty = 1 and xs = "[0x68, 0x69]" and port = "0x3f8"]
    by (simp add: demo_kbd_facts demo_kbd_ttys numeral_2_eq_2)
qed

theorem keyboard_tracks_modifiers_witness:
  "\<exists>s'. kbd_run KBD_US (demo_kbd 0x2a []) [0x2a] s' \<and> mods (kb_mode s') (kb_e0 s') = \<lparr>held = {Left_shift}, locked = False, prefixed = False\<rparr>"
proof -
  define s1 where "s1 = (lshift ((demo_kbd 0x2a [])\<lparr>hd_ins := Suc (hd_ins (demo_kbd 0x2a []))\<rparr>))\<lparr>kb_e0 := 0\<rparr>"
  define s2 where "s2 = outb 0x20 0x20 (outb ((hd_input s1 (hd_ins s1) 0x61 OR 0x80) AND 0x7f) 0x61 (outb (hd_input s1 (hd_ins s1) 0x61 OR 0x80) 0x61
    (s1\<lparr>hd_ins := Suc (hd_ins s1)\<rparr>)))"
  have t: "tty_table s2 = tty_table (demo_kbd 0x2a [])" by (simp add: s2_def s1_def outb_def lshift_def)
  obtain s' where "copy_to_cooked 2048 0 s2 = Ok () s'"
    using copy_to_cooked_edits[where s = s2 and tty = 0 and n = 2048] by (auto simp: t demo_kbd_ttys simp flip: length_q_list)
  moreover have "key_table ! 42 = Lshift" by (simp add: key_table_def nth_append)
  ultimately have "keyboard_interrupt KBD_US 2048 0 (demo_kbd 0x2a []) = Ok () s'"
    by (simp add: keyboard_interrupt_def hd_inb_def demo_kbd_facts key_call_def s2_def s1_def do_tty_interrupt_def Let_def)
  then have "kbd_run KBD_US (demo_kbd 0x2a []) [0x2a] s'"
    using run_key[OF run_start, where k = KBD_US and n = 2048 and ecx = 0 and s = "demo_kbd 0x2a []" and s'' = s'] by (simp add: demo_kbd_facts)
  moreover from this have "mods (kb_mode s') (kb_e0 s') = \<lparr>held = {Left_shift}, locked = False, prefixed = False\<rparr>"
    using keyboard_tracks_modifiers by (fastforce simp: demo_kbd_facts mods_def mod_step_def mod_key_of_def press_def)
  ultimately show ?thesis by blast
qed

end
