(* ===== verification/Boot_Head.thy ===== *)
theory Boot_Head
  imports Kernel_Traps
begin

text \<open>
  The 32-bit start-up code, src/boot/head.s: the default interrupt gates, the descriptors of the kernel's segments and the page tables the
  kernel starts with. They map the first 16 MB of linear memory to themselves and are the well-formed directory
  from which the routines of \<open>Mm_Memory\<close> go on. The tests for the A20 line and the coprocessor come before it and are not modelled.
\<close>

text \<open>The loop \<open>rp_sidt\<close> with \<open>ecx\<close> rounds left, at the entry \<open>i\<close>.\<close>

primrec rp_sidt :: "nat \<Rightarrow> nat \<Rightarrow> gate \<Rightarrow> (nat \<Rightarrow> gate) \<Rightarrow> nat \<Rightarrow> gate" where
  "rp_sidt 0 i g idt = idt"
| "rp_sidt (Suc ecx) i g idt = rp_sidt ecx (i + 1) g (idt(i := g))"

definition setup_idt :: "u32 \<Rightarrow> (nat \<Rightarrow> gate) \<Rightarrow> nat \<Rightarrow> gate" where
  "setup_idt ignore_int idt =
     rp_sidt 256 0 ((0x00080000 AND 0xffff0000) OR (ignore_int AND 0xffff), (ignore_int AND 0xffff0000) OR 0x8E00) idt"

definition ignore_int :: "'z mm_state_scheme \<Rightarrow> 'z mm_state_scheme" where
  "ignore_int s = printk ''Unknown interrupt'' s"

text \<open>The two words of the first four descriptors of \<open>_gdt\<close>; the other 252 are 0.\<close>

definition start_gdt :: "nat \<Rightarrow> gate" where
  "start_gdt i = (if i = 1 then (0x00000fff, 0x00c09a00) else if i = 2 then (0x00000fff, 0x00c09200) else (0, 0))"

text \<open>\<open>rep stosl\<close> upwards, and the loop \<open>stosl; subl $0x1000,%eax; jge 1b\<close> downwards.\<close>

primrec stosl_up :: "nat \<Rightarrow> u32 \<Rightarrow> u32 \<Rightarrow> 'z mm_state_scheme \<Rightarrow> 'z mm_state_scheme" where
  "stosl_up 0 edi eax s = s"
| "stosl_up (Suc ecx) edi eax s = stosl_up ecx (edi + 4) eax (store edi eax s)"

lemma sint_nonneg: "0 \<le> sint (x :: u32) \<longleftrightarrow> unat x < 2 ^ 31"
proof -
  have u: "uint x < 2 ^ 32" "0 \<le> uint x" using unsigned_less[of x, where ?'a = int] by simp_all
  have s: "sint x = (uint x + 2 ^ 31) mod 2 ^ 32 - 2 ^ 31"
    by (simp add: sint_uint signed_take_bit_eq_take_bit_shift take_bit_eq_mod)
  have "0 \<le> sint x \<longleftrightarrow> uint x < 2 ^ 31"
  proof (cases "uint x < 2 ^ 31")
    case True
    then show ?thesis unfolding s using u by simp
  next
    case False
    have a: "uint x + 2 ^ 31 = (uint x - 2 ^ 31) + 2 ^ 32" by simp
    have "(uint x - 2 ^ 31) mod 2 ^ 32 = uint x - 2 ^ 31" using u False by (intro mod_pos_pos_trivial) simp_all
    then have "sint x = uint x - 2 ^ 32" unfolding s a mod_add_self2 by simp
    then show ?thesis using u False by simp
  qed
  moreover have "uint x < 2 ^ 31 \<longleftrightarrow> x < 0x80000000" by (simp add: word_less_def)
  moreover have "unat x < 2 ^ 31 \<longleftrightarrow> x < 0x80000000" by (simp add: word_less_nat_alt)
  ultimately show ?thesis by simp
qed

function fill_tables :: "u32 \<Rightarrow> u32 \<Rightarrow> 'z mm_state_scheme \<Rightarrow> 'z mm_state_scheme" where
  "fill_tables edi eax s =
     (let s = store edi eax s; edi = edi - 4; eax = eax - 0x1000 in if 0 \<le> sint eax then fill_tables edi eax s else s)"
  by pat_completeness auto
termination
proof (relation "measure (\<lambda>(edi, eax, s). unat eax)")
  fix edi eax e x :: u32 and s s' :: "'a mm_state_scheme"
  assume x: "x = eax - 0x1000" "0 \<le> sint x"
  have "unat x < 2 ^ 31" using x(2) by (simp only: sint_nonneg)
  moreover have "unat x = (if 0x1000 \<le> unat eax then unat eax - 0x1000 else unat eax + 2 ^ 32 - 0x1000)"
    using x(1) by (simp add: unat_sub_if_size word_size word_le_nat_alt)
  ultimately have "unat x < unat eax" by (simp split: if_splits)
  then show "((e, x, s'), edi, eax, s) \<in> measure (\<lambda>(edi, eax, s). unat eax)" by simp
qed simp

declare fill_tables.simps [simp del]

definition setup_paging :: "'z mm_state_scheme \<Rightarrow> 'z mm_state_scheme" where
  "setup_paging s =
     (let pg0 = 0x1000; pg1 = 0x2000; pg2 = 0x3000; pg3 = 0x4000;
          s = stosl_up (1024 * 5) 0 0 s;
          s = store 0 (pg0 + 7) s;
          s = store 4 (pg1 + 7) s;
          s = store 8 (pg2 + 7) s;
          s = store 12 (pg3 + 7) s
      in fill_tables (pg3 + 4092) 0xfff007 s)"

subsection \<open>What the page tables map\<close>

lemma load_stosl_up:
  "load (stosl_up n edi v s) b = (if \<exists>k<n. b = edi + 4 * of_nat k then v else load s b)"
proof (induction n arbitrary: edi s)
  case (Suc n)
  have "(\<exists>k<n. b = edi + 4 + 4 * of_nat k) \<or> b = edi \<longleftrightarrow> (\<exists>k<Suc n. b = edi + 4 * of_nat k)"
  proof
    assume "(\<exists>k<n. b = edi + 4 + 4 * of_nat k) \<or> b = edi"
    then consider k where "k < n" "b = edi + 4 * of_nat (Suc k)" | "b = edi + 4 * of_nat 0" by (auto simp: algebra_simps)
    then show "\<exists>k<Suc n. b = edi + 4 * of_nat k" by cases (blast intro: Suc_mono, blast)
  next
    assume "\<exists>k<Suc n. b = edi + 4 * of_nat k"
    then obtain k where "k < Suc n" "b = edi + 4 * of_nat k" by blast
    then show "(\<exists>k<n. b = edi + 4 + 4 * of_nat k) \<or> b = edi" by (cases k) (auto simp: algebra_simps)
  qed
  then show ?case using Suc.IH[of "edi + 4" "store edi v s"] by auto
qed simp

text \<open>The downward loop from the \<open>m\<close>-th entry behind \<open>p\<close> fills the entries \<open>m\<close> to 0.\<close>

lemma fill_tables_step:
  assumes "m < 4095"
  shows "fill_tables (p + 4 * of_nat (Suc m)) (0x1000 * of_nat (Suc m) + 7) s =
    fill_tables (p + 4 * of_nat m) (0x1000 * of_nat m + 7) (store (p + 4 * of_nat (Suc m)) (0x1000 * of_nat (Suc m) + 7) s)"
proof -
  have e: "p + 4 * of_nat (Suc m) - 4 = p + 4 * of_nat m" "0x1000 * of_nat (Suc m) + 7 - 0x1000 = 0x1000 * of_nat m + (7 :: u32)"
    by (simp_all add: algebra_simps)
  have "0x1000 * of_nat m + (7 :: u32) = of_nat (4096 * m + 7)" by simp
  then have "unat (0x1000 * of_nat m + 7 :: u32) = 4096 * m + 7" using assms by (simp only: unat_of_nat) simp
  moreover have "4096 * m + 7 < 2 ^ 31" using assms by simp
  ultimately have "0 \<le> sint (0x1000 * of_nat m + 7 :: u32)" by (simp only: sint_nonneg)
  then show ?thesis by (subst fill_tables.simps) (simp only: Let_def e if_True)
qed

lemma fill_tables_last: "fill_tables p 7 s = store p 7 s"
proof -
  have "\<not> 0 \<le> sint (7 - 0x1000 :: u32)" by simp
  then show ?thesis by (subst fill_tables.simps) (simp only: Let_def if_False)
qed

lemma load_fill_tables:
  assumes "m < 4096"
  shows "\<forall>k\<le>m. b \<noteq> p + 4 * of_nat k \<Longrightarrow> load (fill_tables (p + 4 * of_nat m) (0x1000 * of_nat m + 7) s) b = load s b"
    and "k \<le> m \<Longrightarrow> load (fill_tables (p + 4 * of_nat m) (0x1000 * of_nat m + 7) s) (p + 4 * of_nat k) = 0x1000 * of_nat k + 7"
  using assms
proof (induction m arbitrary: s b)
  case 0
  {
    case 1
    then show ?case by (simp add: fill_tables_last)
  next
    case 2
    then show ?case by (simp add: fill_tables_last)
  }
next
  case (Suc m)
  {
    case 1
    define s1 where "s1 = store (p + 4 * of_nat (Suc m)) (0x1000 * of_nat (Suc m) + 7) s"
    have "b \<noteq> p + 4 * of_nat (Suc m)" using 1(1) by blast
    then have "load s1 b = load s b" by (simp add: s1_def del: of_nat_Suc)
    moreover have "m < 4095" "\<forall>k\<le>m. b \<noteq> p + 4 * of_nat k" using 1 by auto
    ultimately show ?case using Suc.IH(1)[of b s1] fill_tables_step[of m p s] by (simp add: s1_def del: of_nat_Suc)
  next
    case 2
    define s1 where "s1 = store (p + 4 * of_nat (Suc m)) (0x1000 * of_nat (Suc m) + 7) s"
    have m: "m < 4095" using 2(2) by simp
    note step = fill_tables_step[OF m, of p s, folded s1_def]
    show ?case
    proof (cases "k = Suc m")
      case True
      have "p + 4 * of_nat (Suc m) \<noteq> p + 4 * of_nat j" if "j \<le> m" for j
      proof
        assume "p + 4 * of_nat (Suc m) = p + 4 * (of_nat j :: u32)"
        then have e: "of_nat (4 * Suc m) = (of_nat (4 * j) :: u32)" by simp
        have u: "unat (of_nat (4 * i) :: u32) = 4 * i" if "i \<le> 4095" for i using that by (simp only: unat_of_nat) simp
        have "Suc m \<le> 4095" "j \<le> 4095" using that m by simp_all
        then have "4 * Suc m = 4 * j" using arg_cong[where f = unat, OF e] by (simp only: u)
        then show False using that by simp
      qed
      then show ?thesis unfolding step True using Suc.IH(1)[of "p + 4 * of_nat (Suc m)" s1] m by (simp add: s1_def del: of_nat_Suc)
    next
      case False
      then show ?thesis unfolding step using Suc.IH(2)[where s = s1] 2 by simp
    qed
  }
qed

lemma page_word: "a AND 0xfffff000 = 0x1000 * of_nat (unat (drop_bit 12 a))" for a :: u32
proof -
  have "a AND 0xfffff000 = push_bit 12 (drop_bit 12 a)"
    unfolding frame_mask by (rule bit_word_eqI) (auto simp: bit_simps)
  then show ?thesis by (simp add: push_bit_eq_mult)
qed

lemma unat_dir_ptr: "unat (dir_ptr a) = 4 * (unat a div 0x400000)"
proof -
  have d: "unat (drop_bit 22 a) = unat a div 0x400000" by (simp add: drop_bit_eq_div unat_div)
  have "unat a < 2 ^ 32" using unsigned_less[of a, where ?'a = nat] by simp
  then have "unat (4 :: u32) * unat (drop_bit 22 a) < 2 ^ LENGTH(32)" by (simp add: d)
  then show ?thesis using unat_mult_lem[of "4 :: u32" "drop_bit 22 a"] by (simp add: dir_ptr_eq push_bit_eq_mult d mult.commute)
qed

lemma low_directory: "a < 0x1000000 \<longleftrightarrow> dir_ptr a \<in> {0, 4, 8, 12}"
proof -
  have "dir_ptr a \<in> {0, 4, 8, 12} \<longleftrightarrow> unat a div 0x400000 \<in> {0, 1, 2, 3}"
    by (auto simp: word_unat_eq_iff unat_dir_ptr)
  also have "\<dots> \<longleftrightarrow> unat a < 0x1000000" by (auto simp: div_nat_eqI)
  finally show ?thesis by (simp add: word_less_nat_alt)
qed

lemma load_setup_dir:
  "load (setup_paging s) (dir_ptr a) = (if a < 0x1000000 then 0x1007 + 0x400 * dir_ptr a else 0)"
proof -
  have small: "unat (dir_ptr a) < 4096"
    using unsigned_less[of a, where ?'a = nat] by (simp add: unat_dir_ptr less_mult_imp_div_less)
  have nt: "dir_ptr a \<noteq> 0x1000 + 4 * of_nat k" if "k \<le> 4095" for k
  proof
    assume "dir_ptr a = 0x1000 + 4 * of_nat k"
    also have "0x1000 + 4 * of_nat k = (of_nat (0x1000 + 4 * k) :: u32)" by simp
    finally have "unat (dir_ptr a) = 0x1000 + 4 * k" using that by (simp only: unat_of_nat) simp
    then show False using small by simp
  qed
  have "dir_ptr a = 0 + 4 * of_nat (unat a div 0x400000)"
  proof -
    have "dir_ptr a = of_nat (unat (dir_ptr a))" by simp
    then show ?thesis unfolding unat_dir_ptr by simp
  qed
  moreover have "unat a div 0x400000 < 5120"
    using unsigned_less[of a, where ?'a = nat] by (simp add: less_mult_imp_div_less)
  ultimately have z: "\<exists>k<5120. dir_ptr a = 0 + 4 * of_nat k" by blast
  have "load (fill_tables 0x4ffc 0xfff007 t) (dir_ptr a) = load t (dir_ptr a)" for t :: "'a mm_state_scheme"
    using load_fill_tables(1)[of 4095 "dir_ptr a" "0x1000" t] nt by simp
  then have "load (setup_paging s) (dir_ptr a) =
      load (store 12 0x4007 (store 8 0x3007 (store 4 0x2007 (store 0 0x1007 (stosl_up 5120 0 0 s))))) (dir_ptr a)"
    by (simp add: setup_paging_def)
  also have "\<dots> = (if a < 0x1000000 then 0x1007 + 0x400 * dir_ptr a else 0)"
    using z unfolding low_directory load_store load_stosl_up by auto
  finally show ?thesis .
qed

lemma load_setup_entry:
  "m < 4096 \<Longrightarrow> load (setup_paging s) (0x1000 + 4 * of_nat m) = 0x1000 * of_nat m + 7"
  using load_fill_tables(2)[of 4095 m "0x1000"] by (simp add: setup_paging_def)

lemma setup_frame: "a < 0x1000000 \<Longrightarrow> frame (load (setup_paging s) (dir_ptr a)) = 0x1000 + 0x400 * dir_ptr a"
  using low_directory[of a] by (auto simp: load_setup_dir frame_def)

lemma setup_entry_ptr:
  assumes "a < 0x1000000"
  shows "pte_ptr (setup_paging s) a = 0x1000 + 4 * of_nat (unat (drop_bit 12 a))"
proof -
  have "drop_bit 12 a = push_bit 10 (drop_bit 10 (drop_bit 12 a)) + take_bit 10 (drop_bit 12 a)" by (rule bits_ident[symmetric])
  also have "\<dots> = 0x400 * drop_bit 22 a + (drop_bit 12 a AND 0x3ff)"
    by (simp add: push_bit_eq_mult x3ff_mask take_bit_eq_mask)
  finally have e: "drop_bit 12 a = 0x400 * drop_bit 22 a + (drop_bit 12 a AND 0x3ff)" .
  have "0x1000 * d + 4 * m = 4 * x" if "x = 0x400 * d + m" for x d m :: u32 using that by simp
  from this[OF e] show ?thesis unfolding pte_ptr_def setup_frame[OF assms]
    by (simp add: slot_def dir_ptr_eq push_bit_eq_mult mult.commute)
qed

text \<open>C21. The start of paging. Whatever memory held, \<open>setup_paging\<close> leaves a well-formed page directory that maps every linear address below
  16 MB to itself, present, writable and accessible from user mode, and no other address.\<close>

theorem setup_paging_identity:
  "tables_wf (setup_paging s) \<and>
   walk (setup_paging s) = (\<lambda>a. if a < 0x1000000 then Some ((a AND 0xfffff000) OR 7) else None)"
proof
  have p: "present (load (setup_paging s) (dir_ptr a)) \<longleftrightarrow> a < 0x1000000" for a
    using low_directory[of a] by (auto simp: load_setup_dir present_def)
  have "frame (load (setup_paging s) (dir_ptr a)) < LOW_MEM \<and> frame (load (setup_paging s) (dir_ptr a)) \<noteq> 0" if "a < 0x1000000" for a
    using that low_directory[of a] by (auto simp: setup_frame)
  moreover have "dir_ptr a = dir_ptr b" if "a < 0x1000000" "b < 0x1000000" "0x400 * dir_ptr a = 0x400 * dir_ptr b" for a b
    using that low_directory[of a] low_directory[of b] by auto
  ultimately show "tables_wf (setup_paging s)"
    unfolding tables_wf_def p by (fastforce simp: setup_frame)
  show "walk (setup_paging s) = (\<lambda>a. if a < 0x1000000 then Some ((a AND 0xfffff000) OR 7) else None)"
  proof
    fix a
    have "load (setup_paging s) (pte_ptr (setup_paging s) a) = (a AND 0xfffff000) OR 7" if "a < 0x1000000"
    proof -
      have "unat (drop_bit 12 a) < 4096" using that by (simp add: drop_bit_eq_div unat_div word_less_nat_alt less_mult_imp_div_less)
      then have "load (setup_paging s) (pte_ptr (setup_paging s) a) = (a AND 0xfffff000) + 7"
        unfolding setup_entry_ptr[OF that] page_word by (rule load_setup_entry)
      also have "\<dots> = (a AND 0xfffff000) OR 7"
        unfolding frame_mask seven_mask by (rule disjunctive_add_eq_or) (auto simp: bit_eq_iff bit_simps)
      finally show ?thesis .
    qed
    then show "walk (setup_paging s) a = (if a < 0x1000000 then Some ((a AND 0xfffff000) OR 7) else None)"
      by (simp add: walk_def p)
  qed
qed

end
