(* ===== verification/Kernel_Entry.thy ===== *)
theory Kernel_Entry
  imports Kernel_Traps Kernel_Syscall Syscall_Laws Mm_Demand
begin

text \<open>
  The entry points of the exceptions: src/kernel/asm.s, src/mm/page.s and the rest of src/kernel/system_call.s. Each saves the registers, calls its
  routine and restores them; the routines of \<open>system_call.s\<close> return through \<open>ret_from_sys_call\<close>. \<open>em\<close> is the emulation bit of
  the control register, \<open>error_code\<close> and \<open>cr2\<close> are what the processor reports for a page fault. The other error codes are only printed.
\<close>

definition page_fault :: "u32 \<Rightarrow> u32 \<Rightarrow> (unit, 'z fs_state_scheme) proc" where
  "page_fault error_code cr2 =
     (if error_code AND 1 = 0 then do_no_page error_code cr2 else liftp (do_wp_page error_code cr2))"

definition coprocessor_error :: "u32 \<Rightarrow> fork_regs \<Rightarrow> (u32 \<times> fork_regs, 'z tty_state_scheme) proc" where
  "coprocessor_error eax r = seqp (modp math_error) (ret_from_sys_call eax r)"

definition device_not_available :: "bool \<Rightarrow> u32 \<Rightarrow> fork_regs \<Rightarrow> (u32 \<times> fork_regs, 'z tty_state_scheme) proc" where
  "device_not_available em eax r =
     (if em then bindp (liftp (math_emulate r)) (ret_from_sys_call eax)
      else seqp (modp math_state_restore) (ret_from_sys_call eax r))"

definition irq13 :: "u32 \<Rightarrow> fork_regs \<Rightarrow> (u32 \<times> fork_regs, 'z tty_state_scheme) proc" where
  "irq13 eax r = seqp (modp (\<lambda>s. outb 0x20 0xA0 (outb 0x20 0x20 (outb 0 0xF0 s)))) (coprocessor_error eax r)"

definition parallel_interrupt :: "'z sched_state_scheme \<Rightarrow> 'z sched_state_scheme" where
  "parallel_interrupt s = outb 0x20 0x20 s"

text \<open>\<open>no_error_code\<close> and \<open>error_code\<close>: the routine is called and the interrupted program goes on with its registers.\<close>

definition run_handler :: "u32 \<Rightarrow> fork_regs \<Rightarrow> (unit, 's) proc \<Rightarrow> (u32 \<times> fork_regs, 's) proc" where
  "run_handler eax r h = seqp h (retp (eax, r))"

definition exception ::
    "bool \<Rightarrow> trap_entry \<Rightarrow> u32 \<Rightarrow> u32 \<Rightarrow> u32 \<Rightarrow> fork_regs \<Rightarrow> (u32 \<times> fork_regs, 'z tty_state_scheme) proc" where
  "exception em e error_code cr2 eax r = (case e of
     Divide_Error \<Rightarrow> run_handler eax r (do_divide_error r)
   | Debug \<Rightarrow> run_handler eax r do_int3
   | Nmi \<Rightarrow> run_handler eax r (do_nmi r)
   | Int3 \<Rightarrow> run_handler eax r do_int3
   | Overflow \<Rightarrow> run_handler eax r (do_overflow r)
   | Bounds \<Rightarrow> run_handler eax r (do_bounds r)
   | Invalid_Op \<Rightarrow> run_handler eax r (do_invalid_op r)
   | Device_Not_Available \<Rightarrow> device_not_available em eax r
   | Double_Fault \<Rightarrow> run_handler eax r (do_double_fault r)
   | Coprocessor_Segment_Overrun \<Rightarrow> run_handler eax r (do_coprocessor_segment_overrun r)
   | Invalid_TSS \<Rightarrow> run_handler eax r (do_invalid_TSS r)
   | Segment_Not_Present \<Rightarrow> run_handler eax r (do_segment_not_present r)
   | Stack_Segment \<Rightarrow> run_handler eax r (do_stack_segment r)
   | General_Protection \<Rightarrow> run_handler eax r (do_general_protection r)
   | Page_Fault \<Rightarrow> run_handler eax r (page_fault error_code cr2)
   | Reserved \<Rightarrow> run_handler eax r (do_reserved r)
   | Coprocessor_Error \<Rightarrow> coprocessor_error eax r
   | Irq13 \<Rightarrow> irq13 eax r
   | Parallel_Interrupt \<Rightarrow> run_handler eax r (modp parallel_interrupt))"

text \<open>The exceptions a program does not survive.\<close>

definition fatal :: "trap_entry \<Rightarrow> bool" where
  "fatal e \<longleftrightarrow> e \<in> {Divide_Error, Nmi, Overflow, Bounds, Invalid_Op, Double_Fault, Coprocessor_Segment_Overrun, Invalid_TSS,
     Segment_Not_Present, Stack_Segment, General_Protection, Reserved}"

lemma die_exits: "\<exists>ms. die str r w s = bindp (do_exit 11) (\<lambda>_. retp ()) w (s\<lparr>klog := ms\<rparr>)"
  by (auto simp: die_def seqp_step modp_def printk_def retp_def)

lemma fatal_exits:
  assumes "fatal e"
  shows "\<exists>ms. exception em e error_code cr2 eax r w s = bindp (do_exit 11) (\<lambda>_. retp (eax, r)) w (s\<lparr>klog := ms\<rparr>)"
proof -
  obtain str where "exception em e error_code cr2 eax r = (run_handler eax r (die str r) :: (u32 \<times> fork_regs, 'a tty_state_scheme) proc)"
    using assms unfolding exception_def fatal_def
    by (auto simp: do_divide_error_def do_nmi_def do_overflow_def do_bounds_def do_invalid_op_def do_double_fault_def
        do_coprocessor_segment_overrun_def do_invalid_TSS_def do_segment_not_present_def do_stack_segment_def do_general_protection_def do_reserved_def)
  moreover obtain ms where "die str r w s = bindp (do_exit 11) (\<lambda>_. retp ()) w (s\<lparr>klog := ms\<rparr>)" using die_exits by blast
  ultimately show ?thesis
    by (intro exI[of _ ms]) (simp add: run_handler_def seqp_step bindp_def retp_def bindk_assoc case_prod_unfold)
qed

text \<open>C35. A fatal exception ends the task. Apart from the messages it prints, its entry point runs \<open>do_exit(11)\<close>, whatever the state and the registers are,
  and does not return to the program that caused it: once the resources are released, the task is a zombie with that exit code or has left
  the table. Task 0, to which the scheduler always comes back, is left out.\<close>

theorem fatal_exception_kills:
  fixes s :: "'z tty_state_scheme"
  assumes "fatal e" "current s \<noteq> 0" "drivers_stay w" "stays_exited (current s) 11 w"
  shows "\<exists>ms. exception em e error_code cr2 eax r w s = bindp (do_exit 11) (\<lambda>_. retp (eax, r)) w (s\<lparr>klog := ms\<rparr>) \<and>
    \<not> is_Ok (exception em e error_code cr2 eax r w s) \<and>
    (is_Ok (release_resources w (s\<lparr>klog := ms\<rparr>)) \<longrightarrow> exited (current s) 11 (kstate (exception em e error_code cr2 eax r w s)))"
proof -
  obtain ms where e: "exception em e error_code cr2 eax r w s = bindp (do_exit 11) (\<lambda>_. retp (eax, r)) w (s\<lparr>klog := ms\<rparr>)"
    using fatal_exits[OF assms(1)] by blast
  let ?s = "s\<lparr>klog := ms\<rparr>"
  have "\<not> is_Ok (do_exit 11 w ?s)" "is_Ok (release_resources w ?s) \<longrightarrow> exited (current s) 11 (kstate (do_exit 11 w ?s))"
    using do_exit_exited[of ?s w 11] assms(2-4) by simp_all
  then show ?thesis using e by (intro exI[of _ ms]) (cases "do_exit 11 w ?s"; simp add: bindp_def)
qed

subsection \<open>Demand-zero pages\<close>

lemma in_page_user: "aligned12 p \<Longrightarrow> (p + (a AND 0xffc)) AND 0xfffff000 = p"
  using in_page_off[of p p a] by (simp add: in_page_def)

text \<open>\<open>put_page\<close> leaves the contents of user pages alone.\<close>

lemma put_page_contents:
  assumes wf: "tables_wf s" and r: "put_page page address s = Ok r s'" and p: "aligned12 p" "user_page s p"
  shows "load s' (p + (a AND 0xffc)) = load s (p + (a AND 0xffc))"
proof -
  define s0 where "s0 = (if page < LOW_MEM \<or> page \<ge> HIGH_MEMORY s then printk ''Trying to put page %p at %p'' s else s)"
  define s1 where "s1 = (if mem_map s0 (MAP_NR page) \<noteq> 1 then printk ''mem_map disagrees with %p at %p'' s0 else s0)"
  have eq: "load s1 = load s" "mem_map s1 = mem_map s" by (simp_all add: s1_def s0_def)
  let ?b = "p + (a AND 0xffc)"
  have nd: "?b \<noteq> dir_ptr c" for c
    using in_page_user[OF p(1), of a] dir_ptr_page0[of c] p(2) unfolding user_page_def by metis
  have nt: "?b \<noteq> q + slot c" if "aligned12 q" "q \<noteq> p" for q c
    using in_page_user[OF p(1), of a] frame_plus_slot[OF that(1), of c] that(2) by metis
  show ?thesis
  proof (cases "present (load s (dir_ptr address))")
    case True
    then have "frame (load s (dir_ptr address)) \<noteq> p" using p(2) by (simp add: user_page_def)
    then show ?thesis using r True nt[of "frame (load s (dir_ptr address))" address]
      by (auto simp: put_page_def s0_def[symmetric] s1_def[symmetric] Let_def eq slot_def split: if_splits)
  next
    case False
    show ?thesis
    proof (cases rule: get_free_page_cases[of s1])
      case full
      then have "s' = s1" using r False
        by (auto simp: put_page_def s0_def[symmetric] s1_def[symmetric] Let_def eq split: if_splits)
      then show ?thesis by (simp only: eq)
    next
      case (page i)
      have "page_addr i \<noteq> p" using page(1,2) p(2) page_addr_ge[OF page(1)] by (auto simp: user_page_def eq)
      then show ?thesis using r False nt[OF page_addr_aligned, of i address] nd[of address] page_addr_nz[OF page(1)] in_page_off[OF p(1), of "page_addr i" a]
        by (auto simp: put_page_def s0_def[symmetric] s1_def[symmetric] Let_def eq page(4) slot_def split: if_splits)
    qed
  qed
qed

lemma read_lin_user:
  assumes "walk s' a = walk s a" "\<And>e. walk s a = Some e \<Longrightarrow> load s' (frame e + (a AND 0xffc)) = load s (frame e + (a AND 0xffc))"
  shows "read_lin s' a = read_lin s a"
  using assms by (cases "walk s a") (simp_all add: read_lin_def)

lemma put_page_result:
  assumes "tables_wf s" and "MAP_NR page < PAGING_PAGES"
  shows "\<exists>r s'. put_page page address s = Ok r s' \<and>
    (if present (load s (dir_ptr address)) \<or> (\<exists>i<PAGING_PAGES. mem_map s i = 0)
     then r = page \<and> tables_wf s' \<and>
       (\<forall>a. walk s' a = (if drop_bit 12 a = drop_bit 12 address then Some (page OR 7) else walk s a))
     else r = 0 \<and> walk s' = walk s \<and> mem_map s' = mem_map s \<and> HIGH_MEMORY s' = HIGH_MEMORY s)"
proof -
  define s0 where "s0 = (if page < LOW_MEM \<or> page \<ge> HIGH_MEMORY s then printk ''Trying to put page %p at %p'' s else s)"
  define s1 where "s1 = (if mem_map s0 (MAP_NR page) \<noteq> 1 then printk ''mem_map disagrees with %p at %p'' s0 else s0)"
  have eq: "load s1 = load s" "mem_map s1 = mem_map s" "walk s1 = walk s" "HIGH_MEMORY s1 = HIGH_MEMORY s" and wf: "tables_wf s1" 
    using assms(1) by (simp_all add: s1_def s0_def)
  consider (mapped) s' where "put_page page address s = Ok page s'" "tables_wf s'"
      "present (load s (dir_ptr address)) \<or> (\<exists>i<PAGING_PAGES. mem_map s i = 0)"
      "walk s' = (\<lambda>a. if drop_bit 12 a = drop_bit 12 address then Some (page OR 7) else walk s a)"
    | (full) "put_page page address s = Ok 0 s1" "\<not> present (load s (dir_ptr address))" "\<forall>i<PAGING_PAGES. mem_map s i \<noteq> 0"
    using put_page_core[OF wf refl, of address page] assms(2)
    unfolding put_page_def s0_def[symmetric] Let_def s1_def[symmetric] eq by auto
  then show ?thesis
    by cases (auto simp: eq)
qed

text \<open>A fresh page in place of a missing one: the only outcomes are that the page reads as zeros and every user page mapped elsewhere as before,
  or that memory is out.\<close>

lemma get_empty_page_zeros:
  assumes wf: "tables_wf s" and free: "\<And>i. i < PAGING_PAGES \<Longrightarrow> mem_map s i = 0 \<Longrightarrow> page_addr i < HIGH_MEMORY s"
  shows "case get_empty_page address s of
      Ok _ s' \<Rightarrow> tables_wf s' \<and> (\<forall>a. drop_bit 12 a = drop_bit 12 address \<longrightarrow> read_lin s' a = Some 0) \<and>
        (\<forall>a e. drop_bit 12 a \<noteq> drop_bit 12 address \<longrightarrow> walk s a = Some e \<longrightarrow> user_page s (frame e) \<longrightarrow> read_lin s' a = read_lin s a)
    | Exit c s' \<Rightarrow> c = SIGSEGV \<and> walk s' = walk s
    | _ \<Rightarrow> False"
proof (cases rule: get_free_page_cases[of s])
  case full
  have "LOW_MEM > (0 :: u32)" by simp
  then show ?thesis using full by (simp add: get_empty_page_def free_page_def oom_def)
next
  case (page i)
  define p where "p = page_addr i"
  define s1 where "s1 = s\<lparr>mem_map := (mem_map s)(i := 1), phys := stosl_page p 0 (phys s)\<rparr>"
  note pa = page_addr_nz[OF page(1), folded p_def] page_addr_aligned[of i, folded p_def] page_addr_ge[OF page(1), folded p_def]
  have ld: "load s1 b = (if in_page p b then 0 else load s b)" for b by (simp add: s1_def)
  have dir: "load s1 (dir_ptr c) = load s (dir_ptr c)" for c using in_page_dir[OF pa(1)] by (simp add: ld)
  have nt: "frame (load s (dir_ptr c)) \<noteq> p" if "present (load s (dir_ptr c))" for c
    using fresh_not_table[OF wf page(1,2) that] by (simp add: p_def)
  have wk: "walk s1 = walk s"
  proof
    fix c
    have "load s1 (pte_ptr s c) = load s (pte_ptr s c)" if "present (load s (dir_ptr c))"
      using nt[OF that] in_page_slot[of "frame (load s (dir_ptr c))" p c] unfolding ld pte_ptr_def by simp
    moreover have "pte_ptr s1 c = pte_ptr s c" by (simp only: pte_ptr_def dir)
    ultimately show "walk s1 c = walk s c" by (auto simp only: walk_def dir split: if_splits)
  qed
  have wf1: "tables_wf s1" using wf unfolding tables_wf_def dir by (auto simp: s1_def)
  have mp: "MAP_NR p = i" "MAP_NR p < PAGING_PAGES" using page(1) by (simp_all add: p_def MAP_NR_page_addr)
  have g: "get_free_page s = (p, s1)" using page(4) by (simp add: p_def s1_def)
  have up: "user_page s1 p" using nt pa(1) mp page(1) by (auto simp: user_page_def dir) (auto simp: s1_def)
  obtain r s' where put: "put_page p address s1 = Ok r s'"
    "if present (load s1 (dir_ptr address)) \<or> (\<exists>i<PAGING_PAGES. mem_map s1 i = 0)
     then r = p \<and> tables_wf s' \<and> (\<forall>a. walk s' a = (if drop_bit 12 a = drop_bit 12 address then Some (p OR 7) else walk s1 a))
     else r = 0 \<and> walk s' = walk s1 \<and> mem_map s' = mem_map s1 \<and> HIGH_MEMORY s' = HIGH_MEMORY s1"
    using put_page_result[OF wf1 mp(2), of address] by blast
  have e: "get_empty_page address s = (if r = 0 then bindk (free_page p s') (\<lambda>_ s. oom s) else Ok () s')"
    using pa(1) by (simp add: get_empty_page_def g put(1))
  show ?thesis
  proof (cases "r = 0")
    case True
    then have s': "walk s' = walk s" "mem_map s' = mem_map s1" "HIGH_MEMORY s' = HIGH_MEMORY s" using put(2) pa(1) wk
      by (auto simp: s1_def split: if_splits)
    have "\<not> p < LOW_MEM" "\<not> p \<ge> HIGH_MEMORY s'" "mem_map s' i \<noteq> 0" using pa(3) free[OF page(1,2)] s'(2,3) by (auto simp: p_def s1_def not_le not_less)
    then have "get_empty_page address s = oom (s'\<lparr>mem_map := (mem_map s')(i := mem_map s' i - 1)\<rparr>)"
      using e True mp page(1) by (simp add: free_page_def)
    moreover have "walk (s'\<lparr>mem_map := m\<rparr>) = walk s'" for m by (simp add: walk_def pte_ptr_def load_def fun_eq_iff)
    ultimately show ?thesis using s'(1) by (simp add: oom_def)
  next
    case False
    then have s': "tables_wf s'" "\<And>a. walk s' a = (if drop_bit 12 a = drop_bit 12 address then Some (p OR 7) else walk s a)" "r \<noteq> 0"
      using put(2) wk by (auto split: if_splits)
    have z: "read_lin s' a = Some 0" if "drop_bit 12 a = drop_bit 12 address" for a
      using put_page_contents[OF wf1 put(1) pa(2) up, of a] that s'(2)[of a] pa(2) in_page_off[OF pa(2), of p a] by (simp add: read_lin_def ld)
    have "read_lin s' a = read_lin s a" if "drop_bit 12 a \<noteq> drop_bit 12 address" "walk s a = Some x" "user_page s (frame x)" for a x
    proof (rule read_lin_user)
      show "walk s' a = walk s a" using s'(2)[of a] that(1) by simp
      fix y assume "walk s a = Some y"
      then have y: "y = x" using that(2) by simp
      have ne: "frame x \<noteq> p" using that(3) page(1,2) pa(3) mp by (auto simp: user_page_def)
      have "user_page s1 (frame x)" using that(3) by (auto simp: user_page_def dir) (auto simp: s1_def split: if_splits)
      then have "load s' (frame x + (a AND 0xffc)) = load s1 (frame x + (a AND 0xffc))"
        by (rule put_page_contents[OF wf1 put(1) aligned_frame])
      then show "load s' (frame y + (a AND 0xffc)) = load s (frame y + (a AND 0xffc))"
        using ne in_page_off[OF aligned_frame, of p x a] y by (simp add: ld)
    qed
    then show ?thesis using e False s'(1) z by auto
  qed
qed

text \<open>C11. Demand-zero pages. When a page is missing and the task has no executable or the address lies behind its data, the page fault gives it a page
  that reads as zeros (nothing of its former owner shows), every user page mapped elsewhere reads as before and the directory
  stays well-formed; or memory is out, the task ends with \<open>SIGSEGV\<close> and no translation has changed.\<close>

theorem page_fault_zero_page:
  assumes "tables_wf s" "\<And>i. i < PAGING_PAGES \<Longrightarrow> mem_map s i = 0 \<Longrightarrow> page_addr i < HIGH_MEMORY s"
    and "error_code AND 1 = 0" "executable (cur s) = None \<or> end_data (cur s) \<le> (cr2 AND 0xfffff000) - start_code (cur s)"
  shows "case page_fault error_code cr2 w s of
      Ok _ s' \<Rightarrow> tables_wf s' \<and> (\<forall>a. drop_bit 12 a = drop_bit 12 cr2 \<longrightarrow> read_lin s' a = Some 0) \<and>
        (\<forall>a e. drop_bit 12 a \<noteq> drop_bit 12 cr2 \<longrightarrow> walk s a = Some e \<longrightarrow> user_page s (frame e) \<longrightarrow> read_lin s' a = read_lin s a)
    | Exit c s' \<Rightarrow> c = SIGSEGV \<and> walk s' = walk s
    | _ \<Rightarrow> False"
proof -
  have d: "drop_bit 12 (cr2 AND 0xfffff000) = drop_bit 12 cr2" using drop12_frame[of cr2] by (simp add: frame_def and.commute)
  have "page_fault error_code cr2 w s = liftp (get_empty_page (cr2 AND 0xfffff000)) w s"
    using assms(3,4) by (auto simp: page_fault_def do_no_page_def bindp_def getp_def Let_def not_le split: option.split)
  then show ?thesis using get_empty_page_zeros[OF assms(1,2), of "cr2 AND 0xfffff000", unfolded d]
    by (cases "get_empty_page (cr2 AND 0xfffff000) s") (simp_all add: liftp_def)
qed

definition demo_pages :: fs_state where
  "demo_pages = demo_fs\<lparr>mem_map := mem_map demo_mm, phys := phys demo_mm, HIGH_MEMORY := 0x1000000, task := [0 \<mapsto> INIT_TASK 0], current := 0\<rparr>"

theorem page_fault_zero_page_witness:
  "case page_fault 4 0x3123 demo_world demo_pages of
      Ok _ s' \<Rightarrow> read_lin s' 0x3ffc = Some 0 \<and> read_lin s' 0x1000 = read_lin demo_pages 0x1000
    | Exit c s' \<Rightarrow> c = SIGSEGV
    | _ \<Rightarrow> False"
proof -
  have l: "load demo_pages = load demo_mm" "mem_map demo_pages = mem_map demo_mm" "walk demo_pages = walk demo_mm"
    by (simp_all add: demo_pages_def load_def walk_def pte_ptr_def fun_eq_iff)
  have "tables_wf demo_pages" using demo_mm_wf by (simp add: tables_wf_def l)
  moreover have "page_addr i < HIGH_MEMORY demo_pages" if "i < PAGING_PAGES" for i using page_addr_lt[OF that] by (simp add: demo_pages_def)
  moreover have "executable (cur demo_pages) = None" by (simp add: demo_pages_def cur_def INIT_TASK_def)
  moreover have "walk demo_mm 0x1000 = Some 0x101005"
    by (simp add: walk_def pte_ptr_def demo_mm_dir dir_ptr_def present_def frame_def slot_def load_def) (simp add: demo_mm_def)
  moreover have "user_page demo_pages (frame 0x101005)"
    unfolding user_page_def l demo_mm_dir by (simp add: frame_def MAP_NR_def present_def) (simp add: demo_mm_def)
  ultimately show ?thesis using page_fault_zero_page[of demo_pages 4 "0x3123" demo_world]
    by (cases "page_fault 4 0x3123 demo_world demo_pages") (auto simp: l)
qed

theorem fatal_exception_kills_witness:
  "exited 3 11 (kstate (exception False General_Protection 0 0 0 \<lparr>r_ebp = 0, r_edi = 0, r_esi = 0, r_gs = 0, r_ebx = 0, r_ecx = 0, r_edx = 0, r_fs = 0, r_es = 0,
      r_ds = 0, r_eip = 0, r_cs = 0x0f, r_eflags = 0, r_esp = 0, r_ss = 0x17\<rparr> \<lparr>request_fn = (\<lambda>_. None), events = [], fuel = 5\<rparr> demo_child))"
proof -
  let ?w = "\<lparr>request_fn = (\<lambda>_. None), events = [], fuel = 5\<rparr> :: tty_state world"
  have h: "fatal General_Protection" "current demo_child = 3" "(3 :: nat) \<noteq> 0" "drivers_stay ?w" "stays_exited 3 11 ?w"
    by (simp_all add: fatal_def demo_child_simps drivers_stay_def stays_exited_def)
  have "is_Ok (release_resources ?w (demo_child\<lparr>klog := ms\<rparr>))" for ms
    by (subst demo_child_releases[of _ 0]) (simp_all add: demo_child_simps fun_eq_iff INIT_TASK_def)
  then show ?thesis using fatal_exception_kills[of General_Protection demo_child ?w, unfolded h(2), OF h(1,3,4,5)] by blast
qed

end
