(* ===== verification/Lib_Macros.thy ===== *)
theory Lib_Macros
  imports Chr_Tty
begin

text \<open>
  Macros for user programs: the character classes of src/include/ctype.h, which index the table of lib/ctype.c with a character or with
  \<open>EOF\<close> (-1), and those of src/include/sys/wait.h that take the status \<open>wait\<close> stores apart. \<open>WIFEXITED\<close> lacks a
  parenthesis and expands to no expression.
\<close>

subsection \<open>Character classes\<close>

definition char_class :: "int \<Rightarrow> u8" where "char_class c = ctype_table ! nat (c + 1)"

definition isalnum :: "int \<Rightarrow> bool" where "isalnum c \<longleftrightarrow> char_class c AND (0x01 OR 0x02 OR 0x04) \<noteq> 0"
definition isalpha :: "int \<Rightarrow> bool" where "isalpha c \<longleftrightarrow> char_class c AND (0x01 OR 0x02) \<noteq> 0"
definition iscntrl :: "int \<Rightarrow> bool" where "iscntrl c \<longleftrightarrow> char_class c AND 0x08 \<noteq> 0"
definition isdigit :: "int \<Rightarrow> bool" where "isdigit c \<longleftrightarrow> char_class c AND 0x04 \<noteq> 0"
definition isgraph :: "int \<Rightarrow> bool" where "isgraph c \<longleftrightarrow> char_class c AND (0x10 OR 0x01 OR 0x02 OR 0x04) \<noteq> 0"
definition islower :: "int \<Rightarrow> bool" where "islower c \<longleftrightarrow> char_class c AND 0x02 \<noteq> 0"
definition isprint :: "int \<Rightarrow> bool" where "isprint c \<longleftrightarrow> char_class c AND (0x10 OR 0x01 OR 0x02 OR 0x04 OR 0x80) \<noteq> 0"
definition ispunct :: "int \<Rightarrow> bool" where "ispunct c \<longleftrightarrow> char_class c AND 0x10 \<noteq> 0"
definition isspace :: "int \<Rightarrow> bool" where "isspace c \<longleftrightarrow> char_class c AND 0x20 \<noteq> 0"
definition isupper :: "int \<Rightarrow> bool" where "isupper c \<longleftrightarrow> char_class c AND 0x01 \<noteq> 0"
definition isxdigit :: "int \<Rightarrow> bool" where "isxdigit c \<longleftrightarrow> char_class c AND (0x04 OR 0x40) \<noteq> 0"
definition isascii :: "u32 \<Rightarrow> bool" where "isascii c \<longleftrightarrow> c \<le> 0x7f"
definition toascii :: "u32 \<Rightarrow> u32" where "toascii c = c AND 0x7f"

text \<open>The classes of the C locale, in terms of the codes.\<close>

definition class_spec :: "int \<Rightarrow> bool" where
  "class_spec c \<longleftrightarrow>
     (isupper c \<longleftrightarrow> 65 \<le> c \<and> c \<le> 90) \<and> (islower c \<longleftrightarrow> 97 \<le> c \<and> c \<le> 122) \<and> (isdigit c \<longleftrightarrow> 48 \<le> c \<and> c \<le> 57) \<and>
     (isalpha c \<longleftrightarrow> isupper c \<or> islower c) \<and> (isalnum c \<longleftrightarrow> isalpha c \<or> isdigit c) \<and>
     (isxdigit c \<longleftrightarrow> isdigit c \<or> 65 \<le> c \<and> c \<le> 70 \<or> 97 \<le> c \<and> c \<le> 102) \<and>
     (isspace c \<longleftrightarrow> 9 \<le> c \<and> c \<le> 13 \<or> c = 32) \<and> (iscntrl c \<longleftrightarrow> 0 \<le> c \<and> c \<le> 31 \<or> c = 127) \<and>
     (isprint c \<longleftrightarrow> 32 \<le> c \<and> c \<le> 126) \<and> (isgraph c \<longleftrightarrow> 33 \<le> c \<and> c \<le> 126) \<and>
     (ispunct c \<longleftrightarrow> isgraph c \<and> \<not> isalnum c)"

lemma nth_run: "0 \<le> k \<Longrightarrow> (replicate n x @ ys) ! nat k = (if k < int n then x else ys ! nat (k - int n))"
  by (simp add: nth_append nat_less_iff nat_diff_distrib')

lemma nth_one: "0 \<le> k \<Longrightarrow> (x # ys) ! nat k = (if k = 0 then x else ys ! nat (k - 1))"
  by (cases "k = 0") (simp_all add: nth_Cons' nat_diff_distrib')

lemma nth_last: "0 \<le> k \<Longrightarrow> k < int n \<Longrightarrow> replicate n x ! nat k = x" by (simp add: nat_less_iff)

lemma char_class_at:
  "- 1 \<le> c \<Longrightarrow> c < 0 \<Longrightarrow> char_class c = 0"
  "0 \<le> c \<Longrightarrow> c < 9 \<Longrightarrow> char_class c = 0x08"
  "9 \<le> c \<Longrightarrow> c < 14 \<Longrightarrow> char_class c = 0x28"
  "14 \<le> c \<Longrightarrow> c < 32 \<Longrightarrow> char_class c = 0x08"
  "32 \<le> c \<Longrightarrow> c < 33 \<Longrightarrow> char_class c = 0xa0"
  "33 \<le> c \<Longrightarrow> c < 48 \<Longrightarrow> char_class c = 0x10"
  "48 \<le> c \<Longrightarrow> c < 58 \<Longrightarrow> char_class c = 0x04"
  "58 \<le> c \<Longrightarrow> c < 65 \<Longrightarrow> char_class c = 0x10"
  "65 \<le> c \<Longrightarrow> c < 71 \<Longrightarrow> char_class c = 0x41"
  "71 \<le> c \<Longrightarrow> c < 91 \<Longrightarrow> char_class c = 0x01"
  "91 \<le> c \<Longrightarrow> c < 97 \<Longrightarrow> char_class c = 0x10"
  "97 \<le> c \<Longrightarrow> c < 103 \<Longrightarrow> char_class c = 0x42"
  "103 \<le> c \<Longrightarrow> c < 123 \<Longrightarrow> char_class c = 0x02"
  "123 \<le> c \<Longrightarrow> c < 127 \<Longrightarrow> char_class c = 0x10"
  "127 \<le> c \<Longrightarrow> c < 128 \<Longrightarrow> char_class c = 0x08"
  "128 \<le> c \<Longrightarrow> c < 256 \<Longrightarrow> char_class c = 0"
  by (simp_all add: char_class_def ctype_table_def nth_run nth_one nth_last del: nth_Cons_pos)

lemma class_spec_value:
  "char_class c = v \<Longrightarrow> class_spec c \<longleftrightarrow>
     (v AND 0x01 \<noteq> 0 \<longleftrightarrow> 65 \<le> c \<and> c \<le> 90) \<and> (v AND 0x02 \<noteq> 0 \<longleftrightarrow> 97 \<le> c \<and> c \<le> 122) \<and>
     (v AND 0x04 \<noteq> 0 \<longleftrightarrow> 48 \<le> c \<and> c \<le> 57) \<and>
     (v AND 0x03 \<noteq> 0 \<longleftrightarrow> v AND 0x01 \<noteq> 0 \<or> v AND 0x02 \<noteq> 0) \<and> (v AND 0x07 \<noteq> 0 \<longleftrightarrow> v AND 0x03 \<noteq> 0 \<or> v AND 0x04 \<noteq> 0) \<and>
     (v AND 0x44 \<noteq> 0 \<longleftrightarrow> v AND 0x04 \<noteq> 0 \<or> 65 \<le> c \<and> c \<le> 70 \<or> 97 \<le> c \<and> c \<le> 102) \<and>
     (v AND 0x20 \<noteq> 0 \<longleftrightarrow> 9 \<le> c \<and> c \<le> 13 \<or> c = 32) \<and> (v AND 0x08 \<noteq> 0 \<longleftrightarrow> 0 \<le> c \<and> c \<le> 31 \<or> c = 127) \<and>
     (v AND 0x97 \<noteq> 0 \<longleftrightarrow> 32 \<le> c \<and> c \<le> 126) \<and> (v AND 0x17 \<noteq> 0 \<longleftrightarrow> 33 \<le> c \<and> c \<le> 126) \<and>
     (v AND 0x10 \<noteq> 0 \<longleftrightarrow> v AND 0x17 \<noteq> 0 \<and> v AND 0x07 = 0)"
  by (simp add: class_spec_def isalnum_def isalpha_def iscntrl_def isdigit_def isgraph_def islower_def isprint_def ispunct_def isspace_def
      isupper_def isxdigit_def)

lemma class_spec_at:
  "- 1 \<le> c \<Longrightarrow> c < 0 \<Longrightarrow> class_spec c"
  "0 \<le> c \<Longrightarrow> c < 9 \<Longrightarrow> class_spec c"
  "9 \<le> c \<Longrightarrow> c < 14 \<Longrightarrow> class_spec c"
  "14 \<le> c \<Longrightarrow> c < 32 \<Longrightarrow> class_spec c"
  "32 \<le> c \<Longrightarrow> c < 33 \<Longrightarrow> class_spec c"
  "33 \<le> c \<Longrightarrow> c < 48 \<Longrightarrow> class_spec c"
  "48 \<le> c \<Longrightarrow> c < 58 \<Longrightarrow> class_spec c"
  "58 \<le> c \<Longrightarrow> c < 65 \<Longrightarrow> class_spec c"
  "65 \<le> c \<Longrightarrow> c < 71 \<Longrightarrow> class_spec c"
  "71 \<le> c \<Longrightarrow> c < 91 \<Longrightarrow> class_spec c"
  "91 \<le> c \<Longrightarrow> c < 97 \<Longrightarrow> class_spec c"
  "97 \<le> c \<Longrightarrow> c < 103 \<Longrightarrow> class_spec c"
  "103 \<le> c \<Longrightarrow> c < 123 \<Longrightarrow> class_spec c"
  "123 \<le> c \<Longrightarrow> c < 127 \<Longrightarrow> class_spec c"
  "127 \<le> c \<Longrightarrow> c < 128 \<Longrightarrow> class_spec c"
  "128 \<le> c \<Longrightarrow> c < 256 \<Longrightarrow> class_spec c"
  by (simp_all add: class_spec_value [OF char_class_at(1)] class_spec_value [OF char_class_at(2)] class_spec_value [OF char_class_at(3)] class_spec_value [OF char_class_at(4)] class_spec_value [OF char_class_at(5)] class_spec_value [OF char_class_at(6)] class_spec_value [OF char_class_at(7)] class_spec_value [OF char_class_at(8)] class_spec_value [OF char_class_at(9)] class_spec_value [OF char_class_at(10)] class_spec_value [OF char_class_at(11)] class_spec_value [OF char_class_at(12)] class_spec_value [OF char_class_at(13)] class_spec_value [OF char_class_at(14)] class_spec_value [OF char_class_at(15)] class_spec_value [OF char_class_at(16)])

theorem ctype_classes: "- 1 \<le> c \<Longrightarrow> c \<le> 255 \<Longrightarrow> class_spec c"
proof -
  assume "- 1 \<le> c" "c \<le> 255"
  then have "- 1 \<le> c" "c < 256" by simp_all
  then show ?thesis by (meson class_spec_at not_less)
qed

subsection \<open>The status of a child\<close>

definition WIFSTOPPED :: "u32 \<Rightarrow> bool" where "WIFSTOPPED s \<longleftrightarrow> s AND 0xFF = 0x7F"
definition WEXITSTATUS :: "u32 \<Rightarrow> u32" where "WEXITSTATUS s = signed_drop_bit 8 s AND 0xFF"
definition WTERMSIG :: "u32 \<Rightarrow> u32" where "WTERMSIG s = s AND 0x7F"
definition WSTOPSIG :: "u32 \<Rightarrow> u32" where "WSTOPSIG s = signed_drop_bit 8 s AND 0xFF"
definition WIFSIGNALED :: "u32 \<Rightarrow> bool" where "WIFSIGNALED s \<longleftrightarrow> (s - 1) AND 0xFFFF < 0xFF"

text \<open>
  \<open>sys_exit\<close> stores \<open>(code&0xff)<<8\<close>, which the macros take apart. \<open>do_signal\<close> ends a process with \<open>1<<(signr-1)\<close>, which is
  the number of the signal for 1 and 2 only; from 9 on the status is that of a regular exit.
\<close>
lemma low_byte: "(x :: u32) AND 0xff = 0xff \<Longrightarrow> \<not> x AND 0xFFFF < 0xff"
proof -
  assume x: "x AND 0xff = 0xff"
  have "(x AND 0xFFFF) AND 0xff = 0xff" using x by (simp add: and.assoc)
  then have "0xff \<le> x AND 0xFFFF" by (metis word_and_le1 and.commute)
  then show ?thesis by simp
qed

theorem exit_status:
  "WEXITSTATUS (push_bit 8 (code AND 0xff)) = code AND 0xff \<and> WTERMSIG (push_bit 8 (code AND 0xff)) = 0 \<and>
   \<not> WIFSIGNALED (push_bit 8 (code AND 0xff))"
proof (intro conjI)
  define s where "s = push_bit 8 (code AND 0xff)"
  have m: "(0xff :: u32) = mask 8" "(0x7f :: u32) = mask 7" by (simp_all add: mask_eq_exp_minus_1)
  show "WEXITSTATUS (push_bit 8 (code AND 0xff)) = code AND 0xff"
    unfolding WEXITSTATUS_def m by (rule bit_word_eqI) (auto simp: bit_simps)
  show "WTERMSIG (push_bit 8 (code AND 0xff)) = 0"
    unfolding WTERMSIG_def m by (rule bit_word_eqI) (auto simp: bit_simps)
  have "s - 1 = NOT (push_bit 8 (- (code AND 0xff)))" by (simp add: s_def push_bit_minus not_eq_complement)
  then have "(s - 1) AND 0xff = 0xff" unfolding m by (auto intro!: bit_word_eqI simp: bit_simps)
  then show "\<not> WIFSIGNALED (push_bit 8 (code AND 0xff))" using low_byte unfolding WIFSIGNALED_def s_def by simp
qed

lemma signal_status_all:
  "list_all (\<lambda>n. (WTERMSIG (push_bit (n - 1) 1) = of_nat n \<longleftrightarrow> n \<le> 2) \<and> (9 \<le> n \<longrightarrow> \<not> WIFSIGNALED (push_bit (n - 1) 1))) [1..<33]"
  by (simp add: upt_conv_Cons WTERMSIG_def WIFSIGNALED_def)

theorem signal_status:
  "1 \<le> n \<Longrightarrow> n \<le> 32 \<Longrightarrow>
    (WTERMSIG (push_bit (n - 1) 1) = of_nat n \<longleftrightarrow> n \<le> 2) \<and> (9 \<le> n \<longrightarrow> \<not> WIFSIGNALED (push_bit (n - 1) 1))"
  using signal_status_all unfolding list_all_iff by simp

end
