(* ===== verification/Wait_Laws.thy ===== *)
theory Wait_Laws
  imports Process_Laws Lib_Macros Exit_Laws
begin

text \<open>What a parent learns of the end of its child: the zombie that \<open>exit\<close> leaves, \<open>waitpid\<close> on it, and the status that is stored.\<close>

lemma wait_scan_zombie:
  "wait_scan n pd options flag s = WaitZombie i \<Longrightarrow>
     0 < i \<and> i \<le> n \<and> i \<noteq> current s \<and> (\<exists>t. task s i = Some t \<and> state t = TASK_ZOMBIE \<and> wanted pd t s)"
proof (induction n arbitrary: flag)
  case (Suc n)
  show ?case
  proof (cases "task s (Suc n)")
    case None
    then show ?thesis using Suc by fastforce
  next
    case (Some t)
    then show ?thesis using Suc.prems Suc.IH by (auto split: if_splits dest: Suc.IH)
  qed
qed simp

text \<open>The parent's side: what \<open>waitpid\<close> does with the zombie it finds.\<close>

lemma waitpid_collects:
  fixes s :: "'z sched_state_scheme" and e :: u32
  assumes area: "verify_area addr 4 s = Ok () s1" "0 < fuel w"
    and scan: "wait_scan (NR_TASKS - 1) pd options False s1 = WaitZombie i"
    and child: "task s1 i = Some t" "exit_code t = uint (push_bit 8 (e AND 0xff))"
    and page: "LOW_MEM \<le> t_page t" "t_page t < HIGH_MEMORY s1" "MAP_NR (t_page t) < PAGING_PAGES" "mem_map s1 (MAP_NR (t_page t)) \<noteq> 0"
  shows "\<exists>s2. task s2 = (task (upd_cur (\<lambda>p. p\<lparr>cutime := s32 (cutime p + utime t), cstime := s32 (cstime p + stime t)\<rparr>) s1))(i := None) \<and>
      mem_map s2 = (mem_map s1)(MAP_NR (t_page t) := mem_map s1 (MAP_NR (t_page t)) - 1) \<and>
      sys_waitpid pd addr options w s =
        bindk (reschedule (events w) s2) (\<lambda>ev s'. Ok (pid t, w\<lparr>events := ev\<rparr>) (put_fs_long (push_bit 8 (e AND 0xff)) addr s'))"
proof -
  have i: "0 < i" "i < NR_TASKS" "i \<noteq> current s1" using wait_scan_zombie[OF scan] by auto
  define s2 where "s2 = upd_cur (\<lambda>p. p\<lparr>cutime := s32 (cutime p + utime t), cstime := s32 (cstime p + stime t)\<rparr>) s1"
  define s3 where "s3 = s2\<lparr>task := (task s2)(i := None)\<rparr>"
  define s4 where "s4 = s3\<lparr>mem_map := (mem_map s3)(MAP_NR (t_page t) := mem_map s3 (MAP_NR (t_page t)) - 1)\<rparr>"
  have c: "task s2 i = Some t" "current s4 = current s1" "mem_map s3 = mem_map s1" "HIGH_MEMORY s3 = HIGH_MEMORY s1"
    using child(1) i(3) by (simp_all add: s2_def s3_def s4_def upd_cur_def upd_task_def)
  have f: "free_page (t_page t) s3 = Ok () s4" using page c by (simp add: free_page_def s4_def Let_def not_less not_le)
  have r: "release i w s2 = bindk (reschedule (events w) s4) (\<lambda>ev s'. Ok ((), w\<lparr>events := ev\<rparr>) s')"
    using i c f by (simp add: release_def seqp_def bindp_def getp_def modp_def liftp_def ifp_def schedulep_def flip: s3_def)
  have code: "word_of_int (exit_code t) = push_bit 8 (e AND 0xff)" by (simp add: child(2))
  obtain n where n: "fuel w = Suc n" using area(2) by (cases "fuel w") auto
  have "sys_waitpid pd addr options w s = reap i addr w s1"
    using area(1) scan n by (simp add: sys_waitpid_def seqp_def bindp_def liftp_def fuelp_def getp_def)
  also have "\<dots> = bindk (reschedule (events w) s4) (\<lambda>ev s'. Ok (pid t, w\<lparr>events := ev\<rparr>) (put_fs_long (push_bit 8 (e AND 0xff)) addr s'))"
    using child(1) r code by (simp add: reap_def seqp_def bindp_def getp_def modp_def retp_def bindk_assoc flip: s2_def)
  finally show ?thesis
    using c(3) by (intro exI[of _ s4]) (simp add: s4_def s3_def s2_def)
qed

lemma schedulep_no_event:
  assumes "events w = []" shows "schedulep w s = Blocked (kstate (schedule s))"
  using assms by (simp add: schedulep_def) (simp add: schedule_def Let_def split: option.split)

text \<open>The child's end: a zombie with its code stays in the table, its father has \<open>SIGCHLD\<close> pending, and the child does not run again.\<close>

lemma do_exit_zombie:
  assumes child: "current s0 = i" "drivers_stay w" "release_resources w s0 = Ok ((), w1) s1" "events w1 = []" "task s1 i = Some t"
    and father: "f < NR_TASKS" "task s1 f = Some p" "pid p = father t" "father t \<noteq> 0"
      "\<forall>j q. j < NR_TASKS \<and> task s1 j = Some q \<and> pid q = father t \<longrightarrow> j = f"
  shows "\<exists>s2. do_exit c w s0 = Blocked s2 \<and> zombie_of t c (task s2 i) \<and> pending SIGCHLD (task s2 f)"
proof -
  have cu: "current s1 = i" using staysD[OF stays_release_resources child(2,3)] child(1) by simp
  define z where "z = upd_cur (\<lambda>t. t\<lparr>state := TASK_ZOMBIE, exit_code := c\<rparr>) s1"
  have z: "task z j = (if j = i then Some (t\<lparr>state := TASK_ZOMBIE, exit_code := c\<rparr>) else task s1 j)" "current z = i" for j
    using child(5) cu by (simp_all add: z_def upd_cur_def upd_task_def)
  obtain pf where pf: "task z f = Some pf" "pid pf = father t" using father(2,3) child(5) by (cases "f = i") (auto simp: z)
  have un: "\<not> (case task z j of None \<Rightarrow> False | Some q \<Rightarrow> pid q = father t)" if "j < f" for j
  proof
    assume "case task z j of None \<Rightarrow> False | Some q \<Rightarrow> pid q = father t"
    then obtain q where "task s1 j = Some q" "pid q = father t" using child(5) by (cases "j = i") (auto simp: z split: option.splits)
    moreover have "j < NR_TASKS" using that father(1) by simp
    ultimately show False using father(5) that by blast
  qed
  have "find (\<lambda>j. case task z j of None \<Rightarrow> False | Some q \<Rightarrow> pid q = father t) [0..<NR_TASKS] = Some f"
    unfolding find_Some_iff using father(1) pf un by (intro exI[of _ f]) simp
  moreover have "father (cur z) = father t" by (simp add: cur_def z)
  ultimately have tf: "tell_father (father (cur z)) w1 z = Ok ((), w1) (add_signal SIGCHLD f z)"
    using father(4) by (simp add: tell_father_def bindp_def getp_def modp_def)
  let ?z = "add_signal SIGCHLD f z"
  have "zombie_of t c (task ?z i)"
    unfolding add_signal_def by (rule zombie.kept_upd_task) (auto simp: z zombie_of_def)
  moreover have "pending SIGCHLD (task ?z f)" using pf by (simp add: add_signal_def upd_task_def pending_def S_bit_def bit_simps)
  moreover have "do_exit c w s0 = Blocked (kstate (schedule ?z))"
    by (simp add: do_exit_unfold child(3) Let_def flip: z_def) (simp add: tf schedulep_no_event[OF child(4)])
  ultimately show ?thesis by (intro exI[of _ "kstate (schedule ?z)"]) (simp add: zombie.kept_schedule pend.kept_schedule)
qed

text \<open>
  C22. Exit and wait. A task whose resources are released ends \<open>exit(e)\<close> as a zombie that keeps its pid and times, does not run again and leaves
  \<open>SIGCHLD\<close> pending for its father. A parent that then finds it in \<open>waitpid\<close> charges itself the child's times, frees its slot and the
  page of its task, and, once it runs again, returns the child's pid with a status from which \<open>WEXITSTATUS\<close> reads the low eight bits of
  \<open>e\<close>.
\<close>
theorem wait_collects_exit:
  fixes s :: "'z tty_state_scheme" and e :: u32
  assumes child: "current s0 = i" "drivers_stay w" "release_resources w s0 = Ok ((), w1) s1" "events w1 = []" "task s1 i = Some t"
    and father: "f < NR_TASKS" "task s1 f = Some p" "pid p = father t" "father t \<noteq> 0"
      "\<forall>j q. j < NR_TASKS \<and> task s1 j = Some q \<and> pid q = father t \<longrightarrow> j = f"
    and parent: "verify_area addr 4 sp = Ok () s" "0 < fuel wp" "wait_scan (NR_TASKS - 1) pd options False s = WaitZombie i"
      "task s i = task (kstate (sys_exit e w s0)) i"
    and page: "LOW_MEM \<le> t_page t" "t_page t < HIGH_MEMORY s" "MAP_NR (t_page t) < PAGING_PAGES" "mem_map s (MAP_NR (t_page t)) \<noteq> 0"
  shows "(\<exists>s2. sys_exit e w s0 = Blocked s2 \<and> zombie_of t (uint (push_bit 8 (e AND 0xff))) (task s2 i) \<and> pending SIGCHLD (task s2 f)) \<and>
    (\<exists>s3. task s3 = (task (upd_cur (\<lambda>p. p\<lparr>cutime := s32 (cutime p + utime t), cstime := s32 (cstime p + stime t)\<rparr>) s))(i := None) \<and>
      mem_map s3 = (mem_map s)(MAP_NR (t_page t) := mem_map s (MAP_NR (t_page t)) - 1) \<and>
      sys_waitpid pd addr options wp sp =
        bindk (reschedule (events wp) s3) (\<lambda>ev s'. Ok (pid t, wp\<lparr>events := ev\<rparr>) (put_fs_long (push_bit 8 (e AND 0xff)) addr s')) \<and>
      (\<forall>s'. WEXITSTATUS (get_fs_long addr (put_fs_long (push_bit 8 (e AND 0xff)) addr (s' :: 'z tty_state_scheme))) = e AND 0xff))"
proof -
  obtain s2 where x: "sys_exit e w s0 = Blocked s2" "zombie_of t (uint (push_bit 8 (e AND 0xff))) (task s2 i)" "pending SIGCHLD (task s2 f)"
    using do_exit_zombie[OF child father, where c = "uint (push_bit 8 (e AND 0xff))"] by (auto simp: sys_exit_def)
  obtain u where u: "task s i = Some u" "exit_code u = uint (push_bit 8 (e AND 0xff))" "pid u = pid t" "utime u = utime t" "stime u = stime t" "t_page u = t_page t"
    using x(1,2) parent(4) by (auto simp: zombie_of_def)
  have "\<exists>s3. task s3 = (task (upd_cur (\<lambda>p. p\<lparr>cutime := s32 (cutime p + utime u), cstime := s32 (cstime p + stime u)\<rparr>) s))(i := None) \<and>
      mem_map s3 = (mem_map s)(MAP_NR (t_page u) := mem_map s (MAP_NR (t_page u)) - 1) \<and>
      sys_waitpid pd addr options wp sp =
        bindk (reschedule (events wp) s3) (\<lambda>ev s'. Ok (pid u, wp\<lparr>events := ev\<rparr>) (put_fs_long (push_bit 8 (e AND 0xff)) addr s'))"
    using page u(6) by (intro waitpid_collects[OF parent(1-3) u(1,2)]) simp_all
  then show ?thesis using x u exit_status[of e] by (simp add: get_put_fs_long)
qed

lemma wait_scan_finds:
  "0 < i \<Longrightarrow> i \<le> n \<Longrightarrow> task s i = Some t \<Longrightarrow> i \<noteq> current s \<Longrightarrow> wanted pd t s \<Longrightarrow> state t = TASK_ZOMBIE \<Longrightarrow>
    (\<And>j. i < j \<Longrightarrow> j \<le> n \<Longrightarrow> task s j = None) \<Longrightarrow> wait_scan n pd options flag s = WaitZombie i"
proof (induction n arbitrary: flag)
  case (Suc n)
  then show ?case by (cases "i = Suc n") auto
qed simp

lemma wait_collects_exit_witness:
  "\<exists>(s0 :: tty_state) w s2 sp s3. sys_exit 5 w s0 = Blocked s2 \<and> pending SIGCHLD (task s2 1) \<and> task sp 3 = task s2 3 \<and>
     task s3 3 = None \<and> mem_map s3 256 = 0 \<and>
     sys_waitpid (- 1) 0 0 (w\<lparr>events := [id]\<rparr>) sp = bindk (reschedule [id] s3) (\<lambda>ev s'. Ok (3, w\<lparr>events := ev\<rparr>) (put_fs_long 0x500 0 s'))"
proof -
  let ?t = "(INIT_TASK 0)\<lparr>pid := 3, father := 1, t_page := 0x200000, ldt := (\<lambda>_. \<lparr>desc_a = 0, desc_b = 0x04000000\<rparr>)\<rparr>"
  let ?w = "\<lparr>request_fn = (\<lambda>_. None), events = [], fuel = 1\<rparr> :: tty_state world"
  let ?s1 = "invalidate (invalidate demo_child)"
  have child: "current demo_child = 3" "drivers_stay ?w" "events ?w = []" "task ?s1 3 = Some ?t"
    by (simp_all add: demo_child_simps drivers_stay_def invalidate_def)
  have father: "(1 :: nat) < NR_TASKS" "task ?s1 1 = Some ((INIT_TASK 0)\<lparr>pid := 1\<rparr>)" "pid ((INIT_TASK 0)\<lparr>pid := 1\<rparr>) = father ?t" "father ?t \<noteq> 0"
      "\<forall>j q. j < NR_TASKS \<and> task ?s1 j = Some q \<and> pid q = father ?t \<longrightarrow> j = 1"
    by (auto simp: demo_child_simps invalidate_def split: if_splits)
  have rel: "release_resources ?w demo_child = Ok ((), ?w) ?s1"
    by (rule demo_child_releases[of _ 0]) (simp_all add: demo_child_simps fun_eq_iff INIT_TASK_def)
  note dead = do_exit_zombie[OF child(1,2) rel child(3,4) father]
  define x where "x = sys_exit 5 ?w demo_child"
  obtain u where u: "task (kstate x) 3 = Some u" "state u = TASK_ZOMBIE" "father u = 1"
    using dead[where c = "uint (push_bit 8 ((5 :: u32) AND 0xff))"] by (auto simp: x_def sys_exit_def zombie_of_def)
  define s where "s = demo_child\<lparr>current := 1, task := (task demo_child)(3 := task (kstate x) 3)\<rparr>"
  have v: "verify_area 0 4 s = Ok () s" by (simp add: verify_area_def write_verify_def load_def present_def s_def demo_child_simps)
  have scan: "wait_scan (NR_TASKS - 1) (- 1) 0 False s = WaitZombie 3"
    by (rule wait_scan_finds[of _ _ _ u]) (auto simp: wanted_def cur_def s_def u demo_child_simps)
  have nr: "MAP_NR 0x200000 = 256" by (simp add: MAP_NR_def)
  let ?w1 = "?w\<lparr>events := [id]\<rparr>"
  have f: "0 < fuel ?w1" "task s 3 = task (kstate x) 3" by (simp_all add: s_def)
  have page: "LOW_MEM \<le> t_page ?t" "t_page ?t < HIGH_MEMORY s" "MAP_NR (t_page ?t) < PAGING_PAGES" "mem_map s (MAP_NR (t_page ?t)) \<noteq> 0"
    by (simp_all add: nr s_def demo_child_simps)
  note r = wait_collects_exit[OF child(1,2) rel child(3,4) father v f(1) scan f(2)[unfolded x_def] page, folded x_def]
  have "(5 :: u32) AND 0xff = 5" by simp
  then obtain s2 s3 where "x = Blocked s2" "pending SIGCHLD (task s2 1)" "task s3 3 = None" "mem_map s3 256 = 0"
      "sys_waitpid (- 1) 0 0 ?w1 s = bindk (reschedule [id] s3) (\<lambda>ev s'. Ok (3, ?w\<lparr>events := ev\<rparr>) (put_fs_long 0x500 0 s'))"
    using r by (elim conjE exE, intro that) (simp_all add: nr s_def demo_child_simps del: reschedule.simps)
  then show ?thesis using f(2)
    unfolding x_def by (intro exI[of _ demo_child] exI[of _ ?w] exI[of _ s2] exI[of _ s] exI[of _ s3]) simp
qed

end
