(* ===== verification/Init_User.thy ===== *)
theory Init_User
  imports Kernel_Vsprintf
begin

text \<open>
  The first processes, src/init/main.c from \<open>move_to_user_mode\<close> on: task 0, \<open>init\<close>, the shell that reads /etc/rc and the shells on the terminal.
  They run in user mode and consist of system calls, so a program is an automaton: at each program point there is one call (\<open>call_at\<close>),
  and its results lead to the next point (\<open>user_next\<close>). \<open>fork\<close> returns in both processes, with 0 in the child.
\<close>

datatype user_call = U_setup | U_open string u32 | U_close nat | U_dup nat | U_fork | U_execve string "string list" "string list" | U_exit int
  | U_wait | U_setsid | U_sync | U_write nat string | U_pause

text \<open>Program points: task 0, the beginning of \<open>init\<close>, the process for /etc/rc, the loop of \<open>init\<close> and the shell.\<close>

datatype user_point = Idle_fork | Idle_pause
  | Init_setup | Init_open | Init_dup1 | Init_dup2 | Init_buffers | Init_memory | Init_fork
  | Rc_close | Rc_open | Rc_fail | Rc_exec | Rc_exit
  | Init_wait_rc int | Loop_fork | Loop_failed | Loop_wait int | Loop_died int u32 | Loop_sync
  | Shell_close nat | Shell_setsid | Shell_open | Shell_dup1 | Shell_dup2 | Shell_exec | Shell_exit int

definition printf_text :: "string \<Rightarrow> va list \<Rightarrow> string" where
  "printf_text fmt args = (case vsprintf fmt args of Some (_, t, _) \<Rightarrow> t | None \<Rightarrow> '''')"

definition argv_rc :: "string list" where "argv_rc = [''/bin/sh'']"
definition envp_rc :: "string list" where "envp_rc = [''HOME=/'']"
definition argv_sh :: "string list" where "argv_sh = [''-/bin/sh'']"
definition envp_sh :: "string list" where "envp_sh = [''HOME=/usr/root'']"

text \<open>The end of a line in the messages.\<close>

definition crlf :: "bool \<Rightarrow> string" where
  "crlf cr_first = (if cr_first then [CHR 0x0D, CHR 0x0A] else [CHR 0x0A, CHR 0x0D])"

text \<open>\<open>nr\<close> is the number of buffers and \<open>free\<close> the size of the main memory.\<close>

fun call_at :: "u32 \<Rightarrow> u32 \<Rightarrow> user_point \<Rightarrow> user_call" where
  "call_at nr free Idle_fork = U_fork"
| "call_at nr free Idle_pause = U_pause"
| "call_at nr free Init_setup = U_setup"
| "call_at nr free Init_open = U_open ''/dev/tty0'' 2"
| "call_at nr free Init_dup1 = U_dup 0"
| "call_at nr free Init_dup2 = U_dup 0"
| "call_at nr free Init_buffers = U_write 1 (printf_text (''%d buffers = %d bytes buffer space'' @ crlf False) [VInt nr, VInt (nr * 1024)])"
| "call_at nr free Init_memory = U_write 1 (printf_text (''Free mem: %d bytes'' @ crlf False) [VInt free])"
| "call_at nr free Init_fork = U_fork"
| "call_at nr free Rc_close = U_close 0"
| "call_at nr free Rc_open = U_open ''/etc/rc'' 0"
| "call_at nr free Rc_fail = U_exit 1"
| "call_at nr free Rc_exec = U_execve ''/bin/sh'' argv_rc envp_rc"
| "call_at nr free Rc_exit = U_exit 2"
| "call_at nr free (Init_wait_rc child) = U_wait"
| "call_at nr free Loop_fork = U_fork"
| "call_at nr free Loop_failed = U_write 1 (printf_text (''Fork failed in init'' @ crlf True) [])"
| "call_at nr free (Loop_wait child) = U_wait"
| "call_at nr free (Loop_died child i) = U_write 1
     (printf_text (crlf False @ ''child %d died with code %04x'' @ crlf False) [VInt (word_of_int child), VInt i])"
| "call_at nr free Loop_sync = U_sync"
| "call_at nr free (Shell_close k) = U_close k"
| "call_at nr free Shell_setsid = U_setsid"
| "call_at nr free Shell_open = U_open ''/dev/tty0'' 2"
| "call_at nr free Shell_dup1 = U_dup 0"
| "call_at nr free Shell_dup2 = U_dup 0"
| "call_at nr free Shell_exec = U_execve ''/bin/sh'' argv_sh envp_sh"
| "call_at nr free (Shell_exit r) = U_exit r"

text \<open>The point after the call, for its result \<open>r\<close> and the status \<open>i\<close> that \<open>wait\<close> stores. \<open>exit\<close> has none.\<close>

fun user_next :: "user_point \<Rightarrow> int \<Rightarrow> u32 \<Rightarrow> user_point option" where
  "user_next Idle_fork r i = Some (if r = 0 then Init_setup else Idle_pause)"
| "user_next Idle_pause r i = Some Idle_pause"
| "user_next Init_setup r i = Some Init_open"
| "user_next Init_open r i = Some Init_dup1"
| "user_next Init_dup1 r i = Some Init_dup2"
| "user_next Init_dup2 r i = Some Init_buffers"
| "user_next Init_buffers r i = Some Init_memory"
| "user_next Init_memory r i = Some Init_fork"
| "user_next Init_fork r i = Some (if r = 0 then Rc_close else if r > 0 then Init_wait_rc r else Loop_fork)"
| "user_next Rc_close r i = Some Rc_open"
| "user_next Rc_open r i = Some (if r \<noteq> 0 then Rc_fail else Rc_exec)"
| "user_next Rc_fail r i = None"
| "user_next Rc_exec r i = Some Rc_exit"
| "user_next Rc_exit r i = None"
| "user_next (Init_wait_rc child) r i = Some (if child \<noteq> r then Init_wait_rc child else Loop_fork)"
| "user_next Loop_fork r i = Some (if r < 0 then Loop_failed else if r = 0 then Shell_close 0 else Loop_wait r)"
| "user_next Loop_failed r i = Some Loop_fork"
| "user_next (Loop_wait child) r i = Some (if child = r then Loop_died child i else Loop_wait child)"
| "user_next (Loop_died child j) r i = Some Loop_sync"
| "user_next Loop_sync r i = Some Loop_fork"
| "user_next (Shell_close k) r i = Some (if k < 2 then Shell_close (k + 1) else Shell_setsid)"
| "user_next Shell_setsid r i = Some Shell_open"
| "user_next Shell_open r i = Some Shell_dup1"
| "user_next Shell_dup1 r i = Some Shell_dup2"
| "user_next Shell_dup2 r i = Some Shell_exec"
| "user_next Shell_exec r i = Some (Shell_exit r)"
| "user_next (Shell_exit code) r i = None"

subsection \<open>What a shell starts with\<close>

text \<open>The open files of a process, by descriptor. \<open>open\<close> and \<open>dup\<close> take the lowest free descriptor, as
  \<open>sys_open\<close> and \<open>dupfd\<close> do; the terminal exists, while another file may be missing. A process that executes a program is at its end
  here. The other calls leave the descriptors alone.\<close>

type_synonym files = "nat \<Rightarrow> string option"

definition lowest_free :: "files \<Rightarrow> nat \<Rightarrow> bool" where
  "lowest_free fds n \<longleftrightarrow> fds n = None \<and> (\<forall>m<n. fds m \<noteq> None)"

inductive call_files :: "user_call \<Rightarrow> files \<Rightarrow> int \<Rightarrow> files \<Rightarrow> bool" where
  open_file: "lowest_free fds n \<Longrightarrow> call_files (U_open path fl) fds (int n) (fds(n := Some path))"
| open_fails: "path \<noteq> ''/dev/tty0'' \<Longrightarrow> r < 0 \<Longrightarrow> call_files (U_open path fl) fds r fds"
| close_file: "fds k \<noteq> None \<Longrightarrow> call_files (U_close k) fds 0 (fds(k := None))"
| dup_file: "fds k = Some f \<Longrightarrow> lowest_free fds n \<Longrightarrow> call_files (U_dup k) fds (int n) (fds(n := Some f))"
| fork_call: "call_files U_fork fds r fds"
| exec_fails: "r < 0 \<Longrightarrow> call_files (U_execve path av ev) fds r fds"
| other_call: "c \<in> {U_setup, U_wait, U_setsid, U_sync, U_pause} \<Longrightarrow> call_files c fds r fds"
| write_call: "call_files (U_write k t) fds r fds"

inductive user_run :: "user_point \<Rightarrow> files \<Rightarrow> bool" where
  user_start: "user_run Idle_fork (\<lambda>_. None)"
| user_step: "user_run p fds \<Longrightarrow> call_files (call_at nr free p) fds r fds' \<Longrightarrow> user_next p r i = Some p' \<Longrightarrow> user_run p' fds'"

inductive_cases call_openE: "call_files (U_open path fl) fds r fds'"
inductive_cases call_closeE: "call_files (U_close k) fds r fds'"
inductive_cases call_dupE: "call_files (U_dup k) fds r fds'"
inductive_cases call_execE: "call_files (U_execve path av ev) fds r fds'"

inductive_simps call_same [simp]:
  "call_files U_fork fds r fds'" "call_files U_setup fds r fds'" "call_files U_wait fds r fds'" "call_files U_setsid fds r fds'"
  "call_files U_sync fds r fds'" "call_files U_pause fds r fds'" "call_files (U_write k t) fds r fds'" "call_files (U_exit k) fds r fds'"

lemmas call_elims = call_openE call_closeE call_dupE call_execE

text \<open>The first \<open>n\<close> descriptors are the terminal and no other is open.\<close>

definition on_tty :: "nat set \<Rightarrow> files" where
  "on_tty A = (\<lambda>k. if k \<in> A then Some ''/dev/tty0'' else None)"

fun expected_files :: "user_point \<Rightarrow> files" where
  "expected_files Idle_fork = on_tty {}"
| "expected_files Idle_pause = on_tty {}"
| "expected_files Init_setup = on_tty {}"
| "expected_files Init_open = on_tty {}"
| "expected_files Init_dup1 = on_tty {0}"
| "expected_files Init_dup2 = on_tty {0, 1}"
| "expected_files Rc_open = on_tty {1, 2}"
| "expected_files Rc_fail = on_tty {1, 2}"
| "expected_files Rc_exec = (on_tty {1, 2})(0 := Some ''/etc/rc'')"
| "expected_files Rc_exit = (on_tty {1, 2})(0 := Some ''/etc/rc'')"
| "expected_files (Shell_close k) = on_tty {k..<3}"
| "expected_files Shell_setsid = on_tty {}"
| "expected_files Shell_open = on_tty {}"
| "expected_files Shell_dup1 = on_tty {0}"
| "expected_files Shell_dup2 = on_tty {0, 1}"
| "expected_files p = on_tty {0, 1, 2}"

lemma lowest_free_unique: "lowest_free fds n \<Longrightarrow> lowest_free fds m \<Longrightarrow> n = m"
  unfolding lowest_free_def by (metis linorder_neqE_nat)

lemma lowest_on_tty [simp]:
  "lowest_free (on_tty {}) n \<longleftrightarrow> n = 0" "lowest_free (on_tty {0}) n \<longleftrightarrow> n = 1"
  "lowest_free (on_tty {0, Suc 0}) n \<longleftrightarrow> n = 2" "lowest_free (on_tty {Suc 0, 2}) n \<longleftrightarrow> n = 0"
proof -
  have "lowest_free (on_tty {}) 0" "lowest_free (on_tty {0}) 1" "lowest_free (on_tty {0, Suc 0}) 2" "lowest_free (on_tty {Suc 0, 2}) 0"
    by (auto simp: lowest_free_def on_tty_def)
  thus "lowest_free (on_tty {}) n \<longleftrightarrow> n = 0" "lowest_free (on_tty {0}) n \<longleftrightarrow> n = 1"
    "lowest_free (on_tty {0, Suc 0}) n \<longleftrightarrow> n = 2" "lowest_free (on_tty {Suc 0, 2}) n \<longleftrightarrow> n = 0"
    using lowest_free_unique by blast+
qed

lemma on_tty_close: "(on_tty {0, Suc 0, 2})(0 := None) = on_tty {Suc 0, 2}" "(on_tty {k..<3})(k := None) = on_tty {Suc k..<3}"
  by (auto simp: on_tty_def fun_eq_iff)

lemma on_tty_add: "(on_tty A)(n := Some ''/dev/tty0'') = on_tty (insert n A)" by (auto simp: on_tty_def fun_eq_iff)

lemma on_tty_0: "on_tty A 0 = Some f \<Longrightarrow> f = ''/dev/tty0''" by (auto simp: on_tty_def split: if_splits)

lemma tty_3: "{0..<3::nat} = {0, Suc 0, 2}" "{Suc 2..<3::nat} = {}" "{Suc 0, 0} = {0, Suc 0}" "{2::nat, 0, Suc 0} = {0, Suc 0, 2}" by auto

lemma user_files_step:
  "call_files (call_at nr free p) (expected_files p) r fds' \<Longrightarrow> user_next p r i = Some p' \<Longrightarrow> fds' = expected_files p'"
  by (cases p) (auto elim!: call_elims split: if_splits dest!: on_tty_0 simp: on_tty_close on_tty_add tty_3)

lemma user_run_files: "user_run p fds \<Longrightarrow> fds = expected_files p"
  by (induction rule: user_run.induct) (use user_files_step in \<open>auto simp: on_tty_def\<close>)

text \<open>
  Descriptors of the shells: whichever way task 0 and \<open>init\<close> get there (results of \<open>fork\<close>, lost children, a missing /etc/rc), the
  process that executes /bin/sh for the start-up file reads /etc/rc on descriptor 0 and has the terminal on 1 and 2, a shell of the loop has the
  terminal on 0, 1 and 2, and neither has another descriptor open.
\<close>
theorem shell_descriptors:
  assumes "user_run p fds" and "call_at nr free p = U_execve path av ev"
  shows "path = ''/bin/sh'' \<and> (av, ev) \<in> {(argv_rc, envp_rc), (argv_sh, envp_sh)} \<and>
    fds = (\<lambda>k. if k = 0 \<and> av = argv_rc then Some ''/etc/rc'' else if k < 3 then Some ''/dev/tty0'' else None)"
  using assms(2) user_run_files [OF assms(1)] by (cases p) (auto simp: argv_rc_def argv_sh_def on_tty_def fun_eq_iff)

lemma user_go:
  "user_run p fds \<Longrightarrow> call_files (call_at 0 0 p) fds r fds' \<Longrightarrow> user_next p r 0 = Some p' \<Longrightarrow> fds' = fds'' \<Longrightarrow> user_run p' fds''"
  using user_step by blast

lemma on_tty_at [simp]: "k \<in> A \<Longrightarrow> on_tty A k = Some ''/dev/tty0''" by (simp add: on_tty_def)

lemma demo_rc_run: "user_run Rc_exec (expected_files Rc_exec)"
proof -
  have "user_run Init_setup (on_tty {})" by (rule user_go [OF user_start]) (auto simp: on_tty_def)
  hence "user_run Init_open (on_tty {})" by (rule user_go) auto
  hence "user_run Init_dup1 (on_tty {0})" by (rule user_go [where r = 0]) (use open_file [of "on_tty {}" 0 "''/dev/tty0''" 2] in \<open>auto simp: on_tty_add\<close>)
  hence "user_run Init_dup2 (on_tty {0, Suc 0})"
    by (rule user_go [where r = 1]) (use dup_file [of "on_tty {0}" 0 _ 1] in \<open>auto simp: on_tty_add tty_3\<close>)
  hence "user_run Init_buffers (on_tty {0, Suc 0, 2})"
    by (rule user_go [where r = 2]) (use dup_file [of "on_tty {0, Suc 0}" 0 _ 2] in \<open>auto simp: on_tty_add tty_3\<close>)
  hence "user_run Init_memory (on_tty {0, Suc 0, 2})" by (rule user_go) auto
  hence "user_run Init_fork (on_tty {0, Suc 0, 2})" by (rule user_go) auto
  hence "user_run Rc_close (on_tty {0, Suc 0, 2})" by (rule user_go) auto
  hence "user_run Rc_open (on_tty {Suc 0, 2})"
    by (rule user_go [where r = 0]) (use close_file [of "on_tty {0, Suc 0, 2}" 0] in \<open>auto simp: on_tty_close\<close>)
  thus ?thesis by (rule user_go [where r = 0]) (use open_file [of "on_tty {Suc 0, 2}" 0] in auto)
qed

lemma shell_descriptors_witness:
  "user_run Rc_exec (expected_files Rc_exec) \<and> expected_files Rc_exec 0 = Some ''/etc/rc'' \<and> expected_files Rc_exec 2 = Some ''/dev/tty0'' \<and>
    expected_files Rc_exec 3 = None"
  using shell_descriptors [OF demo_rc_run, where path = "''/bin/sh''" and av = argv_rc and ev = envp_rc and nr = 0 and free = 0] demo_rc_run
  by simp

end
