(* ===== verification/Spec2Isabelle.thy ===== *)
theory Spec2Isabelle
  imports Kernel_Sys Kernel_Mktime Kernel_Vsprintf Fs_Cache_Laws Fs_Namei Chr_Tty_Io Chr_Tty_Laws Chr_Console_Laws
    Fs_Disk_Laws Fs_Pipe_Laws Fs_File_Laws Process_Laws Malloc_Laws Mm_Demand Exec_Laws String_Laws Hd_Laws Floppy_Laws
    Kernel_Traps Lib_Syscall Syscall_Laws Init_Main Tools_Build
    Chr_Interrupt_Laws Boot_Head Kernel_Entry Wait_Laws Init_User
begin

text \<open>
  A model of the Linux 0.11 kernel, with the program that builds its boot image and the user's side of its system
  calls. Paths are relative to src/.

  \<^bold>\<open>How the parts work together.\<close> A program enters the kernel through \<open>int 0x80\<close> (\<open>_system_call\<close>), a page
  fault or an interrupt. System calls work on the process table, on open files and on memory; file operations
  go through inodes to the buffer cache, which asks the block drivers for blocks and sleeps until the driver's interrupt
  routine unlocks the buffer. Terminals move bytes between ring buffers under the control of the line discipline. On the
  way back to the program \<open>ret_from_sys_call\<close> reschedules and delivers signals.

  \<^bold>\<open>Outcomes.\<close> A routine returns \<open>Ok v s\<close>, or ends in \<open>Panic\<close>, in \<open>Exit\<close> (it calls \<open>do_exit\<close>), in \<open>Blocked\<close> (it has
  not returned) or in \<open>Fault\<close> (it uses memory outside the object it works on). Error numbers are the negative values of the
  code. A routine that may sleep is a \<open>proc\<close> (\<open>Kernel_Proc\<close>): it runs in a \<open>world\<close> that holds the request functions
  of the block devices, the list of what others do to the state while the caller sleeps, and a bound on the
  rounds of loops that the code does not bound. Statements about such routines hold for every world, or for every
  world whose events keep the invariant in question. After \<open>schedule\<close> a task goes on only when those events have left it runnable (\<open>resumable\<close>; task 0 always).

  \<^bold>\<open>State.\<close> The static data of the kernel is one record that grows with the layers: \<open>mm_state\<close> (physical memory and
  its map), \<open>sched_state\<close> (process table, clock, timers, wait queues), \<open>fs_state\<close> (buffers, inodes, files, super blocks,
  requests), \<open>tty_state\<close> (terminals and console), \<open>hd_state\<close> (hard disk driver), \<open>fd_state\<close> (floppy driver) and \<open>kbd_state\<close>
  (keyboard). The
  allocator of lib/malloc.c adds its descriptors to \<open>mm_state\<close> (\<open>malloc_state\<close>). Operations are polymorphic in the rest of the
  record.

  \<^bold>\<open>Memory.\<close> \<open>Mm_Memory\<close> and \<open>Mm_Demand\<close> are mm/memory.c; \<open>Kernel_Words\<close> has the facts about addresses. \<open>Mm_Paging\<close> shows
  what the page tables translate: \<open>put_page\<close> maps one page, a write-protection fault keeps what every
  user page reads, copying and freeing a table restores the reference counts. \<open>Lib_Malloc\<close> is lib/malloc.c; \<open>Malloc_Laws\<close>
  has the locale \<open>allocator\<close>, interpreted on \<open>malloc\<close> and \<open>free_s\<close>: objects in use lie apart, allocation fails only by its panics, and an empty page
  is given back.

  \<^bold>\<open>Processes.\<close> \<open>Kernel_Task\<close> is include/linux/sched.h, \<open>Kernel_Sched\<close> kernel/sched.c, \<open>Kernel_Signal\<close> kernel/signal.c,
  \<open>Kernel_Fork\<close> kernel/fork.c, \<open>Kernel_Exit\<close> kernel/exit.c, \<open>Kernel_Sys\<close> kernel/sys.c, \<open>Fs_Exec\<close> fs/exec.c. \<open>Sched_Laws\<close>
  shows the choice of \<open>schedule\<close>, the wait-queue protocol (an inductive step relation) and the timers; \<open>Process_Laws\<close> process
  creation, pids, \<open>kill\<close> and the adoption of children; \<open>Exit_Laws\<close> that a task does not come back from
  \<open>do_exit\<close> and stays a zombie or has left the table (its locale \<open>slot_kept\<close> is about what the scheduler leaves alone in a slot);
  \<open>Wait_Laws\<close> the way from \<open>exit\<close> of a child to \<open>waitpid\<close> of its parent; \<open>Exec_Laws\<close> the stack of a new program. The locale \<open>sched_blind\<close> is
  the interface of a subsystem to the scheduler: an invariant that does not look at the scheduler's data survives sleeping.

  \<^bold>\<open>Entries.\<close> \<open>Kernel_Syscall\<close> is the C-visible part of kernel/system_call.s with the table of include/linux/sys.h,
  \<open>Lib_Syscall\<close> include/unistd.h and the stubs under lib/, \<open>Kernel_Traps\<close> kernel/traps.c, printk.c, panic.c and
  math/math_emulate.c, \<open>Kernel_Entry\<close> the entries of kernel/asm.s, mm/page.s and the exceptions in system_call.s. \<open>Syscall_Laws\<close> shows that a
  killed task ends in \<open>do_exit\<close>, \<open>Kernel_Entry\<close> that a fatal exception does and that a page fault outside the executable gives zeros.

  \<^bold>\<open>Start-up.\<close> \<open>Boot_Head\<close> is boot/head.s with the page tables it sets up, which map 16 MB to themselves; \<open>Init_Main\<close> the body of
  \<open>main\<close>; \<open>Init_User\<close> task 0 and \<open>init\<close>, which run in user mode: automata of system calls, with the descriptors their shells start with.

  \<^bold>\<open>Block devices.\<close> \<open>Blk_Request\<close> is ll_rw_blk.c, blk.h and ramdisk.c of kernel/blk_drv, with the order of the request queue; its locale
  \<open>blk_blind\<close> extends \<open>sched_blind\<close> by what the request layer touches and is interpreted on the invariant of the buffer
  cache. \<open>Blk_Hd\<close> and \<open>Blk_Floppy\<close> are hd.c and floppy.c, \<open>Hd_Laws\<close> and \<open>Floppy_Laws\<close> show that the loops
  end, that commands address the sectors asked for and that a read fills exactly its buffer.

  \<^bold>\<open>File system.\<close> \<open>Fs_Types\<close> is include/linux/fs.h, \<open>Fs_Buffer\<close> buffer.c, \<open>Fs_Inode\<close> inode.c, bitmap.c and truncate.c,
  \<open>Fs_Namei\<close> namei.c, \<open>Fs_Files\<close> read_write.c, file_dev.c, block_dev.c, char_dev.c and pipe.c, \<open>Fs_Open\<close> super.c, open.c,
  fcntl.c, ioctl.c and stat.c, all of fs/. \<open>Fs_Cache\<close> and \<open>Fs_Cache_Laws\<close> have the invariant of the buffer cache on the
  doubly linked lists of \<open>Kernel_Dlist\<close>; \<open>Fs_Disk_Laws\<close> the bitmaps (locale \<open>bitmap\<close>) and the inodes, written and read through the cache; \<open>Fs_Pipe_Laws\<close> pipes;
  \<open>Fs_File_Laws\<close> descriptors and their counts.

  \<^bold>\<open>Terminals.\<close> \<open>Chr_Tty\<close> and \<open>Chr_Tty_Io\<close> are tty_io.c and tty_ioctl.c of kernel/chr_drv, \<open>Chr_Console\<close> console.c and the write
  routine of serial.c. \<open>Chr_Tty_Laws\<close> has the locale \<open>byte_queue\<close>, interpreted on the ring buffers, and the refinement of
  \<open>copy_to_cooked\<close> to line editing on lists; \<open>Chr_Console_Laws\<close> the bounds of the video memory. \<open>Chr_Keyboard\<close> is keyboard.S, \<open>Chr_Serial\<close>
  rs_io.s; \<open>Chr_Interrupt_Laws\<close> shows that the keyboard follows the shift keys, that a typed character edits the line and that the write
  queue of a serial line is sent in order. The locale \<open>tty_blind\<close> of \<open>Chr_Blind\<close> extends \<open>sched_blind\<close>: an invariant that
  does not look at terminals, such as that of the buffer cache, survives the terminal routines.

  \<^bold>\<open>Libraries and tools.\<close> \<open>Kernel_Mktime\<close> is kernel/mktime.c, \<open>Kernel_Vsprintf\<close> kernel/vsprintf.c, \<open>Lib_String\<close>
  include/string.h (laws in \<open>String_Laws\<close>), \<open>Lib_Macros\<close> the macros of include/ctype.h and
  sys/wait.h, \<open>Tools_Build\<close> tools/build.c. \<open>Kernel_Prelude\<close> holds the machine integers,
  the outcomes and the lemmas all theories share.

  \<^bold>\<open>Bounds.\<close> Loops over tables run over the indices of the table. Loops along linked structures are bounded by the number of
  elements (\<open>NR_REQUEST\<close> for request queues, \<open>chain_fuel\<close> for descriptors of the allocator, whose adequacy is part of the
  invariants). \<open>do_hd_request\<close> takes \<open>8 * NR_REQUEST + 1\<close> rounds, the search for a pid \<open>NR_TASKS + 1\<close>; that these are
  enough is proved. The loop of \<open>schedule\<close> and the string instructions without a count are partial functions, and that they
  return is part of what is shown about them. Loops that wait for others are bounded by \<open>fuel\<close> of the world; the keyboard
  and serial interrupts take the bound of the loops that wait for a chip as an argument.

  \<^bold>\<open>Outside the program.\<close> What the ports of the devices answer (\<open>hd_input\<close>, \<open>hd_data\<close>), the addresses of the assembly entry points
  (\<open>vec\<close>), the addresses of buffers, and the contents of uninitialised or padding bytes (\<open>fresh\<close>, \<open>pad\<close>) are arguments.

  \<^bold>\<open>Not modelled.\<close> boot/bootsect.s and boot/setup.s, 16-bit code made of BIOS calls that runs before the kernel, and in boot/head.s the tests of
  the A20 line and of the coprocessor and the loading of segment registers. Messages of \<open>printk\<close> stand for their formats outside
  \<open>printk_tty\<close>. Of the headers, declarations and constants nothing uses. Interrupts occur where the code sleeps or where their
  routine is called, not between two statements; \<open>cli\<close> and \<open>sti\<close> have no effect in the model. The direction flag is taken to be
  clear on entry to the string instructions.
\<close>

end
